(* ===== verification/Prelude.thy ===== *)
theory Prelude
  imports "HOL-Library.Word"
begin

text \<open>
  Shared ground of the development: the widths of the machine integers, the C conversions
  between them, the part of the C library that the firmware calls (string scanning with
  \<open>strtok_r\<close>, \<open>strtol\<close>, \<open>strncmp\<close>, decimal printing, bounded \<open>snprintf\<close>) and the generic
  lemmas the component theories use.

  A C string is a \<^typ>\<open>string\<close> without its terminating NUL.  A C \<open>int\<close> is an \<^typ>\<open>int\<close>; where
  the source converts or overflows, \<open>s32\<close> reduces to the 32 bits of the target.  Unsigned
  integers are words of their width, so that \<open>+\<close>, \<open>-\<close> and \<open>*\<close> wrap as they do in C.
\<close>

unbundle bit_operations_syntax

section \<open>Integer widths and conversions\<close>

type_synonym u8 = "8 word"
type_synonym u16 = "16 word"
type_synonym u32 = "32 word"
type_synonym u64 = "64 word"

named_theorems c_conv \<open>evaluation of C integer conversions\<close>
named_theorems c_str \<open>evaluation of C string functions\<close>

text \<open>Conversion to a 32 bit \<open>int\<close>: two's complement reduction.\<close>

definition s32 :: "int \<Rightarrow> int" where
  "s32 x = (x + 2147483648) mod 4294967296 - 2147483648"

lemma s32_id [c_conv]: "- 2147483648 \<le> x \<Longrightarrow> x < 2147483648 \<Longrightarrow> s32 x = x"
  by (simp add: s32_def)

lemma s32_range: "- 2147483648 \<le> s32 x \<and> s32 x < 2147483648"
  using pos_mod_bound [of 4294967296 "x + 2147483648"]
    pos_mod_sign [of 4294967296 "x + 2147483648"]
  by (simp add: s32_def)

definition int_of_word :: "'a::len word \<Rightarrow> int" where
  "int_of_word w = s32 (uint w)"

lemma int_of_word_small [c_conv]: "uint w < 2147483648 \<Longrightarrow> int_of_word w = uint w"
  using s32_id [of "uint w"] uint_ge_0 [of w] by (simp add: int_of_word_def)

lemma word_of_int_s32: "(word_of_int (s32 x) :: u32) = word_of_int x"
proof -
  have "s32 x mod 4294967296 = x mod 4294967296"
    unfolding s32_def by (simp add: mod_diff_left_eq)
  then show ?thesis
    by (simp add: word_of_int_eq_iff take_bit_eq_mod)
qed

text \<open>Elapsed time between two readings of the 64 bit millisecond clock.\<close>

lemma unat_diff_le: "b \<le> a \<Longrightarrow> unat (a - b) = unat a - unat b" for a b :: "'a::len word"
  by (simp add: unat_sub)

section \<open>Strings\<close>

text \<open>\<open>strncmp(a, b, n) != 0\<close> and the idiom that compares two strings for equality.\<close>

definition strncmp_ne :: "string \<Rightarrow> string \<Rightarrow> nat \<Rightarrow> bool" where
  "strncmp_ne a b n \<longleftrightarrow> take n a \<noteq> take n b"

lemma strncmp_full [c_str]:
  "length a = length b \<Longrightarrow> strncmp_ne a b (length a) \<longleftrightarrow> a \<noteq> b"
  by (simp add: strncmp_ne_def)

lemma strncmp_full' [c_str]:
  "length a = length b \<Longrightarrow> strncmp_ne a b (length b) \<longleftrightarrow> a \<noteq> b"
  by (simp add: strncmp_ne_def)

lemma strncmp_prefix:
  "length a \<le> length b \<Longrightarrow> \<not> strncmp_ne a b (length a) \<longleftrightarrow> (\<exists>r. b = a @ r)"
  by (auto simp: strncmp_ne_def) (metis append_take_drop_id)

lemma takeWhile_until [c_str]: "d \<notin> set xs \<Longrightarrow> takeWhile (\<lambda>x. x \<noteq> d) (xs @ ys) = xs @ takeWhile (\<lambda>x. x \<noteq> d) ys"
  by (induction xs) auto

lemma takeWhile_whole [c_str]: "d \<notin> set xs \<Longrightarrow> takeWhile (\<lambda>x. x \<noteq> d) xs = xs"
  by (induction xs) auto

lemma dropWhile_until [c_str]: "d \<notin> set xs \<Longrightarrow> dropWhile (\<lambda>x. x \<noteq> d) (xs @ ys) = dropWhile (\<lambda>x. x \<noteq> d) ys"
  by (induction xs) auto

text \<open>
  \<open>strtok_r(rest, d, &rest)\<close> for a one-character delimiter set, with the save pointer the
  target's C library (newlib) leaves: NULL when the token ends at the end of the string.
\<close>

definition strtok_r :: "char \<Rightarrow> string option \<Rightarrow> string option \<times> string option" where
  "strtok_r d s = (case s of None \<Rightarrow> (None, None) | Some s \<Rightarrow>
     (let t = dropWhile (\<lambda>c. c = d) s in
      if t = [] then (None, None)
      else (let tok = takeWhile (\<lambda>c. c \<noteq> d) t; r = dropWhile (\<lambda>c. c \<noteq> d) t in
            (Some tok, if r = [] then None else Some (tl r)))))"

lemma strtok_r_None [simp]: "strtok_r d None = (None, None)"
  by (simp add: strtok_r_def)

lemma strtok_r_Some_iff:
  "strtok_r d (Some s) = (Some tok, r) \<longleftrightarrow>
     dropWhile (\<lambda>c. c = d) s \<noteq> [] \<and>
     tok = takeWhile (\<lambda>c. c \<noteq> d) (dropWhile (\<lambda>c. c = d) s) \<and>
     r = (let u = dropWhile (\<lambda>c. c \<noteq> d) (dropWhile (\<lambda>c. c = d) s)
          in if u = [] then None else Some (tl u))"
proof -
  define t where "t = dropWhile (\<lambda>c. c = d) s"
  show ?thesis unfolding strtok_r_def option.case Let_def
    by (fold t_def, cases "t = []") auto
qed

lemma strtok_r_shrinks:
  assumes "strtok_r d (Some s) = (Some tok, Some r)"
  shows "length r < length s"
proof -
  define t where "t = dropWhile (\<lambda>c. c = d) s"
  define u where "u = dropWhile (\<lambda>c. c \<noteq> d) t"
  have "length t \<le> length s" and "length u \<le> length t"
    unfolding t_def u_def by (rule length_dropWhile_le)+
  moreover have "u \<noteq> []" and "r = tl u"
    using assms unfolding strtok_r_Some_iff Let_def
    by (fold t_def, fold u_def) (cases "u = []", simp, simp)+
  ultimately show ?thesis by (cases u) auto
qed

lemma strtok_r_tok_nonempty:
  assumes "strtok_r d s = (Some tok, r)"
  shows "tok \<noteq> [] \<and> d \<notin> set tok"
proof (cases s)
  case None
  with assms show ?thesis by simp
next
  case (Some cs)
  define t where "t = dropWhile (\<lambda>c. c = d) cs"
  have t: "t \<noteq> []" and tok: "tok = takeWhile (\<lambda>c. c \<noteq> d) t"
    using assms unfolding Some strtok_r_Some_iff t_def by blast+
  have "hd t \<noteq> d" using hd_dropWhile [of "\<lambda>c. c = d" cs] t unfolding t_def by blast
  with t tok show ?thesis by (cases t) (auto dest: set_takeWhileD)
qed

lemma strtok_r_simple:
  assumes "tok \<noteq> []" and "d \<notin> set tok"
  shows "strtok_r d (Some (tok @ d # r)) = (Some tok, Some r)"
    and "strtok_r d (Some tok) = (Some tok, None)"
proof -
  obtain c cs where c: "tok = c # cs" and cd: "c \<noteq> d" using assms by (cases tok) auto
  have drop: "dropWhile (\<lambda>x. x = d) (tok @ ys) = tok @ ys" for ys
    using c cd by simp
  have all: "\<forall>x\<in>set tok. x \<noteq> d" using assms(2) by auto
  have t: "takeWhile (\<lambda>x. x \<noteq> d) (tok @ ys) = tok @ takeWhile (\<lambda>x. x \<noteq> d) ys" for ys
    using all by (simp add: takeWhile_append2)
  have u: "dropWhile (\<lambda>x. x \<noteq> d) (tok @ ys) = dropWhile (\<lambda>x. x \<noteq> d) ys" for ys
    using all by (simp add: dropWhile_append2)
  show "strtok_r d (Some (tok @ d # r)) = (Some tok, Some r)"
    using drop [of "d # r"] t [of "d # r"] u [of "d # r"] assms(1)
    by (simp add: strtok_r_def Let_def)
  show "strtok_r d (Some tok) = (Some tok, None)"
    using drop [of "[]"] t [of "[]"] u [of "[]"] assms(1)
    by (simp add: strtok_r_def Let_def)
qed

text \<open>All tokens of a string, as the loop \<open>while ((tok = strtok_r(rest, d, &rest)))\<close> meets them.\<close>

function strtok_all :: "char \<Rightarrow> string option \<Rightarrow> string list" where
  "strtok_all d s =
     (case strtok_r d s of (None, _) \<Rightarrow> [] | (Some tok, r) \<Rightarrow> tok # strtok_all d r)"
  by pat_completeness auto
termination
proof (relation "measure (\<lambda>(d, s). case s of None \<Rightarrow> 0 | Some s \<Rightarrow> Suc (length s))", goal_cases)
  case 1
  show ?case by simp
next
  case (2 d s p r)
  then show ?case
    by (cases s; cases r) (auto dest: strtok_r_shrinks [OF sym])
qed

declare strtok_all.simps [simp del]

section \<open>Numbers in strings\<close>

definition is_space :: "char \<Rightarrow> bool" where
  "is_space c = (let n = of_char c :: nat in n = 32 \<or> (9 \<le> n \<and> n \<le> 13))"

definition digit_val :: "char \<Rightarrow> nat option" where
  "digit_val c = (let n = of_char c :: nat in
     if 48 \<le> n \<and> n \<le> 57 then Some (n - 48)
     else if 97 \<le> n \<and> n \<le> 122 then Some (n - 87)
     else if 65 \<le> n \<and> n \<le> 90 then Some (n - 55) else None)"

definition is_digit :: "nat \<Rightarrow> char \<Rightarrow> bool" where
  "is_digit b c = (case digit_val c of None \<Rightarrow> False | Some v \<Rightarrow> v < b)"

fun digits_value :: "nat \<Rightarrow> int \<Rightarrow> string \<Rightarrow> int \<times> string" where
  "digits_value b acc [] = (acc, [])"
| "digits_value b acc (c # cs) =
     (if is_digit b c then digits_value b (acc * int b + int (the (digit_val c))) cs
      else (acc, c # cs))"

definition hex_prefix :: "string \<Rightarrow> bool" where
  "hex_prefix s = (case s of z # x # h # _ \<Rightarrow>
     z = CHR ''0'' \<and> (x = CHR ''x'' \<or> x = CHR ''X'') \<and> is_digit 16 h | _ \<Rightarrow> False)"

definition clamp_long :: "int \<Rightarrow> int" where
  "clamp_long v = max (- 2147483648) (min 2147483647 v)"

text \<open>
  \<open>strtol(s, &end, base)\<close> for the bases the source uses (0, 10, 16): value and rest.
  \<open>strtol_digits\<close> reads the digits after white space, sign and prefix.
\<close>

definition strtol_digits :: "string \<Rightarrow> bool \<Rightarrow> nat \<Rightarrow> string \<Rightarrow> int \<times> string" where
  "strtol_digits s neg b t =
     (if t = [] \<or> \<not> is_digit b (hd t) then (0, s)
      else (let (v, r) = digits_value b 0 t in (clamp_long (if neg then - v else v), r)))"

definition strtol :: "nat \<Rightarrow> string \<Rightarrow> int \<times> string" where
  "strtol base s =
     (let t = dropWhile is_space s;
          neg = (t \<noteq> [] \<and> hd t = CHR ''-'');
          t1 = (if t \<noteq> [] \<and> (hd t = CHR ''-'' \<or> hd t = CHR ''+'') then tl t else t)
      in if (base = 0 \<or> base = 16) \<and> hex_prefix t1 then strtol_digits s neg 16 (drop 2 t1)
         else if base = 0 then strtol_digits s neg (if t1 \<noteq> [] \<and> hd t1 = CHR ''0'' then 8 else 10) t1
         else strtol_digits s neg base t1)"

definition strtol_val :: "nat \<Rightarrow> string \<Rightarrow> int" where
  "strtol_val base s = fst (strtol base s)"

definition atoi :: "string \<Rightarrow> int" where
  "atoi s = strtol_val 10 s"

lemma strtol_digits_range:
  "- 2147483648 \<le> fst (strtol_digits s neg b t) \<and> fst (strtol_digits s neg b t) \<le> 2147483647"
  by (simp add: strtol_digits_def clamp_long_def case_prod_beta)

lemma fst_if_range:
  "lo \<le> fst a \<and> fst a \<le> hi \<Longrightarrow> lo \<le> fst b \<and> fst b \<le> hi \<Longrightarrow>
   lo \<le> fst (if c then a else b) \<and> fst (if c then a else b) \<le> hi"
  by simp

lemma strtol_range: "- 2147483648 \<le> strtol_val b s \<and> strtol_val b s \<le> 2147483647"
  unfolding strtol_val_def strtol_def Let_def
  by (intro fst_if_range strtol_digits_range)

lemma strtol_empty [simp, c_str]: "strtol b [] = (0, [])" "strtol_val b [] = 0"
  by (simp_all add: strtol_val_def strtol_def strtol_digits_def hex_prefix_def)

section \<open>Printing\<close>

fun nat_str :: "nat \<Rightarrow> string" where
  "nat_str n = (if n < 10 then [char_of (48 + n)] else nat_str (n div 10) @ [char_of (48 + n mod 10)])"

declare nat_str.simps [simp del]

definition int_str :: "int \<Rightarrow> string" where
  "int_str i = (if i < 0 then CHR ''-'' # nat_str (nat (- i)) else nat_str (nat i))"

lemma nat_str_nonempty [simp]: "nat_str n \<noteq> []"
  by (subst nat_str.simps) simp

text \<open>
  The \<open>ADD_MQTT_MSG\<close> macros of the modules: \<open>count\<close> is the length printed so far,
  \<open>snprintf\<close> writes at most \<open>len - count\<close> bytes (its NUL included) and returns the length it
  would have printed.  None is the early return of the macro.
\<close>

definition add_msg :: "nat \<Rightarrow> string \<Rightarrow> string \<times> nat \<Rightarrow> (string \<times> nat) option" where
  "add_msg len s st = (case st of (buf, count) \<Rightarrow>
     if len < count then None
     else Some (buf @ take (len - count - 1) s, count + length s))"

fun add_msgs :: "nat \<Rightarrow> string list \<Rightarrow> string \<times> nat \<Rightarrow> (string \<times> nat) option" where
  "add_msgs len [] st = Some st"
| "add_msgs len (s # ss) st = (case add_msg len s st of None \<Rightarrow> None | Some st' \<Rightarrow> add_msgs len ss st')"

definition build_msg :: "nat \<Rightarrow> string list \<Rightarrow> string option" where
  "build_msg len ss = map_option fst (add_msgs len ss ([], 0))"

lemma take_append_take:
  "take m xs @ take (m - length xs) ys = take m (xs @ ys)"
  by simp

lemma add_msgs_fits:
  "count = length out \<Longrightarrow> buf = take (len - 1) out \<Longrightarrow> 0 < len \<Longrightarrow>
   add_msgs len ss (buf, count) = Some (b, c) \<Longrightarrow>
   b = take (len - 1) (out @ concat ss) \<and> c = length (out @ concat ss)"
proof (induction ss arbitrary: out buf count)
  case Nil
  then show ?case by simp
next
  case (Cons s ss)
  have le: "\<not> len < count" using Cons.prems(4) by (auto simp: add_msg_def split: if_splits)
  have eq: "buf @ take (len - count - 1) s = take (len - 1) (out @ s)"
    using Cons.prems(1,2) by (simp add: diff_commute)
  from Cons.prems(4) le have
    "add_msgs len ss (take (len - 1) (out @ s), length (out @ s)) = Some (b, c)"
    using Cons.prems(1) eq by (simp add: add_msg_def)
  from Cons.IH [OF refl refl Cons.prems(3) this] show ?case by simp
qed

lemma build_msg_eq: "0 < len \<Longrightarrow> build_msg len ss = Some b \<Longrightarrow> b = take (len - 1) (concat ss)"
  using add_msgs_fits [of 0 "[]" "[]" len ss] by (auto simp: build_msg_def)

lemma build_msg_bound: "0 < len \<Longrightarrow> build_msg len ss = Some b \<Longrightarrow> length b < len"
  proof -
  assume h: "0 < len" "build_msg len ss = Some b"
  have "length b \<le> len - 1" using build_msg_eq [OF h] by (simp only: length_take)
  with h(1) show ?thesis by linarith
qed

lemma add_msgs_total:
  "count = length out \<Longrightarrow> length (out @ concat ss) \<le> len \<Longrightarrow> \<exists>r. add_msgs len ss (buf, count) = Some r"
proof (induction ss arbitrary: out buf count)
  case Nil
  then show ?case by simp
next
  case (Cons s ss)
  then have "add_msg len s (buf, count) = Some (buf @ take (len - count - 1) s, length (out @ s))"
    by (simp add: add_msg_def)
  moreover have "\<exists>r. add_msgs len ss (buf @ take (len - count - 1) s, length (out @ s)) = Some r"
    by (rule Cons.IH [of _ "out @ s"]) (use Cons.prems in simp_all)
  ultimately show ?case by simp
qed

lemma build_msg_whole:
  "length (concat ss) < len \<Longrightarrow> build_msg len ss = Some (concat ss)"
proof -
  assume h: "length (concat ss) < len"
  then obtain r where r: "add_msgs len ss ([], 0) = Some r"
    using add_msgs_total [of 0 "[]" ss len "[]"] by auto
  obtain b c where bc: "r = (b, c)" by (cases r)
  from add_msgs_fits [of 0 "[]" "[]" len ss b c] r bc h
  show ?thesis by (simp add: build_msg_def)
qed

section \<open>Lists as fixed arrays\<close>

lemma nth_update_other: "i \<noteq> j \<Longrightarrow> xs[i := v] ! j = xs ! j"
  by simp

definition upd_at :: "nat \<Rightarrow> ('a \<Rightarrow> 'a) \<Rightarrow> 'a list \<Rightarrow> 'a list" where
  "upd_at i f xs = (if i < length xs then xs[i := f (xs ! i)] else xs)"

lemma length_upd_at [simp]: "length (upd_at i f xs) = length xs"
  by (simp add: upd_at_def)

lemma nth_upd_at: "j < length xs \<Longrightarrow> upd_at i f xs ! j = (if i = j then f (xs ! j) else xs ! j)"
  by (auto simp: upd_at_def nth_list_update)

lemma nth_upd_at_same [simp]: "i < length xs \<Longrightarrow> upd_at i f xs ! i = f (xs ! i)"
  by (simp add: nth_upd_at)

lemma nth_upd_at_other [simp]: "i \<noteq> j \<Longrightarrow> upd_at i f xs ! j = xs ! j"
  by (simp add: upd_at_def)

section \<open>Truncating division\<close>

definition tdiv :: "int \<Rightarrow> int \<Rightarrow> int" where
  "tdiv a b = sgn a * sgn b * (\<bar>a\<bar> div \<bar>b\<bar>)"

lemma tdiv_nonneg: "0 \<le> a \<Longrightarrow> 0 < b \<Longrightarrow> tdiv a b = a div b"
  by (cases "a = 0") (simp_all add: tdiv_def)

section \<open>Machines of operations\<close>

text \<open>
  Many modules are a state and operations on it, called from the main loop, by commands and by
  callbacks in any order.  None is an access outside the memory of the module or a call that does
  not return: a machine is sound when no sequence of operations gets there.
\<close>

fun run_ops :: "('o \<Rightarrow> 's \<Rightarrow> 's option) \<Rightarrow> 'o list \<Rightarrow> 's \<Rightarrow> 's option" where
  "run_ops step [] s = Some s"
| "run_ops step (p # ps) s = (case step p s of None \<Rightarrow> None | Some s' \<Rightarrow> run_ops step ps s')"

lemma run_ops_append:
  "run_ops step (ps @ qs) s = (case run_ops step ps s of None \<Rightarrow> None | Some s' \<Rightarrow> run_ops step qs s')"
  by (induction ps arbitrary: s) (simp_all split: option.splits)

locale machine =
  fixes step :: "'o \<Rightarrow> 's \<Rightarrow> 's option" and ok :: "'s \<Rightarrow> bool"
  assumes step_ok: "ok s \<Longrightarrow> \<exists>s'. step p s = Some s' \<and> ok s'"
begin

lemma runs_ok: "ok s \<Longrightarrow> \<exists>s'. run_ops step ps s = Some s' \<and> ok s'"
proof (induction ps arbitrary: s)
  case (Cons p ps)
  then obtain s' where "step p s = Some s'" "ok s'" using step_ok by blast
  then show ?case using Cons.IH by simp
qed simp

lemma runs_defined: "ok s \<Longrightarrow> run_ops step ps s \<noteq> None"
  using runs_ok by fastforce

end

end
