(* ===== verification/Codec.thy ===== *)
theory Codec
  imports Prelude
begin

text \<open>
  The encodings of \<open>libs/common/src\<close>: base64 (\<open>base64.c\<close>), which carries every configuration
  parameter, and the Manchester code of the OpenTherm line (\<open>manchester_code.c\<close>).
  A buffer is a list of bytes; what the C code allocates is compared with what it writes in
  \<open>base64_encode_fits\<close> and \<open>base64_decode_fits\<close>.
\<close>

section \<open>Base64\<close>

definition base46_map :: string where
  "base46_map = ''ABCDEFGHIJKLMNOPQRSTUVWXYZabcdefghijklmnopqrstuvwxyz0123456789+/''"

definition byte :: "char \<Rightarrow> u8" where
  "byte c = of_nat (of_char c)"

definition unbyte :: "u8 \<Rightarrow> char" where
  "unbyte w = char_of (unat w)"

definition b64_char :: "u8 \<Rightarrow> char" where
  "b64_char w = base46_map ! unat w"

text \<open>The three-byte case of the encoding loop.\<close>

fun b64_quad :: "u8 list \<Rightarrow> string" where
  "b64_quad [b0, b1, b2] =
     [b64_char (drop_bit 2 b0),
      b64_char (push_bit 4 (b0 AND 3) + drop_bit 4 b1),
      b64_char (push_bit 2 (b1 AND 15) + drop_bit 6 b2),
      b64_char (b2 AND 63)]"
| "b64_quad _ = []"

text \<open>What is written for the one or two bytes left after the loop.\<close>

fun b64_tail :: "u8 list \<Rightarrow> string" where
  "b64_tail [b0] =
     [b64_char (drop_bit 2 b0), b64_char (push_bit 4 (b0 AND 3)), CHR ''='', CHR ''='']"
| "b64_tail [b0, b1] =
     [b64_char (drop_bit 2 b0), b64_char (push_bit 4 (b0 AND 3) + drop_bit 4 b1),
      b64_char (push_bit 2 (b1 AND 15)), CHR ''='']"
| "b64_tail _ = []"

fun b64_enc_loop :: "u8 list \<Rightarrow> u8 list \<Rightarrow> string \<Rightarrow> string \<times> u8 list" where
  "b64_enc_loop [] buffer cipher = (cipher, buffer)"
| "b64_enc_loop (x # xs) buffer cipher =
     (let buffer = buffer @ [x] in
      if length buffer = 3 then b64_enc_loop xs [] (cipher @ b64_quad buffer)
      else b64_enc_loop xs buffer cipher)"

definition base64_encode :: "string \<Rightarrow> string" where
  "base64_encode plain =
     (let (cipher, buffer) = b64_enc_loop (map byte plain) [] []
      in cipher @ b64_tail buffer)"

text \<open>\<open>for (k = 0; k < 64 && base46_map[k] != cipher[i]; k++);\<close>\<close>

fun b64_find :: "string \<Rightarrow> char \<Rightarrow> u8 \<Rightarrow> u8" where
  "b64_find [] c k = k"
| "b64_find (m # ms) c k = (if m = c then k else b64_find ms c (k + 1))"

definition b64_index :: "char \<Rightarrow> u8" where
  "b64_index c = b64_find base46_map c 0"

fun b64_unquad :: "u8 list \<Rightarrow> u8 list" where
  "b64_unquad [b0, b1, b2, b3] =
     [push_bit 2 b0 + drop_bit 4 b1]
     @ (if b2 \<noteq> 64 then [push_bit 4 b1 + drop_bit 2 b2] else [])
     @ (if b3 \<noteq> 64 then [push_bit 6 b2 + b3] else [])"
| "b64_unquad _ = []"

fun b64_dec_loop :: "string \<Rightarrow> u8 list \<Rightarrow> u8 list \<Rightarrow> u8 list" where
  "b64_dec_loop [] buffer plain = plain"
| "b64_dec_loop (c # cs) buffer plain =
     (let buffer = buffer @ [b64_index c] in
      if length buffer = 4 then b64_dec_loop cs [] (plain @ b64_unquad buffer)
      else b64_dec_loop cs buffer plain)"

text \<open>None is the NULL return for an empty input.\<close>

definition base64_decode :: "string \<Rightarrow> string option" where
  "base64_decode cipher =
     (if length cipher < 1 then None
      else Some (map unbyte (b64_dec_loop cipher [] [])))"

subsection \<open>Bytes\<close>

lemma u8_bound: "unat (w :: u8) < 256"
proof -
  have "unat w < 2 ^ LENGTH(8)" by (rule unsigned_less)
  then show ?thesis by simp
qed

lemma byte_unbyte [simp]: "byte (unbyte w) = w"
  using u8_bound [of w] by (simp add: byte_def unbyte_def)

lemma unbyte_byte [simp]: "unbyte (byte c) = c"
proof -
  have "(of_char c :: nat) < 256" using of_char_mod_256 [of c, where 'a = nat] by (metis mod_less_divisor zero_less_numeral)
  then show ?thesis by (simp add: byte_def unbyte_def unat_of_nat)
qed

subsection \<open>The alphabet\<close>

lemma b64_find_nth: "distinct ms \<Longrightarrow> i < length ms \<Longrightarrow> b64_find ms (ms ! i) k = k + of_nat i"
proof (induction ms arbitrary: i k)
  case (Cons m ms)
  then show ?case by (cases i) auto
qed simp

lemma b64_find_notin: "c \<notin> set ms \<Longrightarrow> b64_find ms c k = k + of_nat (length ms)"
  by (induction ms arbitrary: k) auto

lemma base46_map_distinct: "distinct base46_map"
  by (simp add: base46_map_def)

lemma base46_map_length [simp]: "length base46_map = 64"
  by (simp add: base46_map_def)

lemma b64_index_char: "unat w < 64 \<Longrightarrow> b64_index (b64_char w) = w"
  using b64_find_nth [OF base46_map_distinct, of "unat w" 0]
  by (simp add: b64_index_def b64_char_def)

lemma b64_index_eq [simp]: "b64_index (CHR ''='') = 64"
  using b64_find_notin [of "CHR ''=''" base46_map 0]
  by (simp add: b64_index_def base46_map_def)

subsection \<open>Splitting three bytes over four characters\<close>

lemma and_mask_eq [simp]:
  "(w :: u8) AND 3 = take_bit 2 w" "w AND 15 = take_bit 4 w" "w AND 63 = take_bit 6 w"
  by (simp_all add: take_bit_eq_mask mask_eq_exp_minus_1)

lemma unat_drop8: "unat (drop_bit n (w :: u8)) = unat w div 2 ^ n"
  by (subst unat_drop_bit_eq) (rule drop_bit_eq_div)

lemma unat_take8: "unat (take_bit n (w :: u8)) = unat w mod 2 ^ n"
  by (simp add: unsigned_take_bit_eq) (simp add: take_bit_eq_mod)

lemma unat_push8: "unat (push_bit n (w :: u8)) = unat w * 2 ^ n mod 256"
  by (simp add: unsigned_push_bit_eq) (simp add: take_bit_eq_mod push_bit_eq_mult)

lemma unat_add8: "unat (a + b :: u8) = (unat a + unat b) mod 256"
  by (simp add: unat_word_ariths)

lemmas u8_arith = unat_drop8 unat_take8 unat_push8 unat_add8

lemma sextet2: "unat (push_bit 4 (take_bit 2 (a :: u8)) + drop_bit 4 b) = unat a mod 4 * 16 + unat b div 16"
proof -
  have "unat a mod 4 < 4" "unat b div 16 < 16" using u8_bound [of b] by simp_all
  then show ?thesis by (simp add: u8_arith)
qed

lemma sextet3: "unat (push_bit 2 (take_bit 4 (a :: u8)) + drop_bit 6 b) = unat a mod 16 * 4 + unat b div 64"
proof -
  have "unat a mod 16 < 16" "unat b div 64 < 4" using u8_bound [of b] by simp_all
  then show ?thesis by (simp add: u8_arith)
qed

lemma sextet_tail:
  "unat (push_bit 4 (take_bit 2 (a :: u8))) = unat a mod 4 * 16"
  "unat (push_bit 2 (take_bit 4 (a :: u8))) = unat a mod 16 * 4"
proof -
  have "unat a mod 4 < 4" "unat a mod 16 < 16" by simp_all
  then show "unat (push_bit 4 (take_bit 2 a)) = unat a mod 4 * 16"
    "unat (push_bit 2 (take_bit 4 a)) = unat a mod 16 * 4" by (simp_all add: u8_arith)
qed

lemma sextet_bounds:
  "unat (drop_bit 2 (a :: u8)) < 64"
  "unat (push_bit 4 (take_bit 2 a)) < 64"
  "unat (push_bit 4 (take_bit 2 a) + drop_bit 4 b) < 64"
  "unat (push_bit 2 (take_bit 4 a)) < 64"
  "unat (push_bit 2 (take_bit 4 a) + drop_bit 6 b) < 64"
  "unat (take_bit 6 a) < 64"
proof -
  have b: "unat a mod 4 < 4" "unat a mod 16 < 16" "unat b div 16 < 16" "unat b div 64 < 4"
    using u8_bound [of b] by simp_all
  then show
    "unat (push_bit 4 (take_bit 2 a)) < 64"
    "unat (push_bit 4 (take_bit 2 a) + drop_bit 4 b) < 64"
    "unat (push_bit 2 (take_bit 4 a)) < 64"
    "unat (push_bit 2 (take_bit 4 a) + drop_bit 6 b) < 64"
    by (simp_all only: sextet2 sextet3 sextet_tail)
  show "unat (drop_bit 2 a) < 64" "unat (take_bit 6 a) < 64"
    using u8_bound [of a] by (simp_all add: u8_arith)
qed

text \<open>The three recombinations of the decoder, on naturals.\<close>

lemma recombine1:
  fixes a p :: nat
  assumes "a < 256" "p < 16"
  shows "(a div 4 * 4 mod 256 + (a mod 4 * 16 + p) div 16) mod 256 = a"
proof -
  define q r where "q = a div 4" and "r = a mod 4"
  have a: "a = 4 * q + r" and r: "r < 4" by (simp_all add: q_def r_def)
  with assms have "q < 64" by simp
  with r assms(2) show ?thesis by (simp add: a)
qed

lemma recombine2:
  fixes x b y :: nat
  assumes "x < 4" "b < 256" "y < 4"
  shows "((x * 16 + b div 16) * 16 mod 256 + (b mod 16 * 4 + y) div 4) mod 256 = b"
proof -
  define p s where "p = b div 16" and "s = b mod 16"
  have b: "b = 16 * p + s" and s: "s < 16" by (simp_all add: p_def s_def)
  with assms have p: "p < 16" by simp
  have "(x * 16 + p) * 16 = x * 256 + 16 * p" by simp
  then have "(x * 16 + p) * 16 mod 256 = 16 * p" using p by simp
  moreover have "(s * 4 + y) div 4 = s" using assms(3) by simp
  ultimately show ?thesis using s p by (simp add: b)
qed

lemma recombine3:
  fixes s c :: nat
  assumes "c < 256"
  shows "((s * 4 + c div 64) * 64 mod 256 + c mod 64) mod 256 = c"
proof -
  define y z where "y = c div 64" and "z = c mod 64"
  have c: "c = 64 * y + z" and z: "z < 64" by (simp_all add: y_def z_def)
  with assms have y: "y < 4" by simp
  have "(s * 4 + y) * 64 = s * 256 + 64 * y" by simp
  then have "(s * 4 + y) * 64 mod 256 = 64 * y" using y by simp
  then show ?thesis using z y by (simp add: c)
qed

lemma unquad_quad:
  "push_bit 2 (drop_bit 2 a) + drop_bit 4 (push_bit 4 (take_bit 2 a) + drop_bit 4 b) = (a :: u8)"
  "push_bit 4 (push_bit 4 (take_bit 2 a) + drop_bit 4 b) +
     drop_bit 2 (push_bit 2 (take_bit 4 b) + drop_bit 6 c) = (b :: u8)"
  "push_bit 6 (push_bit 2 (take_bit 4 b) + drop_bit 6 c) + take_bit 6 c = (c :: u8)"
proof -
  have bounds: "unat a < 256" "unat b < 256" "unat c < 256" "unat b div 16 < 16"
    "unat c div 64 < 4" "unat a mod 4 < 4"
    using u8_bound [of a] u8_bound [of b] u8_bound [of c] by simp_all
  note conv = word_unat_eq_iff unat_push8 unat_drop8 [of 4] unat_drop8 [of 2]
    unat_take8 [of 6] sextet2 sextet3
  show "push_bit 2 (drop_bit 2 a) + drop_bit 4 (push_bit 4 (take_bit 2 a) + drop_bit 4 b) = a"
    using recombine1 [of "unat a" "unat b div 16"] bounds
    by (simp add: conv unat_add8 [of "push_bit 2 (drop_bit 2 a)"])
  show "push_bit 4 (push_bit 4 (take_bit 2 a) + drop_bit 4 b) +
     drop_bit 2 (push_bit 2 (take_bit 4 b) + drop_bit 6 c) = b"
    using recombine2 [of "unat a mod 4" "unat b" "unat c div 64"] bounds
    by (simp add: conv unat_add8 [of "push_bit 4 (push_bit 4 (take_bit 2 a) + drop_bit 4 b)"])
  show "push_bit 6 (push_bit 2 (take_bit 4 b) + drop_bit 6 c) + take_bit 6 c = c"
    using recombine3 [of "unat c" "unat b mod 16"] bounds
    by (simp add: conv unat_add8 [of "push_bit 6 (push_bit 2 (take_bit 4 b) + drop_bit 6 c)"])
qed

lemma unquad_tail:
  "push_bit 2 (drop_bit 2 a) + drop_bit 4 (push_bit 4 (take_bit 2 a)) = (a :: u8)"
  "push_bit 4 (push_bit 4 (take_bit 2 a) + drop_bit 4 b) + drop_bit 2 (push_bit 2 (take_bit 4 b)) = (b :: u8)"
  using unquad_quad(1) [of a 0] unquad_quad(2) [of a b 0] by simp_all

subsection \<open>Round trip and buffer sizes\<close>

text \<open>The loops, three bytes and four characters at a time.\<close>

lemma b64_enc_loop_acc:
  "b64_enc_loop xs buf out = (out @ fst (b64_enc_loop xs buf []), snd (b64_enc_loop xs buf []))"
proof (induction xs arbitrary: buf out)
  case (Cons x xs)
  show ?case
    using Cons.IH [of "[]" "out @ b64_quad (buf @ [x])"] Cons.IH [of "[]" "b64_quad (buf @ [x])"]
      Cons.IH [of "buf @ [x]" out]
    by (simp add: Let_def)
qed simp

lemma b64_dec_loop_acc: "b64_dec_loop cs buf out = out @ b64_dec_loop cs buf []"
proof (induction cs arbitrary: buf out)
  case (Cons c cs)
  show ?case
    using Cons.IH [of "[]" "out @ b64_unquad (buf @ [b64_index c])"]
      Cons.IH [of "[]" "b64_unquad (buf @ [b64_index c])"] Cons.IH [of "buf @ [b64_index c]" out]
    by (simp add: Let_def)
qed simp

definition b64_enc :: "u8 list \<Rightarrow> string" where
  "b64_enc xs = (let (c, b) = b64_enc_loop xs [] [] in c @ b64_tail b)"

lemma b64_enc_simps:
  "b64_enc [] = []" "b64_enc [a] = b64_tail [a]" "b64_enc [a, b] = b64_tail [a, b]"
  "b64_enc (a # b # c # xs) = b64_quad [a, b, c] @ b64_enc xs"
  using b64_enc_loop_acc [of xs "[]" "b64_quad [a, b, c]"]
  by (simp_all add: b64_enc_def Let_def split: prod.splits)

lemma b64_dec_block:
  "b64_dec_loop (w # x # y # z # cs) [] [] =
     b64_unquad [b64_index w, b64_index x, b64_index y, b64_index z] @ b64_dec_loop cs [] []"
  by (simp add: Let_def del: b64_unquad.simps, subst b64_dec_loop_acc, rule refl)

lemma sextet_ne_64: "unat w < 64 \<Longrightarrow> (w :: u8) \<noteq> 64"
  by auto

lemmas sextet_index = sextet_bounds b64_index_char sextet_ne_64 [OF sextet_bounds(4)]
  sextet_ne_64 [OF sextet_bounds(5)] sextet_ne_64 [OF sextet_bounds(6)]

lemma b64_dec_quad:
  "b64_dec_loop (b64_quad [a, b, c] @ cs) [] [] = [a, b, c] @ b64_dec_loop cs [] []"
  by (simp add: b64_dec_block sextet_index unquad_quad del: b64_dec_loop.simps)

lemma b64_dec_tail:
  "b64_dec_loop (b64_tail [a]) [] [] = [a]"
  "b64_dec_loop (b64_tail [a, b]) [] [] = [a, b]"
  by (simp_all add: b64_dec_block sextet_index unquad_quad unquad_tail)

lemma list_by_threes:
  obtains "xs = []" | a where "xs = [a]" | a b where "xs = [a, b]"
    | a b c ys where "xs = a # b # c # ys"
  by (metis list.exhaust)

lemma b64_roundtrip: "b64_dec_loop (b64_enc xs) [] [] = xs"
proof (induction xs rule: length_induct)
  case (1 xs)
  show ?case
    by (cases xs rule: list_by_threes)
       (use 1 in \<open>simp_all add: b64_enc_simps b64_dec_tail b64_dec_quad
          del: b64_quad.simps b64_tail.simps\<close>)
qed

lemma b64_enc_length: "length (b64_enc xs) = 4 * ((length xs + 2) div 3)"
proof (induction xs rule: length_induct)
  case (1 xs)
  have step: "4 * ((5 + n) div 3) = Suc (Suc (Suc (Suc (4 * (Suc (Suc n) div 3)))))" for n :: nat
  proof -
    have "5 + n = 3 + Suc (Suc n)" by simp
    then have "(5 + n) div 3 = Suc (Suc (Suc n) div 3)" by (simp only: div_add_self1)
    then show ?thesis by simp
  qed
  show ?case
  proof (cases xs rule: list_by_threes)
    case (4 a b c ys)
    then show ?thesis using 1 step [of "length ys"] by (simp add: b64_enc_simps)
  qed (simp_all add: b64_enc_simps)
qed

lemma base64_encode_eq: "base64_encode s = b64_enc (map byte s)"
  by (simp add: base64_encode_def b64_enc_def)

lemma base64_encode_length: "length (base64_encode s) = 4 * ((length s + 2) div 3)"
  by (simp add: base64_encode_eq b64_enc_length)

lemma base64_decode_encode: "s \<noteq> [] \<Longrightarrow> base64_decode (base64_encode s) = Some s"
proof -
  assume "s \<noteq> []"
  then have "1 \<le> (length s + 2) div 3" by (cases s) simp_all
  then have "\<not> length (base64_encode s) < 1" by (simp add: base64_encode_length)
  then show ?thesis
    by (simp add: base64_decode_def base64_encode_eq b64_roundtrip comp_def)
qed

lemma length_b64_unquad: "length (b64_unquad bs) \<le> 3"
  by (induction bs rule: b64_unquad.induct) simp_all

lemma b64_dec_loop_bound:
  "length buf < 4 \<Longrightarrow> 4 * length (b64_dec_loop cs buf []) \<le> 3 * (length cs + length buf)"
proof (induction cs arbitrary: buf)
  case (Cons c cs)
  show ?case
  proof (cases "length (buf @ [b64_index c]) = 4")
    case True
    have "b64_dec_loop (c # cs) buf [] = b64_dec_loop cs [] (b64_unquad (buf @ [b64_index c]))"
      using True by (simp add: Let_def)
    also have "\<dots> = b64_unquad (buf @ [b64_index c]) @ b64_dec_loop cs [] []"
      by (rule b64_dec_loop_acc)
    finally have "b64_dec_loop (c # cs) buf [] = b64_unquad (buf @ [b64_index c]) @ b64_dec_loop cs [] []" .
    then have "length (b64_dec_loop (c # cs) buf []) \<le> 3 + length (b64_dec_loop cs [] [])"
      using length_b64_unquad [of "buf @ [b64_index c]"] by simp
    moreover have "4 * length (b64_dec_loop cs [] []) \<le> 3 * length cs"
      using Cons.IH [of "[]"] by simp
    ultimately show ?thesis using True by simp
  next
    case False
    then show ?thesis using Cons.IH [of "buf @ [b64_index c]"] Cons.prems by simp
  qed
qed simp

section \<open>The codec interface\<close>

text \<open>
  What the configuration store and the default parameters rely on: a textual encoding that can
  be undone for every non-empty value and whose length is a function of the value's length.
\<close>

locale text_codec =
  fixes enc :: "string \<Rightarrow> string"
    and dec :: "string \<Rightarrow> string option"
    and enc_len :: "nat \<Rightarrow> nat"
  assumes dec_enc: "v \<noteq> [] \<Longrightarrow> dec (enc v) = Some v"
    and enc_length: "length (enc v) = enc_len (length v)"
    and enc_len_mono: "m \<le> n \<Longrightarrow> enc_len m \<le> enc_len n"
begin

lemma enc_inject: "v \<noteq> [] \<Longrightarrow> w \<noteq> [] \<Longrightarrow> enc v = enc w \<Longrightarrow> v = w"
  by (metis dec_enc option.inject)

lemma stored_prefix_decodes:
  "v \<noteq> [] \<Longrightarrow> enc_len (length v) \<le> cap \<Longrightarrow> dec (take cap (enc v)) = Some v"
  by (simp add: enc_length dec_enc)

end

text \<open>
  A codec that works on blocks: \<open>bin\<close> characters become \<open>bout\<close>, so cutting the encoding at a
  block boundary is encoding the value cut there.  A buffer of \<open>k\<close> output blocks therefore
  holds exactly the first \<open>k * bin\<close> characters of a value.
\<close>

locale block_codec = text_codec +
  fixes bin bout :: nat
  assumes block_len: "enc_len (k * bin) = k * bout"
    and block_prefix: "k * bin \<le> length v \<Longrightarrow> take (k * bout) (enc v) = enc (take (k * bin) v)"
    and block_pos: "0 < bin"
begin

lemma stored_blocks_decode: "v \<noteq> [] \<Longrightarrow> 0 < k \<Longrightarrow> dec (take (k * bout) (enc v)) = Some (take (k * bin) v)"
proof (cases "k * bin \<le> length v")
  case True
  assume "v \<noteq> []" "0 < k"
  then have "take (k * bin) v \<noteq> []" using block_pos by simp
  then show ?thesis using True by (simp add: block_prefix dec_enc)
next
  case False
  assume "v \<noteq> []"
  moreover have "enc_len (length v) \<le> k * bout"
    using enc_len_mono [of "length v" "k * bin"] False block_len [of k] by simp
  ultimately show ?thesis using False stored_prefix_decodes [of v "k * bout"] by simp
qed

end

lemma length_b64_quad [simp]: "length (b64_quad [a, b, c]) = 4"
  by simp

lemma b64_enc_block_prefix: "3 * k \<le> length xs \<Longrightarrow> take (4 * k) (b64_enc xs) = b64_enc (take (3 * k) xs)"
proof (induction k arbitrary: xs)
  case 0
  then show ?case by (simp add: b64_enc_simps)
next
  case (Suc k)
  then obtain a b c ys where xs: "xs = a # b # c # ys"
    by (cases xs rule: list_by_threes) auto
  have t: "take (4 * Suc k) (b64_quad [a, b, c] @ zs) = b64_quad [a, b, c] @ take (4 * k) zs" for zs
    by (simp only: take_append length_b64_quad) simp
  have u: "take (3 * Suc k) (a # b # c # ys) = a # b # c # take (3 * k) ys"
    by (simp add: numeral_3_eq_3)
  show ?case
    using Suc.IH [of ys] Suc.prems unfolding xs u b64_enc_simps t by simp
qed

interpretation b64: block_codec base64_encode base64_decode "\<lambda>n. 4 * ((n + 2) div 3)" 3 4
proof unfold_locales
  show "k * 3 \<le> length v \<Longrightarrow> take (k * 4) (base64_encode v) = base64_encode (take (k * 3) v)" for k and v :: string
    using b64_enc_block_prefix [of k "map byte v"] by (simp add: base64_encode_eq take_map mult.commute)
  show "4 * ((k * 3 + 2) div 3) = k * 4" for k :: nat
    by simp
qed (simp_all add: base64_decode_encode base64_encode_length div_le_mono)

section \<open>Manchester code\<close>

text \<open>
  \<open>manchester_encode\<close>: the \<open>while (mask)\<close> loop shifts the mask to the right until it is zero;
  each bit of the frame becomes the two bits of \<open>one\<close> or \<open>zero\<close>.
\<close>

lemma drop_bit_smaller: "msk \<noteq> 0 \<Longrightarrow> unat (drop_bit 1 msk) < unat (msk :: u32)"
proof -
  assume "msk \<noteq> 0"
  then have "0 < unat msk" by (simp add: unat_gt_0)
  moreover have "unat (drop_bit 1 msk) = drop_bit 1 (unat msk)" by (rule unat_drop_bit_eq)
  ultimately show ?thesis by (simp add: drop_bit_eq_div)
qed

function manchester_encode_loop :: "u32 \<Rightarrow> u64 \<Rightarrow> u64 \<Rightarrow> u32 \<Rightarrow> u64 \<Rightarrow> u64" where
  "manchester_encode_loop frame one zero msk mframe =
     (if msk \<noteq> 0 then
        manchester_encode_loop frame one zero (drop_bit 1 msk)
          (push_bit 2 mframe OR (if frame AND msk \<noteq> 0 then one else zero))
      else mframe)"
  by pat_completeness auto
termination
  by (relation "measure (\<lambda>(frame, one, zero, msk, mframe). unat msk)")
     (auto dest: drop_bit_smaller)

declare manchester_encode_loop.simps [simp del]

definition manchester_encode :: "u32 \<Rightarrow> bool \<Rightarrow> u64" where
  "manchester_encode frame invert =
     manchester_encode_loop frame (if invert then 1 else 2) (if invert then 2 else 1) 0x80000000 0"

text \<open>The decoder's \<open>for\<close> loop, with the iterations left; None is the return of -1.\<close>

fun manchester_decode_loop :: "u64 \<Rightarrow> u32 \<Rightarrow> u32 \<Rightarrow> nat \<Rightarrow> u64 \<Rightarrow> u64 \<Rightarrow> u32 \<Rightarrow> u32 option" where
  "manchester_decode_loop mframe one zero 0 msk msk2 frame = Some frame"
| "manchester_decode_loop mframe one zero (Suc n) msk msk2 frame =
     (if mframe AND msk \<noteq> 0 then
        (if mframe AND msk2 \<noteq> 0 then None
         else manchester_decode_loop mframe one zero n (drop_bit 2 msk) (drop_bit 2 msk2)
                (push_bit 1 frame OR one))
      else
        (if \<not> (mframe AND msk2 \<noteq> 0) then None
         else manchester_decode_loop mframe one zero n (drop_bit 2 msk) (drop_bit 2 msk2)
                (push_bit 1 frame OR zero)))"

definition manchester_decode :: "u64 \<Rightarrow> bool \<Rightarrow> u32 option" where
  "manchester_decode mframe invert =
     manchester_decode_loop mframe (if invert then 0 else 1) (if invert then 1 else 0) 32
       0x8000000000000000 0x4000000000000000 0"

subsection \<open>The code word, bit by bit\<close>

definition man_bit :: "u32 \<Rightarrow> bool \<Rightarrow> nat \<Rightarrow> bool" where
  "man_bit f ivt j = (if odd j then bit f (j div 2) \<noteq> ivt else bit f (j div 2) = ivt)"

lemma and_exp_word: "(w :: 'a::len word) AND 2 ^ n \<noteq> 0 \<longleftrightarrow> bit w n"
  by (simp add: and_exp_eq_0_iff_not_bit)

lemma encode_loop_0: "manchester_encode_loop f one zero 0 m = m"
  by (subst manchester_encode_loop.simps) simp

lemma encode_loop_Suc:
  "n < 32 \<Longrightarrow> manchester_encode_loop f one zero (2 ^ n) m =
     manchester_encode_loop f one zero (if n = 0 then 0 else 2 ^ (n - 1))
       (push_bit 2 m OR (if bit f n then one else zero))"
proof -
  assume n: "n < 32"
  then have ne: "(2 :: u32) ^ n \<noteq> 0" by (simp add: exp_eq_zero_iff)
  have "drop_bit 1 ((2 :: u32) ^ n) = (if n = 0 then 0 else 2 ^ (n - 1))"
    using n by (cases n) (auto intro!: bit_word_eqI simp: bit_drop_bit_eq bit_exp_iff
        simp del: power_Suc)
  with ne show ?thesis by (subst manchester_encode_loop.simps) (simp add: and_exp_word)
qed

lemma bit_symbol:
  "bit (if b then (if ivt then 1 else 2) else (if ivt then 2 else 1) :: u64) i \<longleftrightarrow>
     (i = 1 \<and> b \<noteq> ivt) \<or> (i = 0 \<and> b = ivt)"
proof -
  have "bit (2 :: u64) i \<longleftrightarrow> i = 1" using bit_exp_iff [of 1 i, where 'a = "64 word"] by auto
  then show ?thesis by (auto simp: bit_1_iff)
qed

lemma encode_loop_bits:
  "n < 32 \<Longrightarrow> j < 64 \<Longrightarrow>
   bit (manchester_encode_loop f (if ivt then 1 else 2) (if ivt then 2 else 1) (2 ^ n) m) j \<longleftrightarrow>
     (if j < 2 * Suc n then man_bit f ivt j else bit m (j - 2 * Suc n))"
proof (induction n arbitrary: m)
  case 0
  have "j = 0 \<or> j = 1 \<or> 2 \<le> j" by linarith
  then show ?case using 0
    by (subst encode_loop_Suc)
       (auto simp: encode_loop_0 bit_or_iff bit_push_bit_iff bit_symbol man_bit_def)
next
  case (Suc n)
  have step: "manchester_encode_loop f (if ivt then 1 else 2) (if ivt then 2 else 1) (2 ^ Suc n) m =
    manchester_encode_loop f (if ivt then 1 else 2) (if ivt then 2 else 1) (2 ^ n)
      (push_bit 2 m OR (if bit f (Suc n) then (if ivt then 1 else 2) else (if ivt then 2 else 1)))"
    using Suc.prems(1) by (subst encode_loop_Suc) simp_all
  have n: "n < 32" using Suc.prems(1) by simp
  show ?case
  proof (cases "j < 2 * Suc n")
    case True
    then show ?thesis unfolding step using Suc.IH [OF n Suc.prems(2)] by simp
  next
    case False
    then have "j = 2 * Suc n \<or> j = Suc (2 * Suc n) \<or> 2 * Suc (Suc n) \<le> j" by arith
    then show ?thesis unfolding step Suc.IH [OF n Suc.prems(2)]
      using Suc.prems(2) by (auto simp: bit_or_iff bit_push_bit_iff bit_symbol man_bit_def)
  qed
qed

lemma manchester_encode_bit: "j < 64 \<Longrightarrow> bit (manchester_encode f ivt) j = man_bit f ivt j"
  using encode_loop_bits [of 31 j f ivt 0] by (simp add: manchester_encode_def)


lemma bit_shift_in:
  "j < 32 \<Longrightarrow> bit (push_bit (Suc 0) f OR (if b then 1 else 0) :: u32) j \<longleftrightarrow> (if j = 0 then b else bit f (j - 1))"
proof -
  assume "j < 32"
  then have p: "bit (push_bit (Suc 0) f) j \<longleftrightarrow> j \<noteq> 0 \<and> bit f (j - 1)"
    unfolding bit_push_bit_iff by auto
  have q: "bit (if b then 1 else 0 :: u32) j \<longleftrightarrow> b \<and> j = 0"
    by (simp add: bit_1_iff)
  show ?thesis unfolding bit_or_iff p q by auto
qed

lemma if_None_eq: "(if c then x else None) = Some r \<longleftrightarrow> c \<and> x = Some r"
  by simp

lemma shifted_bits:
  assumes "\<And>i. i < 32 \<Longrightarrow> bit x i \<longleftrightarrow> (if i = 0 then b else bit f (i - 1))"
  shows "(\<forall>j<32. bit r j \<longleftrightarrow> (if j < n then P j else bit x (j - n))) \<longleftrightarrow>
    (\<forall>j<32. bit r j \<longleftrightarrow> (if j < n then P j else if j = n then b else bit f (j - Suc n)))"
proof -
  have "(if j < n then P j else bit x (j - n)) \<longleftrightarrow>
    (if j < n then P j else if j = n then b else bit f (j - Suc n))" if "j < 32" for j
    using assms [of "j - n"] that by auto
  then show ?thesis by simp
qed

lemma manchester_decode_loop_bits:
  assumes "n \<le> 32"
  shows "manchester_decode_loop m (if ivt then 0 else 1) (if ivt then 1 else 0) n
      (if n = 0 then 0 else 2 ^ (2 * n - 1)) (if n = 0 then 0 else 2 ^ (2 * n - 2)) f = Some r \<longleftrightarrow>
    (\<forall>k<n. bit m (Suc (2 * k)) \<noteq> bit m (2 * k)) \<and>
    (\<forall>j<32. bit r j \<longleftrightarrow> (if j < n then bit m (Suc (2 * j)) \<noteq> ivt else bit f (j - n)))"
  using assms
proof (induction n arbitrary: f)
  case 0
  show ?case by (auto simp: bit_eq_iff intro: bit_imp_le_length dest: bit_imp_le_length)
next
  case (Suc n)
  have drop: "drop_bit 2 ((2 :: u64) ^ (2 * Suc n - 1)) = (if n = 0 then 0 else 2 ^ (2 * n - 1))"
    "drop_bit 2 ((2 :: u64) ^ (2 * Suc n - 2)) = (if n = 0 then 0 else 2 ^ (2 * n - 2))"
    using Suc.prems by (auto intro!: bit_word_eqI simp: bit_drop_bit_eq bit_exp_iff simp del: power_Suc)
  have unfold: "manchester_decode_loop m (if ivt then 0 else 1) (if ivt then 1 else 0) (Suc n)
      (2 ^ (2 * Suc n - 1)) (2 ^ (2 * Suc n - 2)) f =
    (if bit m (Suc (2 * n)) \<noteq> bit m (2 * n) then
       manchester_decode_loop m (if ivt then 0 else 1) (if ivt then 1 else 0) n
         (if n = 0 then 0 else 2 ^ (2 * n - 1)) (if n = 0 then 0 else 2 ^ (2 * n - 2))
         (push_bit 1 f OR (if bit m (Suc (2 * n)) \<noteq> ivt then 1 else 0))
     else None)"
    unfolding manchester_decode_loop.simps and_exp_word drop by simp
  have n32: "n \<le> 32" using Suc.prems by simp
  let ?b = "bit m (Suc (2 * n)) \<noteq> ivt"
  let ?x = "push_bit 1 f OR (if ?b then 1 else 0)"
  have x: "bit ?x i \<longleftrightarrow> (if i = 0 then ?b else bit f (i - 1))" if "i < 32" for i
    using bit_shift_in [OF that, of f ?b] unfolding One_nat_def .
  have sh: "(\<forall>j<32. bit r j \<longleftrightarrow> (if j < n then bit m (Suc (2 * j)) \<noteq> ivt else bit ?x (j - n))) \<longleftrightarrow>
    (\<forall>j<32. bit r j \<longleftrightarrow> (if j < n then bit m (Suc (2 * j)) \<noteq> ivt
       else if j = n then ?b else bit f (j - Suc n)))"
    by (rule shifted_bits) (rule x)
  have last: "(if j < n then bit m (Suc (2 * j)) \<noteq> ivt else if j = n then ?b else c) \<longleftrightarrow>
    (if j < Suc n then bit m (Suc (2 * j)) \<noteq> ivt else c)" for j c
    by (simp add: less_Suc_eq)
  have "manchester_decode_loop m (if ivt then 0 else 1) (if ivt then 1 else 0) (Suc n)
      (2 ^ (2 * Suc n - 1)) (2 ^ (2 * Suc n - 2)) f = Some r \<longleftrightarrow>
    bit m (Suc (2 * n)) \<noteq> bit m (2 * n) \<and>
    (\<forall>k<n. bit m (Suc (2 * k)) \<noteq> bit m (2 * k)) \<and>
    (\<forall>j<32. bit r j \<longleftrightarrow> (if j < n then bit m (Suc (2 * j)) \<noteq> ivt else bit ?x (j - n)))"
    unfolding unfold if_None_eq Suc.IH [OF n32] ..
  also have "\<dots> \<longleftrightarrow> (\<forall>k<Suc n. bit m (Suc (2 * k)) \<noteq> bit m (2 * k)) \<and>
    (\<forall>j<32. bit r j \<longleftrightarrow> (if j < Suc n then bit m (Suc (2 * j)) \<noteq> ivt else bit f (j - Suc n)))"
    unfolding All_less_Suc sh last by (simp only: conj_ac)
  finally show ?case by (simp only: nat.simps if_False)
qed

lemma manchester_decode_iff_bits:
  "manchester_decode m ivt = Some r \<longleftrightarrow>
    (\<forall>k<32. bit m (Suc (2 * k)) \<noteq> bit m (2 * k)) \<and>
    (\<forall>j<32. bit r j \<longleftrightarrow> (bit m (Suc (2 * j)) \<noteq> ivt))"
  using manchester_decode_loop_bits [of 32 m ivt 0 r] by (simp add: manchester_decode_def)

text \<open>The decoder accepts exactly the code words, and returns what was encoded.\<close>

lemma manchester_decode_exact: "manchester_decode m ivt = Some f \<longleftrightarrow> m = manchester_encode f ivt"
proof
  assume d: "manchester_decode m ivt = Some f"
  have "bit m j \<longleftrightarrow> man_bit f ivt j" if j: "j < 64" for j
  proof (cases "even j")
    case True
    then obtain k where k: "j = 2 * k" by (elim evenE)
    with j have "k < 32" by simp
    with d show ?thesis by (auto simp: manchester_decode_iff_bits man_bit_def k)
  next
    case False
    then obtain k where k: "j = Suc (2 * k)" by (elim oddE) simp
    with j have "k < 32" by simp
    with d show ?thesis by (auto simp: manchester_decode_iff_bits man_bit_def k)
  qed
  then show "m = manchester_encode f ivt"
    by (intro bit_word_eqI) (simp add: manchester_encode_bit)
next
  assume m: "m = manchester_encode f ivt"
  have "bit m (Suc (2 * k)) \<longleftrightarrow> bit f k \<noteq> ivt" "bit m (2 * k) \<longleftrightarrow> bit f k = ivt" if "k < 32" for k
    using that by (simp_all add: m manchester_encode_bit man_bit_def)
  then show "manchester_decode m ivt = Some f"
    by (auto simp: manchester_decode_iff_bits)
qed

section \<open>Properties of the codecs\<close>

text \<open>
  C20.  Base64 round trip in the buffers of the code: a non-empty string of any bytes is decoded to
  itself from its encoding; the encoding and its NUL fit the \<open>len * 4 / 3 + 4\<close> bytes allocated
  for it, and what is decoded fits, with its NUL, the bytes allocated for it.
\<close>

lemma base64_roundtrip:
  assumes "s \<noteq> []"
  shows "base64_decode (base64_encode s) = Some s \<and>
    length (base64_encode s) + 1 \<le> length s * 4 div 3 + 4 \<and> length s + 1 \<le> length (base64_encode s)"
proof -
  have "0 < length s" using assms by simp
  moreover have "4 * ((n + 2) div 3) + 1 \<le> n * 4 div 3 + 4 \<and> n + 1 \<le> 4 * ((n + 2) div 3)" if "0 < n" for n :: nat
  proof -
    define q where "q = n div 3"
    have "n mod 3 = 0 \<or> n mod 3 = 1 \<or> n mod 3 = 2" by linarith
    moreover have "n = 3 * q + n mod 3" unfolding q_def by simp
    ultimately consider "n = 3 * q" | "n = 3 * q + 1" | "n = 3 * q + 2" by linarith
    then show ?thesis
    proof cases
      case 1
      have "(3 * q + 2) div 3 = q" "3 * q * 4 div 3 = 4 * q" by simp_all
      with 1 that show ?thesis by linarith
    next
      case 2
      have "(3 * q + 1 + 2) div 3 = q + 1" "(3 * q + 1) * 4 div 3 = 4 * q + 1" by simp_all
      with 2 show ?thesis by simp
    next
      case 3
      have "(3 * q + 2 + 2) div 3 = q + 1" "(3 * q + 2) * 4 div 3 = 4 * q + 2" by simp_all
      with 3 show ?thesis by simp
    qed
  qed
  ultimately show ?thesis
    using b64.dec_enc [OF assms] by (simp only: b64.enc_length)
qed

lemma base64_roundtrip_witness: "base64_decode (base64_encode ''pico'') = Some ''pico''"
  using base64_roundtrip [of "''pico''"] by simp

text \<open>
  Decoding any text stays inside its buffer: the \<open>len\<close> bytes that \<open>base64_decode\<close> allocates
  hold whatever it decodes, valid base64 or not, and the final NUL; only the empty text is refused.
\<close>

lemma base64_decode_fits:
  "case base64_decode c of None \<Rightarrow> c = [] | Some p \<Rightarrow> c \<noteq> [] \<and> length p + 1 \<le> length c"
proof (cases "c = []")
  case False
  have "4 * length (b64_dec_loop c [] []) \<le> 3 * length c" using b64_dec_loop_bound [of "[]" c] by simp
  moreover have "0 < length c" using False by simp
  ultimately have "length (b64_dec_loop c [] []) + 1 \<le> length c" by linarith
  with False show ?thesis by (auto simp: base64_decode_def Suc_le_eq)
qed (simp add: base64_decode_def)

text \<open>
  C39.  Manchester code: decoding accepts exactly the encoded frames and returns the frame; every
  other pattern of 64 line bits is rejected, for both polarities.
\<close>

lemma manchester_exact: "manchester_decode m ivt = Some f \<longleftrightarrow> m = manchester_encode f ivt"
  by (rule manchester_decode_exact)

end
