(* ===== verification/SysUtils.thy ===== *)
theory SysUtils
  imports Codec "HOL-Library.Multiset"
begin

text \<open>
  The helpers of \<open>libs/common/src/sys_utils.c\<close>: hex and character dumps, the percentage of a
  range, the sample filter of the analog sensors, and the lookup of a user parameter with its
  base64-encoded default.
\<close>

section \<open>Dumping buffers\<close>

text \<open>
  \<open>dump_raw_data\<close>: \<open>fmt\<close> is the formatting of one byte, cut to the three characters \<open>buf[4]\<close>
  holds.  The result is the list of lines sent to the log; \<open>j\<close> is kept beside the text as in
  the source.
\<close>

definition PRINT_BUF_LEN :: nat where
  "PRINT_BUF_LEN = 32"

fun dump_raw_loop :: "(u8 \<Rightarrow> string) \<Rightarrow> u8 list \<Rightarrow> string \<Rightarrow> nat \<Rightarrow> string list \<Rightarrow> string list" where
  "dump_raw_loop fmt [] print_buff j lines = (if j \<noteq> 0 then lines @ [print_buff] else lines)"
| "dump_raw_loop fmt (d # ds) print_buff j lines =
     (let buf = take 3 (fmt d) in
      if j + length buf \<ge> PRINT_BUF_LEN
      then dump_raw_loop fmt ds buf (length buf) (lines @ [print_buff])
      else dump_raw_loop fmt ds (print_buff @ buf) (j + length buf) lines)"

definition dump_raw_data :: "(u8 \<Rightarrow> string) \<Rightarrow> u8 list \<Rightarrow> string list" where
  "dump_raw_data fmt data = dump_raw_loop fmt data [] 0 []"

definition hex_digit :: "nat \<Rightarrow> char" where
  "hex_digit n = (if n < 10 then char_of (48 + n) else char_of (55 + n))"

definition fmt_hex :: "u8 \<Rightarrow> string" where
  "fmt_hex b = [hex_digit (unat b div 16), hex_digit (unat b mod 16), CHR '' '']"

definition fmt_char :: "u8 \<Rightarrow> string" where
  "fmt_char b = (if b = 0 then [] else [unbyte b])"

definition dump_hex_data :: "u8 list \<Rightarrow> string list" where
  "dump_hex_data data = dump_raw_data fmt_hex data"

definition dump_char_data :: "u8 list \<Rightarrow> string list" where
  "dump_char_data data = dump_raw_data fmt_char data"

lemma dump_raw_loop_concat:
  "j = length print_buff \<Longrightarrow>
   concat (dump_raw_loop fmt data print_buff j lines) =
     concat lines @ print_buff @ concat (map (\<lambda>d. take 3 (fmt d)) data)"
  by (induction fmt data print_buff j lines rule: dump_raw_loop.induct) (auto simp: Let_def)

lemma dump_raw_loop_fits:
  "j = length print_buff \<Longrightarrow> length print_buff < PRINT_BUF_LEN \<Longrightarrow>
   \<forall>l\<in>set lines. length l < PRINT_BUF_LEN \<Longrightarrow>
   \<forall>l\<in>set (dump_raw_loop fmt data print_buff j lines). length l < PRINT_BUF_LEN"
proof (induction fmt data print_buff j lines rule: dump_raw_loop.induct)
  case (2 fmt d ds print_buff j lines)
  have three: "length (take 3 (fmt d)) < PRINT_BUF_LEN" by (simp add: PRINT_BUF_LEN_def)
  show ?case
  proof (cases "j + length (take 3 (fmt d)) \<ge> PRINT_BUF_LEN")
    case True
    then show ?thesis using 2(1) [OF refl True refl three] 2(4,5) by (simp add: Let_def)
  next
    case False
    then show ?thesis using 2(2) [OF refl False] 2(3,5) by (simp add: Let_def)
  qed
qed (auto split: if_splits)

section \<open>Percentages\<close>

definition sys_value_to_percent :: "u32 \<Rightarrow> u32 \<Rightarrow> u32 \<Rightarrow> u8" where
  "sys_value_to_percent range_min range_max val =
     (if val \<le> range_min then 0
      else if val \<ge> range_max then 100
      else ucast ((100 * (val - range_min)) div (range_max - range_min)))"

lemma percent_inner:
  fixes lo hi v :: u32
  assumes "lo < v" "v < hi" "unat hi - unat lo \<le> 42949672"
  shows "unat ((100 * (v - lo)) div (hi - lo)) = 100 * (unat v - unat lo) div (unat hi - unat lo)"
    and "100 * (unat v - unat lo) div (unat hi - unat lo) < 100"
proof -
  have n: "unat lo < unat v" "unat v < unat hi" using assms by (simp_all add: word_less_nat_alt)
  have d: "unat (v - lo) = unat v - unat lo" "unat (hi - lo) = unat hi - unat lo"
    using assms n by (simp_all add: unat_sub word_le_nat_alt)
  have small: "100 * (unat v - unat lo) < 4294967296" using n assms(3) by linarith
  have "unat (100 * (v - lo)) = unat (100 :: u32) * unat (v - lo) mod 2 ^ LENGTH(32)"
    by (rule unat_word_ariths(2))
  then have "unat (100 * (v - lo)) = 100 * (unat v - unat lo)"
    unfolding d using small by simp
  then show "unat ((100 * (v - lo)) div (hi - lo)) = 100 * (unat v - unat lo) div (unat hi - unat lo)"
    by (simp add: unat_div_distrib d)
  show "100 * (unat v - unat lo) div (unat hi - unat lo) < 100"
    using n by (intro less_mult_imp_div_less) simp
qed

section \<open>The sample filter\<close>

text \<open>
  One pass of the bubble sort: the pair at positions \<open>j\<close>, \<open>j + 1\<close> is exchanged through the
  16 bit variable \<open>sw\<close>, so the element that moves up is cut to 16 bits.
\<close>

fun bubble_pass :: "nat \<Rightarrow> u32 list \<Rightarrow> u32 list" where
  "bubble_pass (Suc k) (x # y # r) =
     (if x > y then y # bubble_pass k (ucast (ucast x :: u16) # r)
      else x # bubble_pass k (y # r))"
| "bubble_pass _ xs = xs"

fun bubble_sort :: "nat \<Rightarrow> u32 list \<Rightarrow> u32 list" where
  "bubble_sort 0 xs = xs"
| "bubble_sort (Suc k) xs = bubble_sort k (bubble_pass (Suc k) xs)"

text \<open>
  \<open>samples_filter\<close>: the mean (None: the division by zero) and the sorted array.  The divisor is
  an \<open>int\<close> converted to unsigned; the sum over an empty range is 0.
\<close>

definition samples_filter :: "u32 list \<Rightarrow> nat \<Rightarrow> nat \<Rightarrow> u32 option \<times> u32 list" where
  "samples_filter samples total_count filter_count =
     (let s = bubble_sort (total_count - 1) samples;
          sum = sum_list (take (total_count - 2 * filter_count) (drop filter_count s))
      in (if total_count = 2 * filter_count then None
          else if total_count < 2 * filter_count then Some 0
          else Some (sum div of_nat (total_count - 2 * filter_count)), s))"

lemma ucast_16_id: "x < 65536 \<Longrightarrow> ucast (ucast (x :: u32) :: u16) = x"
proof -
  assume "x < 65536"
  then have "unat x < 65536" by (simp add: word_less_nat_alt)
  then have "unat (take_bit 16 x) = unat x"
    by (simp add: unsigned_take_bit_eq take_bit_nat_eq_self)
  then show ?thesis by (intro word_unat_eq_iff [THEN iffD2]) (simp add: unsigned_ucast_eq)
qed

lemma length_bubble_pass [simp]: "length (bubble_pass k xs) = length xs"
  by (induction k xs rule: bubble_pass.induct) simp_all

lemma mset_bubble_pass:
  "\<forall>x\<in>set xs. x < 65536 \<Longrightarrow> mset (bubble_pass k xs) = mset xs"
  by (induction k xs rule: bubble_pass.induct) (auto simp: ucast_16_id)

lemma set_bubble_pass:
  "\<forall>x\<in>set xs. x < 65536 \<Longrightarrow> set (bubble_pass k xs) = set xs"
  using mset_bubble_pass by (metis set_mset_mset)

lemma bubble_pass_append:
  "length xs = Suc k \<Longrightarrow> bubble_pass k (xs @ ys) = bubble_pass k xs @ ys"
proof (induction k arbitrary: xs)
  case (Suc k)
  then obtain x y r where "xs = x # y # r" by (cases xs; cases "tl xs") auto
  with Suc.IH [of "y # r"] Suc.IH [of "ucast (ucast x :: u16) # r"] Suc.prems
  show ?case by simp
qed simp

lemma bubble_pass_last:
  "length xs = Suc k \<Longrightarrow> \<forall>x\<in>set xs. x < 65536 \<Longrightarrow>
   \<forall>x\<in>set xs. x \<le> last (bubble_pass k xs)"
proof (induction k arbitrary: xs)
  case 0
  then show ?case by (cases xs) auto
next
  case (Suc k)
  then obtain x y r where xs: "xs = x # y # r" by (cases xs; cases "tl xs") auto
  have ne: "bubble_pass k (z # r) \<noteq> []" for z
    using length_bubble_pass [of k "z # r"] by (metis length_0_conv list.distinct(1))
  have len: "length (z # r) = Suc k" for z using Suc.prems(1) xs by simp
  show ?case
  proof (cases "x > y")
    case True
    then show ?thesis using Suc.IH [OF len, of x] Suc.prems(2) ne xs by (auto simp: ucast_16_id)
  next
    case False
    then show ?thesis using Suc.IH [OF len, of y] Suc.prems(2) ne xs by auto
  qed
qed

lemma bubble_sort_append:
  "length xs = Suc k \<Longrightarrow> bubble_sort k (xs @ ys) = bubble_sort k xs @ ys"
proof (induction k arbitrary: xs ys)
  case (Suc k)
  define zs where "zs = bubble_pass (Suc k) xs"
  have len: "length zs = Suc (Suc k)" using Suc.prems by (simp add: zs_def)
  have split: "zs = take (Suc k) zs @ drop (Suc k) zs" by simp
  have "bubble_sort k (take (Suc k) zs @ drop (Suc k) zs @ ys) =
      bubble_sort k (take (Suc k) zs) @ drop (Suc k) zs @ ys"
    by (rule Suc.IH) (simp add: len)
  moreover have "bubble_sort k (take (Suc k) zs @ drop (Suc k) zs) =
      bubble_sort k (take (Suc k) zs) @ drop (Suc k) zs"
    by (rule Suc.IH) (simp add: len)
  ultimately show ?case using Suc.prems
    by (simp add: bubble_pass_append flip: zs_def, simp flip: append_assoc)
qed simp

lemma bubble_sort_sorts:
  "length xs = Suc k \<Longrightarrow> \<forall>x\<in>set xs. x < 65536 \<Longrightarrow> bubble_sort k xs = sort xs"
proof (induction k arbitrary: xs)
  case 0
  then show ?case by (cases xs) auto
next
  case (Suc k)
  define zs where "zs = bubble_pass (Suc k) xs"
  have len: "length zs = Suc (Suc k)" using Suc.prems by (simp add: zs_def)
  then have zs: "zs = butlast zs @ [last zs]" by (metis append_butlast_last_id length_0_conv nat.distinct(1))
  have mset: "mset zs = mset xs" using Suc.prems(2) by (simp add: zs_def mset_bubble_pass)
  then have set: "set zs = set xs" by (metis set_mset_mset)
  have max: "\<forall>x\<in>set xs. x \<le> last zs" using bubble_pass_last Suc.prems by (simp add: zs_def)
  have blen: "length (butlast zs) = Suc k" using len by simp
  have bset: "set (butlast zs) \<subseteq> set xs" using set by (auto dest: in_set_butlastD)
  have "bubble_sort (Suc k) xs = bubble_sort k (butlast zs @ [last zs])"
    using zs by (simp add: zs_def)
  also have "\<dots> = sort (butlast zs) @ [last zs]"
    using bubble_sort_append [OF blen] Suc.IH [OF blen] bset Suc.prems(2) by auto
  also have "\<dots> = sort xs"
  proof (rule properties_for_sort [symmetric])
    show "mset (sort (butlast zs) @ [last zs]) = mset xs"
      using mset zs by (metis mset_append mset_sort)
    show "sorted (sort (butlast zs) @ [last zs])"
      using bset max by (auto simp: sorted_append)
  qed
  finally show ?case .
qed


lemma unat_sum_list:
  "\<forall>x\<in>set ws. x < 65536 \<Longrightarrow> length ws \<le> 65536 \<Longrightarrow>
   unat (sum_list ws :: u32) = sum_list (map unat ws) \<and> sum_list (map unat ws) \<le> 65535 * length ws"
proof (induction ws)
  case (Cons w ws)
  have w: "unat w \<le> 65535" using Cons.prems(1) by (simp add: word_less_nat_alt)
  have ih: "unat (sum_list ws) = sum_list (map unat ws)" "sum_list (map unat ws) \<le> 65535 * length ws"
    using Cons by auto
  have "unat w + unat (sum_list ws) < 4294967296" using w ih Cons.prems(2) by simp
  then have "unat (w + sum_list ws) = unat w + unat (sum_list ws)"
    by (simp add: unat_word_ariths)
  then show ?case using w ih by simp
qed simp

text \<open>The kept middle of the sorted samples.\<close>

definition middle :: "nat \<Rightarrow> u32 list \<Rightarrow> u32 list" where
  "middle k xs = take (length xs - 2 * k) (drop k (sort xs))"

lemma set_middle: "set (middle k xs) \<subseteq> set xs"
  unfolding middle_def by (metis set_take_subset set_drop_subset set_sort subset_trans)

lemma length_middle: "length (middle k xs) = length xs - 2 * k"
  by (simp add: middle_def)

lemma samples_filter_sorted:
  assumes "\<forall>x\<in>set xs. x < 65536" "2 * k < length xs" "length xs \<le> 65536"
  obtains m where "samples_filter xs (length xs) k = (Some m, sort xs)"
    and "unat m = sum_list (map unat (middle k xs)) div (length xs - 2 * k)"
proof -
  have s: "bubble_sort (length xs - 1) xs = sort xs"
    using assms by (intro bubble_sort_sorts) simp_all
  have "\<forall>x\<in>set (middle k xs). x < 65536" using assms(1) set_middle by blast
  then have sum: "unat (sum_list (middle k xs)) = sum_list (map unat (middle k xs))"
    using unat_sum_list [of "middle k xs"] assms(3) by (simp add: length_middle)
  have n: "unat (of_nat (length xs - 2 * k) :: u32) = length xs - 2 * k"
    using assms(3) by (simp add: unat_of_nat)
  show ?thesis
  proof (rule that)
    show "samples_filter xs (length xs) k =
        (Some (sum_list (middle k xs) div of_nat (length xs - 2 * k)), sort xs)"
      unfolding samples_filter_def s middle_def Let_def using assms(2) by simp
    show "unat (sum_list (middle k xs) div of_nat (length xs - 2 * k) :: u32) =
        sum_list (map unat (middle k xs)) div (length xs - 2 * k)"
      by (simp add: unat_div_distrib sum n)
  qed
qed

lemma sum_list_bounds:
  fixes f :: "'a \<Rightarrow> nat"
  shows "\<forall>x\<in>set xs. lo \<le> f x \<and> f x \<le> hi \<Longrightarrow>
    lo * length xs \<le> sum_list (map f xs) \<and> sum_list (map f xs) \<le> hi * length xs"
  by (induction xs) auto

section \<open>User parameters\<close>

text \<open>
  \<open>sys_user_param_get\<close>: the value in the configuration store (when that service is built in
  and holds one), else the decoded default of \<open>params.txt\<close>.
\<close>

definition sys_user_param_get :: "(string \<Rightarrow> string option) \<Rightarrow> string \<Rightarrow> string \<Rightarrow> string option" where
  "sys_user_param_get cfgs_param_get name def =
     (case cfgs_param_get name of
        Some val \<Rightarrow> Some val
      | None \<Rightarrow> (if length def < 1 then None else base64_decode def))"

lemma sys_user_param_default:
  "store name = None \<Longrightarrow> v \<noteq> [] \<Longrightarrow> sys_user_param_get store name (base64_encode v) = Some v"
  using b64.dec_enc [of v] b64.enc_length [of v]
  by (cases v) (auto simp: sys_user_param_get_def base64_decode_def split: if_splits)

section \<open>Properties of the helpers\<close>

text \<open>
  A dump is complete: the lines, joined, are the texts of all bytes in order, and each line
  fits the 32 byte buffer with its NUL.
\<close>

lemma dump_complete:
  "concat (dump_hex_data data) = concat (map fmt_hex data) \<and>
   concat (dump_char_data data) = concat (map fmt_char data) \<and>
   list_all (\<lambda>l. length l < PRINT_BUF_LEN) (dump_hex_data data @ dump_char_data data)"
proof -
  have "take 3 (fmt_hex b) = fmt_hex b" "take 3 (fmt_char b) = fmt_char b" for b
    by (simp_all add: fmt_hex_def fmt_char_def)
  then show ?thesis
    using dump_raw_loop_concat [of 0 "[]"] dump_raw_loop_fits [of 0 "[]" "[]"]
    by (auto simp: dump_hex_data_def dump_char_data_def dump_raw_data_def list_all_iff PRINT_BUF_LEN_def)
qed

text \<open>
  The percentage of a value: 0 up to the minimum, 100 from the maximum on, and in between
  the exact fraction rounded down, for ranges up to 42949672 wide (where \<open>100 * (val - min)\<close>
  does not wrap).
\<close>

lemma percent_exact:
  assumes "unat hi - unat lo \<le> 42949672"
  shows "unat (sys_value_to_percent lo hi v) =
    (if unat v \<le> unat lo then 0 else if unat hi \<le> unat v then 100
     else 100 * (unat v - unat lo) div (unat hi - unat lo))"
proof (cases "lo < v \<and> v < hi")
  case True
  note p = percent_inner [OF conjunct1 [OF True] conjunct2 [OF True] assms]
  have "unat (ucast ((100 * (v - lo)) div (hi - lo)) :: u8) = unat ((100 * (v - lo)) div (hi - lo))"
    using p by (simp add: unsigned_ucast_eq take_bit_nat_eq_self)
  with True p(1) show ?thesis
    by (simp add: sys_value_to_percent_def word_le_nat_alt word_less_nat_alt)
qed (auto simp: sys_value_to_percent_def word_le_nat_alt word_less_nat_alt)

lemma percent_exact_witness: "unat (sys_value_to_percent 100 300 150) = 25"
  using percent_exact [of 300 100 150] by simp

text \<open>
  The sample filter is a trimmed mean: for 16 bit samples it sorts the array, drops the
  \<open>filter_count\<close> smallest and largest and returns the integer mean of the rest, which lies between
  the smallest and the largest kept sample.
\<close>

lemma samples_filter_trimmed_mean:
  assumes "\<forall>x\<in>set xs. x < 65536" and "2 * k < length xs" and "length xs \<le> 65536"
  shows "\<exists>m. samples_filter xs (length xs) k = (Some m, sort xs) \<and>
    unat m = sum_list (map unat (middle k xs)) div (length xs - 2 * k) \<and>
    (\<exists>lo\<in>set (middle k xs). \<exists>hi\<in>set (middle k xs). lo \<le> m \<and> m \<le> hi)"
proof -
  obtain m where m: "samples_filter xs (length xs) k = (Some m, sort xs)"
    "unat m = sum_list (map unat (middle k xs)) div (length xs - 2 * k)"
    by (rule samples_filter_sorted [OF assms])
  let ?ms = "map unat (middle k xs)"
  have ne: "middle k xs \<noteq> []" using length_middle [of k xs] assms(2) by (metis list.size(3) not_gr_zero zero_less_diff)
  then have mem: "Min (set ?ms) \<in> set ?ms" "Max (set ?ms) \<in> set ?ms" by simp_all
  have b: "Min (set ?ms) * length (middle k xs) \<le> sum_list ?ms \<and> sum_list ?ms \<le> Max (set ?ms) * length (middle k xs)"
    by (rule sum_list_bounds) simp
  have n: "0 < length xs - 2 * k" using assms(2) by simp
  have div: "lo \<le> t div c \<and> t div c \<le> hi" if "lo * c \<le> t" "t \<le> hi * c" "0 < c" for lo hi t c :: nat
    using div_le_mono [OF that(1), of c] div_le_mono [OF that(2), of c] that(3) by simp
  have "Min (set ?ms) \<le> unat m \<and> unat m \<le> Max (set ?ms)"
    unfolding m(2) by (rule div) (use b n in \<open>simp_all add: length_middle\<close>)
  moreover obtain lo where lo: "lo \<in> set (middle k xs)" "Min (set ?ms) = unat lo"
    using mem(1) unfolding set_map by (rule imageE)
  moreover obtain hi where hi: "hi \<in> set (middle k xs)" "Max (set ?ms) = unat hi"
    using mem(2) unfolding set_map by (rule imageE)
  ultimately have "lo \<le> m" "m \<le> hi" by (simp_all add: word_le_nat_alt)
  with lo(1) hi(1) m show ?thesis by blast
qed

lemma samples_filter_trimmed_mean_witness:
  "\<exists>m. samples_filter [9, 1, 5] (length [9, 1, 5 :: u32]) 1 = (Some m, sort [9, 1, 5]) \<and> unat m = 5"
proof -
  have "\<forall>x\<in>set [9, 1, 5 :: u32]. x < 65536" "2 * 1 < length [9, 1, 5 :: u32]" "length [9, 1, 5 :: u32] \<le> 65536"
    by simp_all
  from samples_filter_trimmed_mean [OF this] obtain m where
    m: "samples_filter [9, 1, 5] (length [9, 1, 5 :: u32]) 1 = (Some m, sort [9, 1, 5])"
    "unat m = sum_list (map unat (middle 1 [9, 1, 5])) div (length [9, 1, 5 :: u32] - 2 * 1)" by blast
  have "sort [9, 1, 5 :: u32] = [1, 5, 9]" by code_simp
  then have "unat m = 5" using m(2) by (simp add: middle_def)
  with m(1) show ?thesis by blast
qed

text \<open>
  Larger samples are corrupted: the exchange of the sort goes through a \<open>uint16_t\<close>, so a
  sample of 70000 that moves becomes 4464 and the mean of 70000, 1 and 2 is 1489.
\<close>

lemma samples_filter_truncates: "samples_filter [70000, 1, 2] 3 0 = (Some 1489, [1, 2, 4464])"
  by code_simp

end
