(* ===== verification/SysTime.thy ===== *)
theory SysTime
  imports Prelude
begin

text \<open>
  \<open>libs/common/src/time.c\<close>: splitting a millisecond count, printing an uptime, the offset of
  the local (EET/EEST) time and the local date built from the UTC calendar of the AON timer.
  The calendar record \<open>tm\<close> has the fields of C's \<open>struct tm\<close> the source touches.
\<close>

record tm =
  tm_sec :: int
  tm_min :: int
  tm_hour :: int
  tm_mday :: int
  tm_mon :: int
  tm_year :: int
  tm_wday :: int
  tm_yday :: int

definition tm_zero :: tm where
  "tm_zero = \<lparr>tm_sec = 0, tm_min = 0, tm_hour = 0, tm_mday = 0, tm_mon = 0, tm_year = 0,
     tm_wday = 0, tm_yday = 0\<rparr>"

section \<open>Milliseconds to a date and its text\<close>

text \<open>\<open>to_us_since_boot(get_absolute_time()) / 1000u\<close>, the microsecond clock as an argument.\<close>

definition time_ms_since_boot :: "u64 \<Rightarrow> u64" where
  "time_ms_since_boot us = us div 1000"

text \<open>The step \<open>if (lo >= k) { hi = lo / k; lo = lo % k; }\<close> with \<open>hi\<close> initially 0.\<close>

definition carry :: "'a::len word \<Rightarrow> 'a word \<Rightarrow> 'a word \<times> 'a word" where
  "carry k lo = (if lo \<ge> k then (lo div k, lo mod k) else (0, lo))"

definition time_msec2datetime :: "u64 \<Rightarrow> tm \<times> u64" where
  "time_msec2datetime msec =
     (let (sec64, msec) = carry 1000 msec;
          (mins, sec) = carry 60 (ucast sec64 :: u32);
          (hour, mins) = carry 60 mins;
          (day, hour) = carry 24 hour;
          (year, day) = carry 365 day
      in (tm_zero\<lparr>tm_sec := int_of_word sec, tm_min := int_of_word mins, tm_hour := int_of_word hour,
            tm_mday := int_of_word day, tm_year := int_of_word (year - 1900)\<rparr>, msec))"

text \<open>\<open>%d\<close> with a precision or a zero-padded width.\<close>

definition pad_str :: "nat \<Rightarrow> int \<Rightarrow> string" where
  "pad_str w i =
     (let d = nat_str (nat \<bar>i\<bar>)
      in (if i < 0 then ''-'' else []) @ replicate (w - length d) (CHR ''0'') @ d)"

definition hms_str :: "tm \<Rightarrow> string" where
  "hms_str date = pad_str 2 (tm_hour date) @ '':'' @ pad_str 2 (tm_min date) @ '':'' @ pad_str 2 (tm_sec date)"

definition time_date2str :: "nat \<Rightarrow> tm \<Rightarrow> string" where
  "time_date2str str_len date = take (str_len - 1)
     (if tm_year date > 0 then
        int_str (tm_year date + 1900) @ '' years, '' @ int_str (tm_yday date) @ '' days, '' @ hms_str date @ '' hours''
      else if tm_yday date \<noteq> 0 then int_str (tm_yday date) @ '' days, '' @ hms_str date @ '' hours''
      else if tm_hour date \<noteq> 0 then hms_str date @ '' hours''
      else if tm_min date \<noteq> 0 then pad_str 2 (tm_min date) @ '':'' @ pad_str 2 (tm_sec date) @ '' minutes''
      else if tm_sec date \<noteq> 0 then pad_str 2 (tm_sec date) @ '' sec''
      else ''0'')"

definition get_uptime :: "u64 \<Rightarrow> string" where
  "get_uptime now = time_date2str 64 (fst (time_msec2datetime now))"

lemma carry_unat:
  "unat (fst (carry k x)) = unat x div unat k"
  "unat (snd (carry k x)) = unat x mod unat k"
proof -
  have "unat (fst (carry k x)) = unat x div unat k \<and> unat (snd (carry k x)) = unat x mod unat k"
  proof (cases "x \<ge> k")
    case True
    then show ?thesis
      by (simp only: carry_def if_True fst_conv snd_conv unat_div_distrib unat_mod_distrib)
  next
    case False
    then have "unat x < unat k" by (simp add: not_le word_less_nat_alt)
    then show ?thesis
      using False by (simp only: carry_def if_False fst_conv snd_conv div_less mod_less) simp
  qed
  then show "unat (fst (carry k x)) = unat x div unat k"
    "unat (snd (carry k x)) = unat x mod unat k" by simp_all
qed

lemma int_of_word_nat: "unat w < 2147483648 \<Longrightarrow> int_of_word (w :: u32) = int (unat w)"
proof -
  assume "unat w < 2147483648"
  then have "int (unat w) < 2147483648" by linarith
  then show ?thesis using int_of_word_small [of w] by simp
qed

text \<open>The fields, on naturals, for as long as the second count fits 32 bits (136 years).\<close>

lemma msec2datetime_fields:
  assumes "unat msec div 1000 < 4294967296"
  defines "s \<equiv> unat msec div 1000"
  shows "fst (time_msec2datetime msec) =
      tm_zero\<lparr>tm_sec := int (s mod 60), tm_min := int (s div 60 mod 60),
           tm_hour := int (s div 60 div 60 mod 24), tm_mday := int (s div 60 div 60 div 24 mod 365),
           tm_year := int_of_word (of_nat (s div 60 div 60 div 24 div 365) - 1900 :: u32)\<rparr>"
    and "unat (snd (time_msec2datetime msec)) = unat msec mod 1000"
proof -
  define c1 where "c1 = carry 1000 msec"
  define c2 where "c2 = carry 60 (ucast (fst c1) :: u32)"
  define c3 where "c3 = carry 60 (fst c2)"
  define c4 where "c4 = carry 24 (fst c3)"
  define c5 where "c5 = carry 365 (fst c4)"
  have eq: "time_msec2datetime msec =
    (tm_zero\<lparr>tm_sec := int_of_word (snd c2), tm_min := int_of_word (snd c3),
       tm_hour := int_of_word (snd c4), tm_mday := int_of_word (snd c5),
       tm_year := int_of_word (fst c5 - 1900)\<rparr>, snd c1)"
    by (simp add: time_msec2datetime_def Let_def case_prod_beta c1_def c2_def c3_def c4_def c5_def)
  have u1: "unat (fst c1) = s" "unat (snd c1) = unat msec mod 1000"
    by (simp_all add: c1_def carry_unat s_def)
  have "unat (ucast (fst c1) :: u32) = take_bit 32 (unat (fst c1))"
    by (simp add: unsigned_ucast_eq unsigned_take_bit_eq)
  also have "\<dots> = s" using assms(1) by (simp add: u1(1) take_bit_nat_eq_self s_def)
  finally have u2: "unat (fst c2) = s div 60" "unat (snd c2) = s mod 60"
    by (simp_all add: c2_def carry_unat)
  have u3: "unat (fst c3) = s div 60 div 60" "unat (snd c3) = s div 60 mod 60"
    by (simp_all add: c3_def carry_unat u2)
  have u4: "unat (fst c4) = s div 60 div 60 div 24" "unat (snd c4) = s div 60 div 60 mod 24"
    by (simp_all add: c4_def carry_unat u3)
  have u5: "unat (fst c5) = s div 60 div 60 div 24 div 365" "unat (snd c5) = s div 60 div 60 div 24 mod 365"
    by (simp_all only: c5_def carry_unat u4) simp_all
  have small: "n mod 60 < 2147483648" "n mod 24 < 2147483648" "n mod 365 < 2147483648" for n :: nat
    by (rule order_less_trans [OF mod_less_divisor], simp_all)+
  have ys: "fst c5 = of_nat (s div 60 div 60 div 24 div 365)"
    unfolding u5(1) [symmetric] by simp
  show "fst (time_msec2datetime msec) =
      tm_zero\<lparr>tm_sec := int (s mod 60), tm_min := int (s div 60 mod 60),
           tm_hour := int (s div 60 div 60 mod 24), tm_mday := int (s div 60 div 60 div 24 mod 365),
           tm_year := int_of_word (of_nat (s div 60 div 60 div 24 div 365) - 1900 :: u32)\<rparr>"
    unfolding eq fst_conv
    using int_of_word_nat [of "snd c2"] int_of_word_nat [of "snd c3"] int_of_word_nat [of "snd c4"]
      int_of_word_nat [of "snd c5"] small
    by (simp only: u2 u3 u4 u5 ys)
  show "unat (snd (time_msec2datetime msec)) = unat msec mod 1000"
    by (simp add: eq u1)
qed

lemma uptime_year_not_positive:
  assumes "y < 1900"
  shows "int_of_word (of_nat y - 1900 :: u32) < 0"
proof -
  have eq: "(of_nat y - 1900 :: u32) = word_of_int (int y - 1900)" by simp
  have "uint (word_of_int (int y - 1900) :: u32) = (int y - 1900) mod 2 ^ LENGTH(32)"
    by (rule uint_word_of_int)
  then have "uint (of_nat y - 1900 :: u32) = (int y - 1900) mod 4294967296"
    unfolding eq by simp
  also have "\<dots> = int y - 1900 + 4294967296" using assms
    by (intro int_mod_pos_eq [where q = "- 1"]) auto
  finally have u: "uint (of_nat y - 1900 :: u32) = int y + 4294965396" by simp
  have "(6442449044 + int y) mod 4294967296 = int y + 2147481748" using assms
    by (intro int_mod_pos_eq [where q = 1]) auto
  then show ?thesis using assms unfolding int_of_word_def s32_def u by simp
qed

section \<open>Local time\<close>

definition moffset :: "int list" where
  "moffset = [2, 2, 0, 3, 3, 3, 3, 3, 3, 0, 2, 2]"

definition dwoffset :: "int list" where
  "dwoffset = [0, 6, 5, 4, 3, 2, 1]"

definition get_utc_eest_offset :: "tm \<Rightarrow> int" where
  "get_utc_eest_offset dt =
     (if tm_mon dt < 0 \<or> tm_mon dt > 11 then 0
      else if moffset ! nat (tm_mon dt) \<noteq> 0 then moffset ! nat (tm_mon dt)
      else if tm_mday dt \<le> 24 then (if tm_mday dt = 3 then 2 else 3)
      else if tm_wday dt < 0 \<or> tm_wday dt > 6 then 0
      else if tm_wday dt \<noteq> 0 then
        (if tm_mday dt + dwoffset ! nat (tm_wday dt) > 31
         then (if tm_mon dt = 2 then 3 else 2)
         else (if tm_mon dt = 2 then 2 else 3))
      else if tm_hour dt < 3 then (if tm_mon dt = 2 then 2 else 3)
      else 0)"

definition mdays :: "int list" where
  "mdays = [31, 28, 31, 30, 31, 30, 31, 31, 30, 31, 30, 31]"

text \<open>
  \<open>tz_datetime_get\<close>: \<open>aon\<close> is what \<open>aon_timer_get_time_calendar\<close> returns, None when it fails.
\<close>

definition tz_datetime_get :: "tm option \<Rightarrow> tm option" where
  "tz_datetime_get aon =
     (case aon of None \<Rightarrow> None | Some date0 \<Rightarrow>
       (let date = date0\<lparr>tm_hour := tm_hour date0 + get_utc_eest_offset date0\<rparr> in
        if tm_hour date \<ge> 24 then
          (let date = date\<lparr>tm_mday := tm_mday date + 1, tm_hour := tm_hour date - 24\<rparr> in
           if tm_mon date \<ge> 0 \<and> tm_mon date \<le> 11 \<and> tm_mday date > mdays ! nat (tm_mon date) then
             (let date = date\<lparr>tm_mon := tm_mon date + 1, tm_mday := 1\<rparr> in
              Some (if tm_mon date > 11 then date\<lparr>tm_mon := 0\<rparr> else date))
           else Some date)
        else Some date))"

definition get_current_time_log_str :: "nat \<Rightarrow> tm option \<Rightarrow> string" where
  "get_current_time_log_str buflen aon =
     (let date = (case tz_datetime_get aon of None \<Rightarrow> tm_zero | Some d \<Rightarrow> d) in
      take (buflen - 1)
        (pad_str 4 (tm_year date + 1900) @ ''-'' @ pad_str 2 (tm_mon date + 1) @ ''-'' @
         pad_str 2 (tm_mday date) @ ''T'' @ pad_str 2 (tm_hour date) @ '':'' @
         pad_str 2 (tm_min date) @ '':'' @ pad_str 2 (tm_sec date) @ ''Z''))"

text \<open>
  A date of the calendar of a common year, as the AON timer delivers it: every field in its range, the
  day in that of its month.
\<close>

definition tm_ok :: "tm \<Rightarrow> bool" where
  "tm_ok d \<longleftrightarrow> 0 \<le> tm_sec d \<and> tm_sec d \<le> 60 \<and> 0 \<le> tm_min d \<and> tm_min d < 60 \<and>
     0 \<le> tm_hour d \<and> tm_hour d < 24 \<and> 0 \<le> tm_mon d \<and> tm_mon d \<le> 11 \<and>
     1 \<le> tm_mday d \<and> tm_mday d \<le> mdays ! nat (tm_mon d) \<and>
     0 \<le> tm_wday d \<and> tm_wday d \<le> 6 \<and> 0 \<le> tm_yday d \<and> tm_yday d \<le> 365"

text \<open>The hour within the year.\<close>

definition days_before :: "int \<Rightarrow> int" where
  "days_before m = sum_list (take (nat m) mdays)"

definition hour_of_year :: "tm \<Rightarrow> int" where
  "hour_of_year d = (days_before (tm_mon d) + tm_mday d - 1) * 24 + tm_hour d"

lemma int_cases_upto:
  "0 \<le> i \<Longrightarrow> i < int (Suc n) \<Longrightarrow> i = int n \<or> (0 \<le> i \<and> i < int n)"
  by linarith

lemma month_cases:
  assumes "0 \<le> m" "m \<le> (11 :: int)"
  shows "m \<in> {0, 1, 2, 3, 4, 5, 6, 7, 8, 9, 10, 11}"
  using assms by (simp, presburger)

lemma moffset_range: "0 \<le> m \<Longrightarrow> m \<le> 11 \<Longrightarrow> moffset ! nat m \<in> {0, 2, 3}"
  using month_cases [of m] by (auto simp: moffset_def)

lemma eest_offset_range: "0 \<le> get_utc_eest_offset d \<and> get_utc_eest_offset d \<le> 3"
proof (cases "tm_mon d < 0 \<or> tm_mon d > 11")
  case False
  then have "moffset ! nat (tm_mon d) \<in> {0, 2, 3}" by (intro moffset_range) auto
  then show ?thesis by (auto simp: get_utc_eest_offset_def)
qed (simp add: get_utc_eest_offset_def)

section \<open>Properties\<close>

lemma days_before_next: "0 \<le> m \<Longrightarrow> m \<le> 11 \<Longrightarrow> days_before (m + 1) = days_before m + mdays ! nat m"
  using month_cases [of m] by (auto simp: days_before_def mdays_def)

lemma days_before_bound: "0 \<le> m \<Longrightarrow> m \<le> 11 \<Longrightarrow> 0 \<le> days_before m \<and> days_before m + mdays ! nat m \<le> 365 \<and> 28 \<le> mdays ! nat m"
  using month_cases [of m] by (auto simp: days_before_def mdays_def)

lemma days_before_ends: "days_before 0 = 0" "days_before 12 = 365" "mdays ! 0 = 31"
  by (simp_all add: days_before_def mdays_def)

text \<open>
  C33.  A calendar date of the AON timer is turned into the date that many hours later, as the offset of
  the date says, on the calendar of a common year: days and months are carried over, all the fields are
  again those of a date.  The year, the day of the week and the day of the year are those of the date
  that was given, also when the hours go past midnight or the end of the year.
\<close>

theorem tz_datetime_shifts_hours:
  assumes "tm_ok d"
  shows "\<exists>d'. tz_datetime_get (Some d) = Some d' \<and> tm_ok d' \<and>
    hour_of_year d' = (hour_of_year d + get_utc_eest_offset d) mod (365 * 24) \<and>
    tm_min d' = tm_min d \<and> tm_sec d' = tm_sec d \<and> tm_year d' = tm_year d \<and> tm_wday d' = tm_wday d \<and> tm_yday d' = tm_yday d"
proof -
  define h m k where "h = tm_hour d + get_utc_eest_offset d" and "m = tm_mon d" and "k = tm_mday d"
  have m: "0 \<le> m" "m \<le> 11" and k: "1 \<le> k" "k \<le> mdays ! nat m" and h: "0 \<le> h" "h < 27"
    using assms eest_offset_range [of d] by (simp_all add: tm_ok_def h_def m_def k_def)
  note b = days_before_bound [OF m] days_before_next [OF m] days_before_ends
  have y: "hour_of_year d + get_utc_eest_offset d = (days_before m + k - 1) * 24 + h"
    by (simp add: hour_of_year_def h_def m_def k_def)
  consider (day) "h < 24" | (next_day) "h \<ge> 24" "k < mdays ! nat m" | (month) "h \<ge> 24" "k = mdays ! nat m" "m < 11"
    | (year) "h \<ge> 24" "k = mdays ! nat m" "m = 11" using k(2) m(2) by linarith
  then show ?thesis
  proof cases
    case day
    have "tz_datetime_get (Some d) = Some (d\<lparr>tm_hour := h\<rparr>)"
      using day by (simp add: tz_datetime_get_def h_def)
    then show ?thesis
      using assms day h k b by (simp add: y tm_ok_def) (simp add: hour_of_year_def m_def k_def)
  next
    case next_day
    have "tz_datetime_get (Some d) = Some (d\<lparr>tm_mday := k + 1, tm_hour := h - 24\<rparr>)"
      using next_day by (simp add: tz_datetime_get_def h_def k_def m_def)
    then show ?thesis
      using assms next_day h k b by (simp add: y tm_ok_def m_def) (simp add: hour_of_year_def m_def)
  next
    case month
    have "tz_datetime_get (Some d) = Some (d\<lparr>tm_mday := 1, tm_hour := h - 24, tm_mon := m + 1\<rparr>)"
      using month m by (simp add: tz_datetime_get_def h_def k_def m_def)
    then show ?thesis
      using assms month h k b days_before_bound [of "m + 1"] m by (simp add: y tm_ok_def) (simp add: hour_of_year_def)
  next
    case year
    have "tz_datetime_get (Some d) = Some (d\<lparr>tm_mday := 1, tm_hour := h - 24, tm_mon := 0\<rparr>)"
      using year by (simp add: tz_datetime_get_def h_def k_def m_def)
    moreover have "(8736 + h) mod 8760 = h - 24"
      using h(2) year(1) by (intro int_mod_pos_eq [where q = 1]) simp_all
    ultimately show ?thesis
      using assms year h k b by (simp add: y tm_ok_def) (simp add: hour_of_year_def)
  qed
qed

definition new_year_eve :: tm where
  "new_year_eve = tm_zero\<lparr>tm_hour := 23, tm_mday := 31, tm_mon := 11, tm_year := 125, tm_wday := 3\<rparr>"

theorem tz_datetime_shifts_hours_witness:
  "hour_of_year new_year_eve = 8759 \<and> (\<exists>d'. tz_datetime_get (Some new_year_eve) = Some d' \<and> hour_of_year d' = 1 \<and>
     tm_year d' = 125)"
proof -
  have ok: "tm_ok new_year_eve" and h: "hour_of_year new_year_eve = 8759" and o2: "get_utc_eest_offset new_year_eve = 2"
    and y: "tm_year new_year_eve = 125"
    by (simp_all add: tm_ok_def new_year_eve_def tm_zero_def mdays_def hour_of_year_def days_before_def
        get_utc_eest_offset_def moffset_def)
  from tz_datetime_shifts_hours [OF ok] h o2 y show ?thesis by auto
qed

text \<open>
  The EET/EEST offset of the last week of March and October: on every day but Sunday it is
  3 exactly when summer time is in force, that is after the last Sunday of March and before
  the last Sunday of October.
\<close>

theorem eest_offset_last_week:
  assumes "tm_mon d = 2 \<or> tm_mon d = 9" "25 \<le> tm_mday d" "tm_mday d \<le> 31"
    and "1 \<le> tm_wday d" "tm_wday d \<le> 6"
  shows "get_utc_eest_offset d =
    (let after_last_sunday = tm_mday d + (7 - tm_wday d) > 31
     in if after_last_sunday = (tm_mon d = 2) then 3 else 2)"
proof -
  have w: "tm_wday d \<in> {1, 2, 3, 4, 5, 6}" using assms(4,5) by (simp, presburger)
  then have dw: "dwoffset ! nat (tm_wday d) = 7 - tm_wday d" by (auto simp: dwoffset_def)
  have m: "moffset ! nat (tm_mon d) = 0" using assms(1) by (auto simp: moffset_def)
  show ?thesis using assms unfolding get_utc_eest_offset_def m dw by auto
qed

theorem eest_offset_last_week_witness:
  "get_utc_eest_offset (tm_zero\<lparr>tm_mon := 2, tm_mday := 31, tm_wday := 1\<rparr>) = 3"
  using eest_offset_last_week [of "tm_zero\<lparr>tm_mon := 2, tm_mday := 31, tm_wday := 1\<rparr>"]
  by (simp add: tm_zero_def)

text \<open>
  Outside that week the switch-over months are not told apart: on the days 1 to 24 March and
  October both get the summer offset 3 (2 on the third day only), and on the last Sunday from
  3 o'clock on the offset is 0.
\<close>

theorem eest_offset_early_days:
  assumes "tm_mon d = 2 \<or> tm_mon d = 9"
  shows "(tm_mday d \<le> 24 \<longrightarrow> get_utc_eest_offset d = (if tm_mday d = 3 then 2 else 3)) \<and>
    (24 < tm_mday d \<and> tm_wday d = 0 \<and> 3 \<le> tm_hour d \<longrightarrow> get_utc_eest_offset d = 0)"
proof -
  have "moffset ! nat (tm_mon d) = 0" using assms by (auto simp: moffset_def)
  with assms show ?thesis by (auto simp: get_utc_eest_offset_def)
qed

theorem eest_offset_early_days_witness:
  "get_utc_eest_offset (tm_zero\<lparr>tm_mon := 2, tm_mday := 10\<rparr>) = 3 \<and>
   get_utc_eest_offset (tm_zero\<lparr>tm_mon := 2, tm_mday := 30, tm_hour := 12\<rparr>) = 0"
  using eest_offset_early_days [of "tm_zero\<lparr>tm_mon := 2, tm_mday := 10\<rparr>"]
    eest_offset_early_days [of "tm_zero\<lparr>tm_mon := 2, tm_mday := 30, tm_hour := 12\<rparr>"]
  by (simp add: tm_zero_def)

text \<open>
  The millisecond count is split without loss while the seconds fit 32 bits: the parts are in
  their ranges and add up to the input, and \<open>tm_yday\<close> is left 0.
\<close>

theorem msec2datetime_splits:
  assumes "unat msec div 1000 < 4294967296"
  shows "\<exists>years. let (d, ms) = time_msec2datetime msec in
    0 \<le> tm_sec d \<and> tm_sec d < 60 \<and> 0 \<le> tm_min d \<and> tm_min d < 60 \<and>
    0 \<le> tm_hour d \<and> tm_hour d < 24 \<and> 0 \<le> tm_mday d \<and> tm_mday d < 365 \<and> unat ms < 1000 \<and>
    tm_yday d = 0 \<and> tm_year d = int_of_word (of_nat years - 1900 :: u32) \<and>
    int (unat msec) = (((((int years * 365 + tm_mday d) * 24 + tm_hour d) * 60 + tm_min d) * 60
      + tm_sec d) * 1000) + int (unat ms)"
proof -
  define s where "s = unat msec div 1000"
  define years e c b a r where "years = s div 60 div 60 div 24 div 365"
    and "e = s div 60 div 60 div 24 mod 365" and "c = s div 60 div 60 mod 24"
    and "b = s div 60 mod 60" and "a = s mod 60" and "r = unat msec mod 1000"
  note parts = years_def e_def c_def b_def a_def r_def
  have sum: "unat msec = ((((years * 365 + e) * 24 + c) * 60 + b) * 60 + a) * 1000 + r"
    unfolding parts unfolding s_def by (simp only: div_mult_mod_eq)
  have bounds: "e < 365" "c < 24" "b < 60" "a < 60" "r < 1000"
    unfolding parts by simp_all
  have d: "fst (time_msec2datetime msec) = tm_zero\<lparr>tm_sec := int a, tm_min := int b, tm_hour := int c,
      tm_mday := int e, tm_year := int_of_word (of_nat years - 1900 :: u32)\<rparr>"
    and ms: "unat (snd (time_msec2datetime msec)) = r"
    using msec2datetime_fields [OF assms] unfolding parts s_def by blast+
  show ?thesis
    using bounds unfolding case_prod_beta Let_def d ms sum
    by (intro exI [of _ years]) (simp add: tm_zero_def)
qed

theorem msec2datetime_splits_witness: "unat (90061001 :: u64) div 1000 < 4294967296 \<and>
  (\<exists>years. let (d, ms) = time_msec2datetime 90061001 in
    0 \<le> tm_sec d \<and> tm_sec d < 60 \<and> 0 \<le> tm_min d \<and> tm_min d < 60 \<and>
    0 \<le> tm_hour d \<and> tm_hour d < 24 \<and> 0 \<le> tm_mday d \<and> tm_mday d < 365 \<and> unat ms < 1000 \<and>
    tm_yday d = 0 \<and> tm_year d = int_of_word (of_nat years - 1900 :: u32) \<and>
    int (unat (90061001 :: u64)) = (((((int years * 365 + tm_mday d) * 24 + tm_hour d) * 60 + tm_min d) * 60
      + tm_sec d) * 1000) + int (unat ms))"
proof -
  have "unat (90061001 :: u64) div 1000 < 4294967296" by simp
  with msec2datetime_splits [OF this] show ?thesis by blast
qed

lemma date2str_year_irrelevant:
  "tm_year d \<le> 0 \<Longrightarrow> time_date2str n d = time_date2str n (d\<lparr>tm_year := 0, tm_mday := 0\<rparr>)"
  by (simp add: time_date2str_def hms_str_def)

text \<open>
  The uptime text has no days: two uptimes a whole number of days apart print the same,
  because \<open>time_msec2datetime\<close> stores the days in \<open>tm_mday\<close> and \<open>time_date2str\<close> prints
  \<open>tm_yday\<close>.
\<close>

theorem uptime_drops_days:
  assumes "unat a div 1000 < 4294967296" "unat b div 1000 < 4294967296"
    and "unat a div 1000 mod 86400 = unat b div 1000 mod 86400"
    and "unat a div 1000 div 31536000 < 1900" "unat b div 1000 div 31536000 < 1900"
  shows "get_uptime a = get_uptime b"
proof -
  have fields: "s mod 60 = s mod 86400 mod 60" "s div 60 mod 60 = s mod 86400 div 60 mod 60"
    "s div 60 div 60 mod 24 = s mod 86400 div 60 div 60" for s :: nat
  proof -
    show "s mod 60 = s mod 86400 mod 60" by (simp add: mod_mod_cancel)
    have e: "s mod (60 * 1440) = 60 * (s div 60 mod 1440) + s mod 60" by (rule mod_mult2_eq)
    have f: "s div 60 mod (60 * 24) = 60 * (s div 60 div 60 mod 24) + s div 60 mod 60"
      by (rule mod_mult2_eq)
    have g: "s mod 86400 div 60 = s div 60 mod 1440" using e by simp
    show "s div 60 mod 60 = s mod 86400 div 60 mod 60" using f g by simp
    show "s div 60 div 60 mod 24 = s mod 86400 div 60 div 60" using f g by simp
  qed
  have y: "s div 60 div 60 div 24 div 365 = s div 31536000" for s :: nat
    by (simp add: div_mult2_eq [symmetric])
  have eq: "get_uptime w = time_date2str 64 (tm_zero\<lparr>tm_sec := int (s mod 86400 mod 60),
      tm_min := int (s mod 86400 div 60 mod 60), tm_hour := int (s mod 86400 div 60 div 60)\<rparr>)"
    if s: "s = unat w div 1000" and lt: "s < 4294967296" "s div 31536000 < 1900" for w s
  proof -
    have "get_uptime w = time_date2str 64 ((fst (time_msec2datetime w))\<lparr>tm_year := 0, tm_mday := 0\<rparr>)"
      unfolding get_uptime_def
      by (rule date2str_year_irrelevant)
         (use msec2datetime_fields(1) [of w] uptime_year_not_positive [OF lt(2)] s lt(1) y in simp)
    also have "(fst (time_msec2datetime w))\<lparr>tm_year := 0, tm_mday := 0\<rparr> =
      tm_zero\<lparr>tm_sec := int (s mod 60), tm_min := int (s div 60 mod 60),
        tm_hour := int (s div 60 div 60 mod 24)\<rparr>"
      using msec2datetime_fields(1) [of w] lt(1) unfolding s by (simp add: tm_zero_def)
    finally show ?thesis unfolding fields [of s] .
  qed
  show ?thesis using eq [OF refl assms(1,4)] eq [OF refl assms(2,5)] assms(3) by simp
qed

theorem uptime_drops_days_witness: "get_uptime 3600000 = get_uptime 90000000"
  by (rule uptime_drops_days) simp_all

end
