(* ===== verification/Commands.thy ===== *)
theory Commands
  imports Prelude
begin

text \<open>
  The commands engine, \<open>libs/common/services/commands/commands.c\<close>: the table of modules and
  their command hooks, registration (\<open>cmd_handler_add\<close>) and dispatch (\<open>cmd_exec\<close>) of a request
  \<open><module>?<command>[:<params>]\<close>.  A callback takes the world (whatever state the modules
  share) and returns it; None is a callback that does not return.  The counters \<open>count\<close> of the
  C structures are the lengths of the lists; \<open>al i\<close> tells whether the i-th \<open>calloc\<close> of a call
  succeeds.
\<close>

datatype run_type = CMD_CTX_WEB | CMD_CTX_MQTT | CMD_CTX_SCRIPT

record cmd_run_context =
  rc_type :: run_type
  rc_context :: nat

type_synonym ('u, 'w) app_command_cb =
  "cmd_run_context \<Rightarrow> string \<Rightarrow> string \<Rightarrow> 'u \<Rightarrow> 'w \<Rightarrow> (int \<times> 'w) option"

record ('u, 'w) app_command =
  cmd_name :: string
  cmd_descr :: string
  cb :: "('u, 'w) app_command_cb option"

record ('u, 'w) cmd_handler =
  description :: string
  user_data :: 'u
  cmd_cb :: "('u, 'w) app_command list"

record ('u, 'w) cmd_mod_handler =
  module :: string
  mod_cb :: "('u, 'w) cmd_handler list"

record ('u, 'w) cmd_context =
  handlers :: "('u, 'w) cmd_mod_handler list"
  cmd_debug :: u32

definition MAX_CMD_MOD_HANDLERS :: nat where "MAX_CMD_MOD_HANDLERS = 64"
definition MAX_CMD_MOD_HOOKS :: nat where "MAX_CMD_MOD_HOOKS = 2"
definition CMD_PARAM_DELIMITER :: char where "CMD_PARAM_DELIMITER = CHR ''?''"

definition run_ctx_name :: "cmd_run_context \<Rightarrow> string" where
  "run_ctx_name c = (case rc_type c of CMD_CTX_WEB \<Rightarrow> ''WEB'' | CMD_CTX_MQTT \<Rightarrow> ''MQTT''
     | CMD_CTX_SCRIPT \<Rightarrow> ''Script'')"

definition sys_cmd_debug_set :: "u32 \<Rightarrow> ('u, 'w) cmd_context \<Rightarrow> ('u, 'w) cmd_context" where
  "sys_cmd_debug_set lvl ctx = ctx\<lparr>cmd_debug := lvl\<rparr>"

definition sys_cmd_init :: "('u, 'w) cmd_context" where
  "sys_cmd_init = \<lparr>handlers = [], cmd_debug = 0\<rparr>"

section \<open>Registration\<close>

text \<open>The loop that looks a module up by \<open>strlen\<close> and \<open>strncmp\<close>: its index, if any.\<close>

fun find_mod :: "string \<Rightarrow> ('u, 'w) cmd_mod_handler list \<Rightarrow> nat option" where
  "find_mod m [] = None"
| "find_mod m (h # hs) =
     (if length m \<noteq> length (module h) then map_option Suc (find_mod m hs)
      else if strncmp_ne m (module h) (length m) then map_option Suc (find_mod m hs)
      else Some 0)"

text \<open>The lines that \<open>cmd_module_help\<close> prints for a module.\<close>

definition sys_cmd_module_help :: "('u, 'w) cmd_mod_handler \<Rightarrow> string list" where
  "sys_cmd_module_help h =
     concat (map (\<lambda>c. map (\<lambda>a. module h @ ''?'' @ cmd_name a @ cmd_descr a) (cmd_cb c)) (mod_cb h))"

definition cmd_module_help :: "('u, 'w) cmd_context option \<Rightarrow> string \<Rightarrow> string list" where
  "cmd_module_help ctx m =
     (case ctx of None \<Rightarrow> [] | Some c \<Rightarrow>
       (case find_mod m (handlers c) of None \<Rightarrow> []
        | Some i \<Rightarrow> sys_cmd_module_help (handlers c ! i)))"

definition cmd_handler_add ::
  "(nat \<Rightarrow> bool) \<Rightarrow> ('u, 'w) cmd_context option \<Rightarrow> string \<Rightarrow> ('u, 'w) app_command list \<Rightarrow> string \<Rightarrow> 'u
   \<Rightarrow> int \<times> ('u, 'w) cmd_context option" where
  "cmd_handler_add al ctx m commands desc ud =
     (case ctx of None \<Rightarrow> (-1, None) | Some c \<Rightarrow>
       (let found = find_mod m (handlers c) in
        if found = None \<and> length (handlers c) \<ge> MAX_CMD_MOD_HANDLERS then (-1, Some c)
        else if found = None \<and> \<not> al 0 then (-1, Some c)
        else
          (let c = (if found = None then c\<lparr>handlers := handlers c @ [\<lparr>module = m, mod_cb = []\<rparr>]\<rparr> else c);
               i = (case found of None \<Rightarrow> length (handlers c) - 1 | Some i \<Rightarrow> i);
               h = handlers c ! i
           in if length (mod_cb h) \<ge> MAX_CMD_MOD_HOOKS then (-1, Some c)
              else if \<not> al 1 then (-1, Some c)
              else (0, Some (c\<lparr>handlers := (handlers c)[i := h\<lparr>mod_cb := mod_cb h @
                      [\<lparr>description = desc, user_data = ud, cmd_cb = commands\<rparr>]\<rparr>]\<rparr>)))))"

section \<open>Dispatch\<close>

text \<open>The tests of the module loop and of the innermost command loop of \<open>cmd_exec\<close>.\<close>

definition mod_matches :: "string \<Rightarrow> string \<Rightarrow> bool" where
  "mod_matches url cmd_str \<longleftrightarrow> \<not> length url > length cmd_str \<and> \<not> strncmp_ne url cmd_str (length url) \<and>
     length url < length cmd_str \<and> cmd_str ! length url = CMD_PARAM_DELIMITER"

definition cmd_matches :: "('u, 'w) app_command \<Rightarrow> string \<Rightarrow> bool" where
  "cmd_matches c rest \<longleftrightarrow> cb c \<noteq> None \<and> \<not> length (cmd_name c) > length rest \<and>
     \<not> strncmp_ne (cmd_name c) rest (length (cmd_name c)) \<and>
     (length rest > length (cmd_name c) \<longrightarrow> rest ! length (cmd_name c) = CHR '':'')"

text \<open>The \<open>j\<close> and \<open>k\<close> loops: the first matching command, with the user data of its handler.\<close>

fun find_cmd :: "('u, 'w) cmd_handler list \<Rightarrow> string \<Rightarrow> (('u, 'w) app_command \<times> 'u) option" where
  "find_cmd [] rest = None"
| "find_cmd (h # hs) rest =
     (case find (\<lambda>c. cmd_matches c rest) (cmd_cb h) of
        Some c \<Rightarrow> Some (c, user_data h)
      | None \<Rightarrow> find_cmd hs rest)"

definition cmd_help :: "string \<Rightarrow> int" where
  "cmd_help cmd_str =
     (if length ''help'' \<noteq> length cmd_str then -1
      else if strncmp_ne ''help'' cmd_str (length ''help'') then -1 else 0)"

definition cmd_exec ::
  "('u, 'w) cmd_context option \<Rightarrow> cmd_run_context \<Rightarrow> string option \<Rightarrow> 'w \<Rightarrow> (int \<times> 'w) option" where
  "cmd_exec ctx cmd_ctx cmd_str w =
     (case (ctx, cmd_str) of
        (Some c, Some s) \<Rightarrow>
          (case find (\<lambda>h. mod_matches (module h) s) (handlers c) of
             None \<Rightarrow> Some (cmd_help s, w)
           | Some h \<Rightarrow>
               (case find_cmd (mod_cb h) (drop (length (module h) + 1) s) of
                  None \<Rightarrow> Some (cmd_help s, w)
                | Some (a, ud) \<Rightarrow>
                    (case cb a of None \<Rightarrow> Some (cmd_help s, w)
                     | Some f \<Rightarrow> f cmd_ctx (cmd_name a)
                         (drop (length (module h) + 1 + length (cmd_name a)) s) ud w)))
      | _ \<Rightarrow> Some (-1, w))"

section \<open>What the table means\<close>

text \<open>
  The reference: split the request at the first \<open>?\<close> and the command at the first \<open>:\<close>, look the
  two names up, run the command on the rest.
\<close>

definition cmd_lookup ::
  "('u, 'w) cmd_context \<Rightarrow> string \<Rightarrow> string \<Rightarrow> (('u, 'w) app_command \<times> 'u) option" where
  "cmd_lookup c m name =
     (case find (\<lambda>h. module h = m) (handlers c) of None \<Rightarrow> None
      | Some h \<Rightarrow> find (\<lambda>(a, u). cb a \<noteq> None \<and> cmd_name a = name)
          (concat (map (\<lambda>h. map (\<lambda>a. (a, user_data h)) (cmd_cb h)) (mod_cb h))))"

definition cmd_spec ::
  "('u, 'w) cmd_context \<Rightarrow> cmd_run_context \<Rightarrow> string \<Rightarrow> 'w \<Rightarrow> (int \<times> 'w) option" where
  "cmd_spec c cmd_ctx s w =
     (let m = takeWhile (\<lambda>x. x \<noteq> CHR ''?'') s;
          rest = tl (dropWhile (\<lambda>x. x \<noteq> CHR ''?'') s);
          name = takeWhile (\<lambda>x. x \<noteq> CHR '':'') rest
      in case (if CHR ''?'' \<in> set s then cmd_lookup c m name else None) of
           None \<Rightarrow> Some (if s = ''help'' then 0 else -1, w)
         | Some (a, ud) \<Rightarrow> the (cb a) cmd_ctx name (drop (length name) rest) ud w)"

text \<open>Names without the separators, and the size limits of the tables.\<close>

definition cmd_names_ok :: "('u, 'w) cmd_context \<Rightarrow> bool" where
  "cmd_names_ok c \<longleftrightarrow> (\<forall>h\<in>set (handlers c). CHR ''?'' \<notin> set (module h) \<and>
     (\<forall>d\<in>set (mod_cb h). \<forall>a\<in>set (cmd_cb d). CHR '':'' \<notin> set (cmd_name a)))"

definition cmd_wf :: "('u, 'w) cmd_context \<Rightarrow> bool" where
  "cmd_wf c \<longleftrightarrow> length (handlers c) \<le> MAX_CMD_MOD_HANDLERS \<and> distinct (map module (handlers c)) \<and>
     (\<forall>h\<in>set (handlers c). length (mod_cb h) \<le> MAX_CMD_MOD_HOOKS)"

lemma takeWhile_eq_prefix:
  "d \<notin> set p \<Longrightarrow> (takeWhile (\<lambda>x. x \<noteq> d) s = p) \<longleftrightarrow>
     (length p \<le> length s \<and> take (length p) s = p \<and> (length p < length s \<longrightarrow> s ! length p = d))"
proof (induction p arbitrary: s)
  case Nil
  then show ?case by (cases s) auto
next
  case (Cons a p)
  then show ?case by (cases s) auto
qed

lemma strncmp_take: "length a \<le> length b \<Longrightarrow> \<not> strncmp_ne a b (length a) \<longleftrightarrow> take (length a) b = a"
  unfolding strncmp_ne_def by (metis order_refl take_all)

lemma cmd_matches_iff:
  assumes "CHR '':'' \<notin> set (cmd_name c)"
  shows "cmd_matches c rest \<longleftrightarrow> cb c \<noteq> None \<and> cmd_name c = takeWhile (\<lambda>x. x \<noteq> CHR '':'') rest"
proof -
  have "cmd_matches c rest \<longleftrightarrow> cb c \<noteq> None \<and> takeWhile (\<lambda>x. x \<noteq> CHR '':'') rest = cmd_name c"
    unfolding takeWhile_eq_prefix [OF assms] cmd_matches_def not_less
    using strncmp_take by blast
  then show ?thesis by metis
qed

lemma mod_matches_iff:
  assumes url: "CHR ''?'' \<notin> set url"
  shows "mod_matches url s \<longleftrightarrow> CHR ''?'' \<in> set s \<and> url = takeWhile (\<lambda>x. x \<noteq> CHR ''?'') s"
proof -
  have "mod_matches url s \<longleftrightarrow> takeWhile (\<lambda>x. x \<noteq> CHR ''?'') s = url \<and> length url < length s"
    unfolding takeWhile_eq_prefix [OF url] mod_matches_def not_less CMD_PARAM_DELIMITER_def
    using strncmp_take [of url s] by (auto simp: less_imp_le)
  moreover have "length (takeWhile (\<lambda>x. x \<noteq> CHR ''?'') s) < length s \<longleftrightarrow> CHR ''?'' \<in> set s"
    by (induction s) auto
  ultimately show ?thesis by metis
qed

lemma find_mod_None: "find_mod m hs = None \<longleftrightarrow> m \<notin> set (map module hs)"
  by (induction hs) (auto simp: strncmp_ne_def)

lemma find_mod_Some: "find_mod m hs = Some i \<Longrightarrow> i < length hs \<and> module (hs ! i) = m"
  by (induction hs arbitrary: i) (auto simp: strncmp_ne_def split: if_splits)

lemma find_cong_set: "(\<And>x. x \<in> set xs \<Longrightarrow> P x = Q x) \<Longrightarrow> find P xs = find Q xs"
  by (induction xs) auto

lemma find_append: "find P (xs @ ys) = (case find P xs of None \<Rightarrow> find P ys | Some x \<Rightarrow> Some x)"
  by (induction xs) auto

lemma find_map_pair: "find (\<lambda>(a, u). P a) (map (\<lambda>a. (a, v)) xs) = map_option (\<lambda>a. (a, v)) (find P xs)"
  by (induction xs) auto

lemma find_cmd_eq:
  assumes "\<forall>d\<in>set ds. \<forall>a\<in>set (cmd_cb d). CHR '':'' \<notin> set (cmd_name a)"
  shows "find_cmd ds rest = find (\<lambda>(a, u). cb a \<noteq> None \<and> cmd_name a = takeWhile (\<lambda>x. x \<noteq> CHR '':'') rest)
    (concat (map (\<lambda>h. map (\<lambda>a. (a, user_data h)) (cmd_cb h)) ds))"
  using assms
proof (induction ds)
  case (Cons d ds)
  have "find (\<lambda>c. cmd_matches c rest) (cmd_cb d) =
      find (\<lambda>a. cb a \<noteq> None \<and> cmd_name a = takeWhile (\<lambda>x. x \<noteq> CHR '':'') rest) (cmd_cb d)"
    by (rule find_cong_set) (use Cons.prems cmd_matches_iff in auto)
  then show ?case
    using Cons by (simp add: find_append find_map_pair split: option.splits)
qed simp

lemma cmd_help_eq: "cmd_help s = (if s = ''help'' then 0 else -1)"
  by (auto simp: cmd_help_def strncmp_ne_def)


lemma find_SomeD: "find P xs = Some x \<Longrightarrow> x \<in> set xs \<and> P x"
  by (induction xs) (auto split: if_splits)

lemma find_find_mod: "find (\<lambda>h. module h = m) hs = map_option ((!) hs) (find_mod m hs)"
  by (induction hs) (auto simp: strncmp_ne_def option.map_comp comp_def)

lemma cmd_exec_lookup:
  assumes ok: "cmd_names_ok c"
  shows "cmd_exec (Some c) cc (Some s) w = cmd_spec c cc s w"
proof -
  define m where "m = takeWhile (\<lambda>x. x \<noteq> CHR ''?'') s"
  have fm: "find (\<lambda>h. mod_matches (module h) s) (handlers c) =
      (if CHR ''?'' \<in> set s then find (\<lambda>h. module h = m) (handlers c) else None)"
  proof -
    have "find (\<lambda>h. mod_matches (module h) s) (handlers c) =
        find (\<lambda>h. CHR ''?'' \<in> set s \<and> module h = m) (handlers c)"
      by (rule find_cong_set) (use ok in \<open>auto simp: cmd_names_ok_def mod_matches_iff m_def\<close>)
    then show ?thesis by (simp add: find_None_iff)
  qed
  show ?thesis
  proof (cases "if CHR ''?'' \<in> set s then find (\<lambda>h. module h = m) (handlers c) else None")
    case None
    then show ?thesis
      unfolding cmd_exec_def cmd_spec_def Let_def cmd_lookup_def
      by (fold m_def) (auto simp: fm cmd_help_eq)
  next
    case (Some h)
    then have q: "CHR ''?'' \<in> set s" and f: "find (\<lambda>h. module h = m) (handlers c) = Some h"
      by (auto split: if_splits)
    have h: "module h = m" "h \<in> set (handlers c)" using find_SomeD [OF f] by auto
    define rest where "rest = tl (dropWhile (\<lambda>x. x \<noteq> CHR ''?'') s)"
    have d: "drop (length m + 1) s = rest"
      unfolding m_def rest_def by (simp add: dropWhile_eq_drop drop_Suc tl_drop)
    have d2: "drop (length m + 1 + k) s = drop k rest" for k
      using d by (metis drop_drop add.commute)
    have dh: "\<forall>d\<in>set (mod_cb h). \<forall>a\<in>set (cmd_cb d). CHR '':'' \<notin> set (cmd_name a)"
      using ok h(2) by (auto simp: cmd_names_ok_def)
    define name where "name = takeWhile (\<lambda>x. x \<noteq> CHR '':'') rest"
    have fc: "find_cmd (mod_cb h) rest = cmd_lookup c m name"
      unfolding find_cmd_eq [OF dh] cmd_lookup_def f name_def by simp
    have nm: "cb a \<noteq> None \<and> cmd_name a = name" if "cmd_lookup c m name = Some (a, u)" for a u
      using that unfolding cmd_lookup_def f option.case by (drule_tac find_SomeD) auto
    have "s \<noteq> ''help''" using q by auto
    then show ?thesis
      unfolding cmd_exec_def cmd_spec_def Let_def
      by (fold m_def rest_def name_def)
        (use q f fm h d2 fc nm in \<open>auto simp: cmd_help_eq d [simplified] split: option.splits\<close>)
  qed
qed

text \<open>
  C2.  Dispatch is lookup: when module names have no \<open>?\<close> and command names no \<open>:\<close>, the
  prefix-comparing loops of \<open>cmd_exec\<close> run exactly the first registered command whose full name
  is the text between the first \<open>?\<close> and the first \<open>:\<close> after it, in the module named before
  the \<open>?\<close>, on the rest of the request; every other request leaves the world as it is and
  returns -1 (0 for the plain \<open>help\<close>).
\<close>

lemma cmd_exec_is_lookup:
  assumes "cmd_names_ok c"
  shows "cmd_exec (Some c) cc (Some s) w = cmd_spec c cc s w"
  using assms by (rule cmd_exec_lookup)

text \<open>
  Registration keeps the table well formed on every branch, failed allocations included:
  never more than 64 modules with distinct names, never more than 2 hooks each.
\<close>

lemma cmd_handler_add_wf:
  assumes "cmd_wf c" and "cmd_handler_add al (Some c) m cmds desc ud = (r, Some c')"
  shows "cmd_wf c'"
proof (cases "find_mod m (handlers c)")
  case None
  then have m: "m \<notin> set (map module (handlers c))" by (simp add: find_mod_None)
  with None assms show ?thesis
    unfolding cmd_handler_add_def option.case Let_def
    by (auto simp: cmd_wf_def nth_append MAX_CMD_MOD_HOOKS_def split: if_splits)
next
  case (Some i)
  have dm: "map module ((handlers c)[i := h]) = map module (handlers c)"
    if "module h = module (handlers c ! i)" for h
    using that find_mod_Some [OF Some] by (auto simp: map_update list_update_same_conv)
  from Some find_mod_Some [OF Some] assms show ?thesis
    unfolding cmd_handler_add_def option.case Let_def
    by (auto simp: cmd_wf_def dm simp del: map_update dest!: set_update_subset_insert [THEN subsetD]
        split: if_splits)
qed

lemma find_mod_iff: "find_mod m hs = Some i \<Longrightarrow> find (\<lambda>h. module h = m) hs = Some (hs ! i)"
  by (simp add: find_find_mod)

lemma find_mod_least: "find_mod m hs = Some i \<Longrightarrow> j < i \<Longrightarrow> module (hs ! j) \<noteq> m"
proof (induction hs arbitrary: i j)
  case (Cons h hs)
  then show ?case by (cases j) (auto simp: strncmp_ne_def split: if_splits)
qed simp

lemma find_list_update:
  "i < length xs \<Longrightarrow> P y = P (xs ! i) \<Longrightarrow> find P (xs[i := y]) =
     (case find P xs of None \<Rightarrow> None | Some x \<Rightarrow> Some (if \<forall>j<i. \<not> P (xs ! j) then (if P (xs ! i) then y else x) else x))"
proof (induction xs arbitrary: i)
  case (Cons x xs)
  then show ?case
    by (cases i) (auto simp: All_less_Suc2 split: option.splits)
qed simp

lemma cmd_handler_add_lookup_eq:
  assumes add: "cmd_handler_add al (Some c) m cmds desc ud = (0, Some c')"
  shows "cmd_lookup c' m' n =
    (case cmd_lookup c m' n of Some x \<Rightarrow> Some x
     | None \<Rightarrow> if m' = m then map_option (\<lambda>a. (a, ud)) (find (\<lambda>a. cb a \<noteq> None \<and> cmd_name a = n) cmds) else None)"
proof (cases "find_mod m (handlers c)")
  case None
  have c': "c' = c\<lparr>handlers := handlers c @ [\<lparr>module = m, mod_cb =
      [\<lparr>description = desc, user_data = ud, cmd_cb = cmds\<rparr>]\<rparr>]\<rparr>"
    using add None unfolding cmd_handler_add_def option.case Let_def
    by (auto simp: nth_append split: if_splits)
  have f: "find (\<lambda>h. module h = m) (handlers c) = None" using None by (simp add: find_find_mod)
  show ?thesis
    unfolding cmd_lookup_def c'
    using f by (auto simp: find_append find_map_pair split: option.split)
next
  case (Some i)
  let ?h = "handlers c ! i"
  let ?h' = "?h\<lparr>mod_cb := mod_cb ?h @ [\<lparr>description = desc, user_data = ud, cmd_cb = cmds\<rparr>]\<rparr>"
  have c': "c' = c\<lparr>handlers := (handlers c)[i := ?h']\<rparr>"
    using add Some unfolding cmd_handler_add_def option.case Let_def by (auto split: if_splits)
  have i: "i < length (handlers c)" "module ?h = m" using find_mod_Some [OF Some] by auto
  have f: "find (\<lambda>h. module h = m') ((handlers c)[i := ?h']) =
      (if m' = m then Some ?h' else find (\<lambda>h. module h = m') (handlers c))"
    using find_list_update [of i "handlers c" "\<lambda>h. module h = m'" ?h'] i find_mod_least [OF Some]
      find_mod_iff [OF Some] by (auto split: option.splits)
  show ?thesis
    using find_mod_iff [OF Some] unfolding cmd_lookup_def c'
    by (auto simp: f find_append find_map_pair split: option.split)
qed

text \<open>
  A registered command is reachable: after a successful registration the table holds what
  it held before, and looking up a name of the registered module that nothing earlier answers
  finds the first of the new commands with that name, with the user data it was registered with.
\<close>

lemma cmd_handler_add_lookup:
  assumes "cmd_handler_add al (Some c) m cmds desc ud = (0, Some c')"
  shows "cmd_lookup c' m' n =
    (case cmd_lookup c m' n of Some x \<Rightarrow> Some x
     | None \<Rightarrow> if m' = m then map_option (\<lambda>a. (a, ud)) (find (\<lambda>a. cb a \<noteq> None \<and> cmd_name a = n) cmds) else None)"
  using assms by (rule cmd_handler_add_lookup_eq)

section \<open>Witnesses\<close>

text \<open>A table with one module and one command, which adds the length of its parameters.\<close>

definition demo_add :: "(nat, nat) app_command" where
  "demo_add = \<lparr>cmd_name = ''set'', cmd_descr = [], cb = Some (\<lambda>c n p u w. Some (0, w + u + length p))\<rparr>"

definition demo_table :: "(nat, nat) cmd_context" where
  "demo_table = \<lparr>handlers = [\<lparr>module = ''ssr'', mod_cb = [\<lparr>description = [], user_data = 10, cmd_cb = [demo_add]\<rparr>]\<rparr>],
     cmd_debug = 0\<rparr>"

definition demo_ctx :: cmd_run_context where
  "demo_ctx = \<lparr>rc_type = CMD_CTX_WEB, rc_context = 0\<rparr>"

lemma cmd_exec_is_lookup_witness:
  "cmd_names_ok demo_table \<and> cmd_exec (Some demo_table) demo_ctx (Some ''ssr?set:1'') 5 = Some (0, 17) \<and>
   cmd_exec (Some demo_table) demo_ctx (Some ''ssr?sett'') 5 = Some (-1, 5)"
proof -
  have ok: "cmd_names_ok demo_table" by (simp add: cmd_names_ok_def demo_table_def demo_add_def)
  have "cmd_spec demo_table demo_ctx ''ssr?set:1'' 5 = Some (0, 17)"
    "cmd_spec demo_table demo_ctx ''ssr?sett'' 5 = Some (-1, 5)"
    by (simp_all add: cmd_spec_def cmd_lookup_def demo_table_def demo_add_def Let_def)
  with ok show ?thesis using cmd_exec_is_lookup [OF ok] by metis
qed

lemma cmd_handler_add_wf_witness:
  "\<exists>c'. cmd_handler_add (\<lambda>_. True) (Some demo_table) ''sht20'' [demo_add] [] 3 = (0, Some c') \<and> cmd_wf c'"
proof -
  have wf: "cmd_wf demo_table"
    by (simp add: cmd_wf_def demo_table_def MAX_CMD_MOD_HANDLERS_def MAX_CMD_MOD_HOOKS_def)
  obtain r c' where c: "cmd_handler_add (\<lambda>_. True) (Some demo_table) ''sht20'' [demo_add] [] 3 = (r, Some c')" "r = 0"
    by (simp add: cmd_handler_add_def demo_table_def strncmp_ne_def MAX_CMD_MOD_HANDLERS_def MAX_CMD_MOD_HOOKS_def Let_def)
  from cmd_handler_add_wf [OF wf c(1)] c show ?thesis by blast
qed

lemma cmd_handler_add_lookup_witness:
  "\<exists>c'. cmd_handler_add (\<lambda>_. True) (Some demo_table) ''ssr'' [demo_add\<lparr>cmd_name := ''reset''\<rparr>] [] 3 = (0, Some c') \<and>
     map_option snd (cmd_lookup c' ''ssr'' ''reset'') = Some 3"
proof -
  obtain r c' where c: "cmd_handler_add (\<lambda>_. True) (Some demo_table) ''ssr'' [demo_add\<lparr>cmd_name := ''reset''\<rparr>] [] 3 = (r, Some c')" "r = 0"
    by (simp add: cmd_handler_add_def demo_table_def strncmp_ne_def MAX_CMD_MOD_HANDLERS_def MAX_CMD_MOD_HOOKS_def Let_def)
  have "cmd_lookup demo_table ''ssr'' ''reset'' = None"
    by (simp add: cmd_lookup_def demo_table_def demo_add_def)
  with cmd_handler_add_lookup [of "\<lambda>_. True" demo_table "''ssr''" "[demo_add\<lparr>cmd_name := ''reset''\<rparr>]" "[]" 3 c' "''ssr''" "''reset''"] c
  show ?thesis by (simp add: demo_add_def)
qed

end
