(* ===== verification/Mqtt.thy ===== *)
theory Mqtt
  imports Prelude
begin

text \<open>
  The MQTT service of \<open>libs/common/services/mqtt\<close>: \<open>mqtt_publish.c\<close> (the rate limited
  publishing, the Home Assistant discovery messages, the component table) and \<open>mqtt_listen.c\<close>
  (topics, hooks and the buffers of incoming messages).  \<open>MqttClient\<close> holds the connection.

  lwIP is not part of the sources: \<open>lwip\<close> is what its calls answer during one call of the
  model (the error of a publish by topic and message, whether the client is connected, the
  readings of the millisecond clock in their order).  \<open>wire\<close> records what lwIP accepted.
  Reading an array out of its bounds is None.
\<close>

section \<open>State\<close>

definition MQTT_DISCOVERY_MAX_COUNT :: nat where "MQTT_DISCOVERY_MAX_COUNT = 512"
definition MQTT_DISCOVERY_BUFF_SIZE :: nat where "MQTT_DISCOVERY_BUFF_SIZE = 640"
definition MQTT_MAX_TOPIC_SIZE :: nat where "MQTT_MAX_TOPIC_SIZE = 96"
definition MQTT_MAX_TOPICS :: nat where "MQTT_MAX_TOPICS = 20"
definition MQTT_LISTEN_BUFFERS :: nat where "MQTT_LISTEN_BUFFERS = 2"
definition MQTT_OUTPUT_RINGBUF_SIZE :: nat where "MQTT_OUTPUT_RINGBUF_SIZE = 1024"
definition MSEC2MIN :: u64 where "MSEC2MIN = 60000"
definition ONLINE_MSG :: string where "ONLINE_MSG = ''online''"
definition OFFLINE_MSG :: string where "OFFLINE_MSG = ''offline''"

lemmas mqtt_sizes = MQTT_DISCOVERY_MAX_COUNT_def MQTT_DISCOVERY_BUFF_SIZE_def
  MQTT_MAX_TOPIC_SIZE_def MQTT_MAX_TOPICS_def MQTT_LISTEN_BUFFERS_def MQTT_OUTPUT_RINGBUF_SIZE_def

datatype mqtt_client_state =
  MQTT_CLIENT_INIT | MQTT_CLIENT_DISCONNECTED | MQTT_CLIENT_CONNECTING | MQTT_CLIENT_CONNECTED

datatype ip_resolve_state = IP_NOT_RESOLEVED | IP_RESOLVING | IP_RESOLVED

record mqtt_component =
  mc_module :: string
  mc_name :: string
  platform :: string
  dev_class :: "string option"
  unit :: "string option"
  value_template :: string
  payload_on :: "string option"
  payload_off :: "string option"
  mc_state_topic :: "string option"
  mc_id :: nat
  force :: bool
  mc_last_send :: u64

text \<open>A topic with its hooks, the last registered first; a hook is a function handle and its
  argument.\<close>

record 'h mqtt_topic =
  t_topic :: string
  subscribed :: bool
  json :: bool
  hooks :: "'h list"

record mqtt_listen_buff =
  tot_len :: nat
  in_progress :: bool
  ready :: bool
  b_topic :: "nat option"
  msg :: string

record 'h mqtt_listen =
  topics :: "'h mqtt_topic list"
  current :: "nat option"
  buffers :: "mqtt_listen_buff list"

record mqtt_discovery_context =
  disc_buff :: string
  disc_topic :: string
  send_idx :: nat

record mqtt_config_send_context =
  cfg_last_send :: u64
  discovery_send :: nat
  subscribe_send :: nat
  status_send :: nat
  discovery_dev :: bool
  discovery_comp :: bool
  subscribe_cnt :: nat
  status :: bool

record 'h mqtt_context =
  server_url :: string
  state_topic :: string
  status_topic :: string
  listen :: "'h mqtt_listen"
  components :: "mqtt_component list"
  discovery :: mqtt_discovery_context
  config :: mqtt_config_send_context
  server_port :: int
  max_payload_size :: nat
  max_ppm :: u32
  mq_state :: mqtt_client_state
  sever_ip_state :: ip_resolve_state
  mq_client :: bool
  client_id :: string
  client_user :: "string option"
  client_pass :: "string option"
  send_in_progress :: int
  send_start :: u64
  last_send :: u64
  filter_pkt_count :: u32
  filter_pkt_send :: u64
  connect_count :: u32
  mq_debug :: u32
  send_err_count :: u8
  wire :: "(string \<times> string) list"
  sub_wire :: "string list"

record lwip =
  lw_wifi :: bool
  lw_connected :: bool
  lw_publish :: "string \<Rightarrow> string \<Rightarrow> int"
  lw_subscribe :: "string \<Rightarrow> int"
  lw_dns :: int
  lw_client_new :: bool
  lw_connect :: int
  lw_clock :: "nat \<Rightarrow> u64"

text \<open>The clock readings that a callee sees after its caller's first \<open>k\<close>.\<close>

definition later :: "nat \<Rightarrow> lwip \<Rightarrow> lwip" where
  "later k e = e\<lparr>lw_clock := (\<lambda>i. lw_clock e (k + i))\<rparr>"

lemma later_sel [simp]:
  "lw_wifi (later k e) = lw_wifi e" "lw_connected (later k e) = lw_connected e"
  "lw_publish (later k e) = lw_publish e" "lw_subscribe (later k e) = lw_subscribe e"
  "lw_clock (later k e) i = lw_clock e (k + i)"
  by (simp_all add: later_def)

section \<open>Sending\<close>

definition mqtt_is_connected_ctx :: "lwip \<Rightarrow> 'h mqtt_context \<Rightarrow> bool" where
  "mqtt_is_connected_ctx e ctx \<longleftrightarrow> mq_client ctx \<and> lw_connected e"

text \<open>The lwIP callback at the end of a publish.\<close>

definition mqtt_publish_cb :: "int \<Rightarrow> 'h mqtt_context \<Rightarrow> 'h mqtt_context" where
  "mqtt_publish_cb result ctx =
     (let ctx = ctx\<lparr>send_in_progress := send_in_progress ctx - 1\<rparr>
      in if result \<noteq> 0 then ctx\<lparr>send_err_count := send_err_count ctx + 1\<rparr> else ctx)"

definition mqtt_msg_send ::
  "lwip \<Rightarrow> string \<Rightarrow> string \<Rightarrow> 'h mqtt_context \<Rightarrow> int \<times> 'h mqtt_context" where
  "mqtt_msg_send e topic message ctx =
     (if \<not> mqtt_is_connected_ctx e ctx then (-1, ctx)
      else if lw_publish e topic message = 0 then
        (0, ctx\<lparr>send_err_count := 0, send_in_progress := send_in_progress ctx + 1,
               send_start := lw_clock e 0, wire := wire ctx @ [(topic, message)]\<rparr>)
      else (-1, ctx\<lparr>send_err_count := send_err_count ctx + 1\<rparr>))"

definition mqtt_is_discovery_sent :: "'h mqtt_context option \<Rightarrow> bool" where
  "mqtt_is_discovery_sent c =
     (case c of None \<Rightarrow> False
      | Some ctx \<Rightarrow> mq_client ctx \<and> discovery_send (config ctx) \<ge> length (components ctx))"

definition mqtt_msg_publish ::
  "lwip \<Rightarrow> string option \<Rightarrow> string \<Rightarrow> bool \<Rightarrow> 'h mqtt_context \<Rightarrow> int \<times> 'h mqtt_context" where
  "mqtt_msg_publish e topic message frc ctx =
     (if mq_state ctx \<noteq> MQTT_CLIENT_CONNECTED then (-1, ctx)
      else
        (let topic_str = (case topic of Some t \<Rightarrow> t | None \<Rightarrow> state_topic ctx) in
         if length message > max_payload_size ctx then (-1, ctx)
         else
           (let now = lw_clock e 0;
                full = filter_pkt_count ctx \<ge> max_ppm ctx;
                reset_filter = (full \<and> now - filter_pkt_send ctx \<ge> MSEC2MIN)
            in if full \<and> \<not> reset_filter \<and> last_send ctx \<noteq> 0 then (-1, ctx)
               else
                 (let (ret, ctx) = mqtt_msg_send (later 1 e) topic_str message ctx;
                      ctx = (if ret = 0 then
                               (let ctx = ctx\<lparr>last_send := now\<rparr>
                                in if reset_filter
                                   then ctx\<lparr>filter_pkt_count := 0, filter_pkt_send := now\<rparr> else ctx)
                             else ctx)
                  in (ret, ctx\<lparr>filter_pkt_count := filter_pkt_count ctx + 1\<rparr>)))))"

definition mqtt_msg_component_publish ::
  "lwip \<Rightarrow> mqtt_component \<Rightarrow> string \<Rightarrow> 'h mqtt_context option
   \<Rightarrow> int \<times> mqtt_component \<times> 'h mqtt_context option" where
  "mqtt_msg_component_publish e cmp message c =
     (if \<not> mqtt_is_discovery_sent c then (-1, cmp, c)
      else
        (let (ret, ctx) = mqtt_msg_publish e (mc_state_topic cmp) message (force cmp) (the c)
         in (ret, if ret = 0 then cmp\<lparr>force := False, mc_last_send := lw_clock e 2\<rparr> else cmp, Some ctx)))"

definition mqtt_msg_component_register ::
  "mqtt_component \<Rightarrow> 'h mqtt_context option \<Rightarrow> int \<times> mqtt_component \<times> 'h mqtt_context option" where
  "mqtt_msg_component_register cmp c =
     (case c of None \<Rightarrow> (-1, cmp, None)
      | Some ctx \<Rightarrow>
        (let idx = length (components ctx) in
         if idx \<ge> MQTT_DISCOVERY_MAX_COUNT then (-1, cmp, Some ctx)
         else
           (let cmp = cmp\<lparr>force := True, mc_id := idx, mc_state_topic :=
                  (case mc_state_topic cmp of Some t \<Rightarrow> Some t
                   | None \<Rightarrow> Some (state_topic ctx @ ''/'' @ mc_module cmp @ ''/'' @ mc_name cmp @ ''/status''))\<rparr>
            in (int idx, cmp,
                Some (ctx\<lparr>components := components ctx @ [cmp],
                          config := (config ctx)\<lparr>cfg_last_send := 0\<rparr>\<rparr>)))))"

section \<open>Discovery messages\<close>

text \<open>
  A sequence of \<open>ADD_STR\<close>: each prints into the \<open>size\<close> bytes that are left and returns from
  the builder as soon as the tot went over.
\<close>

fun add_strs :: "string list \<Rightarrow> string \<Rightarrow> int \<Rightarrow> string \<times> int" where
  "add_strs [] buf sz = (buf, sz)"
| "add_strs (s # ss) buf sz =
     (let buf = buf @ take (nat sz - 1) s; sz = sz - int (length s)
      in if sz < 0 then (buf, sz) else add_strs ss buf sz)"

definition opt_str :: "string \<Rightarrow> string option \<Rightarrow> string list" where
  "opt_str key v = (case v of None \<Rightarrow> [] | Some s \<Rightarrow> [''\"'' @ key @ ''\": \"'' @ s @ ''\"''])"

definition opt_str' :: "string \<Rightarrow> string option \<Rightarrow> string list" where
  "opt_str' key v = map (\<lambda>s. '','' @ s) (opt_str key v)"

definition component_strs :: "string \<Rightarrow> string \<Rightarrow> mqtt_component \<Rightarrow> string list" where
  "component_strs cid st c =
     [''{\"device\":{'', ''\"identifiers\": [\"'' @ cid @ ''\"]'', '',\"name\": \"'' @ cid @ ''\"'', ''}''] @
     opt_str' ''device_class'' (dev_class c) @ opt_str' ''unit_of_measurement'' (unit c) @
     ['',\"value_template\": \"'' @ value_template c @ ''\"'',
      '',\"name\": \"'' @ mc_module c @ ''_'' @ mc_name c @ ''\"'',
      '',\"unique_id\": \"'' @ cid @ ''_'' @ mc_module c @ ''_'' @ mc_name c @ ''\"'',
      '',\"state_topic\": \"'' @ the (mc_state_topic c) @ ''\"'',
      '',\"json_attributes_topic\": \"'' @ st @ ''/'' @ mc_module c @ ''/'' @ mc_name c @ ''/status\"'',
      '',\"json_attributes_template\": \"{{ value_json | tojson }}\"''] @
     opt_str' ''payload_on'' (payload_on c) @ opt_str' ''payload_off'' (payload_off c) @ [''}'']"

definition mqtt_discovery_generate_component ::
  "mqtt_component \<Rightarrow> 'h mqtt_context \<Rightarrow> int \<times> 'h mqtt_context" where
  "mqtt_discovery_generate_component c ctx =
     (let topic = take (MQTT_MAX_TOPIC_SIZE - 1) (''homeassistant/'' @ platform c @ ''/'' @ state_topic ctx
            @ ''_'' @ mc_module c @ ''_'' @ mc_name c @ ''/config'');
          (buf, sz) = add_strs (component_strs (client_id ctx) (state_topic ctx) c) [] (int MQTT_DISCOVERY_BUFF_SIZE)
      in (sz, ctx\<lparr>discovery := (discovery ctx)\<lparr>disc_topic := topic, disc_buff := buf\<rparr>\<rparr>))"

text \<open>\<open>web\<close> is the address and port of the web server, when it runs.\<close>

definition device_strs :: "string \<Rightarrow> string \<Rightarrow> (string \<times> nat) option \<Rightarrow> string list" where
  "device_strs cid st web =
     [''{\"device\":{'', ''\"identifiers\": [\"'' @ cid @ ''\"]'', '',\"name\": \"'' @ cid @ ''\"'', ''}'',
      '',\"origin\":{'', ''\"name\": \"'' @ cid @ ''\"''] @
     (case web of None \<Rightarrow> [] | Some (ip, p) \<Rightarrow>
        ['',\"url\": \"http://'' @ ip @ '':'' @ nat_str p @ ''/help\"'']) @
     [''}'', '',\"components\":{'', ''\"'' @ cid @ ''-device\": {'',
      ''\"platform\": \"binary_sensor\"'', '',\"device_class\": \"connectivity\"'',
      '',\"name\": \"'' @ cid @ ''_device_link\"'', '',\"unique_id\": \"'' @ cid @ ''_device_link\"'',
      '',\"payload_on\": \"'' @ ONLINE_MSG @ ''\"'', '',\"payload_off\": \"'' @ OFFLINE_MSG @ ''\"'', ''}}'',
      '',\"state_topic\": \"'' @ st @ ''\"'', '',\"availability_topic\": \"'' @ st @ ''\"'',
      '',\"payload_available\": \"'' @ ONLINE_MSG @ ''\"'',
      '',\"payload_not_available\": \"'' @ OFFLINE_MSG @ ''\"'', ''}'']"

definition mqtt_discovery_generate_device ::
  "(string \<times> nat) option \<Rightarrow> 'h mqtt_context \<Rightarrow> int \<times> 'h mqtt_context" where
  "mqtt_discovery_generate_device web ctx =
     (let topic = take (MQTT_MAX_TOPIC_SIZE - 1) (''homeassistant/device/'' @ state_topic ctx @ ''/config'');
          (buf, sz) = add_strs (device_strs (client_id ctx) (status_topic ctx) web) [] (int MQTT_DISCOVERY_BUFF_SIZE)
      in (sz, ctx\<lparr>discovery := (discovery ctx)\<lparr>disc_topic := topic, disc_buff := buf\<rparr>\<rparr>))"

definition mqtt_msg_discovery_send_device ::
  "lwip \<Rightarrow> (string \<times> nat) option \<Rightarrow> 'h mqtt_context \<Rightarrow> int \<times> 'h mqtt_context" where
  "mqtt_msg_discovery_send_device e web ctx =
     (let (msize, ctx) = mqtt_discovery_generate_device web ctx
      in if msize > 0 then mqtt_msg_send e (disc_topic (discovery ctx)) (disc_buff (discovery ctx)) ctx
         else (-1, ctx))"

definition mqtt_msg_discovery_send :: "lwip \<Rightarrow> 'h mqtt_context \<Rightarrow> int \<times> 'h mqtt_context" where
  "mqtt_msg_discovery_send e ctx =
     (if send_idx (discovery ctx) \<ge> length (components ctx) then (-1, ctx)
      else
        (let (msize, ctx) = mqtt_discovery_generate_component (components ctx ! send_idx (discovery ctx)) ctx
         in if msize > 0 then mqtt_msg_send e (disc_topic (discovery ctx)) (disc_buff (discovery ctx)) ctx
            else (-1, ctx)))"

section \<open>Listening\<close>

definition empty_buff :: mqtt_listen_buff where
  "empty_buff = \<lparr>tot_len = 0, in_progress = False, ready = False, b_topic = None, msg = []\<rparr>"

definition index_of :: "('a \<Rightarrow> bool) \<Rightarrow> 'a list \<Rightarrow> nat" where
  "index_of P xs = length (takeWhile (\<lambda>x. \<not> P x) xs)"

text \<open>
  \<open>while (topics[i] && i < MQTT_MAX_TOPICS)\<close>: the array is read before its bound is tested.
  \<open>topics\<close> holds the non-NULL prefix of the array; the loop stops at the first topic that
  matches or at the first NULL.  None: with all 20 entries taken and no match it reads
  \<open>topics[20]\<close>.
\<close>

definition topic_scan :: "('h mqtt_topic \<Rightarrow> bool) \<Rightarrow> 'h mqtt_topic list \<Rightarrow> nat option" where
  "topic_scan P ts =
     (let i = index_of P ts in if i \<ge> length ts \<and> length ts \<ge> MQTT_MAX_TOPICS then None else Some i)"

definition mqtt_incoming_publish :: "string \<Rightarrow> nat \<Rightarrow> 'h mqtt_listen \<Rightarrow> 'h mqtt_listen option" where
  "mqtt_incoming_publish topic tot l =
     (let i = index_of (\<lambda>b. \<not> in_progress b) (buffers l) in
      if i \<ge> MQTT_LISTEN_BUFFERS \<or> tot \<ge> MQTT_OUTPUT_RINGBUF_SIZE then Some l
      else
        (case topic_scan (\<lambda>t. t_topic t = topic) (topics l) of
           None \<Rightarrow> None
         | Some j \<Rightarrow>
             if j \<ge> length (topics l) then Some l
             else Some (l\<lparr>buffers := (buffers l)[i := \<lparr>tot_len = tot, in_progress = True,
                            ready = False, b_topic = Some j, msg = []\<rparr>],
                          current := Some i\<rparr>)))"

definition mqtt_incoming_data :: "string \<Rightarrow> bool \<Rightarrow> 'h mqtt_listen \<Rightarrow> 'h mqtt_listen" where
  "mqtt_incoming_data data flag_last l =
     (case current l of None \<Rightarrow> l
      | Some i \<Rightarrow>
          if \<not> in_progress (buffers l ! i) then l
          else
            (let b = buffers l ! i;
                 b = (if length (msg b) + length data < MQTT_OUTPUT_RINGBUF_SIZE - 1
                      then b\<lparr>msg := msg b @ data\<rparr> else b);
                 b = (if flag_last then b\<lparr>ready := True\<rparr> else b)
             in l\<lparr>buffers := (buffers l)[i := b], current := (if flag_last then None else Some i)\<rparr>))"

text \<open>
  \<open>mqtt_incoming_ready\<close> hands the first complete message to the hooks of its topic, the last
  registered first: the deliveries (hook, topic, message, parsed JSON) are its second result.
  \<open>parse\<close> is lwjson, which the build fetches.
\<close>

definition mqtt_incoming_ready ::
  "(string \<Rightarrow> 'j option) \<Rightarrow> 'h mqtt_listen \<Rightarrow> bool \<times> ('h \<times> string \<times> string \<times> 'j option) list \<times> 'h mqtt_listen" where
  "mqtt_incoming_ready parse l =
     (let i = index_of ready (buffers l) in
      if i \<ge> length (buffers l) then (False, [], l)
      else
        (let b = buffers l ! i; t = topics l ! the (b_topic b);
             j = (if json t then parse (msg b) else None)
         in (True, map (\<lambda>h. (h, t_topic t, msg b, j)) (hooks t),
             l\<lparr>buffers := (buffers l)[i := empty_buff]\<rparr>)))"

text \<open>
  \<open>while (topics[i] && i <= MQTT_MAX_TOPICS)\<close> of the two subscribe loops: with all 20 entries
  taken the loop body runs on \<open>topics[20]\<close>, which is not a topic.
\<close>

definition mqtt_subscribe_all :: "'h mqtt_context \<Rightarrow> 'h mqtt_context option" where
  "mqtt_subscribe_all ctx =
     (if length (topics (listen ctx)) \<ge> MQTT_MAX_TOPICS then None
      else Some (ctx\<lparr>listen := (listen ctx)\<lparr>topics := map (\<lambda>t. t\<lparr>subscribed := False\<rparr>) (topics (listen ctx))\<rparr>,
                     config := (config ctx)\<lparr>subscribe_cnt := 0\<rparr>\<rparr>))"

definition mqtt_send_subscribe :: "lwip \<Rightarrow> 'h mqtt_context \<Rightarrow> (int \<times> 'h mqtt_context) option" where
  "mqtt_send_subscribe e ctx =
     (if mq_state ctx \<noteq> MQTT_CLIENT_CONNECTED then Some (-1, ctx)
      else
        (case topic_scan (\<lambda>t. \<not> subscribed t) (topics (listen ctx)) of
           None \<Rightarrow> None
         | Some i \<Rightarrow>
             if i \<ge> length (topics (listen ctx)) then Some (-1, ctx)
             else
               (let t = topics (listen ctx) ! i in
                if length (t_topic t) < 1 then Some (-1, ctx)
                else if lw_subscribe e (t_topic t) \<noteq> 0 then Some (lw_subscribe e (t_topic t), ctx)
                else Some (0, ctx\<lparr>listen := (listen ctx)\<lparr>topics := (topics (listen ctx))[i := t\<lparr>subscribed := True\<rparr>]\<rparr>,
                                 config := (config ctx)\<lparr>subscribe_cnt := subscribe_cnt (config ctx) + 1\<rparr>,
                                 sub_wire := sub_wire ctx @ [t_topic t]\<rparr>))))"

definition mqtt_topic_listen ::
  "(nat \<Rightarrow> bool) \<Rightarrow> string \<Rightarrow> 'h \<Rightarrow> bool \<Rightarrow> 'h mqtt_context option \<Rightarrow> (int \<times> 'h mqtt_context option) option" where
  "mqtt_topic_listen al topic h js c =
     (case c of None \<Rightarrow> Some (-1, None)
      | Some ctx \<Rightarrow>
        (let l = listen ctx in
         case topic_scan (\<lambda>t. t_topic t = topic) (topics l) of
           None \<Rightarrow> None
         | Some i \<Rightarrow>
             if i \<ge> length (topics l) \<and> \<not> al 0 then Some (-1, Some ctx)
             else
               (let ts = (if i < length (topics l) then topics l
                          else topics l @ [\<lparr>t_topic = take (MQTT_MAX_TOPIC_SIZE - 1) topic,
                                           subscribed = False, json = False, hooks = []\<rparr>])
                in if \<not> al 1 then Some (-1, Some (ctx\<lparr>listen := l\<lparr>topics := ts\<rparr>\<rparr>))
                   else Some (0, Some (ctx\<lparr>listen := l\<lparr>topics := ts[i :=
                     (ts ! i)\<lparr>hooks := h # hooks (ts ! i), json := (js \<or> json (ts ! i))\<rparr>]\<rparr>\<rparr>)))))"

section \<open>Messages that are sent are whole\<close>

lemma add_strs_whole:
  "add_strs ss buf n = (b, m) \<Longrightarrow> 0 < m \<Longrightarrow> b = buf @ concat ss \<and> int (length (concat ss)) + m = n"
proof (induction ss arbitrary: buf n)
  case (Cons s ss)
  have n: "0 \<le> n - int (length s)" using Cons.prems by (auto simp: Let_def split: if_splits)
  have rec: "add_strs ss (buf @ take (nat n - 1) s) (n - int (length s)) = (b, m)"
    using Cons.prems n by (auto simp: Let_def)
  from Cons.IH [OF this Cons.prems(2)] have h: "b = (buf @ take (nat n - 1) s) @ concat ss"
    "int (length (concat ss)) + m = n - int (length s)" by auto
  have "int (length s) < n" using h(2) Cons.prems(2) by linarith
  then have "take (nat n - 1) s = s" by simp
  with h show ?case by simp
qed simp

lemma mqtt_msg_send_wire:
  "mqtt_msg_send e t m ctx = (r, ctx') \<Longrightarrow>
   (r = 0 \<longrightarrow> wire ctx' = wire ctx @ [(t, m)]) \<and> (r \<noteq> 0 \<longrightarrow> r = -1 \<and> wire ctx' = wire ctx)"
  by (auto simp: mqtt_msg_send_def split: if_splits)

lemma mqtt_msg_send_keeps:
  "mqtt_msg_send e t m ctx = (r, ctx') \<Longrightarrow>
   filter_pkt_count ctx' = filter_pkt_count ctx \<and> filter_pkt_send ctx' = filter_pkt_send ctx \<and>
   max_ppm ctx' = max_ppm ctx \<and> last_send ctx' = last_send ctx \<and> mq_state ctx' = mq_state ctx \<and>
   listen ctx' = listen ctx \<and> config ctx' = config ctx \<and> components ctx' = components ctx \<and>
   discovery ctx' = discovery ctx \<and> mq_client ctx' = mq_client ctx \<and> state_topic ctx' = state_topic ctx \<and>
   status_topic ctx' = status_topic ctx \<and> client_id ctx' = client_id ctx \<and>
   sever_ip_state ctx' = sever_ip_state ctx \<and> max_payload_size ctx' = max_payload_size ctx"
  by (auto simp: mqtt_msg_send_def split: if_splits)

text \<open>A publish either leaves everything alone or is one send; then the filter is updated.\<close>

definition pub_refused :: "lwip \<Rightarrow> string \<Rightarrow> 'h mqtt_context \<Rightarrow> bool" where
  "pub_refused e m ctx \<longleftrightarrow> mq_state ctx \<noteq> MQTT_CLIENT_CONNECTED \<or> length m > max_payload_size ctx \<or>
     (filter_pkt_count ctx \<ge> max_ppm ctx \<and> \<not> lw_clock e 0 - filter_pkt_send ctx \<ge> MSEC2MIN \<and> last_send ctx \<noteq> 0)"

definition filter_after :: "lwip \<Rightarrow> int \<Rightarrow> 'h mqtt_context \<Rightarrow> 'h mqtt_context \<Rightarrow> 'h mqtt_context" where
  "filter_after e r ctx c1 =
     (if r = 0 \<and> filter_pkt_count ctx \<ge> max_ppm ctx \<and> lw_clock e 0 - filter_pkt_send ctx \<ge> MSEC2MIN
      then c1\<lparr>last_send := lw_clock e 0, filter_pkt_count := 1, filter_pkt_send := lw_clock e 0\<rparr>
      else if r = 0 then c1\<lparr>last_send := lw_clock e 0, filter_pkt_count := filter_pkt_count ctx + 1\<rparr>
      else c1\<lparr>filter_pkt_count := filter_pkt_count ctx + 1\<rparr>)"

lemma mqtt_msg_publish_cases:
  "mqtt_msg_publish e t m f ctx =
     (if pub_refused e m ctx then (-1, ctx)
      else (let (r, c1) = mqtt_msg_send (later 1 e) (case t of Some t \<Rightarrow> t | None \<Rightarrow> state_topic ctx) m ctx
            in (r, filter_after e r ctx c1)))"
proof (cases "pub_refused e m ctx")
  case True
  then show ?thesis unfolding mqtt_msg_publish_def pub_refused_def Let_def by auto
next
  case False
  obtain r c1 where s: "mqtt_msg_send (later 1 e) (case t of Some t \<Rightarrow> t | None \<Rightarrow> state_topic ctx) m ctx = (r, c1)"
    by fastforce
  note k = mqtt_msg_send_keeps [OF s]
  from False k show ?thesis
    unfolding mqtt_msg_publish_def pub_refused_def Let_def s filter_after_def prod.case by auto
qed

lemma mqtt_msg_publish_wire:
  assumes "mqtt_msg_publish e t m f ctx = (r, ctx')"
  shows "(r = 0 \<longrightarrow> wire ctx' = wire ctx @ [(case t of Some t \<Rightarrow> t | None \<Rightarrow> state_topic ctx, m)]) \<and>
    (r \<noteq> 0 \<longrightarrow> r = -1 \<and> wire ctx' = wire ctx)"
proof (cases "pub_refused e m ctx")
  case False
  obtain r1 c1 where s: "mqtt_msg_send (later 1 e) (case t of Some t \<Rightarrow> t | None \<Rightarrow> state_topic ctx) m ctx = (r1, c1)"
    by fastforce
  have "wire (filter_after e r1 ctx c1) = wire c1" by (simp add: filter_after_def)
  with False s assms mqtt_msg_send_wire [OF s] show ?thesis
    by (simp add: mqtt_msg_publish_cases) auto
qed (use assms in \<open>simp add: mqtt_msg_publish_cases\<close>)

text \<open>
  C37.  A discovery message goes out whole or not at all: when \<open>mqtt_msg_discovery_send\<close> returns
  0 the one message that reached lwIP is the complete JSON object of the current component (the
  concatenation of all its pieces, shorter than the 640 byte buffer), on its config topic cut
  to 95 characters; when it returns anything else nothing was sent.
\<close>

lemma discovery_send_whole:
  assumes "mqtt_msg_discovery_send e ctx = (r, ctx')"
  shows "(r = 0 \<longrightarrow> send_idx (discovery ctx) < length (components ctx) \<and>
      (let c = components ctx ! send_idx (discovery ctx);
           m = concat (component_strs (client_id ctx) (state_topic ctx) c)
       in length m < MQTT_DISCOVERY_BUFF_SIZE \<and>
          wire ctx' = wire ctx @ [(take 95 (''homeassistant/'' @ platform c @ ''/'' @ state_topic ctx
            @ ''_'' @ mc_module c @ ''_'' @ mc_name c @ ''/config''), m)])) \<and>
    (r \<noteq> 0 \<longrightarrow> wire ctx' = wire ctx)"
proof (cases "send_idx (discovery ctx) < length (components ctx)")
  case True
  define c where "c = components ctx ! send_idx (discovery ctx)"
  obtain b m where a: "add_strs (component_strs (client_id ctx) (state_topic ctx) c) []
      (int MQTT_DISCOVERY_BUFF_SIZE) = (b, m)" by fastforce
  show ?thesis
  proof (cases "0 < m")
    case pos: True
    note w = add_strs_whole [OF a pos, simplified]
    have "length (concat (component_strs (client_id ctx) (state_topic ctx) c)) < MQTT_DISCOVERY_BUFF_SIZE"
      using w pos by linarith
    then show ?thesis
      using assms True pos w a
      by (auto simp: mqtt_msg_discovery_send_def mqtt_discovery_generate_component_def Let_def
          c_def [symmetric] MQTT_MAX_TOPIC_SIZE_def dest!: mqtt_msg_send_wire)
  next
    case False
    then show ?thesis
      using assms True a
      by (auto simp: mqtt_msg_discovery_send_def mqtt_discovery_generate_component_def Let_def
          c_def [symmetric])
  qed
next
  case False
  then show ?thesis using assms by (auto simp: mqtt_msg_discovery_send_def)
qed

text \<open>
  A component value is published only after the discovery of all components was sent on
  this connection, and its \<open>force\<close> mark is cleared exactly when the message was accepted: a
  failed publish leaves the component as it is, to be retried.
\<close>

lemma component_publish_force:
  assumes "mqtt_msg_component_publish e c m s = (r, c', s')"
  shows "(r = 0 \<longrightarrow> mqtt_is_discovery_sent s \<and> force c' = False \<and> mc_last_send c' = lw_clock e 2 \<and>
        (\<exists>t. wire (the s') = wire (the s) @ [(t, m)] \<and>
             t = (case mc_state_topic c of Some t \<Rightarrow> t | None \<Rightarrow> state_topic (the s)))) \<and>
    (r \<noteq> 0 \<longrightarrow> c' = c \<and> (s \<noteq> None \<longrightarrow> wire (the s') = wire (the s)))"
proof (cases "mqtt_is_discovery_sent s")
  case True
  obtain r1 ctx1 where p: "mqtt_msg_publish e (mc_state_topic c) m (force c) (the s) = (r1, ctx1)"
    by fastforce
  note w = mqtt_msg_publish_wire [OF p]
  from assms True p have "r = r1" "s' = Some ctx1"
    "c' = (if r1 = 0 then c\<lparr>force := False, mc_last_send := lw_clock e 2\<rparr> else c)"
    by (auto simp: mqtt_msg_component_publish_def)
  with w True show ?thesis by auto
next
  case False
  then show ?thesis using assms by (auto simp: mqtt_msg_component_publish_def)
qed

section \<open>Incoming messages\<close>

lemma index_of_less: "index_of P xs < length xs \<Longrightarrow> P (xs ! index_of P xs)"
  unfolding index_of_def using nth_length_takeWhile by fastforce

lemma index_of_before: "j < index_of P xs \<Longrightarrow> \<not> P (xs ! j)"
  unfolding index_of_def
  by (metis (mono_tags, lifting) nth_mem set_takeWhileD takeWhile_nth)

lemma index_of_le: "index_of P xs \<le> length xs"
  unfolding index_of_def by (rule length_takeWhile_le)

lemma index_of_all: "\<forall>x\<in>set xs. \<not> P x \<Longrightarrow> index_of P xs = length xs"
  unfolding index_of_def by (simp add: takeWhile_eq_all_conv [THEN iffD2])

text \<open>What holds of the buffers between calls.\<close>

definition buff_ok :: "nat \<Rightarrow> mqtt_listen_buff \<Rightarrow> bool" where
  "buff_ok nt b \<longleftrightarrow> length (msg b) < MQTT_OUTPUT_RINGBUF_SIZE - 1 \<and>
     (in_progress b \<longrightarrow> (case b_topic b of None \<Rightarrow> False | Some j \<Rightarrow> j < nt)) \<and> (ready b \<longrightarrow> in_progress b)"

definition listen_ok :: "'h mqtt_listen \<Rightarrow> bool" where
  "listen_ok l \<longleftrightarrow> length (buffers l) = MQTT_LISTEN_BUFFERS \<and> length (topics l) \<le> MQTT_MAX_TOPICS \<and>
     (\<forall>b\<in>set (buffers l). buff_ok (length (topics l)) b) \<and>
     (case current l of None \<Rightarrow> True
      | Some i \<Rightarrow> i < MQTT_LISTEN_BUFFERS \<and> in_progress (buffers l ! i) \<and> \<not> ready (buffers l ! i))"

lemma set_update_ball: "\<forall>x\<in>set xs. P x \<Longrightarrow> P v \<Longrightarrow> \<forall>x\<in>set (xs[i := v]). P x"
  by (auto dest!: subsetD [OF set_update_subset_insert])

lemma mqtt_incoming_data_ok:
  assumes "listen_ok l" shows "listen_ok (mqtt_incoming_data d lst l)"
proof (cases "current l")
  case None
  with assms show ?thesis by (simp add: mqtt_incoming_data_def)
next
  case (Some i)
  then have i: "i < length (buffers l)" "in_progress (buffers l ! i)" "\<not> ready (buffers l ! i)"
    using assms by (auto simp: listen_ok_def)
  have ok: "\<forall>b\<in>set (buffers l). buff_ok (length (topics l)) b" using assms by (simp add: listen_ok_def)
  have b: "buff_ok (length (topics l)) (buffers l ! i)" using ok i(1) by simp
  then have "buff_ok (length (topics l)) (if length (msg (buffers l ! i)) + length d < MQTT_OUTPUT_RINGBUF_SIZE - 1
      then (buffers l ! i)\<lparr>msg := msg (buffers l ! i) @ d\<rparr> else buffers l ! i)" (is "buff_ok _ ?b")
    by (auto simp: buff_ok_def)
  then have b2: "buff_ok (length (topics l)) (if lst then ?b\<lparr>ready := True\<rparr> else ?b)"
    using i by (auto simp: buff_ok_def)
  have eq: "mqtt_incoming_data d lst l = l\<lparr>buffers := (buffers l)[i := (if lst then ?b\<lparr>ready := True\<rparr> else ?b)],
      current := (if lst then None else Some i)\<rparr>"
    using Some i by (simp add: mqtt_incoming_data_def Let_def)
  show ?thesis
    unfolding eq listen_ok_def
    using assms i set_update_ball [OF ok b2] by (auto simp: listen_ok_def)
qed

lemma mqtt_incoming_publish_ok:
  assumes "listen_ok l" and "mqtt_incoming_publish t n l = Some l'" shows "listen_ok l'"
proof -
  let ?i = "index_of (\<lambda>b. \<not> in_progress b) (buffers l)"
  have ok: "\<forall>b\<in>set (buffers l). buff_ok (length (topics l)) b" using assms(1) by (simp add: listen_ok_def)
  have "l' = l \<or> (\<exists>j<length (topics l). ?i < MQTT_LISTEN_BUFFERS \<and>
      l' = l\<lparr>buffers := (buffers l)[?i := \<lparr>tot_len = n, in_progress = True, ready = False,
        b_topic = Some j, msg = []\<rparr>], current := Some ?i\<rparr>)"
    using assms(2) unfolding mqtt_incoming_publish_def Let_def
    by (simp add: not_le split: if_splits option.splits) blast+
  then show ?thesis
  proof (elim disjE exE conjE)
    fix j
    assume j: "j < length (topics l)" and i: "?i < MQTT_LISTEN_BUFFERS"
      and l': "l' = l\<lparr>buffers := (buffers l)[?i := \<lparr>tot_len = n, in_progress = True, ready = False,
        b_topic = Some j, msg = []\<rparr>], current := Some ?i\<rparr>"
    have "buff_ok (length (topics l)) \<lparr>tot_len = n, in_progress = True, ready = False,
        b_topic = Some j, msg = []\<rparr>"
      using j by (simp add: buff_ok_def mqtt_sizes)
    from set_update_ball [OF ok this] show ?thesis
      using assms(1) i by (simp add: l' listen_ok_def)
  qed (use assms(1) in simp)
qed

lemma mqtt_incoming_ready_ok:
  assumes "listen_ok l" and "mqtt_incoming_ready p l = (r, ds, l')" shows "listen_ok l'"
proof -
  let ?i = "index_of ready (buffers l)"
  have ok: "\<forall>b\<in>set (buffers l). buff_ok (length (topics l)) b" using assms(1) by (simp add: listen_ok_def)
  have e: "buff_ok (length (topics l)) empty_buff" by (simp add: buff_ok_def empty_buff_def mqtt_sizes)
  have "l' = l \<or> (?i < length (buffers l) \<and> l' = l\<lparr>buffers := (buffers l)[?i := empty_buff]\<rparr>)"
    using assms(2) unfolding mqtt_incoming_ready_def Let_def by (auto split: if_splits)
  moreover have "current l \<noteq> Some ?i" if "?i < length (buffers l)"
    using index_of_less [OF that] assms(1) by (auto simp: listen_ok_def split: option.splits)
  ultimately show ?thesis
    using assms(1) set_update_ball [OF ok e] by (auto simp: listen_ok_def split: option.splits)
qed

lemma mqtt_topic_listen_ok:
  assumes "listen_ok (listen ctx)" and "mqtt_topic_listen al t h js (Some ctx) = Some (r, Some ctx')"
  shows "listen_ok (listen ctx')"
proof -
  have mono: "buff_ok m b" if "buff_ok n b" "n \<le> m" for n m b
    using that by (auto simp: buff_ok_def split: option.splits)
  have lt: "length (topics (listen ctx)) < MQTT_MAX_TOPICS"
    if "topic_scan P (topics (listen ctx)) = Some i" "length (topics (listen ctx)) \<le> i" for P i
    using that by (auto simp: topic_scan_def Let_def split: if_splits)
  have "buffers (listen ctx') = buffers (listen ctx) \<and> current (listen ctx') = current (listen ctx) \<and>
      length (topics (listen ctx)) \<le> length (topics (listen ctx')) \<and>
      length (topics (listen ctx')) \<le> MQTT_MAX_TOPICS"
    using assms lt unfolding mqtt_topic_listen_def Let_def option.case
    by (auto simp: listen_ok_def Suc_le_eq split: if_splits option.splits)
  then show ?thesis
    using assms(1) by (auto simp: listen_ok_def intro: mono split: option.splits)
qed

text \<open>
  The receive path keeps its invariant: the announcement of a message, every chunk of data,
  the delivery and the registration of a topic keep two buffers, the current one among them, at
  most 20 topics, every buffered message inside its 1024 byte array with room for the final
  NUL, and every buffer in use bound to a registered topic.
\<close>

lemma listen_invariant:
  assumes "listen_ok (listen ctx)"
  shows "listen_ok (mqtt_incoming_data d lst (listen ctx)) \<and>
    (\<forall>l'. mqtt_incoming_publish t n (listen ctx) = Some l' \<longrightarrow> listen_ok l') \<and>
    listen_ok (snd (snd (mqtt_incoming_ready p (listen ctx)))) \<and>
    (\<forall>r ctx'. mqtt_topic_listen al t h js (Some ctx) = Some (r, Some ctx') \<longrightarrow> listen_ok (listen ctx'))"
  using assms mqtt_incoming_data_ok mqtt_incoming_publish_ok mqtt_topic_listen_ok
    mqtt_incoming_ready_ok [OF assms, of p] by (metis prod.collapse)

text \<open>The chunks of one message, as lwIP hands them over: the last one carries the flag.\<close>

fun feed :: "string list \<Rightarrow> 'h mqtt_listen \<Rightarrow> 'h mqtt_listen" where
  "feed [] l = l"
| "feed [c] l = mqtt_incoming_data c True l"
| "feed (c # cs) l = feed cs (mqtt_incoming_data c False l)"

lemma feed_whole:
  "current l = Some i \<Longrightarrow> i < length (buffers l) \<Longrightarrow> in_progress (buffers l ! i) \<Longrightarrow> cs \<noteq> [] \<Longrightarrow>
   length (msg (buffers l ! i)) + length (concat cs) < MQTT_OUTPUT_RINGBUF_SIZE - 1 \<Longrightarrow>
   feed cs l = l\<lparr>buffers := (buffers l)[i := (buffers l ! i)\<lparr>msg := msg (buffers l ! i) @ concat cs, ready := True\<rparr>],
     current := None\<rparr>"
proof (induction cs l rule: feed.induct)
  case (2 c l)
  then show ?case by (simp add: mqtt_incoming_data_def Let_def)
next
  case (3 c d cs l)
  define l2 where "l2 = l\<lparr>buffers := (buffers l)[i := (buffers l ! i)\<lparr>msg := msg (buffers l ! i) @ c\<rparr>]\<rparr>"
  have s: "mqtt_incoming_data c False l = l2"
    using 3 by (simp add: mqtt_incoming_data_def Let_def l2_def)
  have "feed (d # cs) l2 = l2\<lparr>buffers := (buffers l2)[i := (buffers l2 ! i)
      \<lparr>msg := msg (buffers l2 ! i) @ concat (d # cs), ready := True\<rparr>], current := None\<rparr>"
    by (rule "3.IH" [unfolded s]) (use 3 in \<open>simp_all add: l2_def\<close>)
  then show ?case using 3 by (simp add: s l2_def)
qed simp

lemma message_delivered:
  assumes idle: "buffers l = [empty_buff, empty_buff]" and j: "j < length (topics l)"
    and t: "t_topic (topics l ! j) = t" and first: "\<forall>k<j. t_topic (topics l ! k) \<noteq> t"
    and cs: "cs \<noteq> []" "length (concat cs) \<le> 1022"
  shows "\<exists>l1 l2. mqtt_incoming_publish t (length (concat cs)) l = Some l1 \<and>
    mqtt_incoming_ready p (feed cs l1) =
      (True, map (\<lambda>h. (h, t, concat cs, if json (topics l ! j) then p (concat cs) else None)) (hooks (topics l ! j)), l2) \<and>
    buffers l2 = [empty_buff, empty_buff] \<and> current l2 = None \<and> topics l2 = topics l"
proof -
  have ix: "index_of (\<lambda>b. \<not> in_progress b) (buffers l) = 0"
    by (simp add: idle index_of_def empty_buff_def)
  have "index_of (\<lambda>x. t_topic x = t) (topics l) = j"
  proof (rule antisym)
    show "j \<le> index_of (\<lambda>x. t_topic x = t) (topics l)"
    proof (rule ccontr)
      assume "\<not> ?thesis"
      then have k: "index_of (\<lambda>x. t_topic x = t) (topics l) < j" by simp
      with j have "t_topic (topics l ! index_of (\<lambda>x. t_topic x = t) (topics l)) = t"
        using index_of_less [of "\<lambda>x. t_topic x = t" "topics l"] by simp
      with first k show False by blast
    qed
    show "index_of (\<lambda>x. t_topic x = t) (topics l) \<le> j"
      using index_of_before [of j "\<lambda>x. t_topic x = t" "topics l"] t by (meson not_le_imp_less)
  qed
  then have sc: "topic_scan (\<lambda>x. t_topic x = t) (topics l) = Some j"
    using j by (simp add: topic_scan_def)
  define l1 where "l1 = l\<lparr>buffers := [\<lparr>tot_len = length (concat cs), in_progress = True, ready = False,
      b_topic = Some j, msg = []\<rparr>, empty_buff], current := Some 0\<rparr>"
  have p1: "mqtt_incoming_publish t (length (concat cs)) l = Some l1"
    using cs j unfolding mqtt_incoming_publish_def Let_def ix sc option.case
    by (simp add: l1_def idle mqtt_sizes)
  have f: "feed cs l1 = l1\<lparr>buffers := [\<lparr>tot_len = length (concat cs), in_progress = True, ready = True,
      b_topic = Some j, msg = concat cs\<rparr>, empty_buff], current := None\<rparr>"
    using feed_whole [of l1 0 cs] cs by (simp add: l1_def mqtt_sizes)
  show ?thesis
    by (rule exI [of _ l1], rule exI [of _ "l\<lparr>buffers := [empty_buff, empty_buff], current := None\<rparr>"])
      (use p1 t in \<open>simp add: f, simp add: mqtt_incoming_ready_def Let_def index_of_def l1_def\<close>)
qed

text \<open>
  C13.  A message is delivered as it was sent: with both buffers idle, a message of at most 1022
  bytes on a registered topic, announced and received in any chunks, is handed whole to every
  hook of its topic and to no other, the last registered hook first, and the buffers are idle
  again.
\<close>

lemma message_delivered_whole:
  assumes idle: "buffers l = [empty_buff, empty_buff]" and j: "j < length (topics l)"
    and t: "t_topic (topics l ! j) = t" and first: "\<forall>k<j. t_topic (topics l ! k) \<noteq> t"
    and cs: "cs \<noteq> []" "length (concat cs) \<le> 1022"
  shows "\<exists>l1 l2. mqtt_incoming_publish t (length (concat cs)) l = Some l1 \<and>
    mqtt_incoming_ready p (feed cs l1) =
      (True, map (\<lambda>h. (h, t, concat cs, if json (topics l ! j) then p (concat cs) else None)) (hooks (topics l ! j)), l2) \<and>
    buffers l2 = [empty_buff, empty_buff] \<and> current l2 = None \<and> topics l2 = topics l"
  by (rule message_delivered [OF assms])

section \<open>Witnesses\<close>

text \<open>A connection that accepts everything at time \<open>t\<close>, and a service with one component and one topic.\<close>

definition demo_lwip :: "u64 \<Rightarrow> lwip" where
  "demo_lwip t = \<lparr>lw_wifi = True, lw_connected = True, lw_publish = (\<lambda>_ _. 0), lw_subscribe = (\<lambda>_. 0),
     lw_dns = 0, lw_client_new = True, lw_connect = 0, lw_clock = (\<lambda>_. t)\<rparr>"

definition demo_component :: mqtt_component where
  "demo_component = \<lparr>mc_module = ''ssr'', mc_name = ''R0'', platform = ''sensor'', dev_class = None, unit = None,
     value_template = ''v'', payload_on = None, payload_off = None, mc_state_topic = Some ''t/s'', mc_id = 0,
     force = True, mc_last_send = 0\<rparr>"

definition demo_topic :: "string \<Rightarrow> nat mqtt_topic" where
  "demo_topic t = \<lparr>t_topic = t, subscribed = False, json = False, hooks = [7]\<rparr>"

definition demo_listen :: "nat mqtt_listen" where
  "demo_listen = \<lparr>topics = [demo_topic ''t/command''], current = None, buffers = [empty_buff, empty_buff]\<rparr>"

definition demo_mqtt :: "nat mqtt_context" where
  "demo_mqtt = \<lparr>server_url = ''srv'', state_topic = ''t'', status_topic = ''t/status'', listen = demo_listen,
     components = [demo_component], discovery = \<lparr>disc_buff = [], disc_topic = [], send_idx = 0\<rparr>,
     config = \<lparr>cfg_last_send = 0, discovery_send = 0, subscribe_send = 0, status_send = 0, discovery_dev = False,
       discovery_comp = False, subscribe_cnt = 0, status = False\<rparr>,
     server_port = 1883, max_payload_size = 928, max_ppm = 2, mq_state = MQTT_CLIENT_CONNECTED,
     sever_ip_state = IP_RESOLVED, mq_client = True, client_id = ''p'', client_user = None, client_pass = None,
     send_in_progress = 0, send_start = 0, last_send = 0, filter_pkt_count = 0, filter_pkt_send = 0,
     connect_count = 0, mq_debug = 0, send_err_count = 0, wire = [], sub_wire = []\<rparr>"

lemma discovery_send_whole_witness:
  "\<exists>ctx'. mqtt_msg_discovery_send (demo_lwip 1) demo_mqtt = (0, ctx') \<and> length (wire ctx') = 1 \<and>
     fst (wire ctx' ! 0) = ''homeassistant/sensor/t_ssr_R0/config''"
proof -
  obtain r ctx' where s: "mqtt_msg_discovery_send (demo_lwip 1) demo_mqtt = (r, ctx')" by fastforce
  have "fst (mqtt_msg_discovery_send (demo_lwip 1) demo_mqtt) = 0" by code_simp
  with s have "r = 0" by simp
  with discovery_send_whole [OF s] s show ?thesis by (simp add: Let_def demo_mqtt_def demo_component_def)
qed

lemma component_publish_force_witness:
  "\<exists>c' s'. mqtt_msg_component_publish (demo_lwip 9) demo_component ''x''
      (Some (demo_mqtt\<lparr>config := (config demo_mqtt)\<lparr>discovery_send := 1\<rparr>\<rparr>)) = (0, c', s') \<and>
    \<not> force c' \<and> wire (the s') = [(''t/s'', ''x'')]"
proof -
  let ?s = "Some (demo_mqtt\<lparr>config := (config demo_mqtt)\<lparr>discovery_send := 1\<rparr>\<rparr>)"
  obtain r c' s' where p: "mqtt_msg_component_publish (demo_lwip 9) demo_component ''x'' ?s = (r, c', s')"
    by (rule prod_cases3)
  have "fst (mqtt_msg_component_publish (demo_lwip 9) demo_component ''x'' ?s) = 0" by code_simp
  with p have "r = 0" by simp
  with component_publish_force [OF p] p show ?thesis by (simp add: demo_mqtt_def demo_component_def)
qed

lemma demo_listen_ok: "listen_ok (listen demo_mqtt)"
  by (simp add: listen_ok_def buff_ok_def demo_mqtt_def demo_listen_def empty_buff_def mqtt_sizes)

lemma listen_invariant_witness:
  "\<exists>l'. mqtt_incoming_publish ''t/command'' 5 demo_listen = Some l' \<and> listen_ok l' \<and> current l' = Some 0"
proof -
  have "mqtt_incoming_publish ''t/command'' 5 (listen demo_mqtt) = Some (demo_listen\<lparr>buffers :=
      [\<lparr>tot_len = 5, in_progress = True, ready = False, b_topic = Some 0, msg = []\<rparr>, empty_buff], current := Some 0\<rparr>)"
    by (simp add: mqtt_incoming_publish_def demo_mqtt_def demo_listen_def demo_topic_def empty_buff_def index_of_def
        topic_scan_def mqtt_sizes Let_def)
  with listen_invariant [OF demo_listen_ok, where t = "''t/command''" and n = 5 and p = "\<lambda>_. None :: nat option"]
  show ?thesis by (auto simp: demo_mqtt_def)
qed

lemma message_delivered_whole_witness:
  "\<exists>l1 l2. mqtt_incoming_publish ''t/command'' 5 demo_listen = Some l1 \<and>
     mqtt_incoming_ready (\<lambda>_. None :: nat option) (feed [''he'', ''llo''] l1) =
       (True, [(7, ''t/command'', ''hello'', None)], l2) \<and> topics l2 = topics demo_listen"
proof -
  have "buffers demo_listen = [empty_buff, empty_buff]" "0 < length (topics demo_listen)"
    "t_topic (topics demo_listen ! 0) = ''t/command''" "\<forall>k<0. t_topic (topics demo_listen ! k) \<noteq> ''t/command''"
    "[''he'', ''llo''] \<noteq> []" "length (concat [''he'', ''llo'']) \<le> 1022"
    by (simp_all add: demo_listen_def demo_topic_def)
  from message_delivered_whole [OF this, of "\<lambda>_. None :: nat option"] show ?thesis
    by (auto simp: demo_listen_def demo_topic_def eval_nat_numeral)
qed

end
