(* ===== verification/MqttClient.thy ===== *)
theory MqttClient
  imports Mqtt Commands
begin

text \<open>
  The MQTT client of \<open>libs/common/services/mqtt/mqtt_client.c\<close>: configuration, the connection
  state machine (DNS resolution, connection, timeouts, reconnection), the lwIP connection
  callback, the periodic sending of status, discovery and subscriptions, and the whole service
  as a machine of operations that run in any order.
\<close>

section \<open>Configuration\<close>

definition MQTT_KEEPALIVE_S :: nat where "MQTT_KEEPALIVE_S = 100"
definition IP_TIMEOUT_MS :: u64 where "IP_TIMEOUT_MS = 20000"
definition CONFIG_INTERVAL_MSEC :: u64 where "CONFIG_INTERVAL_MSEC = 3600000"
definition DEF_SERVER_PORT :: int where "DEF_SERVER_PORT = 1883"
definition DF_MAX_PPM :: u32 where "DF_MAX_PPM = 12"
definition MAX_CONN_ERR :: u8 where "MAX_CONN_ERR = 10"
definition CONN_ERR_TIME_MSEC :: u64 where "CONN_ERR_TIME_MSEC = 120000"

definition empty_listen :: "'h mqtt_listen" where
  "empty_listen = \<lparr>topics = [], current = None, buffers = [empty_buff, empty_buff]\<rparr>"

definition zero_config :: mqtt_config_send_context where
  "zero_config = \<lparr>cfg_last_send = 0, discovery_send = 0, subscribe_send = 0, status_send = 0,
     discovery_dev = False, discovery_comp = False, subscribe_cnt = 0, status = False\<rparr>"

text \<open>
  \<open>mqtt_get_config\<close>: \<open>par\<close> is \<open>USER_PRAM_GET\<close>.  Inl False is the error return, Inl True the
  \<open>strdup(NULL)\<close> of an end point without a host name.
\<close>

definition mqtt_get_config ::
  "(string \<Rightarrow> string option) \<Rightarrow> nat \<Rightarrow> bool \<Rightarrow> bool + 'h mqtt_context" where
  "mqtt_get_config par rate_len alloc =
     (case (par ''MQTT_TOPIC'', par ''MQTT_SERVER_ENDPOINT'', par ''MQTT_USER'') of
        (Some topc, Some endp, Some usr) \<Rightarrow>
          if \<not> alloc then Inl False
          else
            (case strtok_r (CHR '':'') (Some endp) of
               (None, _) \<Rightarrow> Inl True
             | (Some url, rest) \<Rightarrow>
                 (let (tok, pass) = strtok_r (CHR '';'') (Some usr) in
                  Inr \<lparr>server_url = url, state_topic = topc, status_topic = [], listen = empty_listen,
                       components = [], discovery = \<lparr>disc_buff = [], disc_topic = [], send_idx = 0\<rparr>,
                       config = zero_config,
                       server_port = (case rest of Some r \<Rightarrow> atoi r | None \<Rightarrow> DEF_SERVER_PORT),
                       max_payload_size = 0,
                       max_ppm = (if rate_len > 1
                          then word_of_int (strtol_val 10 (the (par ''MQTT_RATE_PPM''))) else DF_MAX_PPM),
                       mq_state = MQTT_CLIENT_INIT, sever_ip_state = IP_NOT_RESOLEVED, mq_client = False,
                       client_id = [], client_user = tok, client_pass = pass, send_in_progress = 0,
                       send_start = 0, last_send = 0, filter_pkt_count = 0, filter_pkt_send = 0,
                       connect_count = 0, mq_debug = 0, send_err_count = 0, wire = [], sub_wire = []\<rparr>))
      | _ \<Rightarrow> Inl False)"

definition sys_mqtt_init ::
  "(string \<Rightarrow> string option) \<Rightarrow> nat \<Rightarrow> bool \<Rightarrow> (nat \<Rightarrow> bool) \<Rightarrow> string \<Rightarrow> 'h \<Rightarrow> bool + 'h mqtt_context" where
  "sys_mqtt_init par rate_len alloc al hostname chook =
     (case mqtt_get_config par rate_len alloc of
        Inl e \<Rightarrow> Inl e
      | Inr ctx \<Rightarrow>
          (let ctx = ctx\<lparr>mq_state := MQTT_CLIENT_INIT,
                 status_topic := take (MQTT_MAX_TOPIC_SIZE - 1) (state_topic ctx @ ''/status''),
                 client_id := hostname, send_in_progress := 0,
                 max_payload_size := MQTT_OUTPUT_RINGBUF_SIZE - MQTT_MAX_TOPIC_SIZE\<rparr>;
               cmd_topic = take (MQTT_MAX_TOPIC_SIZE - 1) (state_topic ctx @ ''/command'')
           in (case mqtt_topic_listen al cmd_topic chook False (Some ctx) of
                 Some (_, Some ctx) \<Rightarrow> Inr ctx
               | _ \<Rightarrow> Inl True)))"

definition sys_mqtt_debug_set :: "u32 \<Rightarrow> 'h mqtt_context \<Rightarrow> 'h mqtt_context" where
  "sys_mqtt_debug_set lvl ctx = ctx\<lparr>mq_debug := lvl\<rparr>"

text \<open>The command topic: a message of two bytes or more is a request to the commands engine.\<close>

definition mqtt_command_cb ::
  "('u, 'w) cmd_context option \<Rightarrow> nat \<Rightarrow> string \<Rightarrow> 'w \<Rightarrow> 'w option" where
  "mqtt_command_cb cmds cc data w =
     (if length data \<ge> 2
      then map_option snd (cmd_exec cmds \<lparr>rc_type = CMD_CTX_MQTT, rc_context = cc\<rparr>
             (Some (takeWhile (\<lambda>c. c \<noteq> CHR 0x00) data)) w)
      else Some w)"

section \<open>Status, discovery and subscriptions\<close>

text \<open>The first part of \<open>mqtt_config_send\<close>: at the start of a connection and every hour.\<close>

definition config_mark :: "u64 \<Rightarrow> 'h mqtt_context \<Rightarrow> 'h mqtt_context option" where
  "config_mark now ctx =
     (if cfg_last_send (config ctx) = 0 \<or> now - cfg_last_send (config ctx) > CONFIG_INTERVAL_MSEC then
        (let c = (config ctx)\<lparr>discovery_dev := True\<rparr>;
             c = (if length (components ctx) > 0 then c\<lparr>discovery_comp := True\<rparr> else c);
             d = (if length (components ctx) > 0 then (discovery ctx)\<lparr>send_idx := 0\<rparr> else discovery ctx);
             c = (if status_topic ctx \<noteq> [] then c\<lparr>status := True\<rparr> else c);
             ctx = ctx\<lparr>config := c, discovery := d\<rparr>
         in if topics (listen ctx) \<noteq> [] then mqtt_subscribe_all ctx else Some ctx)
      else Some ctx)"

text \<open>The rest: one message per call, in the order status, device, components, topics; the
  flag is \<open>sent > 0\<close>.\<close>

definition config_one ::
  "lwip \<Rightarrow> (string \<times> nat) option \<Rightarrow> 'h mqtt_context \<Rightarrow> (bool \<times> 'h mqtt_context) option" where
  "config_one e web ctx =
     (if status (config ctx) then
        (let (ret, ctx) = mqtt_msg_send (later 1 e) (status_topic ctx) ONLINE_MSG ctx
         in Some (if ret = 0
            then (True, ctx\<lparr>config := (config ctx)\<lparr>status_send := status_send (config ctx) + 1, status := False\<rparr>\<rparr>)
            else (False, ctx)))
      else if discovery_dev (config ctx) then
        (let (ret, ctx) = mqtt_msg_discovery_send_device (later 1 e) web ctx
         in Some (False, if ret = 0 then ctx\<lparr>config := (config ctx)\<lparr>discovery_dev := False\<rparr>\<rparr> else ctx))
      else if discovery_comp (config ctx) then
        (let (ret, ctx) = mqtt_msg_discovery_send (later 1 e) ctx;
             ctx = (if ret = 0
               then ctx\<lparr>config := (config ctx)\<lparr>discovery_send := discovery_send (config ctx) + 1\<rparr>,
                        discovery := (discovery ctx)\<lparr>send_idx := send_idx (discovery ctx) + 1\<rparr>\<rparr>
               else ctx);
             ctx' = (if send_idx (discovery ctx) \<ge> length (components ctx)
               then ctx\<lparr>config := (config ctx)\<lparr>discovery_comp := False\<rparr>,
                        discovery := (discovery ctx)\<lparr>send_idx := 0\<rparr>\<rparr>
               else ctx)
         in Some (ret = 0, ctx'))
      else if topics (listen ctx) \<noteq> [] \<and> subscribe_cnt (config ctx) < length (topics (listen ctx)) then
        (case mqtt_send_subscribe e ctx of None \<Rightarrow> None
         | Some (ret, ctx) \<Rightarrow> Some (if ret = 0
             then (True, ctx\<lparr>config := (config ctx)\<lparr>subscribe_send := subscribe_send (config ctx) + 1\<rparr>\<rparr>)
             else (False, ctx)))
      else Some (False, ctx))"

definition mqtt_config_send ::
  "lwip \<Rightarrow> (string \<times> nat) option \<Rightarrow> 'h mqtt_context \<Rightarrow> 'h mqtt_context option" where
  "mqtt_config_send e web ctx =
     (if \<not> mqtt_is_connected_ctx e ctx then Some ctx
      else
        (let now = lw_clock e 0 in
         case config_mark now ctx of None \<Rightarrow> None
         | Some ctx \<Rightarrow>
             (case config_one e web ctx of None \<Rightarrow> None
              | Some (sent, ctx) \<Rightarrow>
                  Some (if sent then ctx\<lparr>config := (config ctx)\<lparr>cfg_last_send := now\<rparr>\<rparr> else ctx))))"

section \<open>The connection\<close>

datatype connection_status =
  MQTT_CONNECT_ACCEPTED | MQTT_CONNECT_REFUSED nat | MQTT_CONNECT_DISCONNECTED
| MQTT_CONNECT_TIMEOUT | MQTT_CONNECT_OTHER int

definition mqtt_hook :: "connection_status \<Rightarrow> 'h mqtt_context \<Rightarrow> 'h mqtt_context" where
  "mqtt_hook st ctx =
     (let ctx = ctx\<lparr>send_in_progress := 0\<rparr> in
      case st of
        MQTT_CONNECT_ACCEPTED \<Rightarrow>
          (let ctx = (if mq_state ctx \<noteq> MQTT_CLIENT_CONNECTED
                      then ctx\<lparr>connect_count := connect_count ctx + 1\<rparr> else ctx)
           in ctx\<lparr>mq_state := MQTT_CLIENT_CONNECTED,
                  config := (config ctx)\<lparr>discovery_send := 0, cfg_last_send := 0\<rparr>, send_err_count := 0\<rparr>)
      | MQTT_CONNECT_DISCONNECTED \<Rightarrow> ctx\<lparr>mq_state := MQTT_CLIENT_DISCONNECTED, send_err_count := 0\<rparr>
      | MQTT_CONNECT_TIMEOUT \<Rightarrow> ctx\<lparr>mq_state := MQTT_CLIENT_DISCONNECTED, send_err_count := 0\<rparr>
      | MQTT_CONNECT_REFUSED _ \<Rightarrow> ctx\<lparr>mq_state := MQTT_CLIENT_DISCONNECTED, send_err_count := 0\<rparr>
      | MQTT_CONNECT_OTHER _ \<Rightarrow> ctx)"

definition mqtt_server_found :: "'h mqtt_context \<Rightarrow> 'h mqtt_context" where
  "mqtt_server_found ctx = ctx\<lparr>sever_ip_state := IP_RESOLVED\<rparr>"

definition sys_mqtt_reconnect :: "'h mqtt_context \<Rightarrow> 'h mqtt_context" where
  "sys_mqtt_reconnect ctx =
     (let ctx = ctx\<lparr>send_err_count := 0, send_start := 0\<rparr>
      in if mq_state ctx = MQTT_CLIENT_INIT then ctx
         else ctx\<lparr>mq_state := MQTT_CLIENT_DISCONNECTED, sever_ip_state := IP_NOT_RESOLEVED\<rparr>)"

definition ERR_INPROGRESS :: int where "ERR_INPROGRESS = -5"

text \<open>The last part of \<open>mqtt_connect\<close>, once the server address is known.\<close>

definition mqtt_do_connect :: "lwip \<Rightarrow> 'h mqtt_context \<Rightarrow> 'h mqtt_context" where
  "mqtt_do_connect e ctx =
     (let ctx = (if mq_client ctx then ctx else ctx\<lparr>mq_client := lw_client_new e\<rparr>)
      in if \<not> mq_client ctx then ctx
         else if lw_connect e = 0
              then ctx\<lparr>mq_state := MQTT_CLIENT_CONNECTING, last_send := lw_clock e 1\<rparr>
              else ctx\<lparr>mq_state := MQTT_CLIENT_DISCONNECTED\<rparr>)"

definition mqtt_resolve :: "lwip \<Rightarrow> u64 \<Rightarrow> 'h mqtt_context \<Rightarrow> 'h mqtt_context" where
  "mqtt_resolve e now ctx =
     (case sever_ip_state ctx of
        IP_NOT_RESOLEVED \<Rightarrow>
          if lw_dns e = ERR_INPROGRESS
          then ctx\<lparr>last_send := lw_clock e 1, sever_ip_state := IP_RESOLVING\<rparr>
          else if lw_dns e = 0 then mqtt_do_connect e (ctx\<lparr>sever_ip_state := IP_RESOLVED\<rparr>)
          else ctx
      | IP_RESOLVED \<Rightarrow> mqtt_do_connect e ctx
      | IP_RESOLVING \<Rightarrow>
          if now - last_send ctx > IP_TIMEOUT_MS then ctx\<lparr>sever_ip_state := IP_NOT_RESOLEVED\<rparr> else ctx)"

definition mqtt_connect :: "lwip \<Rightarrow> 'h mqtt_context \<Rightarrow> bool \<times> 'h mqtt_context" where
  "mqtt_connect e ctx =
     (if \<not> lw_wifi e then
        (False, if mqtt_is_connected_ctx e ctx then sys_mqtt_reconnect ctx else ctx)
      else
        (let now = lw_clock e 0 in
         if mqtt_is_connected_ctx e ctx then
           (if send_err_count ctx \<ge> MAX_CONN_ERR \<and> now - send_start ctx \<ge> CONN_ERR_TIME_MSEC
            then (False, sys_mqtt_reconnect ctx) else (True, ctx))
         else if mq_state ctx = MQTT_CLIENT_CONNECTING \<and> now - last_send ctx < IP_TIMEOUT_MS then (False, ctx)
         else
           (let ctx = (if mq_state ctx = MQTT_CLIENT_CONNECTING
                       then ctx\<lparr>mq_state := MQTT_CLIENT_DISCONNECTED, sever_ip_state := IP_NOT_RESOLEVED\<rparr>
                       else ctx)
            in (False, mqtt_resolve e now ctx))))"

text \<open>\<open>sys_mqtt_run\<close>, with the deliveries of a received message.\<close>

definition sys_mqtt_run ::
  "(string \<Rightarrow> 'j option) \<Rightarrow> lwip \<Rightarrow> (string \<times> nat) option \<Rightarrow> 'h mqtt_context
   \<Rightarrow> (('h \<times> string \<times> string \<times> 'j option) list \<times> 'h mqtt_context) option" where
  "sys_mqtt_run parse e web ctx =
     (let (go, ctx) = mqtt_connect e ctx in
      if \<not> go then Some ([], ctx)
      else
        (let (got, ds, l) = mqtt_incoming_ready parse (listen ctx) in
         if got then Some (ds, ctx\<lparr>listen := l\<rparr>)
         else map_option (\<lambda>ctx. ([], ctx)) (mqtt_config_send e web ctx)))"

section \<open>Status report\<close>

text \<open>
  \<open>sys_mqtt_log_status\<close> prints the components in steps and keeps its place in a static
  variable: the indices it prints, the new place, and whether the report is complete.
\<close>

definition LOG_STEP :: nat where "LOG_STEP = 20"

definition sys_mqtt_log_status :: "bool \<Rightarrow> nat \<Rightarrow> nat \<Rightarrow> bool \<times> nat list \<times> nat" where
  "sys_mqtt_log_status connected cmp_count log_idx =
     (if \<not> connected then (True, [], log_idx)
      else if log_idx + LOG_STEP < cmp_count
           then (False, [log_idx ..< log_idx + LOG_STEP + 1], log_idx + LOG_STEP)
           else (True, [log_idx ..< cmp_count], 0))"

section \<open>The service as a machine\<close>

datatype 'h mqtt_op =
  Op_run | Op_reconnect | Op_debug u32 | Op_hook connection_status | Op_publish_cb int | Op_server_found
| Op_incoming string nat | Op_data string bool | Op_publish "string option" string
| Op_register mqtt_component | Op_listen "nat \<Rightarrow> bool" string 'h bool

definition mqtt_do ::
  "(string \<Rightarrow> 'j option) \<Rightarrow> (string \<times> nat) option \<Rightarrow> lwip \<Rightarrow> 'h mqtt_op \<Rightarrow> 'h mqtt_context
   \<Rightarrow> (int \<times> 'h mqtt_context) option" where
  "mqtt_do parse web e opr ctx =
     (case opr of
        Op_run \<Rightarrow> map_option (\<lambda>(_, c). (0, c)) (sys_mqtt_run parse e web ctx)
      | Op_reconnect \<Rightarrow> Some (0, sys_mqtt_reconnect ctx)
      | Op_debug l \<Rightarrow> Some (0, sys_mqtt_debug_set l ctx)
      | Op_hook st \<Rightarrow> Some (0, mqtt_hook st ctx)
      | Op_publish_cb r \<Rightarrow> Some (0, mqtt_publish_cb r ctx)
      | Op_server_found \<Rightarrow> Some (0, mqtt_server_found ctx)
      | Op_incoming t n \<Rightarrow> map_option (\<lambda>l. (0, ctx\<lparr>listen := l\<rparr>)) (mqtt_incoming_publish t n (listen ctx))
      | Op_data d f \<Rightarrow> Some (0, ctx\<lparr>listen := mqtt_incoming_data d f (listen ctx)\<rparr>)
      | Op_publish t m \<Rightarrow> Some (mqtt_msg_publish e t m False ctx)
      | Op_register c \<Rightarrow> (case mqtt_msg_component_register c (Some ctx) of (r, _, c') \<Rightarrow> Some (r, the c'))
      | Op_listen al t h j \<Rightarrow> map_option (\<lambda>(r, c'). (r, the c')) (mqtt_topic_listen al t h j (Some ctx)))"

fun is_publish :: "'h mqtt_op \<Rightarrow> bool" where
  "is_publish (Op_publish _ _) = True"
| "is_publish _ = False"

text \<open>A run: the times of the application messages that lwIP accepted, and the final state.\<close>

fun mqtt_exec ::
  "(string \<Rightarrow> 'j option) \<Rightarrow> (string \<times> nat) option \<Rightarrow> (lwip \<times> 'h mqtt_op) list \<Rightarrow> 'h mqtt_context
   \<Rightarrow> (u64 list \<times> 'h mqtt_context) option" where
  "mqtt_exec parse web [] ctx = Some ([], ctx)"
| "mqtt_exec parse web ((e, opr) # ops) ctx =
     (case mqtt_do parse web e opr ctx of None \<Rightarrow> None
      | Some (r, ctx') \<Rightarrow>
          (case mqtt_exec parse web ops ctx' of None \<Rightarrow> None
           | Some (ts, c) \<Rightarrow> Some ((if is_publish opr \<and> r = 0 then [lw_clock e 0] else []) @ ts, c)))"

section \<open>The rate limit\<close>

text \<open>The state of the limiter; only publishing changes it, and \<open>last_send\<close> is only set to a
  reading of the clock.\<close>

definition limiter :: "'h mqtt_context \<Rightarrow> u32 \<times> u64 \<times> u32" where
  "limiter ctx = (filter_pkt_count ctx, filter_pkt_send ctx, max_ppm ctx)"

definition lim_same :: "lwip \<Rightarrow> 'h mqtt_context \<Rightarrow> 'h mqtt_context \<Rightarrow> bool" where
  "lim_same e ctx ctx' \<longleftrightarrow> limiter ctx' = limiter ctx \<and>
     (last_send ctx' = last_send ctx \<or> last_send ctx' = lw_clock e 1)"

named_theorems lim \<open>operations that leave the rate limiter alone\<close>

lemma lim_same_refl [lim, simp]: "lim_same e ctx ctx"
  by (simp add: lim_same_def)

lemma lim_same_trans: "lim_same e a b \<Longrightarrow> lim_same e b c \<Longrightarrow> lim_same e a c"
  by (auto simp: lim_same_def)

lemma lim_msg_send: "mqtt_msg_send e' t m ctx = (r, ctx') \<Longrightarrow> lim_same e ctx ctx'"
  by (auto simp: lim_same_def limiter_def dest: mqtt_msg_send_keeps)

lemma lim_disc: "lim_same e (ctx\<lparr>discovery := d\<rparr>) ctx' = lim_same e ctx ctx'"
  "lim_same e (ctx\<lparr>config := g\<rparr>) ctx' = lim_same e ctx ctx'"
  "lim_same e ctx (ctx'\<lparr>discovery := d\<rparr>) = lim_same e ctx ctx'"
  "lim_same e ctx (ctx'\<lparr>config := g\<rparr>) = lim_same e ctx ctx'"
  "lim_same e ctx (ctx'\<lparr>listen := l\<rparr>) = lim_same e ctx ctx'"
  by (simp_all add: lim_same_def limiter_def)

lemma lim_discovery_device:
  "mqtt_msg_discovery_send_device e' web ctx = (r, ctx') \<Longrightarrow> lim_same e ctx ctx'"
  unfolding mqtt_msg_discovery_send_device_def mqtt_discovery_generate_device_def
  by (auto simp: Let_def lim_disc split: prod.splits if_splits dest!: lim_msg_send [of _ _ _ _ _ _ e])

lemma lim_discovery:
  "mqtt_msg_discovery_send e' ctx = (r, ctx') \<Longrightarrow> lim_same e ctx ctx'"
  unfolding mqtt_msg_discovery_send_def mqtt_discovery_generate_component_def
  by (auto simp: Let_def lim_disc split: prod.splits if_splits dest!: lim_msg_send [of _ _ _ _ _ _ e])

lemma lim_subscribe_all: "mqtt_subscribe_all ctx = Some ctx' \<Longrightarrow> lim_same e ctx ctx'"
  by (auto simp: mqtt_subscribe_all_def lim_same_def limiter_def split: if_splits)

lemma lim_subscribe: "mqtt_send_subscribe e' ctx = Some (r, ctx') \<Longrightarrow> lim_same e ctx ctx'"
  by (auto simp: mqtt_send_subscribe_def Let_def lim_same_def limiter_def split: if_splits option.splits)

lemma lim_config_mark: "config_mark now ctx = Some ctx' \<Longrightarrow> lim_same e ctx ctx'"
  unfolding config_mark_def Let_def
  by (auto simp: lim_disc split: if_splits dest!: lim_subscribe_all [of _ _ e])

lemma lim_config_one: "config_one e' web ctx = Some (b, ctx') \<Longrightarrow> lim_same e ctx ctx'"
proof -
  assume a: "config_one e' web ctx = Some (b, ctx')"
  obtain r1 c1 where 1: "mqtt_msg_send (later 1 e') (status_topic ctx) ONLINE_MSG ctx = (r1, c1)" by fastforce
  obtain r2 c2 where 2: "mqtt_msg_discovery_send_device (later 1 e') web ctx = (r2, c2)" by fastforce
  obtain r3 c3 where 3: "mqtt_msg_discovery_send (later 1 e') ctx = (r3, c3)" by fastforce
  note l = lim_msg_send [OF 1, of e] lim_discovery_device [OF 2, of e] lim_discovery [OF 3, of e]
  show ?thesis
    using a l unfolding config_one_def 1 2 3 Let_def prod.case
    by (auto simp: lim_disc split: if_splits option.splits dest!: lim_subscribe [of _ _ _ _ e])
qed

lemma lim_config_send: "mqtt_config_send e' web ctx = Some ctx' \<Longrightarrow> lim_same e ctx ctx'"
proof -
  assume a: "mqtt_config_send e' web ctx = Some ctx'"
  show ?thesis
  proof (cases "mqtt_is_connected_ctx e' ctx")
    case True
    then obtain c1 b c2 where "config_mark (lw_clock e' 0) ctx = Some c1" "config_one e' web c1 = Some (b, c2)"
      "ctx' = (if b then c2\<lparr>config := (config c2)\<lparr>cfg_last_send := lw_clock e' 0\<rparr>\<rparr> else c2)"
      using a by (auto simp: mqtt_config_send_def Let_def split: option.splits)
    with lim_config_mark [of _ ctx c1 e] lim_config_one [of e' web c1 b c2 e] show ?thesis
      by (auto simp: lim_disc intro: lim_same_trans)
  qed (use a in \<open>simp add: mqtt_config_send_def\<close>)
qed

lemma lim_do_connect: "lim_same e ctx (mqtt_do_connect e ctx)"
  by (auto simp: mqtt_do_connect_def Let_def lim_same_def limiter_def)

lemma lim_reconnect: "lim_same e ctx (sys_mqtt_reconnect ctx)"
  by (auto simp: sys_mqtt_reconnect_def Let_def lim_same_def limiter_def)

lemma lim_fields: "lim_same e (ctx\<lparr>sever_ip_state := i\<rparr>) ctx' = lim_same e ctx ctx'"
  "lim_same e (ctx\<lparr>mq_state := st\<rparr>) ctx' = lim_same e ctx ctx'"
  by (simp_all add: lim_same_def limiter_def)

lemma lim_resolve: "lim_same e ctx (mqtt_resolve e now ctx)"
  using lim_do_connect [of e "ctx\<lparr>sever_ip_state := IP_RESOLVED\<rparr>"] lim_do_connect [of e ctx]
  unfolding mqtt_resolve_def lim_fields
  by (auto simp: lim_same_def limiter_def split: ip_resolve_state.split)

lemma lim_connect: "mqtt_connect e ctx = (b, ctx') \<Longrightarrow> lim_same e ctx ctx'"
  using lim_reconnect [of e ctx] lim_resolve [of e ctx "lw_clock e 0"]
    lim_resolve [of e "ctx\<lparr>mq_state := MQTT_CLIENT_DISCONNECTED, sever_ip_state := IP_NOT_RESOLEVED\<rparr>" "lw_clock e 0"]
  unfolding mqtt_connect_def Let_def lim_fields
  by (auto split: if_splits)

lemma lim_run: "sys_mqtt_run p e web ctx = Some (ds, ctx') \<Longrightarrow> lim_same e ctx ctx'"
proof -
  assume a: "sys_mqtt_run p e web ctx = Some (ds, ctx')"
  obtain g c1 where c1: "mqtt_connect e ctx = (g, c1)" by fastforce
  obtain got d l where i: "mqtt_incoming_ready p (listen c1) = (got, d, l)" by (cases "mqtt_incoming_ready p (listen c1)")
  note l = lim_connect [OF c1] lim_config_send [of e web c1 ctx' e]
  show ?thesis
    using a l unfolding sys_mqtt_run_def c1 i Let_def prod.case
    by (auto simp: lim_disc split: if_splits intro: lim_same_trans)
qed

lemma lim_do:
  assumes "mqtt_do p web e opr ctx = Some (r, ctx')" and "\<not> is_publish opr"
  shows "lim_same e ctx ctx'"
proof (cases opr)
  case Op_run
  with assms show ?thesis by (auto simp: mqtt_do_def intro: lim_run)
next
  case Op_reconnect
  with assms lim_reconnect show ?thesis by (auto simp: mqtt_do_def)
next
  case (Op_hook st)
  with assms show ?thesis
    by (auto simp: mqtt_do_def mqtt_hook_def Let_def lim_same_def limiter_def split: connection_status.split)
next
  case (Op_publish_cb x)
  with assms show ?thesis by (auto simp: mqtt_do_def mqtt_publish_cb_def Let_def lim_same_def limiter_def)
next
  case (Op_incoming t n)
  with assms show ?thesis by (auto simp: mqtt_do_def lim_disc)
next
  case (Op_register c)
  with assms show ?thesis
    by (auto simp: mqtt_do_def mqtt_msg_component_register_def Let_def lim_same_def limiter_def split: if_splits)
next
  case (Op_listen al t h j)
  with assms show ?thesis
    by (auto simp: mqtt_do_def mqtt_topic_listen_def Let_def lim_same_def limiter_def
        split: if_splits option.splits)
qed (use assms in \<open>auto simp: mqtt_do_def sys_mqtt_debug_set_def mqtt_server_found_def lim_same_def limiter_def\<close>)

text \<open>How many messages the limiter still lets through before it waits for the minute to end.\<close>

definition budget :: "'h mqtt_context \<Rightarrow> nat" where
  "budget ctx = (let left = unat (max_ppm ctx) - unat (filter_pkt_count ctx)
     in if last_send ctx = 0 then max left 1 else left)"

definition clock_ok :: "lwip \<Rightarrow> bool" where
  "clock_ok e \<longleftrightarrow> lw_clock e 0 \<noteq> 0 \<and> lw_clock e 1 \<noteq> 0"

lemma unat_Suc_count: "unat c + 1 < 4294967296 \<Longrightarrow> unat (c + 1) = unat c + 1" for c :: u32
  by (simp add: unat_word_ariths(1))

lemma lim_same_budget:
  "lim_same e ctx ctx' \<Longrightarrow> clock_ok e \<Longrightarrow> max_ppm ctx' = max_ppm ctx \<and> filter_pkt_send ctx' = filter_pkt_send ctx \<and>
     filter_pkt_count ctx' = filter_pkt_count ctx \<and> budget ctx' \<le> budget ctx"
  by (auto simp: lim_same_def limiter_def budget_def clock_ok_def Let_def)

lemma filter_after_step:
  fixes r :: int
  assumes "\<not> pub_refused e m ctx" and c1: "limiter c1 = limiter ctx" "last_send c1 = last_send ctx"
    and "clock_ok e" and lt: "unat (filter_pkt_count ctx) + 1 < 4294967296"
  defines "ctx' \<equiv> filter_after e r ctx c1"
  shows "max_ppm ctx' = max_ppm ctx \<and> unat (filter_pkt_count ctx') \<le> unat (filter_pkt_count ctx) + 1 \<and>
    (if r \<noteq> 0 then filter_pkt_send ctx' = filter_pkt_send ctx \<and> budget ctx' \<le> budget ctx
     else (filter_pkt_send ctx' = filter_pkt_send ctx \<and> budget ctx' + 1 \<le> budget ctx) \<or>
          (lw_clock e 0 - filter_pkt_send ctx \<ge> MSEC2MIN \<and> filter_pkt_send ctx' = lw_clock e 0 \<and>
           budget ctx' \<le> unat (max_ppm ctx) - 1))"
proof -
  note u = unat_Suc_count [OF lt]
  have f: "filter_pkt_count ctx \<ge> max_ppm ctx \<longleftrightarrow> unat (max_ppm ctx) \<le> unat (filter_pkt_count ctx)"
    by (simp add: word_le_nat_alt)
  show ?thesis
    using assms(1,2,3,4) u unfolding ctx'_def filter_after_def pub_refused_def f
    by (auto simp: limiter_def budget_def clock_ok_def Let_def)
qed

lemma do_step:
  assumes d: "mqtt_do p web e opr ctx = Some (r, ctx')" and ck: "clock_ok e"
    and lt: "unat (filter_pkt_count ctx) + 1 < 4294967296"
  shows "max_ppm ctx' = max_ppm ctx \<and> unat (filter_pkt_count ctx') \<le> unat (filter_pkt_count ctx) + 1 \<and>
    (if \<not> (is_publish opr \<and> r = 0) then filter_pkt_send ctx' = filter_pkt_send ctx \<and> budget ctx' \<le> budget ctx
     else (filter_pkt_send ctx' = filter_pkt_send ctx \<and> budget ctx' + 1 \<le> budget ctx) \<or>
          (lw_clock e 0 - filter_pkt_send ctx \<ge> MSEC2MIN \<and> filter_pkt_send ctx' = lw_clock e 0 \<and>
           budget ctx' \<le> unat (max_ppm ctx) - 1))"
proof (cases "is_publish opr")
  case False
  with lim_same_budget [OF lim_do [OF d False] ck] show ?thesis by simp
next
  case True
  then obtain t m where opr: "opr = Op_publish t m" by (cases opr) auto
  have d': "mqtt_msg_publish e t m False ctx = (r, ctx')" using d by (simp add: mqtt_do_def opr)
  show ?thesis
  proof (cases "pub_refused e m ctx")
    case True
    then show ?thesis using d' by (auto simp: mqtt_msg_publish_cases)
  next
    case ref: False
    obtain r1 c1 where s: "mqtt_msg_send (later 1 e) (case t of Some t \<Rightarrow> t | None \<Rightarrow> state_topic ctx) m ctx = (r1, c1)"
      by fastforce
    have "ctx' = filter_after e r ctx c1" "r1 = r" using d' ref s by (auto simp: mqtt_msg_publish_cases)
    moreover have "limiter c1 = limiter ctx" "last_send c1 = last_send ctx"
      using mqtt_msg_send_keeps [OF s] by (auto simp: limiter_def)
    ultimately show ?thesis
      using filter_after_step [OF ref _ _ ck lt, of c1 r] opr by (cases "r = 0") simp_all
  qed
qed

text \<open>Runs whose clock does not run backwards from \<open>t\<close>, with the readings past zero.\<close>

fun clocks_from :: "nat \<Rightarrow> (lwip \<times> 'h mqtt_op) list \<Rightarrow> bool" where
  "clocks_from t [] = True"
| "clocks_from t ((e, opr) # ops) =
     (t \<le> unat (lw_clock e 0) \<and> clock_ok e \<and> clocks_from (unat (lw_clock e 0)) ops)"

definition sent_within :: "nat \<Rightarrow> nat \<Rightarrow> u64 list \<Rightarrow> nat" where
  "sent_within a b ts = length (filter (\<lambda>x. a \<le> unat x \<and> unat x < b) ts)"

lemma sent_within_append: "sent_within a b (xs @ ys) = sent_within a b xs + sent_within a b ys"
  by (simp add: sent_within_def)

lemma sent_within_one: "sent_within a b (if c then [x] else []) = (if c \<and> a \<le> unat x \<and> unat x < b then 1 else 0)"
  unfolding sent_within_def by (cases c) auto

lemma sent_within_mono: "b \<le> b' \<Longrightarrow> sent_within a b ts \<le> sent_within 0 b' ts"
  unfolding sent_within_def by (induction ts) auto

lemma sent_within_none: "\<forall>x\<in>set ts. b \<le> unat x \<Longrightarrow> sent_within a b ts = 0"
  unfolding sent_within_def by (induction ts) auto

lemma exec_Cons:
  assumes "mqtt_exec p web ((e, opr) # ops) ctx = Some (ts, c)"
  obtains r ctx' ts' where "mqtt_do p web e opr ctx = Some (r, ctx')" "mqtt_exec p web ops ctx' = Some (ts', c)"
    "ts = (if is_publish opr \<and> r = 0 then [lw_clock e 0] else []) @ ts'"
  using assms that by (simp split: option.splits prod.splits)

lemma exec_times: "mqtt_exec p web ops ctx = Some (ts, c) \<Longrightarrow> clocks_from t ops \<Longrightarrow> \<forall>x\<in>set ts. t \<le> unat x"
proof (induction ops arbitrary: ctx ts t)
  case (Cons o' ops)
  obtain e opr where o': "o' = (e, opr)" by fastforce
  from Cons.prems(1) obtain r ctx' ts' where "mqtt_do p web e opr ctx = Some (r, ctx')"
    and 1: "mqtt_exec p web ops ctx' = Some (ts', c)"
    and ts: "ts = (if is_publish opr \<and> r = 0 then [lw_clock e 0] else []) @ ts'"
    unfolding o' by (rule exec_Cons)
  have ck: "t \<le> unat (lw_clock e 0)" "clocks_from (unat (lw_clock e 0)) ops" using Cons.prems(2) by (auto simp: o')
  have "\<forall>x\<in>set ts'. unat (lw_clock e 0) \<le> unat x" by (rule Cons.IH [OF 1 ck(2)])
  then show ?case using ck(1) by (auto simp: ts)
qed simp

lemma reset_late:
  "unat b \<le> unat a \<Longrightarrow> a - b \<ge> MSEC2MIN \<longleftrightarrow> unat b + 60000 \<le> unat a" for a b :: u64
  by (auto simp: MSEC2MIN_def word_le_nat_alt unat_diff_le)

text \<open>Until the minute is over the limiter lets at most its budget through.\<close>

lemma exec_budget:
  "mqtt_exec p web ops ctx = Some (ts, c) \<Longrightarrow> clocks_from t ops \<Longrightarrow> unat (filter_pkt_send ctx) \<le> t \<Longrightarrow>
   unat (filter_pkt_count ctx) + length ops < 4294967296 \<Longrightarrow>
   sent_within a (unat (filter_pkt_send ctx) + 60000) ts \<le> budget ctx"
proof (induction ops arbitrary: ctx ts t)
  case Nil
  then show ?case by (simp add: sent_within_def)
next
  case (Cons o' ops)
  obtain e opr where o': "o' = (e, opr)" by fastforce
  from Cons.prems(1) obtain r ctx' ts' where d: "mqtt_do p web e opr ctx = Some (r, ctx')"
    and 1: "mqtt_exec p web ops ctx' = Some (ts', c)"
    and ts: "ts = (if is_publish opr \<and> r = 0 then [lw_clock e 0] else []) @ ts'"
    unfolding o' by (rule exec_Cons)
  have ck: "t \<le> unat (lw_clock e 0)" "clock_ok e" "clocks_from (unat (lw_clock e 0)) ops"
    using Cons.prems(2) by (auto simp: o')
  have lt: "unat (filter_pkt_count ctx) + 1 < 4294967296" using Cons.prems(4) by (simp add: o')
  note st = do_step [OF d ck(2) lt]
  have len: "unat (filter_pkt_count ctx') + length ops < 4294967296" using st Cons.prems(4) by simp
  show ?case
  proof (cases "filter_pkt_send ctx' = filter_pkt_send ctx")
    case True
    have "sent_within a (unat (filter_pkt_send ctx) + 60000) ts' \<le> budget ctx'"
      using Cons.IH [OF 1 ck(3) _ len] True ck(1) Cons.prems(3) by simp
    then show ?thesis
      using st True ck(1) Cons.prems(3) reset_late [of "filter_pkt_send ctx" "lw_clock e 0"]
      unfolding ts sent_within_append sent_within_one by (auto split: if_splits)
  next
    case False
    then have late: "unat (filter_pkt_send ctx) + 60000 \<le> unat (lw_clock e 0)"
      using st ck(1) Cons.prems(3) reset_late [of "filter_pkt_send ctx" "lw_clock e 0"]
      by (auto split: if_splits)
    have "\<forall>x\<in>set ts. unat (filter_pkt_send ctx) + 60000 \<le> unat x"
      using late exec_times [OF 1 ck(3)] by (auto simp: ts)
    from sent_within_none [OF this] show ?thesis by simp
  qed
qed

text \<open>From a moment on, in any minute: the rest of the budget and one fresh allowance.\<close>

lemma exec_minute:
  "mqtt_exec p web ops ctx = Some (ts, c) \<Longrightarrow> clocks_from t ops \<Longrightarrow> unat (filter_pkt_send ctx) \<le> t \<Longrightarrow> a \<le> t \<Longrightarrow>
   unat (filter_pkt_count ctx) + length ops < 4294967296 \<Longrightarrow>
   sent_within 0 (a + 60000) ts \<le> budget ctx + max 1 (unat (max_ppm ctx))"
proof (induction ops arbitrary: ctx ts t)
  case Nil
  then show ?case by (simp add: sent_within_def)
next
  case (Cons o' ops)
  obtain e opr where o': "o' = (e, opr)" by fastforce
  from Cons.prems(1) obtain r ctx' ts' where d: "mqtt_do p web e opr ctx = Some (r, ctx')"
    and 1: "mqtt_exec p web ops ctx' = Some (ts', c)"
    and ts: "ts = (if is_publish opr \<and> r = 0 then [lw_clock e 0] else []) @ ts'"
    unfolding o' by (rule exec_Cons)
  have ck: "t \<le> unat (lw_clock e 0)" "clock_ok e" "clocks_from (unat (lw_clock e 0)) ops"
    using Cons.prems(2) by (auto simp: o')
  have lt: "unat (filter_pkt_count ctx) + 1 < 4294967296" using Cons.prems(5) by (simp add: o')
  note st = do_step [OF d ck(2) lt]
  have len: "unat (filter_pkt_count ctx') + length ops < 4294967296" using st Cons.prems(5) by simp
  show ?case
  proof (cases "filter_pkt_send ctx' = filter_pkt_send ctx \<and> \<not> (is_publish opr \<and> r = 0 \<and> \<not> budget ctx' + 1 \<le> budget ctx)")
    case True
    have "sent_within 0 (a + 60000) ts' \<le> budget ctx' + max 1 (unat (max_ppm ctx'))"
      by (rule Cons.IH [OF 1 ck(3) _ _ len]) (use True ck(1) Cons.prems(3,4) in simp_all)
    then show ?thesis
      using st True unfolding ts sent_within_append sent_within_one by (auto split: if_splits)
  next
    case False
    then have f: "filter_pkt_send ctx' = lw_clock e 0" "budget ctx' \<le> unat (max_ppm ctx) - 1" "is_publish opr \<and> r = 0"
      using st by (auto split: if_splits)
    have "sent_within 0 (unat (filter_pkt_send ctx') + 60000) ts' \<le> budget ctx'"
      by (rule exec_budget [OF 1 ck(3) _ len]) (simp add: f)
    moreover have "a + 60000 \<le> unat (filter_pkt_send ctx') + 60000" using f ck(1) Cons.prems(4) by simp
    ultimately have "sent_within 0 (a + 60000) ts' \<le> unat (max_ppm ctx) - 1"
      using f(2) sent_within_mono [of "a + 60000" "unat (filter_pkt_send ctx') + 60000" 0 ts'] by linarith
    then show ?thesis
      using f(3) unfolding ts sent_within_append sent_within_one by (auto split: if_splits)
  qed
qed

lemma budget_le: "budget ctx \<le> max 1 (unat (max_ppm ctx))"
  by (simp add: budget_def Let_def)

text \<open>
  C8.  The publish rate is bounded: whatever operations run in between (reconnections,
  callbacks, configuration, reception), in every span of 60 seconds lwIP accepts at most twice
  \<open>max_ppm\<close> application messages (twice one, when the limit is set to 0), as long as the
  clock does not run backwards and the 32 bit attempt counter does not wrap.
\<close>

lemma publish_rate_bounded:
  assumes "mqtt_exec p web ops ctx = Some (ts, c)" and "clocks_from t ops"
    and "unat (filter_pkt_send ctx) \<le> t" and "unat (filter_pkt_count ctx) + length ops < 2 ^ 32"
  shows "sent_within a (a + 60000) ts \<le> 2 * max 1 (unat (max_ppm ctx))"
  using assms
proof (induction ops arbitrary: ctx ts t)
  case Nil
  then show ?case by (simp add: sent_within_def)
next
  case (Cons o' ops)
  obtain e opr where o': "o' = (e, opr)" by fastforce
  from Cons.prems(1) obtain r ctx' ts' where d: "mqtt_do p web e opr ctx = Some (r, ctx')"
    and 1: "mqtt_exec p web ops ctx' = Some (ts', c)"
    and ts: "ts = (if is_publish opr \<and> r = 0 then [lw_clock e 0] else []) @ ts'"
    unfolding o' by (rule exec_Cons)
  have ck: "t \<le> unat (lw_clock e 0)" "clock_ok e" "clocks_from (unat (lw_clock e 0)) ops"
    using Cons.prems(2) by (auto simp: o')
  have lt: "unat (filter_pkt_count ctx) + 1 < 4294967296" using Cons.prems(4) by (simp add: o')
  note st = do_step [OF d ck(2) lt]
  show ?case
  proof (cases "a \<le> unat (lw_clock e 0)")
    case True
    have "sent_within 0 (a + 60000) ts \<le> budget ctx + max 1 (unat (max_ppm ctx))"
      by (rule exec_minute [OF Cons.prems(1), of "unat (lw_clock e 0)"])
        (use True ck Cons.prems(3,4) o' in simp_all)
    with sent_within_mono [of "a + 60000" "a + 60000" a ts] budget_le [of ctx] show ?thesis by linarith
  next
    case False
    have "sent_within a (a + 60000) ts' \<le> 2 * max 1 (unat (max_ppm ctx'))"
      by (rule Cons.IH [OF 1 ck(3)]) (use st ck(1) Cons.prems(3,4) in \<open>auto split: if_splits\<close>)
    with False st show ?thesis
      unfolding ts sent_within_append sent_within_one by simp
  qed
qed

section \<open>Setting a connection up\<close>

lemma add_strs_fits:
  "int (length (concat ss)) < n \<Longrightarrow> add_strs ss buf n = (buf @ concat ss, n - int (length (concat ss)))"
proof (induction ss arbitrary: buf n)
  case (Cons s ss)
  then have "take (nat n - 1) s = s" by simp
  with Cons.IH [of "n - int (length s)" "buf @ s"] Cons.prems show ?case by (simp add: Let_def)
qed simp

text \<open>The conditions under which the setup can complete: every discovery message fits its
  buffer, and the topic table is not full.\<close>

definition setup_ok :: "(string \<times> nat) option \<Rightarrow> 'h mqtt_context \<Rightarrow> bool" where
  "setup_ok web ctx \<longleftrightarrow> mq_client ctx \<and> mq_state ctx = MQTT_CLIENT_CONNECTED \<and> status_topic ctx \<noteq> [] \<and>
     components ctx \<noteq> [] \<and>
     list_all (\<lambda>c. length (concat (component_strs (client_id ctx) (state_topic ctx) c)) < MQTT_DISCOVERY_BUFF_SIZE)
       (components ctx) \<and>
     length (concat (device_strs (client_id ctx) (status_topic ctx) web)) < MQTT_DISCOVERY_BUFF_SIZE \<and>
     topics (listen ctx) \<noteq> [] \<and> length (topics (listen ctx)) < MQTT_MAX_TOPICS \<and> list_all (\<lambda>t. t_topic t \<noteq> []) (topics (listen ctx))"

text \<open>A call during which lwIP accepts everything.\<close>

definition all_accepted :: "nat \<Rightarrow> lwip \<Rightarrow> bool" where
  "all_accepted T e \<longleftrightarrow> lw_connected e \<and> (\<forall>t m. lw_publish e t m = 0) \<and> (\<forall>t. lw_subscribe e t = 0) \<and>
     T \<le> unat (lw_clock e 0) \<and> unat (lw_clock e 0) \<le> T + 3600000 \<and> 0 < T"

fun config_sends :: "(string \<times> nat) option \<Rightarrow> lwip list \<Rightarrow> 'h mqtt_context \<Rightarrow> 'h mqtt_context option" where
  "config_sends web [] ctx = Some ctx"
| "config_sends web (e # es) ctx =
     (case mqtt_config_send e web ctx of None \<Rightarrow> None | Some ctx' \<Rightarrow> config_sends web es ctx')"

text \<open>The messages of a setup, in their order: status, device and one for each component.\<close>

definition component_msg :: "string \<Rightarrow> string \<Rightarrow> mqtt_component \<Rightarrow> string \<times> string" where
  "component_msg cid st c = (take (MQTT_MAX_TOPIC_SIZE - 1) (''homeassistant/'' @ platform c @ ''/'' @ st
     @ ''_'' @ mc_module c @ ''_'' @ mc_name c @ ''/config''), concat (component_strs cid st c))"

definition setup_msgs :: "(string \<times> nat) option \<Rightarrow> 'h mqtt_context \<Rightarrow> (string \<times> string) list" where
  "setup_msgs web ctx =
     (status_topic ctx, ONLINE_MSG) #
     (take (MQTT_MAX_TOPIC_SIZE - 1) (''homeassistant/device/'' @ state_topic ctx @ ''/config''),
      concat (device_strs (client_id ctx) (status_topic ctx) web)) #
     map (component_msg (client_id ctx) (state_topic ctx)) (components ctx)"

text \<open>
  What went out after \<open>k\<close> calls: the first \<open>k\<close> of the messages \<open>ms\<close>, then the subscriptions to the
  topics \<open>ns\<close>, after the \<open>w\<close> and \<open>s\<close> that were sent before.
\<close>

definition setup_log ::
  "(string \<times> nat) option \<Rightarrow> (string \<times> string) list \<Rightarrow> string list \<Rightarrow> (string \<times> string) list \<Rightarrow> string list \<Rightarrow> nat \<Rightarrow> 'h mqtt_context \<Rightarrow> bool" where
  "setup_log web ms ns w s k ctx \<longleftrightarrow> setup_msgs web ctx = ms \<and> map t_topic (topics (listen ctx)) = ns \<and>
     wire ctx = w @ take k ms \<and> sub_wire ctx = s @ take (k - length ms) ns"

text \<open>What holds after \<open>k\<close> calls since the connection was accepted.\<close>

definition setup_phase :: "(string \<times> nat) option \<Rightarrow> nat \<Rightarrow> u64 \<Rightarrow> nat \<Rightarrow> 'h mqtt_context \<Rightarrow> bool" where
  "setup_phase web T now k ctx \<longleftrightarrow> setup_ok web ctx \<and>
     T \<le> unat (cfg_last_send (config ctx)) \<and> unat (cfg_last_send (config ctx)) \<le> unat now \<and> 0 < T \<and>
     \<not> status (config ctx) \<and> (discovery_dev (config ctx) \<longleftrightarrow> k < 2) \<and>
     (let n = length (components ctx); ts = topics (listen ctx); j = min (length ts) (k - (2 + n)) in
      (discovery_comp (config ctx) \<longleftrightarrow> k < 2 + n) \<and>
      send_idx (discovery ctx) = (if k < 2 + n then k - 2 else 0) \<and>
      discovery_send (config ctx) = min n (k - 2) \<and>
      subscribe_cnt (config ctx) = j \<and> map subscribed ts = replicate j True @ replicate (length ts - j) False)"

lemma no_mark:
  assumes "setup_phase web T now k ctx" and "all_accepted T e" and "unat now \<le> unat (lw_clock e 0)"
  shows "config_mark (lw_clock e 0) ctx = Some ctx"
proof -
  let ?l = "cfg_last_send (config ctx)"
  have l: "T \<le> unat ?l" "unat ?l \<le> unat (lw_clock e 0)" "0 < T" "unat (lw_clock e 0) \<le> T + 3600000"
    using assms by (auto simp: setup_phase_def all_accepted_def)
  have nz: "?l \<noteq> 0" using l by auto
  have "unat (lw_clock e 0 - ?l) \<le> 3600000"
    using l by (subst unat_diff_le) (auto simp: word_le_nat_alt)
  then have "\<not> lw_clock e 0 - ?l > CONFIG_INTERVAL_MSEC"
    by (simp add: CONFIG_INTERVAL_MSEC_def word_less_nat_alt)
  with nz show ?thesis by (simp add: config_mark_def)
qed

lemma send_accepted:
  "all_accepted T e \<Longrightarrow> mq_client ctx \<Longrightarrow>
   mqtt_msg_send (later k e) t m ctx = (0, ctx\<lparr>send_err_count := 0, send_in_progress := send_in_progress ctx + 1,
     send_start := lw_clock e k, wire := wire ctx @ [(t, m)]\<rparr>)"
  by (simp add: mqtt_msg_send_def mqtt_is_connected_ctx_def all_accepted_def)

lemma replicate_split_index:
  "map f ts = replicate j True @ replicate (length ts - j) False \<Longrightarrow> j \<le> length ts \<Longrightarrow> index_of (\<lambda>t. \<not> f t) ts = j"
proof (induction ts arbitrary: j)
  case (Cons t ts)
  then show ?case by (cases j) (auto simp: index_of_def)
qed (simp add: index_of_def)

lemma setup_log_sent:
  assumes "setup_log web ms ns w s k ctx" and "k < length ms" and "wire c = wire ctx @ [ms ! k]"
    and "setup_msgs web c = setup_msgs web ctx" and "listen c = listen ctx" and "sub_wire c = sub_wire ctx"
  shows "setup_log web ms ns w s (Suc k) c"
  using assms by (simp add: setup_log_def take_Suc_conv_app_nth)

lemma setup_msgs_length: "length (setup_msgs web ctx) = 2 + length (components ctx)"
  by (simp add: setup_msgs_def)

lemma phase_device:
  assumes ph: "setup_phase web T now 1 ctx" and ac: "all_accepted T e" and le: "unat now \<le> unat (lw_clock e 0)"
    and lg: "setup_log web ms ns w s 1 ctx"
  shows "\<exists>ctx'. mqtt_config_send e web ctx = Some ctx' \<and> setup_phase web T (lw_clock e 0) 2 ctx' \<and> setup_log web ms ns w s 2 ctx'"
proof -
  have ok: "setup_ok web ctx" and f: "\<not> status (config ctx)" "discovery_dev (config ctx)"
    using ph by (simp_all add: setup_phase_def)
  have conn: "mqtt_is_connected_ctx e ctx" using ok ac by (simp add: mqtt_is_connected_ctx_def setup_ok_def all_accepted_def)
  have fits: "int (length (concat (device_strs (client_id ctx) (status_topic ctx) web))) < int MQTT_DISCOVERY_BUFF_SIZE"
    using ok by (simp add: setup_ok_def)
  have cl: "mq_client ctx" using ok by (simp add: setup_ok_def)
  obtain ctx' where c: "mqtt_config_send e web ctx = Some ctx'" "setup_phase web T (lw_clock e 0) 2 ctx'"
    "wire ctx' = wire ctx @ [setup_msgs web ctx ! 1]" "setup_msgs web ctx' = setup_msgs web ctx"
    "listen ctx' = listen ctx" "sub_wire ctx' = sub_wire ctx"
    using ph ok f conn cl le
    unfolding mqtt_config_send_def no_mark [OF ph ac le] Let_def option.case config_one_def
      mqtt_msg_discovery_send_device_def mqtt_discovery_generate_device_def add_strs_fits [OF fits] prod.case
    by (simp add: send_accepted [OF ac] setup_phase_def setup_ok_def Let_def setup_msgs_def)
  have "setup_msgs web ctx = ms" using lg by (simp add: setup_log_def)
  then have "setup_log web ms ns w s (Suc 1) ctx'"
    using setup_log_sent [OF lg _ _ c(4-6)] c(3) setup_msgs_length [of web ctx] by simp
  then show ?thesis using c(1,2) by (auto simp: numeral_2_eq_2)
qed

lemma phase_component:
  assumes ph: "setup_phase web T now k ctx" and k: "2 \<le> k" "k < 2 + length (components ctx)"
    and ac: "all_accepted T e" and le: "unat now \<le> unat (lw_clock e 0)" and lg: "setup_log web ms ns w s k ctx"
  shows "\<exists>ctx'. mqtt_config_send e web ctx = Some ctx' \<and> setup_phase web T (lw_clock e 0) (Suc k) ctx' \<and>
    setup_log web ms ns w s (Suc k) ctx'"
proof -
  have ok: "setup_ok web ctx" and f: "\<not> status (config ctx)" "\<not> discovery_dev (config ctx)"
    "discovery_comp (config ctx)" "send_idx (discovery ctx) = k - 2" "discovery_send (config ctx) = k - 2"
    using ph k by (auto simp: setup_phase_def Let_def)
  let ?c = "components ctx ! (k - 2)"
  have conn: "mqtt_is_connected_ctx e ctx" using ok ac by (simp add: mqtt_is_connected_ctx_def setup_ok_def all_accepted_def)
  have ix: "k - 2 < length (components ctx)" using k by simp
  have fits: "int (length (concat (component_strs (client_id ctx) (state_topic ctx) ?c))) < int MQTT_DISCOVERY_BUFF_SIZE"
    using ok ix by (simp add: setup_ok_def list_all_length)
  have cl: "mq_client ctx" using ok by (simp add: setup_ok_def)
  have T: "T \<le> unat (lw_clock e 0)" "0 < T" using ac by (simp_all add: all_accepted_def)
  define m where "m = concat (component_strs (client_id ctx) (state_topic ctx) ?c)"
  define t where "t = take (MQTT_MAX_TOPIC_SIZE - 1) (''homeassistant/'' @ platform ?c @ ''/'' @ state_topic ctx
            @ ''_'' @ mc_module ?c @ ''_'' @ mc_name ?c @ ''/config'')"
  define c2 where "c2 = ctx\<lparr>discovery := (discovery ctx)\<lparr>disc_topic := t, disc_buff := m\<rparr>,
    send_err_count := 0, send_in_progress := send_in_progress ctx + 1, send_start := lw_clock e 1,
    wire := wire ctx @ [(t, m)]\<rparr>"
  have "\<not> length (components ctx) \<le> k - 2" "0 < int MQTT_DISCOVERY_BUFF_SIZE - int (length m)"
    using ix fits by (simp_all add: m_def)
  then have send: "mqtt_msg_discovery_send (later 1 e) ctx = (0, c2)"
    using cl unfolding mqtt_msg_discovery_send_def mqtt_discovery_generate_component_def f(4)
      add_strs_fits [OF fits] m_def [symmetric] t_def [symmetric] Let_def prod.case append_Nil
    by (simp add: send_accepted [OF ac] c2_def)
  define c3 where "c3 = c2\<lparr>config := (config c2)\<lparr>discovery_send := k - 1\<rparr>,
    discovery := (discovery c2)\<lparr>send_idx := k - 1\<rparr>\<rparr>"
  define c4 where "c4 = (if k - 1 \<ge> length (components ctx)
    then c3\<lparr>config := (config c3)\<lparr>discovery_comp := False\<rparr>, discovery := (discovery c3)\<lparr>send_idx := 0\<rparr>\<rparr> else c3)"
  have k1: "Suc (k - 2) = k - 1" using k by simp
  have one: "config_one e web ctx = Some (True, c4)"
    using f unfolding config_one_def send Let_def prod.case
    by (simp add: c4_def c3_def c2_def k1)
  have "mqtt_config_send e web ctx = Some (c4\<lparr>config := (config c4)\<lparr>cfg_last_send := lw_clock e 0\<rparr>\<rparr>)"
    using conn one unfolding mqtt_config_send_def Let_def no_mark [OF ph ac le] by simp
  moreover have "setup_phase web T (lw_clock e 0) (Suc k) (c4\<lparr>config := (config c4)\<lparr>cfg_last_send := lw_clock e 0\<rparr>\<rparr>)"
  proof (cases "k - 1 \<ge> length (components ctx)")
    case True
    then have "k = 1 + length (components ctx)" using k by linarith
    then show ?thesis using ph ok T True f by (simp add: setup_phase_def setup_ok_def Let_def c4_def c3_def c2_def)
  next
    case False
    then have "k < 1 + length (components ctx)" "min (length (components ctx)) (Suc k - 2) = k - 1"
      "Suc k - (2 + length (components ctx)) = 0" "k - (2 + length (components ctx)) = 0" using k by auto
    then show ?thesis using ph ok T False f k1 k
      by (simp add: setup_phase_def setup_ok_def Let_def c4_def c3_def c2_def Suc_diff_le)
  qed
  moreover have "setup_log web ms ns w s (Suc k) (c4\<lparr>config := (config c4)\<lparr>cfg_last_send := lw_clock e 0\<rparr>\<rparr>)"
  proof (rule setup_log_sent [OF lg])
    have ms: "setup_msgs web ctx = ms" using lg by (simp add: setup_log_def)
    show "k < length ms" using k setup_msgs_length [of web ctx] by (simp add: ms)
    have "ms ! k = (t, m)"
      using k by (cases k; cases "k - 1") (auto simp: ms [symmetric] setup_msgs_def component_msg_def t_def m_def)
    then show "wire (c4\<lparr>config := (config c4)\<lparr>cfg_last_send := lw_clock e 0\<rparr>\<rparr>) = wire ctx @ [ms ! k]"
      by (simp add: c4_def c3_def c2_def)
  qed (simp_all add: c4_def c3_def c2_def setup_msgs_def)
  ultimately show ?thesis by blast
qed

lemma phase_subscribe:
  assumes ph: "setup_phase web T now k ctx" and k: "2 + length (components ctx) \<le> k"
    and ac: "all_accepted T e" and le: "unat now \<le> unat (lw_clock e 0)" and lg: "setup_log web ms ns w s k ctx"
  shows "\<exists>ctx'. mqtt_config_send e web ctx = Some ctx' \<and> setup_phase web T (lw_clock e 0) (Suc k) ctx' \<and>
    setup_log web ms ns w s (Suc k) ctx'"
proof -
  define ts where "ts = topics (listen ctx)"
  define j where "j = min (length ts) (k - (2 + length (components ctx)))"
  have ok: "setup_ok web ctx" and f: "\<not> status (config ctx)" "\<not> discovery_dev (config ctx)"
    "\<not> discovery_comp (config ctx)" "send_idx (discovery ctx) = 0" "subscribe_cnt (config ctx) = j"
    "discovery_send (config ctx) = length (components ctx)"
    and m: "map subscribed ts = replicate j True @ replicate (length ts - j) False"
    using ph k by (auto simp: setup_phase_def Let_def ts_def j_def)
  have conn: "mqtt_is_connected_ctx e ctx" using ok ac by (simp add: mqtt_is_connected_ctx_def setup_ok_def all_accepted_def)
  have T: "T \<le> unat (lw_clock e 0)" "0 < T" "lw_subscribe e t = 0" for t using ac by (simp_all add: all_accepted_def)
  have lt: "length ts < MQTT_MAX_TOPICS" and st: "mq_state ctx = MQTT_CLIENT_CONNECTED"
    using ok by (simp_all add: setup_ok_def ts_def)
  have scan: "topic_scan (\<lambda>t. \<not> subscribed t) ts = Some j"
    using lt replicate_split_index [OF m] by (simp add: topic_scan_def j_def Let_def)
  show ?thesis
  proof (cases "j < length ts")
    case True
    define ctx2 where "ctx2 = ctx\<lparr>listen := (listen ctx)\<lparr>topics := ts[j := (ts ! j)\<lparr>subscribed := True\<rparr>]\<rparr>,
      config := (config ctx)\<lparr>subscribe_cnt := j + 1\<rparr>, sub_wire := sub_wire ctx @ [t_topic (ts ! j)]\<rparr>"
    have tn: "t_topic (ts ! j) \<noteq> []" using ok True by (simp add: setup_ok_def ts_def list_all_length)
    have sub: "mqtt_send_subscribe e ctx = Some (0, ctx2)"
      using st tn True T f(5) unfolding mqtt_send_subscribe_def ts_def [symmetric] scan
      by (simp add: Let_def ctx2_def Suc_le_eq)
    have sj: "subscribed (ts ! i) = (i < j)" if "i < length ts" for i
      using arg_cong [OF m, of "\<lambda>xs. xs ! i"] that True by (simp add: nth_append)
    have m2: "map subscribed (ts[j := (ts ! j)\<lparr>subscribed := True\<rparr>]) =
        replicate (Suc j) True @ replicate (length ts - Suc j) False"
      by (rule nth_equalityI) (use True sj in \<open>auto simp: nth_list_update nth_append less_Suc_eq simp del: replicate_Suc\<close>)
    have lo: "list_all (\<lambda>t. t_topic t \<noteq> []) (ts[j := (ts ! j)\<lparr>subscribed := True\<rparr>])"
      using ok True tn by (auto simp: setup_ok_def ts_def list_all_length nth_list_update)
    have jk: "j = k - (2 + length (components ctx))" using True by (simp add: j_def)
    have mj: "min (length ts) (Suc k - (2 + length (components ctx))) = Suc j"
      using True jk k by linarith
    have nm: "map t_topic (ts[j := (ts ! j)\<lparr>subscribed := True\<rparr>]) = map t_topic ts"
      using True by (simp add: map_update list_update_same_conv)
    obtain ctx' where c: "mqtt_config_send e web ctx = Some ctx'" "setup_phase web T (lw_clock e 0) (Suc k) ctx'"
      "setup_msgs web ctx' = setup_msgs web ctx" "map t_topic (topics (listen ctx')) = map t_topic ts" "wire ctx' = wire ctx"
      "sub_wire ctx' = sub_wire ctx @ [map t_topic ts ! j]"
      using ok conn f True T st ph k mj m2 lo nm
      unfolding mqtt_config_send_def no_mark [OF ph ac le] Let_def option.case config_one_def ts_def [symmetric] sub prod.case
      by (simp add: setup_phase_def setup_ok_def Let_def ctx2_def ts_def [symmetric] setup_msgs_def)
    have ms: "length ms = 2 + length (components ctx)" "ns = map t_topic ts"
      using lg setup_msgs_length [of web ctx] by (simp_all add: setup_log_def ts_def)
    have sk: "Suc k - (2 + length (components ctx)) = Suc j" using jk k by simp
    have "setup_log web ms ns w s (Suc k) ctx'"
      using lg c(3-6) k True take_Suc_conv_app_nth [of j ns] unfolding setup_log_def ms(1) sk jk [symmetric]
      by (simp add: ms)
    then show ?thesis using c(1,2) by blast
  next
    case False
    then have j: "j = length ts" by (simp add: j_def)
    have mj: "min (length ts) (Suc k - (2 + length (components ctx))) = length ts"
      using j by (simp add: j_def)
    have mk: "min (length ts) (k - (2 + length (components ctx))) = length ts"
      using j unfolding j_def by simp
    have "mqtt_config_send e web ctx = Some ctx"
      using conn f j
      unfolding mqtt_config_send_def no_mark [OF ph ac le] Let_def option.case config_one_def ts_def [symmetric] prod.case
      by simp
    moreover have "setup_phase web T (lw_clock e 0) (Suc k) ctx"
      using ph k le mk unfolding setup_phase_def Let_def ts_def [symmetric] mj by auto
    moreover have "setup_log web ms ns w s (Suc k) ctx"
    proof -
      have "length ms = 2 + length (components ctx)" "ns = map t_topic ts"
        using lg setup_msgs_length [of web ctx] by (simp_all add: setup_log_def ts_def)
      moreover have "length ts \<le> k - (2 + length (components ctx))" using j unfolding j_def by simp
      ultimately show ?thesis using lg k by (simp add: setup_log_def)
    qed
    ultimately show ?thesis by blast
  qed
qed

lemma phase_first:
  assumes ok: "setup_ok web ctx" and z: "cfg_last_send (config ctx) = 0" "discovery_send (config ctx) = 0"
    and ac: "all_accepted T e"
  shows "\<exists>ctx'. mqtt_config_send e web ctx = Some ctx' \<and> setup_phase web T (lw_clock e 0) 1 ctx' \<and>
    setup_log web (setup_msgs web ctx) (map t_topic (topics (listen ctx))) (wire ctx) (sub_wire ctx) 1 ctx'"
proof -
  have conn: "mqtt_is_connected_ctx e ctx" using ok ac by (simp add: mqtt_is_connected_ctx_def setup_ok_def all_accepted_def)
  have T: "T \<le> unat (lw_clock e 0)" "0 < T" using ac by (simp_all add: all_accepted_def)
  have mr: "map (\<lambda>t. False) xs = replicate (length xs) False" for xs :: "'h mqtt_topic list"
    by (simp add: map_replicate_const)
  show ?thesis
    using ok z conn T
    unfolding mqtt_config_send_def Let_def config_mark_def
    by (simp add: setup_ok_def mqtt_subscribe_all_def config_one_def send_accepted [OF ac] setup_phase_def
        comp_def mr list.pred_map setup_log_def setup_msgs_def)
qed

lemma phase_run:
  "setup_phase web T now k ctx \<Longrightarrow> setup_log web ms ns w s k ctx \<Longrightarrow> \<forall>e\<in>set es. all_accepted T e \<Longrightarrow> 1 \<le> k \<Longrightarrow>
   sorted (unat now # map (\<lambda>e. unat (lw_clock e 0)) es) \<Longrightarrow>
   \<exists>now' ctx'. config_sends web es ctx = Some ctx' \<and> setup_phase web T now' (k + length es) ctx' \<and>
     setup_log web ms ns w s (k + length es) ctx'"
proof (induction es arbitrary: k now ctx)
  case (Cons e es)
  have "\<exists>ctx'. mqtt_config_send e web ctx = Some ctx' \<and> setup_phase web T (lw_clock e 0) (Suc k) ctx' \<and>
      setup_log web ms ns w s (Suc k) ctx'"
    using phase_device [of web T now ctx e ms ns w s] phase_component [of web T now k ctx e ms ns w s]
      phase_subscribe [of web T now k ctx e ms ns w s] Cons.prems
    by (cases "k = 1"; cases "k < 2 + length (components ctx)") (auto simp: numeral_2_eq_2)
  then obtain ctx' where 1: "mqtt_config_send e web ctx = Some ctx'" "setup_phase web T (lw_clock e 0) (Suc k) ctx'"
    "setup_log web ms ns w s (Suc k) ctx'"
    by blast
  from Cons.IH [OF 1(2,3)] Cons.prems show ?case by (simp add: 1(1))
qed auto

text \<open>Configuration messages change neither the components nor the names of the topics.\<close>

definition same_tables :: "'h mqtt_context \<Rightarrow> 'h mqtt_context \<Rightarrow> bool" where
  "same_tables a b \<longleftrightarrow> components b = components a \<and>
     map t_topic (topics (listen b)) = map t_topic (topics (listen a)) \<and>
     buffers (listen b) = buffers (listen a) \<and> current (listen b) = current (listen a)"

lemma same_tables_refl [simp]: "same_tables a a"
  by (simp add: same_tables_def)

lemma same_tables_upd [simp]:
  "same_tables a (b\<lparr>config := g\<rparr>) = same_tables a b" "same_tables a (b\<lparr>discovery := d\<rparr>) = same_tables a b"
  "same_tables (a\<lparr>config := g\<rparr>) b = same_tables a b" "same_tables (a\<lparr>discovery := d\<rparr>) b = same_tables a b"
  by (simp_all add: same_tables_def)

lemma same_tables_send: "mqtt_msg_send e t m ctx = (r, c) \<Longrightarrow> same_tables ctx c"
  by (auto simp: same_tables_def dest: mqtt_msg_send_keeps)

lemma same_tables_mark: "config_mark now ctx = Some c \<Longrightarrow> same_tables ctx c"
  unfolding config_mark_def Let_def
  by (auto simp: mqtt_subscribe_all_def same_tables_def comp_def split: if_splits)

lemma same_tables_one: "config_one e web ctx = Some (b, c) \<Longrightarrow> same_tables ctx c"
proof -
  assume a: "config_one e web ctx = Some (b, c)"
  obtain r1 c1 where 1: "mqtt_msg_send (later 1 e) (status_topic ctx) ONLINE_MSG ctx = (r1, c1)" by fastforce
  obtain r2 c2 where 2: "mqtt_msg_discovery_send_device (later 1 e) web ctx = (r2, c2)" by fastforce
  obtain r3 c3 where 3: "mqtt_msg_discovery_send (later 1 e) ctx = (r3, c3)" by fastforce
  have "same_tables ctx c2"
    using 2 unfolding mqtt_msg_discovery_send_device_def mqtt_discovery_generate_device_def
    by (auto simp: Let_def split: prod.splits if_splits dest!: same_tables_send)
  moreover have "same_tables ctx c3"
    using 3 unfolding mqtt_msg_discovery_send_def mqtt_discovery_generate_component_def
    by (auto simp: Let_def split: prod.splits if_splits dest!: same_tables_send)
  moreover have "same_tables ctx c'" if "mqtt_send_subscribe e ctx = Some (r, c')" for r c'
    using that by (auto simp: mqtt_send_subscribe_def Let_def same_tables_def map_update list_update_same_conv
        split: if_splits option.splits)
  ultimately show ?thesis
    using a same_tables_send [OF 1] unfolding config_one_def 1 2 3 Let_def prod.case
    by (auto split: if_splits option.splits)
qed

lemma same_tables_config_send: "mqtt_config_send e web ctx = Some c \<Longrightarrow> same_tables ctx c"
proof -
  assume a: "mqtt_config_send e web ctx = Some c"
  show ?thesis
  proof (cases "mqtt_is_connected_ctx e ctx")
    case True
    then obtain c1 b c2 where "config_mark (lw_clock e 0) ctx = Some c1" "config_one e web c1 = Some (b, c2)"
      "c = (if b then c2\<lparr>config := (config c2)\<lparr>cfg_last_send := lw_clock e 0\<rparr>\<rparr> else c2)"
      using a by (auto simp: mqtt_config_send_def Let_def split: option.splits)
    with same_tables_mark [of _ ctx c1] same_tables_one [of e web c1 b c2] show ?thesis
      by (auto simp: same_tables_def)
  qed (use a in \<open>simp add: mqtt_config_send_def\<close>)
qed

lemma same_tables_config_sends: "config_sends web es ctx = Some c \<Longrightarrow> same_tables ctx c"
proof (induction es arbitrary: ctx)
  case (Cons e es)
  then obtain c1 where "mqtt_config_send e web ctx = Some c1" "config_sends web es c1 = Some c"
    by (auto split: option.splits)
  with Cons.IH [of c1] same_tables_config_send [of e web ctx c1] show ?case
    by (auto simp: same_tables_def)
qed simp

text \<open>
  C9.  A new connection is set up completely: once the broker accepted the connection, and as
  long as lwIP accepts what it is given, each call of \<open>mqtt_config_send\<close> sends the next of these
  messages, and nothing else: \<open>online\<close> on the status topic, the discovery message of the device, and
  the discovery message of each component on the component's own topic.  After them each call
  subscribes the next topic.  \<open>mqtt_is_discovery_sent\<close> holds from the last component on, and the
  topic table is never read outside its bounds on the way.
\<close>

lemma connection_setup_completes:
  assumes "setup_ok web ctx" and "cfg_last_send (config ctx) = 0" and "discovery_send (config ctx) = 0"
    and "\<forall>e\<in>set es. all_accepted T e" and "sorted (map (\<lambda>e. unat (lw_clock e 0)) es)"
    and "length es \<ge> 1"
  shows "\<exists>ctx'. config_sends web es ctx = Some ctx' \<and> setup_ok web ctx' \<and> same_tables ctx ctx' \<and>
    discovery_send (config ctx') = min (length (components ctx')) (length es - 2) \<and>
    (mqtt_is_discovery_sent (Some ctx') \<longleftrightarrow> length es \<ge> 2 + length (components ctx')) \<and>
    ((\<forall>t\<in>set (topics (listen ctx')). subscribed t) \<longleftrightarrow>
       length es \<ge> 2 + length (components ctx') + length (topics (listen ctx'))) \<and>
    wire ctx' = wire ctx @ take (length es) (setup_msgs web ctx) \<and>
    sub_wire ctx' = sub_wire ctx @ take (length es - (2 + length (components ctx))) (map t_topic (topics (listen ctx)))"
proof -
  obtain e es' where es: "es = e # es'" using assms(6) by (cases es) auto
  from phase_first [OF assms(1-3), of T e] assms(4) es obtain c1 where
    1: "mqtt_config_send e web ctx = Some c1" "setup_phase web T (lw_clock e 0) 1 c1"
      "setup_log web (setup_msgs web ctx) (map t_topic (topics (listen ctx))) (wire ctx) (sub_wire ctx) 1 c1" by auto
  have "\<forall>e\<in>set es'. all_accepted T e" "sorted (unat (lw_clock e 0) # map (\<lambda>e. unat (lw_clock e 0)) es')"
    using assms(4,5) by (simp_all add: es)
  from phase_run [OF 1(2,3) this(1) order_refl this(2)] obtain now' ctx' where
    2: "config_sends web es' c1 = Some ctx'" "setup_phase web T now' (length es) ctx'"
      "setup_log web (setup_msgs web ctx) (map t_topic (topics (listen ctx))) (wire ctx) (sub_wire ctx) (length es) ctx'"
    by (auto simp: es)
  define ts where "ts = topics (listen ctx')"
  define j where "j = min (length ts) (length es - (2 + length (components ctx')))"
  have ok: "setup_ok web ctx'" and d: "discovery_send (config ctx') = min (length (components ctx')) (length es - 2)"
    and m: "map subscribed ts = replicate j True @ replicate (length ts - j) False"
    using 2(2) by (auto simp: setup_phase_def Let_def ts_def j_def)
  have tp: "0 < length ts" using ok by (simp add: setup_ok_def ts_def)
  have "(\<forall>t\<in>set ts. subscribed t) \<longleftrightarrow> (\<forall>b\<in>set (map subscribed ts). b)" by simp
  also have "\<dots> \<longleftrightarrow> j \<ge> length ts" unfolding m by (simp add: set_replicate_conv_if)
  also have "\<dots> \<longleftrightarrow> length es \<ge> 2 + length (components ctx') + length ts"
    using tp unfolding j_def by arith
  finally have s: "(\<forall>t\<in>set ts. subscribed t) \<longleftrightarrow> length es \<ge> 2 + length (components ctx') + length ts" .
  have "mqtt_is_discovery_sent (Some ctx') \<longleftrightarrow> length es \<ge> 2 + length (components ctx')"
  proof -
    have "0 < length (components ctx')" using ok by (simp add: setup_ok_def)
    then have "length (components ctx') \<le> min (length (components ctx')) (length es - 2) \<longleftrightarrow>
        length es \<ge> 2 + length (components ctx')" by arith
    then show ?thesis using ok d by (simp add: mqtt_is_discovery_sent_def setup_ok_def)
  qed
  moreover have "config_sends web es ctx = Some ctx'" using 1(1) 2(1) by (simp add: es)
  moreover have "wire ctx' = wire ctx @ take (length es) (setup_msgs web ctx)"
    "sub_wire ctx' = sub_wire ctx @ take (length es - (2 + length (components ctx))) (map t_topic (topics (listen ctx)))"
    using 2(3) by (simp_all add: setup_log_def setup_msgs_length)
  ultimately show ?thesis using ok d s same_tables_config_sends unfolding ts_def by blast
qed

section \<open>Invariant of the service\<close>

definition mqtt_ok :: "'h mqtt_context \<Rightarrow> bool" where
  "mqtt_ok ctx \<longleftrightarrow> listen_ok (listen ctx) \<and> length (components ctx) \<le> MQTT_DISCOVERY_MAX_COUNT"

lemma mqtt_ok_same_tables: "mqtt_ok a \<Longrightarrow> same_tables a b \<Longrightarrow> mqtt_ok b"
proof -
  assume a: "mqtt_ok a" "same_tables a b"
  then have "length (topics (listen b)) = length (topics (listen a))"
    by (metis length_map same_tables_def)
  with a show ?thesis by (auto simp: mqtt_ok_def listen_ok_def same_tables_def split: option.splits)
qed

lemma mqtt_ok_listen: "mqtt_ok ctx \<Longrightarrow> listen_ok l \<Longrightarrow> mqtt_ok (ctx\<lparr>listen := l\<rparr>)"
  by (simp add: mqtt_ok_def)

lemma mqtt_resolve_tables: "listen (mqtt_resolve e now ctx) = listen ctx \<and> components (mqtt_resolve e now ctx) = components ctx"
  by (simp add: mqtt_resolve_def mqtt_do_connect_def Let_def split: ip_resolve_state.split)

lemma mqtt_connect_tables: "mqtt_connect e ctx = (b, c) \<Longrightarrow> same_tables ctx c"
  by (auto simp: mqtt_connect_def Let_def same_tables_def sys_mqtt_reconnect_def mqtt_resolve_tables
      split: if_splits)

lemma mqtt_run_ok: "mqtt_ok ctx \<Longrightarrow> sys_mqtt_run p e web ctx = Some (ds, c) \<Longrightarrow> mqtt_ok c"
proof -
  assume ok: "mqtt_ok ctx" and r: "sys_mqtt_run p e web ctx = Some (ds, c)"
  obtain g c1 where c1: "mqtt_connect e ctx = (g, c1)" by fastforce
  obtain got d l where i: "mqtt_incoming_ready p (listen c1) = (got, d, l)" by (cases "mqtt_incoming_ready p (listen c1)")
  have ok1: "mqtt_ok c1" using mqtt_ok_same_tables [OF ok mqtt_connect_tables [OF c1]] .
  then have "listen_ok l" using mqtt_incoming_ready_ok [OF _ i] by (simp add: mqtt_ok_def)
  then show ?thesis
    using r ok1 unfolding sys_mqtt_run_def c1 i Let_def prod.case
    by (auto intro: mqtt_ok_listen mqtt_ok_same_tables [OF _ same_tables_config_send] split: if_splits)
qed

lemma mqtt_publish_tables: "mqtt_msg_publish e t m f ctx = (r, c) \<Longrightarrow> same_tables ctx c"
proof -
  assume a: "mqtt_msg_publish e t m f ctx = (r, c)"
  obtain r1 c1 where s: "mqtt_msg_send (later 1 e) (case t of Some t \<Rightarrow> t | None \<Rightarrow> state_topic ctx) m ctx = (r1, c1)"
    by fastforce
  have "same_tables ctx (filter_after e r1 ctx c1)"
    using same_tables_send [OF s] by (simp add: filter_after_def same_tables_def)
  with a s show ?thesis by (auto simp: mqtt_msg_publish_cases split: if_splits)
qed

text \<open>What an operation returns is well formed.\<close>

lemma mqtt_do_ok:
  assumes ok: "mqtt_ok ctx" and d: "mqtt_do p web e opr ctx = Some (r, ctx')"
  shows "mqtt_ok ctx'"
proof (cases opr)
  case Op_run
  with d mqtt_run_ok [OF ok] show ?thesis by (auto simp: mqtt_do_def)
next
  case (Op_incoming t n)
  with d ok mqtt_incoming_publish_ok show ?thesis
    by (auto simp: mqtt_do_def mqtt_ok_def)
next
  case (Op_data x f)
  with d ok show ?thesis by (auto simp: mqtt_do_def mqtt_ok_def intro: mqtt_incoming_data_ok)
next
  case (Op_publish t m)
  with d have "mqtt_msg_publish e t m False ctx = (r, ctx')" by (simp add: mqtt_do_def)
  with ok show ?thesis by (blast intro: mqtt_ok_same_tables mqtt_publish_tables)
next
  case (Op_register c)
  with d ok show ?thesis
    by (auto simp: mqtt_do_def mqtt_msg_component_register_def Let_def mqtt_ok_def split: if_splits)
next
  case (Op_listen al t h j)
  then obtain c' where "mqtt_topic_listen al t h j (Some ctx) = Some (r, c')" "ctx' = the c'"
    using d by (auto simp: mqtt_do_def)
  moreover from this have "c' \<noteq> None \<and> components (the c') = components ctx"
    by (auto simp: mqtt_topic_listen_def Let_def split: if_splits option.splits)
  ultimately show ?thesis
    using ok mqtt_topic_listen_ok by (auto simp: mqtt_ok_def)
qed (use assms in \<open>auto simp: mqtt_do_def mqtt_ok_def sys_mqtt_reconnect_def sys_mqtt_debug_set_def
       mqtt_publish_cb_def mqtt_server_found_def mqtt_hook_def Let_def split: connection_status.split\<close>)

text \<open>With less than twenty topics no operation leaves its tables.\<close>

lemma topic_scan_total: "length ts < MQTT_MAX_TOPICS \<Longrightarrow> \<exists>i. topic_scan P ts = Some i"
  by (simp add: topic_scan_def Let_def)

lemma config_mark_total:
  assumes "length (topics (listen ctx)) < MQTT_MAX_TOPICS"
  shows "\<exists>c. config_mark now ctx = Some c \<and> length (topics (listen c)) < MQTT_MAX_TOPICS"
  using assms by (auto simp: config_mark_def mqtt_subscribe_all_def Let_def)

lemma config_send_total:
  assumes "length (topics (listen ctx)) < MQTT_MAX_TOPICS"
  shows "mqtt_config_send e web ctx \<noteq> None"
proof -
  obtain c where c: "config_mark (lw_clock e 0) ctx = Some c" "length (topics (listen c)) < MQTT_MAX_TOPICS"
    using config_mark_total [OF assms] by blast
  obtain i where "topic_scan (\<lambda>t. \<not> subscribed t) (topics (listen c)) = Some i"
    using topic_scan_total [OF c(2)] by blast
  then have "mqtt_send_subscribe e c \<noteq> None" by (simp add: mqtt_send_subscribe_def Let_def)
  then have "config_one e web c \<noteq> None" by (auto simp: config_one_def Let_def split: prod.splits option.splits)
  then show ?thesis using c(1) by (auto simp: mqtt_config_send_def Let_def split: option.splits)
qed

lemma mqtt_do_total:
  assumes "length (topics (listen ctx)) < MQTT_MAX_TOPICS"
  shows "mqtt_do p web e opr ctx \<noteq> None"
proof (cases opr)
  case Op_run
  obtain g c1 where c1: "mqtt_connect e ctx = (g, c1)" by fastforce
  have "length (topics (listen c1)) = length (topics (listen ctx))"
    using mqtt_connect_tables [OF c1] by (metis length_map same_tables_def)
  then have "mqtt_config_send e web c1 \<noteq> None" using assms by (simp add: config_send_total)
  then show ?thesis using Op_run by (auto simp: mqtt_do_def sys_mqtt_run_def c1 Let_def split: prod.splits)
next
  case (Op_incoming t n)
  then show ?thesis using topic_scan_total [OF assms, of "\<lambda>x. t_topic x = t"]
    by (auto simp: mqtt_do_def mqtt_incoming_publish_def Let_def)
next
  case (Op_listen al t h j)
  then show ?thesis using topic_scan_total [OF assms, of "\<lambda>x. t_topic x = t"]
    by (auto simp: mqtt_do_def mqtt_topic_listen_def Let_def)
qed (simp_all add: mqtt_do_def split_beta)

text \<open>
  C22.  The service keeps its tables well formed and never leaves them while less than twenty topics
  are registered: every operation of the machine, in any well formed state and whatever lwIP
  answers, returns, with at most 512 components, at most 20 topics and the receive buffers inside
  their arrays and bound to registered topics.  The only accesses outside a table are made with the
  topic table full.
\<close>

lemma mqtt_machine_invariant:
  assumes "mqtt_ok ctx"
  shows "(\<exists>r ctx'. mqtt_do p web e opr ctx = Some (r, ctx') \<and> mqtt_ok ctx') \<or>
    mqtt_do p web e opr ctx = None \<and> length (topics (listen ctx)) = MQTT_MAX_TOPICS"
proof (cases "mqtt_do p web e opr ctx")
  case None
  then have "\<not> length (topics (listen ctx)) < MQTT_MAX_TOPICS" using mqtt_do_total [of ctx p web e opr] by blast
  then show ?thesis using assms None by (simp add: mqtt_ok_def listen_ok_def)
next
  case (Some x)
  then show ?thesis using mqtt_do_ok [OF assms] by (cases x) auto
qed

section \<open>Two limits of the setup\<close>

text \<open>
  The twentieth topic breaks the setup: \<open>mqtt_topic_listen\<close> accepts it and returns 0, but
  from then on the first configuration call of a connection reads \<open>topics[20]\<close>, one past the
  end of the table, and writes through it.
\<close>

lemma twentieth_topic_out_of_bounds:
  assumes "length (topics (listen ctx)) = 19" and "t \<notin> set (map t_topic (topics (listen ctx)))"
    and "mq_client ctx" and "lw_connected e" and "cfg_last_send (config ctx) = 0" and "al 0 \<and> al 1"
  shows "\<exists>ctx'. mqtt_topic_listen al t h js (Some ctx) = Some (0, Some ctx') \<and>
    length (topics (listen ctx')) = MQTT_MAX_TOPICS \<and> mqtt_config_send e web ctx' = None"
proof -
  have "index_of (\<lambda>x. t_topic x = t) (topics (listen ctx)) = 19"
    using index_of_all [of "topics (listen ctx)" "\<lambda>x. t_topic x = t"] assms(1,2) by auto
  then have sc: "topic_scan (\<lambda>x. t_topic x = t) (topics (listen ctx)) = Some 19"
    using assms(1) by (simp add: topic_scan_def mqtt_sizes)
  obtain ctx' where l: "mqtt_topic_listen al t h js (Some ctx) = Some (0, Some ctx')"
    and c: "length (topics (listen ctx')) = 20" "mq_client ctx'" "cfg_last_send (config ctx') = 0"
    using assms unfolding mqtt_topic_listen_def Let_def option.case sc by auto
  have "topics (listen ctx') \<noteq> []" using c(1) by auto
  then have "mqtt_config_send e web ctx' = None"
    using c assms(4) by (simp add: mqtt_config_send_def config_mark_def mqtt_subscribe_all_def
        mqtt_is_connected_ctx_def mqtt_sizes Let_def)
  with l c show ?thesis by (simp add: mqtt_sizes)
qed

section \<open>Witnesses\<close>

lemma publish_rate_bounded_witness:
  "\<exists>ts c. mqtt_exec (\<lambda>_. None :: nat option) None
      [(demo_lwip 1000, Op_publish None ''a''), (demo_lwip 2000, Op_publish None ''b''),
       (demo_lwip 3000, Op_publish None ''c'')] demo_mqtt = Some (ts, c) \<and>
     ts = [1000, 2000] \<and> sent_within 0 60000 ts \<le> 4"
proof -
  let ?ops = "[(demo_lwip 1000, Op_publish None ''a''), (demo_lwip 2000, Op_publish None ''b''),
       (demo_lwip 3000, Op_publish None ''c'')] :: (lwip \<times> nat mqtt_op) list"
  have e: "map_option fst (mqtt_exec (\<lambda>_. None :: nat option) None ?ops demo_mqtt) = Some [1000, 2000]"
    by code_simp
  then obtain ts c where x: "mqtt_exec (\<lambda>_. None :: nat option) None ?ops demo_mqtt = Some (ts, c)" "ts = [1000, 2000]"
    by auto
  have "clocks_from 0 ?ops" by (simp add: clock_ok_def demo_lwip_def)
  from publish_rate_bounded [OF x(1) this, of 0] x show ?thesis by (simp add: demo_mqtt_def)
qed

lemma connection_setup_completes_witness:
  "\<exists>ctx'. config_sends None [demo_lwip 10, demo_lwip 20, demo_lwip 30, demo_lwip 40] demo_mqtt = Some ctx' \<and>
     mqtt_is_discovery_sent (Some ctx') \<and> (\<forall>t\<in>set (topics (listen ctx')). subscribed t)"
proof -
  let ?es = "[demo_lwip 10, demo_lwip 20, demo_lwip 30, demo_lwip 40]"
  have "length (concat (component_strs (client_id demo_mqtt) (state_topic demo_mqtt) demo_component)) < MQTT_DISCOVERY_BUFF_SIZE"
    "length (concat (device_strs (client_id demo_mqtt) (status_topic demo_mqtt) None)) < MQTT_DISCOVERY_BUFF_SIZE"
    by code_simp+
  then have ok: "setup_ok None demo_mqtt"
    by (simp add: setup_ok_def demo_mqtt_def demo_listen_def demo_topic_def mqtt_sizes)
  have z: "cfg_last_send (config demo_mqtt) = 0" "discovery_send (config demo_mqtt) = 0" by (simp_all add: demo_mqtt_def)
  have a: "\<forall>e\<in>set ?es. all_accepted 1 e" "sorted (map (\<lambda>e. unat (lw_clock e 0)) ?es)" "length ?es \<ge> 1"
    by (simp_all add: all_accepted_def demo_lwip_def)
  obtain ctx' where c: "config_sends None ?es demo_mqtt = Some ctx'" "same_tables demo_mqtt ctx'"
    "mqtt_is_discovery_sent (Some ctx') \<longleftrightarrow> length ?es \<ge> 2 + length (components ctx')"
    "(\<forall>t\<in>set (topics (listen ctx')). subscribed t) \<longleftrightarrow> length ?es \<ge> 2 + length (components ctx') + length (topics (listen ctx'))"
    using connection_setup_completes [OF ok z a] by blast
  have "length (components ctx') = 1" "length (topics (listen ctx')) = 1"
    using c(2) by (auto simp: same_tables_def demo_mqtt_def demo_listen_def dest: arg_cong [where f = length])
  with c show ?thesis by simp
qed

lemma mqtt_machine_invariant_witness:
  "\<exists>ctx'. mqtt_do (\<lambda>_. None :: nat option) None (demo_lwip 5) (Op_register demo_component) demo_mqtt = Some (1, ctx') \<and>
     mqtt_ok ctx'"
proof -
  have ok: "mqtt_ok demo_mqtt" using demo_listen_ok by (simp add: mqtt_ok_def demo_mqtt_def mqtt_sizes)
  obtain r ctx' where d: "mqtt_do (\<lambda>_. None :: nat option) None (demo_lwip 5) (Op_register demo_component) demo_mqtt = Some (r, ctx')"
    "r = 1"
    by (simp add: mqtt_do_def mqtt_msg_component_register_def demo_mqtt_def mqtt_sizes Let_def)
  from mqtt_machine_invariant [OF ok, of "\<lambda>_. None :: nat option" None "demo_lwip 5" "Op_register demo_component"] d
  show ?thesis by auto
qed

lemma twentieth_topic_out_of_bounds_witness:
  "\<exists>ctx'. mqtt_topic_listen (\<lambda>_. True) ''new'' 3 False
      (Some (demo_mqtt\<lparr>listen := demo_listen\<lparr>topics := replicate 19 (demo_topic ''old'')\<rparr>\<rparr>)) = Some (0, Some ctx') \<and>
    mqtt_config_send (demo_lwip 1) None ctx' = None"
proof -
  let ?c = "demo_mqtt\<lparr>listen := demo_listen\<lparr>topics := replicate 19 (demo_topic ''old'')\<rparr>\<rparr>"
  have "length (topics (listen ?c)) = 19" "''new'' \<notin> set (map t_topic (topics (listen ?c)))" "mq_client ?c"
    "lw_connected (demo_lwip 1)" "cfg_last_send (config ?c) = 0"
    by (simp_all add: demo_mqtt_def demo_lwip_def demo_topic_def)
  from twentieth_topic_out_of_bounds [OF this, of "\<lambda>_. True" 3 False None] show ?thesis by auto
qed

end
