(* ===== verification/SysState.thy ===== *)
theory SysState
  imports Mqtt
begin

text \<open>
  The system state service, \<open>libs/common/services/sys_state/sys_state.c\<close>: the table of status
  callbacks, the status report that calls them one at a time (at most one every 100 ms, each
  again until it says it is done), the periodic report and the MQTT message at its end.  A
  callback works on the world \<open>'w\<close>; its context is part of it.  The strings of the clock and of
  the uptime and the error counters of lwIP are arguments; the printed lines are left out.
\<close>

definition LOG_STATUS_HOOKS_COUNT :: nat where "LOG_STATUS_HOOKS_COUNT = 128"
definition PERIODIC_LOG_MS :: u32 where "PERIODIC_LOG_MS = 3600000"
definition LOG_STATUS_DELAY_MS :: u64 where "LOG_STATUS_DELAY_MS = 100"
definition MQTT_DATA_LEN :: nat where "MQTT_DATA_LEN = 512"

record 'w sys_state =
  periodic_log_ms :: u32
  last_log :: u64
  last_run :: u64
  ss_debug :: u32
  log_status :: "('w \<Rightarrow> bool \<times> 'w) option list"
  log_status_progress :: int
  mqtt_comp :: "mqtt_component list"

text \<open>What a call reads from the rest of the system: the two time strings, the health.\<close>

record ss_env =
  time_str :: string
  uptime_str :: string
  healthy :: bool

section \<open>MQTT message\<close>

definition ss_component :: "string \<Rightarrow> string \<Rightarrow> mqtt_component" where
  "ss_component plat nm = \<lparr>mc_module = ''sys_state'', mc_name = nm, platform = plat, dev_class = None,
     unit = None, value_template = ''{{ value_json['' @ [CHR 0x27] @ nm @ [CHR 0x27] @ ''] }}'',
     payload_on = None, payload_off = None, mc_state_topic = None, mc_id = 0, force = False, mc_last_send = 0\<rparr>"

definition sys_state_mqtt_init :: "'h mqtt_context option \<Rightarrow> mqtt_component list \<times> 'h mqtt_context option" where
  "sys_state_mqtt_init mq =
     (let (_, c0, mq) = mqtt_msg_component_register (ss_component ''sensor'' ''sys_uptime'') mq;
          (_, c1, mq) = mqtt_msg_component_register
             ((ss_component ''binary_sensor'' ''sys_error'')\<lparr>payload_on := Some ''1'', payload_off := Some ''0'',
                mc_state_topic := mc_state_topic c0\<rparr>) mq
      in ([c0, c1], mq))"

definition sys_state_payload :: "ss_env \<Rightarrow> string option" where
  "sys_state_payload s = build_msg MQTT_DATA_LEN
     [''{'', ''\"time\":\"'' @ time_str s @ ''\"'', '',\"sys_uptime\": \"'' @ uptime_str s @ ''\"'',
      '',\"sys_error\": \"'' @ (if healthy s then ''0'' else ''1'') @ ''\"'', ''}'']"

definition sys_state_mqtt_send ::
  "lwip \<Rightarrow> ss_env \<Rightarrow> 'w sys_state \<Rightarrow> 'h mqtt_context option \<Rightarrow> int \<times> 'w sys_state \<times> 'h mqtt_context option" where
  "sys_state_mqtt_send e s ctx mq =
     (case sys_state_payload s of None \<Rightarrow> (-1, ctx, mq)
      | Some p \<Rightarrow>
          (let (ret, c0, mq) = mqtt_msg_component_publish e (mqtt_comp ctx ! 0) p mq
           in (ret, ctx\<lparr>mqtt_comp := (mqtt_comp ctx)[0 := c0]\<rparr>, mq)))"

section \<open>Initialisation and the table\<close>

text \<open>\<open>cfg\<close> is the user parameter \<open>SYS_STATE_LOG_SEC\<close>; the seconds go through a \<open>uint16_t\<close>.\<close>

definition syslog_init ::
  "string option \<Rightarrow> bool \<Rightarrow> 'h mqtt_context option \<Rightarrow> ('w sys_state \<times> 'h mqtt_context option) option" where
  "syslog_init cfg alloc mq =
     (if \<not> alloc then None
      else
        (let per = (case cfg of
               Some c \<Rightarrow> if length c \<ge> 1
                         then ucast (word_of_int (strtol_val 0 c) :: u16) * 1000 else PERIODIC_LOG_MS
             | None \<Rightarrow> PERIODIC_LOG_MS);
             (cs, mq) = sys_state_mqtt_init mq
         in Some (\<lparr>periodic_log_ms = per, last_log = 0, last_run = 0, ss_debug = 0, log_status = [],
                   log_status_progress = -1, mqtt_comp = cs\<rparr>, mq)))"

definition sys_state_debug_set :: "u32 \<Rightarrow> 'w sys_state \<Rightarrow> 'w sys_state" where
  "sys_state_debug_set lvl ctx = ctx\<lparr>ss_debug := lvl\<rparr>"

definition sys_state_callback_add ::
  "('w \<Rightarrow> bool \<times> 'w) option \<Rightarrow> 'w sys_state option \<Rightarrow> int \<times> 'w sys_state option" where
  "sys_state_callback_add f c =
     (case c of None \<Rightarrow> (-1, None)
      | Some ctx \<Rightarrow>
          if length (log_status ctx) \<ge> LOG_STATUS_HOOKS_COUNT then (-1, Some ctx)
          else (int (length (log_status ctx)), Some (ctx\<lparr>log_status := log_status ctx @ [f]\<rparr>)))"

definition sys_state_set_periodic_log_ms :: "int \<Rightarrow> 'w sys_state \<Rightarrow> 'w sys_state" where
  "sys_state_set_periodic_log_ms ms ctx =
     ctx\<lparr>periodic_log_ms := (if ms \<ge> 0 then word_of_int ms else PERIODIC_LOG_MS)\<rparr>"

section \<open>The report\<close>

definition sys_state_log_start :: "'w sys_state \<Rightarrow> 'w sys_state" where
  "sys_state_log_start ctx = ctx\<lparr>log_status_progress := 0\<rparr>"

definition sys_state_log_in_progress :: "'w sys_state option \<Rightarrow> bool" where
  "sys_state_log_in_progress c = (case c of None \<Rightarrow> False
     | Some ctx \<Rightarrow> log_status_progress ctx \<ge> 0 \<and> log_status_progress ctx < int (length (log_status ctx)))"

definition sys_state_log_status :: "'w sys_state option \<Rightarrow> 'w sys_state option" where
  "sys_state_log_status c =
     (if sys_state_log_in_progress c then c else map_option sys_state_log_start c)"

definition sys_state_periodic :: "u64 \<Rightarrow> 'w sys_state \<Rightarrow> bool \<times> 'w sys_state" where
  "sys_state_periodic now ctx =
     (if periodic_log_ms ctx = 0 then (False, ctx)
      else if now - last_log ctx > ucast (periodic_log_ms ctx)
           then (True, sys_state_log_start (ctx\<lparr>last_log := now\<rparr>))
           else (False, ctx))"

text \<open>One step of the report: the hook at \<open>idx\<close>, and the place afterwards.\<close>

definition sys_state_hook :: "nat \<Rightarrow> 'w sys_state \<times> 'w \<Rightarrow> 'w sys_state \<times> 'w" where
  "sys_state_hook idx st =
     (case st of (ctx, w) \<Rightarrow>
       (let (ret, w) = (case log_status ctx ! idx of None \<Rightarrow> (True, w) | Some f \<Rightarrow> f w)
        in (if ret then ctx\<lparr>log_status_progress := log_status_progress ctx + 1\<rparr> else ctx, w)))"

definition sys_state_log_run ::
  "lwip \<Rightarrow> ss_env \<Rightarrow> 'w sys_state \<times> 'h mqtt_context option \<times> 'w \<Rightarrow> 'w sys_state \<times> 'h mqtt_context option \<times> 'w" where
  "sys_state_log_run e s st =
     (case st of (ctx, mq, w) \<Rightarrow>
       (let now = lw_clock e 0; idx = log_status_progress ctx in
        if idx < 0 \<or> idx \<ge> int (length (log_status ctx)) then
          (let (_, ctx) = sys_state_periodic (lw_clock e 1) ctx
           in if force (mqtt_comp ctx ! 0)
              then (let (_, ctx, mq) = sys_state_mqtt_send (later 2 e) s ctx mq in (ctx, mq, w))
              else (ctx, mq, w))
        else if now - last_run ctx < LOG_STATUS_DELAY_MS then (ctx, mq, w)
        else
          (let (ctx, w) = sys_state_hook (nat idx) (ctx, w);
               (ctx, mq) =
                 (if log_status_progress ctx \<ge> int (length (log_status ctx)) then
                    (let ctx = ctx\<lparr>last_log := lw_clock e 1, log_status_progress := -1,
                           mqtt_comp := (mqtt_comp ctx)[0 := (mqtt_comp ctx ! 0)\<lparr>force := True\<rparr>]\<rparr>;
                         (_, ctx, mq) = sys_state_mqtt_send (later 2 e) s ctx mq
                     in (ctx, mq))
                  else (ctx, mq))
           in (ctx\<lparr>last_run := now\<rparr>, mq, w))))"

fun sys_state_runs ::
  "(lwip \<times> ss_env) list \<Rightarrow> 'w sys_state \<times> 'h mqtt_context option \<times> 'w \<Rightarrow> 'w sys_state \<times> 'h mqtt_context option \<times> 'w" where
  "sys_state_runs [] st = st"
| "sys_state_runs ((e, s) # es) st = sys_state_runs es (sys_state_log_run e s st)"

section \<open>Properties\<close>

text \<open>What the callbacks do to the world when each says it is done at its first call.\<close>

fun run_hooks :: "('w \<Rightarrow> bool \<times> 'w) option list \<Rightarrow> 'w \<Rightarrow> 'w" where
  "run_hooks [] w = w"
| "run_hooks (h # hs) w = run_hooks hs (case h of None \<Rightarrow> w | Some f \<Rightarrow> snd (f w))"

lemma run_hooks_append: "run_hooks (xs @ ys) w = run_hooks ys (run_hooks xs w)"
  by (induction xs arbitrary: w) auto

lemma send_keeps:
  "sys_state_mqtt_send e s ctx mq = (r, ctx', mq') \<Longrightarrow>
   log_status ctx' = log_status ctx \<and> log_status_progress ctx' = log_status_progress ctx \<and>
   last_run ctx' = last_run ctx \<and> length (mqtt_comp ctx') = length (mqtt_comp ctx)"
  by (auto simp: sys_state_mqtt_send_def split: option.splits prod.splits)

lemma run_step:
  assumes i: "log_status_progress ctx = int i" "i < length (log_status ctx)"
    and t: "LOG_STATUS_DELAY_MS \<le> lw_clock e 0 - last_run ctx"
    and hook: "(case log_status ctx ! i of None \<Rightarrow> True | Some f \<Rightarrow> fst (f w))"
    and r: "sys_state_log_run e s (ctx, mq, w) = (ctx', mq', w')"
  shows "w' = (case log_status ctx ! i of None \<Rightarrow> w | Some f \<Rightarrow> snd (f w)) \<and>
    log_status_progress ctx' = (if Suc i = length (log_status ctx) then -1 else int (Suc i)) \<and>
    last_run ctx' = lw_clock e 0 \<and> log_status ctx' = log_status ctx"
proof -
  have h: "sys_state_hook i (ctx, w) = (ctx\<lparr>log_status_progress := int i + 1\<rparr>,
      case log_status ctx ! i of None \<Rightarrow> w | Some f \<Rightarrow> snd (f w))"
    using hook i by (auto simp: sys_state_hook_def split: option.splits prod.splits)
  have "\<not> lw_clock e 0 - last_run ctx < LOG_STATUS_DELAY_MS" using t by simp
  then show ?thesis
    using r i h send_keeps unfolding sys_state_log_run_def Let_def prod.case
    by (auto split: if_splits prod.splits dest!: send_keeps)
qed

text \<open>Calls that follow each other by 100 ms or more, the first after \<open>t\<close>.\<close>

fun spaced :: "u64 \<Rightarrow> (lwip \<times> ss_env) list \<Rightarrow> bool" where
  "spaced t [] = True"
| "spaced t ((e, s) # es) = (LOG_STATUS_DELAY_MS \<le> lw_clock e 0 - t \<and> spaced (lw_clock e 0) es)"

definition hook_done :: "('w \<Rightarrow> bool \<times> 'w) option \<Rightarrow> bool" where
  "hook_done h = (case h of None \<Rightarrow> True | Some f \<Rightarrow> (\<forall>w. fst (f w)))"

lemma runs_from:
  "log_status_progress ctx = int i \<Longrightarrow> i < length (log_status ctx) \<Longrightarrow> spaced (last_run ctx) es \<Longrightarrow>
   length es = length (log_status ctx) - i \<Longrightarrow> \<forall>h\<in>set (log_status ctx). hook_done h \<Longrightarrow>
   sys_state_runs es (ctx, mq, w) = (ctx', mq', w') \<Longrightarrow>
   w' = run_hooks (drop i (log_status ctx)) w \<and> log_status_progress ctx' = -1 \<and> log_status ctx' = log_status ctx"
proof (induction es arbitrary: i ctx mq w)
  case (Cons es0 es)
  obtain e s where es0: "es0 = (e, s)" by fastforce
  obtain c1 m1 w1 where r: "sys_state_log_run e s (ctx, mq, w) = (c1, m1, w1)" by (rule prod_cases3)
  have hk: "case log_status ctx ! i of None \<Rightarrow> True | Some f \<Rightarrow> fst (f w)"
    using Cons.prems(2,5) by (auto simp: hook_done_def split: option.splits dest!: nth_mem)
  have st: "w1 = (case log_status ctx ! i of None \<Rightarrow> w | Some f \<Rightarrow> snd (f w))"
    "log_status_progress c1 = (if Suc i = length (log_status ctx) then -1 else int (Suc i))"
    "last_run c1 = lw_clock e 0" "log_status c1 = log_status ctx"
    using run_step [OF Cons.prems(1,2) _ hk r] Cons.prems(3) es0 by auto
  have rest: "sys_state_runs es (c1, m1, w1) = (ctx', mq', w')" using Cons.prems(6) es0 r by simp
  have d: "drop i (log_status ctx) = log_status ctx ! i # drop (Suc i) (log_status ctx)"
    using Cons.prems(2) by (simp add: Cons_nth_drop_Suc)
  show ?case
  proof (cases "Suc i = length (log_status ctx)")
    case True
    then have "length (log_status ctx) - i = 1" by arith
    then have "es = []" using Cons.prems(4) by simp
    with rest st True d show ?thesis by simp
  next
    case False
    then have i2: "Suc i < length (log_status c1)" using Cons.prems(2) st(4) by simp
    have "w' = run_hooks (drop (Suc i) (log_status c1)) w1 \<and> log_status_progress ctx' = -1 \<and> log_status ctx' = log_status c1"
      by (rule Cons.IH [OF _ i2 _ _ _ rest]) (use False st Cons.prems(3,4,5) es0 in simp_all)
    with st d show ?thesis by simp
  qed
qed simp

text \<open>
  A status report is complete and in order: started over a table of callbacks that each
  finish at their first call, and run at intervals of 100 ms or more, the report calls every
  registered callback exactly once, in the order of registration, and is over (progress -1)
  after as many calls as there are callbacks; the table is unchanged.
\<close>

lemma status_report_complete:
  assumes "log_status_progress ctx = 0" and "log_status ctx \<noteq> []" and "spaced (last_run ctx) es"
    and "length es = length (log_status ctx)" and "\<forall>h\<in>set (log_status ctx). hook_done h"
    and "sys_state_runs es (ctx, mq, w) = (ctx', mq', w')"
  shows "w' = run_hooks (log_status ctx) w \<and> log_status_progress ctx' = -1 \<and> log_status ctx' = log_status ctx"
  using runs_from [of ctx 0 es mq w ctx' mq' w'] assms by simp

text \<open>
  The configured period is cut to 16 bits: with a number in \<open>SYS_STATE_LOG_SEC\<close> the report
  runs every (number mod 65536) seconds, so one day (86400 s) becomes 20864 s; without the
  parameter it runs every hour.
\<close>

lemma period_is_truncated:
  "case syslog_init cfg True mq of None \<Rightarrow> False
   | Some (ctx, _) \<Rightarrow> unat (periodic_log_ms ctx) =
       (if cfg = None \<or> cfg = Some [] then 3600000 else nat (strtol_val 0 (the cfg) mod 65536) * 1000)"
proof -
  have *: "unat (ucast (word_of_int x :: u16) * 1000 :: u32) = nat (x mod 65536) * 1000" for x
  proof -
    have u: "unat (ucast (word_of_int x :: u16) :: u32) = nat (x mod 65536)"
      by (simp add: unsigned_ucast_eq unsigned_of_int take_bit_eq_mod nat_mod_distrib)
    have "nat (x mod 65536) < 65536" by (simp add: nat_less_iff)
    with u show ?thesis by (simp add: unat_word_ariths(2))
  qed
  show ?thesis
    by (auto simp: syslog_init_def Let_def PERIODIC_LOG_MS_def * Suc_le_eq split: option.splits prod.splits)
qed

section \<open>Witness\<close>

definition quiet_lwip :: "u64 \<Rightarrow> lwip" where
  "quiet_lwip t = \<lparr>lw_wifi = True, lw_connected = False, lw_publish = (\<lambda>_ _. 0), lw_subscribe = (\<lambda>_. 0),
     lw_dns = 0, lw_client_new = True, lw_connect = 0, lw_clock = (\<lambda>_. t)\<rparr>"

definition demo_state :: "nat sys_state" where
  "demo_state = \<lparr>periodic_log_ms = 0, last_log = 0, last_run = 0, ss_debug = 0,
     log_status = [Some (\<lambda>w. (True, w * 10 + 1)), Some (\<lambda>w. (True, w * 10 + 2))], log_status_progress = 0,
     mqtt_comp = [ss_component ''sensor'' ''sys_uptime'']\<rparr>"

definition demo_env :: ss_env where
  "demo_env = \<lparr>time_str = ''now'', uptime_str = ''0'', healthy = True\<rparr>"

lemma status_report_complete_witness:
  "\<exists>ctx' mq'. sys_state_runs [(quiet_lwip 100, demo_env), (quiet_lwip 300, demo_env)]
      (demo_state, None :: nat mqtt_context option, 0) = (ctx', mq', 12) \<and> log_status_progress ctx' = -1"
proof -
  let ?es = "[(quiet_lwip 100, demo_env), (quiet_lwip 300, demo_env)]"
  obtain ctx' mq' w' where r: "sys_state_runs ?es (demo_state, None :: nat mqtt_context option, 0) = (ctx', mq', w')"
    by (rule prod_cases3)
  have 1: "log_status_progress demo_state = 0" "log_status demo_state \<noteq> []" "length ?es = length (log_status demo_state)"
    "\<forall>h\<in>set (log_status demo_state). hook_done h"
    by (simp_all add: demo_state_def hook_done_def)
  have 2: "spaced (last_run demo_state) ?es"
    by (simp add: demo_state_def quiet_lwip_def LOG_STATUS_DELAY_MS_def)
  from status_report_complete [OF 1(1,2) 2 1(3,4) r] r show ?thesis by (simp add: demo_state_def)
qed

end
