(* ===== verification/SysModules.thy ===== *)
theory SysModules
  imports Commands SysState
begin

text \<open>
  The module framework: \<open>libs/common/src/system_modules.c\<close> (the table of modules, the commands
  every module has, jobs that pause modules, the loop that runs them), \<open>system.c\<close> (the main
  loop, reconnection, reboot through the watchdog) and \<open>sys_irq.c\<close> (GPIO interrupt handlers).

  The \<open>bus\<close> is what the callbacks of the modules share: the job flags, the reboot time, the
  request to reconnect, the number of times the watchdog was fed, the clock and the rest of the
  world.  The clock moves only while callbacks run.
\<close>

record 'w bus =
  job_state :: u32
  reboot_time :: u64
  reconnect_req :: bool
  wd_feeds :: nat
  clock :: u64
  world :: 'w

text \<open>The user data of a command hook: the context of a module or the module itself.\<close>

datatype udata = Ctx nat | Mod nat

record 'w sys_module =
  m_name :: string
  m_hooks :: "(udata, 'w bus) app_command list option"
  m_desc :: string
  m_context :: nat
  job_flags :: u32
  m_run :: "(nat \<Rightarrow> 'w bus \<Rightarrow> 'w bus) option"
  m_reconnect :: "(nat \<Rightarrow> 'w bus \<Rightarrow> 'w bus) option"
  m_log :: "(nat \<Rightarrow> 'w bus \<Rightarrow> bool \<times> 'w bus) option"
  m_debug :: "(u32 \<Rightarrow> nat \<Rightarrow> 'w bus \<Rightarrow> 'w bus) option"

type_synonym 'w modules = "'w sys_module list"

definition MAX_MODULES :: nat where "MAX_MODULES = 30"
definition WATCHDOG_TIMEOUT_MS :: int where "WATCHDOG_TIMEOUT_MS = 8300"

section \<open>The watchdog\<close>

definition wd_update :: "'w bus \<Rightarrow> 'w bus" where
  "wd_update b =
     (let b = (if reboot_time b < 1 then b\<lparr>wd_feeds := wd_feeds b + 1\<rparr> else b)
      in if reboot_time b > clock b then b\<lparr>wd_feeds := wd_feeds b + 1\<rparr> else b)"

definition system_force_reboot :: "int \<Rightarrow> 'w bus \<Rightarrow> 'w bus" where
  "system_force_reboot delay_ms b =
     (let b = b\<lparr>reboot_time := clock b\<rparr>
      in if delay_ms > WATCHDOG_TIMEOUT_MS
         then b\<lparr>reboot_time := reboot_time b + word_of_int (delay_ms - WATCHDOG_TIMEOUT_MS)\<rparr> else b)"

definition system_reconnect :: "'w bus \<Rightarrow> 'w bus" where
  "system_reconnect b = b\<lparr>reconnect_req := True\<rparr>"

section \<open>Modules\<close>

definition sys_module_register :: "'w sys_module \<Rightarrow> 'w modules \<Rightarrow> int \<times> 'w modules" where
  "sys_module_register m ms = (if length ms \<ge> MAX_MODULES then (-1, ms) else (0, ms @ [m]))"

definition paused :: "u32 \<Rightarrow> 'w sys_module \<Rightarrow> bool" where
  "paused job m \<longleftrightarrow> job \<noteq> 0 \<and> and job (job_flags m) = 0"

definition run_module :: "'w sys_module \<Rightarrow> 'w bus \<Rightarrow> 'w bus" where
  "run_module m b =
     (case m_run m of None \<Rightarrow> b
      | Some f \<Rightarrow> if paused (job_state b) m then b else wd_update (f (m_context m) b))"

definition sys_modules_run :: "'w modules \<Rightarrow> 'w bus \<Rightarrow> 'w bus" where
  "sys_modules_run ms b = fold run_module ms b"

definition sys_modules_reconnect :: "'w modules \<Rightarrow> 'w bus \<Rightarrow> 'w bus" where
  "sys_modules_reconnect ms b =
     fold (\<lambda>m b. case m_reconnect m of None \<Rightarrow> b | Some f \<Rightarrow> wd_update (f (m_context m) b)) ms b"

definition sys_modules_debug_set :: "u32 \<Rightarrow> 'w modules \<Rightarrow> 'w bus \<Rightarrow> 'w bus" where
  "sys_modules_debug_set debug ms b =
     fold (\<lambda>m b. case m_debug m of None \<Rightarrow> b | Some f \<Rightarrow> f debug (m_context m) b) ms b"

definition sys_modules_log :: "u32 \<Rightarrow> 'w modules \<Rightarrow> (string \<times> bool) list" where
  "sys_modules_log job ms = map (\<lambda>m. (m_name m, paused job m)) ms"

definition sys_job_state_set :: "u32 \<Rightarrow> 'w bus \<Rightarrow> 'w bus" where
  "sys_job_state_set job b = b\<lparr>job_state := or (job_state b) job\<rparr>"

definition sys_job_state_clear :: "u32 \<Rightarrow> 'w bus \<Rightarrow> 'w bus" where
  "sys_job_state_clear job b = b\<lparr>job_state := and (job_state b) (not job)\<rparr>"

text \<open>One turn of the main loop; \<open>log_wd_boot\<close> only prints.\<close>

definition system_common_run :: "'w modules \<Rightarrow> 'w bus \<Rightarrow> 'w bus" where
  "system_common_run ms b =
     (let b = wd_update b;
          b = (if reconnect_req b then (sys_modules_reconnect ms b)\<lparr>reconnect_req := False\<rparr> else b)
      in sys_modules_run ms b)"

section \<open>The commands every module has\<close>

definition cmd_module_debug :: "'w modules \<Rightarrow> (udata, 'w bus) app_command_cb" where
  "cmd_module_debug ms cc cmd params ud b =
     (case ud of Ctx _ \<Rightarrow> Some (0, b)
      | Mod i \<Rightarrow>
          (case m_debug (ms ! i) of None \<Rightarrow> Some (0, b)
           | Some f \<Rightarrow>
               if length params < 2 \<or> params ! 0 \<noteq> CHR '':'' then Some (-1, b)
               else Some (0, f (word_of_int (strtol_val 0 (tl params))) (m_context (ms ! i)) b)))"

text \<open>\<open>do { ret = log(ctx); } while (!ret)\<close>: None when the callback never says it is done.\<close>

partial_function (option) log_until_done :: "('b \<Rightarrow> bool \<times> 'b) \<Rightarrow> 'b \<Rightarrow> 'b option" where
  "log_until_done f b = (let (done, b') = f b in if done then Some b' else log_until_done f b')"

definition cmd_module_status :: "'w modules \<Rightarrow> (udata, 'w bus) app_command_cb" where
  "cmd_module_status ms cc cmd params ud b =
     (case ud of Ctx _ \<Rightarrow> Some (0, b)
      | Mod i \<Rightarrow>
          (case m_log (ms ! i) of None \<Rightarrow> Some (0, b)
           | Some f \<Rightarrow> map_option (\<lambda>b. (0, b)) (log_until_done (f (m_context (ms ! i))) b)))"

definition cmd_mod_help :: "(udata, 'w bus) app_command_cb" where
  "cmd_mod_help cc cmd params ud b = Some (0, b)"

definition module_common_requests :: "'w modules \<Rightarrow> (udata, 'w bus) app_command list" where
  "module_common_requests ms =
     [\<lparr>cmd_name = ''debug'', cmd_descr = '':<debug_flags> - set module debug flags'', cb = Some (cmd_module_debug ms)\<rparr>,
      \<lparr>cmd_name = ''status'', cmd_descr = '' - report module status'', cb = Some (cmd_module_status ms)\<rparr>,
      \<lparr>cmd_name = ''help'', cmd_descr = '' - list commands supported by the module'', cb = Some cmd_mod_help\<rparr>]"

section \<open>Initialisation\<close>

text \<open>The debug mask of a module in the configuration store: \<open>cfg\<close> is \<open>cfgs_param_get\<close>.\<close>

definition sys_module_debug_init :: "(string \<Rightarrow> string option) \<Rightarrow> 'w sys_module \<Rightarrow> 'w bus \<Rightarrow> 'w bus" where
  "sys_module_debug_init cfg m b =
     (case m_debug m of None \<Rightarrow> b
      | Some f \<Rightarrow>
          (case cfg (''dbg_'' @ m_name m) of None \<Rightarrow> b
           | Some v \<Rightarrow> f (word_of_int (strtol_val 0 v)) (m_context m) b))"

type_synonym 'w boot = "(udata, 'w bus) cmd_context option \<times> 'w bus sys_state option \<times> 'w bus"

definition sys_module_init ::
  "(nat \<Rightarrow> nat \<Rightarrow> nat \<Rightarrow> bool) \<Rightarrow> (string \<Rightarrow> string option) \<Rightarrow> 'w modules \<Rightarrow> nat \<Rightarrow> 'w boot \<Rightarrow> 'w boot" where
  "sys_module_init al cfg ms i st =
     (case st of (cmds, ss, b) \<Rightarrow>
       (let m = ms ! i;
            b = sys_module_debug_init cfg m b;
            cmds = (case m_hooks m of None \<Rightarrow> cmds
                    | Some h \<Rightarrow> snd (cmd_handler_add (al i 0) cmds (m_name m) h (m_desc m) (Ctx (m_context m))));
            cmds = snd (cmd_handler_add (al i 1) cmds (m_name m) (module_common_requests ms)
                          ''Common module commands'' (Mod i));
            ss = (case m_log m of None \<Rightarrow> ss
                  | Some f \<Rightarrow> snd (sys_state_callback_add (Some (f (m_context m))) ss))
        in (cmds, ss, b)))"

definition sys_modules_init ::
  "(nat \<Rightarrow> nat \<Rightarrow> nat \<Rightarrow> bool) \<Rightarrow> (string \<Rightarrow> string option) \<Rightarrow> 'w modules \<Rightarrow> 'w boot \<Rightarrow> 'w boot" where
  "sys_modules_init al cfg ms st = fold (sys_module_init al cfg ms) [0 ..< length ms] st"

section \<open>GPIO interrupts\<close>

record 'w sys_gpio_irq =
  irq_hook :: "('w \<Rightarrow> 'w) option"
  event_mask :: u32

definition GPIO_PIN_MIN :: int where "GPIO_PIN_MIN = 0"
definition GPIO_PIN_MAX :: int where "GPIO_PIN_MAX = 28"

type_synonym 'w irq_table = "'w sys_gpio_irq option list"

definition sys_add_irq_callback ::
  "bool \<Rightarrow> int \<Rightarrow> ('w \<Rightarrow> 'w) option \<Rightarrow> u32 \<Rightarrow> 'w irq_table \<Rightarrow> int \<times> 'w irq_table" where
  "sys_add_irq_callback alloc pin hook ev t =
     (if pin < GPIO_PIN_MIN \<or> pin > GPIO_PIN_MAX then (-1, t)
      else if t ! nat pin \<noteq> None then (-1, t)
      else if \<not> alloc then (-1, t)
      else (0, t[nat pin := Some \<lparr>irq_hook = hook, event_mask = ev\<rparr>]))"

definition sys_gpio_irq_handle :: "nat \<Rightarrow> u32 \<Rightarrow> 'w irq_table \<Rightarrow> 'w \<Rightarrow> 'w" where
  "sys_gpio_irq_handle gpio ev t w =
     (if int gpio > GPIO_PIN_MAX then w
      else (case t ! gpio of None \<Rightarrow> w
            | Some h \<Rightarrow> if and (event_mask h) ev = 0 then w
                        else (case irq_hook h of None \<Rightarrow> w | Some f \<Rightarrow> f w)))"

text \<open>The pins whose interrupts are enabled, with their masks.\<close>

definition sys_irq_init :: "'w irq_table \<Rightarrow> (nat \<times> u32) list" where
  "sys_irq_init t = concat (map (\<lambda>i. case t ! i of None \<Rightarrow> []
     | Some h \<Rightarrow> if irq_hook h = None then [] else [(i, event_mask h)]) [0 ..< nat GPIO_PIN_MAX + 1])"

section \<open>Properties\<close>

lemma sys_modules_run_Cons: "sys_modules_run (m # ms) b = sys_modules_run ms (run_module m b)"
  by (simp add: sys_modules_run_def)

lemma wd_update_keeps [simp]:
  "job_state (wd_update b) = job_state b" "reboot_time (wd_update b) = reboot_time b"
  "clock (wd_update b) = clock b" "world (wd_update b) = world b" "reconnect_req (wd_update b) = reconnect_req b"
  by (simp_all add: wd_update_def Let_def)

definition keeps_job :: "'w sys_module \<Rightarrow> bool" where
  "keeps_job m \<longleftrightarrow> (case m_run m of None \<Rightarrow> True | Some f \<Rightarrow> (\<forall>b. job_state (f (m_context m) b) = job_state b))"

text \<open>
  A job pauses the others: while no callback ends the job, a turn over all modules is the
  turn over those only that the job lets run (all of them when there is no job); the paused ones
  do not touch the state.
\<close>

lemma job_pauses_other_modules:
  assumes "\<forall>m\<in>set ms. keeps_job m"
  shows "sys_modules_run ms b = sys_modules_run (filter (\<lambda>m. \<not> paused (job_state b) m) ms) b"
  using assms
proof (induction ms arbitrary: b)
  case (Cons m ms)
  have j: "job_state (run_module m b) = job_state b"
    using Cons.prems by (auto simp: run_module_def keeps_job_def split: option.splits)
  have p: "paused (job_state b) m \<Longrightarrow> run_module m b = b"
    by (simp add: run_module_def split: option.splits)
  show ?case using Cons.IH [of "run_module m b"] Cons.prems j p by (auto simp: sys_modules_run_Cons)
qed (simp add: sys_modules_run_def)

text \<open>Callbacks that leave the watchdog and the reboot time alone and do not turn the clock back.\<close>

definition tame :: "('w bus \<Rightarrow> 'w bus) \<Rightarrow> bool" where
  "tame f \<longleftrightarrow> (\<forall>b. reboot_time (f b) = reboot_time b \<and> clock b \<le> clock (f b) \<and> wd_feeds (f b) = wd_feeds b)"

definition tame_module :: "'w sys_module \<Rightarrow> bool" where
  "tame_module m \<longleftrightarrow> (case m_run m of None \<Rightarrow> True | Some f \<Rightarrow> tame (f (m_context m))) \<and>
     (case m_reconnect m of None \<Rightarrow> True | Some f \<Rightarrow> tame (f (m_context m)))"

definition starved :: "'w bus \<Rightarrow> bool" where
  "starved b \<longleftrightarrow> reboot_time b \<noteq> 0 \<and> reboot_time b \<le> clock b"

lemma wd_update_starved: "starved b \<Longrightarrow> wd_update b = b"
  by (auto simp: starved_def wd_update_def Let_def word_less_1 dest: leD)

lemma starved_step: "starved b \<Longrightarrow> tame f \<Longrightarrow> starved (wd_update (f b)) \<and> wd_feeds (wd_update (f b)) = wd_feeds b"
proof -
  assume "starved b" "tame f"
  then have "starved (f b)" "wd_feeds (f b) = wd_feeds b"
    unfolding tame_def starved_def by (metis order_trans)+
  then show ?thesis by (simp add: wd_update_starved)
qed

lemma starved_fold:
  "\<forall>x\<in>set xs. \<forall>b. starved b \<longrightarrow> starved (g x b) \<and> wd_feeds (g x b) = wd_feeds b \<Longrightarrow> starved b \<Longrightarrow>
   starved (fold g xs b) \<and> wd_feeds (fold g xs b) = wd_feeds b"
  by (induction xs arbitrary: b) auto

lemma starved_turn:
  assumes t: "\<forall>m\<in>set ms. tame_module m" and b: "starved b"
  shows "starved (system_common_run ms b) \<and> wd_feeds (system_common_run ms b) = wd_feeds b"
proof -
  have run: "starved (sys_modules_run ms b') \<and> wd_feeds (sys_modules_run ms b') = wd_feeds b'" if "starved b'" for b'
    unfolding sys_modules_run_def
    by (rule starved_fold [OF _ that])
      (use t in \<open>auto simp: run_module_def tame_module_def starved_step split: option.split\<close>)
  have rec: "starved (sys_modules_reconnect ms b') \<and> wd_feeds (sys_modules_reconnect ms b') = wd_feeds b'"
    if "starved b'" for b'
    unfolding sys_modules_reconnect_def
    by (rule starved_fold [OF _ that])
      (use t in \<open>auto simp: tame_module_def starved_step split: option.splits\<close>)
  have "starved (b'\<lparr>reconnect_req := r\<rparr>) = starved b'" for b' :: "'a bus" and r by (simp add: starved_def)
  then show ?thesis
    using run rec b by (auto simp: system_common_run_def Let_def wd_update_starved)
qed

text \<open>
  A forced reboot happens: from the moment the reboot time is reached the main loop never
  feeds the watchdog again, in any number of turns, pending reconnections included, so the
  watchdog resets the device; before that time, and when no reboot was asked for, every turn
  feeds it.
\<close>

lemma reboot_starves_watchdog:
  assumes "\<forall>m\<in>set ms. tame_module m"
  shows "(reboot_time b \<noteq> 0 \<and> reboot_time b \<le> clock b \<longrightarrow> wd_feeds ((system_common_run ms ^^ n) b) = wd_feeds b) \<and>
    (reboot_time b = 0 \<or> clock b < reboot_time b \<longrightarrow> wd_feeds b < wd_feeds (wd_update b))"
proof -
  have "starved ((system_common_run ms ^^ n) b) \<and> wd_feeds ((system_common_run ms ^^ n) b) = wd_feeds b" if "starved b"
    using that starved_turn [OF assms] by (induction n) auto
  then show ?thesis by (auto simp: starved_def wd_update_def Let_def)
qed

text \<open>
  The reboot delay: the watchdog is left alone, with its 8300 ms to run, exactly
  \<open>delay - 8300\<close> ms after the request (at once for shorter delays), so the reset comes
  \<open>max delay 8300\<close> ms after it, as the message says.
\<close>

lemma reboot_delay:
  assumes "unat (clock b) + nat delay < 2 ^ 64" and "clock b \<noteq> 0"
  shows "unat (reboot_time (system_force_reboot delay b)) + 8300 = unat (clock b) + nat (max delay 8300)"
proof (cases "delay > 8300")
  case True
  define d where "d = nat (delay - 8300)"
  have d: "delay - 8300 = int d" "unat (clock b) + d < 2 ^ 64" "nat delay = d + 8300"
    using True assms(1) unfolding d_def by linarith+
  have "unat (word_of_int (delay - 8300) :: u64) = d"
    using d by (simp add: unsigned_of_nat take_bit_nat_eq_self)
  then have "unat (clock b + word_of_int (delay - 8300)) = unat (clock b) + d"
    using d(2) by (simp add: unat_word_ariths(1))
  with True d show ?thesis by (simp add: system_force_reboot_def WATCHDOG_TIMEOUT_MS_def Let_def max_def)
qed (simp add: system_force_reboot_def WATCHDOG_TIMEOUT_MS_def Let_def)

section \<open>The command table after the initialisation\<close>

definition new_hook :: "'w modules \<Rightarrow> nat \<Rightarrow> (udata, 'w bus) cmd_handler" where
  "new_hook ms i = \<lparr>description = ''Common module commands'', user_data = Mod i,
     cmd_cb = module_common_requests ms\<rparr>"

definition new_handler :: "'w modules \<Rightarrow> nat \<Rightarrow> (udata, 'w bus) cmd_mod_handler" where
  "new_handler ms i = \<lparr>module = m_name (ms ! i), mod_cb =
     (case m_hooks (ms ! i) of None \<Rightarrow> []
      | Some h \<Rightarrow> [\<lparr>description = m_desc (ms ! i), user_data = Ctx (m_context (ms ! i)), cmd_cb = h\<rparr>]) @ [new_hook ms i]\<rparr>"

lemma find_mod_fresh: "m \<notin> set (map module hs) \<Longrightarrow> find_mod m (hs @ [h]) = (if module h = m then Some (length hs) else None)"
  by (induction hs) (auto simp: strncmp_ne_def)

lemma add_fresh:
  assumes "m \<notin> set (map module (handlers c))" and "length (handlers c) < MAX_CMD_MOD_HANDLERS" and "\<forall>i. al i"
  shows "cmd_handler_add al (Some c) m cmds d u =
    (0, Some (c\<lparr>handlers := handlers c @ [\<lparr>module = m, mod_cb = [\<lparr>description = d, user_data = u, cmd_cb = cmds\<rparr>]\<rparr>]\<rparr>))"
proof -
  have "find_mod m (handlers c) = None" using assms(1) by (simp add: find_mod_None)
  then show ?thesis using assms by (simp add: cmd_handler_add_def Let_def nth_append MAX_CMD_MOD_HOOKS_def)
qed

lemma add_second:
  assumes "m \<notin> set (map module hs)" and "\<forall>i. al i" and "handlers c = hs @ [\<lparr>module = m, mod_cb = [x]\<rparr>]"
  shows "cmd_handler_add al (Some c) m cmds d u =
    (0, Some (c\<lparr>handlers := hs @ [\<lparr>module = m, mod_cb = [x, \<lparr>description = d, user_data = u, cmd_cb = cmds\<rparr>]\<rparr>]\<rparr>))"
proof -
  have "find_mod m (handlers c) = Some (length hs)" using assms by (simp add: find_mod_fresh)
  then show ?thesis using assms by (simp add: cmd_handler_add_def Let_def nth_append MAX_CMD_MOD_HOOKS_def)
qed

lemma module_init_handler:
  assumes "m_name (ms ! i) \<notin> set (map module (handlers c))" and "length (handlers c) < MAX_CMD_MOD_HANDLERS"
    and "\<forall>i j k. al i j k"
  shows "\<exists>ss' b'. sys_module_init al cfg ms i (Some c, ss, b) =
    (Some (c\<lparr>handlers := handlers c @ [new_handler ms i]\<rparr>), ss', b')"
proof (cases "m_hooks (ms ! i)")
  case None
  then show ?thesis
    using add_fresh [OF assms(1,2), of "al i 1"] assms(3)
    by (simp add: sys_module_init_def Let_def new_handler_def new_hook_def)
next
  case (Some h)
  let ?u = "Ctx (m_context (ms ! i))"
  let ?c1 = "c\<lparr>handlers := handlers c @ [\<lparr>module = m_name (ms ! i), mod_cb =
    [\<lparr>description = m_desc (ms ! i), user_data = ?u, cmd_cb = h\<rparr>]\<rparr>]\<rparr>"
  have a: "cmd_handler_add (al i 0) (Some c) (m_name (ms ! i)) h (m_desc (ms ! i)) ?u = (0, Some ?c1)"
    by (rule add_fresh [OF assms(1,2)]) (use assms(3) in blast)
  have "cmd_handler_add (al i (Suc 0)) (Some ?c1) (m_name (ms ! i)) cmds d u = (0, Some (?c1\<lparr>handlers :=
      handlers c @ [\<lparr>module = m_name (ms ! i), mod_cb =
      [\<lparr>description = m_desc (ms ! i), user_data = ?u, cmd_cb = h\<rparr>, \<lparr>description = d, user_data = u, cmd_cb = cmds\<rparr>]\<rparr>]\<rparr>))"
    for cmds d u
    by (rule add_second [OF assms(1)]) (use assms(3) in auto)
  with a Some show ?thesis
    by (simp add: sys_module_init_def Let_def new_handler_def new_hook_def)
qed

lemma modules_init_prefix:
  assumes "distinct (map m_name ms)" and "length ms \<le> MAX_MODULES" and "\<forall>i j k. al i j k"
  shows "n \<le> length ms \<Longrightarrow> \<exists>ss' b'. fold (sys_module_init al cfg ms) [0 ..< n] (Some sys_cmd_init, ss, b) =
    (Some \<lparr>handlers = map (new_handler ms) [0 ..< n], cmd_debug = 0\<rparr>, ss', b')"
proof (induction n)
  case 0
  then show ?case by (simp add: sys_cmd_init_def)
next
  case (Suc n)
  then obtain ss' b' where f: "fold (sys_module_init al cfg ms) [0 ..< n] (Some sys_cmd_init, ss, b) =
    (Some \<lparr>handlers = map (new_handler ms) [0 ..< n], cmd_debug = 0\<rparr>, ss', b')" by auto
  let ?c = "\<lparr>handlers = map (new_handler ms) [0 ..< n], cmd_debug = 0\<rparr>"
  have 1: "m_name (ms ! n) \<notin> set (map module (handlers ?c))"
    using assms(1) Suc.prems by (auto simp: new_handler_def distinct_conv_nth)
  have 2: "length (handlers ?c) < MAX_CMD_MOD_HANDLERS"
    using Suc.prems assms(2) by (simp add: MAX_MODULES_def MAX_CMD_MOD_HANDLERS_def)
  from module_init_handler [OF 1 2 assms(3), of cfg ss' b'] show ?case by (simp add: f)
qed

text \<open>Names without the separators, and no own command called like a common one.\<close>

definition names_ok :: "'w modules \<Rightarrow> bool" where
  "names_ok ms \<longleftrightarrow> distinct (map m_name ms) \<and> length ms \<le> MAX_MODULES \<and>
     (\<forall>m\<in>set ms. CHR ''?'' \<notin> set (m_name m) \<and>
       (\<forall>h\<in>set_option (m_hooks m). \<forall>a\<in>set h. CHR '':'' \<notin> set (cmd_name a) \<and>
          cmd_name a \<notin> {''debug'', ''status'', ''help''}))"

lemma init_names_ok: "names_ok ms \<Longrightarrow> n \<le> length ms \<Longrightarrow>
   cmd_names_ok \<lparr>handlers = map (new_handler ms) [0 ..< n], cmd_debug = 0\<rparr>"
  by (fastforce simp: cmd_names_ok_def new_handler_def new_hook_def module_common_requests_def names_ok_def
      split: option.splits)

lemma find_new_handler:
  assumes "distinct (map m_name ms)" and "n \<le> length ms" and "i < n"
  shows "find (\<lambda>h. module h = m_name (ms ! i)) (map (new_handler ms) [0 ..< n]) = Some (new_handler ms i)"
  using assms(2,3)
proof (induction n)
  case (Suc n)
  show ?case
  proof (cases "i = n")
    case True
    have "find (\<lambda>h. module h = m_name (ms ! n)) (map (new_handler ms) [0 ..< n]) = None"
      using assms(1) Suc.prems by (auto simp: find_None_iff new_handler_def distinct_conv_nth)
    then show ?thesis using True by (simp add: find_append) (simp add: new_handler_def)
  next
    case False
    then show ?thesis using Suc by (simp add: find_append)
  qed
qed simp

lemma own_hooks_skip:
  assumes "names_ok ms" and "i < length ms" and "n \<in> {''debug'', ''status'', ''help''}"
  shows "find (\<lambda>(a, u). cb a \<noteq> None \<and> cmd_name a = n)
     (concat (map (\<lambda>h. map (\<lambda>a. (a, user_data h)) (cmd_cb h)) (mod_cb (new_handler ms i)))) =
     find (\<lambda>(a, u). cb a \<noteq> None \<and> cmd_name a = n) (map (\<lambda>a. (a, Mod i)) (module_common_requests ms))"
proof (cases "m_hooks (ms ! i)")
  case None
  then show ?thesis by (simp add: new_handler_def new_hook_def)
next
  case (Some h)
  have "\<forall>a\<in>set h. cmd_name a \<noteq> n"
    using assms Some nth_mem [OF assms(2)] by (fastforce simp: names_ok_def)
  then have "find (\<lambda>a. cb a \<noteq> None \<and> cmd_name a = n) h = None" by (auto simp: find_None_iff)
  then show ?thesis
    using Some by (simp add: new_handler_def new_hook_def find_append find_map_pair)
qed

lemma cmd_exec_common:
  assumes ok: "names_ok ms" and i: "i < length ms" and a: "a \<in> set (module_common_requests ms)"
    and f: "cb a = Some f" and p: "params = [] \<or> hd params = CHR '':''"
  shows "cmd_exec (Some \<lparr>handlers = map (new_handler ms) [0 ..< length ms], cmd_debug = 0\<rparr>) cc
    (Some (m_name (ms ! i) @ ''?'' @ cmd_name a @ params)) w = f cc (cmd_name a) params (Mod i) w"
proof -
  let ?c = "\<lparr>handlers = map (new_handler ms) [0 ..< length ms], cmd_debug = 0\<rparr>"
  let ?s = "m_name (ms ! i) @ ''?'' @ cmd_name a @ params"
  have d: "distinct (map m_name ms)" and q: "CHR ''?'' \<notin> set (m_name (ms ! i))"
    using ok nth_mem [OF i] by (auto simp: names_ok_def)
  have nm: "cmd_name a \<in> {''debug'', ''status'', ''help''}" "CHR '':'' \<notin> set (cmd_name a)"
    using a by (auto simp: module_common_requests_def)
  have m: "takeWhile (\<lambda>x. x \<noteq> CHR ''?'') ?s = m_name (ms ! i)"
    "dropWhile (\<lambda>x. x \<noteq> CHR ''?'') ?s = ''?'' @ cmd_name a @ params"
    using q by (simp_all add: c_str)
  have n: "takeWhile (\<lambda>x. x \<noteq> CHR '':'') (cmd_name a @ params) = cmd_name a"
    using nm(2) p by (cases params) (auto simp: c_str)
  have "find (\<lambda>(x, u). cb x \<noteq> None \<and> cmd_name x = cmd_name a)
      (map (\<lambda>a. (a, Mod i)) (module_common_requests ms)) = Some (a, Mod i)"
    using a unfolding module_common_requests_def set_simps empty_iff insert_iff by (elim disjE FalseE; simp)
  then have "cmd_lookup ?c (m_name (ms ! i)) (cmd_name a) = Some (a, Mod i)"
    unfolding cmd_lookup_def cmd_context.select_convs find_new_handler [OF d order_refl i] option.case
      own_hooks_skip [OF ok i nm(1)] .
  then show ?thesis
    using cmd_exec_lookup [OF init_names_ok [OF ok order_refl], of cc ?s w] f m n
    by (simp add: cmd_spec_def Let_def)
qed

lemma common_commands:
  assumes "names_ok ms" and "\<forall>i j k. al i j k"
    and "sys_modules_init al cfg ms (Some sys_cmd_init, ss, b) = (cmds, ss', b')" and "i < length ms"
  shows "(\<forall>f v w. m_debug (ms ! i) = Some f \<and> v \<noteq> [] \<longrightarrow>
      cmd_exec cmds cc (Some (m_name (ms ! i) @ ''?debug:'' @ v)) w =
        Some (0, f (word_of_int (strtol_val 0 v)) (m_context (ms ! i)) w)) \<and>
    (\<forall>f w. m_log (ms ! i) = Some f \<longrightarrow> cmd_exec cmds cc (Some (m_name (ms ! i) @ ''?status'')) w =
        map_option (\<lambda>b. (0, b)) (log_until_done (f (m_context (ms ! i))) w)) \<and>
    (\<forall>w. cmd_exec cmds cc (Some (m_name (ms ! i) @ ''?help'')) w = Some (0, w))"
proof -
  have cmds: "cmds = Some \<lparr>handlers = map (new_handler ms) [0 ..< length ms], cmd_debug = 0\<rparr>"
    using modules_init_prefix [of ms al "length ms" cfg ss b] assms(1-3)
    by (auto simp: names_ok_def sys_modules_init_def)
  have mem: "\<lparr>cmd_name = ''debug'', cmd_descr = '':<debug_flags> - set module debug flags'', cb = Some (cmd_module_debug ms)\<rparr>
      \<in> set (module_common_requests ms)"
    "\<lparr>cmd_name = ''status'', cmd_descr = '' - report module status'', cb = Some (cmd_module_status ms)\<rparr>
      \<in> set (module_common_requests ms)"
    "\<lparr>cmd_name = ''help'', cmd_descr = '' - list commands supported by the module'', cb = Some cmd_mod_help\<rparr>
      \<in> set (module_common_requests ms)"
    by (simp_all add: module_common_requests_def)
  show ?thesis
    using cmd_exec_common [OF assms(1,4) mem(1), of _ "'':'' @ _" cc]
      cmd_exec_common [OF assms(1,4) mem(2), of _ "[]" cc] cmd_exec_common [OF assms(1,4) mem(3), of _ "[]" cc]
    by (simp add: cmds cmd_module_debug_def cmd_module_status_def cmd_mod_help_def Suc_le_eq)
qed


text \<open>
  Repeating a status callback ends when each unfinished call makes progress, with the state of a
  call that said it is done.
\<close>

lemma log_until_done_ends:
  "(\<And>b. \<not> fst (f b) \<Longrightarrow> \<mu> (snd (f b)) < (\<mu> b :: nat)) \<Longrightarrow> \<exists>b0 b'. log_until_done f b = Some b' \<and> f b0 = (True, b')"
proof (induction "\<mu> b" arbitrary: b rule: less_induct)
  case less
  show ?case
  proof (cases "fst (f b)")
    case True
    then show ?thesis by (subst log_until_done.simps) (metis (mono_tags, lifting) case_prod_conv prod.collapse)
  next
    case False
    with less.hyps [of "snd (f b)"] less.prems show ?thesis
      by (subst log_until_done.simps) (auto simp: case_prod_beta)
  qed
qed

section \<open>Interrupts\<close>

text \<open>
  An interrupt handler is called for its pin and events only: registration succeeds exactly
  on a free pin from 0 to 28, refuses a second handler for a pin, and after it an event on the
  pin runs the handler when the event is in its mask, while the other pins behave as before.
\<close>

lemma irq_dispatch:
  assumes t: "length t = 29" and add: "sys_add_irq_callback True pin (Some f) ev t = (r, t')"
  shows "(r = 0 \<longleftrightarrow> 0 \<le> pin \<and> pin \<le> 28 \<and> t ! nat pin = None) \<and> length t' = 29 \<and>
    (r = 0 \<longrightarrow> (\<forall>g e w. sys_gpio_irq_handle g e t' w =
        (if int g = pin then (if and ev e = 0 then w else f w) else sys_gpio_irq_handle g e t w)) \<and>
      fst (sys_add_irq_callback True pin h ev' t') = -1) \<and>
    (r \<noteq> 0 \<longrightarrow> t' = t)"
  using assms
  by (auto simp: sys_add_irq_callback_def sys_gpio_irq_handle_def GPIO_PIN_MIN_def GPIO_PIN_MAX_def
      nth_list_update split: if_splits)

section \<open>Witnesses\<close>

definition demo_bus :: "nat bus" where
  "demo_bus = \<lparr>job_state = 1, reboot_time = 0, reconnect_req = False, wd_feeds = 0, clock = 1000, world = 0\<rparr>"

text \<open>A module that adds its context to the world at each turn and sets it by its debug command.\<close>

definition demo_module :: "string \<Rightarrow> nat \<Rightarrow> u32 \<Rightarrow> nat sys_module" where
  "demo_module nm c jf = \<lparr>m_name = nm, m_hooks = None, m_desc = [], m_context = c, job_flags = jf,
     m_run = Some (\<lambda>c b. b\<lparr>world := world b + c\<rparr>), m_reconnect = None,
     m_log = Some (\<lambda>c b. (True, b)), m_debug = Some (\<lambda>l c b. b\<lparr>world := unat l\<rparr>)\<rparr>"

lemma job_pauses_other_modules_witness:
  "world (sys_modules_run [demo_module ''ssr'' 5 0, demo_module ''ota'' 7 1] demo_bus) = 7"
proof -
  have k: "\<forall>m\<in>set [demo_module ''ssr'' 5 0, demo_module ''ota'' 7 1]. keeps_job m"
    by (simp add: keeps_job_def demo_module_def)
  show ?thesis
    unfolding job_pauses_other_modules [OF k, of demo_bus]
    by (simp add: sys_modules_run_def demo_module_def demo_bus_def paused_def run_module_def)
qed

lemma reboot_starves_watchdog_witness:
  "wd_feeds ((system_common_run [demo_module ''ssr'' 5 0] ^^ 3) (demo_bus\<lparr>reboot_time := 900\<rparr>)) = 0 \<and>
   0 < wd_feeds (wd_update demo_bus)"
proof -
  have t: "\<forall>m\<in>set [demo_module ''ssr'' 5 0]. tame_module m"
    by (simp add: tame_module_def tame_def demo_module_def)
  from reboot_starves_watchdog [OF t, of "demo_bus\<lparr>reboot_time := 900\<rparr>" 3] reboot_starves_watchdog [OF t, of demo_bus 0]
  show ?thesis by (simp add: demo_bus_def)
qed

lemma reboot_delay_witness: "unat (reboot_time (system_force_reboot 10000 demo_bus)) = 2700"
  using reboot_delay [of demo_bus 10000] by (simp add: demo_bus_def)


lemma irq_dispatch_witness:
  "\<exists>t'. sys_add_irq_callback True 4 (Some Suc) 8 (replicate 29 None) = (0, t') \<and> sys_gpio_irq_handle 4 12 t' 0 = 1"
proof -
  obtain r t' where a: "sys_add_irq_callback True 4 (Some Suc) 8 (replicate 29 None) = (r, t')" by fastforce
  have "r = 0" using irq_dispatch [OF _ a, of None 0] by simp
  moreover from this have "sys_gpio_irq_handle 4 12 t' 0 = 1" using irq_dispatch [OF _ a, of None 0] by simp
  ultimately show ?thesis using a by blast
qed

end
