(* ===== verification/CfgStore.thy ===== *)
theory CfgStore
  imports Codec SysUtils Commands
begin

text \<open>
  The configuration store, \<open>libs/common/services/cfg_store/cfg_store.c\<close>: parameters kept as
  base64 files under \<open>/device_cfg\<close>, the table of known parameter names, and the commands
  \<open>set\<close>, \<open>del\<close>, \<open>purge\<close>, \<open>reset\<close>, \<open>list\<close>.

  The flash file system (pico_hal over littlefs) is not part of the sources: it is the record
  \<open>hal\<close> of the calls the store makes, over a state \<open>'f\<close>, and \<open>hal_ok\<close> states what the store
  relies on.  A result None is a NULL string handed to \<open>strlen\<close>.  \<open>al i\<close> tells whether the i-th
  allocation of a call succeeds.
\<close>

definition CFG_DIR :: string where "CFG_DIR = ''/device_cfg''"
definition MAX_VARS :: nat where "MAX_VARS = 100"
definition BUFF_SIZE :: nat where "BUFF_SIZE = 300"

section \<open>The file system\<close>

text \<open>
  \<open>hal_read p n\<close> opens \<open>p\<close>, reads at most \<open>n\<close> bytes and closes (None: it cannot be opened; a
  read error reads nothing); \<open>hal_open_w\<close> creates or truncates; \<open>hal_write\<close> writes into the file
  just opened and returns the bytes written; \<open>hal_close_w\<close> closes it, which is when littlefs commits,
  and can fail; \<open>hal_dir\<close> lists the entries that successive reads of
  a directory return, with whether they are regular files.
\<close>

record 'f hal =
  hal_read :: "string \<Rightarrow> nat \<Rightarrow> 'f \<Rightarrow> string option"
  hal_open_w :: "string \<Rightarrow> 'f \<Rightarrow> 'f option"
  hal_write :: "string \<Rightarrow> string \<Rightarrow> 'f \<Rightarrow> nat \<times> 'f"
  hal_close_w :: "string \<Rightarrow> 'f \<Rightarrow> int \<times> 'f"
  hal_remove :: "string \<Rightarrow> 'f \<Rightarrow> int \<times> 'f"
  hal_dir :: "string \<Rightarrow> 'f \<Rightarrow> (string \<times> bool) list option"

text \<open>
  What the store relies on is said of files of its directory with plain names of at most 255 bytes:
  other paths may be names of the same file.  A file has the bytes written to it once the writing
  and the closing have succeeded; an operation on one file leaves the others alone; a file is gone
  after a removal that has succeeded.
\<close>

definition plain_name :: "string \<Rightarrow> bool" where
  "plain_name n \<longleftrightarrow> n \<noteq> [] \<and> length n \<le> 255 \<and> CHR ''/'' \<notin> set n \<and> n \<noteq> ''.'' \<and> n \<noteq> ''..''"

definition plain_path :: "string \<Rightarrow> bool" where
  "plain_path p \<longleftrightarrow> (\<exists>n. plain_name n \<and> p = CFG_DIR @ ''/'' @ n)"

definition hal_stores :: "'f hal \<Rightarrow> bool" where
  "hal_stores h \<longleftrightarrow> (\<forall>p d f f1 f2 r f3. plain_path p \<longrightarrow> hal_open_w h p f = Some f1 \<longrightarrow>
     hal_write h p d f1 = (length d, f2) \<longrightarrow> hal_close_w h p f2 = (r, f3) \<longrightarrow> 0 \<le> r \<longrightarrow>
     (\<forall>k. hal_read h p k f3 = Some (take k d)))"

definition hal_local :: "'f hal \<Rightarrow> bool" where
  "hal_local h \<longleftrightarrow> (\<forall>p q d f k. plain_path p \<longrightarrow> plain_path q \<longrightarrow> p \<noteq> q \<longrightarrow>
     (\<forall>f1. hal_open_w h p f = Some f1 \<longrightarrow> hal_read h q k f1 = hal_read h q k f) \<and>
     hal_read h q k (snd (hal_write h p d f)) = hal_read h q k f \<and>
     hal_read h q k (snd (hal_close_w h p f)) = hal_read h q k f \<and>
     hal_read h q k (snd (hal_remove h p f)) = hal_read h q k f)"

definition hal_forgets :: "'f hal \<Rightarrow> bool" where
  "hal_forgets h \<longleftrightarrow> (\<forall>p f k r f'. plain_path p \<longrightarrow> hal_remove h p f = (r, f') \<longrightarrow> 0 \<le> r \<longrightarrow> hal_read h p k f' = None)"

definition hal_ok :: "'f hal \<Rightarrow> bool" where
  "hal_ok h \<longleftrightarrow> hal_stores h \<and> hal_local h \<and> hal_forgets h"

section \<open>State\<close>

text \<open>
  \<open>cfg_params\<close> is the part of the array up to its first NULL; an entry without a name is one
  whose \<open>strdup\<close> failed.
\<close>

record cfgs_context =
  cfg_params :: "string option list"
  cfg_count :: nat
  cfg_debug :: u32

definition cfg_path :: "string \<Rightarrow> string" where
  "cfg_path name = take (BUFF_SIZE - 1) (CFG_DIR @ ''/'' @ name)"

definition sys_cfgs_debug_set :: "u32 \<Rightarrow> cfgs_context \<Rightarrow> cfgs_context" where
  "sys_cfgs_debug_set lvl ctx = ctx\<lparr>cfg_debug := lvl\<rparr>"

definition sys_cfgs_init ::
  "'f hal \<Rightarrow> bool \<Rightarrow> bool \<Rightarrow> ('f \<Rightarrow> 'f) \<Rightarrow> 'f \<Rightarrow> cfgs_context option \<times> 'f" where
  "sys_cfgs_init h mounted alloc mkdir f =
     (if \<not> mounted then (None, f) else if \<not> alloc then (None, f)
      else (Some \<lparr>cfg_params = [], cfg_count = 0, cfg_debug = 0\<rparr>,
            if hal_dir h CFG_DIR f = None then mkdir f else f))"

section \<open>The table\<close>

text \<open>Inner None: not found.  Outer None: the scan meets an entry without a name.\<close>

fun cfgs_param_find :: "string \<Rightarrow> string option list \<Rightarrow> nat option option" where
  "cfgs_param_find name [] = Some None"
| "cfgs_param_find name (None # ps) = None"
| "cfgs_param_find name (Some n # ps) =
     (if n = name then Some (Some 0) else map_option (map_option Suc) (cfgs_param_find name ps))"

definition cfgs_param_register :: "(nat \<Rightarrow> bool) \<Rightarrow> string \<Rightarrow> cfgs_context \<Rightarrow> bool \<times> cfgs_context" where
  "cfgs_param_register al name ctx =
     (let ps = take (cfg_count ctx) (cfg_params ctx) in
      if cfg_count ctx \<ge> MAX_VARS then (False, ctx)
      else if \<not> al 0 then (False, ctx\<lparr>cfg_params := ps\<rparr>)
      else if \<not> al 1 then (False, ctx\<lparr>cfg_params := ps @ [None]\<rparr>)
      else (True, ctx\<lparr>cfg_params := ps @ [Some name], cfg_count := cfg_count ctx + 1\<rparr>))"

section \<open>Reading and writing\<close>

definition cfgs_param_read :: "'f hal \<Rightarrow> string \<Rightarrow> 'f \<Rightarrow> string option" where
  "cfgs_param_read h name f =
     (case hal_read h (cfg_path name) BUFF_SIZE f of None \<Rightarrow> None
      | Some s \<Rightarrow> if length s > 1 then base64_decode s else None)"

definition cfgs_param_store ::
  "'f hal \<Rightarrow> (nat \<Rightarrow> bool) \<Rightarrow> string \<Rightarrow> string option \<Rightarrow> cfgs_context \<Rightarrow> 'f \<Rightarrow> (int \<times> cfgs_context \<times> 'f) option" where
  "cfgs_param_store h al name val ctx f =
     (case cfgs_param_find name (cfg_params ctx) of None \<Rightarrow> None
      | Some found \<Rightarrow>
          (let ctx = (if found = None then snd (cfgs_param_register al name ctx) else ctx) in
           case hal_open_w h (cfg_path name) f of None \<Rightarrow> Some (-1, ctx, f)
           | Some f1 \<Rightarrow>
               (case val of None \<Rightarrow> None
                | Some v \<Rightarrow>
                    if \<not> al 2 then Some (-1, ctx, snd (hal_close_w h (cfg_path name) f1))
                    else
                      (let enc = base64_encode v; (sz, f2) = hal_write h (cfg_path name) enc f1
                       in Some (if sz = length enc then 0 else -1, ctx, snd (hal_close_w h (cfg_path name) f2))))))"

definition cfgs_param_remove :: "'f hal \<Rightarrow> string \<Rightarrow> 'f \<Rightarrow> 'f" where
  "cfgs_param_remove h name f = snd (hal_remove h (cfg_path name) f)"

section \<open>API\<close>

definition cfgs_param_get ::
  "'f hal \<Rightarrow> (nat \<Rightarrow> bool) \<Rightarrow> string \<Rightarrow> cfgs_context option \<Rightarrow> 'f \<Rightarrow> (string option \<times> cfgs_context option) option" where
  "cfgs_param_get h al name c f =
     (case c of None \<Rightarrow> Some (None, None)
      | Some ctx \<Rightarrow>
          (case cfgs_param_find name (cfg_params ctx) of None \<Rightarrow> None
           | Some (Some i) \<Rightarrow> Some (cfgs_param_read h name f, Some ctx)
           | Some None \<Rightarrow>
               (let (ok, ctx) = cfgs_param_register al name ctx
                in Some (if ok then cfgs_param_read h name f else None, Some ctx))))"

definition cfgs_param_check ::
  "'f hal \<Rightarrow> (nat \<Rightarrow> bool) \<Rightarrow> string \<Rightarrow> cfgs_context option \<Rightarrow> 'f \<Rightarrow> (bool \<times> cfgs_context option) option" where
  "cfgs_param_check h al name c f =
     (case c of None \<Rightarrow> Some (False, None)
      | Some ctx \<Rightarrow>
          (case cfgs_param_find name (cfg_params ctx) of None \<Rightarrow> None
           | Some (Some i) \<Rightarrow> Some (True, Some ctx)
           | Some None \<Rightarrow>
               (if cfgs_param_read h name f = None then Some (False, Some ctx)
                else Some (True, Some (snd (cfgs_param_register al name ctx))))))"

definition cfgs_param_set ::
  "'f hal \<Rightarrow> (nat \<Rightarrow> bool) \<Rightarrow> string \<Rightarrow> string \<Rightarrow> cfgs_context option \<Rightarrow> 'f
   \<Rightarrow> (int \<times> cfgs_context option \<times> 'f) option" where
  "cfgs_param_set h al name val c f =
     (case c of None \<Rightarrow> Some (-1, None, f)
      | Some ctx \<Rightarrow> map_option (\<lambda>(r, ctx, f). (r, Some ctx, f)) (cfgs_param_store h al name (Some val) ctx f))"

definition cfgs_param_del :: "'f hal \<Rightarrow> string \<Rightarrow> cfgs_context option \<Rightarrow> 'f \<Rightarrow> int \<times> 'f" where
  "cfgs_param_del h name c f = (case c of None \<Rightarrow> (-1, f) | Some _ \<Rightarrow> (0, cfgs_param_remove h name f))"

section \<open>Commands\<close>

text \<open>\<open>purge\<close>: remove the regular files whose names are not in the table.\<close>

fun purge_entries :: "'f hal \<Rightarrow> string option list \<Rightarrow> (string \<times> bool) list \<Rightarrow> 'f \<Rightarrow> 'f option" where
  "purge_entries h ps [] f = Some f"
| "purge_entries h ps ((n, reg) # es) f =
     (if \<not> reg then purge_entries h ps es f
      else (case cfgs_param_find n ps of None \<Rightarrow> None
            | Some None \<Rightarrow> purge_entries h ps es (snd (hal_remove h (cfg_path n) f))
            | Some (Some _) \<Rightarrow> purge_entries h ps es f))"

definition cfgs_purge_uknown :: "'f hal \<Rightarrow> cfgs_context \<Rightarrow> 'f \<Rightarrow> 'f option" where
  "cfgs_purge_uknown h ctx f =
     (case hal_dir h CFG_DIR f of None \<Rightarrow> Some f | Some es \<Rightarrow> purge_entries h (cfg_params ctx) es f)"

text \<open>
  \<open>reset\<close>: remove the first entry of the directory until it is empty.  None: it never is.
\<close>

partial_function (option) cfgs_reset_all :: "'f hal \<Rightarrow> 'f \<Rightarrow> 'f option" where
  "cfgs_reset_all h f =
     (case hal_dir h CFG_DIR f of None \<Rightarrow> Some f
      | Some [] \<Rightarrow> Some f
      | Some (e # es) \<Rightarrow> cfgs_reset_all h (snd (hal_remove h (cfg_path (fst e)) f)))"

text \<open>\<open>list\<close>: the known names, each with whether it is stored.\<close>

definition cfgs_list_cmd :: "'f hal \<Rightarrow> cfgs_context \<Rightarrow> 'f \<Rightarrow> (string option \<times> bool) list" where
  "cfgs_list_cmd h ctx f =
     map (\<lambda>p. (p, case p of None \<Rightarrow> False | Some n \<Rightarrow> hal_read h (cfg_path n) 0 f \<noteq> None))
       (take (cfg_count ctx) (cfg_params ctx))"

definition cfgs_set_cmd ::
  "'f hal \<Rightarrow> (nat \<Rightarrow> bool) \<Rightarrow> string \<Rightarrow> cfgs_context \<Rightarrow> 'f \<Rightarrow> (int \<times> cfgs_context \<times> 'f) option" where
  "cfgs_set_cmd h al params ctx f =
     (if params = [] \<or> hd params \<noteq> CHR '':'' \<or> length params < 2 then Some (-1, ctx, f)
      else (case strtok_r (CHR '':'') (Some params) of
              (None, _) \<Rightarrow> Some (-1, ctx, f)
            | (Some name, rest) \<Rightarrow>
                map_option (\<lambda>(r, ctx, f). (if r < 0 then -1 else 0, ctx, f))
                  (cfgs_param_store h al name rest ctx f)))"

definition cfgs_del_cmd :: "'f hal \<Rightarrow> string \<Rightarrow> 'f \<Rightarrow> int \<times> 'f" where
  "cfgs_del_cmd h params f =
     (if params = [] \<or> hd params \<noteq> CHR '':'' \<or> length params < 2 then (-1, f)
      else (case strtok_r (CHR '':'') (Some params) of
              (None, _) \<Rightarrow> (-1, f)
            | (Some name, rest) \<Rightarrow> (0, cfgs_param_remove h name f)))"

section \<open>Well-formed tables\<close>

text \<open>Every counted entry has a name, the names are distinct, and at most one entry without a
  name follows them.\<close>

definition cfgs_ok :: "cfgs_context \<Rightarrow> bool" where
  "cfgs_ok ctx \<longleftrightarrow> cfg_count ctx \<le> MAX_VARS \<and>
     (\<exists>ns. distinct ns \<and> length ns = cfg_count ctx \<and>
       (cfg_params ctx = map Some ns \<or> (cfg_params ctx = map Some ns @ [None] \<and> cfg_count ctx < MAX_VARS)))"

lemma find_map_Some: "cfgs_param_find name (map Some ns) = Some None \<longleftrightarrow> name \<notin> set ns"
  by (induction ns) auto

lemma find_not_None: "cfgs_param_find name (map Some ns) \<noteq> None"
  by (induction ns) auto

lemma find_broken: "cfgs_param_find name (map Some ns @ [None]) \<noteq> Some None"
  by (induction ns) auto

lemma register_ok:
  assumes "cfgs_ok ctx" and "cfgs_param_find name (cfg_params ctx) = Some None"
  shows "cfgs_ok (snd (cfgs_param_register al name ctx))"
proof -
  obtain ns where ns: "distinct ns" "length ns = cfg_count ctx" "cfg_params ctx = map Some ns"
    and c: "cfg_count ctx \<le> MAX_VARS"
    using assms find_broken by (auto simp: cfgs_ok_def)
  have n: "name \<notin> set ns" using assms(2) ns(3) by (simp add: find_map_Some)
  have k: "length ns = m \<Longrightarrow> take m (map Some ns) = map Some ns" for m by simp
  show ?thesis
  proof (cases "cfg_count ctx < MAX_VARS")
    case True
    have "distinct (ns @ [name])" "length (ns @ [name]) = Suc (cfg_count ctx)" using ns n by auto
    then show ?thesis
      using True ns k [OF ns(2)]
      by (auto simp: cfgs_param_register_def Let_def cfgs_ok_def intro: exI [of _ ns] exI [of _ "ns @ [name]"])
  qed (use assms(1) in \<open>simp add: cfgs_param_register_def\<close>)
qed

lemma register_fields:
  "cfg_count ctx < MAX_VARS \<Longrightarrow> al 0 \<Longrightarrow> al 1 \<Longrightarrow> cfgs_param_register al name ctx =
    (True, ctx\<lparr>cfg_params := take (cfg_count ctx) (cfg_params ctx) @ [Some name], cfg_count := cfg_count ctx + 1\<rparr>)"
  by (simp add: cfgs_param_register_def)

text \<open>
  The parameter table stays well formed under every operation, failed allocations and
  failed writes included: at most 100 entries, all of them named and distinct, and at most one
  unnamed entry after them.
\<close>

lemma cfgs_invariant:
  assumes "cfgs_ok ctx"
  shows "(\<forall>r ctx' f'. cfgs_param_store h al name val ctx f = Some (r, ctx', f') \<longrightarrow> cfgs_ok ctx') \<and>
    (\<forall>v ctx'. cfgs_param_get h al name (Some ctx) f = Some (v, Some ctx') \<longrightarrow> cfgs_ok ctx') \<and>
    (\<forall>b ctx'. cfgs_param_check h al name (Some ctx) f = Some (b, Some ctx') \<longrightarrow> cfgs_ok ctx')"
  using assms register_ok [OF assms, of name al]
  by (auto simp: cfgs_param_store_def cfgs_param_get_def cfgs_param_check_def Let_def case_prod_beta
      split: option.splits if_splits)

section \<open>What is stored is read back\<close>

lemma cfg_path_eq: "plain_name n \<Longrightarrow> cfg_path n = CFG_DIR @ ''/'' @ n"
  by (simp add: plain_name_def cfg_path_def CFG_DIR_def BUFF_SIZE_def)

lemma cfg_path_plain: "plain_name n \<Longrightarrow> plain_path (cfg_path n)"
  by (auto simp: plain_path_def cfg_path_eq)

lemma cfg_path_inj: "plain_name n \<Longrightarrow> plain_name m \<Longrightarrow> cfg_path n = cfg_path m \<longleftrightarrow> n = m"
  by (simp add: cfg_path_eq)

lemma hal_write_read:
  "hal_ok h \<Longrightarrow> plain_path p \<Longrightarrow> hal_open_w h p f = Some f1 \<Longrightarrow> hal_write h p d f1 = (length d, f2) \<Longrightarrow>
   0 \<le> fst (hal_close_w h p f2) \<Longrightarrow> hal_read h p k (snd (hal_close_w h p f2)) = Some (take k d)"
  unfolding hal_ok_def hal_stores_def by (cases "hal_close_w h p f2") auto

lemma hal_frame:
  assumes "hal_ok h" and "plain_path p" and "plain_path q" and "p \<noteq> q"
  shows "hal_open_w h p f = Some f1 \<Longrightarrow> hal_read h q k f1 = hal_read h q k f"
    and "hal_read h q k (snd (hal_write h p d f)) = hal_read h q k f"
    and "hal_read h q k (snd (hal_close_w h p f)) = hal_read h q k f"
    and "hal_read h q k (snd (hal_remove h p f)) = hal_read h q k f"
  using assms by (simp_all add: hal_ok_def hal_local_def)

lemma hal_removed: "hal_ok h \<Longrightarrow> plain_path p \<Longrightarrow> 0 \<le> fst (hal_remove h p f) \<Longrightarrow> hal_read h p k (snd (hal_remove h p f)) = None"
  unfolding hal_ok_def hal_forgets_def by (cases "hal_remove h p f") auto

text \<open>Whether the closing of the file commits what a set wrote.\<close>

definition set_commits :: "'f hal \<Rightarrow> string \<Rightarrow> string \<Rightarrow> 'f \<Rightarrow> bool" where
  "set_commits h name v f \<longleftrightarrow>
     (case hal_open_w h (cfg_path name) f of None \<Rightarrow> False
      | Some f1 \<Rightarrow> 0 \<le> fst (hal_close_w h (cfg_path name) (snd (hal_write h (cfg_path name) (base64_encode v) f1))))"

lemma store_read:
  assumes h: "hal_ok h" and st: "cfgs_param_store h al name (Some v) ctx f = Some (0, ctx', f')"
    and n: "plain_name name" and c: "set_commits h name v f"
  shows "cfgs_param_read h name f' = (if v = [] then None else Some (take 225 v))"
proof -
  obtain f1 f2 where f1: "hal_open_w h (cfg_path name) f = Some f1"
    and w: "hal_write h (cfg_path name) (base64_encode v) f1 = (length (base64_encode v), f2)"
    and f': "f' = snd (hal_close_w h (cfg_path name) f2)"
    using st by (auto simp: cfgs_param_store_def Let_def split: option.splits if_splits prod.splits)
  have "0 \<le> fst (hal_close_w h (cfg_path name) f2)" using c f1 w by (simp add: set_commits_def)
  then have r: "hal_read h (cfg_path name) BUFF_SIZE f' = Some (take 300 (base64_encode v))"
    using hal_write_read [OF h _ f1 w] cfg_path_plain [OF n] f' by (simp add: BUFF_SIZE_def)
  show ?thesis
  proof (cases "v = []")
    case True
    then have "base64_encode v = []" using b64.enc_length [of v] by simp
    with r True show ?thesis by (simp add: cfgs_param_read_def)
  next
    case False
    then have "1 \<le> (length v + 2) div 3" by (cases v) simp_all
    then have "1 < length (take 300 (base64_encode v))" using b64.enc_length [of v] by simp
    with r False b64.stored_blocks_decode [of v 75] show ?thesis by (simp add: cfgs_param_read_def)
  qed
qed

lemma store_frame:
  assumes h: "hal_ok h" and st: "cfgs_param_store h al name v ctx f = Some (r, ctx', f')"
    and q: "plain_name q" "plain_name name" "q \<noteq> name"
  shows "cfgs_param_read h q f' = cfgs_param_read h q f"
proof -
  have "cfg_path name \<noteq> cfg_path q" using q by (simp add: cfg_path_inj)
  note fr = hal_frame [OF h _ _ this] cfg_path_plain [OF q(1)] cfg_path_plain [OF q(2)]
  have "hal_read h (cfg_path q) k f' = hal_read h (cfg_path q) k f" for k
    using st fr by (auto simp: cfgs_param_store_def Let_def case_prod_beta split: option.splits if_splits)
  then show ?thesis by (simp add: cfgs_param_read_def)
qed

lemma store_known:
  assumes "cfgs_ok ctx" and "None \<notin> set (cfg_params ctx)" and "cfg_count ctx < MAX_VARS" and "al 0" and "al 1"
    and st: "cfgs_param_store h al name v ctx f = Some (r, ctx', f')"
  shows "\<exists>i. cfgs_param_find name (cfg_params ctx') = Some (Some i)"
proof -
  obtain ns where ns: "distinct ns" "length ns = cfg_count ctx" "cfg_params ctx = map Some ns"
    using assms(1,2) by (auto simp: cfgs_ok_def)
  have found: "\<exists>i. cfgs_param_find name (map Some xs) = Some (Some i)" if "name \<in> set xs" for xs
    using that find_map_Some [of name xs] find_not_None [of name xs]
    by (cases "cfgs_param_find name (map Some xs)") auto
  have "name \<in> set ns \<and> ctx' = ctx \<or> cfg_params ctx' = map Some (ns @ [name])"
    using st ns(2,3) assms(3-5) find_map_Some [of name ns] find_not_None [of name ns]
    by (auto simp: cfgs_param_store_def Let_def register_fields case_prod_beta split: option.splits if_splits)
  then show ?thesis using found [of ns] found [of "ns @ [name]"] ns(3) by auto
qed

text \<open>
  C17.  A stored parameter is read back: after a successful set of a parameter with a plain name, with a
  table that is not full, get returns the value, of which the 300 byte buffer keeps the first 225
  characters (an empty value reads as not set), provided that the closing of its file commits; its
  result is not looked at by the code.  Whether it commits or not, every parameter with another plain
  name reads as before.
\<close>

lemma param_set_then_get:
  assumes "hal_ok h" and "cfgs_ok ctx" and "None \<notin> set (cfg_params ctx)" and "cfg_count ctx < 100"
    and "al 0 \<and> al 1 \<and> al 2" and "plain_name name"
    and "cfgs_param_set h al name v (Some ctx) f = Some (0, Some ctx', f')"
  shows "(set_commits h name v f \<longrightarrow>
      cfgs_param_get h al' name (Some ctx') f' = Some (if v = [] then None else Some (take 225 v), Some ctx')) \<and>
    (\<forall>q. plain_name q \<and> q \<noteq> name \<longrightarrow> cfgs_param_read h q f' = cfgs_param_read h q f)"
proof -
  have st: "cfgs_param_store h al name (Some v) ctx f = Some (0, ctx', f')"
    using assms(7) by (auto simp: cfgs_param_set_def)
  obtain i where "cfgs_param_find name (cfg_params ctx') = Some (Some i)"
    using store_known [OF assms(2,3) _ _ _ st] assms(4,5) by (auto simp: MAX_VARS_def)
  then show ?thesis
    using store_read [OF assms(1) st assms(6)] store_frame [OF assms(1) st _ assms(6)] by (simp add: cfgs_param_get_def)
qed

text \<open>
  A set whose file could not be committed is reported as a success: its result does not depend on
  what the closing returns.
\<close>

lemma set_ignores_close:
  assumes "hal_open_w h (cfg_path name) f = Some f1" and "cfgs_ok ctx" and "None \<notin> set (cfg_params ctx)" and "al 2"
    and "hal_write h (cfg_path name) (base64_encode v) f1 = (length (base64_encode v), f2)"
    and "hal_close_w h (cfg_path name) f2 = (r, f3)"
  shows "\<exists>ctx'. cfgs_param_set h al name v (Some ctx) f = Some (0, Some ctx', f3)"
proof -
  obtain ns where "cfg_params ctx = map Some ns" using assms(2,3) by (auto simp: cfgs_ok_def)
  then obtain i where "cfgs_param_find name (cfg_params ctx) = Some i"
    using find_not_None [of name ns] by auto
  then show ?thesis using assms by (simp add: cfgs_param_set_def cfgs_param_store_def Let_def)
qed

text \<open>
  Deleting a parameter brings its default back, when the removal succeeds: the store has no value
  for it, so the user parameter is the decoded default of the build; every other parameter with a
  plain name keeps its value.
\<close>

lemma param_del_restores_default:
  assumes "hal_ok h" and "plain_name name" and "0 \<le> fst (hal_remove h (cfg_path name) f)"
    and "cfgs_param_del h name (Some ctx) f = (r, f')" and "v \<noteq> []"
  shows "r = 0 \<and> sys_user_param_get (\<lambda>n. cfgs_param_read h n f') name (base64_encode v) = Some v \<and>
    (\<forall>q. plain_name q \<and> q \<noteq> name \<longrightarrow> cfgs_param_read h q f' = cfgs_param_read h q f)"
proof -
  have f': "f' = snd (hal_remove h (cfg_path name) f)" "r = 0"
    using assms(4) by (auto simp: cfgs_param_del_def cfgs_param_remove_def)
  note pl = cfg_path_plain [OF assms(2)]
  have "cfgs_param_read h name f' = None"
    using hal_removed [OF assms(1) _ assms(3)] pl by (simp add: cfgs_param_read_def f')
  moreover have "cfgs_param_read h q f' = cfgs_param_read h q f" if "plain_name q" "q \<noteq> name" for q
    using hal_frame(4) [OF assms(1), of "cfg_path name" "cfg_path q"] pl cfg_path_plain [OF that(1)] cfg_path_inj [OF that(1) assms(2)] that(2)
    by (simp add: cfgs_param_read_def f')
  ultimately show ?thesis using f' sys_user_param_default [OF _ assms(5)] by simp
qed

section \<open>Purge and reset\<close>

definition unknown_files :: "string option list \<Rightarrow> (string \<times> bool) list \<Rightarrow> string set" where
  "unknown_files ps es = {n. (n, True) \<in> set es \<and> Some n \<notin> set ps}"

lemma find_known: "None \<notin> set ps \<Longrightarrow> cfgs_param_find n ps \<noteq> None \<and> (cfgs_param_find n ps = Some None \<longleftrightarrow> Some n \<notin> set ps)"
proof (induction ps)
  case (Cons p ps)
  then show ?case by (cases p) auto
qed simp

text \<open>The listing of a directory: plain names.  A removal that fails leaves the file.\<close>

lemma purge_effect:
  assumes "hal_ok h" and "None \<notin> set ps" and "\<forall>p f. 0 \<le> fst (hal_remove h p f)" and "\<forall>(n, _)\<in>set es. plain_name n"
  shows "\<exists>f'. purge_entries h ps es f = Some f' \<and>
    (\<forall>p k. plain_path p \<longrightarrow> hal_read h p k f' = (if p \<in> cfg_path ` unknown_files ps es then None else hal_read h p k f))"
  using assms(4)
proof (induction es arbitrary: f)
  case Nil
  then show ?case by (simp add: unknown_files_def)
next
  case (Cons e es)
  obtain n reg where e: "e = (n, reg)" by fastforce
  have pn: "plain_path (cfg_path n)" using Cons.prems cfg_path_plain by (simp add: e)
  show ?case
  proof (cases "reg \<and> Some n \<notin> set ps")
    case True
    let ?f = "snd (hal_remove h (cfg_path n) f)"
    have u: "unknown_files ps (e # es) = insert n (unknown_files ps es)"
      using True by (auto simp: unknown_files_def e)
    have s: "purge_entries h ps (e # es) f = purge_entries h ps es ?f"
      using True find_known [OF assms(2), of n] by (simp add: e)
    obtain f' where f': "purge_entries h ps es ?f = Some f'"
      and r: "\<forall>p k. plain_path p \<longrightarrow> hal_read h p k f' = (if p \<in> cfg_path ` unknown_files ps es then None
        else hal_read h p k ?f)"
      using Cons.IH [of ?f] Cons.prems by auto
    have "hal_read h p k f' = (if p \<in> cfg_path ` unknown_files ps (e # es) then None else hal_read h p k f)" if "plain_path p" for p k
      using r that hal_removed [OF assms(1) pn, of f k] assms(3) hal_frame(4) [OF assms(1) pn that, of k f]
      unfolding u by (cases "p = cfg_path n") auto
    with s f' show ?thesis by auto
  next
    case False
    then have "unknown_files ps (e # es) = unknown_files ps es" by (auto simp: unknown_files_def e)
    moreover have "purge_entries h ps (e # es) f = purge_entries h ps es f"
      using False find_known [OF assms(2), of n] by (auto simp: e split: option.split)
    ultimately show ?thesis using Cons.IH Cons.prems by simp
  qed
qed

text \<open>
  \<open>purge\<close> removes exactly the unknown files: with a table of named entries, and when no removal
  fails, it ends, every regular file of the directory whose name is not in the table is gone, and
  every other file of the directory reads as before.
\<close>

lemma purge_removes_unknown:
  assumes "hal_ok h" and "None \<notin> set (cfg_params ctx)" and "\<forall>p f. 0 \<le> fst (hal_remove h p f)"
    and "hal_dir h CFG_DIR f = Some es" and "\<forall>(n, _)\<in>set es. plain_name n"
  shows "\<exists>f'. cfgs_purge_uknown h ctx f = Some f' \<and>
    (\<forall>p k. plain_path p \<longrightarrow> hal_read h p k f' =
      (if p \<in> cfg_path ` unknown_files (cfg_params ctx) es then None else hal_read h p k f))"
  using purge_effect [OF assms(1-3,5), of f] assms(4) by (simp add: cfgs_purge_uknown_def)

definition reset_blocked :: "'f hal \<Rightarrow> 'f \<Rightarrow> bool" where
  "reset_blocked h f \<longleftrightarrow> (case hal_dir h CFG_DIR f of Some (e # es) \<Rightarrow> snd (hal_remove h (cfg_path (fst e)) f) = f
     | _ \<Rightarrow> False)"

lemma reset_stuck:
  assumes "cfgs_reset_all h f = Some f'"
  shows "\<not> reset_blocked h f"
proof (rule cfgs_reset_all.raw_induct [OF _ assms])
  fix rst :: "'b hal \<Rightarrow> 'b \<Rightarrow> 'b option" and h f f'
  assume IH: "\<And>h f y. rst h f = Some y \<Longrightarrow> \<not> reset_blocked h f"
    and body: "(case hal_dir h CFG_DIR f of None \<Rightarrow> Some f | Some [] \<Rightarrow> Some f
      | Some (e # es) \<Rightarrow> rst h (snd (hal_remove h (cfg_path (fst e)) f))) = Some f'"
  show "\<not> reset_blocked h f"
  proof
    assume b: "reset_blocked h f"
    then have "rst h f = Some f'" using body by (auto simp: reset_blocked_def split: option.splits list.splits)
    from IH [OF this] b show False ..
  qed
qed

text \<open>
  \<open>reset\<close> hangs on an entry it cannot remove: when the first entry of the directory is one
  whose removal changes nothing (littlefs lists the entry \<open>.\<close> first), the loop of
  \<open>cfgs_reset_all\<close> never returns.
\<close>

lemma reset_never_returns:
  assumes "hal_dir h CFG_DIR f = Some (e # es)" and "snd (hal_remove h (cfg_path (fst e)) f) = f"
  shows "cfgs_reset_all h f = None"
  using assms reset_stuck [of h f] by (cases "cfgs_reset_all h f") (auto simp: reset_blocked_def)

section \<open>Witnesses\<close>

text \<open>A file system that keeps its files in an association list.\<close>

type_synonym flash = "(string \<times> string) list"

definition flash_remove :: "string \<Rightarrow> flash \<Rightarrow> flash" where
  "flash_remove p f = filter (\<lambda>x. fst x \<noteq> p) f"

definition flash_hal :: "flash hal" where
  "flash_hal = \<lparr>hal_read = (\<lambda>p n f. map_option (take n) (map_of f p)),
     hal_open_w = (\<lambda>p f. Some ((p, []) # flash_remove p f)),
     hal_write = (\<lambda>p d f. (length d, (p, d) # flash_remove p f)),
     hal_close_w = (\<lambda>p f. (0, f)), hal_remove = (\<lambda>p f. (0, flash_remove p f)),
     hal_dir = (\<lambda>p f. Some (map (\<lambda>x. (drop (length p + 1) (fst x), True)) f))\<rparr>"

lemma map_of_flash_remove: "map_of (flash_remove p f) q = (if q = p then None else map_of f q)"
  unfolding flash_remove_def by (induction f) auto

lemma flash_ok: "hal_ok flash_hal"
  by (auto simp: hal_ok_def hal_stores_def hal_local_def hal_forgets_def flash_hal_def map_of_flash_remove)

definition demo_cfg :: cfgs_context where
  "demo_cfg = \<lparr>cfg_params = [Some ''dbg_ssr''], cfg_count = 1, cfg_debug = 0\<rparr>"

lemma demo_cfg_ok: "cfgs_ok demo_cfg"
  unfolding cfgs_ok_def by (auto simp: demo_cfg_def MAX_VARS_def intro: exI [of _ "[''dbg_ssr'']"])

lemma cfgs_invariant_witness:
  "\<exists>ctx'. cfgs_param_get flash_hal (\<lambda>i. i = 0) ''SSR'' (Some demo_cfg) [] = Some (None, Some ctx') \<and> cfgs_ok ctx' \<and>
     None \<in> set (cfg_params ctx')"
proof -
  have g: "cfgs_param_get flash_hal (\<lambda>i. i = 0) ''SSR'' (Some demo_cfg) [] =
      Some (None, Some (demo_cfg\<lparr>cfg_params := [Some ''dbg_ssr'', None]\<rparr>))"
    by (simp add: cfgs_param_get_def demo_cfg_def cfgs_param_register_def MAX_VARS_def)
  from cfgs_invariant [OF demo_cfg_ok, where h = flash_hal and name = "''SSR''" and al = "\<lambda>i. i = 0" and f = "[]"] g
  show ?thesis by auto
qed

lemma param_set_then_get_witness:
  "\<exists>ctx' f'. cfgs_param_set flash_hal (\<lambda>_. True) ''SSR'' ''0:3'' (Some demo_cfg) [] = Some (0, Some ctx', f') \<and>
     cfgs_param_get flash_hal (\<lambda>_. True) ''SSR'' (Some ctx') f' = Some (Some ''0:3'', Some ctx')"
proof -
  obtain ctx' f' where st: "cfgs_param_set flash_hal (\<lambda>_. True) ''SSR'' ''0:3'' (Some demo_cfg) [] = Some (0, Some ctx', f')"
    by (simp add: cfgs_param_set_def cfgs_param_store_def demo_cfg_def flash_hal_def Let_def)
  have "None \<notin> set (cfg_params demo_cfg)" "cfg_count demo_cfg < 100" by (simp_all add: demo_cfg_def)
  moreover have "plain_name ''SSR''" by (simp add: plain_name_def)
  moreover have "set_commits flash_hal ''SSR'' ''0:3'' []" by (simp add: set_commits_def flash_hal_def)
  ultimately show ?thesis using param_set_then_get [OF flash_ok demo_cfg_ok _ _ _ _ st, of "\<lambda>_. True"] st by simp
qed

lemma param_del_restores_default_witness:
  "\<exists>f'. cfgs_param_del flash_hal ''SSR'' (Some demo_cfg) [(cfg_path ''SSR'', base64_encode ''1:1'')] = (0, f') \<and>
     sys_user_param_get (\<lambda>n. cfgs_param_read flash_hal n f') ''SSR'' (base64_encode ''0:3'') = Some ''0:3''"
proof -
  obtain r f' where d: "cfgs_param_del flash_hal ''SSR'' (Some demo_cfg) [(cfg_path ''SSR'', base64_encode ''1:1'')] = (r, f')"
    by fastforce
  have "plain_name ''SSR''" "0 \<le> fst (hal_remove flash_hal p f)" for p f by (simp_all add: plain_name_def flash_hal_def)
  from param_del_restores_default [OF flash_ok this d, of "''0:3''"] d show ?thesis by auto
qed

lemma purge_removes_unknown_witness:
  "\<exists>f'. cfgs_purge_uknown flash_hal demo_cfg [(cfg_path ''dbg_ssr'', ''MQ==''), (cfg_path ''old'', ''Mg=='')] = Some f' \<and>
     hal_read flash_hal (cfg_path ''old'') 9 f' = None \<and> hal_read flash_hal (cfg_path ''dbg_ssr'') 9 f' = Some ''MQ==''"
proof -
  let ?f = "[(cfg_path ''dbg_ssr'', ''MQ==''), (cfg_path ''old'', ''Mg=='')]"
  have n: "None \<notin> set (cfg_params demo_cfg)" by (simp add: demo_cfg_def)
  have d: "hal_dir flash_hal CFG_DIR ?f = Some [(''dbg_ssr'', True), (''old'', True)]"
    by (simp add: flash_hal_def cfg_path_def CFG_DIR_def BUFF_SIZE_def)
  have u: "unknown_files (cfg_params demo_cfg) [(''dbg_ssr'', True), (''old'', True)] = {''old''}"
    by (auto simp: unknown_files_def demo_cfg_def)
  have p: "cfg_path ''dbg_ssr'' \<noteq> cfg_path ''old''" by (simp add: cfg_path_def CFG_DIR_def BUFF_SIZE_def)
  have pl: "plain_name ''old''" "plain_name ''dbg_ssr''" by (simp_all add: plain_name_def)
  have "\<forall>p f. 0 \<le> fst (hal_remove flash_hal p f)" "\<forall>(n, _)\<in>set [(''dbg_ssr'', True), (''old'', True)]. plain_name n"
    using pl by (simp_all add: flash_hal_def)
  then obtain f' where f': "cfgs_purge_uknown flash_hal demo_cfg ?f = Some f'"
    and r: "\<And>q k. plain_path q \<Longrightarrow> hal_read flash_hal q k f' = (if q \<in> cfg_path ` {''old''} then None else hal_read flash_hal q k ?f)"
    using purge_removes_unknown [OF flash_ok n _ d] unfolding u by blast
  have "hal_read flash_hal (cfg_path ''dbg_ssr'') 9 ?f = Some ''MQ==''" by (simp add: flash_hal_def)
  with f' r [of "cfg_path ''old''" 9] r [of "cfg_path ''dbg_ssr''" 9] p
    cfg_path_plain [OF pl(1)] cfg_path_plain [OF pl(2)] show ?thesis by simp
qed

lemma reset_never_returns_witness:
  "cfgs_reset_all (flash_hal\<lparr>hal_dir := (\<lambda>_ _. Some [(''.'', False), (''..'', False)])\<rparr>) [] = None"
proof -
  let ?h = "flash_hal\<lparr>hal_dir := (\<lambda>_ _. Some [(''.'', False), (''..'', False)])\<rparr>"
  have "hal_dir ?h CFG_DIR [] = Some ((''.'', False) # [(''..'', False)])" by simp
  moreover have "snd (hal_remove ?h (cfg_path (fst (''.'', False))) []) = []" by (simp add: flash_hal_def flash_remove_def)
  ultimately show ?thesis by (rule reset_never_returns)
qed

end
