(* ===== verification/Ssr.thy ===== *)
theory Ssr
  imports Mqtt
begin

text \<open>
  The solid state relays, \<open>libs/common/devices/ssr/ssr.c\<close>: the table of up to 29 relays, setting
  a relay with a delay and a duration, the timers of the main loop, the reset, the parsing of the
  configuration and of the commands, the MQTT report.  \<open>pins\<close> are the levels that \<open>gpio_put\<close> left
  on the pins; \<open>midx\<close> is the static variable of \<open>ssr_mqtt_send\<close>.
\<close>

definition MAX_SSR_COUNT :: nat where "MAX_SSR_COUNT = 29"
definition MQTT_DELAY_MS :: u64 where "MQTT_DELAY_MS = 20000"
definition SSR_MQTT_DATA_LEN :: nat where "SSR_MQTT_DATA_LEN = 256"
definition SSR_MQTT_SENSOR_STATE :: nat where "SSR_MQTT_SENSOR_STATE = 0"
definition SSR_MQTT_SENSOR_TIME :: nat where "SSR_MQTT_SENSOR_TIME = 1"
definition SSR_MQTT_SENSOR_DELAY :: nat where "SSR_MQTT_SENSOR_DELAY = 2"
definition SSR_MQTT_SENSOR_MAX :: nat where "SSR_MQTT_SENSOR_MAX = 3"

lemmas ssr_sens = SSR_MQTT_SENSOR_STATE_def SSR_MQTT_SENSOR_TIME_def SSR_MQTT_SENSOR_DELAY_def SSR_MQTT_SENSOR_MAX_def

record ssr =
  gpio_pin :: int
  state_desired :: bool
  state_actual :: bool
  last_switch :: u64
  time_ms :: u32
  time_remain_ms :: int
  delay_ms :: u32
  drelay_remain_ms :: int
  ssr_mqtt :: "mqtt_component list"

record ssr_context =
  ssr_count :: int
  on_state :: u8
  relays :: "ssr option list"
  ssr_debug :: u32
  pins :: "int \<Rightarrow> bool"
  midx :: nat

definition empty_component :: mqtt_component where
  "empty_component = \<lparr>mc_module = [], mc_name = [], platform = [], dev_class = None, unit = None,
     value_template = [], payload_on = None, payload_off = None, mc_state_topic = None, mc_id = 0,
     force = False, mc_last_send = 0\<rparr>"

definition zero_relay :: ssr where
  "zero_relay = \<lparr>gpio_pin = 0, state_desired = False, state_actual = False, last_switch = 0, time_ms = 0,
     time_remain_ms = 0, delay_ms = 0, drelay_remain_ms = 0,
     ssr_mqtt = [empty_component, empty_component, empty_component]\<rparr>"

section \<open>Access to the table\<close>

definition relay_at :: "ssr_context \<Rightarrow> nat \<Rightarrow> ssr option" where
  "relay_at ctx i = (if i \<ge> MAX_SSR_COUNT then None else relays ctx ! i)"

definition put_relay :: "nat \<Rightarrow> ssr \<Rightarrow> ssr_context \<Rightarrow> ssr_context" where
  "put_relay i r ctx = ctx\<lparr>relays := (relays ctx)[i := Some r]\<rparr>"

definition gpio_put :: "int \<Rightarrow> bool \<Rightarrow> ssr_context \<Rightarrow> ssr_context" where
  "gpio_put p v ctx = ctx\<lparr>pins := (pins ctx)(p := v)\<rparr>"

definition set_force :: "nat \<Rightarrow> bool \<Rightarrow> ssr \<Rightarrow> ssr" where
  "set_force s v r = r\<lparr>ssr_mqtt := upd_at s (\<lambda>c. c\<lparr>force := v\<rparr>) (ssr_mqtt r)\<rparr>"

section \<open>Setting a relay\<close>

definition relay_set :: "bool \<Rightarrow> u32 \<Rightarrow> u32 \<Rightarrow> u64 \<Rightarrow> ssr \<Rightarrow> ssr" where
  "relay_set state time delay now r =
     (let r = (if delay = 0 then
                 (let r = (if state_actual r \<noteq> state then set_force SSR_MQTT_SENSOR_STATE True r else r)
                  in r\<lparr>state_actual := state\<rparr>)
               else r);
          r = (if state_desired r \<noteq> state then set_force SSR_MQTT_SENSOR_STATE True r else r)
      in r\<lparr>state_desired := state, time_ms := time, delay_ms := delay, last_switch := now\<rparr>)"

definition ssr_state_set :: "u8 \<Rightarrow> bool \<Rightarrow> u32 \<Rightarrow> u32 \<Rightarrow> u64 \<Rightarrow> ssr_context \<Rightarrow> int \<times> ssr_context" where
  "ssr_state_set rid state time delay now ctx =
     (case relay_at ctx (unat rid) of None \<Rightarrow> (-1, ctx)
      | Some r \<Rightarrow>
          (let ctx = (if delay = 0 then gpio_put (gpio_pin r) state ctx else ctx)
           in (0, put_relay (unat rid) (relay_set state time delay now r) ctx)))"

text \<open>The remaining times; \<open>/ 1000\<close> rounds towards zero.\<close>

definition relay_remain :: "int \<Rightarrow> int \<Rightarrow> ssr \<Rightarrow> ssr" where
  "relay_remain time delay r =
     (let time = max time 0; delay = max delay 0;
          r = (if tdiv (time_remain_ms r) 1000 \<noteq> tdiv time 1000 \<or> tdiv (drelay_remain_ms r) 1000 \<noteq> tdiv delay 1000
               then set_force SSR_MQTT_SENSOR_STATE True r else r)
      in r\<lparr>time_remain_ms := time, drelay_remain_ms := delay\<rparr>)"

definition ssr_state_remain_times :: "u8 \<Rightarrow> int \<Rightarrow> int \<Rightarrow> ssr_context \<Rightarrow> ssr_context" where
  "ssr_state_remain_times rid time delay ctx =
     (case relay_at ctx (unat rid) of None \<Rightarrow> ctx
      | Some r \<Rightarrow> put_relay (unat rid) (relay_remain time delay r) ctx)"

section \<open>The timers\<close>

text \<open>
  One relay of \<open>ssr_run\<close>: elapsed times are cut to 32 bits and subtracted there, then read as
  an \<open>int\<close>.  \<open>now\<close> is read once, \<open>now'\<close> when the relay switches.
\<close>

definition ssr_left :: "u32 \<Rightarrow> u64 \<Rightarrow> u64 \<Rightarrow> int" where
  "ssr_left ms now since = int_of_word (ms - ucast (now - since))"

definition ssr_run_one :: "u64 \<Rightarrow> (nat \<Rightarrow> u64) \<Rightarrow> nat \<Rightarrow> ssr_context \<Rightarrow> ssr_context" where
  "ssr_run_one now now' i ctx =
     (case relay_at ctx i of None \<Rightarrow> ctx
      | Some r \<Rightarrow>
          (let dt = int_of_word (time_ms r); dd = int_of_word (delay_ms r);
               rid = word_of_nat i;
               (dt, dd, ctx) =
                 (if delay_ms r > 0 then
                    (let dd = ssr_left (delay_ms r) now (last_switch r)
                     in (dt, dd, if dd \<le> 0 then snd (ssr_state_set rid (state_desired r) (time_ms r) 0 (now' i) ctx) else ctx))
                  else if time_ms r > 0 then
                    (let dt = ssr_left (time_ms r) now (last_switch r)
                     in (dt, dd, if dt \<le> 0 then snd (ssr_state_set rid (\<not> state_desired r) 0 0 (now' i) ctx) else ctx))
                  else (dt, dd, ctx))
           in ssr_state_remain_times rid dt dd ctx))"

section \<open>MQTT report\<close>

definition ssr_payload :: "string \<Rightarrow> u8 \<Rightarrow> nat \<Rightarrow> ssr \<Rightarrow> string option" where
  "ssr_payload time_str on idx r = build_msg SSR_MQTT_DATA_LEN
     [''{'', ''\"timestamp\": \"'' @ time_str @ ''\"'', '',\"ssr_id\": \"'' @ nat_str idx @ ''\"'',
      '',\"ssr_state\": \"'' @ (if of_bool (state_actual r) = on then ''1'' else ''0'') @ ''\"'',
      '',\"run_time\": \"'' @ int_str (tdiv (time_remain_ms r) 1000) @ ''\"'',
      '',\"delay\": \"'' @ int_str (tdiv (drelay_remain_ms r) 1000) @ ''\"'', ''}'']"

definition ssr_mqtt_data_send ::
  "lwip \<Rightarrow> string \<Rightarrow> nat \<Rightarrow> nat \<Rightarrow> ssr_context \<times> 'h mqtt_context option \<Rightarrow> int \<times> ssr_context \<times> 'h mqtt_context option" where
  "ssr_mqtt_data_send e time_str idx sens st =
     (case st of (ctx, mq) \<Rightarrow>
       (case relay_at ctx idx of None \<Rightarrow> (-1, ctx, mq)
        | Some r \<Rightarrow>
            if sens \<ge> SSR_MQTT_SENSOR_MAX then (-1, ctx, mq)
            else
              (let c = ssr_mqtt r ! sens in
               if \<not> force c \<and> lw_clock e 0 - mc_last_send c < MQTT_DELAY_MS then (-1, ctx, mq)
               else
                 (case ssr_payload time_str (on_state ctx) idx r of None \<Rightarrow> (-1, ctx, mq)
                  | Some p \<Rightarrow>
                      (let (ret, c, mq) = mqtt_msg_component_publish (later 1 e) c p mq
                       in (ret, put_relay idx (r\<lparr>ssr_mqtt := (ssr_mqtt r)[sens := c]\<rparr>) ctx, mq))))))"

text \<open>The search of the next relay to report: it never ends when there is none.\<close>

partial_function (option) ssr_next :: "ssr option list \<Rightarrow> nat \<Rightarrow> nat option" where
  "ssr_next rs m =
     (let m = (if m \<ge> MAX_SSR_COUNT then 0 else m)
      in if rs ! m \<noteq> None then Some m else ssr_next rs (m + 1))"

definition ssr_mqtt_send ::
  "lwip \<Rightarrow> string \<Rightarrow> ssr_context \<times> 'h mqtt_context option \<Rightarrow> (ssr_context \<times> 'h mqtt_context option) option" where
  "ssr_mqtt_send e time_str st =
     (case st of (ctx, mq) \<Rightarrow>
       if \<not> mqtt_is_discovery_sent mq then Some (ctx, mq)
       else
         (case ssr_next (relays ctx) (midx ctx) of None \<Rightarrow> None
          | Some m \<Rightarrow>
              (case ssr_mqtt_data_send e time_str m SSR_MQTT_SENSOR_STATE (ctx\<lparr>midx := m + 1\<rparr>, mq) of
                 (_, ctx, mq) \<Rightarrow> Some (ctx, mq))))"

definition ssr_timers :: "u64 \<Rightarrow> (nat \<Rightarrow> u64) \<Rightarrow> ssr_context \<Rightarrow> ssr_context" where
  "ssr_timers now now' ctx = fold (ssr_run_one now now') [0 ..< MAX_SSR_COUNT] ctx"

text \<open>\<open>ssr_run\<close>; the readings are \<open>now\<close>, one per relay that switches, those of the report.\<close>

definition ssr_run ::
  "lwip \<Rightarrow> string \<Rightarrow> ssr_context \<times> 'h mqtt_context option \<Rightarrow> (ssr_context \<times> 'h mqtt_context option) option" where
  "ssr_run e time_str st =
     (case st of (ctx, mq) \<Rightarrow>
       ssr_mqtt_send (later (1 + MAX_SSR_COUNT) e) time_str
         (ssr_timers (lw_clock e 0) (\<lambda>i. lw_clock e (1 + i)) ctx, mq))"

section \<open>Reset\<close>

definition ssr_reset_one :: "bool \<Rightarrow> (nat \<Rightarrow> u64) \<Rightarrow> nat \<Rightarrow> ssr_context \<Rightarrow> ssr_context" where
  "ssr_reset_one off now i ctx =
     (case relay_at ctx i of None \<Rightarrow> ctx
      | Some r \<Rightarrow>
          put_relay i (set_force SSR_MQTT_SENSOR_STATE True
            (r\<lparr>state_actual := off, state_desired := off, time_ms := 0, delay_ms := 0, last_switch := now i\<rparr>))
            (gpio_put (gpio_pin r) off ctx))"

definition ssr_reset_all :: "(nat \<Rightarrow> u64) \<Rightarrow> ssr_context \<Rightarrow> ssr_context" where
  "ssr_reset_all now ctx = fold (ssr_reset_one (on_state ctx = 0) now) [0 ..< MAX_SSR_COUNT] ctx"

section \<open>Configuration\<close>

text \<open>
  One entry \<open><id>:<gpio pin>\<close>.  Both slots of \<open>tok_map\<close> get the entry itself, which the first
  \<open>strtok_r\<close> has cut after its first token; so the pin is read from the same text as the rid.
\<close>

definition entry_text :: "string \<Rightarrow> string" where
  "entry_text tok = takeWhile (\<lambda>c. c = CHR '':'') tok @
     takeWhile (\<lambda>c. c \<noteq> CHR '':'') (dropWhile (\<lambda>c. c = CHR '':'') tok)"

definition ssr_config_entry :: "bool \<Rightarrow> string \<Rightarrow> ssr_context \<Rightarrow> ssr_context option" where
  "ssr_config_entry alloc tok ctx =
     (if length (strtok_all (CHR '':'') (Some tok)) < 2 then Some ctx
      else
        (let rid = strtol_val 10 (entry_text tok) in
         if rid < 0 \<or> rid \<ge> int MAX_SSR_COUNT then Some ctx
         else
           (let r = (case relays ctx ! nat rid of Some r \<Rightarrow> Some r | None \<Rightarrow> if alloc then Some zero_relay else None)
            in case r of None \<Rightarrow> None
               | Some r \<Rightarrow> Some ((put_relay (nat rid) (r\<lparr>gpio_pin := strtol_val 0 (entry_text tok)\<rparr>) ctx)
                             \<lparr>ssr_count := ssr_count ctx + 1\<rparr>))))"

fun ssr_config_entries :: "(nat \<Rightarrow> bool) \<Rightarrow> string list \<Rightarrow> ssr_context \<Rightarrow> ssr_context option" where
  "ssr_config_entries al [] ctx = Some ctx"
| "ssr_config_entries al (t # ts) ctx =
     (case ssr_config_entry (al 0) t ctx of None \<Rightarrow> None
      | Some ctx \<Rightarrow> ssr_config_entries (\<lambda>i. al (i + 1)) ts ctx)"

definition zero_ssr :: ssr_context where
  "zero_ssr = \<lparr>ssr_count = 0, on_state = 0, relays = replicate MAX_SSR_COUNT None, ssr_debug = 0,
     pins = (\<lambda>_. False), midx = 0\<rparr>"

text \<open>
  \<open>ssr_config_get\<close>.  Right after the allocation the code writes \<open>relays[i]->gpio_pin = -1\<close> through
  the 29 NULL pointers; \<open>null_write\<close> tells whether the hardware ignores stores to address 0, and
  the outer None is the fault.  Inner None is the error return.
\<close>

definition ssr_config_get ::
  "bool \<Rightarrow> bool \<Rightarrow> (nat \<Rightarrow> bool) \<Rightarrow> string option \<Rightarrow> string option \<Rightarrow> ssr_context option option" where
  "ssr_config_get null_write alloc al cfg trigger =
     (case cfg of None \<Rightarrow> Some None
      | Some c \<Rightarrow>
          if length c < 1 then Some None
          else if \<not> alloc then Some None
          else if \<not> null_write then None
          else
            (let ctx = (case trigger of None \<Rightarrow> zero_ssr
                | Some t \<Rightarrow> if length t \<ge> 1 then zero_ssr\<lparr>on_state := word_of_int (strtol_val 10 t)\<rparr> else zero_ssr)
             in case ssr_config_entries al (strtok_all (CHR '';'') (Some c)) ctx of None \<Rightarrow> Some None
                | Some ctx \<Rightarrow> if ssr_count ctx < 1 then Some None else Some (Some ctx)))"

section \<open>MQTT components and start\<close>

definition ssr_components :: "nat \<Rightarrow> 'h mqtt_context option \<Rightarrow> mqtt_component list \<times> 'h mqtt_context option" where
  "ssr_components i mq =
     (let nm = ''Relay_'' @ nat_str i;
          tmpl = (\<lambda>v. ''{{ value_json['' @ [CHR 0x27] @ v @ [CHR 0x27] @ ''] }}'');
          (_, c0, mq) = mqtt_msg_component_register (empty_component\<lparr>mc_module := ''ssr'', platform := ''binary_sensor'',
             payload_on := Some ''1'', payload_off := Some ''0'', value_template := tmpl ''ssr_state'', mc_name := nm\<rparr>) mq;
          (_, c1, mq) = mqtt_msg_component_register (empty_component\<lparr>mc_module := ''ssr'', platform := ''sensor'',
             dev_class := Some ''duration'', unit := Some ''s'', value_template := tmpl ''run_time'',
             mc_state_topic := mc_state_topic c0, mc_name := nm @ ''_run_time''\<rparr>) mq;
          (_, c2, mq) = mqtt_msg_component_register (empty_component\<lparr>mc_module := ''ssr'', platform := ''sensor'',
             dev_class := Some ''duration'', unit := Some ''s'', value_template := tmpl ''delay'',
             mc_state_topic := mc_state_topic c0, mc_name := nm @ ''_delay''\<rparr>) mq
      in ([c0, c1\<lparr>force := False\<rparr>, c2\<lparr>force := False\<rparr>], mq))"

definition ssr_mqtt_components_add ::
  "ssr_context \<times> 'h mqtt_context option \<Rightarrow> ssr_context \<times> 'h mqtt_context option" where
  "ssr_mqtt_components_add st =
     fold (\<lambda>i (ctx, mq). case relay_at ctx i of None \<Rightarrow> (ctx, mq)
        | Some r \<Rightarrow> (let (cs, mq) = ssr_components i mq in (put_relay i (r\<lparr>ssr_mqtt := cs\<rparr>) ctx, mq)))
       [0 ..< MAX_SSR_COUNT] st"

definition ssr_init_one :: "nat \<Rightarrow> ssr_context \<Rightarrow> ssr_context" where
  "ssr_init_one i ctx =
     (case relay_at ctx i of None \<Rightarrow> ctx
      | Some r \<Rightarrow> put_relay i (r\<lparr>state_actual := (on_state ctx = 0), state_desired := (on_state ctx = 0)\<rparr>)
          (gpio_put (gpio_pin r) (on_state ctx = 0) ctx))"

definition ssr_init ::
  "bool \<Rightarrow> bool \<Rightarrow> (nat \<Rightarrow> bool) \<Rightarrow> string option \<Rightarrow> string option \<Rightarrow> 'h mqtt_context option
   \<Rightarrow> (ssr_context option \<times> 'h mqtt_context option) option" where
  "ssr_init null_write alloc al cfg trigger mq =
     (case ssr_config_get null_write alloc al cfg trigger of None \<Rightarrow> None
      | Some None \<Rightarrow> Some (None, mq)
      | Some (Some ctx) \<Rightarrow>
          (case ssr_mqtt_components_add (fold ssr_init_one [0 ..< MAX_SSR_COUNT] ctx, mq) of
             (ctx, mq) \<Rightarrow> Some (Some ctx, mq)))"

definition ssr_debug_set :: "u32 \<Rightarrow> ssr_context \<Rightarrow> ssr_context" where
  "ssr_debug_set lvl ctx = ctx\<lparr>ssr_debug := lvl\<rparr>"

section \<open>Commands and API\<close>

text \<open>Seconds of a command parameter in milliseconds, in a 32 bit \<open>int\<close>.\<close>

definition sec_ms :: "string \<Rightarrow> int" where
  "sec_ms tok = s32 (max (strtol_val 10 tok) 0 * 1000)"

definition cmd_ssr_set_state :: "string option \<Rightarrow> u64 \<Rightarrow> ssr_context \<Rightarrow> int \<times> ssr_context" where
  "cmd_ssr_set_state params now ctx =
     (case strtok_r (CHR '':'') params of (None, _) \<Rightarrow> (-1, ctx)
      | (Some t1, rest) \<Rightarrow>
         (let rid = strtol_val 10 t1 in
          if rid < 0 then (-1, ctx)
          else
            (case strtok_r (CHR '':'') rest of (None, _) \<Rightarrow> (-1, ctx)
             | (Some t2, rest) \<Rightarrow>
                (let state = strtol_val 10 t2;
                     (time, delay) =
                       (case strtok_r (CHR '':'') rest of (None, _) \<Rightarrow> (0, 0)
                        | (Some t3, rest) \<Rightarrow>
                           (sec_ms t3, case strtok_r (CHR '':'') rest of (None, _) \<Rightarrow> 0 | (Some t4, _) \<Rightarrow> sec_ms t4))
                 in ssr_state_set (word_of_int rid) (if state \<noteq> 0 then on_state ctx \<noteq> 0 else on_state ctx = 0)
                      (word_of_int time) (word_of_int delay) now ctx))))"

definition cmd_ssr_set :: "string \<Rightarrow> u64 \<Rightarrow> ssr_context \<Rightarrow> int \<times> ssr_context" where
  "cmd_ssr_set params now ctx =
     (if length params < 2 \<or> hd params \<noteq> CHR '':'' then (-1, ctx)
      else (case cmd_ssr_set_state (Some params) now ctx of (r, ctx) \<Rightarrow> (if r \<noteq> 0 then -1 else 0, ctx)))"

definition cmd_ssr_reset :: "(nat \<Rightarrow> u64) \<Rightarrow> ssr_context \<Rightarrow> int \<times> ssr_context" where
  "cmd_ssr_reset now ctx = (0, ssr_reset_all now ctx)"

definition ssr_api_state_set :: "u8 \<Rightarrow> bool \<Rightarrow> u32 \<Rightarrow> u32 \<Rightarrow> u64 \<Rightarrow> ssr_context option \<Rightarrow> int \<times> ssr_context option" where
  "ssr_api_state_set rid state time delay now c =
     (case c of None \<Rightarrow> (-1, None)
      | Some ctx \<Rightarrow> (case ssr_state_set rid (if state then on_state ctx \<noteq> 0 else on_state ctx = 0) time delay now ctx of
           (r, ctx) \<Rightarrow> (r, Some ctx)))"

definition ssr_api_state_get :: "u8 \<Rightarrow> ssr_context option \<Rightarrow> (bool \<times> u32 \<times> u32) option" where
  "ssr_api_state_get rid c =
     (case c of None \<Rightarrow> None
      | Some ctx \<Rightarrow>
          (case relay_at ctx (unat rid) of None \<Rightarrow> None
           | Some r \<Rightarrow> Some (of_bool (state_actual r) = on_state ctx,
               word_of_int (time_remain_ms r), word_of_int (drelay_remain_ms r))))"

section \<open>One relay\<close>

text \<open>What \<open>ssr_run_one\<close> does to its relay, and the level it puts on the pin, if any.\<close>

definition relay_step :: "u64 \<Rightarrow> u64 \<Rightarrow> ssr \<Rightarrow> ssr" where
  "relay_step now nw r =
     (let dt = int_of_word (time_ms r); dd = int_of_word (delay_ms r) in
      if delay_ms r > 0 then
        (let dd = ssr_left (delay_ms r) now (last_switch r)
         in relay_remain dt dd (if dd \<le> 0 then relay_set (state_desired r) (time_ms r) 0 nw r else r))
      else if time_ms r > 0 then
        (let dt = ssr_left (time_ms r) now (last_switch r)
         in relay_remain dt dd (if dt \<le> 0 then relay_set (\<not> state_desired r) 0 0 nw r else r))
      else relay_remain dt dd r)"

definition relay_put :: "u64 \<Rightarrow> ssr \<Rightarrow> bool option" where
  "relay_put now r =
     (if delay_ms r > 0 then
        (if ssr_left (delay_ms r) now (last_switch r) \<le> 0 then Some (state_desired r) else None)
      else if time_ms r > 0 then
        (if ssr_left (time_ms r) now (last_switch r) \<le> 0 then Some (\<not> state_desired r) else None)
      else None)"

text \<open>The part of a relay that decides its behaviour, and its step.\<close>

type_synonym relay_core = "bool \<times> bool \<times> u64 \<times> u32 \<times> u32"

definition core :: "ssr \<Rightarrow> relay_core" where
  "core r = (state_desired r, state_actual r, last_switch r, time_ms r, delay_ms r)"

fun core_step :: "u64 \<Rightarrow> u64 \<Rightarrow> relay_core \<Rightarrow> relay_core" where
  "core_step now nw (des, act, since, time, delay) =
     (if delay > 0 then (if ssr_left delay now since \<le> 0 then (des, des, nw, time, 0) else (des, act, since, time, delay))
      else if time > 0 then (if ssr_left time now since \<le> 0 then (\<not> des, \<not> des, nw, 0, 0) else (des, act, since, time, delay))
      else (des, act, since, time, delay))"

lemma core_upd [simp]: "core (set_force s v r) = core r" "core (relay_remain t d r) = core r"
  "gpio_pin (set_force s v r) = gpio_pin r" "gpio_pin (relay_remain t d r) = gpio_pin r"
  by (simp_all add: core_def set_force_def relay_remain_def Let_def)

lemma core_set: "core (relay_set s t d nw r) = (s, (if d = 0 then s else state_actual r), nw, t, d)"
  by (simp add: core_def relay_set_def set_force_def Let_def)

lemma pin_set [simp]: "gpio_pin (relay_set s t d nw r) = gpio_pin r"
  by (simp add: relay_set_def set_force_def Let_def)

lemma core_relay_step: "core (relay_step now nw r) = core_step now nw (core r)"
  by (simp add: relay_step_def Let_def core_set) (simp add: core_def)

lemma pin_relay_step [simp]: "gpio_pin (relay_step now nw r) = gpio_pin r"
  by (simp add: relay_step_def Let_def)

lemma small_id: "i < MAX_SSR_COUNT \<Longrightarrow> unat (word_of_nat i :: u8) = i"
  by (simp add: MAX_SSR_COUNT_def unsigned_of_nat take_bit_nat_eq_self)

definition ssr_ok :: "ssr_context \<Rightarrow> bool" where
  "ssr_ok ctx \<longleftrightarrow> length (relays ctx) = MAX_SSR_COUNT"

lemma relay_at_eq: "i < MAX_SSR_COUNT \<Longrightarrow> relay_at ctx i = relays ctx ! i"
  by (simp add: relay_at_def)

lemma relay_at_put [simp]:
  "ssr_ok ctx \<Longrightarrow> i < MAX_SSR_COUNT \<Longrightarrow> relay_at (put_relay i r ctx) j = (if j = i then Some r else relay_at ctx j)"
  by (simp add: relay_at_def put_relay_def ssr_ok_def)

lemma relay_at_gpio [simp]: "relay_at (gpio_put p v ctx) j = relay_at ctx j"
  by (simp add: relay_at_def gpio_put_def)

lemma ssr_ok_put [simp]: "ssr_ok (put_relay i r ctx) = ssr_ok ctx" "ssr_ok (gpio_put p v ctx) = ssr_ok ctx"
  by (simp_all add: ssr_ok_def put_relay_def gpio_put_def)

lemma put_put [simp]: "put_relay i r (put_relay i r' ctx) = put_relay i r ctx"
  by (simp add: put_relay_def)

lemma pins_put [simp]: "pins (put_relay i r ctx) = pins ctx" "pins (gpio_put p v ctx) = (pins ctx)(p := v)"
  "on_state (put_relay i r ctx) = on_state ctx" "on_state (gpio_put p v ctx) = on_state ctx"
  by (simp_all add: put_relay_def gpio_put_def)

lemma run_one_eq:
  assumes "ssr_ok ctx" and i: "i < MAX_SSR_COUNT" and r: "relay_at ctx i = Some r"
  shows "ssr_run_one now now' i ctx = put_relay i (relay_step now (now' i) r)
    (case relay_put now r of None \<Rightarrow> ctx | Some v \<Rightarrow> gpio_put (gpio_pin r) v ctx)"
  using assms small_id [OF i]
  by (simp add: ssr_run_one_def relay_step_def relay_put_def Let_def ssr_state_set_def ssr_state_remain_times_def)

lemma run_one_none: "relay_at ctx i = None \<Longrightarrow> ssr_run_one now now' i ctx = ctx"
  by (simp add: ssr_run_one_def)

lemma run_one_ok: "ssr_ok ctx \<Longrightarrow> i < MAX_SSR_COUNT \<Longrightarrow> ssr_ok (ssr_run_one now now' i ctx) \<and>
    (\<forall>j. relay_at (ssr_run_one now now' i ctx) j =
      (if j = i then map_option (relay_step now (now' i)) (relay_at ctx i) else relay_at ctx j))"
  by (cases "relay_at ctx i") (auto simp: run_one_eq run_one_none split: option.split)

lemma timers_fold:
  "ssr_ok ctx \<Longrightarrow> distinct js \<Longrightarrow> \<forall>j\<in>set js. j < MAX_SSR_COUNT \<Longrightarrow>
   ssr_ok (fold (ssr_run_one now now') js ctx) \<and>
   relay_at (fold (ssr_run_one now now') js ctx) i =
     (if i \<in> set js then map_option (relay_step now (now' i)) (relay_at ctx i) else relay_at ctx i)"
proof (induction js arbitrary: ctx)
  case (Cons j js)
  note o = run_one_ok [of ctx j now now']
  then show ?case using Cons.IH [of "ssr_run_one now now' j ctx"] Cons.prems by auto
qed simp

lemma timers_relay:
  assumes "ssr_ok ctx"
  shows "ssr_ok (ssr_timers now now' ctx)"
    and "relay_at (ssr_timers now now' ctx) i = map_option (relay_step now (now' i)) (relay_at ctx i)"
  using timers_fold [OF assms, of "[0 ..< MAX_SSR_COUNT]" now now' i]
  by (auto simp: ssr_timers_def relay_at_def)

section \<open>Elapsed time\<close>

lemma s32_mod: "s32 (x mod 4294967296) = s32 x"
  by (simp add: s32_def mod_add_left_eq)

lemma ssr_left_eq:
  assumes "unat ms < 2147483648" and "unat (now - since) < 2147483648"
  shows "ssr_left ms now since = int (unat ms) - int (unat (now - since))"
proof -
  have i: "uint w = int (unat w)" for w :: u64 by simp
  have lt: "uint (now - since) < 2147483648" using assms(2) unfolding i by linarith
  have u: "uint (ucast (now - since) :: u32) = int (unat (now - since))"
    using lt by (simp add: unsigned_ucast_eq take_bit_int_eq_self)
  have m: "uint ms = int (unat ms)" by simp
  have "uint (ms - ucast (now - since)) = (int (unat ms) - int (unat (now - since))) mod 4294967296"
    by (simp only: uint_word_ariths u m) simp
  then show ?thesis
    unfolding ssr_left_def int_of_word_def using assms by (simp only: s32_mod) (rule s32_id; linarith)
qed

lemma left_positive:
  "unat ms < 2147483648 \<Longrightarrow> unat (now - since) < unat ms \<Longrightarrow> \<not> ssr_left ms now since \<le> 0"
  by (subst ssr_left_eq) linarith+

lemma left_over:
  "unat ms \<le> unat (now - since) \<Longrightarrow> unat (now - since) < 2147483648 \<Longrightarrow> ssr_left ms now since \<le> 0"
  by (subst ssr_left_eq) linarith+

section \<open>Switching with a delay and for a time\<close>

text \<open>Runs of the main loop: each with its reading and the readings at the switches.\<close>

fun timer_runs :: "(u64 \<times> (nat \<Rightarrow> u64)) list \<Rightarrow> ssr_context \<Rightarrow> ssr_context" where
  "timer_runs [] ctx = ctx"
| "timer_runs ((now, now') # ts) ctx = timer_runs ts (ssr_timers now now' ctx)"

fun core_runs :: "(u64 \<times> (nat \<Rightarrow> u64)) list \<Rightarrow> nat \<Rightarrow> relay_core \<Rightarrow> relay_core" where
  "core_runs [] i c = c"
| "core_runs ((now, now') # ts) i c = core_runs ts i (core_step now (now' i) c)"

lemma timer_runs_core:
  "ssr_ok ctx \<Longrightarrow> ssr_ok (timer_runs ts ctx) \<and>
   map_option core (relay_at (timer_runs ts ctx) i) = map_option (core_runs ts i) (map_option core (relay_at ctx i))"
proof (induction ts arbitrary: ctx)
  case (Cons t ts)
  obtain now now' where t: "t = (now, now')" by fastforce
  show ?case
    using Cons.IH [OF timers_relay(1) [OF Cons.prems, of now now']] timers_relay(2) [OF Cons.prems, of now now' i]
    by (simp add: t option.map_comp comp_def core_relay_step)
qed (simp add: option.map_comp comp_def)

lemma core_runs_append: "core_runs (xs @ ys) i c = core_runs ys i (core_runs xs i c)"
  by (induction xs i c rule: core_runs.induct) auto

lemma core_waits_delay:
  "0 < d \<Longrightarrow> unat d < 2147483648 \<Longrightarrow> \<forall>t\<in>set ts. unat (fst t - since) < unat d \<Longrightarrow>
   core_runs ts i (des, act, since, time, d) = (des, act, since, time, d)"
  by (induction ts) (auto simp: left_positive)

lemma core_waits_time:
  "0 < t \<Longrightarrow> unat t < 2147483648 \<Longrightarrow> \<forall>x\<in>set ts. unat (fst x - since) < unat t \<Longrightarrow>
   core_runs ts i (des, act, since, t, 0) = (des, act, since, t, 0)"
  by (induction ts) (auto simp: left_positive)

lemma core_rests: "core_runs ts i (des, act, since, 0, 0) = (des, act, since, 0, 0)"
  by (induction ts) auto

lemma ssr_state_set_Some:
  assumes "ssr_state_set rid s time delay now ctx = (0, ctx')" and "ssr_ok ctx"
  shows "\<exists>r. relay_at ctx (unat rid) = Some r \<and> unat rid < MAX_SSR_COUNT \<and> ssr_ok ctx' \<and>
    ctx' = put_relay (unat rid) (relay_set s time delay now r)
      (if delay = 0 then gpio_put (gpio_pin r) s ctx else ctx)"
  using assms by (auto simp: ssr_state_set_def relay_at_def split: option.splits if_splits)

text \<open>
  C4.  A relay command is carried out on time: after setting relay \<open>id\<close> to \<open>s\<close> for \<open>T\<close> ms after
  a delay of \<open>D\<close> ms (both below 2^31), the relay keeps its state in every turn of the main loop
  before the delay is over, is switched to \<open>s\<close> by the first turn after it and keeps it in every
  turn within the time \<open>T\<close>, is switched to the opposite by the first turn after that, and rests
  there however many turns follow.
\<close>

lemma relay_pulse:
  assumes ok: "ssr_ok ctx" and set: "ssr_state_set rid s T D t0 ctx = (0, ctx0)"
    and lim: "0 < T \<and> unat T < 2147483648 \<and> 0 < D \<and> unat D < 2147483648"
    and before: "\<forall>t\<in>set xs. unat (fst t - t0) < unat D"
    and t1: "unat D \<le> unat (t1 - t0) \<and> unat (t1 - t0) < 2147483648"
    and during: "\<forall>t\<in>set ys. unat (fst t - n1 (unat rid)) < unat T"
    and t2: "unat T \<le> unat (t2 - n1 (unat rid)) \<and> unat (t2 - n1 (unat rid)) < 2147483648"
  shows "map_option state_actual (relay_at (timer_runs xs ctx0) (unat rid)) =
           map_option state_actual (relay_at ctx (unat rid)) \<and>
    map_option state_actual (relay_at (timer_runs (xs @ (t1, n1) # ys) ctx0) (unat rid)) = Some s \<and>
    map_option state_actual (relay_at (timer_runs (xs @ (t1, n1) # ys @ (t2, n2) # zs) ctx0) (unat rid)) = Some (\<not> s)"
proof -
  let ?i = "unat rid"
  have D: "D \<noteq> 0" using lim by auto
  obtain r where r: "relay_at ctx ?i = Some r" "?i < MAX_SSR_COUNT" "ssr_ok ctx0"
    and c0: "ctx0 = put_relay ?i (relay_set s T D t0 r) ctx"
    using ssr_state_set_Some [OF set ok] D by auto
  have r0: "relay_at ctx0 ?i = Some (relay_set s T D t0 r)" using ok r by (simp add: c0)
  have core: "map_option core (relay_at (timer_runs ts ctx0) ?i) = Some (core_runs ts ?i (s, state_actual r, t0, T, D))" for ts
    using timer_runs_core [OF r(3), of ts ?i] r0 D by (simp add: core_set)
  have act: "map_option state_actual x = map_option (fst \<circ> snd) (map_option core x)" for x
    by (cases x) (simp_all add: core_def)
  have 1: "core_runs xs ?i (s, state_actual r, t0, T, D) = (s, state_actual r, t0, T, D)"
    using core_waits_delay before lim by simp
  have 2: "core_step t1 (n1 ?i) (s, state_actual r, t0, T, D) = (s, s, n1 ?i, T, 0)"
    using lim t1 by (simp add: left_over)
  have 3: "core_runs ys ?i (s, s, n1 ?i, T, 0) = (s, s, n1 ?i, T, 0)"
    using core_waits_time during lim by simp
  have 4: "core_step t2 (n2 ?i) (s, s, n1 ?i, T, 0) = (\<not> s, \<not> s, n2 ?i, 0, 0)"
    using lim t2 by (simp add: left_over)
  show ?thesis
    unfolding act core core_runs_append core_runs.simps 1 2 3 4 core_rests by (simp add: core_def r)
qed

section \<open>The pins follow the relays\<close>

text \<open>Each relay on a pin of its own, at the level of its actual state.\<close>

definition own_pins :: "ssr_context \<Rightarrow> bool" where
  "own_pins ctx \<longleftrightarrow> (\<forall>i j r q. relay_at ctx i = Some r \<and> relay_at ctx j = Some q \<and> gpio_pin r = gpio_pin q \<longrightarrow> i = j)"

definition pins_follow :: "ssr_context \<Rightarrow> bool" where
  "pins_follow ctx \<longleftrightarrow> (\<forall>i r. relay_at ctx i = Some r \<longrightarrow> pins ctx (gpio_pin r) = state_actual r)"

definition relays_ok :: "ssr_context \<Rightarrow> bool" where
  "relays_ok ctx \<longleftrightarrow> ssr_ok ctx \<and> own_pins ctx \<and> pins_follow ctx"

text \<open>Replacing a relay by one on the same pin, with its level put there when it switched.\<close>

lemma relays_ok_put:
  assumes ok: "relays_ok ctx" and i: "i < MAX_SSR_COUNT" and r: "relay_at ctx i = Some r"
    and pin: "gpio_pin r' = gpio_pin r"
    and act: "case lvl of None \<Rightarrow> state_actual r' = state_actual r | Some v \<Rightarrow> state_actual r' = v"
  shows "relays_ok (put_relay i r' (case lvl of None \<Rightarrow> ctx | Some v \<Rightarrow> gpio_put (gpio_pin r) v ctx))"
proof -
  have own: "own_pins ctx" and fol: "pins_follow ctx" and len: "ssr_ok ctx" using ok by (simp_all add: relays_ok_def)
  let ?c = "case lvl of None \<Rightarrow> ctx | Some v \<Rightarrow> gpio_put (gpio_pin r) v ctx"
  have len': "ssr_ok ?c" using len by (simp split: option.split)
  have at: "relay_at (put_relay i r' ?c) j = (if j = i then Some r' else relay_at ctx j)" for j
    using len' i by (simp split: option.split)
  have "own_pins (put_relay i r' ?c)"
    using own r pin unfolding own_pins_def at by (metis option.inject)
  moreover have "pins_follow (put_relay i r' ?c)"
    unfolding pins_follow_def at
  proof (intro allI impI)
    fix j q
    assume q: "(if j = i then Some r' else relay_at ctx j) = Some q"
    have "gpio_pin q \<noteq> gpio_pin r" "relay_at ctx j = Some q" if "j \<noteq> i"
      using q that own r unfolding own_pins_def by (auto simp: eq_commute)
    moreover have "q = r'" if "j = i" using q that by simp
    ultimately show "pins (put_relay i r' ?c) (gpio_pin q) = state_actual q"
      using fol r act pin by (cases "j = i") (auto simp: pins_follow_def split: option.splits)
  qed
  ultimately show ?thesis using len' by (simp add: relays_ok_def)
qed

lemma act_relay_step: "case relay_put now r of None \<Rightarrow> state_actual (relay_step now nw r) = state_actual r
    | Some v \<Rightarrow> state_actual (relay_step now nw r) = v"
proof -
  have "state_actual x = fst (snd (core x))" for x by (simp add: core_def)
  then show ?thesis by (simp add: core_relay_step relay_put_def) (simp add: core_def)
qed

lemma relays_ok_fold:
  "(\<And>j ctx. j < MAX_SSR_COUNT \<Longrightarrow> relays_ok ctx \<Longrightarrow> relays_ok (f j ctx)) \<Longrightarrow> relays_ok ctx \<Longrightarrow>
   \<forall>j\<in>set js. j < MAX_SSR_COUNT \<Longrightarrow> relays_ok (fold f js ctx)"
  by (induction js arbitrary: ctx) auto

lemma relays_ok_timers: "relays_ok ctx \<Longrightarrow> relays_ok (ssr_timers now now' ctx)"
proof -
  assume ok: "relays_ok ctx"
  have "relays_ok (ssr_run_one now now' j c)" if j: "j < MAX_SSR_COUNT" and c: "relays_ok c" for j c
  proof (cases "relay_at c j")
    case (Some r)
    have "ssr_ok c" using c by (simp add: relays_ok_def)
    from run_one_eq [OF this j Some, of now now'] show ?thesis
      using relays_ok_put [OF c j Some pin_relay_step act_relay_step] by simp
  qed (use c in \<open>simp add: run_one_none\<close>)
  then show ?thesis unfolding ssr_timers_def by (rule relays_ok_fold) (use ok in auto)
qed

lemma relays_ok_set: "relays_ok ctx \<Longrightarrow> relays_ok (snd (ssr_state_set rid s t d now ctx))"
proof (cases "relay_at ctx (unat rid)")
  case (Some r)
  assume ok: "relays_ok ctx"
  have i: "unat rid < MAX_SSR_COUNT" using Some by (auto simp: relay_at_def split: if_splits)
  have act: "case (if d = 0 then Some s else None) of None \<Rightarrow> state_actual (relay_set s t d now r) = state_actual r
      | Some v \<Rightarrow> state_actual (relay_set s t d now r) = v"
    by (simp add: relay_set_def set_force_def Let_def)
  show ?thesis
    using relays_ok_put [OF ok i Some pin_set act] Some by (simp add: ssr_state_set_def Let_def split: if_splits)
qed (simp add: ssr_state_set_def)

lemma relays_ok_reset: "relays_ok ctx \<Longrightarrow> relays_ok (ssr_reset_all now ctx)"
proof -
  assume ok: "relays_ok ctx"
  have "relays_ok (ssr_reset_one off now j c)" if j: "j < MAX_SSR_COUNT" and c: "relays_ok c" for off j c
  proof (cases "relay_at c j")
    case (Some r)
    let ?r = "set_force SSR_MQTT_SENSOR_STATE True
      (r\<lparr>state_actual := off, state_desired := off, time_ms := 0, delay_ms := 0, last_switch := now j\<rparr>)"
    have "gpio_pin ?r = gpio_pin r" "case Some off of None \<Rightarrow> state_actual ?r = state_actual r | Some v \<Rightarrow> state_actual ?r = v"
      by (simp_all add: set_force_def)
    from relays_ok_put [OF c j Some this] show ?thesis by (simp add: ssr_reset_one_def Some)
  qed (use c in \<open>simp add: ssr_reset_one_def\<close>)
  then show ?thesis unfolding ssr_reset_all_def by (rule relays_ok_fold) (use ok in auto)
qed

text \<open>
  C21.  The pins follow the relays: with every relay on a pin of its own, each pin stays at the
  level of its relay's actual state through every command (any id, state, time and delay),
  every turn of the timers and every reset, in any state and at any time.
\<close>

lemma pins_follow_relays:
  assumes "relays_ok ctx"
  shows "relays_ok (snd (cmd_ssr_set params now ctx)) \<and> relays_ok (snd (ssr_state_set rid s t d now ctx)) \<and>
    relays_ok (ssr_timers now now' ctx) \<and> relays_ok (ssr_reset_all now' ctx)"
proof -
  have "relays_ok (snd (cmd_ssr_set_state p now ctx))" for p
    using assms relays_ok_set [OF assms] by (auto simp: cmd_ssr_set_state_def Let_def split: option.split prod.split)
  then have "relays_ok (snd (cmd_ssr_set params now ctx))"
    using assms by (simp add: cmd_ssr_set_def split: prod.split) (metis snd_conv)
  then show ?thesis using assms relays_ok_set relays_ok_timers relays_ok_reset by blast
qed

section \<open>The relay interface\<close>

text \<open>
  What the users of relays (the thermostat, scripts) rely on: after a request the relay reports
  the requested state, and the other relays report what they did.  \<open>'t\<close> is the time of a call.
\<close>

locale relay_service =
  fixes rs_ok :: "'s \<Rightarrow> bool"
    and rs_valid :: "'i \<Rightarrow> 's \<Rightarrow> bool"
    and rs_set :: "'t \<Rightarrow> 'i \<Rightarrow> bool \<Rightarrow> 's \<Rightarrow> 's"
    and rs_get :: "'i \<Rightarrow> 's \<Rightarrow> bool"
  assumes set_ok: "rs_ok s \<Longrightarrow> rs_ok (rs_set t i b s)"
    and set_valid: "rs_ok s \<Longrightarrow> rs_valid j (rs_set t i b s) = rs_valid j s"
    and set_get: "rs_ok s \<Longrightarrow> rs_valid i s \<Longrightarrow> rs_get i (rs_set t i b s) = b"
    and set_other: "rs_ok s \<Longrightarrow> j \<noteq> i \<Longrightarrow> rs_get j (rs_set t i b s) = rs_get j s"
begin

definition set_all :: "('t \<times> 'i) list \<Rightarrow> bool \<Rightarrow> 's \<Rightarrow> 's" where
  "set_all is b s = fold (\<lambda>(t, i). rs_set t i b) is s"

lemma set_all_ok: "rs_ok s \<Longrightarrow> rs_ok (set_all is b s) \<and> rs_valid j (set_all is b s) = rs_valid j s"
  unfolding set_all_def by (induction "is" arbitrary: s) (auto simp: set_ok set_valid)

lemma set_all_other: "rs_ok s \<Longrightarrow> j \<notin> snd ` set is \<Longrightarrow> rs_get j (set_all is b s) = rs_get j s"
  unfolding set_all_def by (induction "is" arbitrary: s) (auto simp: set_ok set_other)

lemma set_all_get:
  "rs_ok s \<Longrightarrow> j \<in> snd ` set is \<Longrightarrow> rs_valid j s \<Longrightarrow> rs_get j (set_all is b s) = b"
proof (induction "is" arbitrary: s)
  case (Cons x xs)
  obtain t i where x: "x = (t, i)" by fastforce
  have s: "rs_ok (rs_set t i b s)" "rs_valid j (rs_set t i b s)" using Cons.prems by (auto simp: set_ok set_valid)
  show ?case
  proof (cases "j \<in> snd ` set xs")
    case True
    then show ?thesis using Cons.IH [OF s(1) True s(2)] by (simp add: set_all_def x)
  next
    case False
    then have "rs_get j (set_all xs b (rs_set t i b s)) = rs_get j (rs_set t i b s)"
      using set_all_other [OF s(1)] by blast
    then show ?thesis using False Cons.prems set_get by (auto simp: set_all_def x)
  qed
qed simp

end

definition ssr_service_ok :: "ssr_context option \<Rightarrow> bool" where
  "ssr_service_ok c = (case c of None \<Rightarrow> True | Some ctx \<Rightarrow> ssr_ok ctx \<and> on_state ctx \<in> {0, 1})"

definition ssr_valid :: "u8 \<Rightarrow> ssr_context option \<Rightarrow> bool" where
  "ssr_valid i c \<longleftrightarrow> ssr_api_state_get i c \<noteq> None"

definition ssr_switch :: "u64 \<Rightarrow> u8 \<Rightarrow> bool \<Rightarrow> ssr_context option \<Rightarrow> ssr_context option" where
  "ssr_switch t i b c = snd (ssr_api_state_set i b 0 0 t c)"

definition ssr_reports :: "u8 \<Rightarrow> ssr_context option \<Rightarrow> bool" where
  "ssr_reports i c = (case ssr_api_state_get i c of None \<Rightarrow> False | Some (b, _) \<Rightarrow> b)"

lemma actual_set [simp]: "state_actual (relay_set s t d now r) = (if d = 0 then s else state_actual r)"
  by (simp add: relay_set_def set_force_def Let_def)

lemma relay_at_lt: "relay_at ctx i = Some r \<Longrightarrow> i < MAX_SSR_COUNT"
  by (simp add: relay_at_def split: if_splits)

lemma ssr_switch_Some:
  assumes "ssr_service_ok (Some ctx)"
  shows "\<exists>ctx'. ssr_switch t i b (Some ctx) = Some ctx' \<and> ssr_service_ok (Some ctx') \<and> on_state ctx' = on_state ctx \<and>
    (\<forall>j. relay_at ctx' j = (if j = unat i then map_option (relay_set ((on_state ctx \<noteq> 0) = b) 0 0 t) (relay_at ctx j)
       else relay_at ctx j))"
  using assms
  by (cases "relay_at ctx (unat i)")
    (auto simp: ssr_switch_def ssr_api_state_set_def ssr_state_set_def ssr_service_ok_def Let_def dest: relay_at_lt)

interpretation ssr: relay_service ssr_service_ok ssr_valid ssr_switch ssr_reports
proof unfold_locales
  fix s t i b
  assume ok: "ssr_service_ok s"
  have none: "ssr_switch t i b None = None" by (simp add: ssr_switch_def ssr_api_state_set_def)
  show "ssr_service_ok (ssr_switch t i b s)"
    using ok ssr_switch_Some [of _ t i b] none by (cases s) fastforce+
  show "ssr_valid j (ssr_switch t i b s) = ssr_valid j s" for j
  proof (cases s)
    case (Some ctx)
    from ssr_switch_Some [of ctx t i b] ok obtain ctx' where "ssr_switch t i b s = Some ctx'"
      "relay_at ctx' (unat j) = None \<longleftrightarrow> relay_at ctx (unat j) = None"
      unfolding Some by auto
    then show ?thesis
      by (auto simp: ssr_valid_def ssr_api_state_get_def Some split: option.splits)
  qed (simp add: none)
  show "ssr_reports j (ssr_switch t i b s) = ssr_reports j s" if "j \<noteq> i" for j
  proof (cases s)
    case (Some ctx)
    have "unat j \<noteq> unat i" using that by (simp add: unsigned_word_eqI word_unat_eq_iff)
    with ssr_switch_Some [of ctx t i b] ok Some show ?thesis
      by (auto simp: ssr_reports_def ssr_api_state_get_def split: option.splits)
  qed (simp add: none)
  show "ssr_reports i (ssr_switch t i b s) = b" if v: "ssr_valid i s"
  proof (cases s)
    case (Some ctx)
    from ssr_switch_Some [of ctx t i b] ok obtain ctx' where c: "ssr_switch t i b s = Some ctx'"
      "on_state ctx' = on_state ctx"
      "relay_at ctx' (unat i) = map_option (relay_set ((on_state ctx \<noteq> 0) = b) 0 0 t) (relay_at ctx (unat i))"
      unfolding Some by auto
    obtain r where "relay_at ctx (unat i) = Some r"
      using v by (auto simp: ssr_valid_def ssr_api_state_get_def Some split: option.splits)
    with c ok show ?thesis
      by (auto simp: ssr_reports_def ssr_api_state_get_def ssr_service_ok_def Some)
  qed (use v in \<open>simp add: ssr_valid_def ssr_api_state_get_def\<close>)
qed

text \<open>
  C31.  The API switches what it reports: with \<open>SSR_TRIGGER\<close> 0 or 1, switching any list of
  existing relays to a state makes each of them report that state and leaves the reports of all
  the others alone.
\<close>

lemma ssr_api_switch_all:
  assumes "ssr_service_ok c" and "\<forall>(t, i)\<in>set is. ssr_valid i c"
  shows "ssr_reports j (fold (\<lambda>(t, i). ssr_switch t i b) is c) = (if j \<in> snd ` set is then b else ssr_reports j c)"
proof -
  have v: "ssr_valid j c" if "j \<in> snd ` set is" using assms(2) that by auto
  show ?thesis
    using ssr.set_all_get [OF assms(1) _ v] ssr.set_all_other [OF assms(1)]
    unfolding ssr.set_all_def by simp
qed

section \<open>Configuration and commands\<close>

lemma strtok_all_two:
  assumes "a \<noteq> []" "CHR '':'' \<notin> set a" "b \<noteq> []" "CHR '':'' \<notin> set b"
  shows "strtok_all (CHR '':'') (Some (a @ CHR '':'' # b)) = [a, b]"
  using strtok_r_simple [OF assms(1,2)] strtok_r_simple [OF assms(3,4)]
  by (simp add: strtok_all.simps [of _ "Some _"] strtok_all.simps [of _ None])

text \<open>
  The configured pin is ignored: an entry \<open><id>:<gpio pin>\<close> puts the relay on the pin that
  the text of its id reads as, whatever the pin text is, because both slots of \<open>tok_map\<close> get the
  id.
\<close>

lemma config_pin_is_id:
  assumes "a \<noteq> [] \<and> CHR '':'' \<notin> set a" and "p \<noteq> [] \<and> CHR '':'' \<notin> set p"
    and "0 \<le> strtol_val 10 a \<and> strtol_val 10 a < 29" and "ssr_ok ctx"
  shows "\<exists>ctx' r. ssr_config_entry True (a @ '':'' @ p) ctx = Some ctx' \<and>
    relay_at ctx' (nat (strtol_val 10 a)) = Some r \<and> gpio_pin r = strtol_val 0 a"
proof -
  have lead: "takeWhile (\<lambda>c. c = CHR '':'') (a @ x) = []" "dropWhile (\<lambda>c. c = CHR '':'') (a @ x) = a @ x" for x
    using assms(1) by (cases a; auto)+
  have et: "entry_text (a @ CHR '':'' # p) = a"
    using assms(1) by (simp add: entry_text_def lead c_str)
  have i: "nat (strtol_val 10 a) < MAX_SSR_COUNT" using assms(3) by (simp add: MAX_SSR_COUNT_def nat_less_iff)
  show ?thesis
    using assms strtok_all_two [of a p] et i
    by (auto simp: ssr_config_entry_def Let_def MAX_SSR_COUNT_def relay_at_def put_relay_def ssr_ok_def
        split: option.split)
qed

text \<open>
  Relay numbers wrap: the command \<open>ssr?set\<close> passes its id through a \<open>uint8_t\<close>, so two ids
  that differ by a multiple of 256 command the same relay, 256 the relay 0.
\<close>

lemma command_id_wraps:
  assumes "a \<noteq> [] \<and> CHR '':'' \<notin> set a" and "b \<noteq> [] \<and> CHR '':'' \<notin> set b"
    and "0 \<le> strtol_val 10 a" and "0 \<le> strtol_val 10 b"
    and "strtol_val 10 b mod 256 = strtol_val 10 a mod 256"
  shows "cmd_ssr_set ('':'' @ a @ '':'' @ rest) now ctx = cmd_ssr_set ('':'' @ b @ '':'' @ rest) now ctx"
proof -
  have w: "(word_of_int (strtol_val 10 b) :: u8) = word_of_int (strtol_val 10 a)"
    using assms(5) by (simp add: word_of_int_eq_iff take_bit_eq_mod)
  have lead: "strtok_r (CHR '':'') (Some (CHR '':'' # xs)) = strtok_r (CHR '':'') (Some xs)" for xs
    by (simp add: strtok_r_def)
  have t: "strtok_r (CHR '':'') (Some (CHR '':'' # a @ CHR '':'' # rest)) = (Some a, Some rest)"
    "strtok_r (CHR '':'') (Some (CHR '':'' # b @ CHR '':'' # rest)) = (Some b, Some rest)"
    unfolding lead using assms(1,2) strtok_r_simple(1) by blast+
  have "cmd_ssr_set_state (Some (CHR '':'' # a @ CHR '':'' # rest)) now ctx =
      cmd_ssr_set_state (Some (CHR '':'' # b @ CHR '':'' # rest)) now ctx"
    unfolding cmd_ssr_set_state_def t prod.case option.case Let_def w using assms(3,4) by simp
  then show ?thesis using assms(1,2) by (simp add: cmd_ssr_set_def)
qed

text \<open>The search for the next relay ends, because the module only runs with a relay.\<close>

lemma ssr_next_ends:
  assumes "length rs = MAX_SSR_COUNT" and "k < MAX_SSR_COUNT" and "rs ! k \<noteq> None"
  shows "\<exists>m. ssr_next rs i = Some m \<and> m < MAX_SSR_COUNT \<and> rs ! m \<noteq> None"
proof -
  have low: "\<exists>m. ssr_next rs i = Some m \<and> m < MAX_SSR_COUNT \<and> rs ! m \<noteq> None" if "i \<le> k" for i
    using that
  proof (induction "k - i" arbitrary: i)
    case 0
    then show ?case using assms by (subst ssr_next.simps) auto
  next
    case (Suc d)
    show ?case
    proof (cases "rs ! i")
      case None
      then show ?thesis using Suc.hyps(1) [of "i + 1"] Suc.hyps(2) Suc.prems assms(2)
        by (subst ssr_next.simps) auto
    qed (use Suc assms in \<open>subst ssr_next.simps, auto\<close>)
  qed
  have wrap: "ssr_next rs i = ssr_next rs 0" if "MAX_SSR_COUNT \<le> i" for i
    using that by (subst ssr_next.simps, subst (2) ssr_next.simps) (simp add: MAX_SSR_COUNT_def)
  show ?thesis
  proof (induction "MAX_SSR_COUNT - i" arbitrary: i)
    case 0
    then show ?case using wrap low [of 0] by simp
  next
    case (Suc d)
    show ?case
    proof (cases "rs ! i")
      case None
      then show ?thesis using Suc.hyps(1) [of "i + 1"] Suc.hyps(2)
        by (subst ssr_next.simps) (auto simp: Let_def)
    qed (use Suc assms in \<open>subst ssr_next.simps, auto\<close>)
  qed
qed

section \<open>Witnesses\<close>

definition demo_ssr :: ssr_context where
  "demo_ssr = zero_ssr\<lparr>on_state := 1, relays := (replicate 29 None)[0 := Some zero_relay,
     3 := Some (zero_relay\<lparr>gpio_pin := 3\<rparr>)]\<rparr>"

lemma demo_ssr_ok: "ssr_ok demo_ssr"
  by (simp add: ssr_ok_def demo_ssr_def MAX_SSR_COUNT_def)

lemma relay_pulse_witness:
  "\<exists>ctx0. ssr_state_set 3 True 5000 2000 100 demo_ssr = (0, ctx0) \<and>
     map_option state_actual (relay_at (timer_runs [(1000, \<lambda>_. 1000)] ctx0) 3) = Some False \<and>
     map_option state_actual (relay_at (timer_runs [(1000, \<lambda>_. 1000), (2200, \<lambda>_. 2200), (3000, \<lambda>_. 3000)] ctx0) 3) = Some True \<and>
     map_option state_actual (relay_at (timer_runs [(1000, \<lambda>_. 1000), (2200, \<lambda>_. 2200), (3000, \<lambda>_. 3000),
        (7200, \<lambda>_. 7200), (9000, \<lambda>_. 9000)] ctx0) 3) = Some False"
proof -
  obtain ctx0 where s: "ssr_state_set 3 True 5000 2000 100 demo_ssr = (0, ctx0)"
    by (simp add: ssr_state_set_def relay_at_def demo_ssr_def MAX_SSR_COUNT_def)
  have at: "relay_at demo_ssr 3 = Some (zero_relay\<lparr>gpio_pin := 3\<rparr>)"
    by (simp add: relay_at_def demo_ssr_def MAX_SSR_COUNT_def)
  from relay_pulse [OF demo_ssr_ok s, of "[(1000, \<lambda>_. 1000)]" 2200 "[(3000, \<lambda>_. 3000)]" "\<lambda>_. 2200" 7200 "\<lambda>_. 7200" "[(9000, \<lambda>_. 9000)]"]
  show ?thesis using s at by (simp add: zero_relay_def)
qed

lemma demo_at: "relay_at demo_ssr i = (if i = 0 then Some zero_relay else if i = 3 then Some (zero_relay\<lparr>gpio_pin := 3\<rparr>) else None)"
  by (auto simp: relay_at_def demo_ssr_def MAX_SSR_COUNT_def nth_list_update)

lemma pins_follow_relays_witness:
  "relays_ok (snd (cmd_ssr_set '':3:1'' 100 demo_ssr)) \<and> pins (snd (cmd_ssr_set '':3:1'' 100 demo_ssr)) 3"
proof -
  have "relays_ok demo_ssr"
    unfolding relays_ok_def own_pins_def pins_follow_def demo_at
    using demo_ssr_ok by (auto simp: zero_relay_def demo_ssr_def zero_ssr_def split: if_splits)
  moreover have "pins (snd (cmd_ssr_set '':3:1'' 100 demo_ssr)) 3" by code_simp
  ultimately show ?thesis using pins_follow_relays by blast
qed

lemma ssr_api_switch_all_witness:
  "ssr_reports 3 (fold (\<lambda>(t, i). ssr_switch t i True) [(10, 0), (20, 3)] (Some demo_ssr))"
proof -
  have "ssr_service_ok (Some demo_ssr)" using demo_ssr_ok by (simp add: ssr_service_ok_def demo_ssr_def)
  moreover have "\<forall>(t, i)\<in>set [(10, 0), (20, 3)]. ssr_valid i (Some demo_ssr)"
    by (simp add: ssr_valid_def ssr_api_state_get_def demo_at)
  ultimately show ?thesis using ssr_api_switch_all [of "Some demo_ssr" "[(10, 0), (20, 3)]" 3 True] by simp
qed

lemma config_pin_is_id_witness:
  "\<exists>ctx' r. ssr_config_entry True (''2:7'') zero_ssr = Some ctx' \<and> relay_at ctx' 2 = Some r \<and> gpio_pin r = 2"
proof -
  have v: "strtol_val 10 ''2'' = 2" "strtol_val 0 ''2'' = 2" by code_simp+
  have "ssr_ok zero_ssr" by (simp add: ssr_ok_def zero_ssr_def)
  from config_pin_is_id [OF _ _ _ this, of "''2''" "''7''"] v show ?thesis by simp
qed

lemma command_id_wraps_witness:
  "cmd_ssr_set '':256:1'' 5 demo_ssr = cmd_ssr_set '':0:1'' 5 demo_ssr"
proof -
  have v: "strtol_val 10 ''256'' = 256" "strtol_val 10 ''0'' = 0" by code_simp+
  show ?thesis using command_id_wraps [of "''256''" "''0''" "''1''" 5 demo_ssr] v by simp
qed

end
