(* ===== verification/Float32.thy ===== *)
theory Float32
  imports Prelude Complex_Main "HOL-Library.Log_Nat"
begin

text \<open>
  The C type \<open>float\<close> of the sensors and the thermostats: IEEE binary32 as a value that is a
  rational number, an infinity or NaN, with the comparisons of C (NaN is unordered), arithmetic
  rounded to the nearest, ties to even, reading (\<open>strtof\<close>, \<open>sys_strtof\<close> of \<open>sys_utils.c\<close>) and
  printing with two decimals (\<open>%3.2f\<close>).  The two zeros are one value.
\<close>

section \<open>Values and rounding\<close>

datatype f32 = Fin rat | PInf | NInf | NaN

definition pow2 :: "int \<Rightarrow> rat" where
  "pow2 k = 2 powi k"

lemma pow2_pos [simp]: "0 < pow2 k"
  by (simp add: pow2_def)

lemma pow2_add: "pow2 (a + b) = pow2 a * pow2 b"
  by (simp add: pow2_def power_int_add)

lemma pow2_mono: "a \<le> b \<Longrightarrow> pow2 a \<le> pow2 b"
  by (simp add: pow2_def power_int_increasing)

lemma pow2_nat: "0 \<le> k \<Longrightarrow> pow2 k = 2 ^ nat k"
  by (simp add: pow2_def power_int_def)

text \<open>The binary logarithm of a positive rational, rounded down.\<close>

definition ilog2 :: "rat \<Rightarrow> int" where
  "ilog2 x = (let (n, d) = quotient_of x; k = bitlen n - bitlen d in if pow2 k \<le> x then k else k - 1)"

lemma bitlen_range: "0 < n \<Longrightarrow> pow2 (bitlen n - 1) \<le> of_int n \<and> of_int n < pow2 (bitlen n)"
proof -
  assume n: "0 < n"
  have b: "2 ^ nat (bitlen n - 1) \<le> n" "n < 2 ^ nat (bitlen n)" "0 < bitlen n"
    using bitlen_bounds [OF n] n by (auto simp: bitlen_def compute_floorlog)
  have "pow2 (bitlen n - 1) = of_int (2 ^ nat (bitlen n - 1))" "pow2 (bitlen n) = of_int (2 ^ nat (bitlen n))"
    using b(3) by (simp_all add: pow2_nat)
  then show ?thesis using b(1,2) by (simp only: of_int_le_iff of_int_less_iff)
qed

lemma ilog2: "0 < x \<Longrightarrow> pow2 (ilog2 x) \<le> x \<and> x < pow2 (ilog2 x + 1)"
proof -
  assume x: "0 < x"
  obtain n d where q: "quotient_of x = (n, d)" by fastforce
  have d: "0 < d" and xe: "x = of_int n / of_int d" using quotient_of_denom_pos [OF q] quotient_of_div [OF q] by auto
  then have n: "0 < n" using x by (simp add: zero_less_divide_iff)
  define a b where "a = bitlen n" and "b = bitlen d"
  have na: "pow2 (a - 1) \<le> of_int n" "of_int n < pow2 a" and db: "pow2 (b - 1) \<le> of_int d" "of_int d < pow2 b"
    using bitlen_range [OF n] bitlen_range [OF d] by (simp_all add: a_def b_def)
  have "pow2 (a - b - 1) * pow2 b = pow2 (a - 1)" "pow2 (a - b + 1) * pow2 (b - 1) = pow2 a"
    by (simp_all flip: pow2_add)
  moreover have "pow2 (a - b - 1) * of_int d < pow2 (a - b - 1) * pow2 b"
    "pow2 (a - b + 1) * pow2 (b - 1) \<le> pow2 (a - b + 1) * of_int d"
    using db by (auto intro: mult_strict_left_mono mult_left_mono less_imp_le)
  ultimately have "pow2 (a - b - 1) * of_int d \<le> of_int n" "of_int n < pow2 (a - b + 1) * of_int d"
    using na by linarith+
  then have "pow2 (a - b - 1) \<le> x" "x < pow2 (a - b + 1)"
    using d by (simp_all add: xe field_simps)
  then show ?thesis by (simp add: ilog2_def q Let_def flip: a_def b_def)
qed

text \<open>The nearest integer, ties to the even one.\<close>

definition rhe :: "rat \<Rightarrow> int" where
  "rhe x = (let q = \<lfloor>x\<rfloor>; r = x - of_int q in
     if r < 1/2 then q else if r > 1/2 then q + 1 else if even q then q else q + 1)"

lemma rhe_floor: "\<lfloor>x\<rfloor> \<le> rhe x \<and> rhe x \<le> \<lfloor>x\<rfloor> + 1 \<and> (x = of_int \<lfloor>x\<rfloor> \<longrightarrow> rhe x = \<lfloor>x\<rfloor>)"
  by (simp add: rhe_def Let_def)

lemma rhe_le: "x \<le> of_int k \<Longrightarrow> rhe x \<le> k"
proof (cases "x = of_int \<lfloor>x\<rfloor>")
  case True
  assume "x \<le> of_int k"
  with True show ?thesis using rhe_floor [of x] by (metis of_int_le_iff)
next
  case False
  assume le: "x \<le> of_int k"
  have "of_int \<lfloor>x\<rfloor> < x" using False of_int_floor_le [of x] by linarith
  with le have "(of_int \<lfloor>x\<rfloor> :: rat) < of_int k" by linarith
  then have "\<lfloor>x\<rfloor> < k" by simp
  then show ?thesis using rhe_floor [of x] by linarith
qed

lemma rhe_ge: "of_int k \<le> x \<Longrightarrow> k \<le> rhe x"
  using rhe_floor [of x] by (meson le_floor_iff order_trans)

lemma rhe_int [simp]: "rhe (of_int k) = k"
  by (simp add: rhe_def)

definition f32_exp :: "rat \<Rightarrow> int" where
  "f32_exp x = max (ilog2 \<bar>x\<bar> - 23) (- 149)"

definition f32_rnd :: "rat \<Rightarrow> f32" where
  "f32_rnd x =
     (if x = 0 then Fin 0
      else let e = f32_exp x; v = of_int (rhe (x / pow2 e)) * pow2 e
        in if v \<ge> pow2 128 then PInf else if v \<le> - pow2 128 then NInf else Fin v)"

text \<open>The finite values of the type.\<close>

definition f32_rep :: "rat \<Rightarrow> bool" where
  "f32_rep t \<longleftrightarrow> \<bar>t\<bar> < pow2 128 \<and> (\<exists>k q. t = of_int k * pow2 q \<and> \<bar>k\<bar> \<le> 2 ^ 24 \<and> - 149 \<le> q)"

lemma f32_rep_bound: "f32_rep t \<Longrightarrow> t < pow2 128 \<and> - pow2 128 < t"
  by (auto simp: f32_rep_def abs_less_iff)

section \<open>Comparison and arithmetic\<close>

fun f32_le :: "f32 \<Rightarrow> f32 \<Rightarrow> bool" where
  "f32_le NaN _ = False"
| "f32_le _ NaN = False"
| "f32_le NInf _ = True"
| "f32_le _ PInf = True"
| "f32_le (Fin a) (Fin b) = (a \<le> b)"
| "f32_le _ _ = False"

fun f32_lt :: "f32 \<Rightarrow> f32 \<Rightarrow> bool" where
  "f32_lt NaN _ = False"
| "f32_lt _ NaN = False"
| "f32_lt NInf NInf = False"
| "f32_lt NInf _ = True"
| "f32_lt PInf _ = False"
| "f32_lt _ PInf = True"
| "f32_lt (Fin a) (Fin b) = (a < b)"
| "f32_lt _ NInf = False"

text \<open>\<open>a != b\<close>: NaN differs from everything, itself included.\<close>

definition f32_ne :: "f32 \<Rightarrow> f32 \<Rightarrow> bool" where
  "f32_ne a b \<longleftrightarrow> a = NaN \<or> b = NaN \<or> a \<noteq> b"

fun f32_neg :: "f32 \<Rightarrow> f32" where
  "f32_neg (Fin a) = Fin (- a)"
| "f32_neg PInf = NInf"
| "f32_neg NInf = PInf"
| "f32_neg NaN = NaN"

fun f32_add :: "f32 \<Rightarrow> f32 \<Rightarrow> f32" where
  "f32_add NaN _ = NaN"
| "f32_add _ NaN = NaN"
| "f32_add PInf NInf = NaN"
| "f32_add NInf PInf = NaN"
| "f32_add PInf _ = PInf"
| "f32_add _ PInf = PInf"
| "f32_add NInf _ = NInf"
| "f32_add _ NInf = NInf"
| "f32_add (Fin a) (Fin b) = f32_rnd (a + b)"

definition f32_sub :: "f32 \<Rightarrow> f32 \<Rightarrow> f32" where
  "f32_sub a b = f32_add a (f32_neg b)"

definition f32_of_int :: "int \<Rightarrow> f32" where
  "f32_of_int i = f32_rnd (of_int i)"

fun f32_mul :: "f32 \<Rightarrow> f32 \<Rightarrow> f32" where
  "f32_mul (Fin a) (Fin b) = f32_rnd (a * b)"
| "f32_mul NaN _ = NaN"
| "f32_mul _ NaN = NaN"
| "f32_mul (Fin a) PInf = (if a = 0 then NaN else if a > 0 then PInf else NInf)"
| "f32_mul (Fin a) NInf = (if a = 0 then NaN else if a > 0 then NInf else PInf)"
| "f32_mul PInf (Fin a) = (if a = 0 then NaN else if a > 0 then PInf else NInf)"
| "f32_mul NInf (Fin a) = (if a = 0 then NaN else if a > 0 then NInf else PInf)"
| "f32_mul PInf PInf = PInf"
| "f32_mul PInf NInf = NInf"
| "f32_mul NInf PInf = NInf"
| "f32_mul NInf NInf = PInf"

fun f32_div :: "f32 \<Rightarrow> f32 \<Rightarrow> f32" where
  "f32_div (Fin a) (Fin b) =
     (if b = 0 then (if a = 0 then NaN else if a > 0 then PInf else NInf) else f32_rnd (a / b))"
| "f32_div NaN _ = NaN"
| "f32_div _ NaN = NaN"
| "f32_div (Fin a) _ = Fin 0"
| "f32_div PInf (Fin b) = (if b < 0 then NInf else PInf)"
| "f32_div NInf (Fin b) = (if b < 0 then PInf else NInf)"
| "f32_div _ _ = NaN"

text \<open>Towards zero, as the target converts.\<close>

definition trunc_rat :: "rat \<Rightarrow> int" where
  "trunc_rat x = (if 0 \<le> x then \<lfloor>x\<rfloor> else \<lceil>x\<rceil>)"

definition f32_int :: "f32 \<Rightarrow> int" where
  "f32_int x = (case x of Fin v \<Rightarrow> trunc_rat v | _ \<Rightarrow> 0)"

lemma f32_sub_Fin [simp]: "f32_sub (Fin a) (Fin b) = f32_rnd (a - b)"
  by (simp add: f32_sub_def)

section \<open>Rounding is monotone and exact on the values of the type\<close>

lemma f32_rep_scaled:
  assumes t: "f32_rep t" and x: "x \<noteq> 0"
  shows "(\<exists>n. t = of_int n * pow2 (f32_exp x)) \<or>
    (\<bar>t\<bar> \<le> pow2 (f32_exp x + 23) \<and> pow2 (f32_exp x + 23) \<le> \<bar>x\<bar>)"
proof -
  obtain k q where kq: "t = of_int k * pow2 q" "\<bar>k\<bar> \<le> 2 ^ 24" "- 149 \<le> q"
    using t by (auto simp: f32_rep_def)
  define e where "e = f32_exp x"
  show ?thesis
  proof (cases "e \<le> q")
    case True
    then have "pow2 q = of_int (2 ^ nat (q - e)) * pow2 e"
      using pow2_add [of "q - e" e] by (simp add: pow2_nat)
    then have "t = of_int (k * 2 ^ nat (q - e)) * pow2 e" by (simp add: kq(1))
    then show ?thesis unfolding e_def by blast
  next
    case False
    then have e: "e = ilog2 \<bar>x\<bar> - 23" using kq(3) by (simp add: e_def f32_exp_def split: if_splits)
    have "\<bar>t\<bar> = of_int \<bar>k\<bar> * pow2 q" by (simp add: kq(1) abs_mult abs_of_pos [OF pow2_pos])
    also have "\<dots> \<le> 2 ^ 24 * pow2 q"
      using kq(2) by (metis mult_right_mono of_int_le_iff of_int_numeral of_int_power less_imp_le pow2_pos)
    also have "\<dots> = pow2 (q + 24)" by (simp add: pow2_add pow2_nat)
    also have "\<dots> \<le> pow2 (e + 23)" using False by (intro pow2_mono) simp
    finally have "\<bar>t\<bar> \<le> pow2 (e + 23)" .
    moreover have "pow2 (e + 23) \<le> \<bar>x\<bar>" using ilog2 [of "\<bar>x\<bar>"] x by (simp add: e)
    ultimately show ?thesis unfolding e_def by blast
  qed
qed

lemma rnd_scaled_le:
  assumes t: "f32_rep t" and x: "x \<noteq> 0" "x \<le> t"
  shows "of_int (rhe (x / pow2 (f32_exp x))) * pow2 (f32_exp x) \<le> t"
proof -
  define p where "p = pow2 (f32_exp x)"
  have p: "0 < p" by (simp add: p_def)
  have "rhe (x / p) \<le> n" if "x \<le> of_int n * p" for n
    using that p by (intro rhe_le) (simp add: divide_le_eq)
  then have up: "x \<le> of_int n * p \<Longrightarrow> of_int (rhe (x / p)) * p \<le> of_int n * p" for n
    using p by (simp add: mult_right_mono)
  from f32_rep_scaled [OF t x(1)] show ?thesis
  proof
    assume "\<exists>n. t = of_int n * pow2 (f32_exp x)"
    then show ?thesis using up x(2) by (auto simp: p_def)
  next
    assume a: "\<bar>t\<bar> \<le> pow2 (f32_exp x + 23) \<and> pow2 (f32_exp x + 23) \<le> \<bar>x\<bar>"
    have s: "pow2 (f32_exp x + 23) = of_int (2 ^ 23) * p" by (simp add: pow2_add p_def pow2_nat)
    show ?thesis
    proof (cases "x = t")
      case True
      with a have "x = of_int (2 ^ 23) * p \<or> x = of_int (- (2 ^ 23)) * p" using s by (cases "0 \<le> x") auto
      then show ?thesis using up x(2) by (metis p_def True order_refl)
    next
      case False
      with x(2) a have "x \<le> of_int (- (2 ^ 23)) * p" "of_int (- (2 ^ 23)) * p \<le> t" using s by auto
      then show ?thesis using up [of "- (2 ^ 23)"] by (simp add: p_def)
    qed
  qed
qed

lemma rhe_neg: "rhe (- x) = - rhe x"
proof (cases "x = of_int \<lfloor>x\<rfloor>")
  case True
  then show ?thesis by (metis of_int_minus rhe_int)
next
  case False
  then have f: "\<lfloor>- x\<rfloor> = - \<lfloor>x\<rfloor> - 1" by linarith
  have "- x - of_int \<lfloor>- x\<rfloor> = 1 - (x - of_int \<lfloor>x\<rfloor>)" by (simp add: f)
  then show ?thesis unfolding rhe_def Let_def by (simp add: f)
qed

lemma f32_exp_neg [simp]: "f32_exp (- x) = f32_exp x"
  by (simp add: f32_exp_def)

lemma f32_rep_neg_imp: "f32_rep t \<Longrightarrow> f32_rep (- t)"
proof -
  assume "f32_rep t"
  then obtain k q where "\<bar>t\<bar> < pow2 128" "t = of_int k * pow2 q" "\<bar>k\<bar> \<le> 2 ^ 24" "- 149 \<le> q"
    unfolding f32_rep_def by blast
  then show ?thesis unfolding f32_rep_def by (intro conjI exI [of _ "- k"] exI [of _ q]) simp_all
qed

lemma rnd_scaled_ge:
  assumes t: "f32_rep t" and x: "x \<noteq> 0" "t \<le> x"
  shows "t \<le> of_int (rhe (x / pow2 (f32_exp x))) * pow2 (f32_exp x)"
proof -
  from rnd_scaled_le [OF f32_rep_neg_imp [OF t], of "- x"] x have
    "of_int (rhe (- (x / pow2 (f32_exp x)))) * pow2 (f32_exp x) \<le> - t" by simp
  then show ?thesis unfolding rhe_neg by simp
qed

lemma f32_rnd_le: "f32_rep t \<Longrightarrow> x \<le> t \<Longrightarrow> f32_le (f32_rnd x) (Fin t)"
  using rnd_scaled_le [of t x] f32_rep_bound [of t] by (cases "x = 0") (auto simp: f32_rnd_def Let_def)

lemma f32_rnd_ge: "f32_rep t \<Longrightarrow> t \<le> x \<Longrightarrow> f32_le (Fin t) (f32_rnd x)"
  using rnd_scaled_ge [of t x] f32_rep_bound [of t] by (cases "x = 0") (auto simp: f32_rnd_def Let_def)

lemma f32_rnd_rep: "f32_rep t \<Longrightarrow> f32_rnd t = Fin t"
proof (cases "t = 0")
  case False
  assume t: "f32_rep t"
  have "of_int (rhe (t / pow2 (f32_exp t))) * pow2 (f32_exp t) = t"
    using rnd_scaled_ge [OF t False] rnd_scaled_le [OF t False] by (simp add: order_antisym)
  then show ?thesis using f32_rep_bound [OF t] False by (simp add: f32_rnd_def Let_def)
qed (simp add: f32_rnd_def)

lemma f32_rep_int: "\<bar>k\<bar> \<le> 2 ^ 24 \<Longrightarrow> f32_rep (of_int k)"
proof -
  assume k: "\<bar>k\<bar> \<le> 2 ^ 24"
  then have "of_int \<bar>k\<bar> \<le> (of_int (2 ^ 24) :: rat)" by (rule of_int_le_iff [THEN iffD2])
  then have "\<bar>of_int k :: rat\<bar> \<le> 2 ^ 24" by simp
  moreover have "(2 :: rat) ^ 24 < pow2 128" by (simp add: pow2_nat)
  ultimately show ?thesis unfolding f32_rep_def using k
    by (intro conjI exI [of _ k] exI [of _ 0]) (auto simp: pow2_def)
qed

lemma f32_rnd_is_rep: "f32_rnd x = Fin v \<Longrightarrow> f32_rep v"
proof -
  assume v: "f32_rnd x = Fin v"
  show ?thesis
  proof (cases "x = 0")
    case True
    with v show ?thesis using f32_rep_int [of 0] by (simp add: f32_rnd_def)
  next
    case False
    define e p where "e = f32_exp x" and "p = pow2 (f32_exp x)"
    have p: "0 < p" by (simp add: p_def)
    have ve: "v = of_int (rhe (x / p)) * p" "\<bar>v\<bar> < pow2 128"
      using v False by (auto simp: f32_rnd_def Let_def p_def split: if_splits)
    have "ilog2 \<bar>x\<bar> + 1 \<le> e + 24" by (simp add: e_def f32_exp_def)
    then have "pow2 (ilog2 \<bar>x\<bar> + 1) \<le> pow2 (e + 24)" by (rule pow2_mono)
    moreover have "\<bar>x\<bar> < pow2 (ilog2 \<bar>x\<bar> + 1)" using ilog2 [of "\<bar>x\<bar>"] False by simp
    ultimately have "\<bar>x\<bar> < pow2 (e + 24)" by (rule less_le_trans [rotated])
    then have b: "\<bar>x\<bar> < 2 ^ 24 * p" by (simp add: pow2_add pow2_nat e_def p_def mult.commute)
    then have "x / p \<le> of_int (2 ^ 24)" "of_int (- (2 ^ 24)) \<le> x / p"
      using p by (auto simp: divide_le_eq le_divide_eq abs_if split: if_splits)
    from this(1) [THEN rhe_le] this(2) [THEN rhe_ge] have "\<bar>rhe (x / p)\<bar> \<le> 2 ^ 24" by (simp add: abs_le_iff)
    moreover have "- 149 \<le> e" by (simp add: e_def f32_exp_def)
    ultimately show ?thesis unfolding f32_rep_def using ve by (auto simp: p_def e_def)
  qed
qed

lemma f32_rnd_not_NaN [simp]: "f32_rnd x \<noteq> NaN"
  by (simp add: f32_rnd_def Let_def)

text \<open>A value of the type is well formed when it is one of its numbers or special.\<close>

definition f32_ok :: "f32 \<Rightarrow> bool" where
  "f32_ok x \<longleftrightarrow> (case x of Fin t \<Rightarrow> f32_rep t | _ \<Rightarrow> True)"

lemma f32_ok_rnd [simp]: "f32_ok (f32_rnd x)"
  using f32_rnd_is_rep by (auto simp: f32_ok_def split: f32.splits)

lemma f32_ok_simps [simp]: "f32_ok PInf" "f32_ok NInf" "f32_ok NaN" "f32_ok (Fin t) = f32_rep t"
  by (simp_all add: f32_ok_def)

lemma f32_rep_neg [simp]: "f32_rep (- t) = f32_rep t"
  using f32_rep_neg_imp [of t] f32_rep_neg_imp [of "- t"] by auto

lemma f32_ok_add [simp]: "f32_ok a \<Longrightarrow> f32_ok b \<Longrightarrow> f32_ok (f32_add a b)"
  by (cases a; cases b) auto

lemma f32_ok_sub [simp]: "f32_ok a \<Longrightarrow> f32_ok b \<Longrightarrow> f32_ok (f32_sub a b)"
  unfolding f32_sub_def by (rule f32_ok_add) (cases b; simp)+

section \<open>Reading and printing\<close>

text \<open>
  \<open>strtof\<close>: white space, sign, then \<open>inf\<close>, \<open>nan\<close>, a hexadecimal or a decimal number with an
  optional exponent.  The value is rounded once, as newlib does; the rest is what follows.
\<close>

definition lower :: "char \<Rightarrow> char" where
  "lower c = (let n = of_char c :: nat in if 65 \<le> n \<and> n \<le> 90 then char_of (n + 32) else c)"

definition has_prefix :: "string \<Rightarrow> string \<Rightarrow> bool" where
  "has_prefix p s \<longleftrightarrow> map lower (take (length p) s) = p"

text \<open>Digits, point, digits: the value of all digits, the number after the point, whether any.\<close>

definition mantissa :: "nat \<Rightarrow> string \<Rightarrow> int \<times> nat \<times> bool \<times> string" where
  "mantissa b s =
     (let (v, r) = digits_value b 0 s in
      if r \<noteq> [] \<and> hd r = CHR ''.'' then
        (let (w, r') = digits_value b v (tl r); k = length (tl r) - length r'
         in if length r < length s \<or> k > 0 then (w, k, True, r') else (0, 0, False, s))
      else (v, 0, length r < length s, r))"

definition exponent :: "char \<Rightarrow> string \<Rightarrow> int \<times> string" where
  "exponent c s =
     (if s \<noteq> [] \<and> lower (hd s) = c then
        (let t = tl s; neg = (t \<noteq> [] \<and> hd t = CHR ''-'');
             u = (if t \<noteq> [] \<and> (hd t = CHR ''-'' \<or> hd t = CHR ''+'') then tl t else t)
         in if u \<noteq> [] \<and> is_digit 10 (hd u)
            then (let (v, r) = digits_value 10 0 u in (if neg then - v else v, r)) else (0, s))
      else (0, s))"

definition strto_fl :: "(rat \<Rightarrow> f32) \<Rightarrow> string \<Rightarrow> f32 \<times> string" where
  "strto_fl rnd s =
     (let t = dropWhile is_space s;
          neg = (t \<noteq> [] \<and> hd t = CHR ''-'');
          u = (if t \<noteq> [] \<and> (hd t = CHR ''-'' \<or> hd t = CHR ''+'') then tl t else t);
          sgn = (\<lambda>x. if neg then f32_neg x else x)
      in if has_prefix ''infinity'' u then (sgn PInf, drop 8 u)
         else if has_prefix ''inf'' u then (sgn PInf, drop 3 u)
         else if has_prefix ''nan'' u then (NaN, drop 3 u)
         else if has_prefix ''0x'' u \<and> fst (snd (snd (mantissa 16 (drop 2 u))))
         then (let (v, k, _, r) = mantissa 16 (drop 2 u); (e, r) = exponent (CHR ''p'') r
               in (sgn (rnd (of_int v * pow2 (e - 4 * int k))), r))
         else (let (v, k, any, r) = mantissa 10 u; (e, r') = exponent (CHR ''e'') r
               in if any then (sgn (rnd (of_int v * 10 powi (e - int k))), r') else (Fin 0, s)))"

definition strtof :: "string \<Rightarrow> f32 \<times> string" where
  "strtof s = strto_fl f32_rnd s"

definition sys_strtof :: "string option \<Rightarrow> f32 option" where
  "sys_strtof strp =
     (case strp of None \<Rightarrow> None
      | Some s \<Rightarrow>
          (let (v, rest) = strtof s in
           if v = Fin 0 \<and> rest = s then None
           else (case v of Fin x \<Rightarrow> Some v | _ \<Rightarrow> None)))"

lemma sys_strtof_fin: "sys_strtof s = Some v \<Longrightarrow> \<exists>x. v = Fin x"
  by (auto simp: sys_strtof_def Let_def case_prod_beta split: option.splits if_splits f32.splits intro: sym)

text \<open>\<open>%3.2f\<close>: two decimals, rounded to nearest with ties to even as the exact value allows.\<close>

definition fmt_2f :: "f32 \<Rightarrow> string" where
  "fmt_2f x =
     (case x of PInf \<Rightarrow> ''inf'' | NInf \<Rightarrow> ''-inf'' | NaN \<Rightarrow> ''nan''
      | Fin v \<Rightarrow>
          (let c = nat (rhe (100 * \<bar>v\<bar>)); f = nat_str (c mod 100)
           in (if v < 0 then ''-'' else []) @ nat_str (c div 100) @ ''.'' @ (if length f < 2 then ''0'' @ f else f)))"

lemma sys_strtof_examples:
  "sys_strtof (Some ''20.5'') = Some (Fin (41 / 2))" "sys_strtof (Some ''x'') = None"
  "sys_strtof (Some ''nan'') = None" "fmt_2f (Fin (41 / 2)) = ''20.50''"
  by code_simp+

end
