(* ===== verification/RSensor.thy ===== *)
theory RSensor
  imports Mqtt Float32
begin

text \<open>
  The remote sensors, \<open>libs/common/devices/rsensor/rsensor.c\<close>: up to ten named values, each read
  from the messages of an MQTT topic, as plain text or under a JSON key.  A hook of the MQTT
  service is the number of its sensor.  lwJSON is not part of the sources: \<open>jfind\<close> looks a key up
  in a parsed document.
\<close>

definition RSENS_MAX :: nat where "RSENS_MAX = 10"

record rsensor =
  rs_name :: string
  rs_topic :: string
  rs_key :: "string option"
  rs_val :: f32
  rs_valid :: bool
  rs_subscribed :: bool
  rs_last_data :: u64

record rsens_context =
  rsensors :: "rsensor list"
  rs_debug :: u32
  rs_runs :: bool

text \<open>A JSON token: the text from the start of a string to the end of the message, with its length.\<close>

datatype jtok = LWJSON_TYPE_STRING string nat | LWJSON_TYPE_NUM_INT int | LWJSON_TYPE_NUM_REAL f32 | LWJSON_TYPE_OTHER

section \<open>Configuration\<close>

text \<open>
  One entry \<open><name>:<topic>[:<key>]\<close>: Inl False is the exit on a failed allocation, Inl True an
  entry that is skipped.  \<open>al j\<close> tells whether the j-th allocation of the entry succeeds.
\<close>

definition rsens_entry :: "(nat \<Rightarrow> bool) \<Rightarrow> string \<Rightarrow> bool + rsensor" where
  "rsens_entry al tok =
     (case strtok_r (CHR '':'') (Some tok) of
        (Some name, Some r) \<Rightarrow>
          if \<not> al 0 then Inl False
          else
            (case strtok_r (CHR '':'') (Some r) of
               (None, _) \<Rightarrow> Inl True
             | (Some topic, key) \<Rightarrow>
                 if \<not> al 1 \<or> key \<noteq> None \<and> \<not> al 2 \<or> \<not> al 3 then Inl False
                 else Inr \<lparr>rs_name = name, rs_topic = topic, rs_key = key, rs_val = Fin 0, rs_valid = False,
                           rs_subscribed = False, rs_last_data = 0\<rparr>)
      | _ \<Rightarrow> Inl True)"

fun rsens_entries :: "(nat \<Rightarrow> nat \<Rightarrow> bool) \<Rightarrow> string list \<Rightarrow> rsensor list \<Rightarrow> rsensor list option" where
  "rsens_entries al [] ss = Some ss"
| "rsens_entries al (t # ts) ss =
     (case rsens_entry (al 0) t of
        Inl False \<Rightarrow> None
      | Inl True \<Rightarrow> rsens_entries (\<lambda>i. al (Suc i)) ts ss
      | Inr s \<Rightarrow> (if length ss + 1 \<ge> RSENS_MAX then Some (ss @ [s])
                  else rsens_entries (\<lambda>i. al (Suc i)) ts (ss @ [s])))"

definition rsens_init :: "bool \<Rightarrow> (nat \<Rightarrow> nat \<Rightarrow> bool) \<Rightarrow> string option \<Rightarrow> rsens_context option" where
  "rsens_init alloc al cfg =
     (case cfg of None \<Rightarrow> None
      | Some s \<Rightarrow>
          if length s < 1 \<or> \<not> alloc then None
          else map_option (\<lambda>ss. \<lparr>rsensors = ss, rs_debug = 0, rs_runs = True\<rparr>)
                 (rsens_entries al (strtok_all (CHR '';'') (Some s)) []))"

section \<open>Data\<close>

text \<open>The result of \<open>rsens_json_parse\<close>: None is the error return, the value is then unchanged.\<close>

definition rsens_json_parse :: "('j \<Rightarrow> string \<Rightarrow> jtok option) \<Rightarrow> string \<Rightarrow> 'j option \<Rightarrow> f32 option" where
  "rsens_json_parse jfind key lwjson =
     (case lwjson of None \<Rightarrow> None
      | Some j \<Rightarrow>
          (case jfind j key of None \<Rightarrow> None
           | Some (LWJSON_TYPE_STRING t n) \<Rightarrow> if n < 1 then None else sys_strtof (Some t)
           | Some (LWJSON_TYPE_NUM_INT i) \<Rightarrow> Some (f32_of_int i)
           | Some (LWJSON_TYPE_NUM_REAL (Fin x)) \<Rightarrow> Some (Fin x)
           | Some (LWJSON_TYPE_NUM_REAL _) \<Rightarrow> None
           | Some LWJSON_TYPE_OTHER \<Rightarrow> None))"

definition rsens_parse :: "('j \<Rightarrow> string \<Rightarrow> jtok option) \<Rightarrow> rsensor \<Rightarrow> string \<Rightarrow> 'j option \<Rightarrow> f32 option" where
  "rsens_parse jfind s data lwjson =
     (case rs_key s of Some k \<Rightarrow> rsens_json_parse jfind k lwjson
      | None \<Rightarrow> sys_strtof (Some (takeWhile (\<lambda>c. c \<noteq> CHR 0x00) data)))"

definition rsens_data_cb ::
  "('j \<Rightarrow> string \<Rightarrow> jtok option) \<Rightarrow> u64 \<Rightarrow> nat \<Rightarrow> string \<Rightarrow> 'j option \<Rightarrow> rsens_context \<Rightarrow> rsens_context" where
  "rsens_data_cb jfind now i data lwjson ctx =
     (if length data < 1 then ctx
      else ctx\<lparr>rsensors := upd_at i (\<lambda>s.
        (case rsens_parse jfind s data lwjson of
           Some v \<Rightarrow> s\<lparr>rs_val := v, rs_last_data := now, rs_valid := True\<rparr>
         | None \<Rightarrow> s\<lparr>rs_valid := False\<rparr>)) (rsensors ctx)\<rparr>)"

text \<open>
  The loop of the module subscribes one sensor per call and, with all subscribed, removes itself.
  \<open>al\<close> is the allocation oracle of \<open>mqtt_topic_listen\<close>; None is its access out of bounds.
\<close>

definition rsens_next :: "rsensor list \<Rightarrow> nat" where
  "rsens_next ss = length (takeWhile rs_subscribed ss)"

definition rsens_run ::
  "(nat \<Rightarrow> bool) \<Rightarrow> rsens_context \<times> nat mqtt_context option \<Rightarrow> (rsens_context \<times> nat mqtt_context option) option" where
  "rsens_run al st =
     (case st of (ctx, mq) \<Rightarrow>
       (let i = rsens_next (rsensors ctx) in
        if i \<ge> length (rsensors ctx) then Some (ctx\<lparr>rs_runs := False\<rparr>, mq)
        else
          (case mqtt_topic_listen al (rs_topic (rsensors ctx ! i)) i (rs_key (rsensors ctx ! i) \<noteq> None) mq of
             None \<Rightarrow> None
           | Some (r, mq) \<Rightarrow>
               Some (if r = 0 then ctx\<lparr>rsensors := upd_at i (\<lambda>s. s\<lparr>rs_subscribed := True\<rparr>) (rsensors ctx)\<rparr> else ctx,
                     mq))))"

definition rsens_debug_set :: "u32 \<Rightarrow> rsens_context \<Rightarrow> rsens_context" where
  "rsens_debug_set debug ctx = ctx\<lparr>rs_debug := debug\<rparr>"

section \<open>API\<close>

definition rsensor_get_index :: "string \<Rightarrow> rsens_context option \<Rightarrow> int" where
  "rsensor_get_index name c =
     (case c of None \<Rightarrow> -1
      | Some ctx \<Rightarrow>
          (let i = length (takeWhile (\<lambda>s. \<not> (length name = length (rs_name s) \<and> name = rs_name s)) (rsensors ctx))
           in if i < length (rsensors ctx) then int i else -1))"

definition rsensor_get_value :: "int \<Rightarrow> rsens_context option \<Rightarrow> f32 option" where
  "rsensor_get_value idx c =
     (case c of None \<Rightarrow> None
      | Some ctx \<Rightarrow>
          if idx < 0 \<or> idx \<ge> int RSENS_MAX \<or> nat idx \<ge> length (rsensors ctx) then None
          else (let s = rsensors ctx ! nat idx in if rs_valid s then Some (rs_val s) else None))"

section \<open>Correctness\<close>

definition rsens_ok :: "rsens_context \<Rightarrow> bool" where
  "rsens_ok ctx \<longleftrightarrow> length (rsensors ctx) \<le> RSENS_MAX"

lemma rsens_entries_bound: "length ss < RSENS_MAX \<Longrightarrow> rsens_entries al ts ss = Some ss' \<Longrightarrow> length ss' \<le> RSENS_MAX"
  by (induction al ts ss rule: rsens_entries.induct) (auto split: sum.splits bool.splits if_splits)

lemma rsens_init_ok: "rsens_init alloc al cfg = Some ctx \<Longrightarrow> rsens_ok ctx"
  using rsens_entries_bound [of "[]"]
  by (auto simp: rsens_init_def rsens_ok_def RSENS_MAX_def split: option.splits if_splits)

lemma get_index_names:
  "map rs_name (rsensors c') = map rs_name (rsensors c) \<Longrightarrow> rsensor_get_index n (Some c') = rsensor_get_index n (Some c)"
proof -
  assume m: "map rs_name (rsensors c') = map rs_name (rsensors c)"
  have t: "length (takeWhile (\<lambda>s. \<not> (length n = length (rs_name s) \<and> n = rs_name s)) xs) =
      length (takeWhile (\<lambda>y. \<not> (length n = length y \<and> n = y)) (map rs_name xs))" for xs
    by (induction xs) auto
  show ?thesis unfolding rsensor_get_index_def option.case Let_def t m
    using arg_cong [OF m, of length] by simp
qed

lemma get_index_distinct:
  "distinct (map rs_name ss) \<Longrightarrow> i < length ss \<Longrightarrow> rsensors c = ss \<Longrightarrow>
   rsensor_get_index (rs_name (ss ! i)) (Some c) = int i"
proof (induction ss arbitrary: i c)
  case (Cons s ss)
  show ?case
  proof (cases i)
    case (Suc k)
    have ne: "rs_name s \<noteq> rs_name (ss ! k)" using Cons.prems Suc by auto
    from Cons.IH [of k "c\<lparr>rsensors := ss\<rparr>"] Cons.prems Suc
    have "length (takeWhile (\<lambda>x. \<not> (length (rs_name (ss ! k)) = length (rs_name x) \<and> rs_name (ss ! k) = rs_name x)) ss) = k"
      by (auto simp: rsensor_get_index_def Let_def split: if_splits)
    with ne Cons.prems Suc show ?thesis by (auto simp: rsensor_get_index_def Let_def)
  qed (use Cons.prems in \<open>simp add: rsensor_get_index_def\<close>)
qed simp

text \<open>
  A remote value is what its last message said: after a message for sensor \<open>i\<close>, looking the
  sensor up by its name gives the number in the message, or nothing when the message has none;
  every other sensor reads as before.
\<close>

lemma rsensor_message_read:
  assumes "rsens_ok ctx" and "distinct (map rs_name (rsensors ctx))" and "i < length (rsensors ctx)" and "data \<noteq> []"
    and "j < length (rsensors ctx)"
  shows "(let ctx' = rsens_data_cb jfind now i data js ctx; name = rs_name (rsensors ctx ! j) in
    rsensor_get_value (rsensor_get_index name (Some ctx')) (Some ctx') =
      (if j = i then rsens_parse jfind (rsensors ctx ! i) data js
       else rsensor_get_value (rsensor_get_index name (Some ctx)) (Some ctx)))"
proof -
  define ctx' where "ctx' = rsens_data_cb jfind now i data js ctx"
  have nth: "rsensors ctx' ! k = (if i = k then (case rsens_parse jfind (rsensors ctx ! k) data js of
         Some v \<Rightarrow> (rsensors ctx ! k)\<lparr>rs_val := v, rs_last_data := now, rs_valid := True\<rparr>
       | None \<Rightarrow> (rsensors ctx ! k)\<lparr>rs_valid := False\<rparr>) else rsensors ctx ! k)" if "k < length (rsensors ctx)" for k
    using that assms(4) by (simp add: ctx'_def rsens_data_cb_def nth_upd_at Suc_le_eq)
  have len: "length (rsensors ctx') = length (rsensors ctx)" by (simp add: ctx'_def rsens_data_cb_def)
  have "map rs_name (rsensors ctx') = map rs_name (rsensors ctx)"
    by (rule nth_equalityI) (auto simp: len nth split: option.splits)
  then have ix: "rsensor_get_index (rs_name (rsensors ctx ! j)) (Some ctx') = int j"
    "rsensor_get_index (rs_name (rsensors ctx ! j)) (Some ctx) = int j"
    using get_index_names [of ctx' ctx] get_index_distinct [OF assms(2,5) refl] by simp_all
  have "int j < int RSENS_MAX" using assms(1,5) by (simp add: rsens_ok_def)
  then show ?thesis
    unfolding Let_def ctx'_def [symmetric] ix using assms(5)
    by (auto simp: rsensor_get_value_def len nth split: option.splits)
qed

section \<open>Witness\<close>

definition demo_rsens :: rsens_context where
  "demo_rsens = the (rsens_init True (\<lambda>_ _. True) (Some ''kitchen:home/k;room:home/r:temp''))"

lemma demo_rsens_eq:
  "demo_rsens = \<lparr>rsensors = [\<lparr>rs_name = ''kitchen'', rs_topic = ''home/k'', rs_key = None, rs_val = Fin 0, rs_valid = False,
      rs_subscribed = False, rs_last_data = 0\<rparr>, \<lparr>rs_name = ''room'', rs_topic = ''home/r'', rs_key = Some ''temp'', rs_val = Fin 0,
      rs_valid = False, rs_subscribed = False, rs_last_data = 0\<rparr>], rs_debug = 0, rs_runs = True\<rparr>"
  by code_simp

lemma rsensor_message_read_witness:
  "(let ctx = rsens_data_cb (\<lambda>_ _. None) 5 0 ''20.5'' (None :: nat option) demo_rsens
    in rsensor_get_value (rsensor_get_index ''kitchen'' (Some ctx)) (Some ctx)) = Some (Fin (41 / 2))"
proof -
  have "sys_strtof (Some ''20.5'') = Some (Fin (41 / 2))" by code_simp
  then show ?thesis
    using rsensor_message_read [of demo_rsens 0 "''20.5''" 0 "\<lambda>_ _. None" 5 "None :: nat option"]
    by (simp add: demo_rsens_eq rsens_ok_def RSENS_MAX_def rsens_parse_def Let_def)
qed

end
