(* ===== verification/Thermostat.thy ===== *)
theory Thermostat
  imports Ssr Float32
begin

text \<open>
  The thermostats, \<open>libs/common/devices/thermostat/thermostat.c\<close>, with all sensor services
  built in: the configuration and its defaults, the regulation of a relay by the temperature with
  hysteresis, the commands and the MQTT report.  The relays are the service of theory \<open>Ssr\<close>; the
  sensors are the record \<open>temp_sources\<close> of the reading functions (None: the error return, which
  leaves the value alone).  The devices are a list: the configuration fills the array without gaps.
\<close>

definition THERM_DATA_LEN :: nat where "THERM_DATA_LEN = 256"
definition MEASURE_INTERVAL_MS :: u64 where "MEASURE_INTERVAL_MS = 500"
definition MQTT_SEND_INTERVAL_MS :: u64 where "MQTT_SEND_INTERVAL_MS = 60000"
definition MAX_THERMOSTAT_DEVICES :: nat where "MAX_THERMOSTAT_DEVICES = 10"
definition THERM_MQTT_STATE :: nat where "THERM_MQTT_STATE = 0"
definition THERM_MQTT_MAX :: nat where "THERM_MQTT_MAX = 6"

datatype temp_provider = THERM_TEMP_ONEWIRE | THERM_TEMP_SHT20 | THERM_TEMP_NTC | THERM_TEMP_REMOTE

record temp_sources =
  one_wire :: "u8 \<Rightarrow> int \<Rightarrow> f32 option"
  sht20 :: "int \<Rightarrow> f32 option"
  ntc :: "int \<Rightarrow> f32 option"
  rindex :: "string \<Rightarrow> int"
  rvalue :: "int \<Rightarrow> f32 option"

record therm_device =
  td_enable :: bool
  td_ssr_id :: u8
  td_ssr_state :: bool
  off_t :: f32
  on_t :: f32
  current_t :: f32
  valid_t :: bool
  td_provider :: temp_provider
  temp_id :: u16
  temp_name :: string
  td_mqtt :: "mqtt_component list"

record thermostat_context =
  th_debug :: u32
  th_last_run :: u64
  mqtt_last_send :: u64
  th_devices :: "therm_device list"
  th_idx :: nat

definition td_forced :: "therm_device \<Rightarrow> bool" where
  "td_forced d = force (td_mqtt d ! THERM_MQTT_STATE)"

definition td_force :: "therm_device \<Rightarrow> therm_device" where
  "td_force d = d\<lparr>td_mqtt := upd_at THERM_MQTT_STATE (\<lambda>c. c\<lparr>force := True\<rparr>) (td_mqtt d)\<rparr>"

text \<open>\<open>ssr_api_state_get(id, &state, NULL, NULL)\<close>: the state, if the relay exists.\<close>

definition ssr_get :: "u8 \<Rightarrow> ssr_context option \<Rightarrow> bool option" where
  "ssr_get i c = map_option fst (ssr_api_state_get i c)"

section \<open>MQTT report\<close>

definition therm_payload :: "string \<Rightarrow> nat \<Rightarrow> therm_device \<Rightarrow> string option" where
  "therm_payload time_str idx d =
     (let b = (\<lambda>x. if x then ''1'' else ''0'') in build_msg THERM_DATA_LEN
     [''{'', ''\"timestamp\": \"'' @ time_str @ ''\"'', '',\"id\": \"'' @ nat_str idx @ ''\"'',
      '',\"state\": \"'' @ b (td_enable d) @ ''\"'', '',\"valve\": \"'' @ b (td_ssr_state d) @ ''\"'',
      '',\"temperature\": \"'' @ fmt_2f (current_t d) @ ''\"'', '',\"t_on\": \"'' @ fmt_2f (on_t d) @ ''\"'',
      '',\"t_off\": \"'' @ fmt_2f (off_t d) @ ''\"'',
      '',\"hysteresis\": \"'' @ fmt_2f (f32_sub (off_t d) (on_t d)) @ ''\"'', ''}''])"

definition therm_mqtt_dvice_send ::
  "lwip \<Rightarrow> string \<Rightarrow> nat \<Rightarrow> ssr_context option \<Rightarrow> thermostat_context \<times> 'h mqtt_context option
   \<Rightarrow> int \<times> thermostat_context \<times> 'h mqtt_context option" where
  "therm_mqtt_dvice_send e time_str idx ssrs st =
     (case st of (ctx, mq) \<Rightarrow>
       (let d = th_devices ctx ! idx;
            d = (case ssr_get (td_ssr_id d) ssrs of Some s \<Rightarrow> d\<lparr>td_ssr_state := s\<rparr> | None \<Rightarrow> d)
        in case therm_payload time_str idx d of
             None \<Rightarrow> (-1, ctx\<lparr>th_devices := (th_devices ctx)[idx := d]\<rparr>, mq)
           | Some p \<Rightarrow>
               (let (ret, c, mq) = mqtt_msg_component_publish e (td_mqtt d ! THERM_MQTT_STATE) p mq
                in (ret, ctx\<lparr>th_devices := (th_devices ctx)[idx :=
                     d\<lparr>td_mqtt := (td_mqtt d)[THERM_MQTT_STATE := c]\<rparr>]\<rparr>, mq))))"

text \<open>
  One forced device per call, the search goes on after the last one sent; without a forced device
  all are marked once a minute.
\<close>

definition therm_mqtt_send ::
  "lwip \<Rightarrow> string \<Rightarrow> ssr_context option \<Rightarrow> thermostat_context \<times> 'h mqtt_context option
   \<Rightarrow> thermostat_context \<times> 'h mqtt_context option" where
  "therm_mqtt_send e time_str ssrs st =
     (case st of (ctx, mq) \<Rightarrow>
       (let n = length (th_devices ctx); i0 = (if th_idx ctx \<ge> n then 0 else th_idx ctx);
            i = i0 + length (takeWhile (\<lambda>d. \<not> td_forced d) (drop i0 (th_devices ctx)))
        in if i < n then
             (let (_, ctx, mq) = therm_mqtt_dvice_send e time_str i ssrs (ctx, mq) in (ctx\<lparr>th_idx := i + 1\<rparr>, mq))
           else
             (let ctx = ctx\<lparr>th_idx := i\<rparr>; now = lw_clock e 0
              in if mqtt_last_send ctx \<noteq> 0 \<and> now - mqtt_last_send ctx < MQTT_SEND_INTERVAL_MS then (ctx, mq)
                 else (ctx\<lparr>th_devices := map td_force (th_devices ctx), mqtt_last_send := now\<rparr>, mq))))"

section \<open>Regulation\<close>

definition therm_source :: "temp_sources \<Rightarrow> therm_device \<Rightarrow> f32 option" where
  "therm_source src d =
     (case td_provider d of
        THERM_TEMP_ONEWIRE \<Rightarrow> one_wire src (ucast (drop_bit 8 (temp_id d) AND 0xFF)) (uint (temp_id d AND 0xFF))
      | THERM_TEMP_SHT20 \<Rightarrow> sht20 src (uint (temp_id d))
      | THERM_TEMP_NTC \<Rightarrow> ntc src (uint (temp_id d))
      | THERM_TEMP_REMOTE \<Rightarrow> rvalue src (uint (temp_id d)))"

definition therm_device_read_temperature :: "temp_sources \<Rightarrow> therm_device \<Rightarrow> int \<times> therm_device" where
  "therm_device_read_temperature src d =
     (let d = d\<lparr>valid_t := False\<rparr>;
          d = (if td_provider d = THERM_TEMP_REMOTE \<and> temp_id d = 0xFFFF
               then d\<lparr>temp_id := word_of_int (rindex src (temp_name d))\<rparr> else d)
      in case therm_source src d of None \<Rightarrow> (-1, d)
         | Some t \<Rightarrow> (0, d\<lparr>current_t := t, valid_t := True\<rparr>))"

definition therm_device_run ::
  "temp_sources \<Rightarrow> u64 \<Rightarrow> therm_device \<times> ssr_context option \<Rightarrow> int \<times> therm_device \<times> ssr_context option" where
  "therm_device_run src now st =
     (case st of (d, ssrs) \<Rightarrow>
       if \<not> td_enable d then
         (case ssr_get (td_ssr_id d) ssrs of
            Some s \<Rightarrow> (0, if s \<noteq> td_ssr_state d then td_force (d\<lparr>td_ssr_state := s\<rparr>) else d, ssrs)
          | None \<Rightarrow> (0, d, ssrs))
       else
         (let (ret, d) = therm_device_read_temperature src d;
              state = (if ret = 0 \<and> valid_t d then
                         (if f32_le (off_t d) (current_t d) then False
                          else if f32_le (current_t d) (on_t d) then True else td_ssr_state d)
                       else False);
              (ret, ssrs) = ssr_api_state_set (td_ssr_id d) state 0 0 now ssrs
          in (ret, if ret = 0 \<and> state \<noteq> td_ssr_state d then td_force (d\<lparr>td_ssr_state := state\<rparr>) else d, ssrs)))"

definition therm_run_devices ::
  "temp_sources \<Rightarrow> (nat \<Rightarrow> u64) \<Rightarrow> nat list \<Rightarrow> therm_device list \<times> ssr_context option
   \<Rightarrow> therm_device list \<times> ssr_context option" where
  "therm_run_devices src now is st =
     fold (\<lambda>i (ds, ssrs). case therm_device_run src (now i) (ds ! i, ssrs) of (_, d, ssrs) \<Rightarrow> (ds[i := d], ssrs)) is st"

definition therm_run ::
  "lwip \<Rightarrow> string \<Rightarrow> temp_sources \<Rightarrow> (nat \<Rightarrow> u64) \<Rightarrow> thermostat_context \<times> ssr_context option \<times> 'h mqtt_context option
   \<Rightarrow> thermostat_context \<times> ssr_context option \<times> 'h mqtt_context option" where
  "therm_run e time_str src nows st =
     (case st of (ctx, ssrs, mq) \<Rightarrow>
       (let now = lw_clock e 0; (ctx, mq) = therm_mqtt_send (later 1 e) time_str ssrs (ctx, mq)
        in if now - th_last_run ctx < MEASURE_INTERVAL_MS then (ctx, ssrs, mq)
           else
             (let (ds, ssrs) = therm_run_devices src nows [0 ..< length (th_devices ctx)] (th_devices ctx, ssrs)
              in (ctx\<lparr>th_devices := ds, th_last_run := now\<rparr>, ssrs, mq))))"

section \<open>Commands\<close>

definition therm_debug_set :: "u32 \<Rightarrow> thermostat_context \<Rightarrow> thermostat_context" where
  "therm_debug_set debug ctx = ctx\<lparr>th_debug := debug\<rparr>"

text \<open>The new band of a device: None when the command is refused.\<close>

definition therm_set_band :: "f32 \<Rightarrow> bool \<Rightarrow> therm_device \<Rightarrow> therm_device option" where
  "therm_set_band temperature hist d =
     (if hist then
        (if f32_lt (off_t d) temperature then None
         else
           (let f = f32_sub (off_t d) temperature; upd = f32_ne f (on_t d); d = d\<lparr>on_t := f\<rparr>
            in Some (if upd then td_force d else d)))
      else
        (let f = f32_sub (off_t d) (on_t d) in
         if f32_lt f (Fin 0) \<or> f32_lt temperature f then None
         else
           (let f = f32_sub temperature f; upd = f32_ne temperature (off_t d) \<or> f32_ne f (on_t d);
                d = d\<lparr>on_t := f, off_t := temperature\<rparr>
            in Some (if upd then td_force d else d))))"

definition therm_set_temperatures :: "thermostat_context \<Rightarrow> int \<Rightarrow> f32 \<Rightarrow> bool \<Rightarrow> int \<times> thermostat_context" where
  "therm_set_temperatures ctx idx temperature hist =
     (if idx < 0 \<or> idx \<ge> int (length (th_devices ctx)) then (-1, ctx)
      else
        (case therm_set_band temperature hist (th_devices ctx ! nat idx) of
           None \<Rightarrow> (-1, ctx)
         | Some d \<Rightarrow> (0, ctx\<lparr>th_devices := (th_devices ctx)[nat idx := d]\<rparr>)))"

definition therm_set_one ::
  "bool \<Rightarrow> u64 \<Rightarrow> therm_device \<times> ssr_context option \<Rightarrow> therm_device \<times> ssr_context option" where
  "therm_set_one state now st =
     (case st of (d, ssrs) \<Rightarrow>
       (let d = (if td_enable d \<noteq> state then td_force d else d)\<lparr>td_enable := state\<rparr>
        in if \<not> state then (d\<lparr>td_ssr_state := False\<rparr>, snd (ssr_api_state_set (td_ssr_id d) False 0 0 now ssrs))
           else (case ssr_get (td_ssr_id d) ssrs of Some s \<Rightarrow> (d\<lparr>td_ssr_state := s\<rparr>, ssrs) | None \<Rightarrow> (d, ssrs))))"

definition therm_set_devices ::
  "bool \<Rightarrow> (nat \<Rightarrow> u64) \<Rightarrow> nat list \<Rightarrow> therm_device list \<times> ssr_context option
   \<Rightarrow> therm_device list \<times> ssr_context option" where
  "therm_set_devices state now is st =
     fold (\<lambda>i (ds, ssrs). case therm_set_one state (now i) (ds ! i, ssrs) of (d, ssrs) \<Rightarrow> (ds[i := d], ssrs)) is st"

definition therm_set_state ::
  "int \<Rightarrow> bool \<Rightarrow> (nat \<Rightarrow> u64) \<Rightarrow> thermostat_context \<times> ssr_context option
   \<Rightarrow> int \<times> thermostat_context \<times> ssr_context option" where
  "therm_set_state idx state now st =
     (case st of (ctx, ssrs) \<Rightarrow>
       if idx \<ge> int (length (th_devices ctx)) then (-1, ctx, ssrs)
       else
         (let (ds, ssrs) = therm_set_devices state now
                (if idx \<ge> 0 then [nat idx] else [0 ..< length (th_devices ctx)]) (th_devices ctx, ssrs)
          in (0, ctx\<lparr>th_devices := ds\<rparr>, ssrs)))"

definition cmd_therm_state ::
  "string \<Rightarrow> (nat \<Rightarrow> u64) \<Rightarrow> thermostat_context \<times> ssr_context option
   \<Rightarrow> int \<times> thermostat_context \<times> ssr_context option" where
  "cmd_therm_state params now st =
     (if length params < 2 \<or> params ! 0 \<noteq> CHR '':'' then (-1, st)
      else
        (case strtok_r (CHR '':'') (Some params) of
           (Some tok, Some rest) \<Rightarrow>
             (let idx = strtol_val 0 tok; state = (strtol_val 0 rest \<noteq> 0)
              in if idx \<ge> 0 \<or> idx = -1 then therm_set_state idx state now st else (-1, st))
         | _ \<Rightarrow> (-1, st)))"

definition cmd_therm_set_temperature :: "thermostat_context \<Rightarrow> string \<Rightarrow> bool \<Rightarrow> int \<times> thermostat_context" where
  "cmd_therm_set_temperature ctx params hist =
     (case strtok_r (CHR '':'') (Some params) of
        (Some tok, Some rest) \<Rightarrow>
          (let idx = strtol_val 0 tok in
           if idx < 0 then (-1, ctx)
           else (case sys_strtof (Some rest) of None \<Rightarrow> (-1, ctx)
                 | Some temp \<Rightarrow> therm_set_temperatures ctx idx temp hist))
      | _ \<Rightarrow> (-1, ctx))"

definition cmd_therm_temp :: "string \<Rightarrow> thermostat_context \<Rightarrow> int \<times> thermostat_context" where
  "cmd_therm_temp params ctx =
     (if length params < 2 \<or> params ! 0 \<noteq> CHR '':'' then (-1, ctx)
      else cmd_therm_set_temperature ctx (tl params) False)"

definition cmd_therm_hist :: "string \<Rightarrow> thermostat_context \<Rightarrow> int \<times> thermostat_context" where
  "cmd_therm_hist params ctx =
     (if length params < 2 \<or> params ! 0 \<noteq> CHR '':'' then (-1, ctx)
      else cmd_therm_set_temperature ctx (tl params) True)"

section \<open>Configuration\<close>

definition therm_provider :: "string \<Rightarrow> temp_provider option" where
  "therm_provider s =
     (if s = ''one_wire'' then Some THERM_TEMP_ONEWIRE else if s = ''sht20'' then Some THERM_TEMP_SHT20
      else if s = ''ntc'' then Some THERM_TEMP_NTC else if s = ''remote'' then Some THERM_TEMP_REMOTE else None)"

definition zero_device :: therm_device where
  "zero_device = \<lparr>td_enable = False, td_ssr_id = 0, td_ssr_state = False, off_t = Fin 0, on_t = Fin 0, current_t = Fin 0,
     valid_t = False, td_provider = THERM_TEMP_ONEWIRE, temp_id = 0, temp_name = [],
     td_mqtt = replicate THERM_MQTT_MAX empty_component\<rparr>"

text \<open>
  One entry \<open><ssr>:<source>-<id>\<close>: None when it is skipped.  The number of a local sensor must
  start with a digit or \<open>0x\<close>; the name of a remote one is resolved when it is first read.
\<close>

definition therm_entry :: "(nat \<Rightarrow> bool) \<Rightarrow> string \<Rightarrow> therm_device option" where
  "therm_entry al tok =
     (case strtok_r (CHR '':'') (Some tok) of
        (Some tok1, Some rest1) \<Rightarrow>
          (case strtok_r (CHR ''-'') (Some rest1) of
             (Some tok2, Some rest2) \<Rightarrow>
               (let d = zero_device\<lparr>td_ssr_id := word_of_int (strtol_val 10 tok1)\<rparr>
                in case therm_provider tok2 of None \<Rightarrow> None
                   | Some p \<Rightarrow>
                       (let d = d\<lparr>td_provider := p\<rparr>;
                            (d, valid) =
                              (if p = THERM_TEMP_REMOTE then
                                 (if al 0 then (d\<lparr>temp_name := rest2, temp_id := 0xFFFF\<rparr>, True) else (d, False))
                               else
                                 (let (v, str) = strtol 0 rest2; i = word_of_int v
                                  in (d\<lparr>temp_id := i\<rparr>, \<not> (i = 0 \<and> str = rest2))))
                        in if valid \<and> al 1 then Some d else None))
           | _ \<Rightarrow> None)
      | _ \<Rightarrow> None)"

fun therm_entries :: "(nat \<Rightarrow> nat \<Rightarrow> bool) \<Rightarrow> string list \<Rightarrow> therm_device list \<Rightarrow> therm_device list" where
  "therm_entries al [] ds = ds"
| "therm_entries al (t # ts) ds =
     (if length ds \<ge> MAX_THERMOSTAT_DEVICES then ds
      else therm_entries (\<lambda>i. al (Suc i)) ts (ds @ (case therm_entry (al 0) t of None \<Rightarrow> [] | Some d \<Rightarrow> [d])))"

text \<open>One default \<open><on/off>:<temperature>-<hysteresis>\<close>; one that does not parse leaves the device off.\<close>

definition therm_default :: "string \<Rightarrow> therm_device \<Rightarrow> therm_device option" where
  "therm_default tok d =
     (case strtok_r (CHR '':'') (Some tok) of
        (Some tok1, Some rest1) \<Rightarrow>
          (case strtok_r (CHR ''-'') (Some rest1) of
             (Some tok2, Some rest2) \<Rightarrow>
               (let d = d\<lparr>td_enable := (length tok1 = length ''on'' \<and> \<not> strncmp_ne tok1 ''on'' (length tok1))\<rparr>
                in Some (case sys_strtof (Some tok2) of
                     None \<Rightarrow> d\<lparr>td_enable := False\<rparr>
                   | Some f \<Rightarrow>
                       (let d = d\<lparr>off_t := f\<rparr> in
                        case sys_strtof (Some rest2) of
                          None \<Rightarrow> d\<lparr>td_enable := False\<rparr>
                        | Some g \<Rightarrow> if f32_le g (off_t d) then d\<lparr>on_t := f32_sub (off_t d) g\<rparr>
                                    else d\<lparr>td_enable := False\<rparr>)))
           | _ \<Rightarrow> None)
      | _ \<Rightarrow> None)"

fun therm_defaults :: "string list \<Rightarrow> nat \<Rightarrow> therm_device list \<Rightarrow> therm_device list" where
  "therm_defaults [] c ds = ds"
| "therm_defaults (t # ts) c ds =
     (if c \<ge> length ds then ds
      else (case therm_default t (ds ! c) of None \<Rightarrow> therm_defaults ts c ds
            | Some d \<Rightarrow> therm_defaults ts (c + 1) (ds[c := d])))"

definition therm_config_get ::
  "bool \<Rightarrow> (nat \<Rightarrow> nat \<Rightarrow> bool) \<Rightarrow> string option \<Rightarrow> string option \<Rightarrow> thermostat_context option" where
  "therm_config_get alloc al config_therm config_defaults =
     (case config_therm of None \<Rightarrow> None
      | Some s \<Rightarrow>
          if length s < 1 \<or> \<not> alloc then None
          else
            (let ds = therm_entries al (strtok_all (CHR '';'') (Some s)) [];
                 ds = therm_defaults (strtok_all (CHR '';'') config_defaults) 0 ds
             in if length ds < 1 then None
                else Some \<lparr>th_debug = 0, th_last_run = 0, mqtt_last_send = 0, th_devices = ds, th_idx = 0\<rparr>))"

text \<open>The MQTT components of a device: the first one's topic is the topic of all.\<close>

definition celsius :: string where "celsius = [CHR 0xC2, CHR 0xB0, CHR ''C'']"

definition therm_components :: "nat \<Rightarrow> 'h mqtt_context option \<Rightarrow> mqtt_component list \<times> 'h mqtt_context option" where
  "therm_components i mq =
     (let tmpl = (\<lambda>v. ''{{ value_json['' @ [CHR 0x27] @ v @ [CHR 0x27] @ ''] }}'');
          bin = empty_component\<lparr>mc_module := ''thermostat'', platform := ''binary_sensor'',
            payload_on := Some ''1'', payload_off := Some ''0''\<rparr>;
          tmp = empty_component\<lparr>mc_module := ''thermostat'', platform := ''sensor'',
            dev_class := Some ''temperature'', unit := Some celsius\<rparr>;
          (_, c0, mq) = mqtt_msg_component_register
            (bin\<lparr>value_template := tmpl ''state'', mc_name := ''Thermostat_'' @ nat_str i\<rparr>) mq;
          reg = (\<lambda>c v nm (cs, mq). case mqtt_msg_component_register
            (c\<lparr>value_template := tmpl v, mc_name := nm @ nat_str i, mc_state_topic := mc_state_topic c0\<rparr>) mq of
              (_, c', mq) \<Rightarrow> (cs @ [c'\<lparr>force := False\<rparr>], mq))
      in reg tmp ''hysteresis'' ''hysteresis_'' (reg tmp ''t_off'' ''T_Off_'' (reg tmp ''t_on'' ''T_On_''
           (reg tmp ''temperature'' ''Temperature_'' (reg bin ''valve'' ''Valve_'' ([c0], mq))))))"

definition therm_mqtt_init ::
  "thermostat_context \<times> 'h mqtt_context option \<Rightarrow> thermostat_context \<times> 'h mqtt_context option" where
  "therm_mqtt_init st =
     (case st of (ctx, mq) \<Rightarrow>
       fold (\<lambda>i (ctx, mq). case therm_components i mq of
           (cs, mq) \<Rightarrow> (ctx\<lparr>th_devices := upd_at i (\<lambda>d. d\<lparr>td_mqtt := cs\<rparr>) (th_devices ctx)\<rparr>, mq))
         [0 ..< length (th_devices ctx)] (ctx, mq))"

definition therm_init ::
  "bool \<Rightarrow> (nat \<Rightarrow> nat \<Rightarrow> bool) \<Rightarrow> string option \<Rightarrow> string option \<Rightarrow> 'h mqtt_context option
   \<Rightarrow> (thermostat_context \<times> 'h mqtt_context option) option" where
  "therm_init alloc al cfg defaults mq =
     (case therm_config_get alloc al cfg defaults of None \<Rightarrow> None
      | Some ctx \<Rightarrow> Some (therm_mqtt_init (ctx, mq)))"

section \<open>Regulation is a hysteresis\<close>

text \<open>The reading of a device, and its decision.\<close>

definition therm_reading :: "temp_sources \<Rightarrow> therm_device \<Rightarrow> f32 option" where
  "therm_reading src d =
     therm_source src (if td_provider d = THERM_TEMP_REMOTE \<and> temp_id d = 0xFFFF
       then d\<lparr>temp_id := word_of_int (rindex src (temp_name d))\<rparr> else d)"

definition therm_decides :: "therm_device \<Rightarrow> f32 option \<Rightarrow> bool" where
  "therm_decides d r \<longleftrightarrow> (case r of None \<Rightarrow> True | Some t \<Rightarrow> f32_le (off_t d) t \<or> f32_le t (on_t d))"

definition therm_decision :: "therm_device \<Rightarrow> f32 option \<Rightarrow> bool" where
  "therm_decision d r \<longleftrightarrow> (case r of None \<Rightarrow> False | Some t \<Rightarrow> \<not> f32_le (off_t d) t)"

definition therm_next :: "therm_device \<Rightarrow> f32 option \<Rightarrow> bool" where
  "therm_next d r = (if therm_decides d r then therm_decision d r else td_ssr_state d)"

text \<open>The whole regulation: the last reading outside the band decides.\<close>

definition therm_regulated :: "therm_device \<Rightarrow> f32 option list \<Rightarrow> bool" where
  "therm_regulated d rs =
     (case filter (therm_decides d) rs of [] \<Rightarrow> td_ssr_state d | x # xs \<Rightarrow> therm_decision d (last (x # xs)))"

text \<open>A run of one device over successive sensor states and times, and its readings on the way.\<close>

fun therm_steps ::
  "(temp_sources \<times> u64) list \<Rightarrow> therm_device \<times> ssr_context option \<Rightarrow> therm_device \<times> ssr_context option" where
  "therm_steps [] st = st"
| "therm_steps ((src, now) # xs) st = therm_steps xs (snd (therm_device_run src now st))"

fun therm_readings :: "(temp_sources \<times> u64) list \<Rightarrow> therm_device \<Rightarrow> f32 option list" where
  "therm_readings [] d = []"
| "therm_readings ((src, now) # xs) d = therm_reading src d # therm_readings xs (snd (therm_device_read_temperature src d))"

text \<open>What a reading depends on, and what a run of the device keeps.\<close>

definition therm_sensor :: "therm_device \<Rightarrow> temp_provider \<times> u16 \<times> string" where
  "therm_sensor d = (td_provider d, temp_id d, temp_name d)"

definition therm_settings :: "therm_device \<Rightarrow> bool \<times> u8 \<times> f32 \<times> f32" where
  "therm_settings d = (td_enable d, td_ssr_id d, off_t d, on_t d)"

lemmas therm_parts = therm_sensor_def therm_settings_def

lemma therm_source_cong: "therm_sensor d = therm_sensor d' \<Longrightarrow> therm_source src d = therm_source src d'"
  by (cases "td_provider d'") (auto simp: therm_source_def therm_sensor_def)

lemma therm_reading_cong: "therm_sensor d = therm_sensor d' \<Longrightarrow> therm_reading src d = therm_reading src d'"
  by (auto simp: therm_reading_def therm_sensor_def intro!: therm_source_cong)

lemma read_temperature:
  "therm_device_read_temperature src d =
     (let d1 = d\<lparr>valid_t := False, temp_id := (if td_provider d = THERM_TEMP_REMOTE \<and> temp_id d = 0xFFFF
          then word_of_int (rindex src (temp_name d)) else temp_id d)\<rparr>
      in case therm_reading src d of None \<Rightarrow> (-1, d1) | Some t \<Rightarrow> (0, d1\<lparr>current_t := t, valid_t := True\<rparr>))"
proof -
  have s: "therm_source src (d\<lparr>valid_t := v\<rparr>) = therm_source src d"
    "therm_source src (d\<lparr>valid_t := v, temp_id := i\<rparr>) = therm_source src (d\<lparr>temp_id := i\<rparr>)" for v i
    by (rule therm_source_cong, simp add: therm_sensor_def)+
  show ?thesis
  proof (cases "td_provider d = THERM_TEMP_REMOTE \<and> temp_id d = 0xFFFF")
    case True
    then show ?thesis by (auto simp: therm_device_read_temperature_def therm_reading_def Let_def s split: option.split)
  next
    case False
    have id: "d\<lparr>valid_t := False, temp_id := temp_id d\<rparr> = d\<lparr>valid_t := False\<rparr>" by (cases d) simp
    from False show ?thesis
      by (auto simp: therm_device_read_temperature_def therm_reading_def Let_def s id split: option.split)
  qed
qed

lemma read_sensor_cong:
  "therm_sensor d = therm_sensor d' \<Longrightarrow>
   therm_sensor (snd (therm_device_read_temperature src d)) = therm_sensor (snd (therm_device_read_temperature src d'))"
  using therm_reading_cong [of d d' src]
  by (auto simp: read_temperature Let_def therm_sensor_def split: option.split)

lemma readings_cong: "therm_sensor d = therm_sensor d' \<Longrightarrow> therm_readings xs d = therm_readings xs d'"
proof (induction xs arbitrary: d d')
  case (Cons x xs)
  obtain src now where x: "x = (src, now)" by fastforce
  show ?case using therm_reading_cong [OF Cons.prems] Cons.IH [OF read_sensor_cong [OF Cons.prems]] by (simp add: x)
qed simp

lemma td_force_sel [simp]:
  "therm_sensor (td_force d) = therm_sensor d" "therm_settings (td_force d) = therm_settings d"
  "td_ssr_state (td_force d) = td_ssr_state d" "td_enable (td_force d) = td_enable d"
  "td_ssr_id (td_force d) = td_ssr_id d" "off_t (td_force d) = off_t d" "on_t (td_force d) = on_t d"
  by (simp_all add: td_force_def therm_parts)

lemma ssr_set_switch: "ssr_api_state_set i b 0 0 t s = (r, s') \<Longrightarrow> s' = ssr_switch t i b s"
  by (simp add: ssr_switch_def)

lemma ssr_set_valid: "ssr_valid i s \<Longrightarrow> fst (ssr_api_state_set i b 0 0 t s) = 0"
  by (auto simp: ssr_valid_def ssr_api_state_get_def ssr_api_state_set_def ssr_state_set_def relay_at_def Let_def
      split: option.splits if_splits)

lemma run_enabled:
  assumes "td_enable d" and "ssr_valid (td_ssr_id d) s" and "therm_device_run src now (d, s) = (r, d', s')"
  shows "td_ssr_state d' = therm_next d (therm_reading src d)"
    and "s' = ssr_switch now (td_ssr_id d) (therm_next d (therm_reading src d)) s"
    and "therm_settings d' = therm_settings d" and "r = 0"
    and "therm_sensor d' = therm_sensor (snd (therm_device_read_temperature src d))"
proof -
  define st where "st = therm_next d (therm_reading src d)"
  obtain q d1 where rd: "therm_device_read_temperature src d = (q, d1)" by fastforce
  have d1: "td_ssr_id d1 = td_ssr_id d" "td_ssr_state d1 = td_ssr_state d" "therm_settings d1 = therm_settings d"
    using rd by (auto simp: read_temperature Let_def therm_settings_def split: option.splits)
  have st: "(if q = 0 \<and> valid_t d1 then
       (if f32_le (off_t d1) (current_t d1) then False
        else if f32_le (current_t d1) (on_t d1) then True else td_ssr_state d) else False) = st"
    using rd by (auto simp: read_temperature Let_def st_def therm_next_def therm_decides_def therm_decision_def
        split: option.splits)
  obtain z z' where z: "ssr_api_state_set (td_ssr_id d) st 0 0 now s = (z, z')" by fastforce
  have z0: "z = 0" "z' = ssr_switch now (td_ssr_id d) st s"
    using ssr_set_valid [OF assms(2), of st now] ssr_set_switch [OF z] z by simp_all
  have "therm_device_run src now (d, s) = (z, if z = 0 \<and> st \<noteq> td_ssr_state d then td_force (d1\<lparr>td_ssr_state := st\<rparr>) else d1, z')"
    by (simp only: therm_device_run_def assms(1) not_True_eq_False if_False Let_def rd prod.case d1(1,2) st z)
  then have res: "r = 0" "s' = z'" "d' = (if st \<noteq> td_ssr_state d then td_force (d1\<lparr>td_ssr_state := st\<rparr>) else d1)"
    using assms(3) z0(1) by simp_all
  show "td_ssr_state d' = therm_next d (therm_reading src d)" using d1(2) by (simp add: res(3) st_def)
  show "s' = ssr_switch now (td_ssr_id d) (therm_next d (therm_reading src d)) s" using z0(2) by (simp add: res(2) st_def)
  show "therm_settings d' = therm_settings d" using d1(3) by (simp add: res(3) therm_settings_def)
  show "r = 0" by (rule res(1))
  show "therm_sensor d' = therm_sensor (snd (therm_device_read_temperature src d))"
    by (simp add: res(3) rd therm_sensor_def td_force_def)
qed

lemma regulated_Cons:
  "therm_settings d' = therm_settings d \<Longrightarrow>
   td_ssr_state d' = therm_next d r \<Longrightarrow>
   therm_regulated d (r # rs) = therm_regulated d' rs"
proof -
  assume a: "therm_settings d' = therm_settings d" "td_ssr_state d' = therm_next d r"
  have "therm_decides d' = therm_decides d" "therm_decision d' = therm_decision d"
    using a(1) by (auto simp: fun_eq_iff therm_decides_def therm_decision_def therm_settings_def split: option.splits)
  then show ?thesis using a(2) by (auto simp: therm_regulated_def therm_next_def split: list.splits)
qed

text \<open>
  C32.  The thermostat regulates its relay: over any sequence of runs of an enabled device on an
  existing relay, with whatever the sensors answer at each, the relay service reports what the
  last deciding reading says - off for a reading at or above the switch-off temperature and for a
  failed reading, on for one at or below the switch-on temperature - readings inside the band
  change nothing, and no other relay is touched.
\<close>

lemma therm_steps_regulated:
  assumes "td_enable d" and "ssr_service_ok s" and "ssr_valid (td_ssr_id d) s" and "therm_steps xs (d, s) = (d', s')"
  shows "td_ssr_state d' = therm_regulated d (therm_readings xs d) \<and>
    (xs \<noteq> [] \<longrightarrow> ssr_reports (td_ssr_id d) s' = therm_regulated d (therm_readings xs d)) \<and>
    (\<forall>j. j \<noteq> td_ssr_id d \<longrightarrow> ssr_reports j s' = ssr_reports j s)"
  using assms
proof (induction xs arbitrary: d s)
  case Nil
  then show ?case by (simp add: therm_regulated_def)
next
  case (Cons x xs)
  obtain src now where x: "x = (src, now)" by fastforce
  obtain r d1 s1 where run: "therm_device_run src now (d, s) = (r, d1, s1)" by (rule prod_cases3)
  define st where "st = therm_next d (therm_reading src d)"
  have d1: "td_ssr_state d1 = st" "s1 = ssr_switch now (td_ssr_id d) st s" "therm_settings d1 = therm_settings d"
    "therm_sensor d1 = therm_sensor (snd (therm_device_read_temperature src d))"
    using run_enabled [OF Cons.prems(1,3) run] by (simp_all add: st_def)
  have i: "td_enable d1" "td_ssr_id d1 = td_ssr_id d" using d1(3) Cons.prems(1) by (simp_all add: therm_settings_def)
  have ok: "ssr_service_ok s1" "ssr_valid (td_ssr_id d1) s1"
    using Cons.prems(2,3) i by (simp_all add: d1(2) ssr.set_ok ssr.set_valid)
  have reg: "therm_regulated d (therm_readings (x # xs) d) = therm_regulated d1 (therm_readings xs d1)"
    using regulated_Cons [of d1 d "therm_reading src d"] readings_cong [OF d1(4)] d1(1,3) by (simp add: x st_def)
  have "therm_steps xs (d1, s1) = (d', s')" using Cons.prems(4) by (simp add: x run)
  from Cons.IH [OF i(1) ok this] have IH: "td_ssr_state d' = therm_regulated d1 (therm_readings xs d1)"
    "xs \<noteq> [] \<Longrightarrow> ssr_reports (td_ssr_id d) s' = therm_regulated d1 (therm_readings xs d1)"
    "j \<noteq> td_ssr_id d \<Longrightarrow> ssr_reports j s' = ssr_reports j s1" for j
    by (simp_all add: i(2))
  have other: "ssr_reports j s' = ssr_reports j s" if "j \<noteq> td_ssr_id d" for j
    using IH(3) [OF that] ssr.set_other [OF Cons.prems(2) that] by (simp add: d1(2))
  have "ssr_reports (td_ssr_id d) s' = therm_regulated d1 (therm_readings xs d1)"
  proof (cases "xs = []")
    case True
    then have "s' = s1" "therm_regulated d1 (therm_readings xs d1) = st"
      using Cons.prems(4) d1(1) by (simp_all add: x run therm_regulated_def)
    then show ?thesis using ssr.set_get [OF Cons.prems(2,3)] by (simp add: d1(2))
  qed (use IH(2) in simp)
  with IH(1) other show ?case unfolding reg by blast
qed

section \<open>The temperature band\<close>

definition therm_band_ok :: "therm_device \<Rightarrow> bool" where
  "therm_band_ok d \<longleftrightarrow> (\<exists>hi lo. off_t d = Fin hi \<and> on_t d = Fin lo \<and> f32_rep hi \<and> f32_rep lo \<and> lo \<le> hi)"

lemma strtof_ok: "f32_ok (fst (strtof s))"
proof -
  have "f32_ok (f32_neg x) = f32_ok x" for x by (cases x) auto
  moreover have "f32_ok (Fin 0)" using f32_rep_int [of 0] by simp
  ultimately show ?thesis unfolding strtof_def strto_fl_def Let_def by (simp add: case_prod_beta)
qed

lemma sys_strtof_rep: "sys_strtof s = Some v \<Longrightarrow> \<exists>x. v = Fin x \<and> f32_rep x"
proof -
  assume v: "sys_strtof s = Some v"
  then obtain x where x: "v = Fin x" using sys_strtof_fin by blast
  from v obtain cs where "s = Some cs" "v = fst (strtof cs)"
    by (auto simp: sys_strtof_def Let_def case_prod_beta split: option.splits if_splits f32.splits)
  with strtof_ok [of cs] x show ?thesis by simp
qed

lemma rnd_between: "f32_rep t \<Longrightarrow> 0 \<le> x \<Longrightarrow> x \<le> t \<Longrightarrow> \<exists>v. f32_rnd x = Fin v \<and> f32_rep v \<and> 0 \<le> v \<and> v \<le> t"
proof -
  assume a: "f32_rep t" "0 \<le> x" "x \<le> t"
  have "f32_le (f32_rnd x) (Fin t)" "f32_le (Fin 0) (f32_rnd x)"
    using f32_rnd_le [OF a(1,3)] f32_rnd_ge [of 0 x] f32_rep_int [of 0] a(2) by simp_all
  then show ?thesis using f32_rnd_is_rep [of x] by (cases "f32_rnd x") auto
qed

lemma band_hist:
  assumes "therm_band_ok d" and "f32_rep h" and "0 \<le> h" and "therm_set_band (Fin h) True d = Some d'"
  shows "therm_band_ok d'"
proof -
  obtain hi lo where d: "off_t d = Fin hi" "on_t d = Fin lo" "f32_rep hi" "lo \<le> hi"
    using assms(1) by (auto simp: therm_band_ok_def)
  have h: "h \<le> hi" using assms(4) d by (auto simp: therm_set_band_def split: if_splits)
  obtain v where v: "f32_rnd (hi - h) = Fin v" "f32_rep v" "v \<le> hi"
    using rnd_between [OF d(3), of "hi - h"] h assms(3) by auto
  have "on_t d' = Fin v \<and> off_t d' = Fin hi"
    using assms(4) d v(1) h by (auto simp: therm_set_band_def Let_def td_force_def split: if_splits)
  then show ?thesis using v d(3) by (auto simp: therm_band_ok_def)
qed

lemma band_temp:
  assumes "therm_band_ok d" and "f32_rep t" and "therm_set_band (Fin t) False d = Some d'"
  shows "therm_band_ok d'"
proof -
  obtain hi lo where d: "off_t d = Fin hi" "on_t d = Fin lo" "f32_rep hi" "lo \<le> hi"
    using assms(1) by (auto simp: therm_band_ok_def)
  obtain g where g: "f32_rnd (hi - lo) = Fin g" "0 \<le> g" "g \<le> t"
    using assms(3) d by (cases "f32_rnd (hi - lo)") (auto simp: therm_set_band_def Let_def split: if_splits)
  obtain v where v: "f32_rnd (t - g) = Fin v" "f32_rep v" "v \<le> t"
    using rnd_between [OF assms(2), of "t - g"] g by auto
  have "on_t d' = Fin v \<and> off_t d' = Fin t"
    using assms(3) d g v(1) by (auto simp: therm_set_band_def Let_def td_force_def split: if_splits)
  then show ?thesis using v assms(2) by (auto simp: therm_band_ok_def)
qed

lemma cmd_band:
  assumes "\<forall>d\<in>set (th_devices ctx). therm_band_ok d"
    and "\<And>t d d'. f32_rep t \<Longrightarrow> sys_strtof (snd (strtok_r (CHR '':'') (Some p))) = Some (Fin t) \<Longrightarrow> therm_band_ok d \<Longrightarrow>
      therm_set_band (Fin t) hist d = Some d' \<Longrightarrow> therm_band_ok d'"
  shows "\<forall>d\<in>set (th_devices (snd (cmd_therm_set_temperature ctx p hist))). therm_band_ok d"
proof (cases "cmd_therm_set_temperature ctx p hist")
  case (Pair r ctx')
  show ?thesis
  proof (cases "ctx' = ctx")
    case False
    obtain tok rest idx temp where s: "strtok_r (CHR '':'') (Some p) = (Some tok, Some rest)" "sys_strtof (Some rest) = Some temp"
      "therm_set_temperatures ctx idx temp hist = (r, ctx')"
      using False Pair by (auto simp: cmd_therm_set_temperature_def Let_def split: option.splits prod.splits if_splits)
    obtain t where t: "temp = Fin t" "f32_rep t" using sys_strtof_rep [OF s(2)] by blast
    obtain d where d: "therm_set_band temp hist (th_devices ctx ! nat idx) = Some d" "nat idx < length (th_devices ctx)"
      "ctx' = ctx\<lparr>th_devices := (th_devices ctx)[nat idx := d]\<rparr>"
      using s(3) False by (auto simp: therm_set_temperatures_def split: option.splits if_splits)
    have "therm_band_ok (th_devices ctx ! nat idx)" using assms(1) d(2) by simp
    then have "therm_band_ok d" using assms(2) [OF t(2)] s(1,2) d(1) t(1) by simp
    then show ?thesis using assms(1) d(3) Pair by (auto dest!: set_update_subset_insert [THEN subsetD])
  qed (use Pair assms(1) in simp)
qed

text \<open>
  The commands keep the band: with finite temperatures of which the switch-on one is not above
  the switch-off one, every \<open>temperature\<close> command, and every \<open>hysteresis\<close> command whose number is
  not negative, accepted or refused, keeps them so for all devices, the rounding of the
  subtractions included.
\<close>

lemma therm_commands_keep_band:
  assumes "\<forall>d\<in>set (th_devices ctx). therm_band_ok d"
  shows "(\<forall>d\<in>set (th_devices (snd (cmd_therm_temp params ctx))). therm_band_ok d) \<and>
    ((\<forall>h. sys_strtof (snd (strtok_r (CHR '':'') (Some (tl params)))) = Some (Fin h) \<longrightarrow> 0 \<le> h) \<longrightarrow>
      (\<forall>d\<in>set (th_devices (snd (cmd_therm_hist params ctx))). therm_band_ok d))"
proof (intro conjI impI)
  show "\<forall>d\<in>set (th_devices (snd (cmd_therm_temp params ctx))). therm_band_ok d"
    using cmd_band [OF assms, of "tl params" False] band_temp assms by (simp add: cmd_therm_temp_def)
  assume "\<forall>h. sys_strtof (snd (strtok_r (CHR '':'') (Some (tl params)))) = Some (Fin h) \<longrightarrow> 0 \<le> h"
  then show "\<forall>d\<in>set (th_devices (snd (cmd_therm_hist params ctx))). therm_band_ok d"
    using cmd_band [OF assms, of "tl params" True] band_hist assms by (simp add: cmd_therm_hist_def)
qed

text \<open>
  A negative hysteresis is accepted and locks the thermostat: the command returns 0 and puts the
  switch-on temperature above the switch-off one, after which every \<open>temperature\<close> command for the
  device is refused (for numbers whose difference needs no rounding).
\<close>

lemma negative_hysteresis_locks:
  assumes "0 \<le> idx" and "nat idx < length (th_devices ctx)" and "off_t (th_devices ctx ! nat idx) = Fin hi"
    and "h < 0" and "0 \<le> hi" and "f32_rep h" and "f32_rep (hi - h)"
  shows "\<exists>ctx'. therm_set_temperatures ctx idx (Fin h) True = (0, ctx') \<and>
    (\<forall>t. therm_set_temperatures ctx' idx t False = (-1, ctx'))"
proof -
  define d where "d = (th_devices ctx ! nat idx)\<lparr>on_t := Fin (hi - h)\<rparr>"
  obtain d' where d': "therm_set_band (Fin h) True (th_devices ctx ! nat idx) = Some d'"
    "off_t d' = Fin hi" "on_t d' = Fin (hi - h)"
    using assms(3-5) f32_rnd_rep [OF assms(7)]
    by (cases "f32_ne (Fin (hi - h)) (on_t (th_devices ctx ! nat idx))")
      (auto simp: therm_set_band_def Let_def td_force_def)
  have "therm_set_band t False d' = None" for t
    using d'(2,3) assms(4) f32_rnd_rep [OF assms(6)] by (simp add: therm_set_band_def)
  then show ?thesis using assms(1,2) d'(1) by (auto simp: therm_set_temperatures_def nat_less_iff)
qed

section \<open>Switching all thermostats\<close>

lemma set_devices_relays:
  "therm_set_devices False now is (ds, s) = (ds', s') \<Longrightarrow>
   s' = ssr.set_all (map (\<lambda>i. (now i, td_ssr_id (ds ! i))) is) False s"
proof (induction "is" arbitrary: ds s)
  case Nil
  then show ?case by (simp add: therm_set_devices_def ssr.set_all_def)
next
  case (Cons i "is")
  obtain d s1 where o: "therm_set_one False (now i) (ds ! i, s) = (d, s1)" by fastforce
  then have d: "td_ssr_id d = td_ssr_id (ds ! i)" "s1 = ssr_switch (now i) (td_ssr_id (ds ! i)) False s"
    by (auto simp: therm_set_one_def Let_def td_force_def ssr_switch_def)
  have ids: "td_ssr_id (ds[i := d] ! k) = td_ssr_id (ds ! k)" for k
    using d(1) by (cases "k = i"; cases "i < length ds") (simp_all add: nth_list_update list_update_beyond)
  have "therm_set_devices False now is (ds[i := d], s1) = (ds', s')"
    using Cons.prems by (simp add: therm_set_devices_def o)
  from Cons.IH [OF this] show ?case unfolding ids d(2) by (simp add: ssr.set_all_def)
qed

lemma set_devices_state:
  "therm_set_devices st now is (ds, s) = (ds', s') \<Longrightarrow>
   length ds' = length ds \<and> (\<forall>k<length ds. td_enable (ds' ! k) = (if k \<in> set is then st else td_enable (ds ! k)))"
proof (induction "is" arbitrary: ds s)
  case Nil
  then show ?case by (simp add: therm_set_devices_def)
next
  case (Cons i "is")
  obtain d s1 where o: "therm_set_one st (now i) (ds ! i, s) = (d, s1)" by fastforce
  then have d: "td_enable d = st"
    by (auto simp: therm_set_one_def Let_def split: if_splits option.splits)
  have "therm_set_devices st now is (ds[i := d], s1) = (ds', s')"
    using Cons.prems by (simp add: therm_set_devices_def o)
  from Cons.IH [OF this] d show ?case by (simp add: nth_list_update)
qed

text \<open>
  Switching all thermostats off switches all their relays off: after \<open>state:-1:0\<close> every device is
  disabled, the existing relay of each reports off, and every relay that belongs to no thermostat
  reports what it did.
\<close>

lemma therm_all_off:
  assumes "cmd_therm_state '':-1:0'' now (ctx, s) = (r, ctx', s')" and "ssr_service_ok s"
  shows "r = 0 \<and> (\<forall>d\<in>set (th_devices ctx'). \<not> td_enable d) \<and>
    (\<forall>d\<in>set (th_devices ctx). ssr_valid (td_ssr_id d) s \<longrightarrow> \<not> ssr_reports (td_ssr_id d) s') \<and>
    (\<forall>j. j \<notin> td_ssr_id ` set (th_devices ctx) \<longrightarrow> ssr_reports j s' = ssr_reports j s)"
proof -
  let ?ds = "th_devices ctx"
  have p: "strtok_r (CHR '':'') (Some '':-1:0'') = (Some ''-1'', Some ''0'')" "strtol_val 0 ''-1'' = -1"
    "strtol_val 0 ''0'' = 0" by code_simp+
  obtain ds' where d: "therm_set_devices False now [0 ..< length ?ds] (?ds, s) = (ds', s')"
    "r = 0" "ctx' = ctx\<lparr>th_devices := ds'\<rparr>"
    using assms(1) by (auto simp: cmd_therm_state_def p therm_set_state_def Let_def split: prod.splits if_splits)
  define xs where "xs = map (\<lambda>i. (now i, td_ssr_id (?ds ! i))) [0 ..< length ?ds]"
  have s': "s' = ssr.set_all xs False s" using set_devices_relays [OF d(1)] by (simp add: xs_def)
  have "map snd xs = map td_ssr_id ?ds" by (rule nth_equalityI) (simp_all add: xs_def)
  then have ids: "snd ` set xs = td_ssr_id ` set ?ds" by (metis list.set_map)
  have "\<forall>d\<in>set ds'. \<not> td_enable d" using set_devices_state [OF d(1)] by (auto simp: in_set_conv_nth)
  moreover have "\<not> ssr_reports (td_ssr_id d) s'" if "d \<in> set ?ds" "ssr_valid (td_ssr_id d) s" for d
    using ssr.set_all_get [OF assms(2) _ that(2), of xs False] that(1) ids s' by auto
  moreover have "ssr_reports j s' = ssr_reports j s" if "j \<notin> td_ssr_id ` set ?ds" for j
    using ssr.set_all_other [OF assms(2), of j xs False] that ids s' by simp
  ultimately show ?thesis using d(2,3) by simp
qed

section \<open>Witnesses\<close>

definition demo_therm :: thermostat_context where
  "demo_therm = the (therm_config_get True (\<lambda>_ _. True) (Some ''0:ntc-0'') (Some ''on:20.5-3.5''))"

definition demo_device :: therm_device where
  "demo_device = zero_device\<lparr>td_enable := True, off_t := Fin (41/2), on_t := Fin 17, td_provider := THERM_TEMP_NTC\<rparr>"

lemma demo_therm_devices: "th_devices demo_therm = [demo_device]"
  by code_simp

definition demo_sources :: "f32 option \<Rightarrow> temp_sources" where
  "demo_sources r = \<lparr>one_wire = (\<lambda>_ _. None), sht20 = (\<lambda>_. None), ntc = (\<lambda>_. r), rindex = (\<lambda>_. -1), rvalue = (\<lambda>_. None)\<rparr>"

lemma demo_service: "ssr_service_ok (Some demo_ssr)" "ssr_valid 0 (Some demo_ssr)"
  using demo_ssr_ok by (simp_all add: ssr_service_ok_def demo_ssr_def ssr_valid_def ssr_api_state_get_def demo_at [unfolded demo_ssr_def])

lemma therm_steps_regulated_witness:
  "ssr_reports 0 (snd (therm_steps [(demo_sources (Some (Fin 16)), 1), (demo_sources (Some (Fin 19)), 2)]
      (demo_device, Some demo_ssr))) \<and>
   \<not> ssr_reports 0 (snd (therm_steps [(demo_sources (Some (Fin 16)), 1), (demo_sources None, 2), (demo_sources (Some (Fin 19)), 3)]
      (demo_device, Some demo_ssr)))"
proof -
  let ?a = "[(demo_sources (Some (Fin 16)), 1), (demo_sources (Some (Fin 19)), 2)]"
  let ?b = "[(demo_sources (Some (Fin 16)), 1), (demo_sources None, 2), (demo_sources (Some (Fin 19)), 3)]"
  have e: "td_enable demo_device" "td_ssr_id demo_device = 0" by (simp_all add: demo_device_def zero_device_def)
  have r: "therm_regulated demo_device (therm_readings ?a demo_device) = True"
    "therm_regulated demo_device (therm_readings ?b demo_device) = False" by code_simp+
  obtain d1 s1 d2 s2 where s: "therm_steps ?a (demo_device, Some demo_ssr) = (d1, s1)"
    "therm_steps ?b (demo_device, Some demo_ssr) = (d2, s2)" by fastforce
  show ?thesis
    using therm_steps_regulated [OF e(1) demo_service(1) _ s(1)] therm_steps_regulated [OF e(1) demo_service(1) _ s(2)]
      demo_service(2) unfolding e(2) s snd_conv r by simp
qed

lemma demo_band: "\<forall>d\<in>set (th_devices demo_therm). therm_band_ok d"
proof -
  have "f32_rnd (41/2) = Fin (41/2)" by code_simp
  then have "f32_rep (41/2)" "f32_rep 17" using f32_rnd_is_rep f32_rep_int [of 17] by simp_all
  then show ?thesis unfolding demo_therm_devices therm_band_ok_def demo_device_def
    by (auto intro!: exI [of _ "41/2"])
qed

lemma therm_commands_keep_band_witness:
  "on_t (th_devices (snd (cmd_therm_temp '':0:18'' demo_therm)) ! 0) = Fin (29/2) \<and>
   therm_band_ok (th_devices (snd (cmd_therm_temp '':0:18'' demo_therm)) ! 0)"
proof -
  have "on_t (th_devices (snd (cmd_therm_temp '':0:18'' demo_therm)) ! 0) = Fin (29/2)"
    and "length (th_devices (snd (cmd_therm_temp '':0:18'' demo_therm))) = 1" by code_simp+
  then show ?thesis using therm_commands_keep_band [OF demo_band] by (metis less_one nth_mem)
qed

lemma negative_hysteresis_locks_witness:
  "\<exists>ctx'. therm_set_temperatures demo_therm 0 (Fin (-5)) True = (0, ctx') \<and>
     (\<forall>t. therm_set_temperatures ctx' 0 t False = (-1, ctx'))"
proof -
  have "f32_rnd (51/2) = Fin (51/2)" by code_simp
  then have "f32_rep (51/2)" by (rule f32_rnd_is_rep)
  moreover have "f32_rep (-5)" using f32_rep_int [of "-5"] by simp
  ultimately show ?thesis
    using negative_hysteresis_locks [of 0 demo_therm "41/2" "-5"] by (simp add: demo_therm_devices demo_device_def)
qed

lemma therm_all_off_witness:
  "\<exists>ctx' s'. cmd_therm_state '':-1:0'' (\<lambda>_. 7) (demo_therm, Some demo_ssr) = (0, ctx', s') \<and>
     \<not> ssr_reports 0 s' \<and> \<not> td_enable (th_devices ctx' ! 0)"
proof -
  obtain r ctx' s' where c: "cmd_therm_state '':-1:0'' (\<lambda>_. 7) (demo_therm, Some demo_ssr) = (r, ctx', s')"
    by (rule prod_cases3)
  have "length (th_devices ctx') = 1"
    using set_devices_state c by (auto simp: cmd_therm_state_def therm_set_state_def demo_therm_devices Let_def
        dest!: set_devices_state split: prod.splits option.splits if_splits)
  then have "th_devices ctx' ! 0 \<in> set (th_devices ctx')" by simp
  then show ?thesis using therm_all_off [OF c demo_service(1)] c demo_service(2)
    by (auto simp: demo_therm_devices demo_device_def zero_device_def)
qed

end
