(* ===== verification/SysLog.thy ===== *)
theory SysLog
  imports Mqtt
begin

text \<open>
  The log service, \<open>libs/common/services/log/log.c\<close>: building a log line in its 512 byte buffer,
  sending it to the console, the syslog server and the web session, and resolving the server.
  The formatted text of a message is an argument (\<open>body\<close>).  The lock is the SDK's \<open>mutex_t\<close>,
  which is not recursive: entering it twice is None, the call never returns.
\<close>

definition MAX_LOG_SIZE :: nat where "MAX_LOG_SIZE = 512"
definition RLOG_DEFULT_PORT :: int where "RLOG_DEFULT_PORT = 514"
definition FACILITY :: int where "FACILITY = 1"
definition LOG_IP_TIMEOUT_MS :: u64 where "LOG_IP_TIMEOUT_MS = 10000"
definition HLOG_INFO :: int where "HLOG_INFO = 6"

text \<open>The context; \<open>console\<close>, \<open>udp\<close> and \<open>http\<close> record what was printed and sent.\<close>

record log_context =
  lg_url :: "string option"
  lg_port :: int
  http_log :: bool
  lg_connect_count :: u32
  lg_last_send :: u64
  lg_ip_state :: ip_resolve_state
  lg_pcb :: bool
  lg_level :: int
  lg_locked :: bool
  lg_debug :: u32
  console :: "string list"
  udp :: "string list"
  http :: "string list"

text \<open>
  What a call reads from outside: the two fixed parts of the line, the SDK's \<open>pbuf_alloc\<close>,
  \<open>udp_sendto\<close> and \<open>udp_new\<close>, DNS, the web session (whether \<open>syscmd_log_send\<close> accepts), WiFi,
  and the clock by reading.
\<close>

record log_env =
  lg_time :: string
  lg_host :: string
  pbuf_ok :: bool
  udp_err :: int
  udp_new :: bool
  dns_res :: int
  web_ok :: bool
  wifi_up :: bool
  lg_clock :: "nat \<Rightarrow> u64"

definition LOG_ERR_MEM :: int where "LOG_ERR_MEM = -1"
definition LOG_ERR_INPROGRESS :: int where "LOG_ERR_INPROGRESS = -5"

definition LOG_LOCK :: "log_context \<Rightarrow> log_context option" where
  "LOG_LOCK ctx = (if lg_locked ctx then None else Some (ctx\<lparr>lg_locked := True\<rparr>))"

definition LOG_UNLOCK :: "log_context \<Rightarrow> log_context" where
  "LOG_UNLOCK ctx = ctx\<lparr>lg_locked := False\<rparr>"

definition lg_is_debug :: "log_context \<Rightarrow> bool" where
  "lg_is_debug ctx \<longleftrightarrow> lg_debug ctx \<noteq> 0"

section \<open>A log line\<close>

text \<open>\<open>LBUFF_PRINT\<close>: prints into the \<open>psize\<close> bytes that are left, nothing once they are used up.\<close>

definition LBUFF_PRINT :: "string \<Rightarrow> string \<times> int \<Rightarrow> string \<times> int" where
  "LBUFF_PRINT s st = (case st of (buf, psize) \<Rightarrow>
     if psize > 0 then (buf @ take (nat psize - 1) s, psize - int (length s)) else (buf, psize))"

definition log_parts :: "log_env \<Rightarrow> int \<Rightarrow> string option \<Rightarrow> string \<Rightarrow> string list" where
  "log_parts e severity topic body =
     (let severity = (if severity < 0 then HLOG_INFO else severity);
          topic = (case topic of None \<Rightarrow> ''system'' | Some t \<Rightarrow> t)
      in [''<'' @ int_str (FACILITY * 8 + severity) @ ''>1 '', lg_time e @ '' '', lg_host e @ '' '', topic @ '': '',
          body, [CHR 0x0D, CHR 0x0A]])"

definition log_line :: "log_env \<Rightarrow> int \<Rightarrow> string option \<Rightarrow> string \<Rightarrow> string" where
  "log_line e severity topic body = fst (fold LBUFF_PRINT (log_parts e severity topic body) ([], int MAX_LOG_SIZE))"

definition slog_send :: "log_env \<Rightarrow> string \<Rightarrow> log_context \<Rightarrow> log_context" where
  "slog_send e line ctx =
     (if \<not> pbuf_ok e then ctx
      else
        (let ctx = ctx\<lparr>udp := udp ctx @ [line]\<rparr>
         in if udp_err e \<noteq> 0 \<and> udp_err e \<noteq> LOG_ERR_MEM then ctx\<lparr>lg_ip_state := IP_NOT_RESOLEVED\<rparr>
            else ctx\<lparr>lg_last_send := lg_clock e 0\<rparr>))"

text \<open>The outputs of a line, with the lock held.\<close>

definition log_output :: "log_env \<Rightarrow> string \<Rightarrow> log_context \<Rightarrow> log_context" where
  "log_output e line ctx =
     (let ctx = ctx\<lparr>console := console ctx @ [line]\<rparr>;
          ctx = (if lg_ip_state ctx = IP_RESOLVED then slog_send e line ctx else ctx)
      in if http_log ctx then
           (if web_ok e then ctx\<lparr>http := http ctx @ [line]\<rparr> else ctx\<lparr>http_log := False\<rparr>)
         else ctx)"

definition hlog_any :: "log_env \<Rightarrow> int \<Rightarrow> string option \<Rightarrow> string \<Rightarrow> log_context \<Rightarrow> log_context option" where
  "hlog_any e severity topic body ctx =
     (let sev = (if severity < 0 then HLOG_INFO else severity) in
      if lg_level ctx < sev then Some ctx
      else map_option (\<lambda>ctx. LOG_UNLOCK (log_output e (log_line e severity topic body) ctx)) (LOG_LOCK ctx))"

definition hlog_info :: "log_env \<Rightarrow> string \<Rightarrow> log_context \<Rightarrow> log_context option" where
  "hlog_info e body ctx = hlog_any e HLOG_INFO (Some ''log'') body ctx"

section \<open>State\<close>

definition sys_log_init :: "bool \<Rightarrow> string option \<Rightarrow> bool + log_context" where
  "sys_log_init alloc endp =
     (if \<not> alloc then Inl False
      else
        (let ctx = \<lparr>lg_url = None, lg_port = 0, http_log = False, lg_connect_count = 0, lg_last_send = 0,
               lg_ip_state = IP_NOT_RESOLEVED, lg_pcb = False, lg_level = HLOG_INFO, lg_locked = False, lg_debug = 0,
               console = [], udp = [], http = []\<rparr>
         in case endp of None \<Rightarrow> Inr ctx
            | Some s \<Rightarrow>
                (case strtok_r (CHR '':'') (Some s) of
                   (None, _) \<Rightarrow> Inl True
                 | (Some url, rest) \<Rightarrow>
                     Inr (ctx\<lparr>lg_url := Some url, lg_port := (case rest of None \<Rightarrow> RLOG_DEFULT_PORT | Some r \<Rightarrow> atoi r)\<rparr>))))"

definition log_server_found :: "log_context \<Rightarrow> log_context option" where
  "log_server_found ctx =
     map_option (\<lambda>ctx. LOG_UNLOCK (ctx\<lparr>lg_ip_state := IP_RESOLVED, lg_connect_count := lg_connect_count ctx + 1\<rparr>))
       (LOG_LOCK ctx)"

definition hlog_remoute :: "log_context option \<Rightarrow> bool" where
  "hlog_remoute c = (case c of None \<Rightarrow> False | Some ctx \<Rightarrow> lg_ip_state ctx = IP_RESOLVED)"

definition hlog_web_enable :: "bool \<Rightarrow> log_context \<Rightarrow> log_context option" where
  "hlog_web_enable b ctx = map_option (\<lambda>ctx. LOG_UNLOCK (ctx\<lparr>http_log := b\<rparr>)) (LOG_LOCK ctx)"

definition log_level_set :: "u32 \<Rightarrow> log_context \<Rightarrow> log_context option" where
  "log_level_set level ctx = map_option (\<lambda>ctx. LOG_UNLOCK (ctx\<lparr>lg_level := int_of_word level\<rparr>)) (LOG_LOCK ctx)"

definition sys_log_debug_set :: "u32 \<Rightarrow> log_context \<Rightarrow> log_context" where
  "sys_log_debug_set lvl ctx = ctx\<lparr>lg_debug := lvl\<rparr>"

definition sys_log_reconnect :: "log_env \<Rightarrow> log_context \<Rightarrow> log_context option" where
  "sys_log_reconnect e ctx =
     (case LOG_LOCK ctx of None \<Rightarrow> None
      | Some ctx \<Rightarrow>
          (let ctx = LOG_UNLOCK (ctx\<lparr>lg_ip_state := IP_NOT_RESOLEVED, lg_pcb := False\<rparr>)
           in if lg_is_debug ctx then hlog_info e ''Log server reconnect'' ctx else Some ctx))"

text \<open>
  The part of \<open>sys_log_connect\<close> with the lock held: the state and the two flags.  The lock is
  given back around the DNS call, whose callback takes it.
\<close>

definition log_resolve :: "log_env \<Rightarrow> u64 \<Rightarrow> log_context \<Rightarrow> (bool \<times> bool \<times> log_context) option" where
  "log_resolve e now ctx =
     (case lg_ip_state ctx of
        IP_NOT_RESOLEVED \<Rightarrow>
          if dns_res e = LOG_ERR_INPROGRESS
          then Some (True, False, ctx\<lparr>lg_ip_state := IP_RESOLVING, lg_last_send := now\<rparr>)
          else if dns_res e = 0 then
            (let ctx = ctx\<lparr>lg_ip_state := IP_RESOLVED, lg_connect_count := lg_connect_count ctx + 1\<rparr>
             in if lg_is_debug ctx then map_option (\<lambda>ctx. (False, True, ctx)) (hlog_info e (''Resolved '' @ the (lg_url ctx)) ctx)
                else Some (False, True, ctx))
          else Some (False, False, ctx)
      | IP_RESOLVED \<Rightarrow> Some (False, True, ctx)
      | IP_RESOLVING \<Rightarrow>
          if now - lg_last_send ctx > LOG_IP_TIMEOUT_MS then
            (let ctx = ctx\<lparr>lg_ip_state := IP_NOT_RESOLEVED\<rparr>
             in if lg_is_debug ctx
                then map_option (\<lambda>ctx. (False, False, ctx)) (hlog_info e (''Resolving '' @ the (lg_url ctx) @ '' timeout'') ctx)
                else Some (False, False, ctx))
          else Some (False, False, ctx))"

text \<open>\<open>sys_log_connect\<close>; the flag tells whether it then starts the status report.\<close>

definition sys_log_connect :: "log_env \<Rightarrow> log_context \<Rightarrow> (bool \<times> log_context) option" where
  "sys_log_connect e ctx =
     (if lg_url ctx = None \<or> \<not> wifi_up e then Some (False, ctx)
      else
        (case LOG_LOCK ctx of None \<Rightarrow> None
         | Some ctx \<Rightarrow>
             if lg_ip_state ctx = IP_RESOLVED then Some (False, LOG_UNLOCK ctx)
             else
               (case (if lg_is_debug ctx then hlog_info e ''Log server connect'' ctx else Some ctx) of
                  None \<Rightarrow> None
                | Some ctx \<Rightarrow>
                    (let now = lg_clock e 0; ctx = (if lg_pcb ctx then ctx else ctx\<lparr>lg_pcb := udp_new e\<rparr>)
                     in if \<not> lg_pcb ctx then Some (False, LOG_UNLOCK ctx)
                        else
                          (case log_resolve e now ctx of None \<Rightarrow> None
                           | Some (resolving, connected, ctx) \<Rightarrow>
                               (let ctx = LOG_UNLOCK ctx
                                in map_option (\<lambda>ctx. (connected, ctx))
                                     (if resolving then hlog_info e (''Resolving '' @ the (lg_url ctx) @ '' ...'') ctx
                                      else Some ctx)))))))"

section \<open>Correctness\<close>

lemma lbuff_stop: "q \<le> 0 \<Longrightarrow> fst (fold LBUFF_PRINT xs (z, q)) = z"
  by (induction xs) (simp_all add: LBUFF_PRINT_def)

lemma fold_lbuff:
  "length out < n \<Longrightarrow> fst (fold LBUFF_PRINT ss (out, int n - int (length out))) = take (n - 1) (out @ concat ss)"
proof (induction ss arbitrary: out)
  case (Cons s ss)
  have step: "fold LBUFF_PRINT (s # ss) (out, int n - int (length out)) =
      fold LBUFF_PRINT ss (take (n - 1) (out @ s), int n - int (length (out @ s)))"
    using Cons.prems by (simp add: LBUFF_PRINT_def nat_diff_distrib diff_diff_eq)
  show ?case
  proof (cases "length (out @ s) < n")
    case True
    then have "take (n - 1) (out @ s) = out @ s" by simp
    then show ?thesis using Cons.IH [OF True] unfolding step by simp
  next
    case False
    then have "take (n - 1) (out @ s @ concat ss) = take (n - 1) (out @ s)" by simp
    moreover have "int n - int (length (out @ s)) \<le> 0" using False by simp
    ultimately show ?thesis unfolding step lbuff_stop [OF \<open>int n - int (length (out @ s)) \<le> 0\<close>] by simp
  qed
qed simp

lemma log_line_eq: "log_line e sev topic body = take 511 (concat (log_parts e sev topic body))"
  using fold_lbuff [of "[]" 512 "log_parts e sev topic body"] by (simp add: log_line_def MAX_LOG_SIZE_def)

lemma LOG_sel [simp]:
  "lg_locked (LOG_UNLOCK ctx) = False" "lg_debug (LOG_UNLOCK ctx) = lg_debug ctx" "lg_url (LOG_UNLOCK ctx) = lg_url ctx"
  by (simp_all add: LOG_UNLOCK_def)

lemma hlog_any_unlocked: "\<not> lg_locked ctx \<Longrightarrow> \<exists>ctx'. hlog_any e sev topic body ctx = Some ctx' \<and> \<not> lg_locked ctx' \<and> lg_debug ctx' = lg_debug ctx"
  by (simp add: hlog_any_def LOG_LOCK_def log_output_def slog_send_def Let_def)

text \<open>
  A log line arrives whole or cut, everywhere the same: with the lock free and a severity the
  level lets through, the first 511 bytes of the line (priority, time, host, topic, message, line
  end) are printed on the console, sent to the syslog server exactly when it is resolved and a
  buffer is free, and given to the web session exactly when one listens; the lock is free again.
\<close>

lemma log_line_everywhere:
  assumes "\<not> lg_locked ctx" and "0 \<le> sev" and "sev \<le> lg_level ctx"
  shows "\<exists>ctx'. hlog_any e sev topic body ctx = Some ctx' \<and> \<not> lg_locked ctx' \<and>
    (let line = take 511 (concat (log_parts e sev topic body)) in
     console ctx' = console ctx @ [line] \<and>
     udp ctx' = udp ctx @ (if lg_ip_state ctx = IP_RESOLVED \<and> pbuf_ok e then [line] else []) \<and>
     http ctx' = http ctx @ (if http_log ctx \<and> web_ok e then [line] else []))"
proof -
  define line where "line = take 511 (concat (log_parts e sev topic body))"
  have "hlog_any e sev topic body ctx = Some (LOG_UNLOCK (log_output e line (ctx\<lparr>lg_locked := True\<rparr>)))"
    using assms by (simp add: hlog_any_def LOG_LOCK_def log_line_eq flip: line_def)
  then show ?thesis unfolding line_def [symmetric] Let_def
    by (simp add: log_output_def slog_send_def LOG_UNLOCK_def Let_def)
qed

text \<open>
  The debug flag of the log service hangs the device: with debug on (and the normal level), as
  soon as the network is up and the server is not resolved, \<open>sys_log_connect\<close> logs with its own
  lock held and never returns; with debug off it returns with the lock free in every state.
\<close>

lemma log_debug_deadlock:
  assumes "\<not> lg_locked ctx" and "lg_url ctx \<noteq> None" and "wifi_up e" and "HLOG_INFO \<le> lg_level ctx"
  shows "(lg_debug ctx \<noteq> 0 \<and> lg_ip_state ctx \<noteq> IP_RESOLVED \<longrightarrow> sys_log_connect e ctx = None) \<and>
    (lg_debug ctx = 0 \<longrightarrow> (\<exists>r ctx'. sys_log_connect e ctx = Some (r, ctx') \<and> \<not> lg_locked ctx'))"
proof (intro conjI impI)
  assume d: "lg_debug ctx \<noteq> 0 \<and> lg_ip_state ctx \<noteq> IP_RESOLVED"
  have "hlog_info e t (ctx\<lparr>lg_locked := True\<rparr>) = None" for t
    using assms(4) by (simp add: hlog_info_def hlog_any_def LOG_LOCK_def HLOG_INFO_def)
  then show "sys_log_connect e ctx = None"
    using d assms by (simp add: sys_log_connect_def LOG_LOCK_def lg_is_debug_def)
next
  assume d: "lg_debug ctx = 0"
  define c1 where "c1 = (if lg_pcb ctx then ctx\<lparr>lg_locked := True\<rparr> else ctx\<lparr>lg_locked := True, lg_pcb := udp_new e\<rparr>)"
  have c1: "lg_debug c1 = 0" by (simp add: c1_def d)
  have "log_resolve e (lg_clock e 0) c1 \<noteq> None"
    using c1 by (simp add: log_resolve_def lg_is_debug_def Let_def ex_bool_eq split: ip_resolve_state.split)
  then obtain a b c where r: "log_resolve e (lg_clock e 0) c1 = Some (a, b, c)" by auto
  obtain c' where l: "hlog_info e (''Resolving '' @ the (lg_url (LOG_UNLOCK c)) @ '' ...'') (LOG_UNLOCK c) = Some c'" "\<not> lg_locked c'"
    using hlog_any_unlocked [of "LOG_UNLOCK c"] unfolding hlog_info_def LOG_sel(1) by blast
  have "sys_log_connect e ctx = (if lg_ip_state ctx = IP_RESOLVED then Some (False, LOG_UNLOCK (ctx\<lparr>lg_locked := True\<rparr>))
     else if \<not> lg_pcb c1 then Some (False, LOG_UNLOCK c1)
     else Some (b, if a then c' else LOG_UNLOCK c))"
    using assms(1-3) d r l(1) by (auto simp: sys_log_connect_def LOG_LOCK_def lg_is_debug_def Let_def c1_def)
  then show "\<exists>r ctx'. sys_log_connect e ctx = Some (r, ctx') \<and> \<not> lg_locked ctx'" using l(2) by (simp add: ex_bool_eq)
qed

section \<open>Witnesses\<close>

definition demo_log :: log_context where
  "demo_log = (case sys_log_init True (Some ''srv:514'') of Inr c \<Rightarrow> c)"

definition demo_log_env :: log_env where
  "demo_log_env = \<lparr>lg_time = ''T'', lg_host = ''pico'', pbuf_ok = True, udp_err = 0, udp_new = True, dns_res = 0, web_ok = True,
     wifi_up = True, lg_clock = (\<lambda>_. 100)\<rparr>"

lemma demo_log_eq: "lg_locked demo_log = False" "lg_url demo_log = Some ''srv''" "lg_level demo_log = 6"
  "lg_ip_state demo_log = IP_NOT_RESOLEVED" "console demo_log = []"
  by code_simp+

lemma log_line_everywhere_witness:
  "\<exists>ctx'. hlog_any demo_log_env 6 (Some ''ssr'') ''hi'' demo_log = Some ctx' \<and>
     console ctx' = [''<14>1 T pico ssr: hi'' @ [CHR 0x0D, CHR 0x0A]]"
proof -
  have "take 511 (concat (log_parts demo_log_env 6 (Some ''ssr'') ''hi'')) = ''<14>1 T pico ssr: hi'' @ [CHR 0x0D, CHR 0x0A]"
    by code_simp
  then show ?thesis
    using log_line_everywhere [of demo_log 6 demo_log_env "Some ''ssr''" "''hi''"] demo_log_eq by (auto simp: Let_def)
qed

lemma log_debug_deadlock_witness:
  "sys_log_connect demo_log_env (sys_log_debug_set 1 demo_log) = None \<and> sys_log_connect demo_log_env demo_log \<noteq> None"
proof -
  have "lg_debug demo_log = 0" by code_simp
  then show ?thesis
    using log_debug_deadlock [of "sys_log_debug_set 1 demo_log" demo_log_env] log_debug_deadlock [of demo_log demo_log_env] demo_log_eq
    by (auto simp: sys_log_debug_set_def HLOG_INFO_def demo_log_env_def)
qed

end
