(* ===== verification/Network.thy ===== *)
theory Network
  imports SysTime
begin

text \<open>
  Three network services: the WiFi client \<open>libs/common/services/wifi/wifi.c\<close> (configuration, the
  rotation through the networks), the NTP client \<open>services/ntp/ntp.c\<close> (when the time is valid) and
  the Wake on LAN sender \<open>services/wol/wol.c\<close> (the packet, the command).  The calls of the SDK and
  of lwIP are arguments; an access out of an array or through NULL is None or Inl True.
\<close>

section \<open>WiFi\<close>

definition MAX_WIFI_NETS :: nat where "MAX_WIFI_NETS = 3"
definition CONNECT_TIMEOUT_MS :: u64 where "CONNECT_TIMEOUT_MS = 30000"

record wifi_net =
  ssid :: string
  pass :: "string option"
  net_connected :: bool

text \<open>\<open>tried\<close> records the networks handed to the SDK, \<open>reconnects\<close> the calls of \<open>system_reconnect\<close>.\<close>

record wifi_context =
  connect_time :: u64
  connect_in_progress :: bool
  net_id :: int
  all_nets :: "wifi_net list"
  wf_debug :: u32
  tried :: "nat list"
  reconnects :: nat

record wifi_env =
  link_up :: bool
  connect_err :: int
  now_us :: u64

text \<open>Inl False is the error return, Inl True the password of a network that is not there.\<close>

definition get_wifi_cfg :: "bool \<Rightarrow> (nat \<Rightarrow> bool) \<Rightarrow> string option \<Rightarrow> string option \<Rightarrow> bool + wifi_context" where
  "get_wifi_cfg alloc al ssd pwd =
     (case ssd of None \<Rightarrow> Inl False
      | Some s \<Rightarrow>
          (let nets = take MAX_WIFI_NETS (strtok_all (CHR '';'') (Some s));
               ps = take MAX_WIFI_NETS (strtok_all (CHR '';'') pwd)
           in if \<not> alloc \<or> \<not> list_all al [0 ..< length nets] \<or> nets = [] then Inl False
              else if length ps > length nets then Inl True
              else Inr \<lparr>connect_time = 0, connect_in_progress = False, net_id = 0,
                all_nets = map (\<lambda>i. \<lparr>ssid = nets ! i, pass = (if i < length ps then Some (ps ! i) else None), net_connected = False\<rparr>)
                  [0 ..< length nets], wf_debug = 0, tried = [], reconnects = 0\<rparr>))"

definition sys_wifi_init :: "bool \<Rightarrow> (nat \<Rightarrow> bool) \<Rightarrow> string option \<Rightarrow> string option \<Rightarrow> bool + wifi_context" where
  "sys_wifi_init alloc al ssd pwd =
     (case get_wifi_cfg alloc al ssd pwd of Inl b \<Rightarrow> Inl b
      | Inr ctx \<Rightarrow> Inr (ctx\<lparr>connect_time := 0, connect_in_progress := False, net_id := -1\<rparr>))"

datatype wifi_state = WIFI_OFF | WIFI_NOT_CONNECTED | WIFI_CONNECTED

definition wifi_get_state :: "bool \<Rightarrow> wifi_context option \<Rightarrow> wifi_state" where
  "wifi_get_state link c =
     (case c of None \<Rightarrow> WIFI_OFF
      | Some ctx \<Rightarrow> if all_nets ctx = [] then WIFI_OFF else if link then WIFI_CONNECTED else WIFI_NOT_CONNECTED)"

definition net_set :: "bool \<Rightarrow> wifi_context \<Rightarrow> wifi_context" where
  "net_set b ctx = ctx\<lparr>all_nets := upd_at (nat (net_id ctx)) (\<lambda>n. n\<lparr>net_connected := b\<rparr>) (all_nets ctx)\<rparr>"

definition wifi_next_id :: "wifi_context \<Rightarrow> int" where
  "wifi_next_id ctx = (let i = net_id ctx + 1 in if i < 0 \<or> i \<ge> int (length (all_nets ctx)) then 0 else i)"

text \<open>One call of \<open>sys_wifi_connect\<close>; None: a connected link before any network was tried (\<open>all_nets[-1]\<close>).\<close>

definition sys_wifi_connect :: "wifi_env \<Rightarrow> wifi_context \<Rightarrow> wifi_context option" where
  "sys_wifi_connect e ctx =
     (if wifi_get_state (link_up e) (Some ctx) = WIFI_CONNECTED then
        (if net_id ctx < 0 \<or> net_id ctx \<ge> int (length (all_nets ctx)) then None
         else
           (let ctx = (if connect_in_progress ctx then ctx\<lparr>reconnects := reconnects ctx + 1\<rparr> else ctx)
            in Some (net_set True (ctx\<lparr>connect_in_progress := False\<rparr>))))
      else if \<not> connect_in_progress ctx then
        (let ctx = (if 0 \<le> net_id ctx \<and> net_id ctx < int (length (all_nets ctx)) then net_set False ctx else ctx);
             i = wifi_next_id ctx;
             ctx = ctx\<lparr>net_id := i, tried := tried ctx @ [nat i]\<rparr>
         in Some (if connect_err e \<noteq> 0 then ctx
                  else ctx\<lparr>connect_in_progress := True, connect_time := now_us e + CONNECT_TIMEOUT_MS * 1000\<rparr>))
      else if sint (connect_time ctx - now_us e) < 0 then Some (ctx\<lparr>connect_in_progress := False\<rparr>)
      else Some ctx)"

definition sys_wifi_debug_set :: "u32 \<Rightarrow> wifi_context \<Rightarrow> wifi_context" where
  "sys_wifi_debug_set lvl ctx = ctx\<lparr>wf_debug := lvl\<rparr>"

fun wifi_runs :: "wifi_env list \<Rightarrow> wifi_context \<Rightarrow> wifi_context option" where
  "wifi_runs [] ctx = Some ctx"
| "wifi_runs (e # es) ctx = (case sys_wifi_connect e ctx of None \<Rightarrow> None | Some ctx \<Rightarrow> wifi_runs es ctx)"

definition wifi_ok :: "wifi_context \<Rightarrow> bool" where
  "wifi_ok ctx \<longleftrightarrow> all_nets ctx \<noteq> [] \<and> -1 \<le> net_id ctx \<and> net_id ctx < int (length (all_nets ctx))"

lemma length_net_set [simp]:
  "length (all_nets (net_set b ctx)) = length (all_nets ctx)" "net_id (net_set b ctx) = net_id ctx"
  "tried (net_set b ctx) = tried ctx" "connect_in_progress (net_set b ctx) = connect_in_progress ctx"
  by (simp_all add: net_set_def)

definition next_net :: "wifi_context \<Rightarrow> nat" where
  "next_net ctx = nat (net_id ctx + 1) mod length (all_nets ctx)"

lemma wifi_step_down:
  assumes "wifi_ok ctx" and "\<not> link_up e"
  shows "\<exists>ctx'. sys_wifi_connect e ctx = Some ctx' \<and> wifi_ok ctx' \<and> length (all_nets ctx') = length (all_nets ctx) \<and>
    (if connect_in_progress ctx
     then tried ctx' = tried ctx \<and> net_id ctx' = net_id ctx \<and>
       connect_in_progress ctx' = (0 \<le> sint (connect_time ctx - now_us e))
     else tried ctx' = tried ctx @ [next_net ctx] \<and> net_id ctx' = int (next_net ctx))"
proof (cases "connect_in_progress ctx")
  case True
  then show ?thesis using assms by (simp add: sys_wifi_connect_def wifi_get_state_def wifi_ok_def)
next
  case False
  define n where "n = length (all_nets ctx)"
  have n: "0 < n" "-1 \<le> net_id ctx" "net_id ctx < int n" using assms(1) by (simp_all add: wifi_ok_def n_def)
  have nx: "wifi_next_id ctx = int (next_net ctx)"
  proof (cases "net_id ctx + 1 = int n")
    case True
    then have "nat (net_id ctx + 1) = n" by simp
    then show ?thesis using True by (simp add: next_net_def n_def wifi_next_id_def)
  next
    case False
    then have "nat (net_id ctx + 1) < n" "0 \<le> net_id ctx + 1" "net_id ctx + 1 < int n" using n by linarith+
    then show ?thesis by (simp add: next_net_def wifi_next_id_def Let_def flip: n_def)
  qed
  have lt: "next_net ctx < n" using n(1) by (simp add: next_net_def flip: n_def)
  define c1 where "c1 = (if 0 \<le> net_id ctx \<and> net_id ctx < int n then net_set False ctx else ctx)"
  have c1: "length (all_nets c1) = n" "tried c1 = tried ctx" "wifi_next_id c1 = int (next_net ctx)"
    unfolding nx [symmetric] by (simp_all add: c1_def n_def wifi_next_id_def)
  define c2 where "c2 = c1\<lparr>net_id := int (next_net ctx), tried := tried ctx @ [next_net ctx]\<rparr>"
  have "sys_wifi_connect e ctx = Some (if connect_err e \<noteq> 0 then c2
      else c2\<lparr>connect_in_progress := True, connect_time := now_us e + CONNECT_TIMEOUT_MS * 1000\<rparr>)"
    using assms(2) False
    by (simp add: sys_wifi_connect_def wifi_get_state_def Let_def flip: n_def c1_def) (simp add: c1 c2_def)
  then show ?thesis using False lt c1(1) n(1) by (auto simp: wifi_ok_def c2_def n_def)
qed

text \<open>
  The WiFi client goes round its networks: over any number of calls without a link, failed
  starts and timeouts included, the networks it tries are the ones after the last one tried, in
  the configured order and round again, none left out.
\<close>

lemma wifi_round_robin:
  assumes "wifi_ok ctx" and "\<forall>e\<in>set es. \<not> link_up e"
  shows "\<exists>ctx' k. wifi_runs es ctx = Some ctx' \<and> wifi_ok ctx' \<and> length (all_nets ctx') = length (all_nets ctx) \<and>
    tried ctx' = tried ctx @ map (\<lambda>j. (next_net ctx + j) mod length (all_nets ctx)) [0 ..< k]"
  using assms
proof (induction es arbitrary: ctx)
  case Nil
  then show ?case by (auto intro!: exI [of _ 0])
next
  case (Cons e es)
  define n where "n = length (all_nets ctx)"
  obtain c1 where c1: "sys_wifi_connect e ctx = Some c1" "wifi_ok c1" "length (all_nets c1) = n"
    "if connect_in_progress ctx then tried c1 = tried ctx \<and> net_id c1 = net_id ctx
     else tried c1 = tried ctx @ [next_net ctx] \<and> net_id c1 = int (next_net ctx)"
    using wifi_step_down [OF Cons.prems(1), of e] Cons.prems(2) by (auto simp: n_def split: if_splits)
  obtain ctx' k where r: "wifi_runs es c1 = Some ctx'" "wifi_ok ctx'" "length (all_nets ctx') = n"
    "tried ctx' = tried c1 @ map (\<lambda>j. (next_net c1 + j) mod n) [0 ..< k]"
    using Cons.IH [OF c1(2)] Cons.prems(2) c1(3) by auto
  show ?case
  proof (cases "connect_in_progress ctx")
    case True
    then have "next_net c1 = next_net ctx" "tried c1 = tried ctx" using c1(3,4) by (simp_all add: next_net_def n_def)
    then show ?thesis using r c1(1) by (auto simp flip: n_def)
  next
    case False
    have 0: "next_net ctx < n" using Cons.prems(1) by (simp add: next_net_def wifi_ok_def n_def)
    have "next_net c1 = (next_net ctx + 1) mod n" using c1(3,4) False by (simp add: next_net_def nat_add_distrib)
    then have "(next_net c1 + j) mod n = (next_net ctx + Suc j) mod n" for j by (simp add: mod_simps)
    then have "[next_net ctx] @ map (\<lambda>j. (next_net c1 + j) mod n) [0 ..< k] = map (\<lambda>j. (next_net ctx + j) mod n) [0 ..< Suc k]"
      using 0 by (subst map_upt_Suc) simp
    then show ?thesis using r c1(1,4) False by (auto simp flip: n_def intro!: exI [of _ "Suc k"])
  qed
qed

section \<open>NTP\<close>

definition SNTP_MAX_SERVERS :: nat where "SNTP_MAX_SERVERS = 4"

record ntp_context =
  ntp_servers :: "string list"
  ntp_init :: bool
  datetime :: tm
  time_synched :: bool
  time_valid :: bool
  ntp_debug :: u32
  ntp_reports :: nat

definition ntp_time_valid :: "ntp_context option \<Rightarrow> bool" where
  "ntp_time_valid c = (case c of None \<Rightarrow> False | Some ctx \<Rightarrow> time_valid ctx)"

definition get_ntp_servers :: "nat \<Rightarrow> bool \<Rightarrow> string option \<Rightarrow> ntp_context option" where
  "get_ntp_servers max_servers alloc cfg =
     (case cfg of None \<Rightarrow> None
      | Some s \<Rightarrow>
          if \<not> alloc then None
          else Some \<lparr>ntp_servers = take max_servers (strtok_all (CHR '';'') (Some s)), ntp_init = False, datetime = tm_zero,
                 time_synched = False, time_valid = False, ntp_debug = 0, ntp_reports = 0\<rparr>)"

text \<open>The result is the context and the servers handed to SNTP, in their order.\<close>

definition sys_ntp_init :: "nat \<Rightarrow> bool \<Rightarrow> string option \<Rightarrow> (ntp_context \<times> string list) option" where
  "sys_ntp_init max_servers alloc cfg =
     (case get_ntp_servers max_servers alloc cfg of None \<Rightarrow> None
      | Some ctx \<Rightarrow> if ntp_servers ctx = [] then None else Some (ctx, ntp_servers ctx))"

definition sys_ntp_reconnect :: "ntp_context \<Rightarrow> ntp_context" where
  "sys_ntp_reconnect ctx = ctx\<lparr>ntp_init := False, time_synched := False, time_valid := False\<rparr>"

text \<open>\<open>ntp_reports\<close> counts the calls of \<open>sys_state_log_status\<close>.\<close>

definition sys_ntp_connect :: "bool \<Rightarrow> ntp_context \<Rightarrow> ntp_context" where
  "sys_ntp_connect wifi ctx =
     (if ntp_init ctx then
        (if time_synched ctx then ctx\<lparr>time_synched := False, time_valid := True, ntp_reports := ntp_reports ctx + 1\<rparr> else ctx)
      else if \<not> wifi then ctx
      else ctx\<lparr>ntp_init := True\<rparr>)"

text \<open>\<open>gmtime_r\<close> of the C library: the UTC calendar of the seconds since 1970.\<close>

definition gmtime :: "u32 \<Rightarrow> tm" where
  "gmtime sec =
     (let days = uint sec div 86400; s = uint sec mod 86400; z = days + 719468; era = z div 146097; doe = z mod 146097;
          yoe = (doe - doe div 1460 + doe div 36524 - doe div 146096) div 365;
          doy = doe - (365 * yoe + yoe div 4 - yoe div 100); mp = (5 * doy + 2) div 153;
          d = doy - (153 * mp + 2) div 5 + 1; m = (if mp < 10 then mp + 2 else mp - 10);
          y = yoe + era * 400 + (if m \<le> 1 then 1 else 0); leap = (y mod 4 = 0 \<and> (y mod 100 \<noteq> 0 \<or> y mod 400 = 0))
      in \<lparr>tm_sec = s mod 60, tm_min = s div 60 mod 60, tm_hour = s div 3600, tm_mday = d, tm_mon = m,
          tm_year = y - 1900, tm_wday = (days + 4) mod 7,
          tm_yday = (if m \<le> 1 then doy - 306 else doy + 59 + (if leap then 1 else 0))\<rparr>)"

text \<open>The SNTP callback: the time goes to the AON timer (the second result) and waits to be reported.\<close>

definition herak_set_system_time :: "u32 \<Rightarrow> ntp_context option \<Rightarrow> ntp_context option \<times> tm option" where
  "herak_set_system_time sec c =
     (case c of None \<Rightarrow> (None, None)
      | Some ctx \<Rightarrow> (Some (ctx\<lparr>datetime := gmtime sec, time_synched := True\<rparr>), Some (gmtime sec)))"

definition sys_ntp_debug_set :: "u32 \<Rightarrow> ntp_context \<Rightarrow> ntp_context" where
  "sys_ntp_debug_set lvl ctx = ctx\<lparr>ntp_debug := lvl\<rparr>"

lemma gmtime_examples:
  "gmtime 0 = \<lparr>tm_sec = 0, tm_min = 0, tm_hour = 0, tm_mday = 1, tm_mon = 0, tm_year = 70, tm_wday = 4, tm_yday = 0\<rparr>"
  "gmtime 1709210096 = \<lparr>tm_sec = 56, tm_min = 34, tm_hour = 12, tm_mday = 29, tm_mon = 1, tm_year = 124, tm_wday = 4, tm_yday = 59\<rparr>"
  by code_simp+

section \<open>Wake on LAN\<close>

definition WOL_PACKET_LEN :: nat where "WOL_PACKET_LEN = 102"

text \<open>\<open>ether\<close> records the packets handed to \<open>udp_sendto\<close>.\<close>

record wol_context =
  wol_pcb :: bool
  wol_debug :: u32
  err_c :: int
  ok_c :: int
  ether :: "u8 list list"

record wol_env =
  wol_udp_new :: bool
  wol_pbuf :: bool
  wol_err :: int

definition wol_init :: "bool \<Rightarrow> wol_context option" where
  "wol_init alloc = (if alloc then Some \<lparr>wol_pcb = False, wol_debug = 0, err_c = 0, ok_c = 0, ether = []\<rparr> else None)"

definition wol_debug_set :: "u32 \<Rightarrow> wol_context \<Rightarrow> wol_context" where
  "wol_debug_set lvl ctx = ctx\<lparr>wol_debug := lvl\<rparr>"

text \<open>The two loops that fill the buffer \<open>buf\<close>.\<close>

definition wol_fill :: "u8 list \<Rightarrow> u8 list \<Rightarrow> u8 list" where
  "wol_fill mac buf =
     (let buf = fold (\<lambda>i b. b[i := 0xFF]) [0 ..< 6] buf
      in fold (\<lambda>i b. fold (\<lambda>j b. b[i * 6 + j := mac ! j]) [0 ..< 6] b) [1 ..< 17] buf)"

definition wol_packet_send :: "wol_env \<Rightarrow> u8 list \<Rightarrow> u8 list \<Rightarrow> wol_context \<Rightarrow> int \<times> wol_context" where
  "wol_packet_send e buf mac ctx =
     (let ctx = (if wol_pcb ctx then ctx else ctx\<lparr>wol_pcb := wol_udp_new e\<rparr>)
      in if \<not> wol_pcb ctx \<or> \<not> wol_pbuf e then (-1, ctx\<lparr>err_c := err_c ctx + 1\<rparr>)
         else
           (let ctx = ctx\<lparr>ether := ether ctx @ [wol_fill mac buf]\<rparr>
            in if wol_err e \<noteq> 0 then (-1, ctx\<lparr>err_c := err_c ctx + 1\<rparr>) else (0, ctx\<lparr>ok_c := ok_c ctx + 1\<rparr>)))"

text \<open>\<open>wol?send:<mac>\<close> always returns 0; \<open>buf\<close> is the memory of the packet buffer.\<close>

definition cmd_wol_send :: "wol_env \<Rightarrow> u8 list \<Rightarrow> string \<Rightarrow> wol_context \<Rightarrow> int \<times> wol_context" where
  "cmd_wol_send e buf params ctx =
     (if params = [] \<or> hd params \<noteq> CHR '':'' \<or> length params < 11 then (0, ctx)
      else
        (let mac = map (\<lambda>m. word_of_int (strtol_val 16 m)) (take 6 (strtok_all (CHR '':'') (Some params)))
         in if length mac \<noteq> 6 then (0, ctx) else (0, snd (wol_packet_send e buf mac ctx))))"

lemma list6: "length xs = 6 \<Longrightarrow> \<exists>a b c d e f. xs = [a, b, c, d, e, f]"
  by (auto simp: length_Suc_conv eval_nat_numeral)

lemma concat_replicate_snoc: "concat (replicate n xs) @ xs = concat (replicate (Suc n) xs)"
  by (induction n) simp_all

lemma wol_fill_nth:
  "length buf = 102 \<Longrightarrow> length mac = 6 \<Longrightarrow> wol_fill mac buf = replicate 6 0xFF @ concat (replicate 16 mac)"
proof -
  assume l: "length buf = 102" "length mac = 6"
  have row: "fold (\<lambda>j b. b[6 * k + j := mac ! j]) [0 ..< 6] (xs @ ys) = (xs @ mac) @ drop 6 ys"
    if r: "length xs = 6 * k" "6 \<le> length ys" for k and xs ys :: "u8 list"
  proof -
    obtain a b c d e f where y: "take 6 ys = [a, b, c, d, e, f]" using r(2) list6 [of "take 6 ys"] by auto
    obtain m0 m1 m2 m3 m4 m5 where m: "mac = [m0, m1, m2, m3, m4, m5]" using list6 [OF l(2)] by auto
    have ys: "ys = [a, b, c, d, e, f] @ drop 6 ys" using y append_take_drop_id [of 6 ys] by simp
    have "[0 ..< 6] = [0, 1, 2, 3, 4, 5 :: nat]" by (simp add: upt_rec)
    then show ?thesis using r(1) by (subst ys) (simp add: m list_update_append nth_Cons')
  qed
  have rows: "n \<le> 17 \<Longrightarrow> 1 \<le> n \<Longrightarrow> fold (\<lambda>i b. fold (\<lambda>j b. b[i * 6 + j := mac ! j]) [0 ..< 6] b) [1 ..< n] (replicate 6 0xFF @ ys) =
      (replicate 6 0xFF @ concat (replicate (n - 1) mac)) @ drop (6 * (n - 1)) ys" if "length ys = 96" for n ys
  proof (induction n)
    case (Suc n)
    show ?case
    proof (cases "n = 0")
      case False
      define xs where "xs = replicate 6 (0xFF :: u8) @ concat (replicate (n - 1) mac)"
      have len: "length xs = 6 * n" "6 \<le> length (drop (6 * (n - 1)) ys)"
        using l(2) that False Suc.prems by (auto simp: xs_def length_concat sum_list_replicate)
      have "fold (\<lambda>i b. fold (\<lambda>j b. b[i * 6 + j := mac ! j]) [0 ..< 6] b) [1 ..< Suc n] (replicate 6 0xFF @ ys) =
          fold (\<lambda>j b. b[6 * n + j := mac ! j]) [0 ..< 6] (xs @ drop (6 * (n - 1)) ys)"
        using Suc False by (simp add: xs_def mult.commute)
      also have "\<dots> = (xs @ mac) @ drop (6 * n) ys" unfolding row [OF len] using False by (cases n) simp_all
      also have "xs @ mac = replicate 6 0xFF @ concat (replicate n mac)"
        using False concat_replicate_snoc [of "n - 1" mac] by (simp add: xs_def)
      finally show ?thesis by simp
    qed simp
  qed simp
  obtain a b c d e f where h: "take 6 buf = [a, b, c, d, e, f]" using l(1) list6 [of "take 6 buf"] by auto
  have buf: "buf = [a, b, c, d, e, f] @ drop 6 buf" using h append_take_drop_id [of 6 buf] by simp
  have "[0 ..< 6] = [0, 1, 2, 3, 4, 5 :: nat]" by (simp add: upt_rec)
  then have "fold (\<lambda>i b. b[i := 0xFF]) [0 ..< 6] buf = replicate 6 0xFF @ drop 6 buf"
    by (subst buf) (simp add: eval_nat_numeral)
  then show ?thesis using rows [of "drop 6 buf" 17] l(1) by (simp add: wol_fill_def)
qed

text \<open>The text \<open>:a:b:c:d:e:f\<close> of six non-empty parts without colons.\<close>

definition mac_text :: "string list \<Rightarrow> string" where
  "mac_text ps = concat (map (\<lambda>p. CHR '':'' # p) ps)"

lemma strtok_colon: "p \<noteq> [] \<Longrightarrow> CHR '':'' \<notin> set p \<Longrightarrow>
    strtok_all (CHR '':'') (Some (CHR '':'' # p @ r)) =
      (if r = [] then [p] else if hd r = CHR '':'' then p # strtok_all (CHR '':'') (Some (tl r)) else strtok_all (CHR '':'') (Some (CHR '':'' # p @ r)))"
proof -
  assume p: "p \<noteq> []" "CHR '':'' \<notin> set p"
  have skip: "strtok_r d (Some (d # s)) = strtok_r d (Some s)" for d s by (simp add: strtok_r_def)
  show ?thesis
  proof (cases r)
    case Nil
    then show ?thesis using strtok_r_simple(2) [OF p] by (simp add: strtok_all.simps [of _ "Some _"] skip strtok_all.simps [of _ None])
  next
    case (Cons c cs)
    then show ?thesis using strtok_r_simple(1) [OF p, of cs]
      by (cases "c = CHR '':''") (simp_all add: strtok_all.simps [of _ "Some (_ # _ @ _)"] skip)
  qed
qed

lemma strtok_all_colon: "strtok_all d (Some (d # s)) = strtok_all d (Some s)"
  by (subst (1 2) strtok_all.simps) (simp add: strtok_r_def)

lemma mac_tokens:
  "\<forall>p\<in>set ps. p \<noteq> [] \<and> CHR '':'' \<notin> set p \<Longrightarrow> ps \<noteq> [] \<Longrightarrow> strtok_all (CHR '':'') (Some (mac_text ps)) = ps"
proof (induction ps)
  case (Cons p ps)
  show ?case
  proof (cases ps)
    case Nil
    then show ?thesis using Cons.prems strtok_colon [of p "[]"] by (simp add: mac_text_def)
  next
    case (Cons q qs)
    have m: "mac_text (p # ps) = CHR '':'' # p @ mac_text ps" "mac_text ps = CHR '':'' # tl (mac_text ps)"
      by (simp_all add: mac_text_def Cons)
    have "strtok_all (CHR '':'') (Some (tl (mac_text ps))) = ps"
      using Cons.IH Cons.prems Cons strtok_all_colon [of "CHR '':''" "tl (mac_text ps)"] m(2) by simp
    then show ?thesis using strtok_colon [of p "mac_text ps"] Cons.prems m by simp (metis list.sel(1) list.distinct(1))
  qed
qed simp

text \<open>
  C40.  The Wake on LAN command sends the magic packet: for six hexadecimal parts (of 11 characters
  with their colons or more) it hands lwIP exactly six bytes 0xFF and sixteen times the address,
  whatever was in the packet's memory, and counts it as sent or failed as lwIP says.
\<close>

lemma wol_magic_packet:
  assumes "length ps = 6" and "\<forall>p\<in>set ps. p \<noteq> [] \<and> CHR '':'' \<notin> set p" and "length (mac_text ps) \<ge> 11"
    and "length buf = WOL_PACKET_LEN" and "wol_udp_new e" and "wol_pbuf e"
  shows "\<exists>ctx'. cmd_wol_send e buf (mac_text ps) ctx = (0, ctx') \<and>
    ether ctx' = ether ctx @ [replicate 6 0xFF @ concat (replicate 16 (map (\<lambda>p. word_of_int (strtol_val 16 p)) ps))] \<and>
    ok_c ctx' = ok_c ctx + (if wol_err e = 0 then 1 else 0) \<and> err_c ctx' = err_c ctx + (if wol_err e = 0 then 0 else 1)"
proof -
  let ?mac = "map (\<lambda>p. word_of_int (strtol_val 16 p)) ps :: u8 list"
  have t: "take 6 (strtok_all (CHR '':'') (Some (mac_text ps))) = ps"
    using mac_tokens [OF assms(2)] assms(1) by (cases ps) auto
  have h: "mac_text ps \<noteq> []" "hd (mac_text ps) = CHR '':''" using assms(1,3) by (auto simp: mac_text_def) (cases ps; simp)
  have f: "wol_fill ?mac buf = replicate 6 0xFF @ concat (replicate 16 ?mac)"
    using wol_fill_nth [of buf ?mac] assms(1,4) by (simp add: WOL_PACKET_LEN_def)
  have "cmd_wol_send e buf (mac_text ps) ctx = (0, snd (wol_packet_send e buf ?mac ctx))"
    using h assms(1,3) unfolding cmd_wol_send_def t Let_def by simp
  moreover have "ether (snd (wol_packet_send e buf ?mac ctx)) = ether ctx @ [wol_fill ?mac buf] \<and>
      ok_c (snd (wol_packet_send e buf ?mac ctx)) = ok_c ctx + (if wol_err e = 0 then 1 else 0) \<and>
      err_c (snd (wol_packet_send e buf ?mac ctx)) = err_c ctx + (if wol_err e = 0 then 0 else 1)"
    using assms(5,6) by (simp add: wol_packet_send_def Let_def)
  ultimately show ?thesis unfolding f by blast
qed

section \<open>Witnesses\<close>

definition demo_wifi :: wifi_context where
  "demo_wifi = (case sys_wifi_init True (\<lambda>_. True) (Some ''home;guest'') (Some ''pw'') of Inr c \<Rightarrow> c)"

lemma wifi_round_robin_witness:
  "\<exists>ctx'. wifi_runs [\<lparr>link_up = False, connect_err = 1, now_us = 5\<rparr>, \<lparr>link_up = False, connect_err = 0, now_us = 9\<rparr>,
      \<lparr>link_up = False, connect_err = 0, now_us = 50000000\<rparr>, \<lparr>link_up = False, connect_err = 0, now_us = 50000001\<rparr>] demo_wifi = Some ctx' \<and>
     tried ctx' = [0, 1, 0]"
proof -
  let ?es = "[\<lparr>link_up = False, connect_err = 1, now_us = 5\<rparr>, \<lparr>link_up = False, connect_err = 0, now_us = 9\<rparr>,
      \<lparr>link_up = False, connect_err = 0, now_us = 50000000\<rparr>, \<lparr>link_up = False, connect_err = 0, now_us = 50000001\<rparr>]"
  have d: "wifi_ok demo_wifi" "next_net demo_wifi = 0" "length (all_nets demo_wifi) = 2" "tried demo_wifi = []"
    unfolding wifi_ok_def by code_simp+
  have "map_option (length \<circ> tried) (wifi_runs ?es demo_wifi) = Some 3" by code_simp
  moreover have "\<forall>e\<in>set ?es. \<not> link_up e" by simp
  from wifi_round_robin [OF d(1) this] obtain ctx' k where r: "wifi_runs ?es demo_wifi = Some ctx'"
      "tried ctx' = [] @ map (\<lambda>j. (0 + j) mod 2) [0 ..< k]"
    unfolding d(2-4) by blast
  ultimately have k: "k = 3" unfolding r(1) by (simp only: option.map option.inject comp_apply length_map length_upt diff_zero append_Nil)
  have "[0 ..< 3] = [0, 1, 2 :: nat]" by (simp add: upt_rec)
  with r show ?thesis unfolding k by simp
qed

lemma wol_magic_packet_witness:
  "\<exists>ctx'. cmd_wol_send \<lparr>wol_udp_new = True, wol_pbuf = True, wol_err = 0\<rparr> (replicate 102 0) '':aa:bb:cc:dd:ee:ff'' (the (wol_init True)) = (0, ctx') \<and>
     ether ctx' ! 0 ! 6 = 0xAA \<and> ok_c ctx' = 1"
proof -
  let ?ps = "[''aa'', ''bb'', ''cc'', ''dd'', ''ee'', ''ff'']"
  have m: "mac_text ?ps = '':aa:bb:cc:dd:ee:ff''" by (simp add: mac_text_def)
  have v: "(word_of_int (strtol_val 16 ''aa'') :: u8) = 0xAA" by code_simp
  show ?thesis
    using wol_magic_packet [of ?ps "replicate 102 0" "\<lparr>wol_udp_new = True, wol_pbuf = True, wol_err = 0\<rparr>" "the (wol_init True)"]
    unfolding m using replicate_Suc [of 15 "map (\<lambda>p. word_of_int (strtol_val 16 p) :: u8) ?ps"]
    by (auto simp: WOL_PACKET_LEN_def wol_init_def v nth_append)
qed

end
