(* ===== verification/Voltronic.thy ===== *)
theory Voltronic
  imports Codec SysTime Float32
begin

text \<open>
  The protocol of the Voltronic solar inverter: \<open>app/solar/mppt_voltronic_proto.c\<close> (CRC, frames,
  command table) and \<open>app/solar/mppt_voltronic_usb.c\<close> (parsers of the replies, the send
  schedule, reception over USB).  A byte of the line is a \<^typ>\<open>char\<close>, unsigned as it is on the
  ARM target; \<open>cmd_buff\<close> is the array of \<open>CMD_BUF_SIZE\<close> bytes.
\<close>

section \<open>The checksum\<close>

definition crc_table :: "u16 list" where
  "crc_table =
    [0x0000, 0x1021, 0x2042, 0x3063, 0x4084, 0x50A5, 0x60C6, 0x70E7,
     0x8108, 0x9129, 0xA14A, 0xB16B, 0xC18C, 0xD1AD, 0xE1CE, 0xF1EF]"

definition crc_nibble :: "u16 \<Rightarrow> u16 \<Rightarrow> u16" where
  "crc_nibble crc n = crc_table ! unat (drop_bit 12 crc XOR n) XOR push_bit 4 crc"

fun crc_loop :: "u16 \<Rightarrow> u8 list \<Rightarrow> u16" where
  "crc_loop crc [] = crc"
| "crc_loop crc (b # bs) =
     crc_loop (crc_nibble (crc_nibble crc (ucast (drop_bit 4 b))) (ucast (b AND 0x0F))) bs"

definition IS_RESERVED_BYTE :: "u8 \<Rightarrow> bool" where
  "IS_RESERVED_BYTE b \<longleftrightarrow> b = 0x28 \<or> b = 0x0D \<or> b = 0x0A"

definition crc_adjust :: "u16 \<Rightarrow> u16" where
  "crc_adjust crc =
     (let crc = (if IS_RESERVED_BYTE (ucast crc) then crc + 1 else crc)
      in if IS_RESERVED_BYTE (ucast (drop_bit 8 crc)) then crc + push_bit 8 1 else crc)"

definition calculate_crc :: "u8 list \<Rightarrow> u16" where
  "calculate_crc bs = (if length bs < 1 then 0 else crc_adjust (crc_loop 0 bs))"

text \<open>The reference: CRC-16 with the polynomial 0x1021, one bit at a time.\<close>

definition crc_bit :: "u16 \<Rightarrow> u16" where
  "crc_bit c = (if bit c 15 then push_bit 1 c XOR 0x1021 else push_bit 1 c)"

definition crc_byte :: "u16 \<Rightarrow> u8 \<Rightarrow> u16" where
  "crc_byte c b = (crc_bit ^^ 8) (c XOR push_bit 8 (ucast b))"

definition crc16 :: "u8 list \<Rightarrow> u16" where
  "crc16 bs = foldl crc_byte 0 bs"

lemma xor_left_cancel: "x XOR (x XOR y) = y" for x :: "'a::len word"
  by (simp flip: xor.assoc)

lemma crc_bit_clear: "\<not> bit c 15 \<Longrightarrow> crc_bit c = push_bit 1 c"
  by (simp add: crc_bit_def)

lemma crc_bit_xor: "crc_bit (x XOR y) = crc_bit x XOR crc_bit y"
  by (cases "bit x 15"; cases "bit y 15")
    (simp_all only: crc_bit_def bit_xor_iff push_bit_xor ac_simps xor_left_cancel xor_self_eq xor.right_neutral
      xor.left_neutral simp_thms if_True if_False)

lemma crc_bits_xor: "(crc_bit ^^ n) (x XOR y) = (crc_bit ^^ n) x XOR (crc_bit ^^ n) y"
  by (induction n) (simp_all add: crc_bit_xor)

text \<open>While the top bits are 0 the register only shifts.\<close>

lemma crc_bits_shift:
  "(\<And>k. 16 - n \<le> k \<Longrightarrow> k < 16 \<Longrightarrow> \<not> bit x k) \<Longrightarrow> n \<le> 16 \<Longrightarrow> (crc_bit ^^ n) x = push_bit n x"
proof (induction n)
  case (Suc n)
  have 1: "(crc_bit ^^ n) x = push_bit n x" using Suc.prems by (intro Suc.IH) auto
  have "\<not> bit (push_bit n x) 15"
    using Suc.prems(1) [of "15 - n"] Suc.prems(2) by (auto simp: bit_push_bit_iff)
  then have "crc_bit (push_bit n x) = push_bit 1 (push_bit n x)" by (rule crc_bit_clear)
  then have "(crc_bit ^^ Suc n) x = push_bit 1 (push_bit n x)" by (simp only: funpow.simps o_apply 1)
  then show ?case by (simp only: push_bit_push_bit plus_1_eq_Suc)
qed simp

lemma crc_table_bits: "list_all (\<lambda>k. (crc_bit ^^ 4) (push_bit 12 (of_nat k)) = crc_table ! k) [0 ..< 16]"
  by code_simp

lemma crc_table_nth: "n < 16 \<Longrightarrow> crc_table ! unat n = (crc_bit ^^ 4) (push_bit 12 n)"
  using crc_table_bits [unfolded list_all_iff, rule_format, of "unat n"] by (simp add: word_less_nat_alt)

lemma nibble_iff: "w < 16 \<longleftrightarrow> take_bit 4 w = w" for w :: u16
proof -
  have "uint (take_bit 4 w) = uint w \<longleftrightarrow> uint w < 16"
    using take_bit_int_eq_self_iff [of 4 "uint w"] by (simp add: unsigned_take_bit_eq)
  then show ?thesis by (simp add: word_less_alt word_uint_eq_iff)
qed

lemma and_0F: "b AND 0x0F = take_bit 4 b" for b :: u8
proof -
  have "(mask 4 :: u8) = 0x0F" by code_simp
  then show ?thesis by (simp only: take_bit_eq_mask)
qed

lemma nibbles: "(ucast (drop_bit 4 b) :: u16) < 16" "(ucast (take_bit 4 b) :: u16) < 16" for b :: u8
  unfolding nibble_iff by (rule bit_word_eqI, auto simp: bit_simps dest: bit_imp_le_length)+

text \<open>Four bits at once are one step through the table.\<close>

lemma crc_nibble_bits:
  assumes "n < 16"
  shows "crc_nibble c n = (crc_bit ^^ 4) (c XOR push_bit 12 n)"
proof -
  have "take_bit 4 (drop_bit 12 c) = drop_bit 12 c"
    by (rule bit_word_eqI) (auto simp: bit_simps dest: bit_imp_le_length)
  moreover have "take_bit 4 n = n" using assms by (simp add: nibble_iff)
  ultimately have "take_bit 4 (drop_bit 12 c XOR n) = drop_bit 12 c XOR n" by (simp only: take_bit_xor)
  then have lt: "drop_bit 12 c XOR n < 16" by (simp add: nibble_iff)
  have "c XOR push_bit 12 n = push_bit 12 (drop_bit 12 c XOR n) XOR take_bit 12 c"
    by (rule bit_word_eqI) (auto simp: bit_simps)
  then have "(crc_bit ^^ 4) (c XOR push_bit 12 n) =
      (crc_bit ^^ 4) (push_bit 12 (drop_bit 12 c XOR n)) XOR (crc_bit ^^ 4) (take_bit 12 c)"
    by (simp only: crc_bits_xor)
  moreover have "(crc_bit ^^ 4) (take_bit 12 c) = push_bit 4 (take_bit 12 c)"
    by (rule crc_bits_shift) (simp_all add: bit_take_bit_iff)
  moreover have "push_bit 4 (take_bit 12 c) = push_bit 4 c"
    by (rule bit_word_eqI) (auto simp: bit_simps)
  ultimately show ?thesis using crc_table_nth [OF lt] by (simp add: crc_nibble_def)
qed

lemma crc_byte_nibbles:
  "crc_byte c b = crc_nibble (crc_nibble c (ucast (drop_bit 4 b))) (ucast (b AND 0x0F))"
proof -
  let ?hi = "ucast (drop_bit 4 b) :: u16" and ?lo = "ucast (take_bit 4 b) :: u16"
  have "push_bit 8 (ucast b) = push_bit 12 ?hi XOR push_bit 8 ?lo"
    by (rule bit_word_eqI) (auto simp: bit_simps dest: bit_imp_le_length)
  then have "crc_byte c b = (crc_bit ^^ 4) ((crc_bit ^^ 4) (c XOR push_bit 12 ?hi XOR push_bit 8 ?lo))"
    by (simp add: crc_byte_def xor.assoc flip: funpow_add [THEN fun_cong, simplified o_apply])
  also have "(crc_bit ^^ 4) (c XOR push_bit 12 ?hi XOR push_bit 8 ?lo) =
      crc_nibble c ?hi XOR (crc_bit ^^ 4) (push_bit 8 ?lo)"
    by (simp only: crc_bits_xor crc_nibble_bits [OF nibbles(1)] xor.assoc)
  also have "(crc_bit ^^ 4) (push_bit 8 ?lo) = push_bit 4 (push_bit 8 ?lo)"
    by (rule crc_bits_shift) (auto simp: bit_simps dest: bit_imp_le_length)
  also have "push_bit 4 (push_bit 8 ?lo) = push_bit 12 ?lo" by (simp add: push_bit_push_bit)
  finally show ?thesis by (simp only: and_0F crc_nibble_bits [OF nibbles(2)])
qed

lemma crc_loop_eq: "crc_loop c bs = foldl crc_byte c bs"
  by (induction bs arbitrary: c) (simp_all add: crc_byte_nibbles)

text \<open>
  C27.  The checksum is CRC-16/XMODEM: the two table steps per byte compute the remainder modulo the
  polynomial 0x1021 bit by bit; the low and high bytes are then moved off the reserved ones.
\<close>

lemma crc_is_crc16: "calculate_crc bs = (if bs = [] then 0 else crc_adjust (crc16 bs))"
  by (cases bs) (simp_all add: calculate_crc_def crc16_def crc_loop_eq)

text \<open>The adjusted checksum has no reserved byte.\<close>

lemma reserved_unat: "IS_RESERVED_BYTE b \<longleftrightarrow> unat b = 40 \<or> unat b = 13 \<or> unat b = 10"
  by (simp add: IS_RESERVED_BYTE_def word_unat_eq_iff)

lemma unat_low: "unat (ucast c :: u8) = unat c mod 256" for c :: u16
  by (simp add: unsigned_ucast_eq take_bit_eq_mod)

lemma u16_bound: "unat c < 65536" for c :: u16
  using unsigned_less [of c, where 'a = nat] by simp

lemma unat_high: "unat (ucast (drop_bit 8 c) :: u8) = unat c div 256" for c :: u16
  using u16_bound [of c] by (simp add: unsigned_ucast_eq unsigned_drop_bit_eq take_bit_eq_mod drop_bit_eq_div unat_div)

lemma off_reserved:
  fixes c :: u16
  assumes "IS_RESERVED_BYTE (ucast c)"
  shows "unat (c + 1) div 256 = unat c div 256" "\<not> IS_RESERVED_BYTE (ucast (c + 1))"
proof -
  have m: "unat c mod 256 = 40 \<or> unat c mod 256 = 13 \<or> unat c mod 256 = 10"
    using assms by (simp add: reserved_unat unat_low)
  have "unat c \<noteq> 65535" using m by auto
  then have "unat (c + 1) = Suc (unat c)" using u16_bound [of c] unat_add_lem [of c 1] by simp
  then show "unat (c + 1) div 256 = unat c div 256" "\<not> IS_RESERVED_BYTE (ucast (c + 1))"
    using m by (auto simp: reserved_unat unat_low mod_Suc div_Suc)
qed

lemma off_reserved_high:
  fixes c :: u16
  assumes "IS_RESERVED_BYTE (ucast (drop_bit 8 c))"
  shows "unat (c + 256) mod 256 = unat c mod 256" "\<not> IS_RESERVED_BYTE (ucast (drop_bit 8 (c + 256)))"
proof -
  have m: "unat c div 256 = 40 \<or> unat c div 256 = 13 \<or> unat c div 256 = 10"
    using assms by (simp add: reserved_unat unat_high)
  have "unat c < 16384" using m div_mult_mod_eq [of "unat c" 256] mod_less_divisor [of 256 "unat c"] by linarith
  then have "unat (c + 256) = unat c + 256" using unat_add_lem [of c 256] by simp
  then show "unat (c + 256) mod 256 = unat c mod 256" "\<not> IS_RESERVED_BYTE (ucast (drop_bit 8 (c + 256)))"
    using m by (auto simp: reserved_unat unat_high)
qed

lemma crc_adjust_unreserved:
  "\<not> IS_RESERVED_BYTE (ucast (crc_adjust c)) \<and> \<not> IS_RESERVED_BYTE (ucast (drop_bit 8 (crc_adjust c)))"
proof -
  define a where "a = (if IS_RESERVED_BYTE (ucast c) then c + 1 else c)"
  have a: "\<not> IS_RESERVED_BYTE (ucast a)" using off_reserved(2) by (simp add: a_def)
  have "crc_adjust c = (if IS_RESERVED_BYTE (ucast (drop_bit 8 a)) then a + 256 else a)"
    by (simp add: crc_adjust_def a_def Let_def)
  moreover have "IS_RESERVED_BYTE (ucast (drop_bit 8 a)) \<Longrightarrow> \<not> IS_RESERVED_BYTE (ucast (a + 256))"
    using a off_reserved_high(1) [of a] by (simp add: reserved_unat unat_low)
  ultimately show ?thesis using a off_reserved_high(2) [of a] by simp
qed

section \<open>Frames\<close>

definition END_OF_INPUT :: char where "END_OF_INPUT = CHR 0x0D"

text \<open>The C string at the start of an array.\<close>

definition cstr :: "string \<Rightarrow> string" where
  "cstr buf = takeWhile (\<lambda>c. c \<noteq> CHR 0x00) buf"

lemma cstr_NUL [simp]: "cstr (p @ CHR 0x00 # q) = cstr p"
  by (induction p) (simp_all add: cstr_def)

text \<open>The two bytes of a checksum in the order of the line.\<close>

definition crc_bytes :: "string \<Rightarrow> string" where
  "crc_bytes s = (let crc = calculate_crc (map byte s) in [unbyte (ucast (drop_bit 8 crc)), unbyte (ucast crc)])"

text \<open>
  \<open>mppt_verify_reply(reply, len)\<close>: the length of the payload or -1, and the buffer, in which the
  checksum is cut off by a NUL.  The buffer has at least \<open>len\<close> bytes.
\<close>

definition mppt_verify_reply :: "string \<Rightarrow> nat \<Rightarrow> int \<times> string" where
  "mppt_verify_reply reply len =
     (if len < 4 then (-1, reply)
      else if reply ! 0 \<noteq> CHR ''('' then (-1, reply)
      else
        (let rlen = length (takeWhile (\<lambda>c. c \<noteq> END_OF_INPUT) (take len reply)) in
         if rlen \<ge> len \<or> rlen < 4 then (-1, reply)
         else
           (let crc = calculate_crc (map byte (take (rlen - 2) reply)) in
            if byte (reply ! (rlen - 1)) \<noteq> ucast (crc AND 0xFF) then (-1, reply)
            else if byte (reply ! (rlen - 2)) \<noteq> ucast (drop_bit 8 crc AND 0xFF) then (-1, reply)
            else
              (let reply = reply[rlen - 2 := CHR 0x00] in (int (length (cstr reply)), reply)))))"

section \<open>Commands\<close>

definition MPPT_QMAX :: nat where "MPPT_QMAX = 33"
definition COMMAND_MAX_LEN :: nat where "COMMAND_MAX_LEN = 24"

definition MPPT_QID :: nat where "MPPT_QID = 1"
definition MPPT_QVFW :: nat where "MPPT_QVFW = 2"
definition MPPT_QVFW3 :: nat where "MPPT_QVFW3 = 4"
definition MPPT_QPIRI :: nat where "MPPT_QPIRI = 6"
definition MPPT_QFLAG :: nat where "MPPT_QFLAG = 7"
definition MPPT_QPIGS :: nat where "MPPT_QPIGS = 8"
definition MPPT_QMOD :: nat where "MPPT_QMOD = 10"
definition MPPT_QPIWS :: nat where "MPPT_QPIWS = 11"
definition MPPT_QDI :: nat where "MPPT_QDI = 12"
definition MPPT_QT :: nat where "MPPT_QT = 20"
definition MPPT_QMN :: nat where "MPPT_QMN = 22"
definition MPPT_QGMN :: nat where "MPPT_QGMN = 23"
definition MPPT_QET :: nat where "MPPT_QET = 24"
definition MPPT_QEY :: nat where "MPPT_QEY = 25"
definition MPPT_QEM :: nat where "MPPT_QEM = 26"
definition MPPT_QED :: nat where "MPPT_QED = 27"
definition MPPT_QLY :: nat where "MPPT_QLY = 29"
definition MPPT_QLM :: nat where "MPPT_QLM = 30"
definition MPPT_QLD :: nat where "MPPT_QLD = 31"

definition Qcommands :: "string list" where
  "Qcommands =
    [''QPI'', ''QID'', ''QVFW'', ''QVFW2'', ''QVFW3'', ''VERFW'', ''QPIRI'', ''QFLAG'', ''QPIGS'', ''QPIGS2'', ''QMOD'',
     ''QPIWS'', ''QDI'', ''QMCHGCR'', ''QMUCHGCR'', ''QBOOT'', ''QOPM'', ''QPGSn'', ''QOPPT'', ''QCHPT'', ''QT'', ''QBEQI'',
     ''QMN'', ''QGMN'', ''QET'', ''QEY'', ''QEM'', ''QED'', ''QLT'', ''QLY'', ''QLM'', ''QLD'', ''QLED'']"

definition mppt_check_qcommands :: bool where
  "mppt_check_qcommands \<longleftrightarrow> length Qcommands = MPPT_QMAX"

text \<open>
  \<open>mppt_get_qcommand(idx, &len, append)\<close>: the bytes to send.  None: the entry after the last one
  is read; \<open>Some None\<close>: NULL is returned.
\<close>

definition mppt_get_qcommand :: "nat \<Rightarrow> string option \<Rightarrow> string option option" where
  "mppt_get_qcommand idx app =
     (if idx > length Qcommands then Some None
      else if idx = length Qcommands then None
      else
        (let cmd = Qcommands ! idx @ (case app of None \<Rightarrow> [] | Some a \<Rightarrow> a) in
         if length cmd + 3 \<ge> COMMAND_MAX_LEN then Some None
         else Some (Some (cmd @ crc_bytes cmd @ [END_OF_INPUT]))))"

lemma qcommands_count: "mppt_check_qcommands"
  by code_simp

section \<open>Exactness of the check\<close>

lemma crc_bytes_byte:
  "map byte (crc_bytes s) =
    [ucast (drop_bit 8 (calculate_crc (map byte s))), ucast (calculate_crc (map byte s))]"
  by (simp add: crc_bytes_def Let_def)

lemma crc_bytes_unreserved:
  "s \<noteq> [] \<Longrightarrow> \<forall>c\<in>set (crc_bytes s). \<not> IS_RESERVED_BYTE (byte c)"
  using crc_adjust_unreserved [of "crc_loop 0 (map byte s)"]
  by (simp add: crc_bytes_def Let_def calculate_crc_def Suc_le_eq)

lemma crc_bytes_no_end: "s \<noteq> [] \<Longrightarrow> END_OF_INPUT \<notin> set (crc_bytes s)"
proof -
  have "IS_RESERVED_BYTE (byte END_OF_INPUT)" by code_simp
  then show "s \<noteq> [] \<Longrightarrow> END_OF_INPUT \<notin> set (crc_bytes s)" using crc_bytes_unreserved by blast
qed

definition mppt_frame :: "string \<Rightarrow> string" where
  "mppt_frame p = p @ crc_bytes p @ [END_OF_INPUT]"

lemma length_crc_bytes [simp]: "length (crc_bytes s) = 2"
  by (simp add: crc_bytes_def Let_def)

lemma length_mppt_frame [simp]: "length (mppt_frame p) = length p + 3"
  by (simp add: mppt_frame_def)

text \<open>A well formed reply: the payload \<open>p\<close> in its frame at the start of the received bytes.\<close>

definition mppt_reply :: "string \<Rightarrow> string \<Rightarrow> nat \<Rightarrow> bool" where
  "mppt_reply p s len \<longleftrightarrow> 2 \<le> length p \<and> hd p = CHR ''('' \<and> END_OF_INPUT \<notin> set p \<and>
     length (mppt_frame p) \<le> len \<and> take (length (mppt_frame p)) s = mppt_frame p"

lemma ucast_and_FF: "(ucast (c AND 0xFF) :: u8) = ucast c" for c :: u16
proof -
  have "(mask 8 :: u16) = 0xFF" by code_simp
  then have "c AND 0xFF = take_bit 8 c" by (simp only: take_bit_eq_mask)
  then show ?thesis by (simp only:) (rule bit_word_eqI; simp add: bit_simps)
qed

lemma take_until:
  "d \<notin> set p \<Longrightarrow> length p < len \<Longrightarrow> takeWhile (\<lambda>c. c \<noteq> d) (take len (p @ d # q)) = p"
  by (cases "len - length p") (simp_all add: takeWhile_until)

lemma verify_frame:
  assumes "mppt_reply p s len" and "len \<le> length s"
  shows "mppt_verify_reply s len = (int (length (cstr p)), s[length p := CHR 0x00])"
proof -
  let ?c = "crc_bytes p"
  obtain a b where ab: "?c = [a, b]" by (simp add: crc_bytes_def Let_def)
  define q where "q = drop (length (mppt_frame p)) s"
  have "s = mppt_frame p @ q"
    using assms(1) append_take_drop_id [of "length (mppt_frame p)" s] by (simp add: mppt_reply_def q_def)
  then have s: "s = (p @ ?c) @ END_OF_INPUT # q" by (simp add: mppt_frame_def)
  have p: "p \<noteq> []" "2 \<le> length p" "p ! 0 = CHR ''(''" "END_OF_INPUT \<notin> set p" "length p + 3 \<le> len"
    using assms(1) by (cases p; auto simp: mppt_reply_def)+
  then have "END_OF_INPUT \<notin> set (p @ ?c)" using crc_bytes_no_end by simp
  then have t: "takeWhile (\<lambda>c. c \<noteq> END_OF_INPUT) (take len s) = p @ ?c"
    unfolding s using p(5) by (intro take_until) simp_all
  have crc: "byte a = ucast (drop_bit 8 (calculate_crc (map byte p)))" "byte b = ucast (calculate_crc (map byte p))"
    using crc_bytes_byte [of p] by (simp_all add: ab)
  have n: "s ! 0 = p ! 0" "s ! Suc (length p) = b" "s ! length p = a" "take (length p) s = p"
    using p(1) by (simp_all add: s ab nth_append)
  have z: "cstr (s[length p := CHR 0x00]) = cstr p"
    by (simp add: s ab list_update_append)
  show ?thesis
    using p by (simp add: mppt_verify_reply_def t Let_def n crc z ab ucast_and_FF)
qed

lemma byte_eq_iff: "byte c = w \<longleftrightarrow> c = unbyte w"
  by (metis byte_unbyte unbyte_byte)

lemma verify_only_frames:
  assumes "0 \<le> fst (mppt_verify_reply s len)" and "len \<le> length s"
  shows "mppt_reply (take (length (takeWhile (\<lambda>c. c \<noteq> END_OF_INPUT) (take len s)) - 2) s) s len"
proof -
  define rlen where "rlen = length (takeWhile (\<lambda>c. c \<noteq> END_OF_INPUT) (take len s))"
  define p where "p = take (rlen - 2) s"
  have r: "s ! 0 = CHR ''(''" "4 \<le> rlen" "rlen < len"
    "s ! (rlen - 1) = unbyte (ucast (calculate_crc (map byte p)))"
    "s ! (rlen - 2) = unbyte (ucast (drop_bit 8 (calculate_crc (map byte p))))"
    using assms(1) by (auto simp: mppt_verify_reply_def Let_def ucast_and_FF byte_eq_iff p_def simp flip: rlen_def split: if_splits)
  have tw: "take rlen s = takeWhile (\<lambda>c. c \<noteq> END_OF_INPUT) (take len s)"
    using takeWhile_eq_take [of "\<lambda>c. c \<noteq> END_OF_INPUT" "take len s"] r(3) by (simp add: min_def flip: rlen_def)
  then have no: "END_OF_INPUT \<notin> set (take rlen s)" by (metis (mono_tags, lifting) set_takeWhileD)
  have e: "s ! rlen = END_OF_INPUT"
    using nth_length_takeWhile [of "\<lambda>c. c \<noteq> END_OF_INPUT" "take len s"] r(3) assms(2) by (simp flip: rlen_def)
  have l: "length p = rlen - 2" using r(3) assms(2) by (simp add: p_def)
  have "take (rlen + 1) s = p @ [s ! (rlen - 2), s ! (rlen - 1), s ! rlen]"
    using r(2,3) assms(2) take_Suc_conv_app_nth [of "rlen - 2" s] take_Suc_conv_app_nth [of "rlen - 1" s]
      take_Suc_conv_app_nth [of rlen s] by (simp add: p_def Suc_diff_Suc numeral_2_eq_2)
  moreover have "length (mppt_frame p) = rlen + 1" using r(2) l by simp
  ultimately have "take (length (mppt_frame p)) s = mppt_frame p"
    using r e by (simp add: mppt_frame_def crc_bytes_def Let_def)
  moreover have "hd p = CHR ''(''" using r l by (cases s) (simp_all add: p_def hd_conv_nth)
  moreover have "END_OF_INPUT \<notin> set p" using no set_take_subset_set_take [of "rlen - 2" rlen s] by (auto simp: p_def)
  ultimately show ?thesis using r l by (simp add: mppt_reply_def flip: rlen_def p_def)
qed

text \<open>
  The check of a reply is exact: \<open>mppt_verify_reply\<close> returns a length just for the buffers that
  start, within the received bytes, with a parenthesis, a payload without a carriage return, the
  checksum of both and a carriage return; it returns the length of the payload with its
  parenthesis as a C string, and cuts the checksum off with a NUL.
\<close>

lemma mppt_reply_exact:
  assumes "len \<le> length s"
  shows "(0 \<le> fst (mppt_verify_reply s len) \<longleftrightarrow> (\<exists>p. mppt_reply p s len)) \<and>
    (\<forall>p. mppt_reply p s len \<longrightarrow> mppt_verify_reply s len = (int (length (cstr p)), s[length p := CHR 0x00]))"
  using verify_frame [OF _ assms] verify_only_frames [OF _ assms] by fastforce

text \<open>
  Every command is a frame of its own: the 33 commands of the table, alone or with parameters of
  at most 12 characters, are sent as name, parameters, checksum and carriage return in at most 23
  bytes, and no byte before the last is a carriage return.
\<close>

lemma mppt_command_frame:
  assumes "idx < MPPT_QMAX" and "length a \<le> 12" and "END_OF_INPUT \<notin> set a"
  shows "\<exists>cmd. mppt_get_qcommand idx (Some a) = Some (Some (mppt_frame cmd)) \<and> cmd = Qcommands ! idx @ a \<and>
    length (mppt_frame cmd) \<le> 23 \<and> END_OF_INPUT \<notin> set (butlast (mppt_frame cmd))"
proof -
  have "list_all (\<lambda>c. length c \<le> 8 \<and> c \<noteq> [] \<and> END_OF_INPUT \<notin> set c) Qcommands" by code_simp
  moreover have "length Qcommands = 33" by code_simp
  ultimately have "length (Qcommands ! idx) \<le> 8" "Qcommands ! idx \<noteq> []" "END_OF_INPUT \<notin> set (Qcommands ! idx)"
    using assms(1) by (simp_all add: list_all_length MPPT_QMAX_def)
  then show ?thesis
    using assms crc_bytes_no_end [of "Qcommands ! idx @ a"] \<open>length Qcommands = 33\<close>
    by (simp add: mppt_get_qcommand_def Let_def COMMAND_MAX_LEN_def mppt_frame_def MPPT_QMAX_def butlast_append)
qed

section \<open>Witnesses\<close>

lemma mppt_reply_exact_witness:
  "mppt_verify_reply (mppt_frame ''(B'') 5 = (2, (mppt_frame ''(B'')[2 := CHR 0x00])"
proof -
  have "mppt_reply ''(B'' (mppt_frame ''(B'') 5" by (simp add: mppt_reply_def END_OF_INPUT_def)
  then show ?thesis using mppt_reply_exact [of 5 "mppt_frame ''(B''"] by (simp add: cstr_def numeral_2_eq_2)
qed

lemma mppt_command_frame_witness:
  "mppt_get_qcommand MPPT_QED (Some ''20240131'') = Some (Some (mppt_frame ''QED20240131''))"
proof -
  have "Qcommands ! MPPT_QED = ''QED''" by code_simp
  then show ?thesis
    using mppt_command_frame [of MPPT_QED "''20240131''"] by (simp add: MPPT_QED_def MPPT_QMAX_def END_OF_INPUT_def)
qed

end
