(* ===== verification/VoltronicUsb.thy ===== *)
theory VoltronicUsb
  imports Voltronic
begin

text \<open>
  \<open>app/solar/mppt_voltronic_usb.c\<close>: the parsers of the replies of the inverter, the schedule of
  the queries and the reception of the replies over USB.  The USB stack is a parameter: what
  \<open>usb_send_to_device\<close> answers; the frames and the MQTT data handed on are recorded in the state.
\<close>

definition SENT_WAIT_MS :: u64 where "SENT_WAIT_MS = 20000"
definition SENT_MIN_TIME_MS :: u64 where "SENT_MIN_TIME_MS = 5000"
definition CMD_BUF_SIZE :: nat where "CMD_BUF_SIZE = 128"
definition CMD_END_CHAR :: char where "CMD_END_CHAR = CHR 0x0D"
definition USB_DISCOVERY_MS :: u64 where "USB_DISCOVERY_MS = 30000"
definition MPPT_PARAM_FIXED_SIZE :: nat where "MPPT_PARAM_FIXED_SIZE = 16"
definition PARAM_MAX_LEN :: nat where "PARAM_MAX_LEN = 18"

section \<open>Data\<close>

text \<open>
  \<open>sscanf\<close> for formats of \<open>%f\<close> (True) and \<open>%d\<close> (False) between blanks: the values converted
  before the first mismatch or the end.
\<close>

datatype scanned = SI int | SF f32

fun sscanf :: "bool list \<Rightarrow> string \<Rightarrow> scanned list" where
  "sscanf [] s = []"
| "sscanf (f # fs) s =
     (if f then (let (v, r) = strtof s in if r = s then [] else SF v # sscanf fs r)
      else (let (v, r) = strtol 10 s in if r = s then [] else SI v # sscanf fs r))"

fun sc_int :: "scanned \<Rightarrow> int" where
  "sc_int (SI i) = i"
| "sc_int (SF _) = 0"

fun sc_float :: "scanned \<Rightarrow> f32" where
  "sc_float (SF x) = x"
| "sc_float (SI _) = Fin 0"

fun sc_zero :: "scanned \<Rightarrow> bool" where
  "sc_zero (SI i) = (i = 0)"
| "sc_zero (SF x) = (x = Fin 0)"

record voltron_qpigs_data =
  gs_grid_v :: f32
  gs_grid_hz :: f32
  gs_ac_out_v :: f32
  gs_ac_out_hz :: f32
  gs_ac_out_va :: int
  gs_ac_out_w :: int
  gs_out_load_p :: int
  gs_bus_v :: int
  gs_bat_v :: f32
  gs_bat_charge_a :: int
  gs_bat_capacity_p :: int
  gs_sink_temp :: int
  gs_pv_in_bat_a :: f32
  gs_pv_in_v :: f32
  gs_bat_scc_v :: f32
  gs_bat_discharge_a :: int
  gs_stat_mask :: int

record voltron_qflags_data =
  buzzer :: bool
  overload_bypass :: bool
  power_saving :: bool
  lcd_timeout :: bool
  overload_restart :: bool
  overtemp_restart :: bool
  backlight :: bool
  primary_source_interrupt_alarm :: bool
  fault_code_record :: bool

text \<open>
  The structs that are only stored keep their values in the order of the reply (\<open>qdi_data\<close>,
  \<open>qpiri_data\<close>) or of the table of warnings; a character array holds the bytes up to its NUL.
\<close>

record voltron_data =
  serial_number :: string
  firmware_vesion :: string
  firmware_vesion3 :: string
  model_name :: string
  gen_model_name :: string
  vd_mode :: char
  pv_total_wh :: u32
  vd_date :: tm
  status_flags :: voltron_qflags_data
  vd_warnings :: "bool list"
  qdi_data :: "scanned list"
  qpiri_data :: "scanned list"
  qpigs_data :: voltron_qpigs_data

record mqtt_mppt_data =
  md_ac_out_v :: f32
  md_ac_out_hz :: f32
  md_ac_out_va :: int
  md_ac_out_w :: int
  md_out_load_p :: int
  md_bus_v :: int
  md_bat_v :: f32
  md_bat_charge_a :: int
  md_bat_capacity_p :: int
  md_sink_temp :: int
  md_pv_in_bat_a :: f32
  md_pv_in_v :: f32
  md_bat_discharge_a :: int
  md_serial_number :: string
  md_firmware_vesion :: string
  md_firmware_vesion3 :: string
  md_model_name :: string
  md_gen_model_name :: string

section \<open>The parsers of the replies\<close>

definition strchr :: "string \<Rightarrow> char \<Rightarrow> string option" where
  "strchr s c = (let r = dropWhile (\<lambda>x. x \<noteq> c) (cstr s) in if r = [] then None else Some r)"

definition qid_cmd_process :: "string \<Rightarrow> voltron_data \<Rightarrow> int \<times> voltron_data" where
  "qid_cmd_process buf v = (0, v\<lparr>serial_number := take (MPPT_PARAM_FIXED_SIZE - 1) (cstr (drop 1 buf))\<rparr>)"

definition qvfw_cmd_process :: "string \<Rightarrow> voltron_data \<Rightarrow> int \<times> voltron_data" where
  "qvfw_cmd_process buf v =
     (case strchr buf (CHR '':'') of
        Some ver \<Rightarrow> (0, v\<lparr>firmware_vesion := take (MPPT_PARAM_FIXED_SIZE - 1) (tl ver)\<rparr>)
      | None \<Rightarrow> (-1, v))"

definition qvfw3_cmd_process :: "string \<Rightarrow> voltron_data \<Rightarrow> int \<times> voltron_data" where
  "qvfw3_cmd_process buf v =
     (case strchr buf (CHR '':'') of
        Some ver \<Rightarrow> (0, v\<lparr>firmware_vesion3 := take (MPPT_PARAM_FIXED_SIZE - 1) (tl ver)\<rparr>)
      | None \<Rightarrow> (-1, v))"

definition qflags_zero :: voltron_qflags_data where
  "qflags_zero = \<lparr>buzzer = False, overload_bypass = False, power_saving = False, lcd_timeout = False,
     overload_restart = False, overtemp_restart = False, backlight = False,
     primary_source_interrupt_alarm = False, fault_code_record = False\<rparr>"

definition qflag_set :: "char \<Rightarrow> voltron_qflags_data \<Rightarrow> voltron_qflags_data" where
  "qflag_set c f =
     (if c = CHR ''A'' \<or> c = CHR ''a'' then f\<lparr>buzzer := True\<rparr>
      else if c = CHR ''B'' \<or> c = CHR ''b'' then f\<lparr>overload_bypass := True\<rparr>
      else if c = CHR ''J'' \<or> c = CHR ''j'' then f\<lparr>power_saving := True\<rparr>
      else if c = CHR ''K'' \<or> c = CHR ''k'' then f\<lparr>lcd_timeout := True\<rparr>
      else if c = CHR ''U'' \<or> c = CHR ''u'' then f\<lparr>overload_restart := True\<rparr>
      else if c = CHR ''V'' \<or> c = CHR ''v'' then f\<lparr>overtemp_restart := True\<rparr>
      else if c = CHR ''X'' \<or> c = CHR ''x'' then f\<lparr>backlight := True\<rparr>
      else if c = CHR ''Y'' \<or> c = CHR ''y'' then f\<lparr>primary_source_interrupt_alarm := True\<rparr>
      else if c = CHR ''Z'' \<or> c = CHR ''z'' then f\<lparr>fault_code_record := True\<rparr>
      else f)"

definition qflag_cmd_process :: "string \<Rightarrow> voltron_data \<Rightarrow> int \<times> voltron_data" where
  "qflag_cmd_process buf v =
     (0, v\<lparr>status_flags :=
        (case strchr buf (CHR ''E'') of
           None \<Rightarrow> qflags_zero
         | Some e \<Rightarrow> fold qflag_set (takeWhile (\<lambda>c. c \<noteq> CHR ''D'' \<and> c \<noteq> CHR 0x0D) e) qflags_zero)\<rparr>)"

definition qdi_format :: "bool list" where
  "qdi_format = [True, True, False, True, True, True, True] @ replicate 15 False @ [True, False, False]"

definition qdi_cmd_process :: "string \<Rightarrow> voltron_data \<Rightarrow> int \<times> voltron_data" where
  "qdi_cmd_process buf v =
     (let q = sscanf qdi_format (cstr (drop 1 buf)) in
      if length q = 25 \<and> \<not> list_all sc_zero q then (0, v\<lparr>qdi_data := q\<rparr>) else (-1, v))"

definition qpiri_format :: "bool list" where
  "qpiri_format =
     [True, True, True, True, True, False, False, True, True, True, True, True] @ replicate 10 False @ [True, False, False]"

definition qpiri_cmd_process :: "string \<Rightarrow> voltron_data \<Rightarrow> int \<times> voltron_data" where
  "qpiri_cmd_process buf v =
     (let q = sscanf qpiri_format (cstr (drop 1 buf)) in
      if length q = 25 \<and> \<not> list_all sc_zero q then (0, v\<lparr>qpiri_data := q\<rparr>) else (-1, v))"

definition qpigs_format :: "bool list" where
  "qpigs_format =
     [True, True, True, True, False, False, False, False, True, False, False, False, True, True, True, False, False]"

definition qpigs_of :: "scanned list \<Rightarrow> voltron_qpigs_data" where
  "qpigs_of q =
     \<lparr>gs_grid_v = sc_float (q ! 0), gs_grid_hz = sc_float (q ! 1), gs_ac_out_v = sc_float (q ! 2),
      gs_ac_out_hz = sc_float (q ! 3), gs_ac_out_va = sc_int (q ! 4), gs_ac_out_w = sc_int (q ! 5),
      gs_out_load_p = sc_int (q ! 6), gs_bus_v = sc_int (q ! 7), gs_bat_v = sc_float (q ! 8),
      gs_bat_charge_a = sc_int (q ! 9), gs_bat_capacity_p = sc_int (q ! 10), gs_sink_temp = sc_int (q ! 11),
      gs_pv_in_bat_a = sc_float (q ! 12), gs_pv_in_v = sc_float (q ! 13), gs_bat_scc_v = sc_float (q ! 14),
      gs_bat_discharge_a = sc_int (q ! 15), gs_stat_mask = sc_int (q ! 16)\<rparr>"

definition qpigs_cmd_process :: "string \<Rightarrow> voltron_data \<Rightarrow> int \<times> voltron_data" where
  "qpigs_cmd_process buf v =
     (let q = sscanf qpigs_format (cstr (drop 1 buf)) in
      if length q = 17 \<and> \<not> list_all sc_zero q then (0, v\<lparr>qpigs_data := qpigs_of q\<rparr>) else (-1, v))"

definition qmod_cmd_process :: "string \<Rightarrow> voltron_data \<Rightarrow> int \<times> voltron_data" where
  "qmod_cmd_process buf v = (0, v\<lparr>vd_mode := buf ! 1\<rparr>)"

definition qet_cmd_process :: "string \<Rightarrow> voltron_data \<Rightarrow> int \<times> voltron_data" where
  "qet_cmd_process buf v =
     (case sscanf [False] (cstr (drop 1 buf)) of
        [t] \<Rightarrow> (0, v\<lparr>pv_total_wh := word_of_int (sc_int t)\<rparr>)
      | _ \<Rightarrow> (-1, v))"

definition qmn_cmd_process :: "string \<Rightarrow> voltron_data \<Rightarrow> int \<times> voltron_data" where
  "qmn_cmd_process buf v = (0, v\<lparr>model_name := take MPPT_PARAM_FIXED_SIZE (cstr (drop 1 buf))\<rparr>)"

definition qgmn_cmd_process :: "string \<Rightarrow> voltron_data \<Rightarrow> int \<times> voltron_data" where
  "qgmn_cmd_process buf v = (0, v\<lparr>gen_model_name := take MPPT_PARAM_FIXED_SIZE (cstr (drop 1 buf))\<rparr>)"

text \<open>One field of the date: the number in the \<open>n\<close> bytes at \<open>k\<close>, if there is one.\<close>

definition qt_field :: "string \<Rightarrow> nat \<Rightarrow> nat \<Rightarrow> int option" where
  "qt_field buf k n = (case sscanf [False] (cstr (take n (drop k buf))) of [d] \<Rightarrow> Some (sc_int d) | _ \<Rightarrow> None)"

text \<open>\<open>g\<close> is what the local \<open>struct tm\<close> has on the stack: two of its fields are copied unset.\<close>

definition qt_cmd_process :: "tm \<Rightarrow> string \<Rightarrow> voltron_data \<Rightarrow> int \<times> voltron_data" where
  "qt_cmd_process g buf v =
     (let v = v\<lparr>vd_date := tm_zero\<rparr> in
      case (qt_field buf 1 4, qt_field buf 5 2, qt_field buf 7 2, qt_field buf 9 2, qt_field buf 11 2, qt_field buf 13 2) of
        (Some y, Some mo, Some d, Some h, Some mi, Some s) \<Rightarrow>
          (0, v\<lparr>vd_date := g\<lparr>tm_sec := s, tm_min := mi, tm_hour := h, tm_mday := d, tm_mon := mo - 1,
             tm_year := (if y > 1900 then y - 1900 else y)\<rparr>\<rparr>)
      | _ \<Rightarrow> (-1, v))"

definition warn_bits :: "nat list" where
  "warn_bits = [1, 2, 3, 4, 5, 6, 7, 8, 9, 10, 11, 12, 14, 16, 17, 18, 19, 20, 21, 22, 23, 24, 25, 26, 27, 28, 29]"

definition qpiws_cmd_process :: "string \<Rightarrow> voltron_data \<Rightarrow> int \<times> voltron_data" where
  "qpiws_cmd_process buf v = (0, v\<lparr>vd_warnings := map (\<lambda>b. buf ! (b + 1) = CHR ''1'') warn_bits\<rparr>)"

text \<open>The table \<open>voltron_commnds_handler\<close>: id, callback, \<open>one_time\<close>, \<open>min_reply_size\<close>.\<close>

definition voltron_commnds_handler :: "(nat \<times> (tm \<Rightarrow> string \<Rightarrow> voltron_data \<Rightarrow> int \<times> voltron_data) \<times> bool \<times> int) list" where
  "voltron_commnds_handler =
    [(MPPT_QID, \<lambda>_. qid_cmd_process, True, 15),
     (MPPT_QVFW, \<lambda>_. qvfw_cmd_process, True, 15),
     (MPPT_QFLAG, \<lambda>_. qflag_cmd_process, True, 12),
     (MPPT_QDI, \<lambda>_. qdi_cmd_process, True, 76),
     (MPPT_QPIRI, \<lambda>_. qpiri_cmd_process, True, 95),
     (MPPT_QPIGS, \<lambda>_. qpigs_cmd_process, False, 107),
     (MPPT_QMOD, \<lambda>_. qmod_cmd_process, True, 2),
     (MPPT_QPIWS, \<lambda>_. qpiws_cmd_process, True, 37),
     (MPPT_QET, \<lambda>_. qet_cmd_process, False, 9),
     (MPPT_QMN, \<lambda>_. qmn_cmd_process, True, 11),
     (MPPT_QGMN, \<lambda>_. qgmn_cmd_process, True, 4),
     (MPPT_QT, qt_cmd_process, False, 15)]"

section \<open>State\<close>

text \<open>
  \<open>mppt_context\<close>, the \<open>send\<close> flags of the table, the static index of \<open>mppt_solar_cmd_next\<close>, and
  what was handed to the USB stack and to MQTT.
\<close>

record mppt_context =
  mp_vid :: int
  mp_pid :: int
  usb_idx :: int
  usb_connected :: bool
  mp_send_in_progress :: bool
  timeout_state :: bool
  timeout_count :: u32
  cmd_send_time :: u64
  usb_reset_time :: u64
  cmd_idx :: nat
  cmd_count :: nat
  cmd_buff :: string
  cmd_buf_len :: nat
  vdata :: voltron_data
  send_flags :: "bool list"
  next_idx :: nat
  usb_out :: "string list"
  usb_restarts :: nat
  mqtt_out :: "mqtt_mppt_data list"

definition qpigs_zero :: voltron_qpigs_data where
  "qpigs_zero = qpigs_of (replicate 17 (SI 0))"

definition voltron_zero :: voltron_data where
  "voltron_zero =
     \<lparr>serial_number = [], firmware_vesion = [], firmware_vesion3 = [], model_name = [], gen_model_name = [],
      vd_mode = CHR 0x00, pv_total_wh = 0, vd_date = tm_zero, status_flags = qflags_zero,
      vd_warnings = map (\<lambda>_. False) warn_bits, qdi_data = replicate 25 (SI 0), qpiri_data = replicate 25 (SI 0),
      qpigs_data = qpigs_zero\<rparr>"

text \<open>
  The USB ids of the configuration.  None: the text has no colon and \<open>strtol\<close> gets NULL;
  \<open>Some None\<close>: refused.  \<open>len\<close> is the length of the build parameter.
\<close>

definition get_mppt_config :: "nat \<Rightarrow> string option \<Rightarrow> (int \<times> int) option option" where
  "get_mppt_config len par =
     (if len < 1 then Some None
      else case par of None \<Rightarrow> Some None
      | Some usb_id \<Rightarrow>
          if length usb_id < 1 then Some None
          else (case strtok_r (CHR '':'') (Some usb_id) of
             (None, _) \<Rightarrow> Some None
           | (Some tok, rest) \<Rightarrow>
               (let vid = strtol_val 16 tok in
                if vid < 0 \<or> vid > 0xFFFF then Some None
                else case rest of None \<Rightarrow> None
                | Some r \<Rightarrow>
                    (let pid = strtol_val 16 r in
                     if pid < 0 \<or> pid > 0xFFFF then Some None else Some (Some (vid, pid))))))"

text \<open>\<open>dev\<close> is the answer of \<open>usb_add_known_device\<close>.\<close>

definition mppt_solar_init :: "nat \<Rightarrow> string option \<Rightarrow> int \<Rightarrow> (bool \<times> mppt_context) option" where
  "mppt_solar_init len par dev =
     (let c = \<lparr>mp_vid = 0, mp_pid = 0, usb_idx = -1, usb_connected = False, mp_send_in_progress = False,
            timeout_state = False, timeout_count = 0, cmd_send_time = 0, usb_reset_time = 0, cmd_idx = 0,
            cmd_count = length voltron_commnds_handler, cmd_buff = replicate CMD_BUF_SIZE (CHR 0x00),
            cmd_buf_len = 0, vdata = voltron_zero, send_flags = map (\<lambda>_. True) voltron_commnds_handler,
            next_idx = 0, usb_out = [], usb_restarts = 0, mqtt_out = []\<rparr>
      in case get_mppt_config len par of
           None \<Rightarrow> None
         | Some None \<Rightarrow> Some (False, c)
         | Some (Some (vid, pid)) \<Rightarrow> Some (0 \<le> dev, c\<lparr>mp_vid := vid, mp_pid := pid, usb_idx := dev\<rparr>))"

section \<open>Reception\<close>

definition mppt_mqtt_data :: "voltron_data \<Rightarrow> mqtt_mppt_data" where
  "mppt_mqtt_data v =
     \<lparr>md_ac_out_v = gs_ac_out_v (qpigs_data v), md_ac_out_hz = gs_ac_out_hz (qpigs_data v),
      md_ac_out_va = gs_ac_out_va (qpigs_data v), md_ac_out_w = gs_ac_out_w (qpigs_data v),
      md_out_load_p = gs_out_load_p (qpigs_data v), md_bus_v = gs_bus_v (qpigs_data v),
      md_bat_v = gs_bat_v (qpigs_data v), md_bat_charge_a = gs_bat_charge_a (qpigs_data v),
      md_bat_capacity_p = gs_bat_capacity_p (qpigs_data v), md_sink_temp = gs_sink_temp (qpigs_data v),
      md_pv_in_bat_a = gs_pv_in_bat_a (qpigs_data v), md_pv_in_v = gs_pv_in_v (qpigs_data v),
      md_bat_discharge_a = gs_bat_discharge_a (qpigs_data v), md_serial_number = serial_number v,
      md_firmware_vesion = firmware_vesion v, md_firmware_vesion3 = firmware_vesion3 v,
      md_model_name = model_name v, md_gen_model_name = gen_model_name v\<rparr>"

definition mppt_send_mqtt_data :: "mppt_context \<Rightarrow> mppt_context" where
  "mppt_send_mqtt_data ctx = ctx\<lparr>mqtt_out := mqtt_out ctx @ [mppt_mqtt_data (vdata ctx)]\<rparr>"

text \<open>The entry of the table for a command.\<close>

fun find_handler :: "nat \<Rightarrow> (nat \<times> 'x) list \<Rightarrow> nat \<Rightarrow> nat option" where
  "find_handler i [] cmd = None"
| "find_handler i ((k, _) # hs) cmd = (if k = cmd then Some i else find_handler (i + 1) hs cmd)"

definition mppt_cmd_process_known :: "tm \<Rightarrow> int \<Rightarrow> mppt_context \<Rightarrow> int \<times> mppt_context" where
  "mppt_cmd_process_known g len ctx =
     (case find_handler 0 (take (cmd_count ctx) voltron_commnds_handler) (cmd_idx ctx) of
        None \<Rightarrow> (-1, ctx)
      | Some i \<Rightarrow>
          (case voltron_commnds_handler ! i of (_, cb, one_time, min_size) \<Rightarrow>
             if len \<ge> min_size then
               (let (ret, v) = cb g (cmd_buff ctx) (vdata ctx); ctx = ctx\<lparr>vdata := v\<rparr> in
                if ret = 0 then
                  (0, mppt_send_mqtt_data
                     (if one_time then ctx\<lparr>send_flags := (send_flags ctx)[i := False]\<rparr> else ctx))
                else (0, ctx))
             else (0, ctx)))"

definition mppt_cmd_process :: "tm \<Rightarrow> mppt_context \<Rightarrow> mppt_context" where
  "mppt_cmd_process g ctx =
     (if cmd_idx ctx \<ge> MPPT_QMAX then ctx
      else
        (let (len, buf) = mppt_verify_reply (cmd_buff ctx) (cmd_buf_len ctx)
         in snd (mppt_cmd_process_known g len (ctx\<lparr>cmd_buff := buf\<rparr>))))"

definition reset_state :: "mppt_context \<Rightarrow> mppt_context" where
  "reset_state ctx =
     ctx\<lparr>usb_connected := False, mp_send_in_progress := False, timeout_state := False,
       send_flags := map (\<lambda>_. True) (take (cmd_count ctx) (send_flags ctx)) @ drop (cmd_count ctx) (send_flags ctx)\<rparr>"

datatype usb_event = CDC_MOUNT | CDC_UNMOUNT | HID_MOUNT | HID_UNMOUNT | HID_REPORT

definition mppt_usb_callback :: "tm \<Rightarrow> usb_event \<Rightarrow> string \<Rightarrow> mppt_context \<Rightarrow> mppt_context" where
  "mppt_usb_callback g event data ctx =
     (case event of
        HID_MOUNT \<Rightarrow> (reset_state ctx)\<lparr>usb_connected := True\<rparr>
      | HID_UNMOUNT \<Rightarrow> reset_state ctx
      | HID_REPORT \<Rightarrow>
          if cmd_buf_len ctx + length data < CMD_BUF_SIZE then
            (let n = cmd_buf_len ctx;
                 ctx = ctx\<lparr>cmd_buff := take n (cmd_buff ctx) @ data @ drop (n + length data) (cmd_buff ctx),
                   cmd_buf_len := n + length data\<rparr>
             in if CMD_END_CHAR \<in> set data then
                  (mppt_cmd_process g ctx)\<lparr>cmd_buf_len := 0, mp_send_in_progress := False, timeout_state := False\<rparr>
                else ctx)
          else ctx
      | _ \<Rightarrow> ctx)"

section \<open>The queries\<close>

text \<open>The loop of \<open>mppt_solar_cmd_next\<close>: None if no command is to be sent.\<close>

partial_function (option) cmd_next_loop :: "bool list \<Rightarrow> nat \<Rightarrow> nat \<Rightarrow> nat option" where
  "cmd_next_loop fs n idx =
     (if fs ! idx then Some idx else cmd_next_loop fs n (if idx + 1 \<ge> n then 0 else idx + 1))"

declare cmd_next_loop.simps [code]

definition mppt_solar_cmd_next :: "mppt_context \<Rightarrow> (nat \<times> mppt_context) option" where
  "mppt_solar_cmd_next ctx =
     (case cmd_next_loop (send_flags ctx) (cmd_count ctx) (if next_idx ctx \<ge> cmd_count ctx then 0 else next_idx ctx) of
        None \<Rightarrow> None
      | Some i \<Rightarrow> Some (fst (voltron_commnds_handler ! i), ctx\<lparr>next_idx := i + 1\<rparr>))"

text \<open>\<open>%4d\<close> and \<open>%2d\<close>, the buffer of \<open>PARAM_MAX_LEN\<close> bytes; \<open>tz\<close> is the answer of \<open>tz_datetime_get\<close>.\<close>

definition pad_int :: "nat \<Rightarrow> int \<Rightarrow> string" where
  "pad_int n i = (let s = int_str i in replicate (n - length s) (CHR '' '') @ s)"

definition cmd_param :: "nat \<Rightarrow> tm \<Rightarrow> string option" where
  "cmd_param idx d =
     (if idx = MPPT_QEY \<or> idx = MPPT_QLY then Some (take (PARAM_MAX_LEN - 1) (pad_int 4 (1900 + tm_year d)))
      else if idx = MPPT_QEM \<or> idx = MPPT_QLM then
        Some (take (PARAM_MAX_LEN - 1) (pad_int 4 (1900 + tm_year d) @ pad_int 2 (tm_mon d + 1)))
      else if idx = MPPT_QED \<or> idx = MPPT_QLD then
        Some (take (PARAM_MAX_LEN - 1) (pad_int 4 (1900 + tm_year d) @ pad_int 2 (tm_mon d + 1) @ pad_int 2 (tm_mday d)))
      else None)"

definition cmd_get :: "tm option \<Rightarrow> nat \<Rightarrow> mppt_context \<Rightarrow> string option option" where
  "cmd_get tz idx ctx =
     (case (if tm_year (vd_date (vdata ctx)) \<noteq> 0 then Some (vd_date (vdata ctx)) else tz) of
        None \<Rightarrow> if idx \<in> {MPPT_QEY, MPPT_QLY, MPPT_QEM, MPPT_QLM, MPPT_QED, MPPT_QLD} then Some None
                else mppt_get_qcommand (cmd_idx ctx) None
      | Some d \<Rightarrow> mppt_get_qcommand (cmd_idx ctx) (cmd_param idx d))"

text \<open>One call of \<open>mppt_solar_query\<close> at \<open>now\<close>; \<open>send\<close> is the answer of \<open>usb_send_to_device\<close>.\<close>

definition mppt_solar_query :: "u64 \<Rightarrow> tm option \<Rightarrow> int \<Rightarrow> mppt_context \<Rightarrow> mppt_context option" where
  "mppt_solar_query now tz send ctx =
     (if \<not> usb_connected ctx then
        Some (if now - usb_reset_time ctx > USB_DISCOVERY_MS
              then ctx\<lparr>usb_restarts := usb_restarts ctx + 1, usb_reset_time := now\<rparr> else ctx)
      else
        (let ctx = (if now - cmd_send_time ctx > SENT_WAIT_MS
                    then ctx\<lparr>timeout_count := (if timeout_state ctx then timeout_count ctx else timeout_count ctx + 1),
                           mp_send_in_progress := False, timeout_state := True\<rparr>
                    else ctx)
         in if \<not> mp_send_in_progress ctx \<and> now - cmd_send_time ctx > SENT_MIN_TIME_MS then
              (case mppt_solar_cmd_next ctx of None \<Rightarrow> None
               | Some (i, ctx) \<Rightarrow>
                   (let ctx = ctx\<lparr>cmd_idx := i\<rparr> in
                    case cmd_get tz (cmd_idx ctx) ctx of
                      None \<Rightarrow> None
                    | Some None \<Rightarrow> Some ctx
                    | Some (Some cmd) \<Rightarrow>
                        (let ctx = ctx\<lparr>cmd_buf_len := 0, usb_out := usb_out ctx @ [cmd]\<rparr>
                         in Some (if send = 0 then ctx\<lparr>mp_send_in_progress := True, cmd_send_time := now\<rparr> else ctx))))
            else Some ctx))"

text \<open>The operations of the module in any order.\<close>

datatype mppt_op = Query u64 "tm option" int | Usb tm usb_event string

fun mppt_step :: "mppt_op \<Rightarrow> mppt_context \<Rightarrow> mppt_context option" where
  "mppt_step (Query now tz send) ctx = mppt_solar_query now tz send ctx"
| "mppt_step (Usb g event data) ctx = Some (mppt_usb_callback g event data ctx)"

section \<open>The invariant\<close>

text \<open>The commands that are asked for again and again: status, energy and time.\<close>

definition cyclic :: "nat list" where
  "cyclic = [5, 8, 11]"

definition mppt_ok :: "mppt_context \<Rightarrow> bool" where
  "mppt_ok ctx \<longleftrightarrow> length (cmd_buff ctx) = CMD_BUF_SIZE \<and> cmd_buf_len ctx < CMD_BUF_SIZE \<and> cmd_count ctx = 12 \<and>
     length (send_flags ctx) = 12 \<and> list_all (\<lambda>i. send_flags ctx ! i) cyclic"

lemma handlers_facts:
  "length voltron_commnds_handler = 12"
  "list_all (\<lambda>i. \<not> fst (snd (snd (voltron_commnds_handler ! i)))) cyclic"
  "list_all (\<lambda>h. fst h < MPPT_QMAX) voltron_commnds_handler"
  by (simp_all add: voltron_commnds_handler_def cyclic_def MPPT_QMAX_def MPPT_QID_def MPPT_QVFW_def MPPT_QFLAG_def
      MPPT_QDI_def MPPT_QPIRI_def MPPT_QPIGS_def MPPT_QMOD_def MPPT_QPIWS_def MPPT_QET_def MPPT_QMN_def MPPT_QGMN_def
      MPPT_QT_def)

lemma cyclic_flags: "list_all (\<lambda>i. fs ! i) cyclic \<longleftrightarrow> fs ! 5 \<and> fs ! 8 \<and> fs ! 11"
  by (simp add: cyclic_def)

lemma length_list_update_NUL: "length (snd (mppt_verify_reply s n)) = length s"
  by (simp add: mppt_verify_reply_def Let_def)

lemma known_fields:
  "cmd_buff (snd (mppt_cmd_process_known g n ctx)) = cmd_buff ctx"
  "cmd_buf_len (snd (mppt_cmd_process_known g n ctx)) = cmd_buf_len ctx"
  "cmd_count (snd (mppt_cmd_process_known g n ctx)) = cmd_count ctx"
  "length (send_flags (snd (mppt_cmd_process_known g n ctx))) = length (send_flags ctx)"
  "usb_out (snd (mppt_cmd_process_known g n ctx)) = usb_out ctx"
  "next_idx (snd (mppt_cmd_process_known g n ctx)) = next_idx ctx"
  by (simp_all add: mppt_cmd_process_known_def mppt_send_mqtt_data_def case_prod_beta Let_def split: option.split)

lemma known_flags:
  assumes "list_all (\<lambda>i. send_flags ctx ! i) cyclic"
  shows "list_all (\<lambda>i. send_flags (snd (mppt_cmd_process_known g n ctx)) ! i) cyclic"
proof -
  have "(send_flags ctx)[k := False] ! i" if "i \<in> set cyclic" "fst (snd (snd (voltron_commnds_handler ! k)))" for i k
  proof -
    have "k \<noteq> i" using that handlers_facts(2) by (auto simp: list_all_iff)
    then show ?thesis using that(1) assms by (simp add: list_all_iff)
  qed
  then show ?thesis
    using assms by (auto simp: mppt_cmd_process_known_def mppt_send_mqtt_data_def case_prod_beta Let_def list_all_iff
        split: option.split)
qed

lemma callback_fields:
  "cmd_count (mppt_usb_callback g ev d ctx) = cmd_count ctx"
  "usb_out (mppt_usb_callback g ev d ctx) = usb_out ctx"
  "next_idx (mppt_usb_callback g ev d ctx) = next_idx ctx"
  by (simp_all add: mppt_usb_callback_def mppt_cmd_process_def reset_state_def known_fields case_prod_beta Let_def
      split: usb_event.split)

lemma process_ok:
  assumes "mppt_ok ctx"
  shows "mppt_ok (mppt_cmd_process g ctx)"
  using assms known_flags [of "ctx\<lparr>cmd_buff := snd (mppt_verify_reply (cmd_buff ctx) (cmd_buf_len ctx))\<rparr>"]
  by (simp add: mppt_cmd_process_def mppt_ok_def known_fields case_prod_beta length_list_update_NUL)

lemma callback_ok:
  assumes "mppt_ok ctx"
  shows "mppt_ok (mppt_usb_callback g ev d ctx)"
proof -
  have r: "mppt_ok (reset_state ctx)"
    using assms by (simp add: mppt_ok_def reset_state_def cyclic_flags)
  show ?thesis
  proof (cases ev)
    case HID_REPORT
    let ?c = "ctx\<lparr>cmd_buff := take (cmd_buf_len ctx) (cmd_buff ctx) @ d @ drop (cmd_buf_len ctx + length d) (cmd_buff ctx),
      cmd_buf_len := cmd_buf_len ctx + length d\<rparr>"
    show ?thesis
    proof (cases "cmd_buf_len ctx + length d < CMD_BUF_SIZE")
      case True
      then have c: "mppt_ok ?c" using assms by (simp add: mppt_ok_def CMD_BUF_SIZE_def)
      then have "mppt_ok (mppt_cmd_process g ?c)" by (rule process_ok)
      then show ?thesis
        using c True HID_REPORT by (simp add: mppt_usb_callback_def Let_def mppt_ok_def CMD_BUF_SIZE_def)
    qed (use assms HID_REPORT in \<open>simp add: mppt_usb_callback_def\<close>)
  qed (use assms r in \<open>simp_all add: mppt_usb_callback_def mppt_ok_def\<close>)
qed

section \<open>The schedule\<close>

text \<open>The number of steps of the round from \<open>i\<close> to \<open>j\<close>.\<close>

definition round_dist :: "nat \<Rightarrow> nat \<Rightarrow> nat \<Rightarrow> nat" where
  "round_dist n i j = (if i \<le> j then j - i else j + n - i)"

definition following :: "nat \<Rightarrow> nat \<Rightarrow> nat" where
  "following n i = (if i + 1 \<ge> n then 0 else i + 1)"

lemma dist_following:
  "i < n \<Longrightarrow> j < n \<Longrightarrow> i \<noteq> j \<Longrightarrow> round_dist n i j = Suc (round_dist n (following n i) j)"
  by (auto simp: round_dist_def following_def)

lemma following_less: "0 < n \<Longrightarrow> following n i < n"
  by (simp add: following_def)

lemma cmd_next_loop_first:
  "i < n \<Longrightarrow> j < n \<Longrightarrow> fs ! j \<Longrightarrow>
   \<exists>k. cmd_next_loop fs n i = Some k \<and> k < n \<and> fs ! k \<and> round_dist n i k \<le> round_dist n i j"
proof (induction "round_dist n i j" arbitrary: i rule: less_induct)
  case less
  show ?case
  proof (cases "fs ! i")
    case True
    then show ?thesis using less.prems by (subst cmd_next_loop.simps) (simp add: round_dist_def)
  next
    case False
    then have "i \<noteq> j" using less.prems by blast
    then have d: "round_dist n i j = Suc (round_dist n (following n i) j)" by (rule dist_following [OF less.prems(1,2)])
    have "following n i < n" using less.prems by (intro following_less) simp
    then obtain k where k: "cmd_next_loop fs n (following n i) = Some k" "k < n" "fs ! k"
      "round_dist n (following n i) k \<le> round_dist n (following n i) j"
      using less.hyps [of "following n i"] less.prems d by auto
    have "i \<noteq> k" using k(3) False by blast
    then have "round_dist n i k = Suc (round_dist n (following n i) k)" by (rule dist_following [OF less.prems(1) k(2)])
    moreover have "cmd_next_loop fs n i = cmd_next_loop fs n (following n i)"
      using False by (subst cmd_next_loop.simps) (simp add: following_def)
    ultimately show ?thesis using k d by simp
  qed
qed

definition round_start :: "mppt_context \<Rightarrow> nat" where
  "round_start ctx = (if next_idx ctx \<ge> 12 then 0 else next_idx ctx)"

text \<open>The frame of the \<open>k\<close>-th entry of the table.\<close>

definition query_frame :: "nat \<Rightarrow> string" where
  "query_frame k = mppt_frame (Qcommands ! fst (voltron_commnds_handler ! k))"

lemma query_cmd_get:
  assumes "k < 12" and "cmd_idx ctx = fst (voltron_commnds_handler ! k)"
  shows "cmd_get tz (cmd_idx ctx) ctx = Some (Some (query_frame k))"
proof -
  let ?i = "fst (voltron_commnds_handler ! k)"
  have "list_all (\<lambda>h. cmd_param (fst h) d = None \<and> fst h \<notin> {25, 29, 26, 30, 27, 31}) voltron_commnds_handler" for d
    by (simp add: voltron_commnds_handler_def cmd_param_def MPPT_QMAX_def MPPT_QID_def MPPT_QVFW_def MPPT_QFLAG_def
        MPPT_QDI_def MPPT_QPIRI_def MPPT_QPIGS_def MPPT_QMOD_def MPPT_QPIWS_def MPPT_QET_def MPPT_QMN_def MPPT_QGMN_def
        MPPT_QT_def MPPT_QEY_def MPPT_QLY_def MPPT_QEM_def MPPT_QLM_def MPPT_QED_def MPPT_QLD_def)
  then have p: "cmd_param ?i d = None" "?i \<notin> {25, 29, 26, 30, 27, 31}" for d
    using assms(1) handlers_facts(1) by (simp_all add: list_all_length)
  have i: "?i < 33" using handlers_facts(1,3) assms(1) by (simp add: list_all_length MPPT_QMAX_def)
  have q: "list_all (\<lambda>c. length c \<le> 8) Qcommands" "length Qcommands = 33" by code_simp+
  have "length (Qcommands ! ?i) \<le> 8" using i q by (simp add: list_all_length)
  then have "mppt_get_qcommand ?i None = Some (Some (query_frame k))"
    using i q(2) by (simp add: mppt_get_qcommand_def Let_def COMMAND_MAX_LEN_def query_frame_def mppt_frame_def list_all_length)
  then show ?thesis
    using p by (simp add: cmd_get_def assms(2) MPPT_QEY_def MPPT_QLY_def MPPT_QEM_def MPPT_QLM_def MPPT_QED_def MPPT_QLD_def
        split: option.split)
qed

lemma query_step:
  assumes "mppt_ok ctx"
  shows "\<exists>ctx'. mppt_solar_query now tz send ctx = Some ctx' \<and> mppt_ok ctx' \<and>
    ((usb_out ctx' = usb_out ctx \<and> next_idx ctx' = next_idx ctx) \<or>
     (\<exists>k<12. usb_out ctx' = usb_out ctx @ [query_frame k] \<and> next_idx ctx' = k + 1 \<and> send_flags ctx ! k \<and>
        (\<forall>j<12. send_flags ctx ! j \<longrightarrow> round_dist 12 (round_start ctx) k \<le> round_dist 12 (round_start ctx) j)))"
proof -
  define c where "c = (if now - cmd_send_time ctx > SENT_WAIT_MS
      then ctx\<lparr>timeout_count := (if timeout_state ctx then timeout_count ctx else timeout_count ctx + 1),
             mp_send_in_progress := False, timeout_state := True\<rparr> else ctx)"
  have c: "mppt_ok c" "usb_out c = usb_out ctx" "next_idx c = next_idx ctx" "send_flags c = send_flags ctx"
    "cmd_send_time c = cmd_send_time ctx" "round_start c = round_start ctx"
    using assms by (simp_all add: c_def mppt_ok_def round_start_def)
  consider "\<not> usb_connected ctx"
    | "usb_connected ctx" "\<not> (\<not> mp_send_in_progress c \<and> now - cmd_send_time ctx > SENT_MIN_TIME_MS)"
    | "usb_connected ctx" "\<not> mp_send_in_progress c" "now - cmd_send_time ctx > SENT_MIN_TIME_MS" by blast
  then show ?thesis
  proof cases
    case 1
    then show ?thesis using assms by (simp add: mppt_solar_query_def mppt_ok_def)
  next
    case 2
    then have "mppt_solar_query now tz send ctx = Some c"
      by (auto simp: mppt_solar_query_def c_def [symmetric] c(5) Let_def)
    then show ?thesis using c by simp
  next
    case 3
    have s: "round_start ctx < 12" by (simp add: round_start_def)
    have f5: "send_flags ctx ! 5" using assms by (simp add: mppt_ok_def cyclic_flags)
    have ex: "\<exists>k. cmd_next_loop (send_flags ctx) 12 (round_start ctx) = Some k \<and> k < 12 \<and> send_flags ctx ! k \<and>
        round_dist 12 (round_start ctx) k \<le> round_dist 12 (round_start ctx) j" if "j < 12" "send_flags ctx ! j" for j
      using cmd_next_loop_first [OF s that(1), of "send_flags ctx"] that(2) by blast
    obtain k where k: "cmd_next_loop (send_flags ctx) 12 (round_start ctx) = Some k" "k < 12" "send_flags ctx ! k"
      using ex [of 5] f5 by auto
    have kmin: "round_dist 12 (round_start ctx) k \<le> round_dist 12 (round_start ctx) j" if "j < 12" "send_flags ctx ! j" for j
      using ex [OF that] k(1) by auto
    let ?d = "c\<lparr>next_idx := k + 1, cmd_idx := fst (voltron_commnds_handler ! k)\<rparr>"
    have n: "mppt_solar_cmd_next c = Some (fst (voltron_commnds_handler ! k), c\<lparr>next_idx := k + 1\<rparr>)"
      using k(1) c assms by (simp add: mppt_solar_cmd_next_def round_start_def mppt_ok_def)
    have g: "cmd_get tz (cmd_idx ?d) ?d = Some (Some (query_frame k))"
      by (rule query_cmd_get [OF k(2)]) simp
    let ?e = "?d\<lparr>cmd_buf_len := 0, usb_out := usb_out ?d @ [query_frame k]\<rparr>"
    have "mppt_solar_query now tz send ctx =
        Some (if send = 0 then ?e\<lparr>mp_send_in_progress := True, cmd_send_time := now\<rparr> else ?e)"
      using 3 g by (simp add: mppt_solar_query_def c_def [symmetric] c(5) n Let_def)
    then show ?thesis
      using c k kmin by (auto simp: mppt_ok_def CMD_BUF_SIZE_def)
  qed
qed

interpretation mppt: machine mppt_step mppt_ok
proof
  show "mppt_ok s \<Longrightarrow> \<exists>s'. mppt_step p s = Some s' \<and> mppt_ok s'" for p s
  proof (cases p)
    case (Query now tz send)
    then show "mppt_ok s \<Longrightarrow> ?thesis" using query_step [of s now tz send] by auto
  qed (simp add: callback_ok)
qed

text \<open>
  The inverter module is a sound machine: from its initialisation on, over any queries at any
  times, USB events, reports of any length and content and failed sends, every call returns, the
  reports stay inside the receive buffer and the choice of the next query ends.
\<close>

lemma mppt_machine_sound:
  assumes "mppt_ok ctx"
  shows "\<exists>ctx'. run_ops mppt_step ops ctx = Some ctx' \<and> mppt_ok ctx'"
  by (rule mppt.runs_ok [OF assms])

lemma mppt_init_ok: "mppt_solar_init len par dev = Some (r, ctx) \<Longrightarrow> mppt_ok ctx"
proof -
  have "length voltron_commnds_handler = 12" by (simp add: handlers_facts)
  then show "mppt_solar_init len par dev = Some (r, ctx) \<Longrightarrow> mppt_ok ctx"
    by (auto simp: mppt_solar_init_def mppt_ok_def cyclic_flags CMD_BUF_SIZE_def Let_def split: option.splits)
qed

text \<open>A step keeps the output or sends the next pending command of the round.\<close>

lemma mppt_step_sends:
  assumes "mppt_ok ctx" and "mppt_step p ctx = Some ctx'" and "j \<in> set cyclic"
  shows "(usb_out ctx' = usb_out ctx \<and> next_idx ctx' = next_idx ctx) \<or>
     (\<exists>k<12. usb_out ctx' = usb_out ctx @ [query_frame k] \<and> next_idx ctx' = k + 1 \<and>
        round_dist 12 (round_start ctx) k \<le> round_dist 12 (round_start ctx) j)"
proof (cases p)
  case (Query now tz send)
  have "j < 12" "send_flags ctx ! j" using assms(1,3) by (auto simp: mppt_ok_def cyclic_def)
  then show ?thesis using query_step [OF assms(1), of now tz send] assms(2) Query by auto
next
  case (Usb g event data)
  then show ?thesis using assms(2) by (auto simp: callback_fields)
qed

lemma round_advances:
  assumes "k < 12" "j < 12" "i < 12" "round_dist 12 i k \<le> round_dist 12 i j" "k \<noteq> j"
  shows "round_dist 12 (if k + 1 \<ge> 12 then 0 else k + 1) j < round_dist 12 i j"
  using assms by (auto simp: round_dist_def split: if_splits)

lemma cyclic_sent:
  assumes "mppt_ok ctx" and "run_ops mppt_step ops ctx = Some ctx'" and "j \<in> set cyclic"
  shows "\<exists>out. usb_out ctx' = usb_out ctx @ out \<and>
    (round_dist 12 (round_start ctx) j < length out \<longrightarrow> query_frame j \<in> set out)"
  using assms(1,2)
proof (induction ops arbitrary: ctx)
  case (Cons p ops)
  obtain c where c: "mppt_step p ctx = Some c" "run_ops mppt_step ops c = Some ctx'"
    using Cons.prems(2) by (auto split: option.splits)
  have ok: "mppt_ok c" using mppt.step_ok [OF Cons.prems(1), of p] c(1) by simp
  obtain out where out: "usb_out ctx' = usb_out c @ out"
    "round_dist 12 (round_start c) j < length out \<longrightarrow> query_frame j \<in> set out"
    using Cons.IH [OF ok c(2)] by blast
  have j: "j < 12" using assms(3) by (auto simp: cyclic_def)
  from mppt_step_sends [OF Cons.prems(1) c(1) assms(3)] show ?case
  proof
    assume "usb_out c = usb_out ctx \<and> next_idx c = next_idx ctx"
    then show ?thesis using out by (auto simp: round_start_def)
  next
    assume "\<exists>k<12. usb_out c = usb_out ctx @ [query_frame k] \<and> next_idx c = k + 1 \<and>
        round_dist 12 (round_start ctx) k \<le> round_dist 12 (round_start ctx) j"
    then obtain k where k: "k < 12" "usb_out c = usb_out ctx @ [query_frame k]" "next_idx c = k + 1"
      "round_dist 12 (round_start ctx) k \<le> round_dist 12 (round_start ctx) j" by blast
    have "round_start c = (if k + 1 \<ge> 12 then 0 else k + 1)" using k(3) by (simp add: round_start_def)
    moreover have "round_start ctx < 12" by (simp add: round_start_def)
    ultimately have "k \<noteq> j \<Longrightarrow> round_dist 12 (round_start c) j < round_dist 12 (round_start ctx) j"
      using round_advances [OF k(1) j _ k(4)] by simp
    then show ?thesis using k(2) out by (intro exI [of _ "query_frame k # out"]) (cases "k = j"; auto)
  qed
qed simp

text \<open>
  C26.  The important queries are never starved: over any run of the module, any twelve frames in a row
  that it hands to the USB stack contain the queries of the general status, of the total energy
  and of the time.
\<close>

lemma mppt_queries_fair:
  assumes "mppt_ok ctx" and "run_ops mppt_step ops ctx = Some ctx'"
  shows "\<exists>out. usb_out ctx' = usb_out ctx @ out \<and>
    (12 \<le> length out \<longrightarrow>
      mppt_frame ''QPIGS'' \<in> set out \<and> mppt_frame ''QET'' \<in> set out \<and> mppt_frame ''QT'' \<in> set out)"
proof -
  have d: "round_dist 12 (round_start ctx) j < 12" if "j < 12" for j
    using that by (auto simp: round_dist_def round_start_def)
  have q: "query_frame 5 = mppt_frame ''QPIGS''" "query_frame 8 = mppt_frame ''QET''" "query_frame 11 = mppt_frame ''QT''"
    by (simp_all add: query_frame_def voltron_commnds_handler_def Qcommands_def MPPT_QPIGS_def MPPT_QET_def MPPT_QT_def)
  have "\<exists>out. usb_out ctx' = usb_out ctx @ out \<and> (12 \<le> length out \<longrightarrow> query_frame j \<in> set out)"
    if "j \<in> set cyclic" for j
  proof -
    have "j < 12" using that by (auto simp: cyclic_def)
    then show ?thesis using cyclic_sent [OF assms that] d [of j] by fastforce
  qed
  from this [of 5] this [of 8] this [of 11] show ?thesis by (auto simp: cyclic_def q)
qed

section \<open>A reply in pieces\<close>

text \<open>The reports without a carriage return only fill the buffer.\<close>

definition fed :: "string \<Rightarrow> mppt_context \<Rightarrow> mppt_context" where
  "fed d ctx = ctx\<lparr>cmd_buff := take (cmd_buf_len ctx) (cmd_buff ctx) @ d @ drop (cmd_buf_len ctx + length d) (cmd_buff ctx),
     cmd_buf_len := cmd_buf_len ctx + length d\<rparr>"

lemma fed_fed:
  "cmd_buf_len ctx + length a \<le> length (cmd_buff ctx) \<Longrightarrow> fed b (fed a ctx) = fed (a @ b) ctx"
  by (cases a) (auto simp: fed_def min_def ac_simps)

lemma fed_Nil [simp]: "cmd_buf_len ctx \<le> length (cmd_buff ctx) \<Longrightarrow> fed [] ctx = ctx"
  by (simp add: fed_def)

lemma report_feeds:
  "cmd_buf_len ctx + length d < CMD_BUF_SIZE \<Longrightarrow>
   mppt_usb_callback g HID_REPORT d ctx =
     (if CMD_END_CHAR \<in> set d
      then (mppt_cmd_process g (fed d ctx))\<lparr>cmd_buf_len := 0, mp_send_in_progress := False, timeout_state := False\<rparr>
      else fed d ctx)"
  by (simp add: mppt_usb_callback_def fed_def Let_def)

lemma reports_feed:
  "length (cmd_buff ctx) = CMD_BUF_SIZE \<Longrightarrow> cmd_buf_len ctx + length (concat ds) < CMD_BUF_SIZE \<Longrightarrow>
   CMD_END_CHAR \<notin> set (concat ds) \<Longrightarrow> fold (\<lambda>d. mppt_usb_callback g HID_REPORT d) ds ctx = fed (concat ds) ctx"
proof (induction ds arbitrary: ctx)
  case (Cons d ds)
  have "mppt_usb_callback g HID_REPORT d ctx = fed d ctx" using Cons.prems by (simp add: report_feeds)
  moreover have "fold (\<lambda>d. mppt_usb_callback g HID_REPORT d) ds (fed d ctx) = fed (concat ds) (fed d ctx)"
    using Cons.prems by (intro Cons.IH) (simp_all add: fed_def CMD_BUF_SIZE_def)
  ultimately show ?case using Cons.prems by (simp add: fed_fed CMD_BUF_SIZE_def)
qed simp

text \<open>What a reply with payload \<open>p\<close> to the \<open>k\<close>-th command of the table does.\<close>

definition handled :: "tm \<Rightarrow> nat \<Rightarrow> string \<Rightarrow> mppt_context \<Rightarrow> mppt_context" where
  "handled g k p ctx =
     (case voltron_commnds_handler ! k of (_, cb, one_time, min_size) \<Rightarrow>
        let (ret, v) = cb g (cmd_buff ctx) (vdata ctx) in
        if int (length (cstr p)) < min_size then ctx
        else if ret \<noteq> 0 then ctx\<lparr>vdata := v\<rparr>
        else ctx\<lparr>vdata := v, mqtt_out := mqtt_out ctx @ [mppt_mqtt_data v],
               send_flags := (if one_time then (send_flags ctx)[k := False] else send_flags ctx)\<rparr>)"

lemma find_handler_nth:
  "distinct (map fst hs) \<Longrightarrow> k < length hs \<Longrightarrow> find_handler i hs (fst (hs ! k)) = Some (i + k)"
proof (induction hs arbitrary: i k)
  case (Cons h hs)
  then show ?case
  proof (cases k)
    case (Suc m)
    have "fst h \<noteq> fst (hs ! m)" using Cons.prems Suc by (auto dest: nth_mem)
    then show ?thesis using Cons Suc by (cases h) simp
  qed (cases h, simp)
qed simp

lemma handlers_distinct: "distinct (map fst voltron_commnds_handler)"
  by (simp add: voltron_commnds_handler_def MPPT_QID_def MPPT_QVFW_def MPPT_QFLAG_def MPPT_QDI_def MPPT_QPIRI_def
      MPPT_QPIGS_def MPPT_QMOD_def MPPT_QPIWS_def MPPT_QET_def MPPT_QMN_def MPPT_QGMN_def MPPT_QT_def)

lemma known_handled:
  assumes "cmd_count ctx = 12" and "k < 12" and "cmd_idx ctx = fst (voltron_commnds_handler ! k)"
  shows "snd (mppt_cmd_process_known g (int (length (cstr p))) ctx) = handled g k p ctx"
proof -
  have "find_handler 0 voltron_commnds_handler (cmd_idx ctx) = Some k"
    using find_handler_nth [OF handlers_distinct, of k 0] assms(2,3) by (simp add: handlers_facts)
  then have f: "find_handler 0 (take (cmd_count ctx) voltron_commnds_handler) (cmd_idx ctx) = Some k"
    using assms(1) by (simp add: handlers_facts)
  obtain i cb one_time min_size where h: "voltron_commnds_handler ! k = (i, cb, one_time, min_size)" by (rule prod_cases4)
  obtain ret v where "cb g (cmd_buff ctx) (vdata ctx) = (ret, v)" by fastforce
  then show ?thesis
    by (simp add: mppt_cmd_process_known_def f h handled_def mppt_send_mqtt_data_def)
qed

text \<open>
  A reply in any pieces reaches its parser: when, after a query, the USB reports \<open>ds\<close> and a last
  one with the carriage return make up a well formed reply with payload \<open>p\<close>, of a length that
  fits the buffer, the parser of the command in flight runs once on exactly this payload - if it
  is not shorter than the parser demands - and its result is stored and sent to MQTT when it
  accepts; a one-time command is then not asked for again.  In any case the module is ready for
  the next query.
\<close>

lemma mppt_reply_processed:
  assumes "mppt_ok ctx" and "cmd_buf_len ctx = 0" and "k < 12" and "cmd_idx ctx = fst (voltron_commnds_handler ! k)"
    and "CMD_END_CHAR \<notin> set (concat ds)" and "CMD_END_CHAR \<in> set d" and "length (concat ds @ d) < CMD_BUF_SIZE"
    and "mppt_reply p (concat ds @ d) (length (concat ds @ d))"
  shows "\<exists>c. fold (\<lambda>d. mppt_usb_callback g HID_REPORT d) (ds @ [d]) ctx =
      (handled g k p c)\<lparr>cmd_buf_len := 0, mp_send_in_progress := False, timeout_state := False\<rparr> \<and>
    cstr (cmd_buff c) = cstr p \<and> vdata c = vdata ctx \<and> send_flags c = send_flags ctx \<and> mqtt_out c = mqtt_out ctx"
proof -
  let ?s = "concat ds @ d"
  define c0 where "c0 = fed ?s ctx"
  have l: "length (cmd_buff ctx) = CMD_BUF_SIZE" using assms(1) by (simp add: mppt_ok_def)
  have 1: "fold (\<lambda>d. mppt_usb_callback g HID_REPORT d) ds ctx = fed (concat ds) ctx"
    using assms(2,5,7) l by (intro reports_feed) simp_all
  have 2: "cmd_buf_len (fed (concat ds) ctx) = length (concat ds)" using assms(2) by (simp add: fed_def)
  have 3: "fed d (fed (concat ds) ctx) = c0"
    unfolding c0_def using assms(2,7) l by (intro fed_fed) (simp add: CMD_BUF_SIZE_def)
  have run: "fold (\<lambda>d. mppt_usb_callback g HID_REPORT d) (ds @ [d]) ctx =
      (mppt_cmd_process g c0)\<lparr>cmd_buf_len := 0, mp_send_in_progress := False, timeout_state := False\<rparr>"
    using report_feeds [of "fed (concat ds) ctx" d g] assms(6,7) by (simp add: 1 2 3)
  have buff: "cmd_buff c0 = ?s @ drop (length ?s) (cmd_buff ctx)" "cmd_buf_len c0 = length ?s"
    using assms(2) by (simp_all add: c0_def fed_def)
  have "mppt_reply p (cmd_buff c0) (cmd_buf_len c0)"
    using assms(8) unfolding buff by (auto simp: mppt_reply_def)
  then have v: "mppt_verify_reply (cmd_buff c0) (cmd_buf_len c0) =
      (int (length (cstr p)), (cmd_buff c0)[length p := CHR 0x00])"
    by (rule verify_frame) (simp add: buff)
  define c where "c = c0\<lparr>cmd_buff := (cmd_buff c0)[length p := CHR 0x00]\<rparr>"
  have "take (length p + 3) ?s = mppt_frame p" "length p + 3 \<le> length ?s"
    using assms(8) by (simp_all add: mppt_reply_def)
  then obtain q where q: "?s = p @ q" "q \<noteq> []"
    by (metis append.assoc append_is_Nil_conv append_take_drop_id list.distinct(1) mppt_frame_def)
  have "cstr (cmd_buff c) = cstr p"
  proof -
    have "cmd_buff c = p @ CHR 0x00 # tl (q @ drop (length ?s) (cmd_buff ctx))"
      using q by (cases q) (simp_all add: c_def buff list_update_append)
    then show ?thesis by simp
  qed
  moreover have "mppt_cmd_process g c0 = handled g k p c"
  proof -
    have "list_all (\<lambda>h. fst h < MPPT_QMAX) voltron_commnds_handler" by (rule handlers_facts)
    then have "cmd_idx c0 < MPPT_QMAX"
      using assms(3,4) by (simp add: list_all_length handlers_facts c0_def fed_def)
    moreover have "snd (mppt_cmd_process_known g (int (length (cstr p))) c) = handled g k p c"
      using assms(1,3,4) by (intro known_handled) (simp_all add: c_def c0_def fed_def mppt_ok_def)
    ultimately show ?thesis by (simp add: mppt_cmd_process_def v c_def)
  qed
  ultimately show ?thesis using run by (intro exI [of _ c]) (simp add: c_def c0_def fed_def)
qed

section \<open>Witnesses\<close>

definition demo_mppt :: mppt_context where
  "demo_mppt = snd (the (mppt_solar_init 9 (Some ''0665:5161'') 0))"

lemma demo_mppt_ok: "mppt_ok demo_mppt"
proof -
  have "mppt_solar_init 9 (Some ''0665:5161'') 0 \<noteq> None" by code_simp
  then show ?thesis using mppt_init_ok unfolding demo_mppt_def by (metis option.exhaust_sel prod.collapse)
qed

lemma mppt_machine_sound_witness:
  "\<exists>ctx'. run_ops mppt_step
      [Usb tm_zero HID_MOUNT [], Query 30000 None 0, Usb tm_zero HID_REPORT (replicate 200 (CHR ''x'')), Query 60000 None (-1)]
      demo_mppt = Some ctx' \<and> mppt_ok ctx'"
  by (rule mppt_machine_sound [OF demo_mppt_ok])

definition demo_round :: "mppt_op list" where
  "demo_round = Usb tm_zero HID_MOUNT [] # map (\<lambda>i. Query (30000 * of_nat i) None 0) [1 ..< 13]"

lemma demo_round_runs: "map_option (\<lambda>c. length (usb_out c)) (run_ops mppt_step demo_round demo_mppt) = Some 12"
  by code_simp

lemma mppt_queries_fair_witness:
  "\<exists>ctx'. run_ops mppt_step demo_round demo_mppt = Some ctx' \<and> mppt_frame ''QPIGS'' \<in> set (usb_out ctx')"
proof -
  obtain c where c: "run_ops mppt_step demo_round demo_mppt = Some c" "length (usb_out c) = 12"
    using demo_round_runs by auto
  have "usb_out demo_mppt = []" by code_simp
  then show ?thesis using mppt_queries_fair [OF demo_mppt_ok c(1)] c by auto
qed

lemma mppt_reply_processed_witness:
  "vd_mode (vdata (fold (\<lambda>d. mppt_usb_callback tm_zero HID_REPORT d) [''('', ''B'' @ crc_bytes ''(B'' @ [CMD_END_CHAR]]
      (demo_mppt\<lparr>cmd_idx := MPPT_QMOD\<rparr>))) = CHR ''B''"
proof -
  let ?d = "''B'' @ crc_bytes ''(B'' @ [CMD_END_CHAR]" and ?c = "demo_mppt\<lparr>cmd_idx := MPPT_QMOD\<rparr>"
  have "mppt_reply ''(B'' (concat [''(''] @ ?d) (length (concat [''(''] @ ?d))"
    by (simp add: mppt_reply_def mppt_frame_def END_OF_INPUT_def CMD_END_CHAR_def)
  moreover have "mppt_ok ?c" "cmd_buf_len ?c = 0" using demo_mppt_ok by (simp_all add: mppt_ok_def) (code_simp)
  ultimately obtain c where c: "fold (\<lambda>d. mppt_usb_callback tm_zero HID_REPORT d) ([''(''] @ [?d]) ?c =
      (handled tm_zero 6 ''(B'' c)\<lparr>cmd_buf_len := 0, mp_send_in_progress := False, timeout_state := False\<rparr>"
    "cstr (cmd_buff c) = cstr ''(B''" 
    using mppt_reply_processed [of ?c 6 "[''('']" ?d "''(B''" tm_zero]
    by (auto simp: voltron_commnds_handler_def CMD_BUF_SIZE_def CMD_END_CHAR_def)
  have "cmd_buff c ! 1 = CHR ''B''"
    using takeWhile_nth [of 1 "\<lambda>c. c \<noteq> CHR 0x00" "cmd_buff c"] c(2) by (simp add: cstr_def)
  then show ?thesis using c(1) by (simp add: handled_def voltron_commnds_handler_def qmod_cmd_process_def cstr_def)
qed

end
