(* ===== verification/DalyBms.thy ===== *)
theory DalyBms
  imports Prelude Float32
begin

text \<open>
  The Daly battery management system over Bluetooth: \<open>app/solar/bms_daly_proto.c\<close> (frames) and
  \<open>app/solar/bms_daly_bt.c\<close> (decoding of the answers, query cycle, Bluetooth events).  The
  checksum \<open>crc8\<close> and the calls of the Bluetooth service are parameters; what is written to the
  device and handed to MQTT is recorded in the state.  Each event and query runs under the lock of
  the module.
\<close>

section \<open>Frames\<close>

definition FRAME_HEAD :: u8 where "FRAME_HEAD = 0xA5"
definition SELF_ADDRESS :: u8 where "SELF_ADDRESS = 0x80"
definition FRAME_DATA_LEN :: u8 where "FRAME_DATA_LEN = 8"
definition COMMAND_LEN :: nat where "COMMAND_LEN = 13"
definition DALY_MAX :: nat where "DALY_MAX = 22"
definition DALY_98 :: nat where "DALY_98 = 8"

text \<open>The command bytes of \<open>Qcommands\<close>; the id of an entry is its index.\<close>

definition daly_Qcommands :: "u8 list" where
  "daly_Qcommands =
    [0x90, 0x91, 0x92, 0x93, 0x94, 0x95, 0x96, 0x97, 0x98, 0x50, 0x51, 0x53, 0x54, 0x57, 0x59, 0x5A, 0x5B, 0x5E, 0x5F,
     0x60, 0x62, 0x63]"

definition bms_get_qcommand :: "(u8 list \<Rightarrow> u8) \<Rightarrow> nat \<Rightarrow> u8 list option" where
  "bms_get_qcommand crc8 idx =
     (if idx \<ge> length daly_Qcommands then None
      else
        (let buf = [FRAME_HEAD, SELF_ADDRESS, daly_Qcommands ! idx, FRAME_DATA_LEN] @ replicate 9 0
         in Some (buf[12 := crc8 buf])))"

text \<open>The index of a byte in a list, the length if there is none.\<close>

fun index_of_byte :: "u8 \<Rightarrow> u8 list \<Rightarrow> nat" where
  "index_of_byte b [] = 0"
| "index_of_byte b (c # cs) = (if c = b then 0 else Suc (index_of_byte b cs))"

text \<open>The id of the command that is answered, or \<open>DALY_MAX\<close>, and the buffer without its checksum.\<close>

definition bms_verify_response :: "(u8 list \<Rightarrow> u8) \<Rightarrow> u8 list \<Rightarrow> nat \<times> u8 list" where
  "bms_verify_response crc8 buf =
     (if length buf < COMMAND_LEN then (DALY_MAX, buf)
      else if buf ! 0 \<noteq> FRAME_HEAD then (DALY_MAX, buf)
      else if buf ! 1 \<noteq> 0x01 then (DALY_MAX, buf)
      else if buf ! 3 \<noteq> FRAME_DATA_LEN then (DALY_MAX, buf)
      else
        (let crc = buf ! 12; buf = buf[12 := 0] in
         if crc \<noteq> crc8 (take COMMAND_LEN buf) then (DALY_MAX, buf)
         else (let i = index_of_byte (buf ! 2) daly_Qcommands
               in (if i < length daly_Qcommands then i else DALY_MAX, buf))))"

section \<open>The state of the battery\<close>

definition DALY_MAX_CELLS :: nat where "DALY_MAX_CELLS = 48"
definition DALY_MAX_TEMPS :: nat where "DALY_MAX_TEMPS = 16"

record bms_daly_state =
  dy_bat_v :: f32
  dy_acquisition_v :: f32
  dy_bat_i :: f32
  dy_soc_p :: f32
  dy_bat_maxv :: u16
  dy_bat_maxv_cell :: u8
  dy_bat_minv :: u16
  dy_bat_minv_cell :: u8
  dy_bat_maxt :: u8
  dy_bat_maxt_cell :: u8
  dy_bat_mint :: u8
  dy_bat_mint_cell :: u8
  dy_charge_state :: u8
  dy_charge_mos :: u8
  dy_discharge_mos :: u8
  dy_bms_life :: u8
  dy_remain_capacity :: u32
  dy_cells :: u8
  dy_t_sensors :: u8
  dy_charger_running :: u8
  dy_load_running :: u8
  dy_dio_states :: u8
  dy_cells_voltage :: "u16 list"
  dy_cells_temperature :: "u16 list"
  dy_cells_states :: "u8 list"
  dy_fail_status :: "u8 list"
  dy_fail_code :: u8

definition daly_zero :: bms_daly_state where
  "daly_zero =
     \<lparr>dy_bat_v = Fin 0, dy_acquisition_v = Fin 0, dy_bat_i = Fin 0, dy_soc_p = Fin 0,
      dy_bat_maxv = 0, dy_bat_maxv_cell = 0, dy_bat_minv = 0, dy_bat_minv_cell = 0,
      dy_bat_maxt = 0, dy_bat_maxt_cell = 0, dy_bat_mint = 0, dy_bat_mint_cell = 0,
      dy_charge_state = 0, dy_charge_mos = 0, dy_discharge_mos = 0, dy_bms_life = 0, dy_remain_capacity = 0,
      dy_cells = 0, dy_t_sensors = 0, dy_charger_running = 0, dy_load_running = 0, dy_dio_states = 0,
      dy_cells_voltage = replicate DALY_MAX_CELLS 0, dy_cells_temperature = replicate DALY_MAX_TEMPS 0,
      dy_cells_states = replicate 6 0, dy_fail_status = replicate 7 0, dy_fail_code = 0\<rparr>"

text \<open>Big endian numbers in the data of a frame, as C ints; \<open>char\<close> is unsigned on the target.\<close>

definition GET_U16 :: "u8 list \<Rightarrow> nat \<Rightarrow> int" where
  "GET_U16 b k = 256 * uint (b ! k) + uint (b ! (k + 1))"

definition GET_U32 :: "u8 list \<Rightarrow> nat \<Rightarrow> int" where
  "GET_U32 b k = s32 (16777216 * uint (b ! k) + 65536 * uint (b ! (k + 1)) + 256 * uint (b ! (k + 2)) + uint (b ! (k + 3)))"

text \<open>
  The decoders get the bytes after the four of the header.  None: bytes after the end of the
  received value are read, or an array of the state is exceeded.
\<close>

definition d90_cmd_process :: "u8 list \<Rightarrow> bms_daly_state \<Rightarrow> bms_daly_state option" where
  "d90_cmd_process b d =
     (if length b < 10 then None
      else Some (d\<lparr>dy_bat_v := f32_of_int (tdiv (GET_U16 b 0) 10),
             dy_acquisition_v := f32_of_int (tdiv (GET_U16 b 2) 10),
             dy_bat_i := f32_of_int (tdiv (GET_U16 b 4 - 30000) 10),
             dy_soc_p := f32_of_int (tdiv (GET_U16 b 8) 10)\<rparr>))"

definition d91_cmd_process :: "u8 list \<Rightarrow> bms_daly_state \<Rightarrow> bms_daly_state option" where
  "d91_cmd_process b d =
     Some (d\<lparr>dy_bat_maxv := word_of_int (GET_U16 b 0), dy_bat_maxv_cell := b ! 2,
       dy_bat_minv := word_of_int (GET_U16 b 3), dy_bat_minv_cell := b ! 5\<rparr>)"

definition d92_cmd_process :: "u8 list \<Rightarrow> bms_daly_state \<Rightarrow> bms_daly_state option" where
  "d92_cmd_process b d =
     Some (d\<lparr>dy_bat_maxt := b ! 0 - 40, dy_bat_maxt_cell := b ! 1, dy_bat_mint := b ! 2 - 40, dy_bat_mint_cell := b ! 3\<rparr>)"

definition d93_cmd_process :: "u8 list \<Rightarrow> bms_daly_state \<Rightarrow> bms_daly_state option" where
  "d93_cmd_process b d =
     Some (d\<lparr>dy_charge_state := b ! 0, dy_charge_mos := b ! 1, dy_discharge_mos := b ! 2, dy_bms_life := b ! 3,
       dy_remain_capacity := word_of_int (GET_U32 b 4)\<rparr>)"

definition d94_cmd_process :: "u8 list \<Rightarrow> bms_daly_state \<Rightarrow> bms_daly_state option" where
  "d94_cmd_process b d =
     Some (d\<lparr>dy_cells := b ! 0, dy_t_sensors := b ! 1, dy_charger_running := b ! 2, dy_load_running := b ! 3,
       dy_dio_states := b ! 4\<rparr>)"

definition d95_cmd_process :: "u8 list \<Rightarrow> bms_daly_state \<Rightarrow> bms_daly_state option" where
  "d95_cmd_process b d =
     (let frame = unat (b ! 0) in
      if frame \<ge> 16 then Some d
      else Some (d\<lparr>dy_cells_voltage := (dy_cells_voltage d)[3 * frame := word_of_int (GET_U16 b 1),
             3 * frame + 1 := word_of_int (GET_U16 b 3), 3 * frame + 2 := word_of_int (GET_U16 b 5)]\<rparr>))"

definition d96_cmd_process :: "u8 list \<Rightarrow> bms_daly_state \<Rightarrow> bms_daly_state option" where
  "d96_cmd_process b d =
     (let frame = unat (b ! 0) in
      if frame \<ge> 3 then Some d
      else if 7 * frame + 6 \<ge> DALY_MAX_TEMPS then None
      else Some (d\<lparr>dy_cells_temperature :=
             fold (\<lambda>i ts. ts[7 * frame + i := word_of_int (uint (b ! (i + 1)) - 40)]) [0 ..< 7] (dy_cells_temperature d)\<rparr>))"

definition d97_cmd_process :: "u8 list \<Rightarrow> bms_daly_state \<Rightarrow> bms_daly_state option" where
  "d97_cmd_process b d = Some (d\<lparr>dy_cells_states := take 6 b\<rparr>)"

definition d98_cmd_process :: "u8 list \<Rightarrow> bms_daly_state \<Rightarrow> bms_daly_state option" where
  "d98_cmd_process b d = Some (d\<lparr>dy_fail_status := take 7 b, dy_fail_code := b ! 7\<rparr>)"

definition daly_commnds_handler :: "(u8 list \<Rightarrow> bms_daly_state \<Rightarrow> bms_daly_state option) list" where
  "daly_commnds_handler =
    [d90_cmd_process, d91_cmd_process, d92_cmd_process, d93_cmd_process, d94_cmd_process, d95_cmd_process,
     d96_cmd_process, d97_cmd_process, d98_cmd_process]"

definition process_response :: "nat \<Rightarrow> u8 list \<Rightarrow> bms_daly_state \<Rightarrow> bms_daly_state option" where
  "process_response cmd b d = (if cmd < length daly_commnds_handler then (daly_commnds_handler ! cmd) b d else Some d)"

section \<open>The module\<close>

datatype bt_state = BT_DISCONNECTED | BT_CONNECTED | BT_READY

record bt_terminal =
  readId :: u32
  writeId :: u32
  wait_response :: bool
  term_send_time :: u64

record mqtt_bms_data =
  mb_bat_v :: f32
  mb_bat_i :: f32
  mb_soc_p :: f32
  mb_bms_life :: u8
  mb_remain_capacity :: u32

record bms_context =
  bm_address :: "u8 list"
  bm_name :: "string option"
  bm_pin :: "string option"
  bt_index :: int
  terminal :: bt_terminal
  bm_state :: bt_state
  bm_data :: bms_daly_state
  read_chars :: "u32 list"
  qcommand :: nat
  bt_writes :: "u8 list list"
  bt_reads :: "u32 list"
  bms_mqtt :: "mqtt_bms_data list"

definition no_terminal :: bt_terminal where
  "no_terminal = \<lparr>readId = 0, writeId = 0, wait_response = False, term_send_time = 0\<rparr>"

definition IS_TERMINAL_READY :: "bms_context \<Rightarrow> bool" where
  "IS_TERMINAL_READY ctx \<longleftrightarrow> readId (terminal ctx) \<noteq> 0 \<and> writeId (terminal ctx) \<noteq> 0"

text \<open>
  A characteristic as the Bluetooth service reports it: its id, 128 bit uuid, and whether it can
  be read and written without response.
\<close>

record bt_characteristic =
  char_id :: u32
  char_uuid128 :: "u8 list"
  prop_read :: bool
  prop_write_wr :: bool

definition bt_serial_svc :: "u8 list" where
  "bt_serial_svc = [0x00, 0x00, 0xff, 0xf0, 0x00, 0x00, 0x10, 0x00, 0x80, 0x00, 0x00, 0x80, 0x5f, 0x9b, 0x34, 0xfb]"

definition bt_read_char :: "u8 list" where
  "bt_read_char = [0x00, 0x00, 0xff, 0xf1, 0x00, 0x00, 0x10, 0x00, 0x80, 0x00, 0x00, 0x80, 0x5f, 0x9b, 0x34, 0xfb]"

definition bt_write_char :: "u8 list" where
  "bt_write_char = [0x00, 0x00, 0xff, 0xf2, 0x00, 0x00, 0x10, 0x00, 0x80, 0x00, 0x00, 0x80, 0x5f, 0x9b, 0x34, 0xfb]"

definition BT_MAX_SERVICES :: nat where "BT_MAX_SERVICES = 20"
definition TERM_WAIT_MS :: u64 where "TERM_WAIT_MS = 5000"

text \<open>\<open>svc\<close> is \<open>bt_service_get_uuid\<close>: the uuid of the service of a characteristic.\<close>

definition check_terminal :: "(u32 \<Rightarrow> u8 list option) \<Rightarrow> bt_characteristic \<Rightarrow> bms_context \<Rightarrow> bms_context" where
  "check_terminal svc c ctx =
     (if svc (char_id c) \<noteq> Some bt_serial_svc then ctx
      else
        (let ctx = (if char_uuid128 c = bt_read_char \<and> prop_read c
                    then ctx\<lparr>terminal := (terminal ctx)\<lparr>readId := char_id c\<rparr>\<rparr> else ctx)
         in if char_uuid128 c = bt_write_char \<and> prop_write_wr c
            then ctx\<lparr>terminal := (terminal ctx)\<lparr>writeId := char_id c\<rparr>\<rparr> else ctx))"

definition bms_mqtt_data :: "bms_daly_state \<Rightarrow> mqtt_bms_data" where
  "bms_mqtt_data d =
     \<lparr>mb_bat_v = dy_bat_v d, mb_bat_i = dy_bat_i d, mb_soc_p = dy_soc_p d, mb_bms_life = dy_bms_life d,
      mb_remain_capacity = dy_remain_capacity d\<rparr>"

definition bms_send_mqtt_data :: "bms_context \<Rightarrow> bms_context" where
  "bms_send_mqtt_data ctx = ctx\<lparr>bms_mqtt := bms_mqtt ctx @ [bms_mqtt_data (bm_data ctx)]\<rparr>"

definition daly_bt_process_data :: "(u8 list \<Rightarrow> u8) \<Rightarrow> u32 \<Rightarrow> u8 list \<Rightarrow> bms_context \<Rightarrow> bms_context option" where
  "daly_bt_process_data crc8 charId val ctx =
     (if \<not> (IS_TERMINAL_READY ctx \<and> charId = readId (terminal ctx)) then Some ctx
      else
        (let ctx = ctx\<lparr>terminal := (terminal ctx)\<lparr>wait_response := False\<rparr>\<rparr>;
             (cmd, buf) = bms_verify_response crc8 val
         in if cmd < DALY_MAX then
              map_option (\<lambda>d. bms_send_mqtt_data (ctx\<lparr>bm_data := d\<rparr>)) (process_response cmd (drop 4 buf) (bm_data ctx))
            else Some ctx))"

text \<open>The events of the Bluetooth service; the flag says whether the size of the data is the expected one.\<close>

datatype bt_event =
  Ev_disconnected
  | Ev_connected string
  | Ev_new_service bool
  | Ev_new_characteristic bool bt_characteristic
  | Ev_ready
  | Ev_value_received bool u32 "u8 list"

definition daly_bt_event ::
  "(u8 list \<Rightarrow> u8) \<Rightarrow> (u32 \<Rightarrow> u8 list option) \<Rightarrow> bool \<Rightarrow> int \<Rightarrow> bt_event \<Rightarrow> bms_context \<Rightarrow> bms_context option" where
  "daly_bt_event crc8 svc alloc idx event ctx =
     (if idx \<noteq> bt_index ctx then Some ctx
      else case event of
        Ev_connected name \<Rightarrow>
          Some (ctx\<lparr>bm_state := BT_CONNECTED, bm_name := (if alloc then Some name else None), terminal := no_terminal\<rparr>)
      | Ev_disconnected \<Rightarrow> Some (ctx\<lparr>bm_state := BT_DISCONNECTED, bm_name := None, terminal := no_terminal\<rparr>)
      | Ev_ready \<Rightarrow> Some (ctx\<lparr>bm_state := BT_READY\<rparr>)
      | Ev_new_service _ \<Rightarrow> Some ctx
      | Ev_new_characteristic size_ok c \<Rightarrow>
          if \<not> size_ok then Some ctx
          else
            (let ctx = check_terminal svc c ctx
             in Some (if prop_read c \<and> length (read_chars ctx) < BT_MAX_SERVICES
                      then ctx\<lparr>read_chars := read_chars ctx @ [char_id c]\<rparr> else ctx))
      | Ev_value_received size_ok charId val \<Rightarrow>
          if size_ok \<and> bm_state ctx = BT_READY then daly_bt_process_data crc8 charId val ctx else Some ctx)"

text \<open>One call of \<open>bms_solar_query\<close>; \<open>wr\<close> is the answer of \<open>bt_characteristic_write\<close>.\<close>

definition bms_solar_query :: "(u8 list \<Rightarrow> u8) \<Rightarrow> u64 \<Rightarrow> int \<Rightarrow> bms_context \<Rightarrow> bms_context" where
  "bms_solar_query crc8 now wr ctx =
     (if bm_state ctx \<noteq> BT_READY then ctx
      else if \<not> IS_TERMINAL_READY ctx then ctx
      else if wait_response (terminal ctx) \<and> now - term_send_time (terminal ctx) < TERM_WAIT_MS then ctx
      else
        (let ctx = ctx\<lparr>terminal := (terminal ctx)\<lparr>wait_response := False\<rparr>\<rparr>;
             ctx = (case bms_get_qcommand crc8 (qcommand ctx) of
                      None \<Rightarrow> ctx
                    | Some cmd \<Rightarrow>
                        (let ctx = ctx\<lparr>bt_writes := bt_writes ctx @ [cmd]\<rparr> in
                         if wr = 0 then
                           ctx\<lparr>terminal := (terminal ctx)\<lparr>term_send_time := now, wait_response := True\<rparr>,
                             bt_reads := bt_reads ctx @ [readId (terminal ctx)]\<rparr>
                         else ctx));
             q = qcommand ctx + 1
         in ctx\<lparr>qcommand := (if q > DALY_98 then 0 else q)\<rparr>))"

text \<open>
  The address and the pin of the configuration.  None: the text has no semicolon and \<open>strdup\<close>
  gets NULL; \<open>Some None\<close>: refused.
\<close>

definition get_bms_config :: "nat \<Rightarrow> bool \<Rightarrow> string option \<Rightarrow> (u8 list \<times> string) option option" where
  "get_bms_config len alloc par =
     (if len < 1 then Some None
      else case par of None \<Rightarrow> Some None
      | Some bt_id \<Rightarrow>
          if length bt_id < 1 then Some None
          else (case strtok_r (CHR '';'') (Some bt_id) of
             (None, _) \<Rightarrow> Some None
           | (Some tok, None) \<Rightarrow> None
           | (Some tok, Some pin) \<Rightarrow>
               if \<not> alloc then Some None
               else
                 (let a = map (\<lambda>m. word_of_int (strtol_val 16 m)) (take 6 (strtok_all (CHR '':'') (Some tok)))
                  in if length a \<noteq> 6 then Some None else Some (Some (a, pin)))))"

text \<open>\<open>dev\<close> is the answer of \<open>bt_add_known_device\<close>.\<close>

definition bms_solar_init :: "nat \<Rightarrow> bool \<Rightarrow> string option \<Rightarrow> int \<Rightarrow> (bool \<times> bms_context) option" where
  "bms_solar_init len alloc par dev =
     (let c = \<lparr>bm_address = [], bm_name = None, bm_pin = None, bt_index = 0, terminal = no_terminal,
            bm_state = BT_DISCONNECTED, bm_data = daly_zero, read_chars = [], qcommand = 0, bt_writes = [],
            bt_reads = [], bms_mqtt = []\<rparr>
      in case get_bms_config len alloc par of
           None \<Rightarrow> None
         | Some None \<Rightarrow> Some (False, c)
         | Some (Some (a, pin)) \<Rightarrow> Some (1 \<le> dev, c\<lparr>bm_address := a, bm_pin := Some pin, bt_index := dev\<rparr>))"

section \<open>Answers\<close>

text \<open>The frame with which the BMS answers command byte \<open>c\<close> with 8 bytes of data.\<close>

definition daly_answer :: "(u8 list \<Rightarrow> u8) \<Rightarrow> u8 \<Rightarrow> u8 list \<Rightarrow> u8 list" where
  "daly_answer crc8 c data =
     (let f = [FRAME_HEAD, 0x01, c, FRAME_DATA_LEN] @ data in f @ [crc8 (f @ [0])])"

lemma length_Qcommands: "length daly_Qcommands = 22"
  by (simp add: daly_Qcommands_def)

lemma index_of_byte_nth: "index_of_byte b cs < length cs \<Longrightarrow> cs ! index_of_byte b cs = b"
  by (induction cs) (auto split: if_splits)

lemma index_of_byte_distinct: "distinct cs \<Longrightarrow> i < length cs \<Longrightarrow> index_of_byte (cs ! i) cs = i"
  by (induction cs arbitrary: i) (auto simp: nth_Cons split: nat.splits dest: nth_mem)

lemma Qcommands_distinct: "distinct daly_Qcommands"
  by (simp add: daly_Qcommands_def)

lemma answer_parts:
  "length data = 8 \<Longrightarrow> length (daly_answer crc8 c data) = 13 \<and>
    (daly_answer crc8 c data @ x)[12 := 0] = ([FRAME_HEAD, 0x01, c, FRAME_DATA_LEN] @ data @ [0]) @ x \<and>
    (daly_answer crc8 c data @ x) ! 12 = crc8 ([FRAME_HEAD, 0x01, c, FRAME_DATA_LEN] @ data @ [0])"
  by (simp add: daly_answer_def Let_def list_update_append nth_append eval_nat_numeral)

lemma verify_answer:
  assumes "length data = 8"
  shows "bms_verify_response crc8 (daly_answer crc8 c data @ x) =
    (let i = index_of_byte c daly_Qcommands
     in (if i < length daly_Qcommands then i else DALY_MAX, ([FRAME_HEAD, 0x01, c, FRAME_DATA_LEN] @ data @ [0]) @ x))"
proof -
  let ?b = "daly_answer crc8 c data @ x"
  have h: "?b ! 0 = FRAME_HEAD" "?b ! 1 = 0x01" "?b ! 2 = c" "?b ! 3 = FRAME_DATA_LEN"
    by (simp_all add: daly_answer_def Let_def)
  have "?b ! 12 = crc8 (take 13 (?b[12 := 0]))" "?b[12 := 0] ! 2 = c"
    using answer_parts [OF assms, of crc8 c x] assms by simp_all
  then show ?thesis
    using answer_parts [OF assms, of crc8 c x] h by (simp add: bms_verify_response_def COMMAND_LEN_def Let_def)
qed

text \<open>
  C38.  The check of an answer is exact, whatever the checksum function: \<open>bms_verify_response\<close> reports
  command \<open>i\<close> just for the values that start with a well formed answer to it.
\<close>

lemma daly_answer_exact:
  assumes "i < DALY_MAX"
  shows "fst (bms_verify_response crc8 buf) = i \<longleftrightarrow>
    (\<exists>data x. length data = 8 \<and> buf = daly_answer crc8 (daly_Qcommands ! i) data @ x)"
proof
  assume v: "fst (bms_verify_response crc8 buf) = i"
  have "i \<noteq> DALY_MAX" using assms by simp
  then have h: "13 \<le> length buf" "buf ! 0 = FRAME_HEAD" "buf ! 1 = 0x01" "buf ! 3 = FRAME_DATA_LEN"
    "buf ! 12 = crc8 (take 13 (buf[12 := 0]))" "index_of_byte (buf ! 2) daly_Qcommands = i" "i < length daly_Qcommands"
    using v by (auto simp: bms_verify_response_def COMMAND_LEN_def Let_def split: if_splits)
  define data where "data = take 8 (drop 4 buf)"
  have len: "length data = 8" using h(1) by (simp add: data_def)
  have t4: "take 4 buf = [FRAME_HEAD, 0x01, daly_Qcommands ! i, FRAME_DATA_LEN]"
    using h index_of_byte_nth [of "buf ! 2" daly_Qcommands]
    by (intro nth_equalityI) (auto simp: less_Suc_eq eval_nat_numeral)
  have t12: "take 12 buf = take 4 buf @ data" using take_add [of 4 8 buf] by (simp add: data_def)
  have "take 13 (buf[12 := 0]) = take 12 buf @ [0]"
    using h(1) by (simp add: take_Suc_conv_app_nth eval_nat_numeral)
  then have "take 13 buf = daly_answer crc8 (daly_Qcommands ! i) data"
    using h(1,5) take_Suc_conv_app_nth [of 12 buf] by (simp add: daly_answer_def Let_def t12 t4)
  then show "\<exists>data x. length data = 8 \<and> buf = daly_answer crc8 (daly_Qcommands ! i) data @ x"
    using len append_take_drop_id [of 13 buf] by metis
next
  assume "\<exists>data x. length data = 8 \<and> buf = daly_answer crc8 (daly_Qcommands ! i) data @ x"
  then obtain data x where d: "length data = 8" "buf = daly_answer crc8 (daly_Qcommands ! i) data @ x" by blast
  have "i < length daly_Qcommands" using assms by (simp add: length_Qcommands DALY_MAX_def)
  then have "index_of_byte (daly_Qcommands ! i) daly_Qcommands = i" by (rule index_of_byte_distinct [OF Qcommands_distinct])
  then show "fst (bms_verify_response crc8 buf) = i"
    using verify_answer [OF d(1), of crc8 "daly_Qcommands ! i" x] assms
    by (simp add: d(2) Let_def length_Qcommands DALY_MAX_def)
qed

section \<open>Cell voltages\<close>

definition daly_value ::
  "(u8 list \<Rightarrow> u8) \<Rightarrow> (u32 \<Rightarrow> u8 list option) \<Rightarrow> bool \<Rightarrow> u8 list \<Rightarrow> bms_context \<Rightarrow> bms_context option" where
  "daly_value crc8 svc alloc v ctx =
     daly_bt_event crc8 svc alloc (bt_index ctx) (Ev_value_received True (readId (terminal ctx)) v) ctx"

lemma value_processed:
  assumes "bm_state ctx = BT_READY" and "IS_TERMINAL_READY ctx" and "length data = 8" and "c < 9"
  shows "daly_value crc8 svc alloc (daly_answer crc8 (daly_Qcommands ! c) data @ x) ctx =
    map_option (\<lambda>d. bms_send_mqtt_data (ctx\<lparr>terminal := (terminal ctx)\<lparr>wait_response := False\<rparr>, bm_data := d\<rparr>))
      ((daly_commnds_handler ! c) (data @ [0] @ x) (bm_data ctx))"
proof -
  have c: "c < length daly_Qcommands" using assms(4) by (simp add: length_Qcommands)
  have i: "index_of_byte (daly_Qcommands ! c) daly_Qcommands = c" by (rule index_of_byte_distinct [OF Qcommands_distinct c])
  have "length daly_commnds_handler = 9" by (simp add: daly_commnds_handler_def)
  then show ?thesis
    using assms verify_answer [OF assms(3), of crc8 "daly_Qcommands ! c" x] c
    by (simp add: daly_value_def daly_bt_event_def daly_bt_process_data_def i Let_def process_response_def DALY_MAX_def)
qed

lemma find_app: "List.find P (xs @ ys) = (case List.find P xs of Some x \<Rightarrow> Some x | None \<Rightarrow> List.find P ys)"
  by (induction xs) simp_all

definition cell_volts :: "u8 list \<Rightarrow> nat \<Rightarrow> u16" where
  "cell_volts f k = word_of_int (GET_U16 f (1 + 2 * (k mod 3)))"

lemma d95_cells:
  assumes "length (dy_cells_voltage d) = 48" and "length f = 8"
  shows "\<exists>d'. d95_cmd_process (f @ x) d = Some d' \<and> length (dy_cells_voltage d') = 48 \<and>
    (\<forall>k<48. dy_cells_voltage d' ! k = (if unat (f ! 0) = k div 3 then cell_volts f k else dy_cells_voltage d ! k))"
proof (cases "unat (f ! 0) \<ge> 16")
  case True
  then have "unat (f ! 0) \<noteq> k div 3" if "k < 48" for k using that by auto
  then show ?thesis using True assms by (auto simp: d95_cmd_process_def nth_append)
next
  case False
  define n where "n = unat (f ! 0)"
  let ?v = "(dy_cells_voltage d)[3 * n := word_of_int (GET_U16 f 1), 3 * n + 1 := word_of_int (GET_U16 f 3),
    3 * n + 2 := word_of_int (GET_U16 f 5)]"
  have g: "GET_U16 (f @ x) j = GET_U16 f j" if "j < 7" for j using that assms(2) by (simp add: GET_U16_def nth_append)
  have "d95_cmd_process (f @ x) d = Some (d\<lparr>dy_cells_voltage := ?v\<rparr>)"
    using False assms(2) by (simp add: d95_cmd_process_def g n_def nth_append Let_def)
  moreover have "?v ! k = (if n = k div 3 then cell_volts f k else dy_cells_voltage d ! k)" if "k < 48" for k
  proof (cases "n = k div 3")
    case True
    then have k: "k = 3 * n + k mod 3" by simp
    have "k mod 3 < 3" by simp
    then consider "k mod 3 = 0" | "k mod 3 = 1" | "k mod 3 = 2" by linarith
    then have "?v ! k = cell_volts f k"
    proof cases
      case 1
      have "k = 3 * n + 0" using k unfolding 1 by (simp only: ac_simps)
      moreover have "cell_volts f k = word_of_int (GET_U16 f 1)" unfolding cell_volts_def 1 by (simp add: eval_nat_numeral)
      ultimately show ?thesis using that assms(1) by simp
    next
      case 2
      have "k = 3 * n + 1" using k unfolding 2 by (simp only: ac_simps)
      moreover have "cell_volts f k = word_of_int (GET_U16 f 3)" unfolding cell_volts_def 2 by (simp add: eval_nat_numeral)
      ultimately show ?thesis using that assms(1) by simp
    next
      case 3
      have "k = 3 * n + 2" using k unfolding 3 by (simp only: ac_simps)
      moreover have "cell_volts f k = word_of_int (GET_U16 f 5)" unfolding cell_volts_def 3 by (simp add: eval_nat_numeral)
      ultimately show ?thesis using that assms(1) by simp
    qed
    then show ?thesis by (simp only: if_P [OF True])
  next
    case False
    then have "k \<noteq> 3 * n" "k \<noteq> 3 * n + 1" "k \<noteq> 3 * n + 2" by auto
    then show ?thesis using False by simp
  qed
  ultimately show ?thesis using assms(1) by (auto simp: n_def)
qed

text \<open>
  A value with an answer: the index of its command, its 8 bytes of data and what follows the frame in
  the value.  Left out are those whose decoder leaves its bounds (\<open>daly_soc_past_frame\<close>,
  \<open>daly_temp_frame_overflow\<close>): an answer to 0x90 with nothing after it and the temperature frame 2.
\<close>

type_synonym daly_reply = "nat \<times> u8 list \<times> u8 list"

definition reply_value :: "(u8 list \<Rightarrow> u8) \<Rightarrow> daly_reply \<Rightarrow> u8 list" where
  "reply_value crc8 r = (case r of (c, f, x) \<Rightarrow> daly_answer crc8 (daly_Qcommands ! c) f @ x)"

definition reply_safe :: "daly_reply \<Rightarrow> bool" where
  "reply_safe r = (case r of (c, f, x) \<Rightarrow> c < 9 \<and> length f = 8 \<and> (c = 0 \<longrightarrow> x \<noteq> []) \<and> (c = 6 \<longrightarrow> f ! 0 \<noteq> 2))"

text \<open>Whether an answer has the voltages of cell \<open>k\<close>.\<close>

definition reply_cell :: "nat \<Rightarrow> daly_reply \<Rightarrow> bool" where
  "reply_cell k r = (case r of (c, f, x) \<Rightarrow> c = 5 \<and> unat (f ! 0) = k div 3)"

lemma other_handlers:
  assumes "c < 9" and "c \<noteq> 5" and "length f = 8" and "c = 0 \<longrightarrow> x \<noteq> []" and "c = 6 \<longrightarrow> f ! 0 \<noteq> 2"
  shows "\<exists>d'. (daly_commnds_handler ! c) (f @ [0] @ x) d = Some d' \<and> dy_cells_voltage d' = dy_cells_voltage d"
proof -
  have six: "\<exists>d'. d96_cmd_process (f @ [0] @ x) d = Some d' \<and> dy_cells_voltage d' = dy_cells_voltage d" if "f ! 0 \<noteq> 2"
  proof -
    have "unat (f ! 0) \<noteq> unat (2 :: u8)" using that by (simp only: word_unat_eq_iff [symmetric] not_False_eq_True)
    then have "unat (f ! 0) \<noteq> 2" by simp
    then show ?thesis using assms(3) by (auto simp: d96_cmd_process_def Let_def DALY_MAX_TEMPS_def nth_append)
  qed
  have zero: "\<exists>d'. d90_cmd_process (f @ [0] @ x) d = Some d' \<and> dy_cells_voltage d' = dy_cells_voltage d" if "x \<noteq> []"
    using that assms(3) by (cases x) (auto simp: d90_cmd_process_def)
  have "c = 0 \<or> c = 1 \<or> c = 2 \<or> c = 3 \<or> c = 4 \<or> c = 6 \<or> c = 7 \<or> c = 8" using assms(1,2) by arith
  then show ?thesis
    using assms(4,5) six zero
    by (elim disjE)
      (simp_all add: daly_commnds_handler_def d91_cmd_process_def d92_cmd_process_def d93_cmd_process_def d94_cmd_process_def
        d97_cmd_process_def d98_cmd_process_def)
qed

lemma reply_handled:
  assumes "length (dy_cells_voltage d) = 48" and "reply_safe (c, f, x)"
  shows "\<exists>d'. (daly_commnds_handler ! c) (f @ [0] @ x) d = Some d' \<and> length (dy_cells_voltage d') = 48 \<and>
    (\<forall>k<48. dy_cells_voltage d' ! k = (if reply_cell k (c, f, x) then cell_volts f k else dy_cells_voltage d ! k))"
proof (cases "c = 5")
  case True
  then show ?thesis
    using d95_cells [OF assms(1), of f "[0] @ x"] assms(2)
    by (simp add: daly_commnds_handler_def reply_safe_def reply_cell_def)
next
  case False
  then show ?thesis
    using other_handlers [of c f x d] assms by (auto simp: reply_safe_def reply_cell_def)
qed

text \<open>
  C28.  The cell voltages are those of the last frame for each cell: over any sequence of well formed
  answers to the queries 0x90 to 0x98, in any order, none of which leaves its bounds
  (\<open>reply_safe\<close>: no answer to 0x90 that ends after its checksum and no temperature frame 2), every
  answer is accepted and reported once, and each of the 48 cells has the voltage in the last
  answer to 0x95 with its number, or its old one.
\<close>

lemma daly_cell_voltages:
  assumes "bm_state ctx = BT_READY" and "IS_TERMINAL_READY ctx" and "length (dy_cells_voltage (bm_data ctx)) = 48"
    and "\<forall>r\<in>set rs. reply_safe r"
  shows "\<exists>ctx'. run_ops (\<lambda>r. daly_value crc8 svc alloc (reply_value crc8 r)) rs ctx = Some ctx' \<and>
    length (bms_mqtt ctx') = length (bms_mqtt ctx) + length rs \<and>
    (\<forall>k<48. dy_cells_voltage (bm_data ctx') ! k =
      (case List.find (reply_cell k) (rev rs) of
         Some (c, f, x) \<Rightarrow> cell_volts f k | None \<Rightarrow> dy_cells_voltage (bm_data ctx) ! k))"
  using assms
proof (induction rs arbitrary: ctx)
  case (Cons r rs)
  obtain q f x where r: "r = (q, f, x)" by (rule prod_cases3)
  obtain d where d: "(daly_commnds_handler ! q) (f @ [0] @ x) (bm_data ctx) = Some d" "length (dy_cells_voltage d) = 48"
    "\<forall>k<48. dy_cells_voltage d ! k = (if reply_cell k r then cell_volts f k else dy_cells_voltage (bm_data ctx) ! k)"
    using reply_handled [OF Cons.prems(3), of q f x] Cons.prems(4) by (auto simp: r)
  define c where "c = bms_send_mqtt_data (ctx\<lparr>terminal := (terminal ctx)\<lparr>wait_response := False\<rparr>, bm_data := d\<rparr>)"
  have c: "bm_state c = BT_READY" "IS_TERMINAL_READY c" "bm_data c = d" "length (bms_mqtt c) = length (bms_mqtt ctx) + 1"
    using Cons.prems by (simp_all add: c_def bms_send_mqtt_data_def IS_TERMINAL_READY_def)
  have step: "daly_value crc8 svc alloc (reply_value crc8 r) ctx = Some c"
    using value_processed [OF Cons.prems(1,2), of f q crc8 svc alloc x] Cons.prems(4) d(1)
    by (simp add: c_def reply_value_def reply_safe_def r)
  obtain ctx' where ctx': "run_ops (\<lambda>r. daly_value crc8 svc alloc (reply_value crc8 r)) rs c = Some ctx'"
    "length (bms_mqtt ctx') = length (bms_mqtt c) + length rs"
    "\<forall>k<48. dy_cells_voltage (bm_data ctx') ! k =
      (case List.find (reply_cell k) (rev rs) of Some (c, f, x) \<Rightarrow> cell_volts f k | None \<Rightarrow> dy_cells_voltage (bm_data c) ! k)"
    using Cons.IH [OF c(1,2)] c(3) d(2) Cons.prems(4) by auto
  have "List.find P (rev (r # rs)) = (case List.find P (rev rs) of Some g \<Rightarrow> Some g | None \<Rightarrow> if P r then Some r else None)" for P
    by (simp add: find_app split: option.split)
  then show ?case
    using ctx' step c(3,4) d(3) by (auto simp: r split: option.split)
qed simp

section \<open>The query cycle\<close>

datatype daly_op = DQuery u64 int | DEvent bool int bt_event

fun daly_step :: "(u8 list \<Rightarrow> u8) \<Rightarrow> (u32 \<Rightarrow> u8 list option) \<Rightarrow> daly_op \<Rightarrow> bms_context \<Rightarrow> bms_context option" where
  "daly_step crc8 svc (DQuery now wr) ctx = Some (bms_solar_query crc8 now wr ctx)"
| "daly_step crc8 svc (DEvent alloc idx ev) ctx = daly_bt_event crc8 svc alloc idx ev ctx"

definition daly_query :: "(u8 list \<Rightarrow> u8) \<Rightarrow> nat \<Rightarrow> u8 list" where
  "daly_query crc8 q =
     (let f = [FRAME_HEAD, SELF_ADDRESS, daly_Qcommands ! q, FRAME_DATA_LEN] @ replicate 8 0 in f @ [crc8 (f @ [0])])"

lemma get_qcommand: "q < 22 \<Longrightarrow> bms_get_qcommand crc8 q = Some (daly_query crc8 q)"
  by (simp add: bms_get_qcommand_def daly_query_def length_Qcommands Let_def eval_nat_numeral)

lemma event_writes:
  "daly_bt_event crc8 svc alloc idx ev ctx = Some ctx' \<Longrightarrow> bt_writes ctx' = bt_writes ctx \<and> qcommand ctx' = qcommand ctx"
  by (auto simp: daly_bt_event_def daly_bt_process_data_def check_terminal_def bms_send_mqtt_data_def Let_def
      split: bt_event.splits if_splits prod.splits)

lemma query_writes:
  assumes "qcommand ctx < 9"
  shows "(let ctx' = bms_solar_query crc8 now wr ctx in
    (bt_writes ctx' = bt_writes ctx \<and> qcommand ctx' = qcommand ctx) \<or>
    (bt_writes ctx' = bt_writes ctx @ [daly_query crc8 (qcommand ctx)] \<and> qcommand ctx' = (qcommand ctx + 1) mod 9))"
proof -
  have "bms_get_qcommand crc8 (qcommand ctx) = Some (daly_query crc8 (qcommand ctx))"
    using assms by (intro get_qcommand) simp
  moreover have "(if qcommand ctx + 1 > DALY_98 then 0 else qcommand ctx + 1) = (qcommand ctx + 1) mod 9"
    using assms by (cases "qcommand ctx = 8") (auto simp: DALY_98_def)
  ultimately show ?thesis by (auto simp: bms_solar_query_def Let_def split: if_splits)
qed

text \<open>
  The query cycle goes on through everything: over any run of queries, Bluetooth events and
  answers, well formed or not, connections and losses, the frames written to the device are the
  queries 0x90 to 0x98 in turn, from the one that was due.
\<close>

lemma daly_queries_cycle:
  assumes "qcommand ctx < 9" and "run_ops (daly_step crc8 svc) ops ctx = Some ctx'"
  shows "\<exists>n. bt_writes ctx' = bt_writes ctx @ map (\<lambda>j. daly_query crc8 ((qcommand ctx + j) mod 9)) [0 ..< n] \<and>
    qcommand ctx' = (qcommand ctx + n) mod 9"
  using assms
proof (induction ops arbitrary: ctx)
  case Nil
  then show ?case by (intro exI [of _ 0]) simp
next
  case (Cons p ops)
  obtain c where c: "daly_step crc8 svc p ctx = Some c" "run_ops (daly_step crc8 svc) ops c = Some ctx'"
    using Cons.prems(2) by (auto split: option.splits)
  have step: "(bt_writes c = bt_writes ctx \<and> qcommand c = qcommand ctx) \<or>
    (bt_writes c = bt_writes ctx @ [daly_query crc8 (qcommand ctx)] \<and> qcommand c = (qcommand ctx + 1) mod 9)"
  proof (cases p)
    case (DQuery now wr)
    then show ?thesis using c(1) query_writes [OF Cons.prems(1), of crc8 now wr] by (simp add: Let_def)
  next
    case (DEvent alloc idx ev)
    then show ?thesis using c(1) event_writes by simp
  qed
  then have "qcommand c < 9" using Cons.prems(1) by auto
  then obtain n where n: "bt_writes ctx' = bt_writes c @ map (\<lambda>j. daly_query crc8 ((qcommand c + j) mod 9)) [0 ..< n]"
    "qcommand ctx' = (qcommand c + n) mod 9"
    using Cons.IH [OF _ c(2)] by blast
  from step show ?case
  proof
    assume "bt_writes c = bt_writes ctx \<and> qcommand c = qcommand ctx"
    then show ?thesis using n by auto
  next
    assume s: "bt_writes c = bt_writes ctx @ [daly_query crc8 (qcommand ctx)] \<and> qcommand c = (qcommand ctx + 1) mod 9"
    have "map (\<lambda>j. daly_query crc8 ((qcommand ctx + j) mod 9)) [0 ..< Suc n] =
        daly_query crc8 (qcommand ctx) # map (\<lambda>j. daly_query crc8 ((qcommand c + j) mod 9)) [0 ..< n]"
      using s Cons.prems(1) by (simp add: upt_rec [of 0 "Suc n"] map_Suc_upt [symmetric] mod_add_left_eq del: upt_Suc)
    then show ?thesis using n s by (intro exI [of _ "Suc n"]) (simp add: mod_add_left_eq)
  qed
qed

text \<open>
  The state of charge is not the one in the answer: it is in the bytes 6 and 7 of the data of
  answer 0x90, but the decoder reads bytes 8 and 9.  With an answer that ends after its checksum,
  as the protocol has it, the second of them is behind the received value; with more bytes the
  percentage is a tenth of the first byte after the frame, whatever the BMS reports.
\<close>

lemma daly_soc_past_frame:
  assumes "bm_state ctx = BT_READY" and "IS_TERMINAL_READY ctx" and "length data = 8"
  shows "daly_value crc8 svc alloc (daly_answer crc8 0x90 data) ctx = None \<and>
    (\<exists>ctx'. daly_value crc8 svc alloc (daly_answer crc8 0x90 data @ b # x) ctx = Some ctx' \<and>
       dy_soc_p (bm_data ctx') = f32_of_int (uint b div 10))"
proof -
  have q: "daly_Qcommands ! 0 = 0x90" "daly_commnds_handler ! 0 = d90_cmd_process"
    by (simp_all add: daly_Qcommands_def daly_commnds_handler_def)
  have "daly_value crc8 svc alloc (daly_answer crc8 0x90 data) ctx = None"
    using value_processed [OF assms, of 0 crc8 svc alloc "[]"] assms(3) by (simp add: q d90_cmd_process_def)
  moreover have "GET_U16 (data @ 0 # b # x) 8 = uint b" using assms(3) by (simp add: GET_U16_def nth_append)
  ultimately show ?thesis
    using value_processed [OF assms, of 0 crc8 svc alloc "b # x"] assms(3)
    by (simp add: q d90_cmd_process_def bms_send_mqtt_data_def tdiv_nonneg)
qed

text \<open>The third temperature frame (sensors 15 and 16) writes past the array.\<close>

lemma daly_temp_frame_overflow:
  assumes "bm_state ctx = BT_READY" and "IS_TERMINAL_READY ctx" and "length data = 7"
  shows "daly_value crc8 svc alloc (daly_answer crc8 0x96 (2 # data) @ x) ctx = None"
proof -
  have q: "daly_Qcommands ! 6 = 0x96" "daly_commnds_handler ! 6 = d96_cmd_process"
    by (simp_all add: daly_Qcommands_def daly_commnds_handler_def)
  show ?thesis
    using value_processed [OF assms(1,2), of "2 # data" 6 crc8 svc alloc x] assms(3)
    by (simp add: q d96_cmd_process_def DALY_MAX_TEMPS_def)
qed

section \<open>Witnesses\<close>

text \<open>A connected device whose terminal is known, and a checksum function.\<close>

definition demo_bms :: bms_context where
  "demo_bms = (snd (the (bms_solar_init 26 True (Some ''1:2:3:4:5:6;0000'') 1)))\<lparr>bm_state := BT_READY,
     terminal := no_terminal\<lparr>readId := 7, writeId := 8\<rparr>\<rparr>"

definition demo_crc8 :: "u8 list \<Rightarrow> u8" where
  "demo_crc8 = sum_list"

lemma demo_bms_ready:
  "bm_state demo_bms = BT_READY" "IS_TERMINAL_READY demo_bms" "length (dy_cells_voltage (bm_data demo_bms)) = 48"
  "qcommand demo_bms = 0" "bt_writes demo_bms = []"
  by code_simp+

lemma daly_answer_exact_witness:
  "fst (bms_verify_response demo_crc8 (daly_answer demo_crc8 0x95 [1, 0x0C, 0xE4, 0, 0, 0, 0, 0])) = 5"
proof -
  have "daly_Qcommands ! 5 = 0x95" by (simp add: daly_Qcommands_def)
  then have "\<exists>data x. length data = 8 \<and>
      daly_answer demo_crc8 0x95 [1, 0x0C, 0xE4, 0, 0, 0, 0, 0] = daly_answer demo_crc8 (daly_Qcommands ! 5) data @ x"
    by (intro exI [of _ "[1, 0x0C, 0xE4, 0, 0, 0, 0, 0]"] exI [of _ "[]"]) simp
  then show ?thesis by (simp add: daly_answer_exact DALY_MAX_def)
qed

lemma daly_cell_voltages_witness:
  "\<exists>ctx'. run_ops (\<lambda>r. daly_value demo_crc8 (\<lambda>_. None) True (reply_value demo_crc8 r))
      [(5, [1, 0x0C, 0xE4, 0, 0, 0, 0, 0], []), (0, [1, 0xF4, 1, 0xF4, 0x75, 0x30, 3, 0xE8], [0xA5]),
       (5, [1, 0x0D, 0, 0x0C, 0xE4, 0, 0, 0], [])] demo_bms = Some ctx' \<and>
    dy_cells_voltage (bm_data ctx') ! 3 = 3328 \<and> dy_cells_voltage (bm_data ctx') ! 4 = 3300"
proof -
  have "cell_volts [1, 0x0D, 0, 0x0C, 0xE4, 0, 0, 0] 3 = 3328" "cell_volts [1, 0x0D, 0, 0x0C, 0xE4, 0, 0, 0] 4 = 3300"
    by code_simp+
  moreover have "\<forall>r\<in>set [(5, [1, 0x0C, 0xE4, 0, 0, 0, 0, 0], []), (0, [1, 0xF4, 1, 0xF4, 0x75, 0x30, 3, 0xE8], [0xA5]),
       (5, [1, 0x0D, 0, 0x0C, 0xE4, 0, 0, 0], [])]. reply_safe r"
    by (simp add: reply_safe_def)
  ultimately show ?thesis
    using daly_cell_voltages [OF demo_bms_ready(1-3), of _ demo_crc8 "\<lambda>_. None" True]
    by (fastforce simp: reply_cell_def)
qed

lemma daly_queries_cycle_witness:
  "\<exists>n. bt_writes (bms_solar_query demo_crc8 60000 0 demo_bms) = map (\<lambda>j. daly_query demo_crc8 (j mod 9)) [0 ..< n]"
  using daly_queries_cycle [of demo_bms demo_crc8 "\<lambda>_. None" "[DQuery 60000 0]"] demo_bms_ready(4,5) by auto

lemma daly_soc_past_frame_witness:
  "daly_value demo_crc8 (\<lambda>_. None) True (daly_answer demo_crc8 0x90 [1, 0xF4, 1, 0xF4, 0x75, 0x30, 3, 0xE8]) demo_bms = None"
  using daly_soc_past_frame [OF demo_bms_ready(1,2)] by simp

lemma daly_temp_frame_overflow_witness:
  "daly_value demo_crc8 (\<lambda>_. None) True (daly_answer demo_crc8 0x96 [2, 65, 65, 65, 65, 65, 65, 65]) demo_bms = None"
  using daly_temp_frame_overflow [OF demo_bms_ready(1,2), of "[65, 65, 65, 65, 65, 65, 65]" demo_crc8 "\<lambda>_. None" True "[]"]
  by simp

end
