(* ===== verification/Webhook.thy ===== *)
theory Webhook
  imports Mqtt
begin

text \<open>
  \<open>libs/common/services/webhook/webhook.c\<close>: messages to a web server over one TCP connection:
  resolution, connection, sending, the status of the replies, timeouts.  The pico mutex is not
  recursive: taking it while it is held never returns, which is None here.  A definition is one
  operation that no callback of lwIP interrupts; the build runs the callbacks in the background, and
  one that takes the lock while an interrupted operation holds it waits for ever, which is outside
  these definitions: no lemma here says that the service cannot hang.  lwIP and the clock are
  parameters; \<open>tcp_out\<close> records the bytes accepted by \<open>altcp_write\<close>.
\<close>

definition WH_DEFAULT_PORT :: int where "WH_DEFAULT_PORT = 80"
definition PACKET_BUFF_SIZE :: nat where "PACKET_BUFF_SIZE = 512"
definition WH_PAYLOAD_MAX_SIZE :: nat where "WH_PAYLOAD_MAX_SIZE = 384"
definition HTTP_REPLY_SIZE :: nat where "HTTP_REPLY_SIZE = 32"
definition WH_IP_TIMEOUT_MS :: u64 where "WH_IP_TIMEOUT_MS = 20000"

datatype tcp_state = TCP_DISCONNECTED | TCP_CONNECTING | TCP_CONNECTED

record webhook =
  wh_addr_str :: string
  wh_endpoint :: string
  wh_port :: int
  wh_ip_resolve :: ip_resolve_state
  wh_last_send :: u64
  wh_conn_count :: u32
  wh_send_count :: u32
  wh_recv_count :: u32
  wh_last_reply :: u32
  wh_sending :: bool
  keep_open :: bool
  wh_tcp_state :: tcp_state
  tcp_conn :: bool
  wh_errf :: bool
  wh_buff :: string
  wh_payload :: string
  buff_p :: nat
  buff_len :: nat
  wh_locked :: bool
  wh_debug :: u32
  wh_was_connected :: bool
  tcp_out :: "string list"

text \<open>The free TCP buffer, the answers of lwIP, and the clock by reading.\<close>

record wh_env =
  wh_sndbuf :: nat
  wh_write :: int
  wh_new :: bool
  wh_bind :: int
  wh_connect :: int
  wh_dns :: int
  wh_wifi :: bool
  wh_hostname :: string
  wh_clock :: "nat \<Rightarrow> u64"

definition wh_later :: "nat \<Rightarrow> wh_env \<Rightarrow> wh_env" where
  "wh_later k e = e\<lparr>wh_clock := (\<lambda>i. wh_clock e (k + i))\<rparr>"

section \<open>The lock\<close>

definition WH_LOCK :: "webhook \<Rightarrow> webhook option" where
  "WH_LOCK wh = (if wh_locked wh then None else Some (wh\<lparr>wh_locked := True\<rparr>))"

definition WH_UNLOCK :: "webhook \<Rightarrow> webhook" where
  "WH_UNLOCK wh = wh\<lparr>wh_locked := False\<rparr>"

text \<open>A section between \<open>WH_LOCK\<close> and \<open>WH_UNLOCK\<close>.\<close>

definition wh_section :: "(webhook \<Rightarrow> webhook) \<Rightarrow> webhook \<Rightarrow> webhook option" where
  "wh_section f wh = map_option (\<lambda>wh. WH_UNLOCK (f wh)) (WH_LOCK wh)"

section \<open>Sending\<close>

definition wh_tcp_send :: "wh_env \<Rightarrow> webhook \<Rightarrow> webhook option" where
  "wh_tcp_send e = wh_section (\<lambda>wh.
     let data_len = buff_len wh - buff_p wh in
     if \<not> wh_sending wh \<or> wh_sndbuf e = 0 \<or> data_len = 0 then wh
     else
       (let send_len = min (wh_sndbuf e) data_len in
        if wh_write e = 0 then
          (let wh = wh\<lparr>tcp_out := tcp_out wh @ [take send_len (drop (buff_p wh) (wh_buff wh))],
                 buff_p := buff_p wh + send_len\<rparr>
           in if buff_p wh \<ge> buff_len wh
              then wh\<lparr>wh_sending := False, buff_p := 0, buff_len := 0, wh_send_count := wh_send_count wh + 1\<rparr>
              else wh)
        else wh))"

text \<open>
  Closing and aborting.  \<open>wh_errf\<close> tells whether \<open>wh_tcp_err_cb\<close> is registered for the connection.
  \<open>altcp_abort\<close> of such a connection reports \<open>ERR_ABRT\<close> to it, as lwIP documents; the callback takes the
  lock, which \<open>wh_abort\<close> holds, so that \<open>wh_abort\<close> does not return.  \<open>webhook_disconnect\<close> takes the
  callbacks out first.
\<close>

definition webhook_disconnect :: "webhook \<Rightarrow> webhook option" where
  "webhook_disconnect = wh_section (\<lambda>wh.
     wh\<lparr>tcp_conn := False, wh_errf := False, buff_p := 0, buff_len := 0, wh_tcp_state := TCP_DISCONNECTED,
       wh_ip_resolve := IP_NOT_RESOLEVED\<rparr>)"

definition wh_tcp_err_cb :: "webhook \<Rightarrow> webhook option" where
  "wh_tcp_err_cb wh =
     (case wh_section (\<lambda>wh. wh\<lparr>tcp_conn := False, wh_errf := False\<rparr>) wh of
        None \<Rightarrow> None | Some wh \<Rightarrow> webhook_disconnect wh)"

definition wh_abort :: "webhook \<Rightarrow> webhook option" where
  "wh_abort wh =
     (case WH_LOCK wh of
        None \<Rightarrow> None
      | Some wh \<Rightarrow>
          (case if tcp_conn wh \<and> wh_errf wh then wh_tcp_err_cb wh else Some wh of
             None \<Rightarrow> None
           | Some wh \<Rightarrow> Some (WH_UNLOCK (wh\<lparr>tcp_conn := False, wh_errf := False, wh_tcp_state := TCP_DISCONNECTED\<rparr>))))"

section \<open>Replies\<close>

text \<open>
  The outer loop of \<open>wh_parse_http_reply\<close> over the chain of buffers: what is copied of the first
  line to \<open>reply_line\<close>, and whether the loop was left within a buffer.
\<close>

fun reply_scan :: "string list \<Rightarrow> string \<Rightarrow> string \<times> bool" where
  "reply_scan [] line = (line, False)"
| "reply_scan ([] # ps) line = reply_scan ps line"
| "reply_scan ((c # cs) # ps) line =
     (if c = CHR 0x0A \<or> c = CHR 0x0D then (line, True)
      else if length line \<ge> HTTP_REPLY_SIZE - 1 then (line, True)
      else reply_scan (cs # ps) (line @ [c]))"

definition wh_parse_http_reply :: "string list \<Rightarrow> int" where
  "wh_parse_http_reply p =
     (let (line, within) = reply_scan p [] in
      if within \<and> length line < HTTP_REPLY_SIZE - 1 then
        (case strtok_all (CHR '' '') (Some (takeWhile (\<lambda>c. c \<noteq> CHR 0x00) line)) of
           _ # tok # _ \<Rightarrow> atoi tok | _ \<Rightarrow> -1)
      else -1)"

definition wh_parse_incoming :: "string list \<Rightarrow> webhook \<Rightarrow> (int \<times> webhook) option" where
  "wh_parse_incoming p wh =
     (case wh_section (\<lambda>wh. wh\<lparr>wh_recv_count := wh_recv_count wh + 1\<rparr>) wh of
        None \<Rightarrow> None
      | Some wh \<Rightarrow>
          (let hcode = wh_parse_http_reply p in
           if hcode \<ge> 0 then
             map_option (\<lambda>wh. (0, wh)) (wh_section (\<lambda>wh. wh\<lparr>wh_last_reply := word_of_int hcode\<rparr>) wh)
           else Some (0, wh)))"

text \<open>\<open>p\<close> is None when the remote side has closed the connection.\<close>

definition wh_tcp_recv_cb :: "string list option \<Rightarrow> int \<Rightarrow> webhook \<Rightarrow> (int \<times> webhook) option" where
  "wh_tcp_recv_cb p err wh =
     (case p of
        None \<Rightarrow> map_option (\<lambda>wh. (0, wh)) (webhook_disconnect wh)
      | Some ps \<Rightarrow>
          if err \<noteq> 0 then Some (err, wh)
          else (case wh_parse_incoming ps wh of
             None \<Rightarrow> None
           | Some (ret, wh) \<Rightarrow>
               if ret \<noteq> 0 then map_option (\<lambda>wh. (0, wh)) (webhook_disconnect wh) else Some (0, wh)))"

section \<open>Connecting\<close>

definition wh_tcp_connect_cb :: "wh_env \<Rightarrow> int \<Rightarrow> webhook \<Rightarrow> (int \<times> webhook) option" where
  "wh_tcp_connect_cb e err wh =
     (if err \<noteq> 0 then Some (err, wh)
      else map_option (\<lambda>wh. (0, wh)) (wh_section (\<lambda>wh.
        wh\<lparr>wh_tcp_state := TCP_CONNECTED, wh_conn_count := wh_conn_count wh + 1, wh_last_send := wh_clock e 0\<rparr>) wh))"

definition webhook_connect :: "wh_env \<Rightarrow> webhook \<Rightarrow> webhook option" where
  "webhook_connect e wh =
     (case wh_section id wh of
        None \<Rightarrow> None
      | Some wh \<Rightarrow>
          (let now = wh_clock e 0 in
           if wh_ip_resolve wh \<noteq> IP_RESOLVED then Some wh
           else case wh_tcp_state wh of
             TCP_DISCONNECTED \<Rightarrow>
               (case wh_abort wh of
                  None \<Rightarrow> None
                | Some wh \<Rightarrow>
                    wh_section (\<lambda>wh.
                      let wh = wh\<lparr>tcp_conn := wh_new e, wh_errf := False\<rparr> in
                      if wh_new e \<and> wh_bind e = 0 \<and> wh_connect e = 0
                      then wh\<lparr>wh_errf := True, wh_tcp_state := TCP_CONNECTING, wh_last_send := now\<rparr> else wh) wh)
           | TCP_CONNECTING \<Rightarrow> if now - wh_last_send wh > WH_IP_TIMEOUT_MS then wh_abort wh else Some wh
           | TCP_CONNECTED \<Rightarrow> Some wh))"

definition webhook_connected :: "webhook option \<Rightarrow> bool" where
  "webhook_connected c = (case c of None \<Rightarrow> False | Some wh \<Rightarrow> wh_tcp_state wh = TCP_CONNECTED)"

text \<open>The texts of \<open>webhook_send\<close>: \<open>WH_PAYLOAD_TEMPLATE\<close> and \<open>WH_HTTP_HEAD\<close>.\<close>

definition wh_message :: "wh_env \<Rightarrow> string \<Rightarrow> string" where
  "wh_message e message =
     take (WH_PAYLOAD_MAX_SIZE - 1) (''{ \"message\":\"('' @ wh_hostname e @ '') '' @ message @ ''\"}'')"

definition wh_crlf :: string where "wh_crlf = [CHR 0x0D, CHR 0x0A]"

definition wh_http_head :: "nat \<Rightarrow> webhook \<Rightarrow> string" where
  "wh_http_head len wh =
     ''POST '' @ wh_endpoint wh @ '' HTTP/1.1'' @ wh_crlf @
     ''Host: '' @ wh_addr_str wh @ '':'' @ int_str (wh_port wh) @ wh_crlf @
     ''Content-Length: '' @ nat_str len @ wh_crlf @
     (if keep_open wh then [] else ''Connection: close'' @ wh_crlf) @
     ''User-Agent: PicoW'' @ wh_crlf @ ''Content-Type: application/json'' @ wh_crlf @ wh_crlf"

text \<open>
  The critical section of \<open>webhook_send\<close> for a connected service; the flag says whether the
  request was put into the buffer.
\<close>

definition wh_prepare :: "wh_env \<Rightarrow> string \<Rightarrow> webhook \<Rightarrow> bool \<times> webhook" where
  "wh_prepare e message wh =
     (let payload = wh_message e message;
          head = take (PACKET_BUFF_SIZE - 1) (wh_http_head (length payload) wh);
          wh = wh\<lparr>wh_payload := payload, wh_buff := head, buff_len := length head\<rparr>
      in if buff_len wh + length payload \<ge> PACKET_BUFF_SIZE then (False, wh)
         else (True, wh\<lparr>wh_buff := head @ payload, buff_len := length head + length payload, wh_sending := True,
                 wh_last_send := wh_clock e 0\<rparr>))"

definition webhook_send :: "wh_env \<Rightarrow> string \<Rightarrow> webhook option \<Rightarrow> (int \<times> webhook option) option" where
  "webhook_send e message c =
     (case c of
        None \<Rightarrow> Some (-1, None)
      | Some wh \<Rightarrow>
          (case WH_LOCK wh of
             None \<Rightarrow> None
           | Some wh \<Rightarrow>
               if wh_sending wh then Some (-1, Some (WH_UNLOCK wh))
               else if wh_tcp_state wh \<noteq> TCP_CONNECTED then
                 (case webhook_connect (wh_later 1 e) wh of
                    None \<Rightarrow> None
                  | Some wh \<Rightarrow> Some (-1, Some (WH_UNLOCK wh)))
               else
                 (case wh_prepare e message wh of (ok, wh) \<Rightarrow>
                    if \<not> ok then Some (-1, Some (WH_UNLOCK wh))
                    else map_option (\<lambda>wh. (0, Some wh)) (wh_tcp_send e (WH_UNLOCK wh)))))"

definition wh_server_found :: "webhook \<Rightarrow> webhook option" where
  "wh_server_found = wh_section (\<lambda>wh. wh\<lparr>wh_ip_resolve := IP_RESOLVED\<rparr>)"

definition WH_ERR_INPROGRESS :: int where "WH_ERR_INPROGRESS = -5"

definition webhook_resolve :: "wh_env \<Rightarrow> webhook \<Rightarrow> webhook option" where
  "webhook_resolve e wh =
     (case wh_section id wh of
        None \<Rightarrow> None
      | Some wh \<Rightarrow>
          (case wh_ip_resolve wh of
             IP_NOT_RESOLEVED \<Rightarrow>
               if wh_dns e = WH_ERR_INPROGRESS then
                 wh_section (\<lambda>wh. wh\<lparr>wh_last_send := wh_clock e 1, wh_ip_resolve := IP_RESOLVING\<rparr>) wh
               else if wh_dns e = 0 then wh_section (\<lambda>wh. wh\<lparr>wh_ip_resolve := IP_RESOLVED\<rparr>) wh
               else Some wh
           | IP_RESOLVING \<Rightarrow>
               if wh_clock e 0 - wh_last_send wh > WH_IP_TIMEOUT_MS
               then wh_section (\<lambda>wh. wh\<lparr>wh_ip_resolve := IP_NOT_RESOLEVED\<rparr>) wh else Some wh
           | IP_RESOLVED \<Rightarrow> Some wh))"

definition webhook_timeout_check :: "wh_env \<Rightarrow> webhook \<Rightarrow> webhook option" where
  "webhook_timeout_check e = wh_section (\<lambda>wh.
     if wh_sending wh \<and> wh_clock e 0 - wh_last_send wh > WH_IP_TIMEOUT_MS
     then wh\<lparr>wh_sending := False, buff_len := 0, buff_p := 0, wh_last_reply := 0\<rparr> else wh)"

section \<open>The module\<close>

text \<open>Server, endpoint and port of the configuration; a port of one digit is ignored.\<close>

definition notify_get_config :: "string option \<Rightarrow> string option \<Rightarrow> string option \<Rightarrow> (string \<times> string \<times> int) option" where
  "notify_get_config srv ep port =
     (case (srv, ep) of
        (Some s, Some p) \<Rightarrow>
          if length s < 1 \<or> length p < 1 then None
          else
            (let port_id = (case port of Some t \<Rightarrow> if length t > 1 then atoi t else 0 | None \<Rightarrow> 0)
             in Some (s, p, if port_id = 0 then WH_DEFAULT_PORT else port_id))
      | _ \<Rightarrow> None)"

definition sys_webhook_init :: "bool \<Rightarrow> string option \<Rightarrow> string option \<Rightarrow> string option \<Rightarrow> webhook option" where
  "sys_webhook_init alloc srv ep port =
     (case notify_get_config srv ep port of
        None \<Rightarrow> None
      | Some (server, endpoint, p) \<Rightarrow>
          if \<not> alloc then None
          else Some \<lparr>wh_addr_str = server, wh_endpoint = endpoint, wh_port = p, wh_ip_resolve = IP_NOT_RESOLEVED,
              wh_last_send = 0, wh_conn_count = 0, wh_send_count = 0, wh_recv_count = 0, wh_last_reply = -1,
              wh_sending = False, keep_open = True, wh_tcp_state = TCP_DISCONNECTED, tcp_conn = False, wh_errf = False,
              wh_buff = [], wh_payload = [], buff_p = 0, buff_len = 0, wh_locked = False, wh_debug = 0,
              wh_was_connected = False, tcp_out = []\<rparr>)"

definition sys_webhook_run :: "wh_env \<Rightarrow> webhook \<Rightarrow> webhook option" where
  "sys_webhook_run e wh =
     (if \<not> wh_wifi e then
        (if wh_was_connected wh
         then map_option (\<lambda>wh. wh\<lparr>wh_was_connected := False\<rparr>) (webhook_disconnect wh) else Some wh)
      else
        (case webhook_resolve e (wh\<lparr>wh_was_connected := True\<rparr>) of
           None \<Rightarrow> None
         | Some wh \<Rightarrow>
             (case (if keep_open wh then webhook_connect (wh_later 2 e) wh else Some wh) of
                None \<Rightarrow> None
              | Some wh \<Rightarrow> webhook_timeout_check (wh_later 3 e) wh)))"

definition sys_webhook_debug_set :: "u32 \<Rightarrow> webhook \<Rightarrow> webhook" where
  "sys_webhook_debug_set lvl wh = wh\<lparr>wh_debug := lvl\<rparr>"

definition sys_webhook_reconnect :: "webhook \<Rightarrow> webhook option" where
  "sys_webhook_reconnect = webhook_disconnect"

section \<open>The status of a reply\<close>

text \<open>The first line of a byte stream, if it is ended.\<close>

definition first_line :: "string \<Rightarrow> string option" where
  "first_line s =
     (let l = takeWhile (\<lambda>c. c \<noteq> CHR 0x0A \<and> c \<noteq> CHR 0x0D) s in if length l < length s then Some l else None)"

lemma reply_scan_concat: "reply_scan ps line = reply_scan [concat ps] line"
proof (induction ps line rule: reply_scan.induct)
  case (3 c cs ps line)
  then show ?case by (auto split: if_splits)
qed simp_all

lemma reply_scan_line:
  "length line \<le> 31 \<Longrightarrow>
   reply_scan [s] line =
     (case first_line s of
        Some l \<Rightarrow> (line @ take (31 - length line) l, True)
      | None \<Rightarrow> (line @ take (31 - length line) s, 31 < length line + length s))"
proof (induction s arbitrary: line)
  case (Cons c s)
  show ?case
  proof (cases "c = CHR 0x0A \<or> c = CHR 0x0D")
    case True
    then show ?thesis by (auto simp: first_line_def)
  next
    case c: False
    then have f: "first_line (c # s) = map_option ((#) c) (first_line s)" by (simp add: first_line_def Let_def)
    show ?thesis
    proof (cases "length line = 31")
      case True
      then show ?thesis using c by (simp add: f HTTP_REPLY_SIZE_def split: option.split)
    next
      case False
      then have l: "31 - length line = Suc (30 - length line)" using Cons.prems by simp
      show ?thesis using Cons c False by (auto simp: f l HTTP_REPLY_SIZE_def split: option.split)
    qed
  qed
qed (simp add: first_line_def)

text \<open>
  The status of a reply is read across buffers: however the reply is split, the code is the number
  in the second word of the first line, if that line is ended and shorter than 31 characters; for
  a longer line, as that of most error replies, there is none.
\<close>

lemma wh_reply_code:
  "wh_parse_http_reply ps =
    (case first_line (concat ps) of
       Some l \<Rightarrow>
         if length l < 31 then
           (case strtok_all (CHR '' '') (Some (takeWhile (\<lambda>c. c \<noteq> CHR 0x00) l)) of _ # tok # _ \<Rightarrow> atoi tok | _ \<Rightarrow> -1)
         else -1
     | None \<Rightarrow> -1)"
proof -
  have "reply_scan ps [] = reply_scan [concat ps] []" by (rule reply_scan_concat)
  also have "\<dots> = (case first_line (concat ps) of Some l \<Rightarrow> (take 31 l, True)
      | None \<Rightarrow> (take 31 (concat ps), 31 < length (concat ps)))"
    by (subst reply_scan_line) (simp_all split: option.split)
  finally show ?thesis
    by (cases "first_line (concat ps)") (simp_all add: wh_parse_http_reply_def HTTP_REPLY_SIZE_def min_def not_le)
qed

lemma http_200: "wh_parse_http_reply [''HTTP/1.1 2'', ''00 OK'', [CHR 0x0D, CHR 0x0A]] = 200"
  and http_500: "wh_parse_http_reply [''HTTP/1.1 500 Internal Server Error'', [CHR 0x0D, CHR 0x0A]] = -1"
  by code_simp+

section \<open>A request\<close>

definition wh_request :: "wh_env \<Rightarrow> string \<Rightarrow> webhook \<Rightarrow> string" where
  "wh_request e message wh = wh_http_head (length (wh_message e message)) wh @ wh_message e message"

definition wh_idle :: "webhook \<Rightarrow> bool" where
  "wh_idle wh \<longleftrightarrow> \<not> wh_locked wh \<and> \<not> wh_sending wh \<and> buff_p wh = 0"

text \<open>
  C34.  A message goes out as one HTTP request: for a connected, idle service and a request of less than
  512 bytes, the head with the true length of the body and the body are handed to TCP as far as
  its free space goes; the service stays busy exactly if that was not everything, and the lock is
  free again.
\<close>

lemma webhook_request_sent:
  assumes "wh_idle wh" and "wh_tcp_state wh = TCP_CONNECTED" and "length (wh_request e message wh) < 512"
    and "0 < wh_sndbuf e" and "wh_write e = 0"
  shows "\<exists>wh'. webhook_send e message (Some wh) = Some (0, Some wh') \<and> \<not> wh_locked wh' \<and>
    tcp_out wh' = tcp_out wh @ [take (wh_sndbuf e) (wh_request e message wh)] \<and>
    (wh_sending wh' \<longleftrightarrow> wh_sndbuf e < length (wh_request e message wh)) \<and>
    wh_send_count wh' = wh_send_count wh + (if wh_sending wh' then 0 else 1)"
proof -
  define r where "r = wh_request e message wh"
  let ?h = "wh_http_head (length (wh_message e message)) wh"
  have r: "r = ?h @ wh_message e message" by (simp add: r_def wh_request_def)
  define w where "w = wh\<lparr>wh_payload := wh_message e message, wh_buff := r, buff_len := length r, wh_sending := True,
    wh_last_send := wh_clock e 0, wh_locked := False\<rparr>"
  have h: "wh_http_head n (wh\<lparr>wh_locked := True\<rparr>) = wh_http_head n wh" for n by (simp add: wh_http_head_def)
  have l: "length r < 512" using assms(3) by (simp add: r_def)
  have "wh_prepare e message (wh\<lparr>wh_locked := True\<rparr>) = (True, w\<lparr>wh_locked := True\<rparr>)"
    using l by (simp add: wh_prepare_def h PACKET_BUFF_SIZE_def Let_def r w_def)
  then have "webhook_send e message (Some wh) = map_option (\<lambda>wh. (0, Some wh)) (wh_tcp_send e w)"
    using assms(1,2) by (simp add: webhook_send_def WH_LOCK_def WH_UNLOCK_def wh_idle_def w_def)
  moreover have "0 < length r" by (simp add: r wh_http_head_def)
  ultimately show ?thesis
    using assms(1,4,5)
    by (auto simp: wh_tcp_send_def wh_section_def WH_LOCK_def WH_UNLOCK_def wh_idle_def w_def Let_def min_def
        simp flip: r_def)
qed

text \<open>
  Sending without asking first hangs the device: on an idle service that is not connected,
  \<open>webhook_send\<close> calls \<open>webhook_connect\<close> with the lock held, which takes it again; whatever the
  network does, it never returns.
\<close>

lemma webhook_unchecked_send_hangs:
  assumes "wh_idle wh" and "wh_tcp_state wh \<noteq> TCP_CONNECTED"
  shows "webhook_send e message (Some wh) = None"
  using assms by (simp add: webhook_send_def WH_LOCK_def wh_idle_def webhook_connect_def wh_section_def)

text \<open>
  An attempt to connect that gets no answer hangs the device: after twenty seconds the next turn
  aborts it, and the abort is reported to the service while it holds its lock.
\<close>

lemma webhook_old_attempt_hangs:
  assumes "wh_tcp_state wh = TCP_CONNECTING" and "tcp_conn wh" and "wh_errf wh" and "\<not> wh_locked wh"
    and "wh_ip_resolve wh = IP_RESOLVED" and "wh_clock e 0 - wh_last_send wh > WH_IP_TIMEOUT_MS"
  shows "webhook_connect e wh = None"
  using assms
  by (simp add: webhook_connect_def wh_section_def WH_LOCK_def WH_UNLOCK_def wh_abort_def wh_tcp_err_cb_def)

section \<open>Witnesses\<close>

definition demo_wh :: webhook where
  "demo_wh = the (sys_webhook_init True (Some ''10.0.0.2'') (Some ''/api/webhook/x'') (Some ''8123''))"

definition demo_wh_env :: "nat \<Rightarrow> wh_env" where
  "demo_wh_env n = \<lparr>wh_sndbuf = n, wh_write = 0, wh_new = True, wh_bind = 0, wh_connect = 0, wh_dns = 0, wh_wifi = True,
     wh_hostname = ''pico'', wh_clock = (\<lambda>i. 5000 + of_nat i)\<rparr>"

lemma demo_wh_init: "sys_webhook_init True (Some ''10.0.0.2'') (Some ''/api/webhook/x'') (Some ''8123'') = Some demo_wh"
proof -
  have "sys_webhook_init True (Some ''10.0.0.2'') (Some ''/api/webhook/x'') (Some ''8123'') \<noteq> None" by code_simp
  then show ?thesis by (auto simp: demo_wh_def)
qed

lemma demo_wh_idle: "wh_idle demo_wh" "wh_tcp_state demo_wh = TCP_DISCONNECTED"
  by code_simp+

lemma webhook_request_sent_witness:
  "\<exists>wh'. webhook_send (demo_wh_env 100) ''hello'' (Some (demo_wh\<lparr>wh_tcp_state := TCP_CONNECTED\<rparr>)) = Some (0, Some wh') \<and>
    wh_sending wh' \<and> map length (tcp_out wh') = [100]"
proof -
  let ?w = "demo_wh\<lparr>wh_tcp_state := TCP_CONNECTED\<rparr>"
  have d: "wh_addr_str demo_wh = ''10.0.0.2''" "wh_endpoint demo_wh = ''/api/webhook/x''" "wh_port demo_wh = 8123"
    "keep_open demo_wh" "tcp_out ?w = []" by code_simp+
  have "length (wh_request (demo_wh_env 100) ''hello'' ?w) = 151"
    by (simp add: wh_request_def wh_http_head_def wh_message_def wh_crlf_def demo_wh_env_def d int_str_def nat_str.simps
        WH_PAYLOAD_MAX_SIZE_def)
  note l = this d(5)
  have "wh_idle ?w" using demo_wh_idle by (simp add: wh_idle_def)
  then show ?thesis
    using webhook_request_sent [of ?w "demo_wh_env 100" "''hello''"] l by (auto simp: demo_wh_env_def)
qed

lemma webhook_unchecked_send_hangs_witness:
  "webhook_send (demo_wh_env 1000) ''hello'' (Some demo_wh) = None"
  using webhook_unchecked_send_hangs [OF demo_wh_idle(1)] demo_wh_idle(2) by simp

text \<open>The service after a turn that found the server and started to connect; then twenty-one silent seconds.\<close>

lemma webhook_old_attempt_hangs_witness:
  "map_option wh_tcp_state (sys_webhook_run (demo_wh_env 50) demo_wh) = Some TCP_CONNECTING"
  "Option.bind (sys_webhook_run (demo_wh_env 50) demo_wh)
     (sys_webhook_run ((demo_wh_env 50)\<lparr>wh_clock := (\<lambda>i. 26100 + of_nat i)\<rparr>)) = None"
  by code_simp+

end
