(* ===== verification/Solar.thy ===== *)
theory Solar
  imports VoltronicUsb DalyBms Webhook
begin

text \<open>
  The solar application: \<open>app/solar/mqtt_solar.c\<close> (the report of inverter, battery and chip over
  MQTT), \<open>wh_notify.c\<close> (the notification) and the main loop of \<open>main.c\<close>, over the inverter of
  \<open>VoltronicUsb\<close>, the battery of \<open>DalyBms\<close>, the MQTT service and the webhook.
\<close>

section \<open>The report\<close>

definition SOLAR_DATA_LEN :: nat where "SOLAR_DATA_LEN = 512"

record solar_context =
  so_mppt :: mqtt_mppt_data
  so_bms :: mqtt_bms_data
  internal_temp :: f32
  so_payload :: string
  so_component :: mqtt_component

text \<open>
  The component of the chip temperature.  Its \<open>module\<close> is left NULL, which the C library prints
  as \<open>(null)\<close>.
\<close>

definition solar_component :: mqtt_component where
  "solar_component = \<lparr>mc_module = ''(null)'', mc_name = ''Chip_Temperature'', platform = ''sensor'',
     dev_class = Some ''temperature'', unit = Some (map char_of [194::nat, 176] @ ''C''),
     value_template = ''{{value_json['' @ [CHR 0x27] @ ''in_temp'' @ [CHR 0x27] @ '']}}'',
     payload_on = None, payload_off = None, mc_state_topic = None, mc_id = 0, force = False, mc_last_send = 0\<rparr>"

definition mqtt_mppt_discovery_add ::
  "solar_context \<Rightarrow> 'h mqtt_context option \<Rightarrow> int \<times> solar_context \<times> 'h mqtt_context option" where
  "mqtt_mppt_discovery_add s c =
     (let (r, cmp, c) = mqtt_msg_component_register solar_component c in (r, s\<lparr>so_component := cmp\<rparr>, c))"

definition mqtt_solar_init :: "solar_context \<Rightarrow> 'h mqtt_context option \<Rightarrow> solar_context \<times> 'h mqtt_context option" where
  "mqtt_solar_init s c = snd (mqtt_mppt_discovery_add s c)"

definition fld :: "string \<Rightarrow> string \<Rightarrow> string" where
  "fld key v = '',\"'' @ key @ ''\":'' @ v"

definition solar_parts :: "string \<Rightarrow> solar_context \<Rightarrow> string list" where
  "solar_parts time s =
     (let m = so_mppt s; b = so_bms s in
      [''{'', ''\"time\":\"'' @ time @ ''\"'',
       fld ''in_temp'' (fmt_2f (internal_temp s)),
       fld ''mppt_ac_out_v'' (fmt_2f (md_ac_out_v m)), fld ''mppt_ac_out_hz'' (fmt_2f (md_ac_out_hz m)),
       fld ''mppt_ac_out_va'' (int_str (md_ac_out_va m)), fld ''mppt_ac_out_w'' (int_str (md_ac_out_w m)),
       fld ''mppt_out_load_p'' (int_str (md_out_load_p m)), fld ''mppt_bus_v'' (int_str (md_bus_v m)),
       fld ''mppt_bat_v'' (fmt_2f (md_bat_v m)), fld ''mppt_bat_charge_a'' (int_str (md_bat_charge_a m)),
       fld ''mppt_bat_capacity_p'' (int_str (md_bat_capacity_p m)), fld ''mppt_sink_temp'' (int_str (md_sink_temp m)),
       fld ''mppt_pv_in_bat_a'' (fmt_2f (md_pv_in_bat_a m)), fld ''mppt_pv_in_v'' (fmt_2f (md_pv_in_v m)),
       fld ''mppt_bat_discharge_a'' (int_str (md_bat_discharge_a m)),
       fld ''bms_total_v'' (fmt_2f (mb_bat_v b)), fld ''bms_current_a'' (fmt_2f (mb_bat_i b)),
       fld ''bms_soc_p'' (fmt_2f (mb_soc_p b)), fld ''bms_life'' (int_str (uint (mb_bms_life b))),
       fld ''bms_remain_capacity_mah'' (int_str (int_of_word (mb_remain_capacity b))), ''}''])"

text \<open>
  \<open>mqtt_data_send\<close>: a forced report is printed anew; an early return of the macros leaves the
  full buffer behind.  Whatever the buffer holds is published, forced or not.  \<open>time\<close> is the text
  of \<open>get_current_time_str\<close>.
\<close>

definition mqtt_data_send ::
  "lwip \<Rightarrow> string \<Rightarrow> bool \<Rightarrow> solar_context \<times> 'h mqtt_context \<Rightarrow> solar_context \<times> 'h mqtt_context" where
  "mqtt_data_send e time frc st =
     (let (s, ctx) = st;
          whole = (build_msg SOLAR_DATA_LEN (solar_parts time s) \<noteq> None);
          s' = (if frc then s\<lparr>so_payload := take (SOLAR_DATA_LEN - 1) (concat (solar_parts time s))\<rparr> else s)
      in if frc \<and> \<not> whole then (s', ctx)
         else if so_payload s' \<noteq> [] then (s', snd (mqtt_msg_publish e None (so_payload s') frc ctx))
         else (s', ctx))"

definition mqtt_solar_run ::
  "lwip \<Rightarrow> string \<Rightarrow> bool \<Rightarrow> solar_context \<times> 'h mqtt_context \<Rightarrow> solar_context \<times> 'h mqtt_context" where
  "mqtt_solar_run = mqtt_data_send"

text \<open>
  \<open>memcmp\<close> compares all bytes of the structs; \<open>pad\<close> says whether they differ in a byte that is no
  part of a value here (padding, the sign of a zero).
\<close>

definition mqtt_data_mppt ::
  "lwip \<Rightarrow> string \<Rightarrow> bool \<Rightarrow> mqtt_mppt_data \<Rightarrow> solar_context \<times> 'h mqtt_context \<Rightarrow> solar_context \<times> 'h mqtt_context" where
  "mqtt_data_mppt e time pad d st =
     (let (s, ctx) = st in
      if so_mppt s \<noteq> d \<or> pad then mqtt_solar_run e time True (s\<lparr>so_mppt := d\<rparr>, ctx)
      else mqtt_solar_run e time False (s, ctx))"

definition mqtt_data_bms ::
  "lwip \<Rightarrow> string \<Rightarrow> bool \<Rightarrow> mqtt_bms_data \<Rightarrow> solar_context \<times> 'h mqtt_context \<Rightarrow> solar_context \<times> 'h mqtt_context" where
  "mqtt_data_bms e time pad d st =
     (let (s, ctx) = st in
      if so_bms s \<noteq> d \<or> pad then mqtt_solar_run e time True (s\<lparr>so_bms := d\<rparr>, ctx)
      else mqtt_solar_run e time False (s, ctx))"

definition mqtt_data_internal_temp ::
  "lwip \<Rightarrow> string \<Rightarrow> f32 \<Rightarrow> solar_context \<times> 'h mqtt_context \<Rightarrow> solar_context \<times> 'h mqtt_context" where
  "mqtt_data_internal_temp e time temp st =
     (let (s, ctx) = st in
      if f32_ne (internal_temp s) temp then mqtt_solar_run e time True (s\<lparr>internal_temp := temp\<rparr>, ctx)
      else mqtt_solar_run e time False (s, ctx))"

section \<open>The notification\<close>

definition WH_SEND_DELAY_MS :: u64 where "WH_SEND_DELAY_MS = 5000"

text \<open>The state is the static \<open>last_send\<close> and the webhook service.\<close>

definition wh_notify_send ::
  "wh_env \<Rightarrow> u64 \<Rightarrow> f32 \<Rightarrow> u64 \<times> webhook option \<Rightarrow> (u64 \<times> webhook option) option" where
  "wh_notify_send e now temp st =
     (let (last, wh) = st in
      if \<not> webhook_connected wh then Some (last, wh)
      else if now - last > WH_SEND_DELAY_MS then
        (case webhook_send e (take (WH_PAYLOAD_MAX_SIZE - 1) (''temperature: '' @ fmt_2f temp)) wh of
           None \<Rightarrow> None
         | Some (_, wh) \<Rightarrow> Some (now, wh))
      else Some (last, wh))"

section \<open>The main loop\<close>

record 'h solar_app =
  sa_mppt :: mppt_context
  sa_bms :: bms_context
  sa_report :: solar_context
  sa_mqtt :: "'h mqtt_context"
  sa_notify :: "u64 \<times> webhook option"

text \<open>
  \<open>mppt_send_mqtt_data\<close> and \<open>bms_send_mqtt_data\<close> call the report at once: the data that an
  event has added to the lists of \<open>VoltronicUsb\<close> and \<open>DalyBms\<close> go to it in their order.
\<close>

definition solar_usb_event ::
  "lwip \<Rightarrow> string \<Rightarrow> bool \<Rightarrow> tm \<Rightarrow> usb_event \<Rightarrow> string \<Rightarrow> 'h solar_app \<Rightarrow> 'h solar_app" where
  "solar_usb_event e time pad g event data app =
     (let m = mppt_usb_callback g event data (sa_mppt app);
          (s, mq) = fold (mqtt_data_mppt e time pad) (drop (length (mqtt_out (sa_mppt app))) (mqtt_out m))
                      (sa_report app, sa_mqtt app)
      in app\<lparr>sa_mppt := m, sa_report := s, sa_mqtt := mq\<rparr>)"

definition solar_bt_event ::
  "lwip \<Rightarrow> string \<Rightarrow> bool \<Rightarrow> (u8 list \<Rightarrow> u8) \<Rightarrow> (u32 \<Rightarrow> u8 list option) \<Rightarrow> bool \<Rightarrow> int \<Rightarrow> bt_event
   \<Rightarrow> 'h solar_app \<Rightarrow> 'h solar_app option" where
  "solar_bt_event e time pad crc8 svc alloc idx event app =
     (case daly_bt_event crc8 svc alloc idx event (sa_bms app) of
        None \<Rightarrow> None
      | Some b \<Rightarrow>
          (let (s, mq) = fold (mqtt_data_bms e time pad) (drop (length (bms_mqtt (sa_bms app))) (bms_mqtt b))
                           (sa_report app, sa_mqtt app)
           in Some (app\<lparr>sa_bms := b, sa_report := s, sa_mqtt := mq\<rparr>)))"

text \<open>
  What one turn of the loop of \<open>main\<close> reads: \<open>common\<close> is \<open>system_common_run\<close>, \<open>temp\<close> the chip
  temperature, \<open>send\<close> and \<open>wr\<close> the answers of the USB and Bluetooth services.
\<close>

record 'h solar_turn_env =
  st_common :: "'h solar_app \<Rightarrow> 'h solar_app option"
  st_lwip :: lwip
  st_time :: string
  st_temp :: f32
  st_now :: u64
  st_tz :: "tm option"
  st_send :: int
  st_crc8 :: "u8 list \<Rightarrow> u8"
  st_wr :: int
  st_wh :: wh_env

definition internal_temp_query :: "'h solar_turn_env \<Rightarrow> 'h solar_app \<Rightarrow> 'h solar_app" where
  "internal_temp_query e app =
     (let (s, mq) = mqtt_data_internal_temp (st_lwip e) (st_time e) (st_temp e) (sa_report app, sa_mqtt app)
      in app\<lparr>sa_report := s, sa_mqtt := mq\<rparr>)"

text \<open>The turn after \<open>system_common_run\<close>, and the whole turn.\<close>

definition solar_queries :: "bool \<Rightarrow> bool \<Rightarrow> 'h solar_turn_env \<Rightarrow> 'h solar_app \<Rightarrow> 'h solar_app option" where
  "solar_queries has_solar has_bms e app =
     (let app = internal_temp_query e app in
      case (if has_solar then mppt_solar_query (st_now e) (st_tz e) (st_send e) (sa_mppt app)
            else Some (sa_mppt app)) of
        None \<Rightarrow> None
      | Some m \<Rightarrow>
          (let b = (if has_bms then bms_solar_query (st_crc8 e) (st_now e) (st_wr e) (sa_bms app) else sa_bms app) in
           case wh_notify_send (st_wh e) (st_now e) (st_temp e) (sa_notify app) of
             None \<Rightarrow> None
           | Some n \<Rightarrow> Some (app\<lparr>sa_mppt := m, sa_bms := b, sa_notify := n\<rparr>)))"

definition solar_main_turn :: "bool \<Rightarrow> bool \<Rightarrow> 'h solar_turn_env \<Rightarrow> 'h solar_app \<Rightarrow> 'h solar_app option" where
  "solar_main_turn has_solar has_bms e app =
     (case st_common e app of None \<Rightarrow> None | Some app \<Rightarrow> solar_queries has_solar has_bms e app)"

section \<open>The report follows the data\<close>

definition solar_report :: "string \<Rightarrow> solar_context \<Rightarrow> string" where
  "solar_report time s = concat (solar_parts time s)"

text \<open>The MQTT service takes a message now.\<close>

definition solar_accepts :: "lwip \<Rightarrow> string \<Rightarrow> 'h mqtt_context \<Rightarrow> bool" where
  "solar_accepts e m ctx \<longleftrightarrow> mq_state ctx = MQTT_CLIENT_CONNECTED \<and> mqtt_is_connected_ctx e ctx \<and>
     length m \<le> max_payload_size ctx \<and> filter_pkt_count ctx < max_ppm ctx \<and> lw_publish e (state_topic ctx) m = 0"

lemma publish_accepted:
  "solar_accepts e m ctx \<Longrightarrow> wire (snd (mqtt_msg_publish e None m f ctx)) = wire ctx @ [(state_topic ctx, m)]"
  by (auto simp: solar_accepts_def mqtt_msg_publish_cases pub_refused_def mqtt_msg_send_def mqtt_is_connected_ctx_def
      filter_after_def)

lemma data_send_forced:
  assumes "length (solar_report time s) < SOLAR_DATA_LEN"
  shows "mqtt_data_send e time True (s, ctx) =
    (s\<lparr>so_payload := solar_report time s\<rparr>, snd (mqtt_msg_publish e None (solar_report time s) True ctx))"
proof -
  have "build_msg SOLAR_DATA_LEN (solar_parts time s) = Some (solar_report time s)"
    using assms by (simp add: build_msg_whole solar_report_def)
  moreover have "solar_report time s \<noteq> []" by (simp add: solar_report_def solar_parts_def Let_def)
  ultimately show ?thesis using assms by (simp add: mqtt_data_send_def Let_def flip: solar_report_def)
qed

lemma data_send_unforced:
  "so_payload s \<noteq> [] \<Longrightarrow>
   mqtt_data_send e time False (s, ctx) = (s, snd (mqtt_msg_publish e None (so_payload s) False ctx))"
  by (simp add: mqtt_data_send_def)

section \<open>From the USB wire to the MQTT wire\<close>

lemma event_silent:
  assumes "mqtt_out (mppt_usb_callback g ev d (sa_mppt app)) = mqtt_out (sa_mppt app)"
  shows "solar_usb_event e time pad g ev d app = app\<lparr>sa_mppt := mppt_usb_callback g ev d (sa_mppt app)\<rparr>"
  using assms by (simp add: solar_usb_event_def Let_def)

lemma pieces_silent:
  assumes "length (cmd_buff (sa_mppt app)) = CMD_BUF_SIZE" and "cmd_buf_len (sa_mppt app) + length (concat ds) < CMD_BUF_SIZE"
    and "CMD_END_CHAR \<notin> set (concat ds)"
  shows "fold (\<lambda>d. solar_usb_event e time pad g HID_REPORT d) ds app =
    app\<lparr>sa_mppt := fold (\<lambda>d. mppt_usb_callback g HID_REPORT d) ds (sa_mppt app)\<rparr>"
  using assms
proof (induction ds arbitrary: app)
  case (Cons d ds)
  have f: "mppt_usb_callback g HID_REPORT d (sa_mppt app) = fed d (sa_mppt app)" using Cons.prems by (simp add: report_feeds)
  then have "solar_usb_event e time pad g HID_REPORT d app = app\<lparr>sa_mppt := fed d (sa_mppt app)\<rparr>"
    using event_silent [where g = g and ev = HID_REPORT and d = d and app = app] by (simp add: fed_def)
  moreover have "length (cmd_buff (fed d (sa_mppt app))) = CMD_BUF_SIZE"
    "cmd_buf_len (fed d (sa_mppt app)) = cmd_buf_len (sa_mppt app) + length d"
    using Cons.prems by (simp_all add: fed_def)
  ultimately show ?case using Cons f by simp
qed simp

lemma cstr_tl: "cstr s \<noteq> [] \<Longrightarrow> cstr (drop 1 s) = tl (cstr s)"
  by (cases s) (auto simp: cstr_def split: if_splits)

lemma cstr_whole: "CHR 0x00 \<notin> set s \<Longrightarrow> cstr s = s"
  by (simp add: cstr_def takeWhile_whole)


section \<open>A report that was refused\<close>

text \<open>
  A change is not lost when MQTT refuses its report: the report stays in the buffer, and the next
  unchanged reading of the chip temperature, which every turn of the main loop makes, publishes
  exactly this report as soon as the service accepts it.
\<close>

lemma solar_report_retried:
  assumes "new \<noteq> so_mppt s" and "m = solar_report time (s\<lparr>so_mppt := new\<rparr>)" and "length m < SOLAR_DATA_LEN"
    and "mqtt_data_mppt e time pad new (s, ctx) = (s1, ctx1)"
    and "\<not> f32_ne (internal_temp s) temp" and "solar_accepts e' m ctx1"
  shows "\<exists>s2 ctx2. mqtt_data_internal_temp e' time' temp (s1, ctx1) = (s2, ctx2) \<and>
    wire ctx2 = wire ctx1 @ [(state_topic ctx1, m)]"
proof -
  have s1: "s1 = s\<lparr>so_mppt := new, so_payload := m\<rparr>"
    using assms(1-4) data_send_forced [of time "s\<lparr>so_mppt := new\<rparr>" e ctx]
    by (auto simp: mqtt_data_mppt_def mqtt_solar_run_def)
  have "m \<noteq> []" unfolding assms(2) by (simp add: solar_report_def solar_parts_def Let_def)
  then have "mqtt_data_internal_temp e' time' temp (s1, ctx1) = (s1, snd (mqtt_msg_publish e' None m False ctx1))"
    using assms(5) by (simp add: s1 mqtt_data_internal_temp_def mqtt_solar_run_def data_send_unforced)
  then show ?thesis using publish_accepted [OF assms(6)] by simp
qed

section \<open>The announced topic\<close>

text \<open>
  The component of the chip temperature is announced on a topic that no report uses: with a free
  place in the table its state topic is \<open><state>/(null)/Chip_Temperature/status\<close>, every
  report goes to the state topic itself.
\<close>

lemma solar_component_topic:
  assumes "length (components ctx) < MQTT_DISCOVERY_MAX_COUNT" and "mqtt_solar_init s (Some ctx) = (s', Some ctx')"
    and "mqtt_data_send e time frc (s', ctx') = (s2, ctx2)" and "(t, m) \<in> set (drop (length (wire ctx)) (wire ctx2))"
  shows "mc_state_topic (so_component s') = Some (state_topic ctx @ ''/(null)/Chip_Temperature/status'') \<and>
    last (components ctx') = so_component s' \<and> Some t \<noteq> mc_state_topic (so_component s')"
proof -
  have c: "mc_state_topic (so_component s') = Some (state_topic ctx @ ''/(null)/Chip_Temperature/status'')"
    "last (components ctx') = so_component s'" "wire ctx' = wire ctx" "state_topic ctx' = state_topic ctx"
    using assms(1,2) by (auto simp: mqtt_solar_init_def mqtt_mppt_discovery_add_def mqtt_msg_component_register_def
        solar_component_def Let_def)
  have "wire (snd (mqtt_msg_publish e None m' f ctx')) = wire ctx' \<or>
      wire (snd (mqtt_msg_publish e None m' f ctx')) = wire ctx' @ [(state_topic ctx', m')]" for m' f
    using mqtt_msg_publish_wire [of e None m' f ctx'] by (cases "mqtt_msg_publish e None m' f ctx'") auto
  then have "wire ctx2 = wire ctx \<or> (\<exists>m'. wire ctx2 = wire ctx @ [(state_topic ctx, m')])"
    using assms(3) c(3,4) by (auto simp: mqtt_data_send_def Let_def split: if_splits)
  then have "t = state_topic ctx" using assms(4) by auto
  then show ?thesis using c by auto
qed

section \<open>A turn\<close>

text \<open>
  While the webhook is not connected, a turn after \<open>system_common_run\<close> returns with the buffer of the
  inverter in order, whatever the services answer.
\<close>

lemma solar_queries_return:
  assumes "mppt_ok (sa_mppt app)" and "\<not> webhook_connected (snd (sa_notify app))"
  shows "\<exists>app'. solar_queries a b e app = Some app' \<and> mppt_ok (sa_mppt app') \<and> sa_notify app' = sa_notify app"
proof -
  let ?p = "internal_temp_query e app"
  have p: "sa_mppt ?p = sa_mppt app" "sa_notify ?p = sa_notify app" "sa_bms ?p = sa_bms app"
    by (simp_all add: internal_temp_query_def case_prod_beta Let_def)
  have "\<exists>m. mppt_solar_query (st_now e) (st_tz e) (st_send e) (sa_mppt app) = Some m \<and> mppt_ok m"
    using mppt.step_ok [of "sa_mppt app" "Query (st_now e) (st_tz e) (st_send e)"] assms by simp
  then obtain m where m: "(if a then mppt_solar_query (st_now e) (st_tz e) (st_send e) (sa_mppt ?p) else Some (sa_mppt ?p)) = Some m"
    "mppt_ok m" using assms p by (cases a) auto
  have n: "wh_notify_send (st_wh e) (st_now e) (st_temp e) (sa_notify ?p) = Some (sa_notify app)"
    using assms(2) p(2) by (cases "sa_notify app") (simp add: wh_notify_send_def)
  show ?thesis using m n by (simp add: solar_queries_def Let_def)
qed

section \<open>Witnesses\<close>

definition demo_qpigs1 :: string where
  "demo_qpigs1 = ''(230.0 50.0 230.0 50.0 0460 0400 010 400 27.0 010 090 0040''"
definition demo_qpigs2 :: string where
  "demo_qpigs2 = '' 0010 100.0 00.00 00000 00010110 00 00 00400 010000''"

definition demo_scanned :: "scanned list" where
  "demo_scanned =
     [SF (Fin 230), SF (Fin 50), SF (Fin 230), SF (Fin 50), SI 460, SI 400, SI 10, SI 400, SF (Fin 27), SI 10, SI 90,
      SI 40, SF (Fin 10), SF (Fin 100), SF (Fin 0), SI 0, SI 10110]"

lemma demo_scan: "sscanf qpigs_format (tl (demo_qpigs1 @ demo_qpigs2)) = demo_scanned"
  by code_simp

definition demo_bms_data :: mqtt_bms_data where
  "demo_bms_data = \<lparr>mb_bat_v = Fin 0, mb_bat_i = Fin 0, mb_soc_p = Fin 0, mb_bms_life = 0, mb_remain_capacity = 0\<rparr>"

definition demo_solar :: "nat solar_app" where
  "demo_solar = \<lparr>sa_mppt = demo_mppt\<lparr>cmd_idx := MPPT_QPIGS\<rparr>, sa_bms = demo_bms,
     sa_report = \<lparr>so_mppt = mppt_mqtt_data voltron_zero, so_bms = demo_bms_data, internal_temp = Fin 20, so_payload = [],
       so_component = solar_component\<rparr>,
     sa_mqtt = demo_mqtt, sa_notify = (0, None)\<rparr>"

lemma demo_fmt:
  "length (fmt_2f (Fin 230)) = 6" "length (fmt_2f (Fin 50)) = 5" "length (fmt_2f (Fin 27)) = 5" "length (fmt_2f (Fin 10)) = 5"
  "length (fmt_2f (Fin 100)) = 6" "length (fmt_2f (Fin 0)) = 4" "length (fmt_2f (Fin 20)) = 5"
  by (simp_all add: fmt_2f_def rhe_def nat_str.simps)

definition demo_report :: string where
  "demo_report = solar_report ''x'' ((sa_report demo_solar)\<lparr>so_mppt :=
     mppt_mqtt_data (voltron_zero\<lparr>qpigs_data := qpigs_of demo_scanned\<rparr>)\<rparr>)"

lemma demo_report_length: "length demo_report < SOLAR_DATA_LEN \<and> length demo_report \<le> 928"
  by (simp add: demo_report_def solar_report_def solar_parts_def Let_def fld_def demo_solar_def demo_bms_data_def mppt_mqtt_data_def
    qpigs_of_def demo_scanned_def demo_fmt int_str_def nat_str.simps SOLAR_DATA_LEN_def int_of_word_def s32_def)

lemma demo_reply: "mppt_reply (demo_qpigs1 @ demo_qpigs2) (concat [demo_qpigs1] @ (demo_qpigs2 @ crc_bytes (demo_qpigs1 @ demo_qpigs2) @ [CMD_END_CHAR]))
    (length (concat [demo_qpigs1] @ (demo_qpigs2 @ crc_bytes (demo_qpigs1 @ demo_qpigs2) @ [CMD_END_CHAR])))"
  by (simp add: mppt_reply_def mppt_frame_def END_OF_INPUT_def CMD_END_CHAR_def demo_qpigs1_def demo_qpigs2_def)

lemma init_zero: "mppt_solar_init n par dev = Some (b, ctx) \<Longrightarrow> vdata ctx = voltron_zero \<and> cmd_buf_len ctx = 0"
  by (auto simp: mppt_solar_init_def Let_def split: option.splits)

lemma demo_mppt_zero: "vdata demo_mppt = voltron_zero" "cmd_buf_len demo_mppt = 0"
proof -
  have "mppt_solar_init 9 (Some ''0665:5161'') 0 \<noteq> None" by code_simp
  then obtain b c where "mppt_solar_init 9 (Some ''0665:5161'') 0 = Some (b, c)" by auto
  then show "vdata demo_mppt = voltron_zero" "cmd_buf_len demo_mppt = 0"
    using init_zero unfolding demo_mppt_def by fastforce+
qed


lemma solar_report_retried_witness:
  "wire (snd (mqtt_data_internal_temp (demo_lwip 99) ''y'' (Fin 20)
      (mqtt_data_mppt ((demo_lwip 9)\<lparr>lw_publish := \<lambda>_ _. -1\<rparr>) ''x'' False
        (mppt_mqtt_data (voltron_zero\<lparr>qpigs_data := qpigs_of demo_scanned\<rparr>)) (sa_report demo_solar, demo_mqtt)))) =
   [(''t'', demo_report)]"
proof -
  let ?n = "mppt_mqtt_data (voltron_zero\<lparr>qpigs_data := qpigs_of demo_scanned\<rparr>)" and ?s = "sa_report demo_solar"
  let ?e = "(demo_lwip 9)\<lparr>lw_publish := \<lambda>_ _. -1\<rparr>"
  have n: "?n \<noteq> so_mppt ?s"
    by (simp add: demo_solar_def mppt_mqtt_data_def qpigs_of_def demo_scanned_def voltron_zero_def qpigs_zero_def)
  obtain s1 c1 where r: "mqtt_data_mppt ?e ''x'' False ?n (?s, demo_mqtt) = (s1, c1)" by fastforce
  have "mqtt_data_mppt ?e ''x'' False ?n (?s, demo_mqtt) =
      ((?s\<lparr>so_mppt := ?n, so_payload := demo_report\<rparr>), snd (mqtt_msg_publish ?e None demo_report True demo_mqtt))"
    using n data_send_forced [of "''x''" "?s\<lparr>so_mppt := ?n\<rparr>" ?e demo_mqtt] demo_report_length
    by (simp add: mqtt_data_mppt_def mqtt_solar_run_def demo_report_def)
  then have c1: "c1 = snd (mqtt_msg_publish ?e None demo_report True demo_mqtt)" using r by simp
  have c: "mq_state c1 = MQTT_CLIENT_CONNECTED" "mq_client c1" "max_payload_size c1 = 928" "filter_pkt_count c1 = 1"
    "max_ppm c1 = 2" "wire c1 = []" "state_topic c1 = ''t''"
    unfolding c1 using demo_report_length
    by (simp_all add: mqtt_msg_publish_cases pub_refused_def mqtt_msg_send_def mqtt_is_connected_ctx_def filter_after_def
        demo_mqtt_def demo_lwip_def)
  have "solar_accepts (demo_lwip 99) demo_report c1"
    using c demo_report_length by (simp add: solar_accepts_def mqtt_is_connected_ctx_def demo_lwip_def)
  from solar_report_retried [OF n _ _ r _ this, of "Fin 20" "''y''"] show ?thesis
    using demo_report_length c r by (auto simp: demo_report_def demo_solar_def f32_ne_def)
qed

lemma solar_component_topic_witness:
  "\<exists>s c. mqtt_solar_init ((sa_report demo_solar)\<lparr>so_payload := ''r''\<rparr>) (Some demo_mqtt) = (s, Some c) \<and>
     mc_state_topic (so_component s) = Some ''t/(null)/Chip_Temperature/status'' \<and>
     wire (snd (mqtt_data_send (demo_lwip 9) ''x'' False (s, c))) = [(''t'', ''r'')]"
proof -
  let ?s0 = "(sa_report demo_solar)\<lparr>so_payload := ''r''\<rparr>"
  obtain s c where i: "mqtt_solar_init ?s0 (Some demo_mqtt) = (s, Some c)"
    by (simp add: mqtt_solar_init_def mqtt_mppt_discovery_add_def mqtt_msg_component_register_def demo_mqtt_def
        demo_component_def MQTT_DISCOVERY_MAX_COUNT_def Let_def)
  have p: "so_payload s = ''r''" and a: "solar_accepts (demo_lwip 9) ''r'' c" and w: "wire c = []" "state_topic c = ''t''"
    using i by (auto simp: mqtt_solar_init_def mqtt_mppt_discovery_add_def mqtt_msg_component_register_def demo_mqtt_def
        demo_component_def MQTT_DISCOVERY_MAX_COUNT_def Let_def solar_accepts_def mqtt_is_connected_ctx_def demo_lwip_def)
  obtain s2 c2 where d: "mqtt_data_send (demo_lwip 9) ''x'' False (s, c) = (s2, c2)" by fastforce
  have c2: "wire c2 = [(''t'', ''r'')]"
    using d p w publish_accepted [OF a, of False] by (auto simp: data_send_unforced)
  have "length (components demo_mqtt) < MQTT_DISCOVERY_MAX_COUNT" "state_topic demo_mqtt = ''t''" "wire demo_mqtt = []"
    by (simp_all add: demo_mqtt_def MQTT_DISCOVERY_MAX_COUNT_def)
  with solar_component_topic [OF _ i d, of "''t''" "''r''"] show ?thesis using i d c2 by auto
qed

end
