(* ===== verification/JkBms.thy ===== *)
theory JkBms
  imports Codec Webhook Float32
begin

text \<open>
  The JK battery management system, \<open>libs/common/devices/bms_jk\<close>: the frames over Bluetooth, the
  decoding of cells and device data, the requests (\<open>bms_jk.c\<close>) and the automation that runs
  scripts when the battery or the solar state changes (\<open>bms_jk_automation.c\<close>).  \<open>JkMqtt\<close> holds
  the report over MQTT, the configuration and the main loop of the module.  The Bluetooth
  service, the scripts and the webhook are other services: what is called is recorded in the
  device.  None is an access through NULL or a call that does not return.  The log is left out;
  where it prints the name of a device without one, C leaves \<open>%s\<close> of NULL undefined.
\<close>

section \<open>Data\<close>

definition NOTIFY_PACKET_SIZE :: nat where "NOTIFY_PACKET_SIZE = 300"
definition BMS_MAX_CELLS :: nat where "BMS_MAX_CELLS = 32"
definition CMD_POLL_MS :: u64 where "CMD_POLL_MS = 5000"
definition CMD_TIMEOUT_MS :: u64 where "CMD_TIMEOUT_MS = 1000"

definition jk_notify_pkt_start :: "u8 list" where
  "jk_notify_pkt_start = [0x55, 0xAA, 0xEB, 0x90]"

definition jk_request_pkt_start :: "u8 list" where
  "jk_request_pkt_start = [0xAA, 0x55, 0x90, 0xEB]"

definition terminal_svc :: "u8 list" where
  "terminal_svc = [0x00, 0x00, 0xFF, 0xE0, 0x00, 0x00, 0x10, 0x00, 0x80, 0x00, 0x00, 0x80, 0x5F, 0x9B, 0x34, 0xFB]"

definition terminal_charc_read :: "u8 list" where
  "terminal_charc_read = [0x00, 0x00, 0xff, 0xe1, 0x00, 0x00, 0x10, 0x00, 0x80, 0x00, 0x00, 0x80, 0x5f, 0x9b, 0x34, 0xfb]"

definition JK_COMMAND_CELL_INFO :: u8 where "JK_COMMAND_CELL_INFO = 0x96"
definition JK_COMMAND_DEVICE_INFO :: u8 where "JK_COMMAND_DEVICE_INFO = 0x97"

text \<open>The strings are the bytes of their arrays, as many as are read from the frame.\<close>

record bms_dev_info =
  di_valid :: bool
  Vendor :: "u8 list"
  Model :: "u8 list"
  Hardware :: "u8 list"
  Software :: "u8 list"
  ManufacturingDate :: "u8 list"
  SerialN :: "u8 list"
  Uptime :: u32
  PowerOnCount :: u16
  PassRead :: "u8 list"
  PassSetup :: "u8 list"

text \<open>The flags of one bit are numbers below 2.\<close>

record bms_cells_info =
  ci_valid :: bool
  cell_v_force :: bool
  cell_r_force :: bool
  data_force :: bool
  dev_force :: bool
  cells_low_count :: "u32 list"
  cells_high_count :: "u32 list"
  cells_v :: "u16 list"
  cells_res :: "u16 list"
  cells_enabled :: u32
  v_avg :: u16
  v_delta :: u16
  cell_v_min :: u8
  cell_v_max :: u8
  power_temp :: u16
  cell_warn :: u32
  batt_volt :: u32
  batt_power :: u32
  batt_charge_curr :: int
  batt_temp1 :: u16
  batt_temp2 :: u16
  batt_temp_mos :: u16
  alarms :: u16
  batt_balance_curr :: u16
  batt_action :: u8
  batt_state :: u8
  batt_cap_rem :: u32
  batt_cap_nom :: u32
  batt_cycles :: u32
  batt_cycles_cap :: u32
  soh :: u8
  run_time :: u32
  charge_enable :: u8
  discharge_enable :: u8
  precharge_enable :: u8
  ballance_work :: u8
  batt_v :: u16
  batt_heat_a :: u16

record bt_charc =
  tc_valid :: bool
  tc_char_id :: u32
  svc_uid128 :: "u8 list"
  charc_uid128 :: "u8 list"
  tc_properties :: u32
  tc_send_time :: u64
  tc_notify :: bool

record bt_auto_action =
  aa_enabled :: bool
  aa_state :: bool
  aa_runs :: u64
  script_on_name :: string
  script_on_prefix :: "string option"
  script_on_count :: int
  wh_on_message :: string
  script_off_name :: string
  script_off_prefix :: "string option"
  script_off_count :: int
  wh_off_message :: string

text \<open>The four components with a name of their own in the struct; None before \<open>bms_jk_mqtt_init\<close>.\<close>

record bms_jk_mqtt =
  jm_cells_v :: "mqtt_component option"
  jm_cells_res :: "mqtt_component option"
  jm_bms_data :: "mqtt_component option"
  jm_bms_info :: "mqtt_component option"
  jm_payload :: string
  send_id :: nat
  jm_last_send :: u64

datatype jk_state = JK_DISCONNECTED | JK_CONNECTED | JK_READY

datatype jk_call =
  Bt_notify u32 | Bt_write u32 "u8 list" | Bt_read u32 | Script_auto string bool | Script_run string | Wh_send string

record jk_bms_dev =
  jk_address :: "u8 list"
  jk_name :: "string option"
  user_name :: "string option"
  jk_pin :: string
  jk_bt_index :: int
  jk_send_time :: u64
  last_reply :: u64
  request_count :: u32
  jk_state :: jk_state
  dev_info :: bms_dev_info
  cell_info :: bms_cells_info
  nbuff_ready :: bool
  wait_reply :: bool
  nbuff :: "u8 list"
  nbuff_curr :: nat
  jk_term_charc :: bt_charc
  jk_mqtt :: bms_jk_mqtt
  jk_connect_count :: u32
  timeout_msec :: u64
  auto_batt :: bt_auto_action
  cell_v_low :: u16
  cell_v_high :: u16
  auto_solar :: bt_auto_action
  charge_current_threshold :: u16
  last_solar_try :: u64
  jk_calls :: "jk_call list"

text \<open>\<open>%s\<close> of a NULL pointer, and the macro \<open>DEV_NAME\<close>.\<close>

definition DEV_NAME :: "jk_bms_dev \<Rightarrow> string" where
  "DEV_NAME dev =
     (case user_name dev of Some n \<Rightarrow> n | None \<Rightarrow> (case jk_name dev of Some n \<Rightarrow> n | None \<Rightarrow> ''(null)''))"

definition TERM_IS_ACTIVE :: "jk_bms_dev \<Rightarrow> bool" where
  "TERM_IS_ACTIVE dev = tc_valid (jk_term_charc dev)"

section \<open>The terminal\<close>

text \<open>\<open>svc\<close> is \<open>bt_service_get_uuid\<close>: the uuid of the service of a characteristic.\<close>

definition charc_new :: "(u32 \<Rightarrow> u8 list option) \<Rightarrow> u32 \<Rightarrow> u32 \<Rightarrow> u8 list \<Rightarrow> jk_bms_dev \<Rightarrow> jk_bms_dev" where
  "charc_new svc char_id props uuid dev =
     (if svc char_id \<noteq> Some (svc_uid128 (jk_term_charc dev)) then dev
      else if charc_uid128 (jk_term_charc dev) \<noteq> uuid then dev
      else dev\<lparr>jk_term_charc := (jk_term_charc dev)\<lparr>tc_char_id := char_id, tc_properties := props, tc_valid := True\<rparr>\<rparr>)"

definition charc_reset :: "jk_bms_dev \<Rightarrow> jk_bms_dev" where
  "charc_reset dev =
     dev\<lparr>jk_term_charc := (jk_term_charc dev)\<lparr>tc_valid := False, tc_send_time := 0, tc_notify := False\<rparr>,
       nbuff_curr := 0, nbuff_ready := False, wait_reply := False\<rparr>"

definition calc_crc :: "u8 list \<Rightarrow> u8" where
  "calc_crc d = foldl (+) 0 d"

definition jk_bt_process_terminal :: "u32 \<Rightarrow> u8 list \<Rightarrow> jk_bms_dev \<Rightarrow> jk_bms_dev" where
  "jk_bt_process_terminal charId val dev =
     (let ssize = length jk_notify_pkt_start in
      if nbuff_ready dev then dev
      else if tc_char_id (jk_term_charc dev) \<noteq> charId then dev
      else if length val < ssize then dev
      else
        (let new = (take ssize val = jk_notify_pkt_start);
             cur = (if new then 0 else nbuff_curr dev);
             csize = (if new then (if length val < NOTIFY_PACKET_SIZE then length val else NOTIFY_PACKET_SIZE)
                      else (if length val < NOTIFY_PACKET_SIZE - cur then length val else NOTIFY_PACKET_SIZE - cur));
             buf = take cur (nbuff dev) @ take csize val @ drop (cur + csize) (nbuff dev);
             dev = dev\<lparr>nbuff := buf, nbuff_curr := cur + csize\<rparr>
         in if nbuff_curr dev = NOTIFY_PACKET_SIZE then
              (if take ssize (nbuff dev) \<noteq> jk_notify_pkt_start then dev\<lparr>nbuff_curr := 0\<rparr>
               else if calc_crc (take (nbuff_curr dev - 1) (nbuff dev)) \<noteq> nbuff dev ! (nbuff_curr dev - 1)
               then dev\<lparr>nbuff_curr := 0\<rparr>
               else dev\<lparr>nbuff_ready := True\<rparr>)
            else dev))"

section \<open>The cell frame\<close>

definition DATA_UINT8_GET :: "u8 list \<Rightarrow> nat \<Rightarrow> u8" where
  "DATA_UINT8_GET b ofs = b ! ofs"

definition DATA_UINT16_GET :: "u8 list \<Rightarrow> nat \<Rightarrow> u16" where
  "DATA_UINT16_GET b ofs = push_bit 8 (ucast (b ! (ofs + 1))) OR ucast (b ! ofs)"

definition DATA_UINT32_GET :: "u8 list \<Rightarrow> nat \<Rightarrow> u32" where
  "DATA_UINT32_GET b ofs = push_bit 16 (ucast (DATA_UINT16_GET b (ofs + 2))) OR ucast (DATA_UINT16_GET b ofs)"

definition DATA_INT32_GET :: "u8 list \<Rightarrow> nat \<Rightarrow> int" where
  "DATA_INT32_GET b ofs = sint (DATA_UINT32_GET b ofs)"

definition BMS_DATA_READ ::
  "(bms_cells_info \<Rightarrow> 'a) \<Rightarrow> (('a \<Rightarrow> 'a) \<Rightarrow> bms_cells_info \<Rightarrow> bms_cells_info) \<Rightarrow> 'a \<Rightarrow> bms_cells_info \<Rightarrow> bms_cells_info" where
  "BMS_DATA_READ get upd v c = (if get c \<noteq> v then upd (\<lambda>_. v) (c\<lparr>data_force := True\<rparr>) else c)"

text \<open>The same for a field of one bit: it is compared with the whole byte.\<close>

definition BMS_BIT_READ ::
  "(bms_cells_info \<Rightarrow> u8) \<Rightarrow> ((u8 \<Rightarrow> u8) \<Rightarrow> bms_cells_info \<Rightarrow> bms_cells_info) \<Rightarrow> u8 \<Rightarrow> bms_cells_info \<Rightarrow> bms_cells_info" where
  "BMS_BIT_READ get upd v c = (if get c \<noteq> v then upd (\<lambda>_. v AND 1) (c\<lparr>data_force := True\<rparr>) else c)"

definition jk_cell_voltages :: "u8 list \<Rightarrow> bms_cells_info \<Rightarrow> bms_cells_info" where
  "jk_cell_voltages b c =
     (let vs = map (\<lambda>i. DATA_UINT16_GET b (6 + i * 2)) [0 ..< BMS_MAX_CELLS]
      in c\<lparr>cell_v_force := cell_v_force c \<or> cells_v c \<noteq> vs, cells_v := vs\<rparr>)"

definition jk_cell_resistances :: "u8 list \<Rightarrow> bms_cells_info \<Rightarrow> bms_cells_info" where
  "jk_cell_resistances b c =
     (let vs = map (\<lambda>i. DATA_UINT16_GET b (80 + i * 2)) [0 ..< BMS_MAX_CELLS]
      in c\<lparr>cell_r_force := cell_r_force c \<or> cells_res c \<noteq> vs, cells_res := vs\<rparr>)"

text \<open>The steps of \<open>jk_bt_process_cell_frame\<close> with their offsets in the frame.\<close>

definition jk_cell_fields :: "(u8 list \<Rightarrow> bms_cells_info \<Rightarrow> bms_cells_info) list" where
  "jk_cell_fields =
     [jk_cell_voltages,
      \<lambda>b. BMS_DATA_READ cells_enabled cells_enabled_update (DATA_UINT32_GET b 70),
      \<lambda>b. BMS_DATA_READ v_avg v_avg_update (DATA_UINT16_GET b 74),
      \<lambda>b. BMS_DATA_READ v_delta v_delta_update (DATA_UINT16_GET b 76),
      \<lambda>b. BMS_DATA_READ cell_v_max cell_v_max_update (DATA_UINT8_GET b 78),
      \<lambda>b. BMS_DATA_READ cell_v_min cell_v_min_update (DATA_UINT8_GET b 79),
      jk_cell_resistances,
      \<lambda>b. BMS_DATA_READ power_temp power_temp_update (DATA_UINT16_GET b 144),
      \<lambda>b. BMS_DATA_READ cell_warn cell_warn_update (DATA_UINT32_GET b 146),
      \<lambda>b. BMS_DATA_READ batt_volt batt_volt_update (DATA_UINT32_GET b 150),
      \<lambda>b. BMS_DATA_READ batt_power batt_power_update (DATA_UINT32_GET b 154),
      \<lambda>b. BMS_DATA_READ batt_charge_curr batt_charge_curr_update (DATA_INT32_GET b 158),
      \<lambda>b. BMS_DATA_READ batt_temp1 batt_temp1_update (DATA_UINT16_GET b 162),
      \<lambda>b. BMS_DATA_READ batt_temp2 batt_temp2_update (DATA_UINT16_GET b 164),
      \<lambda>b. BMS_DATA_READ batt_temp_mos batt_temp_mos_update (DATA_UINT16_GET b 166),
      \<lambda>b. BMS_DATA_READ alarms alarms_update (DATA_UINT16_GET b 168),
      \<lambda>b. BMS_DATA_READ batt_balance_curr batt_balance_curr_update (DATA_UINT16_GET b 170),
      \<lambda>b. BMS_DATA_READ batt_action batt_action_update (DATA_UINT8_GET b 172),
      \<lambda>b. BMS_DATA_READ batt_state batt_state_update (DATA_UINT8_GET b 173),
      \<lambda>b. BMS_DATA_READ batt_cap_rem batt_cap_rem_update (DATA_UINT32_GET b 174),
      \<lambda>b. BMS_DATA_READ batt_cap_nom batt_cap_nom_update (DATA_UINT32_GET b 178),
      \<lambda>b. BMS_DATA_READ batt_cycles batt_cycles_update (DATA_UINT32_GET b 182),
      \<lambda>b. BMS_DATA_READ batt_cycles_cap batt_cycles_cap_update (DATA_UINT32_GET b 186),
      \<lambda>b. BMS_DATA_READ soh soh_update (DATA_UINT8_GET b 190),
      \<lambda>b. BMS_DATA_READ run_time run_time_update (DATA_UINT32_GET b 194),
      \<lambda>b. BMS_BIT_READ charge_enable charge_enable_update (DATA_UINT8_GET b 198),
      \<lambda>b. BMS_BIT_READ discharge_enable discharge_enable_update (DATA_UINT8_GET b 199),
      \<lambda>b. BMS_BIT_READ precharge_enable precharge_enable_update (DATA_UINT8_GET b 200),
      \<lambda>b. BMS_BIT_READ ballance_work ballance_work_update (DATA_UINT8_GET b 201),
      \<lambda>b. BMS_DATA_READ batt_v batt_v_update (DATA_UINT16_GET b 234),
      \<lambda>b. BMS_DATA_READ batt_heat_a batt_heat_a_update (DATA_UINT16_GET b 236)]"

definition jk_bt_process_cell_frame :: "jk_bms_dev \<Rightarrow> jk_bms_dev" where
  "jk_bt_process_cell_frame dev =
     dev\<lparr>cell_info := fold (\<lambda>f. f (nbuff dev)) jk_cell_fields ((cell_info dev)\<lparr>ci_valid := True\<rparr>)\<rparr>"

section \<open>The device frame\<close>

definition BMS_DEV_STR_READ ::
  "u8 list \<Rightarrow> (bms_dev_info \<Rightarrow> u8 list) \<Rightarrow> ((u8 list \<Rightarrow> u8 list) \<Rightarrow> bms_dev_info \<Rightarrow> bms_dev_info) \<Rightarrow> nat \<Rightarrow> nat
   \<Rightarrow> bool \<times> bms_dev_info \<Rightarrow> bool \<times> bms_dev_info" where
  "BMS_DEV_STR_READ b get upd ofs len st =
     (let (frc, d) = st; v = take len (drop ofs b)
      in (frc \<or> get d \<noteq> v, upd (\<lambda>_. v[len - 1 := 0]) d))"

definition jk_device_strings :: "u8 list \<Rightarrow> bool \<times> bms_dev_info \<Rightarrow> bool \<times> bms_dev_info" where
  "jk_device_strings b st =
     (let st = BMS_DEV_STR_READ b Model Model_update 6 16 st;
          st = BMS_DEV_STR_READ b Vendor Vendor_update 102 16 st;
          st = BMS_DEV_STR_READ b Hardware Hardware_update 22 8 st;
          st = BMS_DEV_STR_READ b Software Software_update 30 8 st;
          st = BMS_DEV_STR_READ b ManufacturingDate ManufacturingDate_update 78 8 st;
          st = BMS_DEV_STR_READ b SerialN SerialN_update 86 12 st;
          st = BMS_DEV_STR_READ b PassRead PassRead_update 62 16 st
      in BMS_DEV_STR_READ b PassSetup PassSetup_update 134 16 st)"

text \<open>The count is compared as the 32 bit number of the frame and stored in 16 bits.\<close>

definition jk_bt_process_device_frame :: "jk_bms_dev \<Rightarrow> jk_bms_dev" where
  "jk_bt_process_device_frame dev =
     (let b = nbuff dev;
          (frc, d) = jk_device_strings b (dev_force (cell_info dev), (dev_info dev)\<lparr>di_valid := True\<rparr>);
          up = DATA_UINT32_GET b 38; poc = DATA_UINT32_GET b 42;
          frc = (frc \<or> Uptime d \<noteq> up \<or> (ucast (PowerOnCount d) :: u32) \<noteq> poc)
      in dev\<lparr>dev_info := d\<lparr>Uptime := up, PowerOnCount := ucast poc\<rparr>, cell_info := (cell_info dev)\<lparr>dev_force := frc\<rparr>\<rparr>)"

section \<open>The automation\<close>

definition BATT_STATE_COUNT_THR :: u32 where "BATT_STATE_COUNT_THR = 3"
definition BATT_STATE_CHARGE_THR :: u8 where "BATT_STATE_CHARGE_THR = 90"
definition BATT_STATE_CHARGE_TRY_DELAY_MS :: u64 where "BATT_STATE_CHARGE_TRY_DELAY_MS = 120000"

text \<open>
  \<open>dev->mqtt.bms_data->force = true\<close>: before \<open>bms_jk_mqtt_init\<close> the pointer is NULL; \<open>nw\<close> says
  whether an access through NULL passes on the target.  The same flag stands for the access to
  \<open>dev->ctx->debug\<close> while the configuration is read, which follows such a write.
\<close>

definition force_bms_data :: "bool \<Rightarrow> jk_bms_dev \<Rightarrow> jk_bms_dev option" where
  "force_bms_data nw dev =
     (case jm_bms_data (jk_mqtt dev) of
        None \<Rightarrow> if nw then Some dev else None
      | Some c \<Rightarrow> Some (dev\<lparr>jk_mqtt := (jk_mqtt dev)\<lparr>jm_bms_data := Some (c\<lparr>force := True\<rparr>)\<rparr>\<rparr>))"

text \<open>
  The notifications by webhook: None when they are off, otherwise which texts \<open>webhook_send\<close> returns
  for.  It is called without asking whether the service is connected, and then it may not return
  (\<open>webhook_unchecked_send_hangs\<close>).
\<close>

type_synonym wh_oracle = "(string \<Rightarrow> bool) option"

fun call_returns :: "wh_oracle \<Rightarrow> jk_call \<Rightarrow> bool" where
  "call_returns (Some f) (Wh_send m) = f m"
| "call_returns wh c = True"

definition wh_returns :: "wh_oracle \<Rightarrow> bool" where
  "wh_returns wh \<longleftrightarrow> (case wh of None \<Rightarrow> True | Some f \<Rightarrow> \<forall>m. f m)"

lemma calls_return: "wh_returns wh \<Longrightarrow> list_all (call_returns wh) cs"
proof (induction cs)
  case (Cons c cs)
  then show ?case by (cases wh; cases c) (simp_all add: wh_returns_def)
qed simp

text \<open>The calls of \<open>jk_bt_auto_action\<close> for the new state of an action.\<close>

definition auto_calls :: "wh_oracle \<Rightarrow> string \<Rightarrow> bt_auto_action \<Rightarrow> jk_call list" where
  "auto_calls wh name a =
     (let on = (if script_on_count a \<noteq> 0 then script_on_prefix a else None);
          off = (if script_off_count a \<noteq> 0 then script_off_prefix a else None);
          (new, old, m) = (if aa_state a then (on, off, wh_on_message a) else (off, on, wh_off_message a))
      in (case old of Some p \<Rightarrow> [Script_auto p False] | None \<Rightarrow> []) @
         (case new of None \<Rightarrow> []
          | Some p \<Rightarrow> [Script_auto p True, Script_run p] @
              (if wh \<noteq> None then [Wh_send (take (WH_PAYLOAD_MAX_SIZE - 1) (name @ '': '' @ m))] else [])))"

text \<open>
  \<open>get\<close> and \<open>upd\<close> are the action in the device: \<open>auto_batt\<close> or \<open>auto_solar\<close>.  None: a call that does
  not return.
\<close>

definition jk_bt_auto_action ::
  "wh_oracle \<Rightarrow> (jk_bms_dev \<Rightarrow> bt_auto_action) \<Rightarrow> ((bt_auto_action \<Rightarrow> bt_auto_action) \<Rightarrow> jk_bms_dev \<Rightarrow> jk_bms_dev)
   \<Rightarrow> jk_bms_dev \<Rightarrow> jk_bms_dev option" where
  "jk_bt_auto_action wh get upd dev =
     (let calls = auto_calls wh (DEV_NAME dev) (get dev) in
      if \<not> list_all (call_returns wh) calls then None
      else force_bms_data False (upd (\<lambda>a. a\<lparr>aa_runs := aa_runs a + 1\<rparr>) (dev\<lparr>jk_calls := jk_calls dev @ calls\<rparr>)))"

text \<open>
  \<open>1<<i & cells_enabled\<close>.  After 32 cells the loops also test \<open>1<<32\<close>, which C leaves undefined
  and the target shifts to 0.
\<close>

definition cell_on :: "bms_cells_info \<Rightarrow> nat \<Rightarrow> bool" where
  "cell_on c i \<longleftrightarrow> i < 32 \<and> bit (cells_enabled c) i"

definition cells_used :: "bms_cells_info \<Rightarrow> nat list" where
  "cells_used c = takeWhile (cell_on c) [0 ..< BMS_MAX_CELLS]"

definition reset_counts :: "bms_cells_info \<Rightarrow> bms_cells_info" where
  "reset_counts c =
     fold (\<lambda>i c. c\<lparr>cells_low_count := (cells_low_count c)[i := 0], cells_high_count := (cells_high_count c)[i := 0]\<rparr>)
       (cells_used c) c"

definition jk_bt_new_batt_state :: "wh_oracle \<Rightarrow> jk_bms_dev \<Rightarrow> jk_bms_dev option" where
  "jk_bt_new_batt_state wh dev =
     map_option (\<lambda>dev. dev\<lparr>cell_info := reset_counts (cell_info dev)\<rparr>)
       (jk_bt_auto_action wh auto_batt auto_batt_update dev)"

text \<open>The loop over the cells of a normal battery: whether a cell was low often enough.\<close>

fun low_scan :: "u16 \<Rightarrow> nat list \<Rightarrow> bms_cells_info \<Rightarrow> bool \<times> bms_cells_info" where
  "low_scan lo [] c = (False, c)"
| "low_scan lo (i # is) c =
     (if \<not> cell_on c i then (False, c)
      else
        (let c = (if cells_v c ! i < lo
                  then c\<lparr>cells_low_count := (cells_low_count c)[i := cells_low_count c ! i + 1]\<rparr> else c)
         in if cells_low_count c ! i \<ge> BATT_STATE_COUNT_THR then (True, c) else low_scan lo is c))"

text \<open>The two loops over the cells of a low battery.\<close>

definition high_count :: "u16 \<Rightarrow> bms_cells_info \<Rightarrow> bms_cells_info" where
  "high_count hi c =
     fold (\<lambda>i c. if cells_v c ! i \<ge> hi
                 then c\<lparr>cells_high_count := (cells_high_count c)[i := cells_high_count c ! i + 1]\<rparr> else c)
       (cells_used c) c"

definition high_all :: "bms_cells_info \<Rightarrow> bool" where
  "high_all c =
     (let i = length (takeWhile (\<lambda>i. cell_on c i \<and> cells_high_count c ! i \<ge> BATT_STATE_COUNT_THR) [0 ..< BMS_MAX_CELLS])
      in \<not> cell_on c i)"

definition jk_bt_check_cell_levels :: "wh_oracle \<Rightarrow> jk_bms_dev \<Rightarrow> jk_bms_dev option" where
  "jk_bt_check_cell_levels wh dev =
     (if \<not> ci_valid (cell_info dev) then Some dev
      else if aa_state (auto_batt dev) then
        (let (low, c) = low_scan (cell_v_low dev) [0 ..< BMS_MAX_CELLS] (cell_info dev); dev = dev\<lparr>cell_info := c\<rparr>
         in if low then jk_bt_new_batt_state wh (dev\<lparr>auto_batt := (auto_batt dev)\<lparr>aa_state := False\<rparr>\<rparr>) else Some dev)
      else
        (let c = high_count (cell_v_high dev) (cell_info dev); dev = dev\<lparr>cell_info := c\<rparr>
         in if high_all c then jk_bt_new_batt_state wh (dev\<lparr>auto_batt := (auto_batt dev)\<lparr>aa_state := True\<rparr>\<rparr>) else Some dev))"

text \<open>The product with 0.001 (0.1) is one of doubles: rounding to 53 bits, the range never being left.\<close>

definition f64_rnd :: "rat \<Rightarrow> rat" where
  "f64_rnd x = (if x = 0 then 0 else let e = ilog2 \<bar>x\<bar> - 52 in of_int (rhe (x / pow2 e)) * pow2 e)"

definition milli :: "int \<Rightarrow> rat" where
  "milli i = f64_rnd (of_int i * f64_rnd (1 / 1000))"

definition deci :: "int \<Rightarrow> rat" where
  "deci i = f64_rnd (of_int i * f64_rnd (1 / 10))"

definition solar_excess :: "jk_bms_dev \<Rightarrow> bool" where
  "solar_excess dev =
     (let c = cell_info dev in
      if batt_charge_curr c < 0 then False
      else if batt_state c < BATT_STATE_CHARGE_THR \<and> milli (batt_charge_curr c) < of_int (uint (charge_current_threshold dev))
      then False else True)"

definition jk_bt_check_solar :: "wh_oracle \<Rightarrow> u64 \<Rightarrow> jk_bms_dev \<Rightarrow> jk_bms_dev option" where
  "jk_bt_check_solar wh now dev =
     (if \<not> ci_valid (cell_info dev) then Some dev
      else if \<not> aa_state (auto_solar dev) \<and> now - last_solar_try dev < BATT_STATE_CHARGE_TRY_DELAY_MS then Some dev
      else
        (let has_excess = solar_excess dev in
         if aa_state (auto_solar dev) \<noteq> has_excess then
           (let dev = (if \<not> has_excess then dev\<lparr>last_solar_try := now\<rparr> else dev)
            in jk_bt_auto_action wh auto_solar auto_solar_update
                 (dev\<lparr>auto_solar := (auto_solar dev)\<lparr>aa_state := has_excess\<rparr>\<rparr>))
         else Some dev))"

definition jk_bt_automation_run :: "wh_oracle \<Rightarrow> u64 \<Rightarrow> jk_bms_dev \<Rightarrow> jk_bms_dev option" where
  "jk_bt_automation_run wh now dev =
     (case (if aa_enabled (auto_batt dev) then jk_bt_check_cell_levels wh dev else Some dev) of
        None \<Rightarrow> None
      | Some dev \<Rightarrow> if aa_enabled (auto_solar dev) then jk_bt_check_solar wh now dev else Some dev)"

text \<open>\<open>exist\<close> is \<open>script_exist\<close>, \<open>al\<close> whether \<open>sys_asprintf\<close> finds the memory for a text.\<close>

definition jk_bt_find_auto_scripts :: "(string \<Rightarrow> int) \<Rightarrow> (string \<Rightarrow> bool) \<Rightarrow> string \<Rightarrow> bt_auto_action \<Rightarrow> bt_auto_action" where
  "jk_bt_find_auto_scripts exist al name a =
     (if script_on_count a \<noteq> 0 \<or> script_off_count a \<noteq> 0 then a
      else
        (let on = name @ ''_'' @ script_on_name a @ ''_''; off = name @ ''_'' @ script_off_name a @ ''_'';
             a = a\<lparr>script_on_prefix := (if al on then Some on else None)\<rparr>;
             a = (if al on then a\<lparr>script_on_count := exist on\<rparr> else a);
             a = a\<lparr>script_off_prefix := (if al off then Some off else None)\<rparr>
         in if al off then a\<lparr>script_off_count := exist off\<rparr> else a))"

definition jk_bt_automation_find_scripts :: "(string \<Rightarrow> int) \<Rightarrow> (string \<Rightarrow> bool) \<Rightarrow> jk_bms_dev \<Rightarrow> jk_bms_dev" where
  "jk_bt_automation_find_scripts exist al dev =
     (let dev = (if aa_enabled (auto_batt dev)
                 then dev\<lparr>auto_batt := jk_bt_find_auto_scripts exist al (DEV_NAME dev) (auto_batt dev)\<rparr> else dev)
      in if aa_enabled (auto_solar dev)
         then dev\<lparr>auto_solar := jk_bt_find_auto_scripts exist al (DEV_NAME dev) (auto_solar dev)\<rparr> else dev)"

definition jk_bt_enable_battery_track :: "bool \<Rightarrow> u16 \<Rightarrow> u16 \<Rightarrow> jk_bms_dev \<Rightarrow> jk_bms_dev option" where
  "jk_bt_enable_battery_track nw low high dev =
     (if low \<ge> high then Some dev
      else force_bms_data nw (dev\<lparr>cell_v_low := low, cell_v_high := high,
        auto_batt := (auto_batt dev)\<lparr>aa_enabled := True, script_on_name := ''batt_normal'', script_off_name := ''batt_low'',
          wh_on_message := ''battery normal'', wh_off_message := ''battery low'', aa_state := False\<rparr>\<rparr>))"

definition jk_bt_enable_solar_track ::
  "bool \<Rightarrow> (string \<Rightarrow> int) \<Rightarrow> (string \<Rightarrow> bool) \<Rightarrow> u16 \<Rightarrow> jk_bms_dev \<Rightarrow> jk_bms_dev option" where
  "jk_bt_enable_solar_track nw exist al thr dev =
     map_option (\<lambda>dev.
       if aa_enabled (auto_solar dev) \<and> script_on_count (auto_solar dev) = 0 \<and> script_off_count (auto_solar dev) = 0
       then dev\<lparr>auto_solar := jk_bt_find_auto_scripts exist al (DEV_NAME dev) (auto_solar dev)\<rparr> else dev)
       (force_bms_data nw (dev\<lparr>charge_current_threshold := thr,
          auto_solar := (auto_solar dev)\<lparr>aa_enabled := 0 < thr, script_on_name := ''solar_on'', script_off_name := ''solar_off'',
            wh_on_message := ''solar excess'', wh_off_message := ''solar deficiency'', aa_state := False\<rparr>\<rparr>))"

section \<open>Frames, events, requests\<close>

text \<open>The two readings of the clock: in \<open>jk_bt_check_solar\<close> and at the end.\<close>

definition bms_jk_frame_process :: "wh_oracle \<Rightarrow> u64 \<Rightarrow> u64 \<Rightarrow> jk_bms_dev \<Rightarrow> jk_bms_dev option" where
  "bms_jk_frame_process wh t1 t2 dev =
     (if \<not> nbuff_ready dev then Some dev
      else
        map_option (\<lambda>dev. dev\<lparr>last_reply := t2, nbuff_curr := 0, nbuff_ready := False, wait_reply := False\<rparr>)
          (if nbuff dev ! 4 = 0x02 then jk_bt_automation_run wh t1 (jk_bt_process_cell_frame dev)
           else if nbuff dev ! 4 = 0x03 then Some (jk_bt_process_device_frame dev)
           else Some dev))"

datatype jk_event =
  Jk_connected string | Jk_disconnected | Jk_ready | Jk_new_service
  | Jk_new_characteristic bool u32 u32 "u8 list" | Jk_value_received bool u32 "u8 list"

text \<open>
  The Bluetooth events; the flag of an event says whether its data have the expected size, \<open>dup\<close>
  whether \<open>strdup\<close> finds memory.
\<close>

definition jk_bt_event ::
  "(u32 \<Rightarrow> u8 list option) \<Rightarrow> (string \<Rightarrow> int) \<Rightarrow> (string \<Rightarrow> bool) \<Rightarrow> bool \<Rightarrow> u64 \<Rightarrow> int \<Rightarrow> jk_event
   \<Rightarrow> jk_bms_dev \<Rightarrow> jk_bms_dev" where
  "jk_bt_event svc exist al dup now idx event dev =
     (if idx \<noteq> jk_bt_index dev then dev
      else case event of
        Jk_connected name \<Rightarrow>
          jk_bt_automation_find_scripts exist al
            ((charc_reset (dev\<lparr>jk_name := (if dup then Some name else None)\<rparr>))\<lparr>jk_state := JK_CONNECTED,
               last_reply := now, jk_connect_count := jk_connect_count dev + 1\<rparr>)
      | Jk_disconnected \<Rightarrow> (charc_reset dev)\<lparr>jk_state := JK_DISCONNECTED, jk_name := None\<rparr>
      | Jk_ready \<Rightarrow> dev\<lparr>jk_state := JK_READY, last_reply := now\<rparr>
      | Jk_new_service \<Rightarrow> dev
      | Jk_new_characteristic size_ok char_id props uuid \<Rightarrow> if size_ok then charc_new svc char_id props uuid dev else dev
      | Jk_value_received size_ok charId val \<Rightarrow>
          if size_ok \<and> jk_state dev = JK_READY then jk_bt_process_terminal charId val dev else dev)"

definition jk_request :: "u8 \<Rightarrow> u32 \<Rightarrow> u8 \<Rightarrow> u8 list" where
  "jk_request address value len =
     (let f = jk_request_pkt_start @ [address, len, ucast value, ucast (drop_bit 8 value), ucast (drop_bit 16 value),
            ucast (drop_bit 24 value)] @ replicate 9 0
      in f @ [calc_crc f])"

text \<open>\<open>nt\<close> and \<open>wr\<close> are the answers of \<open>bt_characteristic_notify\<close> and \<open>bt_characteristic_write\<close>.\<close>

definition bms_jk_read_cmd :: "u64 \<Rightarrow> int \<Rightarrow> int \<Rightarrow> u8 \<Rightarrow> u32 \<Rightarrow> u8 \<Rightarrow> jk_bms_dev \<Rightarrow> int \<times> jk_bms_dev" where
  "bms_jk_read_cmd now nt wr address value len dev =
     (let id = tc_char_id (jk_term_charc dev);
          dev = (if tc_notify (jk_term_charc dev) then dev
                 else dev\<lparr>jk_calls := jk_calls dev @ [Bt_notify id],
                        jk_term_charc := (jk_term_charc dev)\<lparr>tc_notify := (nt = 0)\<rparr>\<rparr>);
          dev = dev\<lparr>jk_calls := jk_calls dev @ [Bt_write id (jk_request address value len)]\<rparr>;
          dev = (if wr = 0 then dev\<lparr>jk_term_charc := (jk_term_charc dev)\<lparr>tc_send_time := now\<rparr>\<rparr> else dev)
      in (if wr = 0 then 0 else -1, dev\<lparr>jk_calls := jk_calls dev @ [Bt_read id]\<rparr>))"

definition bms_jk_send_request :: "u64 \<Rightarrow> u64 \<Rightarrow> int \<Rightarrow> int \<Rightarrow> jk_bms_dev \<Rightarrow> jk_bms_dev" where
  "bms_jk_send_request t1 t2 nt wr dev =
     (let (_, dev) = bms_jk_read_cmd t1 nt wr
            (if request_count dev mod 10 \<noteq> 0 then JK_COMMAND_CELL_INFO else JK_COMMAND_DEVICE_INFO) 0 0 dev
      in dev\<lparr>request_count := request_count dev + 1, jk_send_time := t2, wait_reply := True\<rparr>)"

text \<open>What \<open>bms_jk_run\<close> does for one device before the frames are processed.\<close>

definition jk_poll_one :: "u64 \<Rightarrow> u64 \<Rightarrow> u64 \<Rightarrow> int \<Rightarrow> int \<Rightarrow> jk_bms_dev \<Rightarrow> jk_bms_dev" where
  "jk_poll_one now t1 t2 nt wr dev =
     (if jk_state dev \<noteq> JK_READY \<or> \<not> TERM_IS_ACTIVE dev then dev
      else if wait_reply dev then
        (if now - jk_send_time dev > CMD_TIMEOUT_MS
         then dev\<lparr>nbuff_curr := 0, nbuff_ready := False, wait_reply := False\<rparr> else dev)
      else if now - jk_send_time dev \<ge> CMD_POLL_MS then bms_jk_send_request t1 t2 nt wr dev
      else dev)"

section \<open>A new device\<close>

definition zero_cells :: bms_cells_info where
  "zero_cells =
     \<lparr>ci_valid = False, cell_v_force = False, cell_r_force = False, data_force = False, dev_force = False,
      cells_low_count = replicate BMS_MAX_CELLS 0, cells_high_count = replicate BMS_MAX_CELLS 0,
      cells_v = replicate BMS_MAX_CELLS 0, cells_res = replicate BMS_MAX_CELLS 0, cells_enabled = 0, v_avg = 0, v_delta = 0,
      cell_v_min = 0, cell_v_max = 0, power_temp = 0, cell_warn = 0, batt_volt = 0, batt_power = 0, batt_charge_curr = 0,
      batt_temp1 = 0, batt_temp2 = 0, batt_temp_mos = 0, alarms = 0, batt_balance_curr = 0, batt_action = 0, batt_state = 0,
      batt_cap_rem = 0, batt_cap_nom = 0, batt_cycles = 0, batt_cycles_cap = 0, soh = 0, run_time = 0, charge_enable = 0,
      discharge_enable = 0, precharge_enable = 0, ballance_work = 0, batt_v = 0, batt_heat_a = 0\<rparr>"

definition zero_auto :: bt_auto_action where
  "zero_auto = \<lparr>aa_enabled = False, aa_state = False, aa_runs = 0, script_on_name = [], script_on_prefix = None, script_on_count = 0,
     wh_on_message = [], script_off_name = [], script_off_prefix = None, script_off_count = 0, wh_off_message = []\<rparr>"

text \<open>A device as \<open>calloc\<close> leaves it, with its address and pin.\<close>

definition jk_new_device :: "u8 list \<Rightarrow> string \<Rightarrow> jk_bms_dev" where
  "jk_new_device address pin =
     \<lparr>jk_address = address, jk_name = None, user_name = None, jk_pin = pin, jk_bt_index = 0, jk_send_time = 0, last_reply = 0,
      request_count = 0, jk_state = JK_DISCONNECTED,
      dev_info = \<lparr>di_valid = False, Vendor = replicate 16 0, Model = replicate 16 0, Hardware = replicate 8 0,
        Software = replicate 8 0, ManufacturingDate = replicate 8 0, SerialN = replicate 12 0, Uptime = 0, PowerOnCount = 0,
        PassRead = replicate 16 0, PassSetup = replicate 16 0\<rparr>,
      cell_info = zero_cells, nbuff_ready = False, wait_reply = False, nbuff = replicate NOTIFY_PACKET_SIZE 0, nbuff_curr = 0,
      jk_term_charc = \<lparr>tc_valid = False, tc_char_id = 0, svc_uid128 = replicate 16 0, charc_uid128 = replicate 16 0,
        tc_properties = 0, tc_send_time = 0, tc_notify = False\<rparr>,
      jk_mqtt = \<lparr>jm_cells_v = None, jm_cells_res = None, jm_bms_data = None, jm_bms_info = None, jm_payload = [], send_id = 0,
        jm_last_send = 0\<rparr>,
      jk_connect_count = 0, timeout_msec = 0, auto_batt = zero_auto, cell_v_low = 0, cell_v_high = 0, auto_solar = zero_auto,
      charge_current_threshold = 0, last_solar_try = 0, jk_calls = []\<rparr>"

end
