(* ===== verification/JkBattery.thy ===== *)
theory JkBattery
  imports JkBms
begin

text \<open>
  What \<open>JkBms\<close> guarantees: a frame is received from its pieces, a cell frame says what it says, and
  the automation calls its scripts exactly when the state of the battery changes.
\<close>

section \<open>Reception of a frame\<close>

text \<open>A complete notification: its length, its start and its checksum.\<close>

definition jk_frame :: "u8 list \<Rightarrow> bool" where
  "jk_frame f \<longleftrightarrow> length f = NOTIFY_PACKET_SIZE \<and> take 4 f = jk_notify_pkt_start \<and> 
     calc_crc (take (NOTIFY_PACKET_SIZE - 1) f) = f ! (NOTIFY_PACKET_SIZE - 1)"

lemma packet_pos: "0 < NOTIFY_PACKET_SIZE"
  by (simp add: NOTIFY_PACKET_SIZE_def)

lemma pkt_start_length: "length jk_notify_pkt_start = 4"
  by (simp add: jk_notify_pkt_start_def)

definition rx_ok :: "jk_bms_dev \<Rightarrow> bool" where
  "rx_ok dev \<longleftrightarrow> length (nbuff dev) = NOTIFY_PACKET_SIZE \<and>
     (if nbuff_ready dev then jk_frame (nbuff dev) else nbuff_curr dev < NOTIFY_PACKET_SIZE)"

definition jk_fed :: "u8 list \<Rightarrow> jk_bms_dev \<Rightarrow> jk_bms_dev" where
  "jk_fed d dev = dev\<lparr>nbuff := take (nbuff_curr dev) (nbuff dev) @ d @ drop (nbuff_curr dev + length d) (nbuff dev),
     nbuff_curr := nbuff_curr dev + length d\<rparr>"

definition jk_closed :: "jk_bms_dev \<Rightarrow> jk_bms_dev" where
  "jk_closed dev =
     (if nbuff_curr dev \<noteq> NOTIFY_PACKET_SIZE then dev
      else if jk_frame (nbuff dev) then dev\<lparr>nbuff_ready := True\<rparr> else dev\<lparr>nbuff_curr := 0\<rparr>)"

lemma terminal_feeds:
  assumes "rx_ok dev" and "\<not> nbuff_ready dev" and "tc_char_id (jk_term_charc dev) = ch" and "4 \<le> length d"
    and "n = (if take 4 d = jk_notify_pkt_start then 0 else nbuff_curr dev)" and "m = min (length d) (NOTIFY_PACKET_SIZE - n)"
  shows "jk_bt_process_terminal ch d dev = jk_closed (jk_fed (take m d) (dev\<lparr>nbuff_curr := n\<rparr>))"
proof -
  let ?new = "take 4 d = jk_notify_pkt_start" and ?N = NOTIFY_PACKET_SIZE
  have n: "n < ?N" using assms(1,2,5) by (simp add: rx_ok_def)
  have cs: "(if ?new then if length d < ?N then length d else ?N
      else if length d < ?N - n then length d else ?N - n) = m"
    using assms(5,6) by (simp add: min_def)
  define buf where "buf = take n (nbuff dev) @ take m d @ drop (n + m) (nbuff dev)"
  have lm: "length (take m d) = m" using assms(6) by simp
  have lb: "length buf = ?N" using n assms(1,6) unfolding buf_def by (auto simp: rx_ok_def)
  have "jk_bt_process_terminal ch d dev =
      (let dev = dev\<lparr>nbuff := buf, nbuff_curr := n + m\<rparr> in
       if n + m = ?N then
         if take 4 buf \<noteq> jk_notify_pkt_start then dev\<lparr>nbuff_curr := 0\<rparr>
         else if calc_crc (take (n + m - 1) buf) \<noteq> buf ! (n + m - 1) then dev\<lparr>nbuff_curr := 0\<rparr>
         else dev\<lparr>nbuff_ready := True\<rparr>
       else dev)"
    using assms(2-4) unfolding jk_bt_process_terminal_def pkt_start_length Let_def assms(5) [symmetric] cs buf_def [symmetric] by simp
  also have "\<dots> = jk_closed (dev\<lparr>nbuff := buf, nbuff_curr := n + m\<rparr>)"
    using lb by (simp add: jk_closed_def jk_frame_def Let_def)
  also have "dev\<lparr>nbuff := buf, nbuff_curr := n + m\<rparr> = jk_fed (take m d) (dev\<lparr>nbuff_curr := n\<rparr>)"
    unfolding jk_fed_def lm by (simp add: buf_def lm)
  finally show ?thesis .
qed

lemma closed_ok:
  assumes "length (nbuff dev) = NOTIFY_PACKET_SIZE" and "nbuff_curr dev \<le> NOTIFY_PACKET_SIZE" and "\<not> nbuff_ready dev"
  shows "rx_ok (jk_closed dev)"
proof (cases "nbuff_curr dev = NOTIFY_PACKET_SIZE")
  case True
  then show ?thesis using assms(1,3) by (cases "jk_frame (nbuff dev)") (simp_all add: rx_ok_def jk_closed_def packet_pos)
next
  case False
  with assms(2) have "nbuff_curr dev < NOTIFY_PACKET_SIZE" by (rule le_neq_implies_less)
  then show ?thesis using assms(1,3) by (simp add: rx_ok_def jk_closed_def)
qed

lemma terminal_ok:
  assumes "rx_ok dev"
  shows "rx_ok (jk_bt_process_terminal ch d dev)"
proof (cases "nbuff_ready dev \<or> tc_char_id (jk_term_charc dev) \<noteq> ch \<or> length d < 4")
  case True
  then have "jk_bt_process_terminal ch d dev = dev"
    by (elim disjE) (simp_all add: jk_bt_process_terminal_def pkt_start_length Let_def)
  then show ?thesis using assms by simp
next
  case False
  define n where "n = (if take 4 d = jk_notify_pkt_start then 0 else nbuff_curr dev)"
  define m where "m = min (length d) (NOTIFY_PACKET_SIZE - n)"
  have n: "n < NOTIFY_PACKET_SIZE" using assms False by (simp add: n_def rx_ok_def)
  then have m: "n + length (take m d) \<le> NOTIFY_PACKET_SIZE" by (simp add: m_def)
  have "jk_bt_process_terminal ch d dev = jk_closed (jk_fed (take m d) (dev\<lparr>nbuff_curr := n\<rparr>))"
    using False assms by (intro terminal_feeds n_def m_def) simp_all
  moreover have "rx_ok (jk_closed (jk_fed (take m d) (dev\<lparr>nbuff_curr := n\<rparr>)))"
    using False assms n m by (intro closed_ok) (simp_all add: jk_fed_def rx_ok_def)
  ultimately show ?thesis by simp
qed

lemma fed_curr [simp]: "nbuff_curr (jk_fed d dev) = nbuff_curr dev + length d"
  by (simp add: jk_fed_def)

lemma fed_keeps [simp]:
  "nbuff_ready (jk_fed d dev) = nbuff_ready dev" "jk_term_charc (jk_fed d dev) = jk_term_charc dev"
  "nbuff_curr dev + length d \<le> length (nbuff dev) \<Longrightarrow> length (nbuff (jk_fed d dev)) = length (nbuff dev)"
  by (simp_all add: jk_fed_def)

lemma fed_twice:
  "nbuff_curr dev + length a + length b \<le> length (nbuff dev) \<Longrightarrow> jk_fed b (jk_fed a dev) = jk_fed (a @ b) dev"
  by (cases a) (auto simp: jk_fed_def min_def ac_simps)

lemma closed_open: "nbuff_curr dev < NOTIFY_PACKET_SIZE \<Longrightarrow> jk_closed dev = dev"
  by (simp add: jk_closed_def)

text \<open>Chunks that do not look like the start of a frame are appended.\<close>

lemma chunks_fed:
  assumes "rx_ok dev" and "\<not> nbuff_ready dev" and "tc_char_id (jk_term_charc dev) = ch"
    and "nbuff_curr dev + length (concat cs) = NOTIFY_PACKET_SIZE"
    and "\<forall>d\<in>set cs. 4 \<le> length d \<and> take 4 d \<noteq> jk_notify_pkt_start"
  shows "fold (jk_bt_process_terminal ch) cs dev = jk_closed (jk_fed (concat cs) dev)"
  using assms
proof (induction cs arbitrary: dev)
  case Nil
  then show ?case by (simp add: rx_ok_def)
next
  case (Cons d cs)
  have len: "length (nbuff dev) = NOTIFY_PACKET_SIZE" using Cons.prems(1) by (simp add: rx_ok_def)
  have step: "jk_bt_process_terminal ch d dev = jk_closed (jk_fed d dev)"
    using terminal_feeds [OF Cons.prems(1,2,3), of d "nbuff_curr dev" "length d"] Cons.prems(4,5) by auto
  show ?case
  proof (cases cs)
    case Nil
    then show ?thesis using step by simp
  next
    case (Cons e es)
    have "0 < length (concat cs)" using Cons Cons.prems(5) by auto
    then have lt: "nbuff_curr dev + length d < NOTIFY_PACKET_SIZE"
      using Cons.prems(4) by (simp only: concat.simps length_append)
    then have o: "jk_closed (jk_fed d dev) = jk_fed d dev" by (intro closed_open) simp
    have ok: "rx_ok (jk_fed d dev)"
      using Cons.prems(2) len lt by (simp add: rx_ok_def)
    have "fold (jk_bt_process_terminal ch) cs (jk_fed d dev) = jk_closed (jk_fed (concat cs) (jk_fed d dev))"
      using Cons.prems by (intro Cons.IH ok) (simp_all add: add.assoc)
    then show ?thesis using Cons.prems(4) len by (simp add: step o fed_twice)
  qed
qed

lemma frame_received:
  assumes "rx_ok dev" and "\<not> nbuff_ready dev" and "tc_char_id (jk_term_charc dev) = ch"
    and "concat (c # cs) = f" and "length f = NOTIFY_PACKET_SIZE" and "take 4 f = jk_notify_pkt_start"
    and "\<forall>d\<in>set (c # cs). 4 \<le> length d" and "\<forall>d\<in>set cs. take 4 d \<noteq> jk_notify_pkt_start"
  shows "fold (jk_bt_process_terminal ch) (c # cs) dev =
    (if jk_frame f then dev\<lparr>nbuff := f, nbuff_curr := NOTIFY_PACKET_SIZE, nbuff_ready := True\<rparr>
     else dev\<lparr>nbuff := f, nbuff_curr := 0\<rparr>)"
proof -
  let ?d0 = "dev\<lparr>nbuff_curr := 0\<rparr>"
  have len: "length (nbuff dev) = NOTIFY_PACKET_SIZE" using assms(1) by (simp add: rx_ok_def)
  have lc: "length c + length (concat cs) = NOTIFY_PACKET_SIZE" using assms(4,5) by auto
  have "take 4 c = jk_notify_pkt_start" using assms(4,6,7) by auto
  then have step: "jk_bt_process_terminal ch c dev = jk_closed (jk_fed c ?d0)"
    using terminal_feeds [OF assms(1,2,3), of c 0 "length c"] assms(7) lc by simp
  have whole: "jk_closed (jk_fed f ?d0) =
    (if jk_frame f then dev\<lparr>nbuff := f, nbuff_curr := NOTIFY_PACKET_SIZE, nbuff_ready := True\<rparr>
     else dev\<lparr>nbuff := f, nbuff_curr := 0\<rparr>)"
    using assms(5) len by (simp add: jk_closed_def jk_fed_def)
  show ?thesis
  proof (cases cs)
    case Nil
    then show ?thesis using step whole assms(4) by simp
  next
    case (Cons e es)
    have "0 < length (concat cs)" using Cons assms(7) by auto
    then have lt: "length c < NOTIFY_PACKET_SIZE" using lc by linarith
    then have o: "jk_closed (jk_fed c ?d0) = jk_fed c ?d0" by (intro closed_open) simp
    have ok: "rx_ok (jk_fed c ?d0)"
      using assms(2) lt len by (simp add: rx_ok_def)
    have "fold (jk_bt_process_terminal ch) cs (jk_fed c ?d0) = jk_closed (jk_fed (concat cs) (jk_fed c ?d0))"
      using assms lc by (intro chunks_fed ok) simp_all
    then show ?thesis using whole lc len assms(4) by (simp add: step o fed_twice)
  qed
qed

section \<open>What a cell frame says\<close>

text \<open>Reading a field is an update of it that also notes a change.\<close>

lemma data_reads:
  "BMS_DATA_READ cells_enabled cells_enabled_update w c = c\<lparr>data_force := data_force c \<or> cells_enabled c \<noteq> w, cells_enabled := w\<rparr>"
  "BMS_DATA_READ cell_warn cell_warn_update w c = c\<lparr>data_force := data_force c \<or> cell_warn c \<noteq> w, cell_warn := w\<rparr>"
  "BMS_DATA_READ batt_volt batt_volt_update w c = c\<lparr>data_force := data_force c \<or> batt_volt c \<noteq> w, batt_volt := w\<rparr>"
  "BMS_DATA_READ batt_power batt_power_update w c = c\<lparr>data_force := data_force c \<or> batt_power c \<noteq> w, batt_power := w\<rparr>"
  "BMS_DATA_READ batt_cap_rem batt_cap_rem_update w c = c\<lparr>data_force := data_force c \<or> batt_cap_rem c \<noteq> w, batt_cap_rem := w\<rparr>"
  "BMS_DATA_READ batt_cap_nom batt_cap_nom_update w c = c\<lparr>data_force := data_force c \<or> batt_cap_nom c \<noteq> w, batt_cap_nom := w\<rparr>"
  "BMS_DATA_READ batt_cycles batt_cycles_update w c = c\<lparr>data_force := data_force c \<or> batt_cycles c \<noteq> w, batt_cycles := w\<rparr>"
  "BMS_DATA_READ batt_cycles_cap batt_cycles_cap_update w c = c\<lparr>data_force := data_force c \<or> batt_cycles_cap c \<noteq> w, batt_cycles_cap := w\<rparr>"
  "BMS_DATA_READ run_time run_time_update w c = c\<lparr>data_force := data_force c \<or> run_time c \<noteq> w, run_time := w\<rparr>"
  "BMS_DATA_READ v_avg v_avg_update h c = c\<lparr>data_force := data_force c \<or> v_avg c \<noteq> h, v_avg := h\<rparr>"
  "BMS_DATA_READ v_delta v_delta_update h c = c\<lparr>data_force := data_force c \<or> v_delta c \<noteq> h, v_delta := h\<rparr>"
  "BMS_DATA_READ power_temp power_temp_update h c = c\<lparr>data_force := data_force c \<or> power_temp c \<noteq> h, power_temp := h\<rparr>"
  "BMS_DATA_READ batt_temp1 batt_temp1_update h c = c\<lparr>data_force := data_force c \<or> batt_temp1 c \<noteq> h, batt_temp1 := h\<rparr>"
  "BMS_DATA_READ batt_temp2 batt_temp2_update h c = c\<lparr>data_force := data_force c \<or> batt_temp2 c \<noteq> h, batt_temp2 := h\<rparr>"
  "BMS_DATA_READ batt_temp_mos batt_temp_mos_update h c = c\<lparr>data_force := data_force c \<or> batt_temp_mos c \<noteq> h, batt_temp_mos := h\<rparr>"
  "BMS_DATA_READ alarms alarms_update h c = c\<lparr>data_force := data_force c \<or> alarms c \<noteq> h, alarms := h\<rparr>"
  "BMS_DATA_READ batt_balance_curr batt_balance_curr_update h c = c\<lparr>data_force := data_force c \<or> batt_balance_curr c \<noteq> h, batt_balance_curr := h\<rparr>"
  "BMS_DATA_READ batt_v batt_v_update h c = c\<lparr>data_force := data_force c \<or> batt_v c \<noteq> h, batt_v := h\<rparr>"
  "BMS_DATA_READ batt_heat_a batt_heat_a_update h c = c\<lparr>data_force := data_force c \<or> batt_heat_a c \<noteq> h, batt_heat_a := h\<rparr>"
  "BMS_DATA_READ cell_v_max cell_v_max_update b c = c\<lparr>data_force := data_force c \<or> cell_v_max c \<noteq> b, cell_v_max := b\<rparr>"
  "BMS_DATA_READ cell_v_min cell_v_min_update b c = c\<lparr>data_force := data_force c \<or> cell_v_min c \<noteq> b, cell_v_min := b\<rparr>"
  "BMS_DATA_READ batt_action batt_action_update b c = c\<lparr>data_force := data_force c \<or> batt_action c \<noteq> b, batt_action := b\<rparr>"
  "BMS_DATA_READ batt_state batt_state_update b c = c\<lparr>data_force := data_force c \<or> batt_state c \<noteq> b, batt_state := b\<rparr>"
  "BMS_DATA_READ soh soh_update b c = c\<lparr>data_force := data_force c \<or> soh c \<noteq> b, soh := b\<rparr>"
  "BMS_DATA_READ batt_charge_curr batt_charge_curr_update i c = c\<lparr>data_force := data_force c \<or> batt_charge_curr c \<noteq> i, batt_charge_curr := i\<rparr>"
  by (cases c; simp add: BMS_DATA_READ_def)+

lemma bit_reads:
  "ci_valid (BMS_BIT_READ charge_enable charge_enable_update b c) = ci_valid c"
  "cell_v_force (BMS_BIT_READ charge_enable charge_enable_update b c) = cell_v_force c"
  "cell_r_force (BMS_BIT_READ charge_enable charge_enable_update b c) = cell_r_force c"
  "cells_low_count (BMS_BIT_READ charge_enable charge_enable_update b c) = cells_low_count c"
  "cells_high_count (BMS_BIT_READ charge_enable charge_enable_update b c) = cells_high_count c"
  "cells_v (BMS_BIT_READ charge_enable charge_enable_update b c) = cells_v c"
  "cells_res (BMS_BIT_READ charge_enable charge_enable_update b c) = cells_res c"
  "cells_enabled (BMS_BIT_READ charge_enable charge_enable_update b c) = cells_enabled c"
  "batt_charge_curr (BMS_BIT_READ charge_enable charge_enable_update b c) = batt_charge_curr c"
  "batt_state (BMS_BIT_READ charge_enable charge_enable_update b c) = batt_state c"
  "ci_valid (BMS_BIT_READ discharge_enable discharge_enable_update b c) = ci_valid c"
  "cell_v_force (BMS_BIT_READ discharge_enable discharge_enable_update b c) = cell_v_force c"
  "cell_r_force (BMS_BIT_READ discharge_enable discharge_enable_update b c) = cell_r_force c"
  "cells_low_count (BMS_BIT_READ discharge_enable discharge_enable_update b c) = cells_low_count c"
  "cells_high_count (BMS_BIT_READ discharge_enable discharge_enable_update b c) = cells_high_count c"
  "cells_v (BMS_BIT_READ discharge_enable discharge_enable_update b c) = cells_v c"
  "cells_res (BMS_BIT_READ discharge_enable discharge_enable_update b c) = cells_res c"
  "cells_enabled (BMS_BIT_READ discharge_enable discharge_enable_update b c) = cells_enabled c"
  "batt_charge_curr (BMS_BIT_READ discharge_enable discharge_enable_update b c) = batt_charge_curr c"
  "batt_state (BMS_BIT_READ discharge_enable discharge_enable_update b c) = batt_state c"
  "ci_valid (BMS_BIT_READ precharge_enable precharge_enable_update b c) = ci_valid c"
  "cell_v_force (BMS_BIT_READ precharge_enable precharge_enable_update b c) = cell_v_force c"
  "cell_r_force (BMS_BIT_READ precharge_enable precharge_enable_update b c) = cell_r_force c"
  "cells_low_count (BMS_BIT_READ precharge_enable precharge_enable_update b c) = cells_low_count c"
  "cells_high_count (BMS_BIT_READ precharge_enable precharge_enable_update b c) = cells_high_count c"
  "cells_v (BMS_BIT_READ precharge_enable precharge_enable_update b c) = cells_v c"
  "cells_res (BMS_BIT_READ precharge_enable precharge_enable_update b c) = cells_res c"
  "cells_enabled (BMS_BIT_READ precharge_enable precharge_enable_update b c) = cells_enabled c"
  "batt_charge_curr (BMS_BIT_READ precharge_enable precharge_enable_update b c) = batt_charge_curr c"
  "batt_state (BMS_BIT_READ precharge_enable precharge_enable_update b c) = batt_state c"
  "ci_valid (BMS_BIT_READ ballance_work ballance_work_update b c) = ci_valid c"
  "cell_v_force (BMS_BIT_READ ballance_work ballance_work_update b c) = cell_v_force c"
  "cell_r_force (BMS_BIT_READ ballance_work ballance_work_update b c) = cell_r_force c"
  "cells_low_count (BMS_BIT_READ ballance_work ballance_work_update b c) = cells_low_count c"
  "cells_high_count (BMS_BIT_READ ballance_work ballance_work_update b c) = cells_high_count c"
  "cells_v (BMS_BIT_READ ballance_work ballance_work_update b c) = cells_v c"
  "cells_res (BMS_BIT_READ ballance_work ballance_work_update b c) = cells_res c"
  "cells_enabled (BMS_BIT_READ ballance_work ballance_work_update b c) = cells_enabled c"
  "batt_charge_curr (BMS_BIT_READ ballance_work ballance_work_update b c) = batt_charge_curr c"
  "batt_state (BMS_BIT_READ ballance_work ballance_work_update b c) = batt_state c"
  by (simp_all add: BMS_BIT_READ_def)

definition cell_reading :: "u8 list \<Rightarrow> nat \<Rightarrow> u16" where
  "cell_reading f i = DATA_UINT16_GET f (6 + i * 2)"

lemma cell_fields:
  defines "r b c \<equiv> fold (\<lambda>f. f b) jk_cell_fields c"
  shows "ci_valid (r b c) = ci_valid c" "cells_low_count (r b c) = cells_low_count c"
    "cells_high_count (r b c) = cells_high_count c" "cells_v (r b c) = map (cell_reading b) [0 ..< 32]"
    "cells_enabled (r b c) = DATA_UINT32_GET b 70" "batt_charge_curr (r b c) = DATA_INT32_GET b 158"
    "batt_state (r b c) = DATA_UINT8_GET b 173"
    "cell_v_force (r b c) = (cell_v_force c \<or> cells_v c \<noteq> map (cell_reading b) [0 ..< 32])"
  unfolding r_def jk_cell_fields_def
  by (simp_all add: data_reads bit_reads jk_cell_voltages_def jk_cell_resistances_def cell_reading_def [abs_def] BMS_MAX_CELLS_def Let_def)

section \<open>The state of the battery\<close>

lemma takeWhile_upt: "takeWhile P [a ..< b] = [a ..< a + length (takeWhile P [a ..< b])]"
proof (cases "a \<le> b")
  case True
  define n where "n = length (takeWhile P [a ..< b])"
  have "n \<le> b - a" using length_takeWhile_le [of P "[a ..< b]"] by (simp add: n_def)
  then have "take n [a ..< b] = [a ..< a + n]" using True by (intro take_upt) simp
  then show ?thesis using takeWhile_eq_take [of P "[a ..< b]"] by (simp flip: n_def)
qed simp

definition used_count :: "bms_cells_info \<Rightarrow> nat" where
  "used_count c = length (cells_used c)"

lemma cells_used_upt: "cells_used c = [0 ..< used_count c]"
  unfolding cells_used_def used_count_def using takeWhile_upt [of "cell_on c" 0 BMS_MAX_CELLS] by simp

lemma used_count_le: "used_count c \<le> 32"
  unfolding used_count_def cells_used_def using length_takeWhile_le [of "cell_on c" "[0 ..< BMS_MAX_CELLS]"]
  by (simp add: BMS_MAX_CELLS_def)

lemma used_on: "i < used_count c \<Longrightarrow> cell_on c i"
  using cells_used_upt [of c] set_takeWhileD [of i "cell_on c" "[0 ..< BMS_MAX_CELLS]"] by (simp add: cells_used_def)

lemma used_end: "\<not> cell_on c (used_count c)"
proof (cases "used_count c < 32")
  case True
  then show ?thesis
    using nth_length_takeWhile [of "cell_on c" "[0 ..< BMS_MAX_CELLS]"]
    by (simp add: used_count_def cells_used_def BMS_MAX_CELLS_def)
qed (simp add: cell_on_def)

lemma cell_on_counts [simp]:
  "cell_on (c\<lparr>cells_low_count := l\<rparr>) = cell_on c" "cell_on (c\<lparr>cells_high_count := h\<rparr>) = cell_on c"
  by (auto simp: cell_on_def fun_eq_iff)

lemma used_counts [simp]:
  "used_count (c\<lparr>cells_low_count := l\<rparr>) = used_count c" "used_count (c\<lparr>cells_high_count := h\<rparr>) = used_count c"
  by (simp_all add: used_count_def cells_used_def)

text \<open>Zeroing the counts of the used cells.\<close>

definition zero_first :: "nat \<Rightarrow> u32 list \<Rightarrow> u32 list" where
  "zero_first n l = fold (\<lambda>i l. l[i := 0]) [0 ..< n] l"

lemma zero_first_nth: "length (zero_first n l) = length l \<and> (\<forall>j<length l. zero_first n l ! j = (if j < n then 0 else l ! j))"
  by (induction n) (auto simp: zero_first_def nth_list_update less_Suc_eq)

lemma reset_counts_eq:
  "reset_counts c = c\<lparr>cells_low_count := zero_first (used_count c) (cells_low_count c),
     cells_high_count := zero_first (used_count c) (cells_high_count c)\<rparr>"
proof -
  have "fold (\<lambda>i c. c\<lparr>cells_low_count := (cells_low_count c)[i := 0], cells_high_count := (cells_high_count c)[i := 0]\<rparr>) is c =
      c\<lparr>cells_low_count := fold (\<lambda>i l. l[i := 0]) is (cells_low_count c),
        cells_high_count := fold (\<lambda>i l. l[i := 0]) is (cells_high_count c)\<rparr>" for "is" c
    by (induction "is" arbitrary: c) simp_all
  then show ?thesis unfolding reset_counts_def cells_used_upt zero_first_def .
qed

text \<open>One more reading of a cell.\<close>

definition bump :: "bool \<Rightarrow> u32 \<Rightarrow> u32" where
  "bump b n = (if b then n + 1 else n)"

lemma low_scan_result:
  assumes "distinct ks" and "\<forall>i\<in>set ks. i < length (cells_low_count c)"
  shows "\<exists>l. snd (low_scan lo ks c) = c\<lparr>cells_low_count := l\<rparr> \<and> length l = length (cells_low_count c) \<and>
    (fst (low_scan lo ks c) \<longleftrightarrow>
      (\<exists>i\<in>set (takeWhile (cell_on c) ks). bump (cells_v c ! i < lo) (cells_low_count c ! i) \<ge> 3)) \<and>
    (\<not> fst (low_scan lo ks c) \<longrightarrow>
      (\<forall>i<length l. l ! i = (if i \<in> set (takeWhile (cell_on c) ks) then bump (cells_v c ! i < lo) (cells_low_count c ! i)
         else cells_low_count c ! i)))"
  using assms
proof (induction ks arbitrary: c)
  case Nil
  then show ?case by (intro exI [of _ "cells_low_count c"]) simp
next
  case (Cons i ks)
  show ?case
  proof (cases "cell_on c i")
    case False
    then show ?thesis by (intro exI [of _ "cells_low_count c"]) simp
  next
    case True
    define l1 where "l1 = (cells_low_count c)[i := bump (cells_v c ! i < lo) (cells_low_count c ! i)]"
    define c1 where "c1 = c\<lparr>cells_low_count := l1\<rparr>"
    have c1: "(if cells_v c ! i < lo then c\<lparr>cells_low_count := (cells_low_count c)[i := cells_low_count c ! i + 1]\<rparr> else c) = c1"
      by (simp add: c1_def l1_def bump_def)
    have l1: "length l1 = length (cells_low_count c)" "l1 ! i = bump (cells_v c ! i < lo) (cells_low_count c ! i)"
      "\<And>j. j \<noteq> i \<Longrightarrow> l1 ! j = cells_low_count c ! j"
      using Cons.prems(2) by (simp_all add: l1_def)
    have s: "low_scan lo (i # ks) c = (if l1 ! i \<ge> 3 then (True, c1) else low_scan lo ks c1)"
      using True by (simp add: c1 BATT_STATE_COUNT_THR_def) (simp add: c1_def)
    show ?thesis
    proof (cases "l1 ! i \<ge> 3")
      case T: True
      then show ?thesis using s True l1 by (intro exI [of _ l1]) (auto simp: c1_def)
    next
      case F: False
      obtain l where l: "snd (low_scan lo ks c1) = c1\<lparr>cells_low_count := l\<rparr>" "length l = length l1"
        "fst (low_scan lo ks c1) \<longleftrightarrow> (\<exists>j\<in>set (takeWhile (cell_on c) ks). bump (cells_v c ! j < lo) (l1 ! j) \<ge> 3)"
        "\<not> fst (low_scan lo ks c1) \<Longrightarrow> \<forall>j<length l. l ! j = (if j \<in> set (takeWhile (cell_on c) ks)
            then bump (cells_v c ! j < lo) (l1 ! j) else l1 ! j)"
        using Cons.IH [of c1] Cons.prems l1(1) by (auto simp: c1_def)
      have notin: "i \<notin> set (takeWhile (cell_on c) ks)" using Cons.prems(1) by (auto dest: set_takeWhileD)
      have A: "fst (low_scan lo ks c1) \<longleftrightarrow>
          (\<exists>j\<in>set (takeWhile (cell_on c) (i # ks)). bump (cells_v c ! j < lo) (cells_low_count c ! j) \<ge> 3)"
        using l(3) F True l1 notin by auto metis+
      have B: "\<forall>j<length l. l ! j = (if j \<in> set (takeWhile (cell_on c) (i # ks))
          then bump (cells_v c ! j < lo) (cells_low_count c ! j) else cells_low_count c ! j)"
        if "\<not> fst (low_scan lo ks c1)"
        using l(4) [OF that] True l1 notin by (auto split: if_splits) metis+
      have e: "low_scan lo (i # ks) c = low_scan lo ks c1" using s F by simp
      have C: "snd (low_scan lo ks c1) = c\<lparr>cells_low_count := l\<rparr>" using l(1) by (simp add: c1_def)
      show ?thesis unfolding e using A B C l(2) l1(1) by (intro exI [of _ l] conjI impI) simp_all
    qed
  qed
qed

lemma low_scan_cells:
  assumes "length (cells_low_count c) = 32"
  obtains l where "low_scan lo [0 ..< BMS_MAX_CELLS] c =
      ((\<exists>i<used_count c. bump (cells_v c ! i < lo) (cells_low_count c ! i) \<ge> 3), c\<lparr>cells_low_count := l\<rparr>)"
    and "length l = 32"
    and "\<not> (\<exists>i<used_count c. bump (cells_v c ! i < lo) (cells_low_count c ! i) \<ge> 3) \<Longrightarrow>
      \<forall>i<used_count c. l ! i = bump (cells_v c ! i < lo) (cells_low_count c ! i)"
proof -
  have u: "set (takeWhile (cell_on c) [0 ..< BMS_MAX_CELLS]) = {..<used_count c}"
    using cells_used_upt [of c] by (auto simp: cells_used_def)
  obtain l where l: "snd (low_scan lo [0 ..< BMS_MAX_CELLS] c) = c\<lparr>cells_low_count := l\<rparr>" "length l = 32"
    "fst (low_scan lo [0 ..< BMS_MAX_CELLS] c) \<longleftrightarrow> (\<exists>i<used_count c. bump (cells_v c ! i < lo) (cells_low_count c ! i) \<ge> 3)"
    "\<not> fst (low_scan lo [0 ..< BMS_MAX_CELLS] c) \<Longrightarrow>
      \<forall>i<32. l ! i = (if i < used_count c then bump (cells_v c ! i < lo) (cells_low_count c ! i) else cells_low_count c ! i)"
    using low_scan_result [of "[0 ..< BMS_MAX_CELLS]" c lo] assms unfolding u by (auto simp: BMS_MAX_CELLS_def)
  have n: "used_count c \<le> 32" by (rule used_count_le)
  show ?thesis
  proof (rule that [of l])
    show "low_scan lo [0 ..< BMS_MAX_CELLS] c =
      ((\<exists>i<used_count c. bump (cells_v c ! i < lo) (cells_low_count c ! i) \<ge> 3), c\<lparr>cells_low_count := l\<rparr>)"
      using l(1,3) by (simp add: prod_eq_iff)
  next
    show "\<forall>i<used_count c. l ! i = bump (cells_v c ! i < lo) (cells_low_count c ! i)"
      if "\<not> (\<exists>i<used_count c. bump (cells_v c ! i < lo) (cells_low_count c ! i) \<ge> 3)"
      using l(4) that l(3) n by auto
  qed (rule l(2))
qed

text \<open>The cells of a low battery.\<close>

definition bumped :: "u16 \<Rightarrow> u16 list \<Rightarrow> nat \<Rightarrow> u32 list \<Rightarrow> u32 list" where
  "bumped hi vs n h = fold (\<lambda>i h. h[i := bump (hi \<le> vs ! i) (h ! i)]) [0 ..< n] h"

lemma bumped_nth:
  "length (bumped hi vs n h) = length h \<and>
   (\<forall>i<length h. bumped hi vs n h ! i = (if i < n then bump (hi \<le> vs ! i) (h ! i) else h ! i))"
  by (induction n) (auto simp: bumped_def nth_list_update less_Suc_eq)

lemma high_count_bumped:
  "high_count hi c = c\<lparr>cells_high_count := bumped hi (cells_v c) (used_count c) (cells_high_count c)\<rparr>"
proof -
  have "fold (\<lambda>i c. if cells_v c ! i \<ge> hi then c\<lparr>cells_high_count := (cells_high_count c)[i := cells_high_count c ! i + 1]\<rparr> else c)
      ks c = c\<lparr>cells_high_count := fold (\<lambda>i h. h[i := bump (hi \<le> cells_v c ! i) (h ! i)]) ks (cells_high_count c)\<rparr>" for ks c
    by (induction ks arbitrary: c) (simp_all add: bump_def)
  then show ?thesis unfolding high_count_def cells_used_upt bumped_def .
qed

lemma high_count_eq:
  assumes "length (cells_high_count c) = 32"
  obtains h where "high_count hi c = c\<lparr>cells_high_count := h\<rparr>" and "length h = 32"
    and "\<forall>i<used_count c. h ! i = bump (cells_v c ! i \<ge> hi) (cells_high_count c ! i)"
  by (rule that [OF high_count_bumped])
    (use bumped_nth [of hi "cells_v c" "used_count c" "cells_high_count c"] assms used_count_le [of c] in auto)

lemma high_all_iff: "high_all c \<longleftrightarrow> (\<forall>i<used_count c. cells_high_count c ! i \<ge> 3)"
proof -
  let ?P = "\<lambda>i. cell_on c i \<and> cells_high_count c ! i \<ge> BATT_STATE_COUNT_THR"
  define k where "k = length (takeWhile ?P [0 ..< BMS_MAX_CELLS])"
  have k: "takeWhile ?P [0 ..< BMS_MAX_CELLS] = [0 ..< k]" using takeWhile_upt [of ?P 0 BMS_MAX_CELLS] by (simp add: k_def)
  have kl: "k \<le> 32" using length_takeWhile_le [of ?P "[0 ..< BMS_MAX_CELLS]"] by (simp add: k_def BMS_MAX_CELLS_def)
  have below: "?P i" if "i < k" for i using that k set_takeWhileD [of i ?P "[0 ..< BMS_MAX_CELLS]"] by simp
  have at: "\<not> ?P k" if "k < 32"
    using nth_length_takeWhile [of ?P "[0 ..< BMS_MAX_CELLS]"] that by (simp add: k_def BMS_MAX_CELLS_def)
  have ku: "k \<le> used_count c" using below [of "used_count c"] used_end [of c] by (metis leI)
  have h: "high_all c \<longleftrightarrow> \<not> cell_on c k" by (simp add: high_all_def k_def)
  show ?thesis
  proof (cases "cell_on c k")
    case True
    then have "k < 32" by (simp add: cell_on_def)
    then have "\<not> cells_high_count c ! k \<ge> 3" using at True by (simp add: BATT_STATE_COUNT_THR_def)
    moreover have "k < used_count c" using ku True used_end [of c] by (metis le_neq_implies_less)
    ultimately show ?thesis using h True by auto
  next
    case False
    then have "k = used_count c" using ku used_on [of k c] by (metis le_neq_implies_less)
    then show ?thesis using h False below by (auto simp: BATT_STATE_COUNT_THR_def)
  qed
qed

text \<open>A complete frame waits in the buffer and is processed.\<close>

definition jk_rx :: "u8 list \<Rightarrow> jk_bms_dev \<Rightarrow> jk_bms_dev" where
  "jk_rx f dev = dev\<lparr>nbuff := f, nbuff_curr := NOTIFY_PACKET_SIZE, nbuff_ready := True\<rparr>"

fun jk_frame_step :: "wh_oracle \<Rightarrow> u64 \<times> u64 \<times> u8 list \<Rightarrow> jk_bms_dev \<Rightarrow> jk_bms_dev option" where
  "jk_frame_step wh (t1, t2, f) dev = bms_jk_frame_process wh t1 t2 (jk_rx f dev)"

text \<open>The number of cells a frame says are used, from the first on.\<close>

definition frame_cells :: "u8 list \<Rightarrow> nat" where
  "frame_cells f = length (takeWhile (bit (DATA_UINT32_GET f 70)) [0 ..< 32])"

lemma frame_cells_le: "frame_cells f \<le> 32"
  unfolding frame_cells_def using length_takeWhile_le [of "bit (DATA_UINT32_GET f 70)" "[0 ..< 32]"] by simp

lemma used_frame: "cells_enabled c = DATA_UINT32_GET f 70 \<Longrightarrow> used_count c = frame_cells f"
  unfolding used_count_def cells_used_def frame_cells_def
  by (intro arg_cong [where f = length] takeWhile_cong) (auto simp: cell_on_def BMS_MAX_CELLS_def)

text \<open>A device with battery tracking only, and what the steps keep of it.\<close>

definition batt_setup :: "jk_bms_dev \<Rightarrow> bool" where
  "batt_setup dev \<longleftrightarrow> aa_enabled (auto_batt dev) \<and> \<not> aa_enabled (auto_solar dev) \<and> jm_bms_data (jk_mqtt dev) \<noteq> None \<and>
     length (cells_low_count (cell_info dev)) = 32 \<and> length (cells_high_count (cell_info dev)) = 32"

definition batt_same :: "jk_bms_dev \<Rightarrow> jk_bms_dev \<Rightarrow> bool" where
  "batt_same dev dev' \<longleftrightarrow> cell_v_low dev' = cell_v_low dev \<and> cell_v_high dev' = cell_v_high dev \<and>
     DEV_NAME dev' = DEV_NAME dev \<and> batt_setup dev'"

definition counts_zero :: "nat \<Rightarrow> jk_bms_dev \<Rightarrow> bool" where
  "counts_zero n dev \<longleftrightarrow>
     (\<forall>i<n. cells_low_count (cell_info dev) ! i = 0 \<and> cells_high_count (cell_info dev) ! i = 0)"

lemma dev_name_fields [simp]:
  "DEV_NAME (dev\<lparr>jk_calls := a\<rparr>) = DEV_NAME dev" "DEV_NAME (auto_batt_update g dev) = DEV_NAME dev"
  "DEV_NAME (auto_solar_update g dev) = DEV_NAME dev" "DEV_NAME (dev\<lparr>jk_mqtt := m\<rparr>) = DEV_NAME dev"
  "DEV_NAME (dev\<lparr>cell_info := c\<rparr>) = DEV_NAME dev" "DEV_NAME (dev\<lparr>nbuff := b\<rparr>) = DEV_NAME dev"
  "DEV_NAME (dev\<lparr>nbuff_curr := n\<rparr>) = DEV_NAME dev" "DEV_NAME (dev\<lparr>nbuff_ready := r\<rparr>) = DEV_NAME dev"
  "DEV_NAME (dev\<lparr>wait_reply := r\<rparr>) = DEV_NAME dev" "DEV_NAME (dev\<lparr>last_reply := t\<rparr>) = DEV_NAME dev"
  "DEV_NAME (dev\<lparr>last_solar_try := t\<rparr>) = DEV_NAME dev" "DEV_NAME (dev\<lparr>dev_info := d\<rparr>) = DEV_NAME dev"
  by (simp_all add: DEV_NAME_def split: option.split)

text \<open>The change of the state of the battery.\<close>

lemma new_batt_state:
  assumes "batt_setup dev" and "c = cell_info dev" and "used_count c = n" and "n \<le> 32"
    and "wh_returns wh"
  shows "\<exists>dev'. jk_bt_new_batt_state wh dev = Some dev' \<and> batt_same dev dev' \<and>
    auto_batt dev' = (auto_batt dev)\<lparr>aa_runs := aa_runs (auto_batt dev) + 1\<rparr> \<and>
    jk_calls dev' = jk_calls dev @ auto_calls wh (DEV_NAME dev) (auto_batt dev) \<and> counts_zero n dev'"
proof -
  obtain cmp where cmp: "jm_bms_data (jk_mqtt dev) = Some cmp" using assms(1) by (auto simp: batt_setup_def)
  have z: "zero_first n l ! i = 0" "length (zero_first n l) = 32" if "length l = 32" "i < n" for l i
    using zero_first_nth [of n l] that assms(4) by auto
  have zl: "length (zero_first n l) = 32" if "length l = 32" for l using zero_first_nth [of n l] that by simp
  show ?thesis
    using assms cmp
    by (simp add: jk_bt_new_batt_state_def jk_bt_auto_action_def calls_return force_bms_data_def reset_counts_eq batt_same_def batt_setup_def
        counts_zero_def z zl)
qed

text \<open>One frame with a normal battery and with a low one.\<close>

text \<open>The device after the values of a cell frame have been taken over.\<close>

lemma cell_frame_device:
  assumes "batt_setup dev" and "d1 = jk_bt_process_cell_frame (jk_rx f dev)"
  shows "batt_same dev d1" "ci_valid (cell_info d1)" "used_count (cell_info d1) = frame_cells f"
    "i < frame_cells f \<Longrightarrow> cells_v (cell_info d1) ! i = cell_reading f i"
    "cells_low_count (cell_info d1) = cells_low_count (cell_info dev)"
    "cells_high_count (cell_info d1) = cells_high_count (cell_info dev)"
    "auto_batt d1 = auto_batt dev" "jk_calls d1 = jk_calls dev" "nbuff d1 = f"
  using assms frame_cells_le [of f]
  by (simp_all add: batt_same_def batt_setup_def jk_bt_process_cell_frame_def jk_rx_def cell_fields used_frame)

text \<open>The end of the processing of a frame.\<close>

definition jk_done :: "u64 \<Rightarrow> jk_bms_dev \<Rightarrow> jk_bms_dev" where
  "jk_done t dev = dev\<lparr>last_reply := t, nbuff_curr := 0, nbuff_ready := False, wait_reply := False\<rparr>"

lemma done_keeps [simp]:
  "auto_batt (jk_done t dev) = auto_batt dev" "auto_solar (jk_done t dev) = auto_solar dev" "jk_calls (jk_done t dev) = jk_calls dev"
  "cell_info (jk_done t dev) = cell_info dev" "DEV_NAME (jk_done t dev) = DEV_NAME dev" "batt_same d (jk_done t dev) = batt_same d dev"
  "counts_zero n (jk_done t dev) = counts_zero n dev" "last_solar_try (jk_done t dev) = last_solar_try dev"
  "jk_mqtt (jk_done t dev) = jk_mqtt dev"
  by (simp_all add: jk_done_def batt_same_def batt_setup_def counts_zero_def)

lemma cell_frame_step:
  assumes "f ! 4 = 0x02"
  shows "jk_frame_step wh (t1, t2, f) dev =
    map_option (jk_done t2) (jk_bt_automation_run wh t1 (jk_bt_process_cell_frame (jk_rx f dev)))"
proof -
  have "jk_done t2 = (\<lambda>dev. dev\<lparr>last_reply := t2, nbuff_curr := 0, nbuff_ready := False, wait_reply := False\<rparr>)"
    by (simp add: jk_done_def fun_eq_iff)
  then show ?thesis using assms by (simp add: bms_jk_frame_process_def) (simp add: jk_rx_def)
qed

lemma batt_frame_step:
  assumes "batt_setup dev" and "f ! 4 = 0x02" and "d1 = jk_bt_process_cell_frame (jk_rx f dev)"
  shows "jk_frame_step wh (t1, t2, f) dev = map_option (jk_done t2) (jk_bt_check_cell_levels wh d1)"
proof -
  have "aa_enabled (auto_batt d1)" using cell_frame_device(7) [OF assms(1,3)] assms(1) by (simp add: batt_setup_def)
  moreover have "jk_bt_check_cell_levels wh d1 = Some d2 \<Longrightarrow> auto_solar d2 = auto_solar d1" for d2
    by (auto simp: jk_bt_check_cell_levels_def Let_def case_prod_beta jk_bt_new_batt_state_def jk_bt_auto_action_def
        force_bms_data_def split: if_splits option.splits)
  moreover have "\<not> aa_enabled (auto_solar d1)" using cell_frame_device(1) [OF assms(1,3)] by (simp add: batt_same_def batt_setup_def)
  ultimately show ?thesis
    unfolding cell_frame_step [OF assms(2)] jk_bt_automation_run_def assms(3) [symmetric]
    by (auto split: option.splits)
qed

lemma normal_frame:
  assumes "batt_setup dev" and "aa_state (auto_batt dev)" and "f ! 4 = 0x02"
    and "low = (\<lambda>i. bump (cell_reading f i < cell_v_low dev) (cells_low_count (cell_info dev) ! i))"
    and "wh_returns wh"
  shows "\<exists>dev'. jk_frame_step wh (t1, t2, f) dev = Some dev' \<and> batt_same dev dev' \<and>
    (if \<exists>i<frame_cells f. low i \<ge> 3
     then \<not> aa_state (auto_batt dev') \<and> counts_zero (frame_cells f) dev' \<and>
       jk_calls dev' = jk_calls dev @ auto_calls wh (DEV_NAME dev) ((auto_batt dev)\<lparr>aa_state := False\<rparr>)
     else auto_batt dev' = auto_batt dev \<and> jk_calls dev' = jk_calls dev \<and>
       (\<forall>i<frame_cells f. cells_low_count (cell_info dev') ! i = low i))"
proof -
  let ?n = "frame_cells f"
  define d1 where "d1 = jk_bt_process_cell_frame (jk_rx f dev)"
  note d1 = cell_frame_device [OF assms(1) d1_def]
  define c where "c = cell_info d1"
  have s1: "batt_setup d1" "cell_v_low d1 = cell_v_low dev" "DEV_NAME d1 = DEV_NAME dev" using d1(1) by (simp_all add: batt_same_def)
  have low: "bump (cells_v c ! i < cell_v_low d1) (cells_low_count c ! i) = low i" if "i < ?n" for i
    using that by (simp add: c_def d1 s1 assms(4))
  have u: "used_count c = ?n" and len: "length (cells_low_count c) = 32" using d1 s1(1) by (simp_all add: c_def batt_setup_def)
  obtain l where l0: "low_scan (cell_v_low d1) [0 ..< BMS_MAX_CELLS] c =
      ((\<exists>i<used_count c. bump (cells_v c ! i < cell_v_low d1) (cells_low_count c ! i) \<ge> 3), c\<lparr>cells_low_count := l\<rparr>)"
    "length l = 32" "\<not> (\<exists>i<used_count c. bump (cells_v c ! i < cell_v_low d1) (cells_low_count c ! i) \<ge> 3) \<Longrightarrow>
      \<forall>i<used_count c. l ! i = bump (cells_v c ! i < cell_v_low d1) (cells_low_count c ! i)"
    using low_scan_cells [OF len, of "cell_v_low d1"] by blast
  define trig where "trig \<longleftrightarrow> (\<exists>i<?n. low i \<ge> 3)"
  have e: "(\<exists>i<used_count c. bump (cells_v c ! i < cell_v_low d1) (cells_low_count c ! i) \<ge> 3) \<longleftrightarrow> trig"
    using low u by (auto simp: trig_def)
  define d2 where "d2 = d1\<lparr>cell_info := c\<lparr>cells_low_count := l\<rparr>\<rparr>"
  have s2: "batt_setup d2" "batt_same dev d2" using s1 d1(1) l0(2) by (auto simp: d2_def batt_setup_def batt_same_def c_def)
  have step: "jk_frame_step wh (t1, t2, f) dev = map_option (jk_done t2)
      (if trig then jk_bt_new_batt_state wh (d2\<lparr>auto_batt := (auto_batt d2)\<lparr>aa_state := False\<rparr>\<rparr>) else Some d2)"
    using batt_frame_step [OF assms(1,3) d1_def] d1(2,7) assms(2) l0(1)
    by (simp add: jk_bt_check_cell_levels_def e d2_def Let_def flip: c_def)
  show ?thesis
  proof (cases trig)
    case True
    let ?d3 = "d2\<lparr>auto_batt := (auto_batt d2)\<lparr>aa_state := False\<rparr>\<rparr>"
    have "batt_setup ?d3" using s2(1) by (simp add: batt_setup_def)
    moreover have "used_count (cell_info ?d3) = ?n" using u by (simp add: d2_def)
    ultimately obtain d4 where d4: "jk_bt_new_batt_state wh ?d3 = Some d4" "batt_same ?d3 d4"
      "auto_batt d4 = (auto_batt ?d3)\<lparr>aa_runs := aa_runs (auto_batt ?d3) + 1\<rparr>"
      "jk_calls d4 = jk_calls ?d3 @ auto_calls wh (DEV_NAME ?d3) (auto_batt ?d3)" "counts_zero ?n d4"
      using new_batt_state [of ?d3 _ ?n wh] frame_cells_le [of f] assms(5) by blast
    have "batt_same dev d4" using d4(2) s2(2) by (simp add: batt_same_def)
    then show ?thesis
      using step True d4(1,3-5) d1 unfolding trig_def [symmetric]
      by (intro exI [of _ "jk_done t2 d4"]) (simp add: d2_def s1)
  next
    case False
    then have "\<forall>i<?n. l ! i = low i" using l0(3) u low unfolding e by simp
    then show ?thesis
      using step s2(2) d1 False unfolding trig_def [symmetric] by (intro exI [of _ "jk_done t2 d2"]) (simp add: d2_def)
  qed
qed

lemma low_frame:
  assumes "batt_setup dev" and "\<not> aa_state (auto_batt dev)" and "f ! 4 = 0x02"
    and "high = (\<lambda>i. bump (cell_v_high dev \<le> cell_reading f i) (cells_high_count (cell_info dev) ! i))"
    and "wh_returns wh"
  shows "\<exists>dev'. jk_frame_step wh (t1, t2, f) dev = Some dev' \<and> batt_same dev dev' \<and>
    (if \<forall>i<frame_cells f. high i \<ge> 3
     then aa_state (auto_batt dev') \<and> counts_zero (frame_cells f) dev' \<and>
       jk_calls dev' = jk_calls dev @ auto_calls wh (DEV_NAME dev) ((auto_batt dev)\<lparr>aa_state := True\<rparr>)
     else auto_batt dev' = auto_batt dev \<and> jk_calls dev' = jk_calls dev \<and>
       (\<forall>i<frame_cells f. cells_high_count (cell_info dev') ! i = high i))"
proof -
  let ?n = "frame_cells f"
  define d1 where "d1 = jk_bt_process_cell_frame (jk_rx f dev)"
  note d1 = cell_frame_device [OF assms(1) d1_def]
  define c where "c = cell_info d1"
  have s1: "batt_setup d1" "cell_v_high d1 = cell_v_high dev" "DEV_NAME d1 = DEV_NAME dev" using d1(1) by (simp_all add: batt_same_def)
  have u: "used_count c = ?n" and len: "length (cells_high_count c) = 32" using d1 s1(1) by (simp_all add: c_def batt_setup_def)
  obtain h where h: "high_count (cell_v_high d1) c = c\<lparr>cells_high_count := h\<rparr>" "length h = 32"
    "\<forall>i<used_count c. h ! i = bump (cell_v_high d1 \<le> cells_v c ! i) (cells_high_count c ! i)"
    using high_count_eq [OF len] by blast
  have hi: "\<forall>i<?n. h ! i = high i" using h(3) u d1(4,6) s1(2) by (simp add: c_def assms(4))
  define d2 where "d2 = d1\<lparr>cell_info := c\<lparr>cells_high_count := h\<rparr>\<rparr>"
  have s2: "batt_setup d2" "batt_same dev d2" using s1 d1(1) h(2) by (auto simp: d2_def batt_setup_def batt_same_def c_def)
  define trig where "trig \<longleftrightarrow> (\<forall>i<?n. high i \<ge> 3)"
  have e: "high_all (c\<lparr>cells_high_count := h\<rparr>) \<longleftrightarrow> trig"
    using hi u by (simp add: high_all_iff trig_def)
  have step: "jk_frame_step wh (t1, t2, f) dev = map_option (jk_done t2)
      (if trig then jk_bt_new_batt_state wh (d2\<lparr>auto_batt := (auto_batt d2)\<lparr>aa_state := True\<rparr>\<rparr>) else Some d2)"
    using batt_frame_step [OF assms(1,3) d1_def] d1(2,7) assms(2) h(1)
    by (simp add: jk_bt_check_cell_levels_def e d2_def Let_def flip: c_def)
  show ?thesis
  proof (cases trig)
    case True
    let ?d3 = "d2\<lparr>auto_batt := (auto_batt d2)\<lparr>aa_state := True\<rparr>\<rparr>"
    have "batt_setup ?d3" using s2(1) by (simp add: batt_setup_def)
    moreover have "used_count (cell_info ?d3) = ?n" using u by (simp add: d2_def)
    ultimately obtain d4 where d4: "jk_bt_new_batt_state wh ?d3 = Some d4" "batt_same ?d3 d4"
      "auto_batt d4 = (auto_batt ?d3)\<lparr>aa_runs := aa_runs (auto_batt ?d3) + 1\<rparr>"
      "jk_calls d4 = jk_calls ?d3 @ auto_calls wh (DEV_NAME ?d3) (auto_batt ?d3)" "counts_zero ?n d4"
      using new_batt_state [of ?d3 _ ?n wh] frame_cells_le [of f] assms(5) by blast
    have "batt_same dev d4" using d4(2) s2(2) by (simp add: batt_same_def)
    then show ?thesis
      using step True d4(1,3-5) d1 unfolding trig_def [symmetric]
      by (intro exI [of _ "jk_done t2 d4"]) (simp add: d2_def s1)
  next
    case False
    then show ?thesis
      using step s2(2) d1 hi unfolding trig_def [symmetric] by (intro exI [of _ "jk_done t2 d2"]) (auto simp: d2_def)
  qed
qed

section \<open>Any number of frames\<close>

text \<open>How many of the frames satisfy a condition on a cell.\<close>

definition tally :: "(u8 list \<Rightarrow> bool) \<Rightarrow> (u64 \<times> u64 \<times> u8 list) list \<Rightarrow> nat" where
  "tally P fs = length (filter (\<lambda>(_, _, f). P f) fs)"

lemma tally_snoc: "tally P (fs @ [(t1, t2, f)]) = tally P fs + (if P f then 1 else 0)"
  by (simp add: tally_def)

lemma tally_le: "tally P fs \<le> length fs"
  by (simp add: tally_def)

definition cell_frames :: "nat \<Rightarrow> (u64 \<times> u64 \<times> u8 list) list \<Rightarrow> bool" where
  "cell_frames n fs \<longleftrightarrow> (\<forall>(_, _, f)\<in>set fs. f ! 4 = 0x02 \<and> frame_cells f = n)"

lemma bump_of_nat: "bump b (of_nat k) = of_nat (k + (if b then 1 else 0))"
  by (simp add: bump_def)

lemma of_nat_ge3: "k < 2 ^ 32 \<Longrightarrow> (3 \<le> (of_nat k :: u32)) \<longleftrightarrow> 3 \<le> k"
  by (simp add: word_le_nat_alt unat_of_nat take_bit_nat_eq_self)

lemma normal_frames:
  assumes "batt_setup dev" and "aa_state (auto_batt dev)" and "counts_zero n dev" and "cell_frames n fs"
    and "\<forall>i<n. tally (\<lambda>f. cell_reading f i < cell_v_low dev) fs < 3"
    and "wh_returns wh"
  shows "\<exists>dev'. run_ops (jk_frame_step wh) fs dev = Some dev' \<and> batt_same dev dev' \<and> auto_batt dev' = auto_batt dev \<and>
    jk_calls dev' = jk_calls dev \<and>
    (\<forall>i<n. cells_low_count (cell_info dev') ! i = of_nat (tally (\<lambda>f. cell_reading f i < cell_v_low dev) fs))"
  using assms(4,5)
proof (induction fs rule: rev_induct)
  case Nil
  then show ?case using assms(1,3) by (simp add: tally_def counts_zero_def batt_same_def)
next
  case (snoc x fs)
  obtain t1 t2 f where x: "x = (t1, t2, f)" by (rule prod_cases3)
  have f: "f ! 4 = 0x02" "frame_cells f = n" "cell_frames n fs" using snoc.prems(1) by (auto simp: cell_frames_def x)
  have t: "tally (\<lambda>f. cell_reading f i < cell_v_low dev) (fs @ [x]) =
      tally (\<lambda>f. cell_reading f i < cell_v_low dev) fs + (if cell_reading f i < cell_v_low dev then 1 else 0)" for i
    by (simp add: x tally_snoc)
  then have "\<forall>i<n. tally (\<lambda>f. cell_reading f i < cell_v_low dev) fs < 3" using snoc.prems(2) by (auto split: if_splits)
  then obtain d where d: "run_ops (jk_frame_step wh) fs dev = Some d" "batt_same dev d" "auto_batt d = auto_batt dev"
    "jk_calls d = jk_calls dev"
    "\<forall>i<n. cells_low_count (cell_info d) ! i = of_nat (tally (\<lambda>f. cell_reading f i < cell_v_low dev) fs)"
    using snoc.IH [OF f(3)] by blast
  have s: "batt_setup d" "aa_state (auto_batt d)" "cell_v_low d = cell_v_low dev" using d assms(2) by (simp_all add: batt_same_def)
  define low where "low = (\<lambda>i. bump (cell_reading f i < cell_v_low d) (cells_low_count (cell_info d) ! i))"
  have low: "low i = of_nat (tally (\<lambda>f. cell_reading f i < cell_v_low dev) (fs @ [x]))" if "i < n" for i
    using d(5) that by (simp add: low_def s(3) bump_of_nat t)
  have "\<not> low i \<ge> 3" if "i < n" for i
    using snoc.prems(2) that low [OF that] of_nat_ge3 [of "tally (\<lambda>f. cell_reading f i < cell_v_low dev) (fs @ [x])"] by auto
  then have no: "\<not> (\<exists>i<n. low i \<ge> 3)" by blast
  from normal_frame [OF s(1,2) f(1) low_def assms(6), of t1 t2] obtain d' where d':
    "jk_frame_step wh (t1, t2, f) d = Some d'" "batt_same d d'" "auto_batt d' = auto_batt d" "jk_calls d' = jk_calls d"
    "\<forall>i<n. cells_low_count (cell_info d') ! i = low i"
    using no f(2) by auto
  show ?case using d d' low by (auto simp: run_ops_append x batt_same_def)
qed

lemma low_frames:
  assumes "batt_setup dev" and "\<not> aa_state (auto_batt dev)" and "counts_zero n dev" and "cell_frames n fs"
    and "length fs < 2 ^ 32"
    and "\<forall>gs. (\<exists>hs. fs = gs @ hs) \<longrightarrow> (\<exists>i<n. tally (\<lambda>f. cell_v_high dev \<le> cell_reading f i) gs < 3)"
    and "wh_returns wh"
  shows "\<exists>dev'. run_ops (jk_frame_step wh) fs dev = Some dev' \<and> batt_same dev dev' \<and> auto_batt dev' = auto_batt dev \<and>
    jk_calls dev' = jk_calls dev \<and>
    (\<forall>i<n. cells_high_count (cell_info dev') ! i = of_nat (tally (\<lambda>f. cell_v_high dev \<le> cell_reading f i) fs))"
  using assms(4-6)
proof (induction fs rule: rev_induct)
  case Nil
  then show ?case using assms(1,3) by (simp add: tally_def counts_zero_def batt_same_def)
next
  case (snoc x fs)
  obtain t1 t2 f where x: "x = (t1, t2, f)" by (rule prod_cases3)
  have f: "f ! 4 = 0x02" "frame_cells f = n" "cell_frames n fs" using snoc.prems(1) by (auto simp: cell_frames_def x)
  have t: "tally (\<lambda>f. cell_v_high dev \<le> cell_reading f i) (fs @ [x]) =
      tally (\<lambda>f. cell_v_high dev \<le> cell_reading f i) fs + (if cell_v_high dev \<le> cell_reading f i then 1 else 0)" for i
    by (simp add: x tally_snoc)
  have "\<forall>gs. (\<exists>hs. fs = gs @ hs) \<longrightarrow> (\<exists>i<n. tally (\<lambda>f. cell_v_high dev \<le> cell_reading f i) gs < 3)"
    using snoc.prems(3) by (metis append.assoc)
  then obtain d where d: "run_ops (jk_frame_step wh) fs dev = Some d" "batt_same dev d" "auto_batt d = auto_batt dev"
    "jk_calls d = jk_calls dev"
    "\<forall>i<n. cells_high_count (cell_info d) ! i = of_nat (tally (\<lambda>f. cell_v_high dev \<le> cell_reading f i) fs)"
    using snoc.IH [OF f(3)] snoc.prems(2) by auto
  have s: "batt_setup d" "\<not> aa_state (auto_batt d)" "cell_v_high d = cell_v_high dev" using d assms(2) by (simp_all add: batt_same_def)
  define high where "high = (\<lambda>i. bump (cell_v_high d \<le> cell_reading f i) (cells_high_count (cell_info d) ! i))"
  have high: "high i = of_nat (tally (\<lambda>f. cell_v_high dev \<le> cell_reading f i) (fs @ [x]))" if "i < n" for i
    using d(5) that by (simp add: high_def s(3) bump_of_nat t)
  obtain i where i: "i < n" "tally (\<lambda>f. cell_v_high dev \<le> cell_reading f i) (fs @ [x]) < 3" using snoc.prems(3) by blast
  then have no: "\<not> (\<forall>i<n. high i \<ge> 3)"
    using high [OF i(1)] of_nat_ge3 [of "tally (\<lambda>f. cell_v_high dev \<le> cell_reading f i) (fs @ [x])"] by auto
  from low_frame [OF s(1,2) f(1) high_def assms(7), of t1 t2] obtain d' where d':
    "jk_frame_step wh (t1, t2, f) d = Some d'" "batt_same d d'" "auto_batt d' = auto_batt d" "jk_calls d' = jk_calls d"
    "\<forall>i<n. cells_high_count (cell_info d') ! i = high i"
    using no f(2) by auto
  show ?case using d d' high by (auto simp: run_ops_append x batt_same_def)
qed

text \<open>
  A battery goes low by the third low reading of a cell: from a normal battery with fresh counts,
  over any cell frames, nothing is called and the state stays normal as long as every used cell
  has had fewer than three readings below the low threshold; the frame with the third one of some
  cell makes the battery low, calls the scripts of the change exactly once and starts the counts
  anew.
\<close>

lemma battery_goes_low:
  assumes "batt_setup dev" and "aa_state (auto_batt dev)" and "counts_zero n dev" and "cell_frames n (fs @ [(t1, t2, f)])"
    and "\<forall>i<n. tally (\<lambda>f. cell_reading f i < cell_v_low dev) fs < 3"
    and "wh_returns wh"
  shows "\<exists>dev1 dev2. run_ops (jk_frame_step wh) fs dev = Some dev1 \<and> aa_state (auto_batt dev1) \<and> jk_calls dev1 = jk_calls dev \<and>
    run_ops (jk_frame_step wh) (fs @ [(t1, t2, f)]) dev = Some dev2 \<and>
    (if \<exists>i<n. tally (\<lambda>f. cell_reading f i < cell_v_low dev) (fs @ [(t1, t2, f)]) = 3
     then \<not> aa_state (auto_batt dev2) \<and> counts_zero n dev2 \<and>
       jk_calls dev2 = jk_calls dev @ auto_calls wh (DEV_NAME dev) ((auto_batt dev)\<lparr>aa_state := False\<rparr>)
     else aa_state (auto_batt dev2) \<and> jk_calls dev2 = jk_calls dev)"
proof -
  let ?t = "\<lambda>i fs. tally (\<lambda>f. cell_reading f i < cell_v_low dev) fs"
  have f: "f ! 4 = 0x02" "frame_cells f = n" "cell_frames n fs" using assms(4) by (auto simp: cell_frames_def)
  obtain d where d: "run_ops (jk_frame_step wh) fs dev = Some d" "batt_same dev d" "auto_batt d = auto_batt dev"
    "jk_calls d = jk_calls dev" "\<forall>i<n. cells_low_count (cell_info d) ! i = of_nat (?t i fs)"
    using normal_frames [OF assms(1-3) f(3) assms(5,6)] by blast
  have s: "batt_setup d" "aa_state (auto_batt d)" "cell_v_low d = cell_v_low dev" "DEV_NAME d = DEV_NAME dev"
    using d assms(2) by (simp_all add: batt_same_def)
  define low where "low = (\<lambda>i. bump (cell_reading f i < cell_v_low d) (cells_low_count (cell_info d) ! i))"
  have low: "(3 \<le> low i) \<longleftrightarrow> ?t i (fs @ [(t1, t2, f)]) = 3" if "i < n" for i
  proof -
    have "low i = of_nat (?t i (fs @ [(t1, t2, f)]))" using d(5) that by (simp add: low_def s(3) bump_of_nat tally_snoc)
    moreover have "?t i (fs @ [(t1, t2, f)]) \<le> 3" using assms(5) that by (auto simp: tally_snoc)
    ultimately show ?thesis using of_nat_ge3 [of "?t i (fs @ [(t1, t2, f)])"] by auto
  qed
  define trig where "trig \<longleftrightarrow> (\<exists>i<n. ?t i (fs @ [(t1, t2, f)]) = 3)"
  have "(\<exists>i<n. 3 \<le> low i) \<longleftrightarrow> trig" using low by (auto simp: trig_def)
  then obtain d' where d': "jk_frame_step wh (t1, t2, f) d = Some d'"
    "if trig then \<not> aa_state (auto_batt d') \<and> counts_zero n d' \<and>
       jk_calls d' = jk_calls d @ auto_calls wh (DEV_NAME d) ((auto_batt d)\<lparr>aa_state := False\<rparr>)
     else auto_batt d' = auto_batt d \<and> jk_calls d' = jk_calls d \<and> (\<forall>i<n. cells_low_count (cell_info d') ! i = low i)"
    using normal_frame [OF s(1,2) f(1) low_def assms(6), of t1 t2] unfolding f(2) by auto
  show ?thesis
    unfolding trig_def [symmetric]
    by (rule exI [of _ d], rule exI [of _ d']) (use d d' s assms(2) in \<open>auto simp: run_ops_append split: if_splits\<close>)
qed

text \<open>
  A low battery recovers only when every used cell has had three readings at or above the high
  threshold since it went low: as long as one has not, nothing is called; the frame that completes
  them makes the battery normal again, calls the scripts of the change once and starts anew.
\<close>

lemma battery_recovers:
  assumes "batt_setup dev" and "\<not> aa_state (auto_batt dev)" and "counts_zero n dev" and "cell_frames n (fs @ [(t1, t2, f)])"
    and "length fs + 1 < 2 ^ 32"
    and "\<forall>gs. (\<exists>hs. fs = gs @ hs) \<longrightarrow> (\<exists>i<n. tally (\<lambda>f. cell_v_high dev \<le> cell_reading f i) gs < 3)"
    and "wh_returns wh"
  shows "\<exists>dev1 dev2. run_ops (jk_frame_step wh) fs dev = Some dev1 \<and> \<not> aa_state (auto_batt dev1) \<and> jk_calls dev1 = jk_calls dev \<and>
    run_ops (jk_frame_step wh) (fs @ [(t1, t2, f)]) dev = Some dev2 \<and>
    (if \<forall>i<n. tally (\<lambda>f. cell_v_high dev \<le> cell_reading f i) (fs @ [(t1, t2, f)]) \<ge> 3
     then aa_state (auto_batt dev2) \<and> counts_zero n dev2 \<and>
       jk_calls dev2 = jk_calls dev @ auto_calls wh (DEV_NAME dev) ((auto_batt dev)\<lparr>aa_state := True\<rparr>)
     else \<not> aa_state (auto_batt dev2) \<and> jk_calls dev2 = jk_calls dev)"
proof -
  let ?t = "\<lambda>i fs. tally (\<lambda>f. cell_v_high dev \<le> cell_reading f i) fs"
  have f: "f ! 4 = 0x02" "frame_cells f = n" "cell_frames n fs" using assms(4) by (auto simp: cell_frames_def)
  obtain d where d: "run_ops (jk_frame_step wh) fs dev = Some d" "batt_same dev d" "auto_batt d = auto_batt dev"
    "jk_calls d = jk_calls dev" "\<forall>i<n. cells_high_count (cell_info d) ! i = of_nat (?t i fs)"
    using low_frames [OF assms(1-3) f(3) _ assms(6,7)] assms(5) by auto
  have s: "batt_setup d" "\<not> aa_state (auto_batt d)" "cell_v_high d = cell_v_high dev" "DEV_NAME d = DEV_NAME dev"
    using d assms(2) by (simp_all add: batt_same_def)
  define high where "high = (\<lambda>i. bump (cell_v_high d \<le> cell_reading f i) (cells_high_count (cell_info d) ! i))"
  have high: "(3 \<le> high i) \<longleftrightarrow> 3 \<le> ?t i (fs @ [(t1, t2, f)])" if "i < n" for i
  proof -
    have "high i = of_nat (?t i (fs @ [(t1, t2, f)]))" using d(5) that by (simp add: high_def s(3) bump_of_nat tally_snoc)
    moreover have "?t i (fs @ [(t1, t2, f)]) < 2 ^ 32"
      using tally_le [of "\<lambda>f. cell_v_high dev \<le> cell_reading f i" "fs @ [(t1, t2, f)]"] assms(5) by simp
    ultimately show ?thesis using of_nat_ge3 by auto
  qed
  define trig where "trig \<longleftrightarrow> (\<forall>i<n. ?t i (fs @ [(t1, t2, f)]) \<ge> 3)"
  have "(\<forall>i<n. 3 \<le> high i) \<longleftrightarrow> trig" using high by (auto simp: trig_def)
  then obtain d' where d': "jk_frame_step wh (t1, t2, f) d = Some d'"
    "if trig then aa_state (auto_batt d') \<and> counts_zero n d' \<and>
       jk_calls d' = jk_calls d @ auto_calls wh (DEV_NAME d) ((auto_batt d)\<lparr>aa_state := True\<rparr>)
     else auto_batt d' = auto_batt d \<and> jk_calls d' = jk_calls d \<and> (\<forall>i<n. cells_high_count (cell_info d') ! i = high i)"
    using low_frame [OF s(1,2) f(1) high_def assms(7), of t1 t2] unfolding f(2) by auto
  show ?thesis
    unfolding trig_def [symmetric]
    by (rule exI [of _ d], rule exI [of _ d']) (use d d' s assms(2) in \<open>auto simp: run_ops_append split: if_splits\<close>)
qed

section \<open>Witnesses\<close>

text \<open>A cell frame with one cell at 0 V (or 4.096 V) and a device with battery tracking.\<close>

definition demo_jk_frame :: "u8 \<Rightarrow> u8 list" where
  "demo_jk_frame hi = (replicate 300 0)[4 := 2, 7 := hi, 70 := 1]"

definition demo_jk_dev :: "bool \<Rightarrow> jk_bms_dev" where
  "demo_jk_dev b =
     (let d = jk_new_device [1, 2, 3, 4, 5, 6] ''1234'' in
      d\<lparr>jk_mqtt := (jk_mqtt d)\<lparr>jm_bms_data := Some (\<lparr>mc_module = ''m'', mc_name = ''n'', platform = ''s'', dev_class = None,
          unit = None, value_template = [], payload_on = None, payload_off = None, mc_state_topic = None, mc_id = 0,
          force = False, mc_last_send = 0\<rparr>)\<rparr>,
        auto_batt := zero_auto\<lparr>aa_enabled := True, aa_state := b, script_on_count := 1, script_on_prefix := Some ''on'',
          script_off_count := 1, script_off_prefix := Some ''off''\<rparr>, cell_v_low := 3000, cell_v_high := 3300\<rparr>)"

lemma demo_jk_setup: "batt_setup (demo_jk_dev b)" "aa_state (auto_batt (demo_jk_dev b)) = b" "counts_zero 1 (demo_jk_dev b)"
    "cell_v_low (demo_jk_dev b) = 3000" "cell_v_high (demo_jk_dev b) = 3300" "jk_calls (demo_jk_dev b) = []"
  by (simp_all add: demo_jk_dev_def Let_def jk_new_device_def zero_auto_def zero_cells_def batt_setup_def counts_zero_def BMS_MAX_CELLS_def)

lemma demo_jk_reading: "cell_reading (demo_jk_frame hi) 0 = push_bit 8 (ucast hi)" "demo_jk_frame hi ! 4 = 2" "frame_cells (demo_jk_frame hi) = 1"
proof -
  have "[0..<32] = [0, 1] @ [2..<32::nat]" by (simp add: upt_rec)
  then show "frame_cells (demo_jk_frame hi) = 1"
    by (simp add: frame_cells_def demo_jk_frame_def DATA_UINT32_GET_def DATA_UINT16_GET_def)
qed (simp_all add: cell_reading_def demo_jk_frame_def DATA_UINT16_GET_def)

lemma demo_wh_off: "wh_returns None"
  by (simp add: wh_returns_def)

lemma demo_jk_calls:
  "auto_calls None nm ((auto_batt (demo_jk_dev b))\<lparr>aa_state := s\<rparr>) =
     (if s then [Script_auto ''off'' False, Script_auto ''on'' True, Script_run ''on'']
      else [Script_auto ''on'' False, Script_auto ''off'' True, Script_run ''off''])"
  by (simp add: auto_calls_def demo_jk_dev_def Let_def zero_auto_def)

lemma battery_goes_low_witness:
  "\<exists>dev. run_ops (jk_frame_step None) [(1, 2, demo_jk_frame 0), (3, 4, demo_jk_frame 0), (5, 6, demo_jk_frame 0)] (demo_jk_dev True) = Some dev
    \<and> jk_calls dev = [Script_auto ''on'' False, Script_auto ''off'' True, Script_run ''off'']"
proof -
  let ?x = "demo_jk_frame 0"
  have c: "cell_frames 1 ([(1, 2, ?x), (3, 4, ?x)] @ [(5, 6, ?x)])" by (simp add: cell_frames_def demo_jk_reading)
  have l: "\<forall>i<1. tally (\<lambda>f. cell_reading f i < cell_v_low (demo_jk_dev True)) [(1, 2, ?x), (3, 4, ?x)] < 3" by (simp add: tally_def)
  have t: "\<exists>i<1. tally (\<lambda>f. cell_reading f i < 3000) [(1, 2, ?x), (3, 4, ?x), (5, 6, ?x)] = 3"
    by (simp add: tally_def demo_jk_reading)
  have s: "aa_state (auto_batt (demo_jk_dev True))" by (simp add: demo_jk_setup)
  show ?thesis
    using battery_goes_low [OF demo_jk_setup(1) s demo_jk_setup(3) c l, of None] t demo_wh_off
    unfolding demo_jk_calls demo_jk_setup append.simps by (auto simp del: run_ops.simps jk_frame_step.simps)
qed

lemma battery_recovers_witness:
  "\<exists>dev. run_ops (jk_frame_step None) [(1, 2, demo_jk_frame 16), (3, 4, demo_jk_frame 16), (5, 6, demo_jk_frame 16)] (demo_jk_dev False) = Some dev
    \<and> jk_calls dev = [Script_auto ''off'' False, Script_auto ''on'' True, Script_run ''on'']"
proof -
  let ?x = "demo_jk_frame 16"
  have c: "cell_frames 1 ([(1, 2, ?x), (3, 4, ?x)] @ [(5, 6, ?x)])" by (simp add: cell_frames_def demo_jk_reading)
  have p: "\<forall>gs. (\<exists>hs. [(1, 2, ?x), (3, 4, ?x)] = gs @ hs) \<longrightarrow>
      (\<exists>i<1. tally (\<lambda>f. cell_v_high (demo_jk_dev False) \<le> cell_reading f i) gs < 3)"
  proof (intro allI impI exI [of _ 0] conjI)
    fix gs :: "(u64 \<times> u64 \<times> u8 list) list" assume "\<exists>hs. [(1, 2, ?x), (3, 4, ?x)] = gs @ hs"
    then obtain hs where "[(1, 2, ?x), (3, 4, ?x)] = gs @ hs" by blast
    from arg_cong [OF this, of length] have "length gs \<le> 2" by simp
    then show "tally (\<lambda>f. cell_v_high (demo_jk_dev False) \<le> cell_reading f 0) gs < 3"
      using tally_le [of "\<lambda>f. cell_v_high (demo_jk_dev False) \<le> cell_reading f 0" gs] by linarith
  qed simp
  have t: "\<forall>i<1. 3 \<le> tally (\<lambda>f. 3300 \<le> cell_reading f i) [(1, 2, ?x), (3, 4, ?x), (5, 6, ?x)]"
    by (simp add: tally_def demo_jk_reading)
  have s: "\<not> aa_state (auto_batt (demo_jk_dev False))" by (simp add: demo_jk_setup)
  show ?thesis
    using battery_recovers [OF demo_jk_setup(1) s demo_jk_setup(3) c _ p, of None] t demo_wh_off
    unfolding demo_jk_calls demo_jk_setup append.simps by (auto simp del: run_ops.simps jk_frame_step.simps)
qed

end
