(* ===== verification/JkMqtt.thy ===== *)
theory JkMqtt
  imports JkBattery SysTime
begin

text \<open>
  The JK battery management system over MQTT, \<open>bms_jk_mqtt.c\<close>, and the module itself
  (\<open>bms_jk.c\<close>: configuration, initialisation, main loop, command, API), over the devices of
  \<open>JkBms\<close> and the MQTT service.
\<close>

section \<open>The messages\<close>

definition BMS_MQTT_DATA_LEN :: nat where "BMS_MQTT_DATA_LEN = 768"
definition MQTT_SEND_INTERVAL_MS :: u64 where "MQTT_SEND_INTERVAL_MS = 20000"
definition MQTT_SEND_CELL_V :: nat where "MQTT_SEND_CELL_V = 0"
definition MQTT_SEND_CELL_R :: nat where "MQTT_SEND_CELL_R = 1"
definition MQTT_SEND_DATA :: nat where "MQTT_SEND_DATA = 2"
definition MQTT_SEND_DEV :: nat where "MQTT_SEND_DEV = 3"
definition MQTT_SEND_MAX :: nat where "MQTT_SEND_MAX = 4"

definition jk_fld :: "string \<Rightarrow> string \<Rightarrow> string" where
  "jk_fld key v = '',\"'' @ key @ ''\":'' @ v"

definition jk_head :: "string \<Rightarrow> string list" where
  "jk_head time = [''{'', ''\"time\":\"'' @ time @ ''\"'']"

definition f_milli :: "'a::len word \<Rightarrow> string" where "f_milli w = fmt_2f (Fin (milli (uint w)))"
definition f_deci :: "u16 \<Rightarrow> string" where "f_deci w = fmt_2f (Fin (deci (uint w)))"

definition cells_v_parts :: "string \<Rightarrow> jk_bms_dev \<Rightarrow> string list" where
  "cells_v_parts time dev =
     jk_head time @ map (\<lambda>i. jk_fld (''cell_'' @ nat_str i @ ''_v'') (f_milli (cells_v (cell_info dev) ! i))) [0 ..< BMS_MAX_CELLS] @ [''}'']"

definition cells_r_parts :: "string \<Rightarrow> jk_bms_dev \<Rightarrow> string list" where
  "cells_r_parts time dev =
     jk_head time @ map (\<lambda>i. jk_fld (''cell_'' @ nat_str i @ ''_r'') (f_milli (cells_res (cell_info dev) ! i))) [0 ..< BMS_MAX_CELLS] @ [''}'']"

definition cells_data_parts :: "string \<Rightarrow> jk_bms_dev \<Rightarrow> string list" where
  "cells_data_parts time dev =
     (let c = cell_info dev in
      jk_head time @
      [jk_fld ''v_avg'' (f_milli (v_avg c)), jk_fld ''v_delta'' (f_milli (v_delta c)),
       jk_fld ''cell_v_min'' (int_str (uint (cell_v_min c))), jk_fld ''cell_v_max'' (int_str (uint (cell_v_max c))),
       jk_fld ''batt_action'' (int_str (uint (batt_action c))), jk_fld ''power_temp'' (f_deci (power_temp c)),
       jk_fld ''batt_temp1'' (f_deci (batt_temp1 c)), jk_fld ''batt_temp2'' (f_deci (batt_temp2 c)),
       jk_fld ''batt_temp_mos'' (f_deci (batt_temp_mos c)), jk_fld ''batt_volt'' (f_milli (batt_volt c)),
       jk_fld ''batt_power'' (int_str (int_of_word (batt_power c))), jk_fld ''batt_state'' (int_str (uint (batt_state c))),
       jk_fld ''batt_cycles'' (int_str (int_of_word (batt_cycles c))),
       jk_fld ''batt_charge_curr'' (fmt_2f (Fin (milli (batt_charge_curr c)))),
       jk_fld ''batt_balance_curr'' (f_milli (batt_balance_curr c)), jk_fld ''batt_cap_rem'' (f_milli (batt_cap_rem c)),
       jk_fld ''batt_cap_nom'' (f_milli (batt_cap_nom c)), jk_fld ''batt_cycles_cap'' (f_milli (batt_cycles_cap c)),
       jk_fld ''soh'' (int_str (uint (soh c))), jk_fld ''batt_v'' (f_milli (batt_v c)),
       jk_fld ''batt_heat_a'' (f_milli (batt_heat_a c))] @
      (if aa_enabled (auto_batt dev) then [jk_fld ''batt_low'' (if aa_state (auto_batt dev) then ''0'' else ''1'')] else []) @
      (if aa_enabled (auto_solar dev) then [jk_fld ''solar_excess'' (if aa_state (auto_solar dev) then ''1'' else ''0'')] else []) @
      [''}''])"

text \<open>The bytes of an array up to its NUL, as \<open>%s\<close> prints them.\<close>

definition bytes_str :: "u8 list \<Rightarrow> string" where
  "bytes_str b = map unbyte (takeWhile (\<lambda>x. x \<noteq> 0) b)"

definition jk_sfld :: "string \<Rightarrow> string \<Rightarrow> string" where
  "jk_sfld key v = jk_fld key (''\"'' @ v @ ''\"'')"

text \<open>The uptime in milliseconds is a product of 32 bits.\<close>

definition dev_info_parts :: "string \<Rightarrow> jk_bms_dev \<Rightarrow> string list" where
  "dev_info_parts time dev =
     (let d = dev_info dev; date = fst (time_msec2datetime (ucast (Uptime d * 1000))) in
      jk_head time @
      [jk_sfld ''Vendor'' (bytes_str (Vendor d)), jk_sfld ''Model'' (bytes_str (Model d)),
       jk_sfld ''Hardware'' (bytes_str (Hardware d)), jk_sfld ''Software'' (bytes_str (Software d)),
       jk_sfld ''SerialN'' (bytes_str (SerialN d)), jk_sfld ''Uptime'' (time_date2str 64 date),
       jk_sfld ''PowerOnCount'' (int_str (uint (PowerOnCount d))), ''}''])"

text \<open>
  The four senders have one shape: a message of a component is printed into the payload and
  published, the early return of the macros gives -1.
\<close>

definition jk_publish ::
  "lwip \<Rightarrow> string list \<Rightarrow> (bms_jk_mqtt \<Rightarrow> mqtt_component option)
   \<Rightarrow> ((mqtt_component option \<Rightarrow> mqtt_component option) \<Rightarrow> bms_jk_mqtt \<Rightarrow> bms_jk_mqtt)
   \<Rightarrow> (bms_cells_info \<Rightarrow> bms_cells_info) \<Rightarrow> jk_bms_dev \<times> 'h mqtt_context option
   \<Rightarrow> int \<times> jk_bms_dev \<times> 'h mqtt_context option" where
  "jk_publish e parts get upd clear st =
     (let (dev, c) = st;
          pl = take (BMS_MQTT_DATA_LEN - 1) (concat parts);
          dev = dev\<lparr>jk_mqtt := (jk_mqtt dev)\<lparr>jm_payload := pl\<rparr>\<rparr>
      in case build_msg BMS_MQTT_DATA_LEN parts of
           None \<Rightarrow> (-1, dev, c)
         | Some _ \<Rightarrow>
             (let (ret, cmp, c) = mqtt_msg_component_publish e (the (get (jk_mqtt dev))) pl c
              in (ret, dev\<lparr>jk_mqtt := upd (\<lambda>_. Some cmp) (jk_mqtt dev), cell_info := clear (cell_info dev)\<rparr>, c)))"

definition mqtt_cells_v_send ::
  "lwip \<Rightarrow> string \<Rightarrow> jk_bms_dev \<times> 'h mqtt_context option \<Rightarrow> int \<times> jk_bms_dev \<times> 'h mqtt_context option" where
  "mqtt_cells_v_send e time st =
     (if \<not> ci_valid (cell_info (fst st)) then (0, st)
      else jk_publish e (cells_v_parts time (fst st)) jm_cells_v jm_cells_v_update (\<lambda>c. c\<lparr>cell_v_force := False\<rparr>) st)"

definition mqtt_cells_r_send ::
  "lwip \<Rightarrow> string \<Rightarrow> jk_bms_dev \<times> 'h mqtt_context option \<Rightarrow> int \<times> jk_bms_dev \<times> 'h mqtt_context option" where
  "mqtt_cells_r_send e time st =
     (if \<not> ci_valid (cell_info (fst st)) then (0, st)
      else jk_publish e (cells_r_parts time (fst st)) jm_cells_res jm_cells_res_update (\<lambda>c. c\<lparr>cell_r_force := False\<rparr>) st)"

definition mqtt_cells_data_send ::
  "lwip \<Rightarrow> string \<Rightarrow> jk_bms_dev \<times> 'h mqtt_context option \<Rightarrow> int \<times> jk_bms_dev \<times> 'h mqtt_context option" where
  "mqtt_cells_data_send e time st =
     (if \<not> ci_valid (cell_info (fst st)) then (0, st)
      else jk_publish e (cells_data_parts time (fst st)) jm_bms_data jm_bms_data_update (\<lambda>c. c\<lparr>data_force := False\<rparr>) st)"

definition mqtt_dev_info_send ::
  "lwip \<Rightarrow> string \<Rightarrow> jk_bms_dev \<times> 'h mqtt_context option \<Rightarrow> int \<times> jk_bms_dev \<times> 'h mqtt_context option" where
  "mqtt_dev_info_send e time st =
     (if \<not> di_valid (dev_info (fst st)) then (0, st)
      else jk_publish e (dev_info_parts time (fst st)) jm_bms_info jm_bms_info_update (\<lambda>c. c\<lparr>dev_force := False\<rparr>) st)"

text \<open>The first block of \<open>bms_jk_mqtt_send\<close>: changes mark their components.\<close>

definition mark :: "bool \<Rightarrow> mqtt_component option \<Rightarrow> mqtt_component option" where
  "mark f c = (if f then map_option (\<lambda>c. c\<lparr>force := True\<rparr>) c else c)"

definition jk_mark :: "jk_bms_dev \<Rightarrow> jk_bms_dev" where
  "jk_mark dev =
     (let m = jk_mqtt dev; c = cell_info dev in
      dev\<lparr>jk_mqtt := m\<lparr>jm_cells_v := mark (cell_v_force c) (jm_cells_v m), jm_cells_res := mark (cell_r_force c) (jm_cells_res m),
         jm_bms_data := mark (data_force c) (jm_bms_data m), jm_bms_info := mark (dev_force c) (jm_bms_info m)\<rparr>\<rparr>)"

definition forced :: "mqtt_component option \<Rightarrow> bool" where
  "forced c = (case c of None \<Rightarrow> False | Some c \<Rightarrow> force c)"

definition jk_has_components :: "jk_bms_dev \<Rightarrow> bool" where
  "jk_has_components dev \<longleftrightarrow> jm_cells_v (jk_mqtt dev) \<noteq> None \<and> jm_cells_res (jk_mqtt dev) \<noteq> None \<and>
     jm_bms_data (jk_mqtt dev) \<noteq> None \<and> jm_bms_info (jk_mqtt dev) \<noteq> None"

definition jk_stamp :: "u64 \<Rightarrow> jk_bms_dev \<Rightarrow> jk_bms_dev" where
  "jk_stamp now dev = dev\<lparr>jk_mqtt := (jk_mqtt dev)\<lparr>jm_last_send := now\<rparr>\<rparr>"

text \<open>None: the components are used through NULL pointers.\<close>

definition bms_jk_mqtt_send ::
  "lwip \<Rightarrow> string \<Rightarrow> u64 \<Rightarrow> jk_bms_dev \<times> 'h mqtt_context option \<Rightarrow> (jk_bms_dev \<times> 'h mqtt_context option) option" where
  "bms_jk_mqtt_send e time now st =
     (let (dev, c) = st in
      if \<not> mqtt_is_discovery_sent c then Some st
      else if \<not> jk_has_components dev then None
      else
        (let dev = jk_mark dev; m = jk_mqtt dev in
         if forced (jm_cells_v m) then (let (_, dev, c) = mqtt_cells_v_send e time (dev, c) in Some (jk_stamp now dev, c))
         else if forced (jm_cells_res m) then (let (_, dev, c) = mqtt_cells_r_send e time (dev, c) in Some (jk_stamp now dev, c))
         else if forced (jm_bms_data m) then (let (_, dev, c) = mqtt_cells_data_send e time (dev, c) in Some (jk_stamp now dev, c))
         else if forced (jm_bms_info m) then (let (_, dev, c) = mqtt_dev_info_send e time (dev, c) in Some (jk_stamp now dev, c))
         else if jm_last_send m \<noteq> 0 \<and> now - jm_last_send m < MQTT_SEND_INTERVAL_MS then Some (dev, c)
         else
           (let i = (if send_id m \<ge> MQTT_SEND_MAX then 0 else send_id m);
                dev = dev\<lparr>jk_mqtt := m\<lparr>send_id := i\<rparr>\<rparr>;
                (ret, dev, c) =
                  (if i = MQTT_SEND_CELL_V then mqtt_cells_v_send e time (dev, c)
                   else if i = MQTT_SEND_CELL_R then mqtt_cells_r_send e time (dev, c)
                   else if i = MQTT_SEND_DATA then mqtt_cells_data_send e time (dev, c)
                   else if i = MQTT_SEND_DEV then mqtt_dev_info_send e time (dev, c)
                   else (0, dev, c));
                dev = (if ret = 0 then dev\<lparr>jk_mqtt := (jk_mqtt dev)\<lparr>send_id := i + 1\<rparr>\<rparr> else dev)
            in Some (jk_stamp now dev, c))))"

section \<open>The components\<close>

definition jk_component ::
  "string \<Rightarrow> string \<Rightarrow> string option \<Rightarrow> string option \<Rightarrow> string \<Rightarrow> string \<Rightarrow> string option \<Rightarrow> mqtt_component" where
  "jk_component modn plat cls un nm templ st =
     \<lparr>mc_module = modn, mc_name = nm, platform = plat, dev_class = cls, unit = un, value_template = templ,
      payload_on = None, payload_off = None, mc_state_topic = st, mc_id = 0, force = False, mc_last_send = 0\<rparr>"

definition jk_templ :: "string \<Rightarrow> string" where
  "jk_templ n = ''{{ value_json['' @ [CHR 0x27] @ n @ [CHR 0x27] @ ''] }}''"

definition jk_register_all :: "mqtt_component list \<Rightarrow> 'h mqtt_context option \<Rightarrow> 'h mqtt_context option" where
  "jk_register_all cs c = fold (\<lambda>cmp c. snd (snd (mqtt_msg_component_register cmp c))) cs c"

text \<open>A group of components on the state topic of its first one, which is returned.\<close>

definition jk_register_group ::
  "mqtt_component \<Rightarrow> (string option \<Rightarrow> mqtt_component list) \<Rightarrow> 'h mqtt_context option
   \<Rightarrow> mqtt_component \<times> 'h mqtt_context option" where
  "jk_register_group first others c =
     (let (_, cmp, c) = mqtt_msg_component_register (first\<lparr>force := True\<rparr>) c
      in (cmp, jk_register_all (others (mc_state_topic cmp)) c))"

definition celsius_unit :: string where
  "celsius_unit = map char_of [194::nat, 176] @ ''C''"

definition jk_data_components :: "(string \<times> string option \<times> string option) list" where
  "jk_data_components =
     [(''v_delta'', Some ''voltage'', Some ''V''), (''cell_v_min'', None, None), (''cell_v_max'', None, None),
      (''batt_action'', None, None), (''power_temp'', Some ''temperature'', Some celsius_unit),
      (''batt_temp1'', Some ''temperature'', Some celsius_unit), (''batt_temp2'', Some ''temperature'', Some celsius_unit),
      (''batt_temp_mos'', Some ''temperature'', Some celsius_unit), (''batt_volt'', Some ''voltage'', Some ''V''),
      (''batt_power'', None, None), (''batt_state'', None, Some ''%''), (''batt_cycles'', None, None),
      (''batt_charge_curr'', Some ''current'', Some ''A''), (''batt_balance_curr'', Some ''current'', Some ''A''),
      (''batt_cap_rem'', None, Some ''Ah''), (''batt_cap_nom'', None, Some ''Ah''), (''batt_cycles_cap'', None, Some ''Ah''),
      (''soh'', None, Some ''%''), (''batt_v'', Some ''voltage'', Some ''V''), (''batt_heat_a'', Some ''current'', Some ''A'')]"

definition bms_jk_mqtt_init :: "nat \<Rightarrow> jk_bms_dev \<Rightarrow> 'h mqtt_context option \<Rightarrow> jk_bms_dev \<times> 'h mqtt_context option" where
  "bms_jk_mqtt_init idx dev c =
     (let modn = ''bms_jk'' @ nat_str idx;
          cell = (\<lambda>suffix cls un j st. (let n = ''cell_'' @ nat_str j @ suffix in jk_component modn ''sensor'' cls un n (jk_templ n) st));
          (v, c) = jk_register_group (cell ''_v'' (Some ''voltage'') (Some ''V'') 0 None)
                     (\<lambda>st. map (\<lambda>j. cell ''_v'' (Some ''voltage'') (Some ''V'') j st) [1 ..< BMS_MAX_CELLS]) c;
          (r, c) = jk_register_group (cell ''_r'' None (Some ''ohms'') 0 None)
                     (\<lambda>st. map (\<lambda>j. cell ''_r'' None (Some ''ohms'') j st) [1 ..< BMS_MAX_CELLS]) c;
          (d, c) = jk_register_group (jk_component modn ''sensor'' (Some ''voltage'') (Some ''V'') ''v_avg'' (jk_templ ''v_avg'') None)
                     (\<lambda>st. map (\<lambda>(n, cls, un). jk_component modn ''sensor'' cls un n (jk_templ n) st) jk_data_components @
                       map (\<lambda>n. (jk_component modn ''binary_sensor'' None None n (jk_templ n) st)
                         \<lparr>payload_on := Some ''1'', payload_off := Some ''0''\<rparr>) [''batt_low'', ''solar_excess'']) c;
          (i, c) = jk_register_group (jk_component modn ''sensor'' None None ''Vendor'' (jk_templ ''Vendor'') None)
                     (\<lambda>st. map (\<lambda>n. jk_component modn ''sensor'' None None n (jk_templ n) st)
                       [''Model'', ''Hardware'', ''Software'', ''SerialN'', ''Uptime'', ''PowerOnCount'']) c
      in (dev\<lparr>jk_mqtt := (jk_mqtt dev)\<lparr>jm_cells_v := Some v, jm_cells_res := Some r, jm_bms_data := Some d, jm_bms_info := Some i\<rparr>\<rparr>, c))"

section \<open>Configuration\<close>

record bms_context =
  jk_debug :: u32
  wh_notify :: bool
  jk_devices :: "jk_bms_dev list"
  jk_reboot :: bool

definition CELL_VOLTAGE_MAX :: rat where "CELL_VOLTAGE_MAX = 65"
definition BMS_MAX_DEVICES :: nat where "BMS_MAX_DEVICES = 4"
definition BMS_MODEL_STR :: string where "BMS_MODEL_STR = ''JK''"

text \<open>
  The loop over the devices and their models; \<open>al\<close> says whether the two allocations for the
  \<open>k\<close>-th device succeed.
\<close>

fun jk_config_devices :: "(nat \<Rightarrow> bool) \<Rightarrow> string list \<Rightarrow> string list \<Rightarrow> jk_bms_dev list \<Rightarrow> jk_bms_dev list" where
  "jk_config_devices al [] ms ds = ds"
| "jk_config_devices al (d # devs) ms ds =
     (let ms' = tl ms in
      if ms = [] \<or> hd ms \<noteq> BMS_MODEL_STR then jk_config_devices al devs ms' ds
      else case strtok_r (CHR '','') (Some d) of
        (None, _) \<Rightarrow> jk_config_devices al devs ms' ds
      | (Some addr, None) \<Rightarrow> jk_config_devices al devs ms' ds
      | (Some addr, Some pin) \<Rightarrow>
          if pin = [] then jk_config_devices al devs ms' ds
          else
            (let a = map (\<lambda>ch. word_of_int (strtol_val 16 ch)) (take 6 (strtok_all (CHR '':'') (Some addr))) in
             if length a \<noteq> 6 then jk_config_devices al devs ms' ds
             else if length ds \<ge> BMS_MAX_DEVICES then ds
             else if \<not> al (length ds) then ds
             else jk_config_devices al devs ms' (ds @ [jk_new_device a pin])))"

text \<open>
  The loops that go over the entries of a parameter and the devices in step: the bound is tested
  after the first device has been used.  None: it is used through NULL when there is none.
\<close>

fun jk_each :: "(string \<Rightarrow> jk_bms_dev \<Rightarrow> jk_bms_dev option) \<Rightarrow> string list \<Rightarrow> jk_bms_dev list \<Rightarrow> jk_bms_dev list option" where
  "jk_each f [] ds = Some ds"
| "jk_each f (t # ts) [] = None"
| "jk_each f (t # ts) (d # ds) =
     (case f t d of None \<Rightarrow> None
      | Some d \<Rightarrow> if ds = [] then Some [d] else map_option ((#) d) (jk_each f ts ds))"

definition jk_set_timeout :: "string \<Rightarrow> jk_bms_dev \<Rightarrow> jk_bms_dev option" where
  "jk_set_timeout tok dev =
     (let v = word_of_int (strtol_val 0 tok) :: u64 in Some (dev\<lparr>timeout_msec := (if v > 0 then v * 1000 else v)\<rparr>))"

text \<open>\<open>(uint16_t)(val * 1000)\<close> of a positive float of at most 65.\<close>

definition milli_u16 :: "rat \<Rightarrow> u16" where
  "milli_u16 v = (case f32_rnd (v * 1000) of Fin x \<Rightarrow> word_of_int \<lfloor>x\<rfloor> | _ \<Rightarrow> 0)"

text \<open>The cell levels of one entry; None: the entry has no comma and is skipped.\<close>

definition jk_levels :: "string \<Rightarrow> (u16 \<times> u16) option option" where
  "jk_levels tok =
     (case strtok_r (CHR '','') (Some tok) of
        (Some m, Some r) \<Rightarrow>
          Some (case (sys_strtof (Some m), sys_strtof (Some r)) of
            (Some (Fin a), Some (Fin b)) \<Rightarrow>
              if 0 < a \<and> 0 < b \<and> a \<le> CELL_VOLTAGE_MAX \<and> b \<le> CELL_VOLTAGE_MAX then Some (milli_u16 a, milli_u16 b) else None
          | _ \<Rightarrow> None)
      | _ \<Rightarrow> None)"

fun jk_each_level :: "bool \<Rightarrow> string list \<Rightarrow> jk_bms_dev list \<Rightarrow> jk_bms_dev list option" where
  "jk_each_level nw [] ds = Some ds"
| "jk_each_level nw (t # ts) ds =
     (case jk_levels t of
        None \<Rightarrow> jk_each_level nw ts ds
      | Some l \<Rightarrow>
          (case ds of
             [] \<Rightarrow> (if l = None then Some [] else None)
           | d # ds' \<Rightarrow>
               (case (case l of None \<Rightarrow> Some d | Some (lo, hi) \<Rightarrow> jk_bt_enable_battery_track nw lo hi d) of
                  None \<Rightarrow> None
                | Some d \<Rightarrow> if ds' = [] then Some [d] else map_option ((#) d) (jk_each_level nw ts ds'))))"

fun jk_each_charge ::
  "bool \<Rightarrow> (string \<Rightarrow> int) \<Rightarrow> (string \<Rightarrow> bool) \<Rightarrow> string list \<Rightarrow> jk_bms_dev list \<Rightarrow> jk_bms_dev list option" where
  "jk_each_charge nw exist al [] ds = Some ds"
| "jk_each_charge nw exist al (t # ts) ds =
     (let v = (case f32_of_int (strtol_val 0 t) of Fin x \<Rightarrow> x | _ \<Rightarrow> 0) in
      case ds of
        [] \<Rightarrow> (if v > 0 then None else Some [])
      | d # ds' \<Rightarrow>
          (case (if v > 0 then jk_bt_enable_solar_track nw exist al (word_of_int \<lfloor>v\<rfloor>) d else Some d) of
             None \<Rightarrow> None
           | Some d \<Rightarrow> if ds' = [] then Some [d] else map_option ((#) d) (jk_each_charge nw exist al ts ds')))"

text \<open>The parameters of the module; an empty text is a parameter that is not set.\<close>

record jk_params =
  jp_model :: "string option"
  jp_bt :: "string option"
  jp_levels :: "string option"
  jp_timeout :: "string option"
  jp_name :: "string option"
  jp_notify :: "string option"
  jp_charge :: "string option"

definition toks :: "string option \<Rightarrow> string list" where
  "toks p = (case p of None \<Rightarrow> [] | Some s \<Rightarrow> if s = [] then [] else strtok_all (CHR '';'') (Some s))"

text \<open>None: NULL is used; \<open>Some None\<close>: no configuration.\<close>

definition get_bms_config ::
  "bool \<Rightarrow> (string \<Rightarrow> int) \<Rightarrow> (string \<Rightarrow> bool) \<Rightarrow> (nat \<Rightarrow> bool) \<Rightarrow> jk_params \<Rightarrow> bms_context option option" where
  "get_bms_config nw exist al alloc p =
     (if jp_model p \<in> {None, Some []} \<or> jp_bt p \<in> {None, Some []} then Some None
      else
        (let ds = jk_config_devices alloc (toks (jp_bt p)) (toks (jp_model p)) [] in
         case jk_each jk_set_timeout (toks (jp_timeout p)) ds of None \<Rightarrow> None | Some ds \<Rightarrow>
         (case jk_each_level nw (toks (jp_levels p)) ds of None \<Rightarrow> None | Some ds \<Rightarrow>
         (case jk_each (\<lambda>t d. Some (d\<lparr>user_name := Some t\<rparr>)) (toks (jp_name p)) ds of None \<Rightarrow> None | Some ds \<Rightarrow>
         (case jk_each_charge nw exist al (toks (jp_charge p)) ds of None \<Rightarrow> None | Some ds \<Rightarrow>
           Some (if ds = [] then None
                 else Some \<lparr>jk_debug = 0,
                        wh_notify = (case jp_notify p of None \<Rightarrow> False | Some s \<Rightarrow> s \<noteq> [] \<and> strtol_val 0 s \<noteq> 0),
                        jk_devices = ds, jk_reboot = False\<rparr>))))))"

section \<open>The module\<close>

text \<open>\<open>add\<close> is \<open>bt_add_known_device\<close> for the \<open>i\<close>-th device.\<close>

fun jk_init_devices ::
  "(nat \<Rightarrow> int) \<Rightarrow> nat \<Rightarrow> jk_bms_dev list \<Rightarrow> 'h mqtt_context option \<Rightarrow> jk_bms_dev list option \<times> 'h mqtt_context option" where
  "jk_init_devices add i [] c = (Some [], c)"
| "jk_init_devices add i (d # ds) c =
     (let d = d\<lparr>jk_state := JK_DISCONNECTED,
            jk_term_charc := (jk_term_charc d)\<lparr>svc_uid128 := terminal_svc, charc_uid128 := terminal_charc_read\<rparr>,
            jk_bt_index := add i\<rparr>
      in if add i < 1 then (None, c)
         else
           (let (d, c) = bms_jk_mqtt_init i d c; (r, c) = jk_init_devices add (i + 1) ds c
            in (map_option ((#) d) r, c)))"

definition bms_jk_init ::
  "bool \<Rightarrow> (string \<Rightarrow> int) \<Rightarrow> (string \<Rightarrow> bool) \<Rightarrow> (nat \<Rightarrow> bool) \<Rightarrow> jk_params \<Rightarrow> (nat \<Rightarrow> int) \<Rightarrow> 'h mqtt_context option
   \<Rightarrow> (bms_context option \<times> 'h mqtt_context option) option" where
  "bms_jk_init nw exist al alloc p add c =
     (case get_bms_config nw exist al alloc p of
        None \<Rightarrow> None
      | Some None \<Rightarrow> Some (None, c)
      | Some (Some ctx) \<Rightarrow>
          (let (r, c) = jk_init_devices add 0 (jk_devices ctx) c
           in Some (map_option (\<lambda>ds. ctx\<lparr>jk_devices := ds\<rparr>) r, c)))"

text \<open>
  One turn of \<open>bms_jk_run\<close>: \<open>now\<close> is its reading of the clock, \<open>clk i k\<close> the \<open>k\<close>-th reading for
  the \<open>i\<close>-th device, \<open>fin\<close> the one of \<open>bms_jk_timeout_check\<close>, \<open>webhook\<close> the texts for which a call of
  \<open>webhook_send\<close> returns.  The log of a timeout prints the name of the device, NULL after a
  disconnect of a device without a name of the user; the log does not change the state.
\<close>

record jk_env =
  je_now :: u64
  je_clk :: "nat \<Rightarrow> nat \<Rightarrow> u64"
  je_fin :: u64
  je_notify :: int
  je_write :: int
  je_lwip :: lwip
  je_time :: string
  je_webhook :: "string \<Rightarrow> bool"

definition jk_poll :: "jk_env \<Rightarrow> jk_bms_dev list \<Rightarrow> jk_bms_dev list" where
  "jk_poll e ds =
     map (\<lambda>(i, d). jk_poll_one (je_now e) (je_clk e i 0) (je_clk e i 1) (je_notify e) (je_write e) d) (enumerate 0 ds)"

fun bms_jk_process ::
  "jk_env \<Rightarrow> wh_oracle \<Rightarrow> nat \<Rightarrow> jk_bms_dev list \<Rightarrow> 'h mqtt_context option \<Rightarrow> (jk_bms_dev list \<times> 'h mqtt_context option) option" where
  "bms_jk_process e wh i [] c = Some ([], c)"
| "bms_jk_process e wh i (d # ds) c =
     (case bms_jk_frame_process wh (je_clk e i 2) (je_clk e i 3) d of
        None \<Rightarrow> None
      | Some d \<Rightarrow>
          (case bms_jk_mqtt_send (je_lwip e) (je_time e) (je_clk e i 4) (d, c) of
             None \<Rightarrow> None
           | Some (d, c) \<Rightarrow> map_option (\<lambda>(ds, c). (d # ds, c)) (bms_jk_process e wh (i + 1) ds c)))"

definition jk_timed_out :: "u64 \<Rightarrow> jk_bms_dev \<Rightarrow> bool" where
  "jk_timed_out now dev \<longleftrightarrow> timeout_msec dev \<noteq> 0 \<and> last_reply dev \<noteq> 0 \<and> now - last_reply dev > timeout_msec dev"

definition bms_jk_timeout_check :: "u64 \<Rightarrow> bms_context \<Rightarrow> bms_context" where
  "bms_jk_timeout_check now ctx = (if list_ex (jk_timed_out now) (jk_devices ctx) then ctx\<lparr>jk_reboot := True\<rparr> else ctx)"

definition bms_jk_run :: "jk_env \<Rightarrow> bms_context \<times> 'h mqtt_context option \<Rightarrow> (bms_context \<times> 'h mqtt_context option) option" where
  "bms_jk_run e st =
     (let (ctx, c) = st in
      map_option (\<lambda>(ds, c). (bms_jk_timeout_check (je_fin e) (ctx\<lparr>jk_devices := ds\<rparr>), c))
        (bms_jk_process e (if wh_notify ctx then Some (je_webhook e) else None) 0 (jk_poll e (jk_devices ctx)) c))"

definition bms_jk_debug_set :: "u32 \<Rightarrow> bms_context \<Rightarrow> bms_context" where
  "bms_jk_debug_set dbg ctx = ctx\<lparr>jk_debug := dbg\<rparr>"

text \<open>
  The command \<open>charge_current_threshold:<id>:<ampere>\<close>.  None: there is no second number and NULL
  goes to \<open>strtol\<close>.
\<close>

definition cmd_bms_jk_set_charge_current_threshold ::
  "(string \<Rightarrow> int) \<Rightarrow> (string \<Rightarrow> bool) \<Rightarrow> string \<Rightarrow> bms_context \<Rightarrow> (int \<times> bms_context) option" where
  "cmd_bms_jk_set_charge_current_threshold exist al params ctx =
     (if length params < 2 \<or> params ! 0 \<noteq> CHR '':'' then Some (-1, ctx)
      else case strtok_r (CHR '':'') (Some (drop 1 params)) of
        (None, _) \<Rightarrow> Some (-1, ctx)
      | (Some tok, rest) \<Rightarrow>
          (let n = strtol_val 0 tok in
           if n < 0 \<or> n \<ge> int (length (jk_devices ctx)) then Some (-1, ctx)
           else case rest of None \<Rightarrow> None
           | Some r \<Rightarrow>
               (let current = strtol_val 0 r in
                map_option (\<lambda>d. (0, ctx\<lparr>jk_devices := (jk_devices ctx)[nat n := d]\<rparr>))
                  (jk_bt_enable_solar_track False exist al (if current \<le> 0 then 0 else word_of_int current)
                     (jk_devices ctx ! nat n)))))"

definition bms_jk_is_battery_full :: "nat \<Rightarrow> bms_context option \<Rightarrow> int" where
  "bms_jk_is_battery_full n c =
     (case c of None \<Rightarrow> -1
      | Some ctx \<Rightarrow>
          if n \<ge> length (jk_devices ctx) then -1
          else
            (let d = jk_devices ctx ! n in
             if \<not> aa_enabled (auto_batt d) then -1
             else if jk_state d \<noteq> JK_READY \<or> \<not> TERM_IS_ACTIVE d then -1
             else if aa_state (auto_batt d) then 1 else 0))"

definition bms_jk_has_solar_excess :: "nat \<Rightarrow> bms_context option \<Rightarrow> int" where
  "bms_jk_has_solar_excess n c =
     (case c of None \<Rightarrow> -1
      | Some ctx \<Rightarrow>
          if n \<ge> length (jk_devices ctx) then -1
          else
            (let d = jk_devices ctx ! n in
             if \<not> aa_enabled (auto_solar d) then -1
             else if jk_state d \<noteq> JK_READY \<or> \<not> TERM_IS_ACTIVE d then -1
             else if aa_state (auto_solar d) then 1 else 0))"

end
