(* ===== verification/JkModule.thy ===== *)
theory JkModule
  imports JkMqtt
begin

text \<open>
  What the JK battery module of \<open>JkBms\<close> and \<open>JkMqtt\<close> guarantees as a whole: the module as a machine
  over turns of the main loop and events of the connections, the pause of the solar scripts, and
  the way of a frame from the radio to the MQTT report.
\<close>

section \<open>The module as a machine\<close>

text \<open>What every operation keeps of a device: its buffer is sound, its components are registered.\<close>

definition counts_ok :: "jk_bms_dev \<Rightarrow> bool" where
  "counts_ok d \<longleftrightarrow> length (cells_low_count (cell_info d)) = BMS_MAX_CELLS \<and> length (cells_high_count (cell_info d)) = BMS_MAX_CELLS"

definition jk_dev_ok :: "jk_bms_dev \<Rightarrow> bool" where
  "jk_dev_ok d \<longleftrightarrow> rx_ok d \<and> jk_has_components d \<and> counts_ok d"

text \<open>The automation changes nothing of it.\<close>

definition jk_like :: "jk_bms_dev \<Rightarrow> jk_bms_dev \<Rightarrow> bool" where
  "jk_like d d' \<longleftrightarrow> nbuff d' = nbuff d \<and> nbuff_curr d' = nbuff_curr d \<and> nbuff_ready d' = nbuff_ready d \<and>
     (jk_has_components d \<longrightarrow> jk_has_components d') \<and> (counts_ok d \<longrightarrow> counts_ok d')"

lemma like_refl: "jk_like d d"
  by (simp add: jk_like_def)

lemma like_trans: "jk_like a b \<Longrightarrow> jk_like b c \<Longrightarrow> jk_like a c"
  by (simp add: jk_like_def)

lemma like_ok: "jk_like d d' \<Longrightarrow> jk_dev_ok d \<Longrightarrow> jk_dev_ok d'"
  by (simp add: jk_like_def jk_dev_ok_def rx_ok_def)

lemma like_has: "jk_like d d' \<Longrightarrow> jk_has_components d \<Longrightarrow> jk_has_components d'"
  by (simp add: jk_like_def)

lemma like_upd:
  "jk_like d (auto_batt_update f d)" "jk_like d (auto_solar_update f d)" "jk_like d (jk_calls_update g d)"
  "jk_like d (last_solar_try_update h d)" "jk_like d (charge_current_threshold_update k d)"
  "length (cells_low_count c) = length (cells_low_count (cell_info d)) \<Longrightarrow>
   length (cells_high_count c) = length (cells_high_count (cell_info d)) \<Longrightarrow> jk_like d (d\<lparr>cell_info := c\<rparr>)"
  by (simp_all add: jk_like_def jk_has_components_def counts_ok_def)

lemma forced_like:
  assumes "jk_has_components d"
  obtains d' where "force_bms_data nw d = Some d'" and "jk_like d d'"
  using assms by (auto simp: force_bms_data_def jk_has_components_def jk_like_def counts_ok_def)

lemma auto_action_like:
  assumes "jk_has_components d" and "\<And>d. jk_like d (upd (\<lambda>a. a\<lparr>aa_runs := aa_runs a + 1\<rparr>) d)"
    and "wh_returns wh"
  obtains d' where "jk_bt_auto_action wh get upd d = Some d'" and "jk_like d d'"
proof -
  let ?d = "upd (\<lambda>a. a\<lparr>aa_runs := aa_runs a + 1\<rparr>) (d\<lparr>jk_calls := jk_calls d @ auto_calls wh (DEV_NAME d) (get d)\<rparr>)"
  have l: "jk_like d ?d" by (rule like_trans [OF like_upd(3) assms(2)])
  obtain d' where d': "force_bms_data False ?d = Some d'" "jk_like ?d d'" using forced_like [OF like_has [OF l assms(1)]] by blast
  show ?thesis by (rule that [of d']) (use d' l in \<open>simp_all add: jk_bt_auto_action_def like_trans calls_return assms(3)\<close>)
qed

lemma zero_first_length: "length (zero_first n l) = length l"
  by (simp add: zero_first_nth)

lemma bumped_length: "length (bumped hi vs n h) = length h"
  by (simp add: bumped_nth)

lemma new_state_like:
  assumes "jk_has_components d"
    and "wh_returns wh"
  obtains d' where "jk_bt_new_batt_state wh d = Some d'" and "jk_like d d'"
proof -
  obtain d1 where d1: "jk_bt_auto_action wh auto_batt auto_batt_update d = Some d1" "jk_like d d1"
    by (rule auto_action_like [of d auto_batt_update wh auto_batt, OF assms(1) like_upd(1) assms(2)])
  have "jk_like d1 (d1\<lparr>cell_info := reset_counts (cell_info d1)\<rparr>)"
    by (rule like_upd(6)) (simp_all add: reset_counts_eq zero_first_length)
  from like_trans [OF d1(2) this] show ?thesis
    by (rule that [rotated]) (simp add: jk_bt_new_batt_state_def d1(1))
qed

lemma low_scan_lengths:
  "length (cells_low_count (snd (low_scan lo ks c))) = length (cells_low_count c) \<and> cells_high_count (snd (low_scan lo ks c)) = cells_high_count c"
  by (induction lo ks c rule: low_scan.induct) (simp_all add: Let_def)

lemma check_levels_like:
  assumes "jk_has_components d"
    and "wh_returns wh"
  obtains d' where "jk_bt_check_cell_levels wh d = Some d'" and "jk_like d d'"
proof (cases "ci_valid (cell_info d)")
  case False
  then show ?thesis by (intro that [of d]) (simp_all add: jk_bt_check_cell_levels_def like_refl)
next
  case valid: True
  define c where "c = (if aa_state (auto_batt d) then snd (low_scan (cell_v_low d) [0 ..< BMS_MAX_CELLS] (cell_info d))
    else high_count (cell_v_high d) (cell_info d))"
  define b where "b = (if aa_state (auto_batt d) then fst (low_scan (cell_v_low d) [0 ..< BMS_MAX_CELLS] (cell_info d)) else high_all c)"
  define d1 where "d1 = d\<lparr>cell_info := c\<rparr>"
  define d2 where "d2 = d1\<lparr>auto_batt := (auto_batt d1)\<lparr>aa_state := \<not> aa_state (auto_batt d)\<rparr>\<rparr>"
  have l1: "jk_like d d1"
    unfolding d1_def by (rule like_upd(6)) (simp_all add: c_def low_scan_lengths high_count_bumped bumped_length)
  have l2: "jk_like d d2" unfolding d2_def by (rule like_trans [OF l1 like_upd(1)])
  obtain d3 where d3: "jk_bt_new_batt_state wh d2 = Some d3" "jk_like d2 d3" using new_state_like [OF like_has [OF l2 assms(1)] assms(2)] by blast
  have "jk_bt_check_cell_levels wh d = (if b then jk_bt_new_batt_state wh d2 else Some d1)"
    using valid by (simp add: jk_bt_check_cell_levels_def b_def c_def d1_def d2_def Let_def case_prod_beta)
  then show ?thesis using that l1 like_trans [OF l2 d3(2)] d3(1) by (cases b) auto
qed

lemma check_solar_like:
  assumes "jk_has_components d"
    and "wh_returns wh"
  obtains d' where "jk_bt_check_solar wh now d = Some d'" and "jk_like d d'"
proof -
  define d1 where "d1 = (if solar_excess d then d else d\<lparr>last_solar_try := now\<rparr>)"
  define d2 where "d2 = d1\<lparr>auto_solar := (auto_solar d1)\<lparr>aa_state := solar_excess d\<rparr>\<rparr>"
  have "jk_like d d1" by (simp add: d1_def like_upd like_refl)
  then have l2: "jk_like d d2" unfolding d2_def by (rule like_trans [OF _ like_upd(2)])
  obtain d3 where d3: "jk_bt_auto_action wh auto_solar auto_solar_update d2 = Some d3" "jk_like d2 d3"
    by (rule auto_action_like [of d2 auto_solar_update wh auto_solar, OF like_has [OF l2 assms(1)] like_upd(2) assms(2)])
  have "jk_bt_check_solar wh now d = Some d \<or> jk_bt_check_solar wh now d = Some d3"
    unfolding d3(1) [symmetric] jk_bt_check_solar_def Let_def d2_def d1_def by (cases "solar_excess d") auto
  then show ?thesis using that like_refl like_trans [OF l2 d3(2)] by blast
qed

lemma automation_like:
  assumes "jk_has_components d"
    and "wh_returns wh"
  obtains d' where "jk_bt_automation_run wh now d = Some d'" and "jk_like d d'"
proof -
  obtain d1 where d1: "(if aa_enabled (auto_batt d) then jk_bt_check_cell_levels wh d else Some d) = Some d1" "jk_like d d1"
    by (cases "aa_enabled (auto_batt d)") (use check_levels_like [OF assms] like_refl in auto)
  obtain d2 where d2: "(if aa_enabled (auto_solar d1) then jk_bt_check_solar wh now d1 else Some d1) = Some d2" "jk_like d1 d2"
    by (cases "aa_enabled (auto_solar d1)") (use check_solar_like [OF like_has [OF d1(2) assms(1)] assms(2)] like_refl in auto)
  show ?thesis by (rule that [of d2]) (use d1 d2 in \<open>simp_all add: jk_bt_automation_run_def like_trans\<close>)
qed

lemma cell_frame_like: "jk_like d (jk_bt_process_cell_frame d)"
  unfolding jk_bt_process_cell_frame_def by (rule like_upd(6)) (simp_all add: cell_fields)

lemma device_frame_like: "jk_like d (jk_bt_process_device_frame d)"
  by (simp add: jk_like_def jk_has_components_def counts_ok_def jk_bt_process_device_frame_def Let_def case_prod_beta)

lemma done_ok: "jk_dev_ok d \<Longrightarrow> jk_dev_ok (jk_done t d)"
  by (simp add: jk_dev_ok_def rx_ok_def jk_done_def packet_pos jk_has_components_def counts_ok_def split: if_splits)

lemma frame_process_ok:
  assumes "jk_dev_ok d"
    and "wh_returns wh"
  obtains d' where "bms_jk_frame_process wh t1 t2 d = Some d'" and "jk_dev_ok d'"
proof -
  let ?p = "if nbuff d ! 4 = 2 then jk_bt_automation_run wh t1 (jk_bt_process_cell_frame d)
    else if nbuff d ! 4 = 3 then Some (jk_bt_process_device_frame d) else Some d"
  have has: "jk_has_components d" using assms(1) by (simp add: jk_dev_ok_def)
  obtain d1 where a: "jk_bt_automation_run wh t1 (jk_bt_process_cell_frame d) = Some d1" "jk_like d d1"
    using automation_like [OF like_has [OF cell_frame_like has] assms(2)] cell_frame_like like_trans by metis
  obtain d2 where d2: "?p = Some d2" "jk_like d d2"
    by (cases "nbuff d ! 4 = 2"; cases "nbuff d ! 4 = 3") (use a device_frame_like [of d] like_refl [of d] in simp_all)
  have "bms_jk_frame_process wh t1 t2 d = (if nbuff_ready d then Some (jk_done t2 d2) else Some d)"
    using d2(1) by (simp add: bms_jk_frame_process_def jk_done_def)
  then show ?thesis using that assms(1) done_ok [OF like_ok [OF d2(2) assms(1)]] by (cases "nbuff_ready d") auto
qed

lemma publish_like:
  assumes "jk_has_components (fst st)" and "jk_publish e parts get upd clear st = (r, d, c)"
    and "\<And>c m. upd (\<lambda>_. Some c) m = m\<lparr>jm_cells_v := Some c\<rparr> \<or> upd (\<lambda>_. Some c) m = m\<lparr>jm_cells_res := Some c\<rparr> \<or>
      upd (\<lambda>_. Some c) m = m\<lparr>jm_bms_data := Some c\<rparr> \<or> upd (\<lambda>_. Some c) m = m\<lparr>jm_bms_info := Some c\<rparr>"
    and "\<And>c. cells_low_count (clear c) = cells_low_count c" and "\<And>c. cells_high_count (clear c) = cells_high_count c"
  shows "jk_like (fst st) d"
proof -
  let ?m = "(jk_mqtt (fst st))\<lparr>jm_payload := take (BMS_MQTT_DATA_LEN - 1) (concat parts)\<rparr>"
  consider "d = (fst st)\<lparr>jk_mqtt := ?m\<rparr>" | cmp where "d = (fst st)\<lparr>jk_mqtt := upd (\<lambda>_. Some cmp) ?m, cell_info := clear (cell_info (fst st))\<rparr>"
    using assms(2) by (auto simp: jk_publish_def Let_def case_prod_beta split: option.splits)
  then show ?thesis
  proof cases
    case 1
    then show ?thesis using assms(1) by (simp add: jk_like_def jk_has_components_def counts_ok_def)
  next
    case 2
    then show ?thesis using assms(1,4,5) assms(3) [of cmp ?m]
      by (elim disjE) (simp_all add: jk_like_def jk_has_components_def counts_ok_def)
  qed
qed

lemma sends_like:
  assumes "jk_has_components (fst st)"
  shows "jk_like (fst st) (fst (snd (mqtt_cells_v_send e time st)))" "jk_like (fst st) (fst (snd (mqtt_cells_r_send e time st)))"
    "jk_like (fst st) (fst (snd (mqtt_cells_data_send e time st)))" "jk_like (fst st) (fst (snd (mqtt_dev_info_send e time st)))"
  using publish_like [OF assms, of e _ jm_cells_v jm_cells_v_update "\<lambda>c. c\<lparr>cell_v_force := False\<rparr>"]
    publish_like [OF assms, of e _ jm_cells_res jm_cells_res_update "\<lambda>c. c\<lparr>cell_r_force := False\<rparr>"]
    publish_like [OF assms, of e _ jm_bms_data jm_bms_data_update "\<lambda>c. c\<lparr>data_force := False\<rparr>"]
    publish_like [OF assms, of e _ jm_bms_info jm_bms_info_update "\<lambda>c. c\<lparr>dev_force := False\<rparr>"]
  by (simp_all add: mqtt_cells_v_send_def mqtt_cells_r_send_def mqtt_cells_data_send_def mqtt_dev_info_send_def like_refl)
    (metis prod.collapse)+

text \<open>The report of one turn is one of the four, or none.\<close>

lemma mark_like: "jk_like d (jk_mark d)"
  by (simp add: jk_like_def jk_mark_def jk_has_components_def counts_ok_def Let_def mark_def)

lemma stamp_like: "jk_like d (jk_stamp now d)" "jk_like d (d\<lparr>jk_mqtt := (jk_mqtt d)\<lparr>send_id := i\<rparr>\<rparr>)"
  by (simp_all add: jk_like_def jk_stamp_def jk_has_components_def counts_ok_def)

lemma mqtt_send_like:
  assumes "jk_has_components d"
  obtains d' c' where "bms_jk_mqtt_send e time now (d, c) = Some (d', c')" and "jk_like d d'"
proof -
  define d1 where "d1 = jk_mark d"
  define i where "i = (if send_id (jk_mqtt d1) \<ge> MQTT_SEND_MAX then 0 else send_id (jk_mqtt d1))"
  define d2 where "d2 = d1\<lparr>jk_mqtt := (jk_mqtt d1)\<lparr>send_id := i\<rparr>\<rparr>"
  have l1: "jk_like d d1" by (simp add: d1_def mark_like)
  have l2: "jk_like d d2" unfolding d2_def by (rule like_trans [OF l1 stamp_like(2)])
  have h1: "jk_has_components (fst (d1, c))" and h2: "jk_has_components (fst (d2, c))"
    using like_has [OF l1 assms] like_has [OF l2 assms] by simp_all
  have s1: "jk_like d (jk_stamp now x)" if "jk_like (fst (d1, c)) x" for x
    using that unfolding fst_conv by (intro like_trans [OF like_trans [OF l1] stamp_like(1)])
  have s2: "jk_like d (jk_stamp now (if b then x\<lparr>jk_mqtt := (jk_mqtt x)\<lparr>send_id := i + 1\<rparr>\<rparr> else x))" if "jk_like (fst (d2, c)) x" for x b
  proof -
    have x: "jk_like d x" using like_trans [OF l2] that by simp
    show ?thesis by (cases b) (simp_all add: like_trans [OF x stamp_like(1)] like_trans [OF like_trans [OF x stamp_like(2)] stamp_like(1)])
  qed
  define r where "r =
    (if i = MQTT_SEND_CELL_V then mqtt_cells_v_send e time (d2, c)
     else if i = MQTT_SEND_CELL_R then mqtt_cells_r_send e time (d2, c)
     else if i = MQTT_SEND_DATA then mqtt_cells_data_send e time (d2, c)
     else if i = MQTT_SEND_DEV then mqtt_dev_info_send e time (d2, c) else (0, d2, c))"
  have r: "jk_like (fst (d2, c)) (fst (snd r))" by (simp add: r_def sends_like [OF h2, unfolded fst_conv] like_refl)
  let ?out = "\<lambda>x. Some (jk_stamp now (fst (snd x)), snd (snd x))"
  have eq: "bms_jk_mqtt_send e time now (d, c) =
     (if \<not> mqtt_is_discovery_sent c then Some (d, c)
      else if forced (jm_cells_v (jk_mqtt d1)) then ?out (mqtt_cells_v_send e time (d1, c))
      else if forced (jm_cells_res (jk_mqtt d1)) then ?out (mqtt_cells_r_send e time (d1, c))
      else if forced (jm_bms_data (jk_mqtt d1)) then ?out (mqtt_cells_data_send e time (d1, c))
      else if forced (jm_bms_info (jk_mqtt d1)) then ?out (mqtt_dev_info_send e time (d1, c))
      else if jm_last_send (jk_mqtt d1) \<noteq> 0 \<and> now - jm_last_send (jk_mqtt d1) < MQTT_SEND_INTERVAL_MS then Some (d1, c)
      else Some (jk_stamp now (if fst r = 0 then (fst (snd r))\<lparr>jk_mqtt := (jk_mqtt (fst (snd r)))\<lparr>send_id := i + 1\<rparr>\<rparr> else fst (snd r)),
        snd (snd r)))"
    using assms unfolding bms_jk_mqtt_send_def Let_def case_prod_beta fst_conv snd_conv d1_def [symmetric] i_def [symmetric] d2_def [symmetric] r_def [symmetric]
    by simp
  have "\<exists>x. bms_jk_mqtt_send e time now (d, c) = Some x \<and> jk_like d (fst x)"
    using like_refl [of d] l1 s1 [OF sends_like(1) [OF h1]] s1 [OF sends_like(2) [OF h1]] s1 [OF sends_like(3) [OF h1]]
      s1 [OF sends_like(4) [OF h1]] s2 [OF r]
    unfolding eq by (simp split del: if_split split: if_split)
  then obtain x where x: "bms_jk_mqtt_send e time now (d, c) = Some x" "jk_like d (fst x)" by (elim exE conjE)
  show ?thesis by (rule that [of "fst x" "snd x"]) (simp_all add: x)
qed

section \<open>Events\<close>

lemma charc_ok: "jk_dev_ok d \<Longrightarrow> jk_dev_ok (charc_new svc i p u d)" "jk_dev_ok d \<Longrightarrow> jk_dev_ok (charc_reset d)"
  by (simp_all add: charc_new_def charc_reset_def jk_dev_ok_def rx_ok_def jk_has_components_def counts_ok_def packet_pos)

lemma terminal_keeps:
  assumes "rx_ok d"
  shows "jk_mqtt (jk_bt_process_terminal ch v d) = jk_mqtt d \<and> cell_info (jk_bt_process_terminal ch v d) = cell_info d"
proof (cases "nbuff_ready d \<or> tc_char_id (jk_term_charc d) \<noteq> ch \<or> length v < 4")
  case True
  then have "jk_bt_process_terminal ch v d = d"
    by (elim disjE) (simp_all add: jk_bt_process_terminal_def pkt_start_length Let_def)
  then show ?thesis by simp
next
  case False
  have c: "jk_mqtt (jk_closed x) = jk_mqtt x \<and> cell_info (jk_closed x) = cell_info x" for x by (simp add: jk_closed_def)
  have f: "jk_mqtt (jk_fed w x) = jk_mqtt x \<and> cell_info (jk_fed w x) = cell_info x" for w x by (simp add: jk_fed_def)
  obtain m n where "jk_bt_process_terminal ch v d = jk_closed (jk_fed (take m v) (d\<lparr>nbuff_curr := n\<rparr>))"
    using terminal_feeds [OF assms _ _ _ refl refl] False by (metis not_le)
  then show ?thesis by (simp add: c f)
qed

lemma find_scripts_like: "jk_like d (jk_bt_automation_find_scripts exist al d)"
proof -
  let ?b = "if aa_enabled (auto_batt d) then d\<lparr>auto_batt := jk_bt_find_auto_scripts exist al (DEV_NAME d) (auto_batt d)\<rparr> else d"
  have b: "jk_like d ?b" by (simp add: like_upd like_refl)
  have "jk_like ?b (jk_bt_automation_find_scripts exist al d)"
    unfolding jk_bt_automation_find_scripts_def Let_def by (cases "aa_enabled (auto_solar ?b)") (simp_all add: like_upd like_refl del: dev_name_fields)
  then show ?thesis by (rule like_trans [OF b])
qed

lemma like_upd2:
  "jk_like d (jk_name_update f d)" "jk_like d (jk_state_update g d)" "jk_like d (last_reply_update h d)"
  "jk_like d (jk_connect_count_update k d)" "jk_like d (jk_send_time_update h d)" "jk_like d (request_count_update k d)"
  "jk_like d (wait_reply_update b d)" "jk_like d (jk_term_charc_update t d)" "jk_like d (user_name_update f d)"
  "jk_like d (timeout_msec_update h d)" "jk_like d (jk_bt_index_update i d)"
  by (simp_all add: jk_like_def jk_has_components_def counts_ok_def)

lemma event_ok:
  assumes "jk_dev_ok d"
  shows "jk_dev_ok (jk_bt_event svc exist al dup now idx ev d)"
proof (cases "idx = jk_bt_index d")
  case True
  show ?thesis
  proof (cases ev)
    case (Jk_connected name)
    let ?d1 = "charc_reset (d\<lparr>jk_name := (if dup then Some name else None)\<rparr>)"
    have "jk_dev_ok ?d1" by (intro charc_ok(2) like_ok [OF like_upd2(1) assms])
    then show ?thesis using True Jk_connected
      by (simp add: jk_bt_event_def split del: if_split)
        (intro like_ok [OF find_scripts_like] like_ok [OF like_upd2(4)] like_ok [OF like_upd2(3)] like_ok [OF like_upd2(2)])
  next
    case Jk_disconnected
    then show ?thesis using True
      by (simp add: jk_bt_event_def) (intro like_ok [OF like_upd2(1)] like_ok [OF like_upd2(2)] charc_ok(2) assms)
  next
    case Jk_ready
    then show ?thesis using True
      by (simp add: jk_bt_event_def) (intro like_ok [OF like_upd2(3)] like_ok [OF like_upd2(2)] assms)
  next
    case (Jk_value_received b ch v)
    then show ?thesis using True assms
      by (simp add: jk_bt_event_def jk_dev_ok_def terminal_ok jk_has_components_def counts_ok_def terminal_keeps)
  qed (use True assms charc_ok(1) in \<open>simp_all add: jk_bt_event_def\<close>)
qed (use assms in \<open>simp add: jk_bt_event_def\<close>)

lemma poll_one_ok:
  assumes "jk_dev_ok d"
  shows "jk_dev_ok (jk_poll_one now t1 t2 nt wr d)"
proof -
  have r: "jk_like d (snd (bms_jk_read_cmd t nt wr a v l d))" for t a v l
    by (simp add: jk_like_def jk_has_components_def counts_ok_def bms_jk_read_cmd_def Let_def)
  have "jk_like d (bms_jk_send_request t1 t2 nt wr d)"
    unfolding bms_jk_send_request_def Let_def case_prod_beta
    by (rule like_trans [OF like_trans [OF r like_upd2(6)] like_trans [OF like_upd2(5) like_upd2(7)]])
  moreover have "jk_dev_ok (d\<lparr>nbuff_curr := 0, nbuff_ready := False, wait_reply := False\<rparr>)"
    using assms by (simp add: jk_dev_ok_def rx_ok_def jk_has_components_def counts_ok_def packet_pos)
  ultimately show ?thesis using assms like_ok by (simp add: jk_poll_one_def)
qed

lemma jk_process_ok:
  assumes "\<forall>d\<in>set ds. jk_dev_ok d"
    and "wh_returns wh"
  shows "\<exists>ds' c'. bms_jk_process e wh i ds c = Some (ds', c') \<and> (\<forall>d\<in>set ds'. jk_dev_ok d) \<and> length ds' = length ds"
  using assms
proof (induction ds arbitrary: i c)
  case (Cons d ds)
  obtain d1 where d1: "bms_jk_frame_process wh (je_clk e i 2) (je_clk e i 3) d = Some d1" "jk_dev_ok d1"
    using frame_process_ok [OF _ assms(2)] Cons.prems by (metis list.set_intros(1))
  obtain d2 c2 where d2: "bms_jk_mqtt_send (je_lwip e) (je_time e) (je_clk e i 4) (d1, c) = Some (d2, c2)" "jk_like d1 d2"
    using mqtt_send_like [of d1] d1(2) by (metis jk_dev_ok_def)
  obtain ds' c' where "bms_jk_process e wh (i + 1) ds c2 = Some (ds', c')" "\<forall>d\<in>set ds'. jk_dev_ok d" "length ds' = length ds"
    using Cons.IH [of "i + 1" c2] Cons.prems by auto
  then show ?case using d1 d2 like_ok [OF d2(2) d1(2)] by simp
qed simp

text \<open>The operations: a turn of the main loop and an event of a connection.\<close>

datatype jk_op =
  Jk_turn jk_env
  | Jk_bt "u32 \<Rightarrow> u8 list option" "string \<Rightarrow> int" "string \<Rightarrow> bool" bool u64 int jk_event

fun jk_step :: "jk_op \<Rightarrow> bms_context \<times> 'h mqtt_context option \<Rightarrow> (bms_context \<times> 'h mqtt_context option) option" where
  "jk_step (Jk_turn e) st = bms_jk_run e st"
| "jk_step (Jk_bt svc exist al dup now idx ev) (ctx, c) =
     Some (ctx\<lparr>jk_devices := map (jk_bt_event svc exist al dup now idx ev) (jk_devices ctx)\<rparr>, c)"

definition jk_ok :: "bms_context \<times> 'h mqtt_context option \<Rightarrow> bool" where
  "jk_ok st \<longleftrightarrow> (\<forall>d\<in>set (jk_devices (fst st)). jk_dev_ok d) \<and> \<not> wh_notify (fst st)"

lemma timeout_devices [simp]: "jk_devices (bms_jk_timeout_check now ctx) = jk_devices ctx"
    "wh_notify (bms_jk_timeout_check now ctx) = wh_notify ctx"
  by (simp_all add: bms_jk_timeout_check_def)

interpretation jk: machine jk_step jk_ok
proof unfold_locales
  fix p and st :: "bms_context \<times> 'h mqtt_context option"
  assume ok: "jk_ok st"
  obtain ctx c where st: "st = (ctx, c)" by (cases st)
  show "\<exists>st'. jk_step p st = Some st' \<and> jk_ok st'"
  proof (cases p)
    case (Jk_turn e)
    have "\<forall>d\<in>set (jk_poll e (jk_devices ctx)). jk_dev_ok d"
      using ok poll_one_ok by (auto simp: jk_poll_def jk_ok_def st in_set_enumerate_eq)
    then obtain ds c' where "bms_jk_process e None 0 (jk_poll e (jk_devices ctx)) c = Some (ds, c')"
      "\<forall>d\<in>set ds. jk_dev_ok d" using jk_process_ok demo_wh_off by blast
    then show ?thesis using ok by (simp add: Jk_turn st bms_jk_run_def jk_ok_def)
  next
    case (Jk_bt svc exist al dup now idx ev)
    then show ?thesis using ok event_ok by (auto simp: st jk_ok_def)
  qed
qed

section \<open>Initialisation\<close>

text \<open>A device before its components are registered.\<close>

definition jk_fresh :: "jk_bms_dev \<Rightarrow> bool" where
  "jk_fresh d \<longleftrightarrow> rx_ok d \<and> counts_ok d"

lemma new_device_fresh: "jk_fresh (jk_new_device a pin)"
  by (simp add: jk_fresh_def jk_new_device_def rx_ok_def counts_ok_def zero_cells_def packet_pos)

lemma config_devices_all:
  assumes "\<And>a pin. P (jk_new_device a pin)" and "\<forall>d\<in>set ds. P d"
  shows "\<forall>d\<in>set (jk_config_devices al devs ms ds). P d"
  using assms(2)
proof (induction devs arbitrary: ms ds)
  case (Cons d devs)
  have step: "jk_config_devices al (d # devs) ms ds = ds \<or> (\<exists>a pin. jk_config_devices al (d # devs) ms ds =
      jk_config_devices al devs (tl ms) (ds @ [jk_new_device a pin])) \<or>
    jk_config_devices al (d # devs) ms ds = jk_config_devices al devs (tl ms) ds"
    unfolding jk_config_devices.simps Let_def by (simp split: option.split prod.split) blast
  have "\<forall>d\<in>set (ds @ [jk_new_device a pin]). P d" for a pin using Cons.prems assms(1) by simp
  then show ?case using step Cons.IH Cons.prems by metis
qed simp

lemma fresh_like: "jk_like d d' \<Longrightarrow> jk_fresh d \<Longrightarrow> jk_fresh d'"
  by (simp add: jk_like_def jk_fresh_def rx_ok_def)

text \<open>The loops over the parameters change one device after the other.\<close>

lemma each_fresh:
  assumes "jk_each f ts ds = Some ds'" and "\<And>t d d'. f t d = Some d' \<Longrightarrow> jk_like d d'" and "\<forall>d\<in>set ds. jk_fresh d"
  shows "\<forall>d\<in>set ds'. jk_fresh d"
  using assms(1,3)
proof (induction ts arbitrary: ds ds')
  case (Cons t ts)
  obtain d es where ds: "ds = d # es" using Cons.prems(1) by (cases ds) auto
  obtain d1 where d1: "f t d = Some d1" using Cons.prems(1) by (cases "f t d") (auto simp: ds)
  have "jk_fresh d1" using fresh_like [OF assms(2) [OF d1]] Cons.prems(2) by (simp add: ds)
  then show ?case using Cons.IH [of es] Cons.prems d1 by (auto simp: ds split: if_splits)
qed simp

lemma force_like: "force_bms_data nw d = Some d' \<Longrightarrow> jk_like d d'"
  by (auto simp: force_bms_data_def jk_has_components_def jk_like_def counts_ok_def split: option.splits if_splits)

lemma battery_track_like:
  assumes "jk_bt_enable_battery_track nw lo hi d = Some d'"
  shows "jk_like d d'"
proof -
  let ?d = "d\<lparr>cell_v_low := lo, cell_v_high := hi,
        auto_batt := (auto_batt d)\<lparr>aa_enabled := True, script_on_name := ''batt_normal'', script_off_name := ''batt_low'',
          wh_on_message := ''battery normal'', wh_off_message := ''battery low'', aa_state := False\<rparr>\<rparr>"
  have "jk_like d ?d" by (simp add: jk_like_def jk_has_components_def counts_ok_def)
  moreover have "d' = d \<or> force_bms_data nw ?d = Some d'"
    using assms unfolding jk_bt_enable_battery_track_def by (cases "hi \<le> lo") simp_all
  ultimately show ?thesis using like_refl [of d] like_trans [OF _ force_like, of d ?d nw d'] by blast
qed

lemma solar_track_like:
  assumes "jk_bt_enable_solar_track nw exist al thr d = Some d'"
  shows "jk_like d d'"
proof -
  let ?d = "d\<lparr>charge_current_threshold := thr,
          auto_solar := (auto_solar d)\<lparr>aa_enabled := 0 < thr, script_on_name := ''solar_on'', script_off_name := ''solar_off'',
            wh_on_message := ''solar excess'', wh_off_message := ''solar deficiency'', aa_state := False\<rparr>\<rparr>"
  have l: "jk_like d ?d" by (simp add: jk_like_def jk_has_components_def counts_ok_def)
  obtain d1 where d1: "force_bms_data nw ?d = Some d1" using assms by (auto simp: jk_bt_enable_solar_track_def)
  have "jk_like d d1" by (rule like_trans [OF l force_like [OF d1]])
  moreover have "d' = d1 \<or> (\<exists>a. d' = d1\<lparr>auto_solar := a\<rparr>)"
    using assms unfolding jk_bt_enable_solar_track_def d1 by (auto split: if_splits)
  ultimately show ?thesis using like_trans [OF _ like_upd(2)] by blast
qed

lemma each_level_fresh:
  "jk_each_level nw ts ds = Some ds' \<Longrightarrow> \<forall>d\<in>set ds. jk_fresh d \<Longrightarrow> \<forall>d\<in>set ds'. jk_fresh d"
proof (induction ts arbitrary: ds ds')
  case (Cons t ts)
  show ?case
  proof (cases "jk_levels t")
    case None
    then show ?thesis using Cons by simp
  next
    case (Some l)
    show ?thesis
    proof (cases ds)
      case Nil
      then show ?thesis using Some Cons.prems by (auto split: if_splits)
    next
      case ds: (Cons d es)
      obtain d1 where d1: "(case l of None \<Rightarrow> Some d | Some (lo, hi) \<Rightarrow> jk_bt_enable_battery_track nw lo hi d) = Some d1"
        using Cons.prems(1) Some by (auto simp: ds split: option.splits)
      then have "jk_like d d1" using like_refl battery_track_like by (cases l) auto
      then have "jk_fresh d1" using fresh_like Cons.prems(2) by (simp add: ds)
      then show ?thesis using Cons.IH [of es] Cons.prems d1 Some by (auto simp: ds split: if_splits)
    qed
  qed
qed simp

lemma each_charge_fresh:
  "jk_each_charge nw exist al ts ds = Some ds' \<Longrightarrow> \<forall>d\<in>set ds. jk_fresh d \<Longrightarrow> \<forall>d\<in>set ds'. jk_fresh d"
proof (induction ts arbitrary: ds ds')
  case (Cons t ts)
  define v where "v = (case f32_of_int (strtol_val 0 t) of Fin x \<Rightarrow> x | _ \<Rightarrow> 0)"
  show ?case
  proof (cases ds)
    case Nil
    then show ?thesis using Cons.prems(1) unfolding jk_each_charge.simps v_def [symmetric] by (auto split: if_splits)
  next
    case ds: (Cons d es)
    obtain d1 where d1: "(if v > 0 then jk_bt_enable_solar_track nw exist al (word_of_int \<lfloor>v\<rfloor>) d else Some d) = Some d1"
      using Cons.prems(1) unfolding jk_each_charge.simps v_def [symmetric] by (auto simp: ds split: option.splits)
    then have "jk_like d d1" using like_refl solar_track_like by (auto split: if_splits)
    then have f: "jk_fresh d1" using fresh_like Cons.prems(2) by (simp add: ds)
    have "(if es = [] then Some [d1] else map_option ((#) d1) (jk_each_charge nw exist al ts es)) = Some ds'"
      using Cons.prems(1) d1 unfolding jk_each_charge.simps v_def [symmetric] by (simp add: ds)
    then show ?thesis using Cons.IH [of es] Cons.prems(2) f by (auto simp: ds split: if_splits)
  qed
qed simp

lemma config_fresh:
  assumes "get_bms_config nw exist al alloc p = Some (Some ctx)"
  shows "\<forall>d\<in>set (jk_devices ctx). jk_fresh d"
proof -
  define ds where "ds = jk_config_devices alloc (toks (jp_bt p)) (toks (jp_model p)) []"
  obtain ds1 where ds1: "jk_each jk_set_timeout (toks (jp_timeout p)) ds = Some ds1"
    using assms by (auto simp: get_bms_config_def ds_def Let_def split: option.splits if_splits)
  obtain ds2 where ds2: "jk_each_level nw (toks (jp_levels p)) ds1 = Some ds2"
    using assms ds1 by (auto simp: get_bms_config_def Let_def simp flip: ds_def split: option.splits if_splits)
  obtain ds3 where ds3: "jk_each (\<lambda>t d. Some (d\<lparr>user_name := Some t\<rparr>)) (toks (jp_name p)) ds2 = Some ds3"
    using assms ds1 ds2 by (auto simp: get_bms_config_def Let_def simp flip: ds_def split: option.splits if_splits)
  obtain ds4 where ds4: "jk_each_charge nw exist al (toks (jp_charge p)) ds3 = Some ds4"
    using assms ds1 ds2 ds3 by (auto simp: get_bms_config_def Let_def simp flip: ds_def split: option.splits if_splits)
  have "\<forall>d\<in>set ds. jk_fresh d" unfolding ds_def by (rule config_devices_all) (simp_all add: new_device_fresh)
  then have "\<forall>d\<in>set ds1. jk_fresh d"
    by (rule each_fresh [OF ds1, rotated]) (auto simp: jk_set_timeout_def Let_def like_upd2)
  then have "\<forall>d\<in>set ds2. jk_fresh d" by (rule each_level_fresh [OF ds2])
  then have "\<forall>d\<in>set ds3. jk_fresh d" by (rule each_fresh [OF ds3, rotated]) (auto simp: like_upd2)
  then have "\<forall>d\<in>set ds4. jk_fresh d" by (rule each_charge_fresh [OF ds4])
  moreover have "jk_devices ctx = ds4"
    using assms ds1 ds2 ds3 ds4 by (auto simp: get_bms_config_def Let_def simp flip: ds_def split: if_splits)
  ultimately show ?thesis by simp
qed

lemma mqtt_init_components:
  assumes "bms_jk_mqtt_init i d c = (d', c')"
  shows "\<exists>v r a b. d' = d\<lparr>jk_mqtt := (jk_mqtt d)\<lparr>jm_cells_v := Some v, jm_cells_res := Some r, jm_bms_data := Some a, jm_bms_info := Some b\<rparr>\<rparr>"
  using assms unfolding bms_jk_mqtt_init_def Let_def case_prod_beta by blast

lemma init_devices_ok:
  assumes "jk_init_devices add i ds c = (Some ds', c')" and "\<forall>d\<in>set ds. jk_fresh d"
  shows "\<forall>d\<in>set ds'. jk_dev_ok d"
  using assms
proof (induction ds arbitrary: i c ds' c')
  case (Cons d ds)
  define d0 where "d0 = d\<lparr>jk_state := JK_DISCONNECTED,
            jk_term_charc := (jk_term_charc d)\<lparr>svc_uid128 := terminal_svc, charc_uid128 := terminal_charc_read\<rparr>, jk_bt_index := add i\<rparr>"
  obtain d1 c1 where d1: "bms_jk_mqtt_init i d0 c = (d1, c1)" by fastforce
  obtain r c2 where r: "jk_init_devices add (i + 1) ds c1 = (r, c2)" by fastforce
  have "(if add i < 1 then (None, c) else (map_option ((#) d1) r, c2)) = (Some ds', c')"
    using Cons.prems(1) unfolding jk_init_devices.simps Let_def d0_def [symmetric] d1 prod.case r .
  then obtain es where es: "r = Some es" "ds' = d1 # es" by (auto split: if_splits)
  have "jk_fresh d0" using Cons.prems(2) by (simp add: d0_def jk_fresh_def rx_ok_def counts_ok_def)
  then have "jk_dev_ok d1" using mqtt_init_components [OF d1]
    by (auto simp: jk_dev_ok_def jk_fresh_def rx_ok_def counts_ok_def jk_has_components_def)
  then show ?case using Cons.IH [of "i + 1" c1] r Cons.prems(2) by (simp add: es)
qed simp

text \<open>
  Without notifications by webhook the battery module stays within its bounds: after an
  initialisation, over any turns of the main loop and any events of the connections in any order,
  the state of every device keeps a sound receive buffer, its four MQTT components and its counts.
\<close>

lemma jk_never_stops:
  assumes "bms_jk_init nw exist al alloc p add c = Some (Some ctx, c')" and "\<not> wh_notify ctx"
  shows "\<exists>ctx2 c2. run_ops jk_step ops (ctx, c') = Some (ctx2, c2) \<and> jk_ok (ctx2, c2)"
proof -
  obtain ctx0 where ctx0: "get_bms_config nw exist al alloc p = Some (Some ctx0)"
    using assms by (auto simp: bms_jk_init_def split: option.splits)
  then obtain ds where ds: "jk_init_devices add 0 (jk_devices ctx0) c = (Some ds, c')" "ctx = ctx0\<lparr>jk_devices := ds\<rparr>"
    using assms by (auto simp: bms_jk_init_def case_prod_beta prod_eq_iff)
  have "jk_ok (ctx, c')"
    using init_devices_ok [OF ds(1) config_fresh [OF ctx0]] assms(2) by (simp add: jk_ok_def ds(2))
  from jk.runs_ok [OF this] show ?thesis by auto
qed

section \<open>Solar scripts\<close>

text \<open>A device with solar tracking only.\<close>

definition solar_setup :: "jk_bms_dev \<Rightarrow> bool" where
  "solar_setup d \<longleftrightarrow> \<not> aa_enabled (auto_batt d) \<and> aa_enabled (auto_solar d) \<and> jm_bms_data (jk_mqtt d) \<noteq> None"

definition frame_deficit :: "u16 \<Rightarrow> u8 list \<Rightarrow> bool" where
  "frame_deficit thr f \<longleftrightarrow> DATA_INT32_GET f 158 < 0 \<or>
     DATA_UINT8_GET f 173 < 90 \<and> milli (DATA_INT32_GET f 158) < of_int (uint thr)"

lemma solar_device:
  assumes "solar_setup d" and "d1 = jk_bt_process_cell_frame (jk_rx f d)"
  shows "solar_setup d1" "ci_valid (cell_info d1)" "auto_solar d1 = auto_solar d" "last_solar_try d1 = last_solar_try d"
    "jk_calls d1 = jk_calls d" "DEV_NAME d1 = DEV_NAME d" "solar_excess d1 \<longleftrightarrow> \<not> frame_deficit (charge_current_threshold d) f"
    "charge_current_threshold d1 = charge_current_threshold d"
  using assms
  by (simp_all add: solar_setup_def jk_bt_process_cell_frame_def jk_rx_def cell_fields solar_excess_def Let_def frame_deficit_def
      BATT_STATE_CHARGE_THR_def)

lemma solar_frame_step:
  assumes "solar_setup d" and "f ! 4 = 0x02" and "d1 = jk_bt_process_cell_frame (jk_rx f d)"
  shows "jk_frame_step wh (t1, t2, f) d = map_option (jk_done t2) (jk_bt_check_solar wh t1 d1)"
  using solar_device(1) [OF assms(1,3)] unfolding cell_frame_step [OF assms(2)] assms(3) [symmetric]
  by (simp add: jk_bt_automation_run_def solar_setup_def)

text \<open>A frame in the pause after the excess was gone.\<close>

lemma solar_frame_pause:
  assumes "solar_setup d" and "\<not> aa_state (auto_solar d)" and "f ! 4 = 0x02" and "t1 - last_solar_try d < BATT_STATE_CHARGE_TRY_DELAY_MS"
  shows "\<exists>d'. jk_frame_step wh (t1, t2, f) d = Some d' \<and> solar_setup d' \<and> auto_solar d' = auto_solar d \<and>
    last_solar_try d' = last_solar_try d \<and> jk_calls d' = jk_calls d"
proof -
  define d1 where "d1 = jk_bt_process_cell_frame (jk_rx f d)"
  note d1 = solar_device [OF assms(1) d1_def]
  have "jk_bt_check_solar wh t1 d1 = Some d1" using assms(2,4) d1 by (simp add: jk_bt_check_solar_def)
  moreover have "solar_setup (jk_done t2 d1)" using d1(1) by (simp add: solar_setup_def)
  ultimately show ?thesis using solar_frame_step [OF assms(1,3) d1_def] d1 by simp
qed

lemma solar_frames_pause:
  assumes "solar_setup d" and "\<not> aa_state (auto_solar d)"
    and "\<forall>(t1, t2, f)\<in>set fs. f ! 4 = 0x02 \<and> t1 - last_solar_try d < BATT_STATE_CHARGE_TRY_DELAY_MS"
  shows "\<exists>d'. run_ops (jk_frame_step wh) fs d = Some d' \<and> auto_solar d' = auto_solar d \<and> jk_calls d' = jk_calls d"
  using assms
proof (induction fs arbitrary: d)
  case (Cons x fs)
  obtain t1 t2 f where x: "x = (t1, t2, f)" by (rule prod_cases3)
  obtain d1 where d1: "jk_frame_step wh (t1, t2, f) d = Some d1" "solar_setup d1" "auto_solar d1 = auto_solar d"
    "last_solar_try d1 = last_solar_try d" "jk_calls d1 = jk_calls d"
    using solar_frame_pause [OF Cons.prems(1,2), of f t1 wh t2] Cons.prems(3) by (auto simp: x)
  have "\<exists>d'. run_ops (jk_frame_step wh) fs d1 = Some d' \<and> auto_solar d' = auto_solar d1 \<and> jk_calls d' = jk_calls d1"
    using d1 Cons.prems by (intro Cons.IH) auto
  then show ?case using d1 by (simp add: x del: jk_frame_step.simps)
qed simp

text \<open>
  C29.  For a device with solar tracking only (\<open>solar_setup\<close>: battery tracking, which has scripts of its
  own, is off) and a webhook whose calls return or that is not used: the cell frame in which the
  excess of solar power is gone switches the load off and calls the scripts of the change, once; in
  the two minutes after its reading of the clock no cell frame, whatever it says, calls a script or
  switches the load on again.
\<close>

lemma solar_off_pause:
  assumes "solar_setup d" and "aa_state (auto_solar d)" and "\<forall>(t1, t2, f)\<in>set ((t, t', g) # fs). f ! 4 = 0x02"
    and "frame_deficit (charge_current_threshold d) g" and "\<forall>(t1, t2, f)\<in>set fs. t \<le> t1 \<and> unat t1 < unat t + 120000"
    and "wh_returns wh"
  shows "\<exists>d'. run_ops (jk_frame_step wh) ((t, t', g) # fs) d = Some d' \<and> \<not> aa_state (auto_solar d') \<and>
    jk_calls d' = jk_calls d @ auto_calls wh (DEV_NAME d) ((auto_solar d)\<lparr>aa_state := False\<rparr>)"
proof -
  define d1 where "d1 = jk_bt_process_cell_frame (jk_rx g d)"
  note d1 = solar_device [OF assms(1) d1_def]
  define d2 where "d2 = (d1\<lparr>last_solar_try := t\<rparr>)\<lparr>auto_solar := (auto_solar (d1\<lparr>last_solar_try := t\<rparr>))\<lparr>aa_state := False\<rparr>\<rparr>"
  have "jm_bms_data (jk_mqtt d2) \<noteq> None" using d1(1) by (simp add: d2_def solar_setup_def)
  then obtain cmp where cmp: "jm_bms_data (jk_mqtt d2) = Some cmp" by blast
  have chk: "jk_bt_check_solar wh t d1 = jk_bt_auto_action wh auto_solar auto_solar_update d2"
    using d1 assms(2,4) by (simp add: jk_bt_check_solar_def d2_def Let_def)
  define d3 where "d3 = jk_done t' ((auto_solar_update (\<lambda>a. a\<lparr>aa_runs := aa_runs a + 1\<rparr>) (d2\<lparr>jk_calls := jk_calls d2 @ auto_calls wh (DEV_NAME d2) (auto_solar d2)\<rparr>))
    \<lparr>jk_mqtt := (jk_mqtt d2)\<lparr>jm_bms_data := Some (cmp\<lparr>force := True\<rparr>)\<rparr>\<rparr>)"
  have step: "jk_frame_step wh (t, t', g) d = Some d3"
    using solar_frame_step [OF assms(1) _ d1_def] assms(3) cmp by (simp add: chk jk_bt_auto_action_def force_bms_data_def d3_def calls_return assms(6) Let_def)
  have d3: "solar_setup d3" "\<not> aa_state (auto_solar d3)" "last_solar_try d3 = t"
    "jk_calls d3 = jk_calls d @ auto_calls wh (DEV_NAME d) ((auto_solar d)\<lparr>aa_state := False\<rparr>)"
    using d1 by (simp_all add: d3_def d2_def solar_setup_def)
  have late: "t1 - t < BATT_STATE_CHARGE_TRY_DELAY_MS" if "t \<le> t1" "unat t1 < unat t + 120000" for t1
    using that by (simp add: word_less_nat_alt unat_sub BATT_STATE_CHARGE_TRY_DELAY_MS_def)
  have "\<forall>(t1, t2, f)\<in>set fs. f ! 4 = 0x02 \<and> t1 - last_solar_try d3 < BATT_STATE_CHARGE_TRY_DELAY_MS"
    using assms(3,5) late d3(3) by auto
  from solar_frames_pause [OF d3(1,2) this, of wh] obtain d' where
    "run_ops (jk_frame_step wh) fs d3 = Some d'" "auto_solar d' = auto_solar d3" "jk_calls d' = jk_calls d3" by blast
  then show ?thesis using step d3 by (simp del: jk_frame_step.simps)
qed

section \<open>From the frame to the report\<close>

definition cell_report :: "string \<Rightarrow> u8 list \<Rightarrow> string" where
  "cell_report time f = concat
     (jk_head time @ map (\<lambda>i. jk_fld (''cell_'' @ nat_str i @ ''_v'') (f_milli (cell_reading f i))) [0 ..< BMS_MAX_CELLS] @ [''}''])"

definition pub_accepts :: "lwip \<Rightarrow> string \<Rightarrow> string \<Rightarrow> 'h mqtt_context \<Rightarrow> bool" where
  "pub_accepts e t m ctx \<longleftrightarrow> mq_state ctx = MQTT_CLIENT_CONNECTED \<and> mqtt_is_connected_ctx e ctx \<and>
     length m \<le> max_payload_size ctx \<and> filter_pkt_count ctx < max_ppm ctx \<and> lw_publish e t m = 0"

lemma component_accepted:
  assumes "pub_accepts e t m ctx" and "mc_state_topic cmp = Some t" and "mqtt_is_discovery_sent (Some ctx)"
  shows "\<exists>cmp2 ctx2. mqtt_msg_component_publish e cmp m (Some ctx) = (0, cmp2, Some ctx2) \<and> wire ctx2 = wire ctx @ [(t, m)]"
proof -
  obtain r ctx2 where p: "mqtt_msg_publish e (Some t) m (force cmp) ctx = (r, ctx2)" by fastforce
  have "\<not> pub_refused e m ctx" using assms(1) by (auto simp: pub_accepts_def pub_refused_def)
  moreover have "fst (mqtt_msg_send (later 1 e) t m ctx) = 0"
    using assms(1) by (simp add: pub_accepts_def mqtt_msg_send_def mqtt_is_connected_ctx_def)
  ultimately have "r = 0" using p by (simp add: mqtt_msg_publish_cases case_prod_beta)
  then show ?thesis using p mqtt_msg_publish_wire [OF p] assms(2,3) by (simp add: mqtt_msg_component_publish_def)
qed

lemma report_parts:
  assumes "cells_v (cell_info d) = map (cell_reading f) [0 ..< 32]"
  shows "concat (cells_v_parts time d) = cell_report time f"
proof -
  have "map (\<lambda>i. jk_fld (''cell_'' @ nat_str i @ ''_v'') (f_milli (cells_v (cell_info d) ! i))) [0 ..< BMS_MAX_CELLS] =
      map (\<lambda>i. jk_fld (''cell_'' @ nat_str i @ ''_v'') (f_milli (cell_reading f i))) [0 ..< BMS_MAX_CELLS]"
    using assms by (intro map_cong refl) (simp add: BMS_MAX_CELLS_def)
  then show ?thesis by (simp only: cells_v_parts_def cell_report_def)
qed


text \<open>
  A configuration with cell levels cannot be loaded where a write through NULL traps: the levels
  are stored before the MQTT components exist.  Here and after a first device with valid levels.
\<close>

lemma jk_levels_through_null:
  assumes "jp_model p \<notin> {None, Some []}" and "jp_bt p \<notin> {None, Some []}"
    and "jk_config_devices alloc (toks (jp_bt p)) (toks (jp_model p)) [] \<noteq> []"
    and "toks (jp_levels p) = l # ls" and "jk_levels l = Some (Some (lo, hi))" and "lo < hi"
  shows "get_bms_config False exist al alloc p = None"
proof -
  define ds where "ds = jk_config_devices alloc (toks (jp_bt p)) (toks (jp_model p)) []"
  have null: "\<forall>d\<in>set ds. jm_bms_data (jk_mqtt d) = None"
    unfolding ds_def by (rule config_devices_all) (simp_all add: jk_new_device_def)
  show ?thesis
  proof (cases "jk_each jk_set_timeout (toks (jp_timeout p)) ds")
    case None
    then show ?thesis using assms(1,2) by (simp add: get_bms_config_def Let_def flip: ds_def)
  next
    case (Some ds1)
    have "ds1 \<noteq> [] \<and> jm_bms_data (jk_mqtt (hd ds1)) = None"
      using Some null assms(3) unfolding ds_def [symmetric]
      by (cases "toks (jp_timeout p)"; cases ds) (auto simp: jk_set_timeout_def Let_def split: if_splits)
    then obtain d es where d: "ds1 = d # es" "jm_bms_data (jk_mqtt d) = None" by (cases ds1) auto
    have "jk_each_level False (toks (jp_levels p)) ds1 = None"
      using assms(4-6) d by (simp add: jk_bt_enable_battery_track_def force_bms_data_def flip: not_less)
    then show ?thesis using assms(1,2) Some by (simp add: get_bms_config_def Let_def flip: ds_def)
  qed
qed

section \<open>Witnesses\<close>

definition demo_jp :: "string option \<Rightarrow> jk_params" where
  "demo_jp levels = \<lparr>jp_model = Some ''JK'', jp_bt = Some ''1:2:3:4:5:6,12'', jp_levels = levels, jp_timeout = None, jp_name = None,
     jp_notify = None, jp_charge = None\<rparr>"

definition demo_je :: "nat \<Rightarrow> jk_env" where
  "demo_je n = \<lparr>je_now = of_nat n, je_clk = (\<lambda>_ k. of_nat (n + k)), je_fin = of_nat (n + 9), je_notify = 0, je_write = 0,
     je_lwip = demo_lwip (of_nat n), je_time = ''x'', je_webhook = (\<lambda>_. False)\<rparr>"

lemma demo_config:
  "length (jk_config_devices (\<lambda>_. True) (toks (jp_bt (demo_jp l))) (toks (jp_model (demo_jp l))) []) = 1"
proof -
  have "length (jk_config_devices (\<lambda>_. True) (toks (Some ''1:2:3:4:5:6,12'')) (toks (Some ''JK'')) []) = 1" by code_simp
  then show ?thesis by (simp add: demo_jp_def)
qed

lemma jk_never_stops_witness:
  "\<exists>ctx c ctx2 c2. bms_jk_init True (\<lambda>_. 0) (\<lambda>_. True) (\<lambda>_. True) (demo_jp None) (\<lambda>_. 1) (Some demo_mqtt) = Some (Some ctx, c) \<and>
    run_ops jk_step [Jk_turn (demo_je 1), Jk_bt (\<lambda>_. None) (\<lambda>_. 0) (\<lambda>_. True) True 7 1 (Jk_connected ''b''), Jk_turn (demo_je 9000)]
      (ctx, c) = Some (ctx2, c2) \<and> jk_ok (ctx2, c2)"
proof -
  let ?ds = "jk_config_devices (\<lambda>_. True) (toks (jp_bt (demo_jp None))) (toks (jp_model (demo_jp None))) []"
  have f: "toks (jp_levels (demo_jp None)) = []" "toks (jp_timeout (demo_jp None)) = []" "toks (jp_name (demo_jp None)) = []"
    "toks (jp_charge (demo_jp None)) = []" "jp_model (demo_jp None) \<notin> {None, Some []}" "jp_bt (demo_jp None) \<notin> {None, Some []}"
    by (simp_all add: demo_jp_def toks_def)
  obtain d where d: "?ds = [d]" using demo_config [of None] by (metis length_0_conv length_Suc_conv One_nat_def)
  have cfg: "\<exists>ctx0. get_bms_config True (\<lambda>_. 0) (\<lambda>_. True) (\<lambda>_. True) (demo_jp None) = Some (Some ctx0) \<and> jk_devices ctx0 = [d] \<and> \<not> wh_notify ctx0"
    using f d by (simp add: get_bms_config_def demo_jp_def)
  have i: "\<exists>ds c. jk_init_devices (\<lambda>_. 1) 0 [d] (Some demo_mqtt) = (Some ds, c)"
    by (simp add: Let_def case_prod_beta)
  obtain ctx c where ini: "bms_jk_init True (\<lambda>_. 0) (\<lambda>_. True) (\<lambda>_. True) (demo_jp None) (\<lambda>_. 1) (Some demo_mqtt) = Some (Some ctx, c)"
    and off: "\<not> wh_notify ctx"
    using cfg i by (auto simp: bms_jk_init_def simp del: jk_init_devices.simps)
  then show ?thesis using jk_never_stops [OF ini off] by blast
qed

lemma jk_levels_through_null_witness:
  "get_bms_config False (\<lambda>_. 0) (\<lambda>_. True) (\<lambda>_. True) (demo_jp (Some ''3.0,3.5'')) = None"
proof -
  let ?p = "demo_jp (Some ''3.0,3.5'')"
  have "jk_levels ''3.0,3.5'' = Some (Some (3000, 3500))" by code_simp
  moreover have "toks (jp_levels ?p) = [''3.0,3.5'']" by code_simp
  moreover have "jk_config_devices (\<lambda>_. True) (toks (jp_bt ?p)) (toks (jp_model ?p)) [] \<noteq> []"
    using demo_config [of "Some ''3.0,3.5''"] by fastforce
  ultimately show ?thesis 
    by (intro jk_levels_through_null [where l = "''3.0,3.5''" and ls = "[]" and lo = 3000 and hi = 3500]) (simp_all add: demo_jp_def)
qed

definition demo_solar_dev :: jk_bms_dev where
  "demo_solar_dev =
     (let d = demo_jk_dev True in
      d\<lparr>auto_batt := zero_auto, auto_solar := zero_auto\<lparr>aa_enabled := True, aa_state := True, script_off_count := 1,
          script_off_prefix := Some ''off''\<rparr>, charge_current_threshold := 10\<rparr>)"

lemma demo_solar_setup:
  "solar_setup demo_solar_dev" "aa_state (auto_solar demo_solar_dev)" "charge_current_threshold demo_solar_dev = 10"
  "jk_calls demo_solar_dev = []" "auto_calls None n ((auto_solar demo_solar_dev)\<lparr>aa_state := False\<rparr>) = [Script_auto ''off'' True, Script_run ''off'']"
  by (simp_all add: demo_solar_dev_def Let_def solar_setup_def demo_jk_dev_def zero_auto_def auto_calls_def jk_new_device_def)

lemma solar_off_pause_witness:
  "\<exists>d'. run_ops (jk_frame_step None) [(1000, 1001, demo_jk_frame 0), (2000, 2001, (demo_jk_frame 0)[173 := 95]),
      (120999, 121000, (demo_jk_frame 0)[173 := 95])] demo_solar_dev = Some d' \<and> \<not> aa_state (auto_solar d') \<and>
    jk_calls d' = [Script_auto ''off'' True, Script_run ''off'']"
proof -
  let ?f = "(demo_jk_frame 0)[173 := 95]"
  have a: "\<forall>(t1, t2, f)\<in>set ((1000, 1001, demo_jk_frame 0) # [(2000, 2001, ?f), (120999, 121000, ?f)]). f ! 4 = 0x02"
    by (simp add: demo_jk_reading)
  have b: "frame_deficit (charge_current_threshold demo_solar_dev) (demo_jk_frame 0)"
    unfolding demo_solar_setup frame_deficit_def by code_simp
  have c: "\<forall>(t1, t2, f)\<in>set [(2000, 2001, ?f), (120999, 121000, ?f)]. (1000::u64) \<le> t1 \<and> unat t1 < unat (1000::u64) + 120000"
    by simp
  show ?thesis using solar_off_pause [OF demo_solar_setup(1,2) a b c demo_wh_off] by (simp only: demo_solar_setup append_Nil)
qed

definition demo_rx_frame :: "u8 list" where
  "demo_rx_frame = [0x55, 0xAA, 0xEB, 0x90, 2, 0, 0, 16] @ replicate 62 0 @ [1] @ replicate 228 0 @ [141]"

definition demo_rx_dev :: jk_bms_dev where
  "demo_rx_dev =
     (let d = jk_new_device [1, 2, 3, 4, 5, 6] ''12''; c = demo_component\<lparr>mc_state_topic := Some ''v''\<rparr> in
      d\<lparr>jk_mqtt := (jk_mqtt d)\<lparr>jm_cells_v := Some c, jm_cells_res := Some c, jm_bms_data := Some c, jm_bms_info := Some c\<rparr>\<rparr>)"

lemma sum_zeros: "foldl (+) x (replicate n 0) = (x :: u8)"
  by (induction n) simp_all

lemma demo_rx: "jk_frame demo_rx_frame" "demo_rx_frame ! 4 = 2" "cell_reading demo_rx_frame 0 = 4096"
  by (simp_all add: jk_frame_def demo_rx_frame_def NOTIFY_PACKET_SIZE_def jk_notify_pkt_start_def calc_crc_def sum_zeros
      nth_append cell_reading_def DATA_UINT16_GET_def)

lemma demo_cell_report: "length (cell_report ''x'' demo_rx_frame) < BMS_MQTT_DATA_LEN"
proof -
  have z: "\<forall>i\<in>set [1 ..< 32]. cell_reading demo_rx_frame i = 0" by code_simp
  have "map (\<lambda>i. jk_fld (''cell_'' @ nat_str i @ ''_v'') (f_milli (cell_reading demo_rx_frame i))) [0 ..< BMS_MAX_CELLS] =
      map (\<lambda>i. jk_fld (''cell_'' @ nat_str i @ ''_v'') (if i = 0 then ''4.10'' else ''0.00'')) [0 ..< BMS_MAX_CELLS]"
  proof (rule map_cong [OF refl])
    fix i assume i: "i \<in> set [0 ..< BMS_MAX_CELLS]"
    have "f_milli (4096 :: u16) = ''4.10''" "f_milli (0 :: u16) = ''0.00''" by code_simp+
    then show "jk_fld (''cell_'' @ nat_str i @ ''_v'') (f_milli (cell_reading demo_rx_frame i)) =
        jk_fld (''cell_'' @ nat_str i @ ''_v'') (if i = 0 then ''4.10'' else ''0.00'')"
      using i z demo_rx(3) by (cases "i = 0") (simp_all add: BMS_MAX_CELLS_def)
  qed
  then have "cell_report ''x'' demo_rx_frame = concat (jk_head ''x'' @
      map (\<lambda>i. jk_fld (''cell_'' @ nat_str i @ ''_v'') (if i = 0 then ''4.10'' else ''0.00'')) [0 ..< BMS_MAX_CELLS] @ [''}''])"
    by (simp only: cell_report_def)
  moreover have "length (concat (jk_head ''x'' @
      map (\<lambda>i. jk_fld (''cell_'' @ nat_str i @ ''_v'') (if i = 0 then ''4.10'' else ''0.00'')) [0 ..< BMS_MAX_CELLS] @ [''}''])) < BMS_MQTT_DATA_LEN"
    by code_simp
  ultimately show ?thesis by (simp only:)
qed


end
