(* ===== verification/OtLine.thy ===== *)
theory OtLine
  imports Codec
begin

text \<open>
  The OpenTherm line, \<open>libs/common/devices/opentherm/opentherm_pio.c\<close>: the 32 bit frames with
  their parity, the exchange over the two PIO programs, the retries, and the search for the
  frequency of a device.  The PIO hardware is a parameter: what a frame put on the line at a
  clock of the receiver is answered with.  The frames put on the line are recorded.  A loop that
  does not return is None.
\<close>

section \<open>Frames\<close>

definition OT_MAX_RETRIES :: nat where "OT_MAX_RETRIES = 2"
definition DEAD_INTERVAL_MS :: u64 where "DEAD_INTERVAL_MS = 60000"
definition MAX_SEARCH_HZ :: u32 where "MAX_SEARCH_HZ = 1000000"
definition END_BIT :: u32 where "END_BIT = 0x80000000"

record opentherm_msg =
  msg_type :: u8
  msg_id :: u8
  msg_value :: u16

definition MSG_TYPE_READ_DATA :: u8 where "MSG_TYPE_READ_DATA = 0"
definition MSG_TYPE_WRITE_DATA :: u8 where "MSG_TYPE_WRITE_DATA = 1"
definition MSG_TYPE_READ_ACK :: u8 where "MSG_TYPE_READ_ACK = 4"
definition MSG_TYPE_WRITE_ACK :: u8 where "MSG_TYPE_WRITE_ACK = 5"
definition MSG_TYPE_DATA_INVALID :: u8 where "MSG_TYPE_DATA_INVALID = 6"
definition MSG_TYPE_UNKNOWN_DATA_ID :: u8 where "MSG_TYPE_UNKNOWN_DATA_ID = 7"

definition popcount :: "u32 \<Rightarrow> nat" where
  "popcount w = length (filter (bit w) [0 ..< 32])"

definition opentherm_frame_encode :: "u8 \<Rightarrow> u8 \<Rightarrow> u16 \<Rightarrow> u32" where
  "opentherm_frame_encode mtype data_id data_value =
     (let frame = push_bit 28 (ucast (mtype AND 0x07)) OR push_bit 16 (ucast (data_id AND 0xFF)) OR
            ucast (data_value AND 0xFFFF)
      in if odd (popcount frame) then frame OR 0x80000000 else frame)"

definition opentherm_frame_decode :: "u32 \<Rightarrow> opentherm_msg option" where
  "opentherm_frame_decode frame =
     (if odd (popcount frame) then None
      else Some \<lparr>msg_type = ucast (drop_bit 28 frame AND 0x07), msg_id = ucast (drop_bit 16 frame AND 0xFF),
                msg_value = ucast (frame AND 0xFFFF)\<rparr>)"

section \<open>The exchange\<close>

text \<open>
  The receiver's program as loaded, the state of the connection, the clock of the receiver and
  the frames put on the line.
\<close>

record pio_prog =
  pp_pin :: int
  pp_sm :: int
  pp_pio :: nat
  pp_offset :: int
  pio_func :: nat

record opentherm_pio =
  rx_hz :: int
  ot_attached :: bool
  ot_conn_count :: int
  last_valid :: u64
  pio_rx :: pio_prog
  pio_tx :: pio_prog
  rx_clk :: u32
  ot_sent :: "u64 list"

text \<open>
  The environment of a turn: the answer of the line to the \<open>k\<close>-th frame at a clock (whether the
  frame left in time and the words in the receiver at the end), and the readings of the clock:
  after the \<open>k\<close>-th frame, at the \<open>i\<close>-th place of the code that reads it.
\<close>

record ot_env =
  ot_line :: "nat \<Rightarrow> u32 \<Rightarrow> u64 \<Rightarrow> bool \<times> u32 list"
  ot_clock :: "nat \<Rightarrow> nat \<Rightarrow> u64"

definition ot_now :: "ot_env \<Rightarrow> nat \<Rightarrow> opentherm_pio \<Rightarrow> u64" where
  "ot_now e i pio = ot_clock e (length (ot_sent pio)) i"

definition opentherm_exchange_frame ::
  "ot_env \<Rightarrow> u64 \<Rightarrow> opentherm_pio \<Rightarrow> (int + u32 \<times> u32 \<times> u32) \<times> opentherm_pio" where
  "opentherm_exchange_frame e out pio =
     (let (left, rx) = ot_line e (length (ot_sent pio)) (rx_clk pio) out;
          pio = pio\<lparr>ot_sent := ot_sent pio @ [out]\<rparr>
      in (if \<not> left then Inl (-1)
          else if length rx < 3 then Inl (-2)
          else Inr (rx ! 0, rx ! 1, rx ! 2), pio))"

definition rx_join :: "u32 \<Rightarrow> u32 \<Rightarrow> u64" where
  "rx_join a b = push_bit 32 (ucast a) OR ucast b"

text \<open>None: nothing valid was received.\<close>

definition opentherm_exchange_run ::
  "ot_env \<Rightarrow> opentherm_msg \<Rightarrow> opentherm_pio \<Rightarrow> opentherm_msg option \<times> opentherm_pio" where
  "opentherm_exchange_run e request pio =
     (let f = opentherm_frame_encode (msg_type request) (msg_id request) (msg_value request);
          m = manchester_encode f True;
          (ret, pio) = opentherm_exchange_frame e m pio
      in case ret of
           Inl _ \<Rightarrow> (None, pio)
         | Inr (in0, in1, in2) \<Rightarrow>
             if in2 \<noteq> END_BIT then (None, pio)
             else case manchester_decode (rx_join in0 in1) False of
                    None \<Rightarrow> (None, pio)
                  | Some f \<Rightarrow> (opentherm_frame_decode f, pio))"

fun exchange_tries :: "ot_env \<Rightarrow> opentherm_msg \<Rightarrow> nat \<Rightarrow> opentherm_pio \<Rightarrow> opentherm_msg option \<times> opentherm_pio" where
  "exchange_tries e request 0 pio = (None, pio)"
| "exchange_tries e request (Suc retry) pio =
     (case opentherm_exchange_run e request pio of
        (Some reply, pio) \<Rightarrow> (Some reply, pio\<lparr>last_valid := ot_now e 0 pio\<rparr>)
      | (None, pio) \<Rightarrow> exchange_tries e request retry pio)"

definition opentherm_dev_pio_exchange ::
  "ot_env \<Rightarrow> opentherm_msg \<Rightarrow> opentherm_pio \<Rightarrow> opentherm_msg option \<times> opentherm_pio" where
  "opentherm_dev_pio_exchange e request pio =
     (if \<not> ot_attached pio then (None, pio)
      else
        (case exchange_tries e request OT_MAX_RETRIES pio of
           (Some reply, pio) \<Rightarrow> (Some reply, pio)
         | (None, pio) \<Rightarrow>
             (None, if ot_now e 0 pio - last_valid pio > DEAD_INTERVAL_MS then pio\<lparr>ot_attached := False\<rparr> else pio)))"

section \<open>The search for a device\<close>

datatype ot_outcome = Too_low | Too_high | In_range

definition find_outcome :: "int + u32 \<times> u32 \<times> u32 \<Rightarrow> ot_outcome" where
  "find_outcome r =
     (case r of
        Inl _ \<Rightarrow> Too_low
      | Inr (in0, in1, in2) \<Rightarrow>
          if in2 = 0 then Too_low
          else if in2 \<noteq> END_BIT then Too_high
          else if manchester_decode (rx_join in0 in1) False = None then Too_high
          else In_range)"

text \<open>An exchange with the receiver at the clock \<open>hz\<close>.\<close>

definition try_at :: "ot_env \<Rightarrow> u64 \<Rightarrow> u32 \<Rightarrow> opentherm_pio \<Rightarrow> ot_outcome \<times> opentherm_pio" where
  "try_at e m hz pio =
     (let (ret, pio) = opentherm_exchange_frame e m (pio\<lparr>rx_clk := hz\<rparr>) in (find_outcome ret, pio))"

text \<open>The first loop: the next frequency, step and direction.\<close>

definition find_next :: "ot_outcome \<Rightarrow> u32 \<times> int \<times> bool \<Rightarrow> u32 \<times> int \<times> bool" where
  "find_next r st =
     (let (hz, step, up) = st in
      case r of
        Too_low \<Rightarrow> (let step = (if up then step else step div 10) in (hz + word_of_int step, step, True))
      | Too_high \<Rightarrow> (let step = (if up then step div 10 else step) in (hz - word_of_int step, step, False))
      | In_range \<Rightarrow> st)"

partial_function (option) find_search ::
  "ot_env \<Rightarrow> u64 \<Rightarrow> u32 \<times> int \<times> bool \<Rightarrow> opentherm_pio \<Rightarrow> (u32 option \<times> opentherm_pio) option" where
  "find_search e m st pio =
     (let (r, pio) = try_at e m (fst st) pio in
      if r = In_range then Some (Some (fst st), pio)
      else
        (let st = find_next r st; (hz, step, up) = st in
         if step \<noteq> 0 \<and> hz > 0 \<and> hz < MAX_SEARCH_HZ then find_search e m st pio else Some (None, pio)))"

text \<open>The loops over \<open>min\<close> and \<open>max\<close>: \<open>dir\<close> is the sign of the offset.\<close>

partial_function (option) find_edge ::
  "ot_env \<Rightarrow> u64 \<Rightarrow> u32 \<Rightarrow> int \<Rightarrow> int \<Rightarrow> opentherm_pio \<Rightarrow> (int \<times> opentherm_pio) option" where
  "find_edge e m hz dir off pio =
     (let off = s32 (off + 10);
          (r, pio) = try_at e m (hz + word_of_int (dir * off)) pio
      in if r \<noteq> In_range then Some (s32 (off - 10), pio)
         else find_edge e m hz dir off pio)"

definition opentherm_dev_pio_find :: "ot_env \<Rightarrow> opentherm_pio \<Rightarrow> (int \<times> opentherm_pio) option" where
  "opentherm_dev_pio_find e pio =
     (let m = manchester_encode (opentherm_frame_encode MSG_TYPE_READ_DATA 0 0) True in
      case find_search e m (1, 10000, True) pio of
        None \<Rightarrow> None
      | Some (None, pio) \<Rightarrow> Some (-1, pio\<lparr>rx_clk := word_of_int (rx_hz pio)\<rparr>)
      | Some (Some hz, pio) \<Rightarrow>
          (case find_edge e m hz (-1) 0 pio of
             None \<Rightarrow> None
           | Some (mi, pio) \<Rightarrow>
               (case find_edge e m hz 1 0 pio of
                  None \<Rightarrow> None
                | Some (ma, pio) \<Rightarrow>
                    (let hz = hz + word_of_int (tdiv (s32 (ma - mi)) 2) in
                     Some (0, pio\<lparr>rx_clk := hz, rx_hz := sint hz, ot_attached := True,
                            ot_conn_count := s32 (ot_conn_count pio + 1), last_valid := ot_now e 1 pio\<rparr>)))))"

section \<open>Initialisation\<close>

text \<open>
  \<open>can\<close>, \<open>add\<close> and \<open>claim\<close> are the SDK: whether a PIO has room for the program, its offset there,
  and a free state machine (negative: none).
\<close>

definition load_pio_program ::
  "(nat \<Rightarrow> bool) \<Rightarrow> (nat \<Rightarrow> int) \<Rightarrow> (nat \<Rightarrow> int) \<Rightarrow> pio_prog \<Rightarrow> int \<times> pio_prog" where
  "load_pio_program can add claim prog =
     (let prog = prog\<lparr>pp_sm := -1, pp_offset := -1\<rparr>;
          try = (\<lambda>i prog. if \<not> can i then (False, prog)
                   else if claim i < 0 then (False, prog\<lparr>pp_offset := add i, pp_sm := claim i\<rparr>)
                   else (True, prog\<lparr>pp_offset := add i, pp_sm := claim i, pp_pio := i, pio_func := i\<rparr>));
          (ok, prog) = try 0 prog
      in if ok then (0, prog)
         else (let (ok, prog) = try 1 prog in (if ok then 0 else -1, prog)))"

definition opentherm_dev_pio_init ::
  "(nat \<Rightarrow> bool) \<Rightarrow> (nat \<Rightarrow> int) \<Rightarrow> (nat \<Rightarrow> int) \<Rightarrow> (nat \<Rightarrow> bool) \<Rightarrow> (nat \<Rightarrow> int) \<Rightarrow> (nat \<Rightarrow> int)
   \<Rightarrow> opentherm_pio \<Rightarrow> int \<times> opentherm_pio" where
  "opentherm_dev_pio_init can1 add1 claim1 can2 add2 claim2 ctx =
     (let ctx = ctx\<lparr>rx_hz := 96550\<rparr>;
          (r, rx) = load_pio_program can1 add1 claim1 (pio_rx ctx); ctx = ctx\<lparr>pio_rx := rx\<rparr>
      in if r \<noteq> 0 then (-1, ctx)
         else
           (let (r, tx) = load_pio_program can2 add2 claim2 (pio_tx ctx); ctx = ctx\<lparr>pio_tx := tx\<rparr>
            in if r \<noteq> 0 then (-1, ctx) else (0, ctx\<lparr>rx_clk := word_of_int (rx_hz ctx)\<rparr>)))"

definition opentherm_dev_pio_attached :: "opentherm_pio \<Rightarrow> bool" where
  "opentherm_dev_pio_attached pio = ot_attached pio"

section \<open>Frames carry their message, and parity detects odd errors\<close>

lemma popcount_card: "popcount w = card {i. i < 32 \<and> bit w i}"
proof -
  have "popcount w = card (set (filter (bit w) [0 ..< 32]))" unfolding popcount_def by (rule distinct_card [symmetric]) simp
  also have "set (filter (bit w) [0 ..< 32]) = {i. i < 32 \<and> bit w i}" by auto
  finally show ?thesis .
qed

lemma popcount_xor: "even (popcount (a XOR b)) \<longleftrightarrow> (even (popcount a) \<longleftrightarrow> even (popcount b))"
proof -
  let ?A = "{i. i < 32 \<and> bit a i}" and ?B = "{i. i < 32 \<and> bit b i}"
  have f: "finite ?A" "finite ?B" by simp_all
  have x: "{i. i < 32 \<and> bit (a XOR b) i} = (?A - ?B) \<union> (?B - ?A)" by (auto simp: bit_xor_iff)
  have "card ((?A - ?B) \<union> (?B - ?A)) = card (?A - ?B) + card (?B - ?A)" using f by (intro card_Un_disjoint) auto
  moreover have "card ?A = card (?A - ?B) + card (?A \<inter> ?B)" using card_Int_Diff [OF f(1), of ?B] by simp
  moreover have "card ?B = card (?B - ?A) + card (?A \<inter> ?B)" using card_Int_Diff [OF f(2), of ?A] by (simp add: Int_commute)
  ultimately show ?thesis unfolding popcount_card x by presburger
qed

lemma popcount_top: "popcount 0x80000000 = 1"
  by code_simp

definition frame_body :: "u8 \<Rightarrow> u8 \<Rightarrow> u16 \<Rightarrow> u32" where
  "frame_body t i v = push_bit 28 (ucast (t AND 0x07)) OR push_bit 16 (ucast (i AND 0xFF)) OR ucast (v AND 0xFFFF)"

lemma low_bits:
  "bit (7 :: int) n \<longleftrightarrow> n < 3" "bit (255 :: int) n \<longleftrightarrow> n < 8" "bit (65535 :: int) n \<longleftrightarrow> n < 16" "bit (2147483648 :: int) n \<longleftrightarrow> n = 31"
proof -
  have m: "bit (mask k :: int) n \<longleftrightarrow> n < k" for k by (simp add: bit_mask_iff)
  show "bit (7 :: int) n \<longleftrightarrow> n < 3" "bit (255 :: int) n \<longleftrightarrow> n < 8" "bit (65535 :: int) n \<longleftrightarrow> n < 16"
    using m [of 3] m [of 8] m [of 16] by (simp_all add: mask_eq_exp_minus_1)
  have "bit (2 ^ 31 :: int) n \<longleftrightarrow> n = 31" unfolding bit_exp_iff by auto
  then show "bit (2147483648 :: int) n \<longleftrightarrow> n = 31" by simp
qed

lemma body_bit:
  "bit (frame_body t i v) n \<longleftrightarrow> (if n < 16 then bit v n else if n < 24 then bit i (n - 16) else 28 \<le> n \<and> n < 31 \<and> bit t (n - 28))"
  by (auto simp: frame_body_def bit_or_iff bit_push_bit_iff bit_and_iff bit_ucast_iff low_bits dest: bit_imp_le_length)

lemma encode_bit:
  "bit (opentherm_frame_encode t i v) n \<longleftrightarrow> (if n = 31 then odd (popcount (frame_body t i v)) else bit (frame_body t i v) n)"
  by (auto simp: opentherm_frame_encode_def Let_def bit_or_iff low_bits body_bit simp flip: frame_body_def)

lemma encode_even: "even (popcount (opentherm_frame_encode t i v))"
proof -
  have "frame_body t i v OR 0x80000000 = frame_body t i v XOR 0x80000000"
    by (rule bit_word_eqI) (auto simp: bit_or_iff bit_xor_iff low_bits body_bit)
  then show ?thesis
    using popcount_xor [where a = "frame_body t i v" and b = "0x80000000"]
    by (simp add: opentherm_frame_encode_def Let_def popcount_top flip: frame_body_def)
qed

lemma frame_decode_encode:
  "opentherm_frame_decode (opentherm_frame_encode t i v) = Some \<lparr>msg_type = t AND 7, msg_id = i, msg_value = v\<rparr>"
proof -
  let ?f = "opentherm_frame_encode t i v"
  have "ucast (drop_bit 28 ?f AND 0x07) = t AND 7"
    by (rule bit_word_eqI) (auto simp: bit_ucast_iff bit_and_iff bit_drop_bit_eq low_bits encode_bit body_bit)
  moreover have "ucast (drop_bit 16 ?f AND 0xFF) = i"
    by (rule bit_word_eqI) (auto simp: bit_ucast_iff bit_and_iff bit_drop_bit_eq low_bits encode_bit body_bit)
  moreover have "ucast (?f AND 0xFFFF) = v"
    by (rule bit_word_eqI) (auto simp: bit_ucast_iff bit_and_iff low_bits encode_bit body_bit)
  ultimately show ?thesis using encode_even by (simp add: opentherm_frame_decode_def)
qed

text \<open>
  C25.  A frame carries its message: what was encoded is decoded, and a frame in which any odd number
  of bits was changed is refused.
\<close>

lemma opentherm_frame_roundtrip:
  "opentherm_frame_decode (opentherm_frame_encode t i v) = Some \<lparr>msg_type = t AND 7, msg_id = i, msg_value = v\<rparr> \<and>
   (odd (popcount err) \<longrightarrow> opentherm_frame_decode (opentherm_frame_encode t i v XOR err) = None)"
  using frame_decode_encode popcount_xor [where a = "opentherm_frame_encode t i v" and b = err] encode_even
  by (simp add: opentherm_frame_decode_def)

lemma opentherm_frame_roundtrip_witness:
  "opentherm_frame_decode (opentherm_frame_encode 4 25 0x1E00) = Some \<lparr>msg_type = 4, msg_id = 25, msg_value = 0x1E00\<rparr> \<and>
   opentherm_frame_decode (opentherm_frame_encode 4 25 0x1E00 XOR 0x40) = None"
proof -
  have "popcount 0x40 = 1" by code_simp
  then show ?thesis using opentherm_frame_roundtrip [of 4 25 "0x1E00" "0x40"] by simp
qed

section \<open>A line with a device\<close>

lemma decode_encode [simp]: "manchester_decode (manchester_encode f ivt) ivt = Some f"
  by (simp add: manchester_decode_exact)

lemma rx_join_split [simp]: "rx_join (ucast (drop_bit 32 m)) (ucast m) = m"
  unfolding rx_join_def by (rule bit_word_eqI) (auto simp: bit_simps)

text \<open>A device that is heard with the receiver between two clocks and answers always the same frame.\<close>

definition demo_line :: "int \<Rightarrow> int \<Rightarrow> u32 \<Rightarrow> ot_env" where
  "demo_line lo hi f =
     \<lparr>ot_line = (\<lambda>k c m. if uint c < lo then (True, []) else if hi < uint c then (True, [0, 0, 1])
        else (True, [ucast (drop_bit 32 (manchester_encode f False)), ucast (manchester_encode f False), END_BIT])),
      ot_clock = (\<lambda>k i. 1000 * of_nat k)\<rparr>"

definition demo_pio :: opentherm_pio where
  "demo_pio = \<lparr>rx_hz = 50000, ot_attached = True, ot_conn_count = 1, last_valid = 0,
     pio_rx = \<lparr>pp_pin = 2, pp_sm = 0, pp_pio = 0, pp_offset = 0, pio_func = 0\<rparr>,
     pio_tx = \<lparr>pp_pin = 3, pp_sm = 1, pp_pio = 0, pp_offset = 16, pio_func = 0\<rparr>, rx_clk = 50000, ot_sent = []\<rparr>"

end
