(* ===== verification/OtFind.thy ===== *)
theory OtFind
  imports OtLine
begin

section \<open>The search ends and finds\<close>

definition answer_of :: "ot_env \<Rightarrow> u64 \<Rightarrow> nat \<Rightarrow> u32 \<Rightarrow> ot_outcome" where
  "answer_of e m k c =
     (let (left, rx) = ot_line e k c m in
      find_outcome (if \<not> left then Inl (-1) else if length rx < 3 then Inl (-2) else Inr (rx ! 0, rx ! 1, rx ! 2)))"

definition tried :: "u64 \<Rightarrow> u32 \<Rightarrow> opentherm_pio \<Rightarrow> opentherm_pio" where
  "tried m hz pio = pio\<lparr>rx_clk := hz, ot_sent := ot_sent pio @ [m]\<rparr>"

lemma try_at_eq: "try_at e m hz pio = (answer_of e m (length (ot_sent pio)) hz, tried m hz pio)"
  by (simp add: try_at_def opentherm_exchange_frame_def answer_of_def tried_def Let_def case_prod_beta)

lemma search_step:
  "find_search e m st pio =
     (let r = answer_of e m (length (ot_sent pio)) (fst st); st' = find_next r st in
      if r = In_range then Some (Some (fst st), tried m (fst st) pio)
      else if fst (snd st') \<noteq> 0 \<and> fst st' > 0 \<and> fst st' < MAX_SEARCH_HZ then find_search e m st' (tried m (fst st) pio)
      else Some (None, tried m (fst st) pio))"
  by (subst find_search.simps) (simp add: try_at_eq Let_def case_prod_beta)

text \<open>The frequencies as numbers: the state of the loop and what it does next.\<close>

definition search_st :: "int \<Rightarrow> int \<Rightarrow> bool \<Rightarrow> u32 \<times> int \<times> bool" where
  "search_st h s up = (word_of_int h, s, up)"

definition next_num :: "ot_outcome \<Rightarrow> int \<Rightarrow> int \<Rightarrow> bool \<Rightarrow> int \<times> int \<times> bool" where
  "next_num r h s up =
     (if r = Too_low then let s' = (if up then s else s div 10) in (h + s', s', True)
      else let s' = (if up then s div 10 else s) in (h - s', s', False))"

lemma next_eq:
  "r \<noteq> In_range \<Longrightarrow> next_num r h s up = (h', s', up') \<Longrightarrow> find_next r (search_st h s up) = search_st h' s' up'"
  by (cases r) (auto simp: find_next_def search_st_def next_num_def Let_def)

lemma small_hz: "- 10000 \<le> h \<Longrightarrow> h \<le> 1010000 \<Longrightarrow>
    ((word_of_int h :: u32) > 0 \<and> (word_of_int h :: u32) < MAX_SEARCH_HZ) \<longleftrightarrow> 0 < h \<and> h < 1000000"
proof -
  assume h: "- 10000 \<le> h" "h \<le> 1010000"
  show ?thesis
  proof (cases "0 \<le> h")
    case True
    then have "uint (word_of_int h :: u32) = h" using h by (simp add: uint_word_of_int)
    then show ?thesis by (simp add: word_less_def MAX_SEARCH_HZ_def)
  next
    case False
    then have "(h + 4294967296) mod 4294967296 = h + 4294967296" using h by (intro mod_pos_pos_trivial) simp_all
    then have "uint (word_of_int h :: u32) = h + 4294967296" by (simp add: uint_word_of_int)
    then show ?thesis using False h by (simp add: word_less_def MAX_SEARCH_HZ_def)
  qed
qed

lemma search_num:
  assumes "0 < h" "h < 1000000" "0 \<le> s" "s \<le> 10000" and "r = answer_of e m (length (ot_sent pio)) (word_of_int h)"
    and "r \<noteq> In_range" and "next_num r h s up = (h', s', up')"
  shows "find_search e m (search_st h s up) pio =
    (if s' \<noteq> 0 \<and> 0 < h' \<and> h' < 1000000 then find_search e m (search_st h' s' up') (tried m (word_of_int h) pio)
     else Some (None, tried m (word_of_int h) pio))"
proof -
  have b: "- 10000 \<le> h'" "h' \<le> 1010000"
    using assms(1-4,7) by (auto simp: next_num_def Let_def split: if_splits)
  show ?thesis
    using assms(5,6) next_eq [OF assms(6,7)] small_hz [OF b]
    by (subst search_step) (simp add: search_st_def Let_def)
qed

lemma search_ends:
  assumes "0 < h" "h < 1000000" "0 \<le> s" "s \<le> 10000"
  shows "find_search e m (search_st h s up) pio \<noteq> None"
  using assms
proof (induction "nat s * 2000000 + nat (if up then 1000000 - h else h)" arbitrary: h s up pio rule: less_induct)
  case less
  define r where "r = answer_of e m (length (ot_sent pio)) (word_of_int h)"
  obtain h' s' up' where n: "next_num r h s up = (h', s', up')" by (rule prod_cases3)
  show ?case
  proof (cases "r = In_range")
    case True
    then show ?thesis by (subst search_step) (simp add: search_st_def r_def Let_def)
  next
    case False
    show ?thesis
    proof (cases "s' \<noteq> 0 \<and> 0 < h' \<and> h' < 1000000")
      case True
      have s': "0 \<le> s'" "s' \<le> 10000" using n less.prems by (auto simp: next_num_def Let_def split: if_splits)
      have "nat s' * 2000000 + nat (if up' then 1000000 - h' else h') < nat s * 2000000 + nat (if up then 1000000 - h else h)"
        using n True less.prems by (auto simp: next_num_def Let_def split: if_splits) linarith+
      then show ?thesis
        using less.hyps [OF _ _ _ s', of up' h'] True search_num [OF less.prems r_def False n] by simp
    qed (use search_num [OF less.prems r_def False n] in auto)
  qed
qed

section \<open>The search finds\<close>

text \<open>
  A device that is heard in a window of frequencies: below the receiver is too slow, above too
  fast.
\<close>

definition heard_in :: "ot_env \<Rightarrow> u64 \<Rightarrow> int \<Rightarrow> int \<Rightarrow> bool" where
  "heard_in e m lo hi \<longleftrightarrow> (\<forall>k c. answer_of e m k c = (if uint c < lo then Too_low else if hi < uint c then Too_high else In_range))"

definition search_inv :: "int \<Rightarrow> int \<Rightarrow> int \<Rightarrow> int \<Rightarrow> bool \<Rightarrow> bool" where
  "search_inv lo hi h s up \<longleftrightarrow> 0 < h \<and> h < 1000000 \<and> s \<in> {10000, 1000, 100, 10, 1} \<and> h mod s = 1 mod s \<and>
     (if up then h - s < lo else hi < h + s)"

lemma coarser: "(h :: int) mod s = 1 mod s \<Longrightarrow> s = s' * 10 \<Longrightarrow> h mod s' = 1 mod s'"
  by (metis dvd_triv_left mod_mod_cancel)

lemma heard_at:
  assumes "heard_in e m lo hi" and "0 < h" and "h < 1000000"
  shows "answer_of e m k (word_of_int h) = (if h < lo then Too_low else if hi < h then Too_high else In_range)"
proof -
  have "uint (word_of_int h :: u32) = h" using assms(2,3) by (simp add: uint_word_of_int)
  then show ?thesis using assms(1) by (simp add: heard_in_def)
qed

lemma search_inv_step:
  assumes "search_inv lo hi h s up" and "1 \<le> lo" "lo \<le> hi" "hi < 990000"
    and "r = (if h < lo then Too_low else if hi < h then Too_high else In_range)" and "r \<noteq> In_range"
    and "next_num r h s up = (h', s', up')"
  shows "search_inv lo hi h' s' up' \<and> s' \<noteq> 0 \<and> 0 < h' \<and> h' < 1000000"
proof -
  have s: "s \<in> {10000, 1000, 100, 10, 1}" and hm: "h mod s = 1 mod s" and h: "0 < h" "h < 1000000"
    using assms(1) by (auto simp: search_inv_def)
  have inv: "if up then h - s < lo else hi < h + s" using assms(1) by (simp add: search_inv_def)
  consider (low) "r = Too_low" "h < lo" | (high) "r = Too_high" "hi < h" using assms(5,6) by (auto split: if_splits)
  then show ?thesis
  proof cases
    case low
    then have n: "s' = (if up then s else s div 10)" "h' = h + s'" "up'" using assms(7) by (auto simp: next_num_def Let_def)
    have one: "\<not> up \<Longrightarrow> s \<noteq> 1" using inv low assms(3) by auto
    then have s': "s' \<in> {10000, 1000, 100, 10, 1}" "s' = s \<or> s = s' * 10" using s n(1) by auto
    have "h mod s' = 1 mod s'" using hm s'(2) coarser [of h s s'] by blast
    then have "h' mod s' = 1 mod s'" by (simp add: n(2))
    moreover have "0 < h' \<and> h' < 1000000" using n(2) s'(1) h(1) low(2) assms(3,4) by auto
    ultimately show ?thesis using s'(1) n low(2) by (auto simp: search_inv_def)
  next
    case high
    then have n: "s' = (if up then s div 10 else s)" "h' = h - s'" "\<not> up'" using assms(7) by (auto simp: next_num_def Let_def)
    have one: "up \<Longrightarrow> s \<noteq> 1" using inv high assms(3) by auto
    then have s': "s' \<in> {10000, 1000, 100, 10, 1}" "s' = s \<or> s = s' * 10" using s n(1) by auto
    have m: "h mod s' = 1 mod s'" using hm s'(2) coarser [of h s s'] by blast
    have "0 < h'"
    proof (rule ccontr)
      assume "\<not> 0 < h'"
      then have "h \<le> s'" using n(2) by simp
      then have "h = s' \<or> h mod s' = h" using h(1) by (cases "h = s'") auto
      then show False using m s'(1) high(2) assms(2,3) by auto
    qed
    moreover have "h' mod s' = 1 mod s'" using m by (simp add: n(2) mod_diff_eq [symmetric])
    ultimately show ?thesis using s'(1) n high(2) h(2) by (auto simp: search_inv_def)
  qed
qed

lemma search_finds:
  assumes "heard_in e m lo hi" and "1 \<le> lo" "lo \<le> hi" "hi < 990000" and "search_inv lo hi h s up"
  shows "\<exists>h' pio'. find_search e m (search_st h s up) pio = Some (Some (word_of_int h'), pio') \<and> lo \<le> h' \<and> h' \<le> hi \<and>
    rx_hz pio' = rx_hz pio"
  using assms(5)
proof (induction "nat s * 2000000 + nat (if up then 1000000 - h else h)" arbitrary: h s up pio rule: less_induct)
  case less
  define r where "r = answer_of e m (length (ot_sent pio)) (word_of_int h)"
  have b: "0 < h" "h < 1000000" "0 \<le> s" "s \<le> 10000" using less.prems by (auto simp: search_inv_def)
  have r: "r = (if h < lo then Too_low else if hi < h then Too_high else In_range)"
    unfolding r_def by (rule heard_at [OF assms(1) b(1,2)])
  obtain h' s' up' where n: "next_num r h s up = (h', s', up')" by (rule prod_cases3)
  show ?case
  proof (cases "r = In_range")
    case True
    then have "lo \<le> h \<and> h \<le> hi" using r by (auto split: if_splits)
    then show ?thesis using True
      by (subst search_step) (auto simp: search_st_def r_def Let_def tried_def intro: exI [of _ h])
  next
    case False
    note i = search_inv_step [OF less.prems assms(2-4) r False n]
    have "nat s' * 2000000 + nat (if up' then 1000000 - h' else h') < nat s * 2000000 + nat (if up then 1000000 - h else h)"
      using n i b False r by (auto simp: next_num_def Let_def split: if_splits)
    then obtain h2 pio2 where "find_search e m (search_st h' s' up') (tried m (word_of_int h) pio) = Some (Some (word_of_int h2), pio2)"
      "lo \<le> h2" "h2 \<le> hi" "rx_hz pio2 = rx_hz (tried m (word_of_int h) pio)"
      using less.hyps [of s' up' h' "tried m (word_of_int h) pio"] i by blast
    then show ?thesis using search_num [OF b r_def False n] i by (auto simp: tried_def)
  qed
qed

text \<open>The edges of the window, in steps of 10.\<close>

lemma edge_step:
  "find_edge e m hz dir off pio =
     (let off' = s32 (off + 10); c = hz + word_of_int (dir * off') in
      if answer_of e m (length (ot_sent pio)) c \<noteq> In_range then Some (s32 (off' - 10), tried m c pio)
      else find_edge e m hz dir off' (tried m c pio))"
  by (subst find_edge.simps) (simp add: try_at_eq Let_def)

lemma edge_finds:
  assumes "heard_in e m lo hi" and "1 \<le> lo" "lo \<le> hi" "hi < 990000" and "dir = 1 \<or> dir = - 1"
    and "0 \<le> off" and "lo \<le> h + dir * off" and "h + dir * off \<le> hi" and "lo \<le> h" "h \<le> hi"
  shows "\<exists>off' pio'. find_edge e m (word_of_int h) dir off pio = Some (off', pio') \<and> 0 \<le> off' \<and>
    lo \<le> h + dir * off' \<and> h + dir * off' \<le> hi \<and> rx_hz pio' = rx_hz pio"
  using assms(6-8)
proof (induction "nat (1000000 - off)" arbitrary: off pio rule: less_induct)
  case less
  have off: "off < 1000000" using less.prems assms by auto
  then have o: "s32 (off + 10) = off + 10" "s32 off = off" using less.prems(1) by (simp_all add: s32_id)
  let ?x = "h + dir * (off + 10)"
  have c: "(word_of_int h + word_of_int (dir * (off + 10)) :: u32) = word_of_int ?x" by simp
  show ?case
  proof (cases "lo \<le> ?x \<and> ?x \<le> hi")
    case True
    then have a: "answer_of e m (length (ot_sent pio)) (word_of_int ?x) = In_range"
      using heard_at [OF assms(1), of ?x] assms(2-4) by auto
    have "\<exists>off' pio'. find_edge e m (word_of_int h) dir (off + 10) (tried m (word_of_int ?x) pio) = Some (off', pio') \<and> 0 \<le> off' \<and>
        lo \<le> h + dir * off' \<and> h + dir * off' \<le> hi \<and> rx_hz pio' = rx_hz (tried m (word_of_int ?x) pio)"
      using True less.prems(1) off by (intro less.hyps) auto
    then show ?thesis using a by (subst edge_step) (simp add: o(1) c Let_def tried_def)
  next
    case False
    have "answer_of e m (length (ot_sent pio)) (word_of_int ?x) \<noteq> In_range"
    proof (cases "0 < ?x \<and> ?x < 1000000")
      case True
      then show ?thesis using heard_at [OF assms(1), of ?x] False by auto
    next
      case False
      then have "- 10 \<le> ?x" "?x \<le> 0" using less.prems assms(2-5) by auto
      then have "uint (word_of_int ?x :: u32) = 0 \<or> 990000 < uint (word_of_int ?x :: u32)"
      proof (cases "?x = 0")
        case False
        then have "(?x + 4294967296) mod 4294967296 = ?x + 4294967296" using \<open>- 10 \<le> ?x\<close> \<open>?x \<le> 0\<close> by (intro mod_pos_pos_trivial) auto
        then have "uint (word_of_int ?x :: u32) = ?x + 4294967296" by (simp only: uint_word_of_int mod_add_self2) simp
        then show ?thesis using \<open>- 10 \<le> ?x\<close> by auto
      qed simp
      then show ?thesis using assms(1-4) by (auto simp: heard_in_def)
    qed
    then show ?thesis using less.prems by (subst edge_step) (simp add: o c Let_def tried_def)
  qed
qed

text \<open>
  C5.  The search finds every device: one that is heard in some window of frequencies below 990 kHz is
  attached, and the frequency set is in its window, wherever the window lies and however narrow
  it is.
\<close>

lemma opentherm_find_locks:
  assumes "heard_in e (manchester_encode (opentherm_frame_encode MSG_TYPE_READ_DATA 0 0) True) lo hi"
    and "1 \<le> lo" and "lo \<le> hi" and "hi < 990000"
  shows "\<exists>pio'. opentherm_dev_pio_find e pio = Some (0, pio') \<and> ot_attached pio' \<and> lo \<le> rx_hz pio' \<and> rx_hz pio' \<le> hi \<and>
    rx_clk pio' = word_of_int (rx_hz pio')"
proof -
  let ?m = "manchester_encode (opentherm_frame_encode MSG_TYPE_READ_DATA 0 0) True"
  have st: "(1 :: u32, 10000, True) = search_st 1 10000 True" by (simp add: search_st_def)
  have i: "search_inv lo hi 1 10000 True" using assms(2) by (simp add: search_inv_def)
  obtain h p1 where h: "find_search e ?m (1, 10000, True) pio = Some (Some (word_of_int h), p1)" "lo \<le> h" "h \<le> hi"
    using search_finds [OF assms i, of pio] unfolding st by blast
  obtain mi p2 where mi: "find_edge e ?m (word_of_int h) (-1) 0 p1 = Some (mi, p2)" "0 \<le> mi" "lo \<le> h - mi"
    using edge_finds [OF assms, of "-1" 0 h p1] h by auto
  obtain ma p3 where ma: "find_edge e ?m (word_of_int h) 1 0 p2 = Some (ma, p3)" "0 \<le> ma" "h + ma \<le> hi"
    using edge_finds [OF assms, of 1 0 h p2] h by auto
  define d where "d = tdiv (s32 (ma - mi)) 2"
  have s: "s32 (ma - mi) = ma - mi" using mi ma h assms(2-4) by (intro s32_id) auto
  have d: "- mi \<le> d" "d \<le> ma"
    unfolding d_def s using mi(2) ma(2) by (cases "0 \<le> ma - mi"; auto simp: tdiv_def sgn_if abs_if)+
  let ?c = "h + d"
  have c: "lo \<le> ?c" "?c \<le> hi" using d mi ma h by auto
  have w: "word_of_int h + word_of_int d = (word_of_int ?c :: u32)" by simp
  have "sint (word_of_int ?c :: u32) = ?c" 
    using c assms(2-4) unfolding sint_sbintrunc' by (intro signed_take_bit_int_eq_self) simp_all
  moreover have "opentherm_dev_pio_find e pio = Some (0, p3\<lparr>rx_clk := word_of_int ?c, rx_hz := sint (word_of_int ?c :: u32),
      ot_attached := True, ot_conn_count := s32 (ot_conn_count p3 + 1), last_valid := ot_now e 1 p3\<rparr>)"
    unfolding opentherm_dev_pio_find_def Let_def h(1) option.case prod.case mi(1) ma(1) d_def [symmetric] w by (rule refl)
  ultimately show ?thesis using c by simp
qed

section \<open>The search ends\<close>

lemma edge_returns:
  assumes "\<And>k c. answer_of e m k c = In_range \<Longrightarrow> uint c < 2000000" and "dir = 1 \<or> dir = - 1"
    and "0 \<le> h" "h < 1000000" and "0 \<le> off" "off < 2000000"
  shows "find_edge e m (word_of_int h) dir off pio \<noteq> None"
  using assms(5,6)
proof (induction "nat (3000000 - off)" arbitrary: off pio rule: less_induct)
  case less
  have o: "s32 (off + 10) = off + 10" using less.prems by (simp add: s32_id)
  let ?x = "h + dir * (off + 10)"
  have c: "(word_of_int h + word_of_int (dir * (off + 10)) :: u32) = word_of_int ?x" by simp
  show ?case
  proof (cases "answer_of e m (length (ot_sent pio)) (word_of_int ?x) = In_range")
    case True
    then have u: "uint (word_of_int ?x :: u32) < 2000000" by (rule assms(1))
    have "off + 10 < 2000000"
    proof (cases "0 \<le> ?x")
      case True
      then have "uint (word_of_int ?x :: u32) = ?x" 
        using less.prems assms(2,4) unfolding uint_word_of_int by (intro mod_pos_pos_trivial) auto
      then show ?thesis using u assms(2-4) True by auto
    next
      case False
      then have "(?x + 4294967296) mod 4294967296 = ?x + 4294967296" using less.prems assms(2-4) by (intro mod_pos_pos_trivial) auto
      then have "uint (word_of_int ?x :: u32) = ?x + 4294967296" by (simp only: uint_word_of_int mod_add_self2) simp
      then show ?thesis using u less.prems assms(2-4) by auto
    qed
    then have "find_edge e m (word_of_int h) dir (off + 10) (tried m (word_of_int ?x) pio) \<noteq> None"
      using less.prems by (intro less.hyps) auto
    then show ?thesis using True by (subst edge_step) (simp add: o c Let_def)
  next
    case False
    then show ?thesis by (subst edge_step) (simp add: o c Let_def)
  qed
qed

lemma search_range:
  assumes "0 < h" "h < 1000000" "0 \<le> s" "s \<le> 10000" and "find_search e m (search_st h s up) pio = Some (Some hz, pio')"
  shows "\<exists>h'. hz = word_of_int h' \<and> 0 < h' \<and> h' < 1000000"
  using assms
proof (induction "nat s * 2000000 + nat (if up then 1000000 - h else h)" arbitrary: h s up pio rule: less_induct)
  case less
  define r where "r = answer_of e m (length (ot_sent pio)) (word_of_int h)"
  obtain h' s' up' where n: "next_num r h s up = (h', s', up')" by (rule prod_cases3)
  show ?case
  proof (cases "r = In_range")
    case True
    then have "hz = word_of_int h" using less.prems(5) by (subst (asm) search_step) (simp add: search_st_def r_def Let_def)
    then show ?thesis using less.prems by blast
  next
    case False
    then have go: "s' \<noteq> 0 \<and> 0 < h' \<and> h' < 1000000"
      "find_search e m (search_st h' s' up') (tried m (word_of_int h) pio) = Some (Some hz, pio')"
      using less.prems(5) search_num [OF less.prems(1-4) r_def False n] by (auto split: if_splits)
    have s': "0 \<le> s'" "s' \<le> 10000" using n less.prems by (auto simp: next_num_def Let_def split: if_splits)
    have "nat s' * 2000000 + nat (if up' then 1000000 - h' else h') < nat s * 2000000 + nat (if up then 1000000 - h else h)"
      using n go less.prems by (auto simp: next_num_def Let_def split: if_splits) linarith+
    then show ?thesis using less.hyps [OF _ _ _ s' go(2)] go(1) by blast
  qed
qed

text \<open>
  C30.  The search for a device returns whatever the line answers, as long as no valid frame is heard
  with the receiver at 2 MHz or above: its loops cannot run for ever.
\<close>

lemma opentherm_find_returns:
  assumes "\<And>k c. answer_of e (manchester_encode (opentherm_frame_encode MSG_TYPE_READ_DATA 0 0) True) k c = In_range \<Longrightarrow> uint c < 2000000"
  shows "\<exists>r pio'. opentherm_dev_pio_find e pio = Some (r, pio')"
proof -
  let ?m = "manchester_encode (opentherm_frame_encode MSG_TYPE_READ_DATA 0 0) True"
  have st: "(1 :: u32, 10000, True) = search_st 1 10000 True" by (simp add: search_st_def)
  obtain o1 p1 where s: "find_search e ?m (1, 10000, True) pio = Some (o1, p1)"
    using search_ends [of 1 10000 e ?m True pio] unfolding st by auto
  show ?thesis
  proof (cases o1)
    case None
    then show ?thesis by (simp add: opentherm_dev_pio_find_def s Let_def)
  next
    case (Some hz)
    obtain h where h: "hz = word_of_int h" "0 < h" "h < 1000000"
      using search_range [of 1 10000 e ?m True pio hz p1] s Some unfolding st by auto
    have ends: "find_edge e ?m hz dir 0 p \<noteq> None" if "dir = 1 \<or> dir = - 1" for dir p
      using edge_returns [OF assms that] h by simp
    obtain mi p2 where mi: "find_edge e ?m hz (-1) 0 p1 = Some (mi, p2)" using ends [of "-1" p1] by auto
    obtain ma p3 where ma: "find_edge e ?m hz 1 0 p2 = Some (ma, p3)" using ends [of 1 p2] by auto
    show ?thesis
      unfolding opentherm_dev_pio_find_def Let_def s Some option.case prod.case mi ma by blast
  qed
qed

section \<open>A search\<close>

lemma demo_heard: "lo \<le> hi \<Longrightarrow> heard_in (demo_line lo hi f) m lo hi"
  by (auto simp: heard_in_def answer_of_def demo_line_def find_outcome_def END_BIT_def)

lemma opentherm_find_locks_witness:
  "\<exists>pio'. opentherm_dev_pio_find (demo_line 96501 96523 (opentherm_frame_encode 4 0 0)) demo_pio = Some (0, pio') \<and>
     ot_attached pio' \<and> 96501 \<le> rx_hz pio' \<and> rx_hz pio' \<le> 96523 \<and> rx_clk pio' = word_of_int (rx_hz pio')"
  by (rule opentherm_find_locks) (simp_all add: demo_heard)

lemma opentherm_find_returns_witness:
  "\<exists>r pio'. opentherm_dev_pio_find (demo_line 1500000 1600000 (opentherm_frame_encode 4 0 0)) demo_pio = Some (r, pio')"
  by (rule opentherm_find_returns)
    (auto simp: answer_of_def demo_line_def find_outcome_def END_BIT_def split: if_splits)

end
