(* ===== verification/OtData.thy ===== *)
theory OtData
  imports OtFind Float32
begin

text \<open>
  The OpenTherm device, \<open>opentherm_dev.c\<close>: the requests and their conversions, the table of
  commands, the readers of the data, the synchronisation of the parameters and the run loop,
  over the line of \<open>OtLine\<close>.
\<close>

section \<open>The bits of a float\<close>

text \<open>The 32 bits of a float.\<close>

definition f32_of_bits :: "u32 \<Rightarrow> f32" where
  "f32_of_bits w =
     (let neg = bit w 31; ex = uint (drop_bit 23 w AND 0xFF); m = uint (w AND 0x7FFFFF) in
      if ex = 255 then (if m \<noteq> 0 then NaN else if neg then NInf else PInf)
      else (let v = (if ex = 0 then of_int m * pow2 (-149) else of_int (m + 2 ^ 23) * pow2 (ex - 150))
            in Fin (if neg then - v else v)))"

definition bits_of_f32 :: "f32 \<Rightarrow> u32" where
  "bits_of_f32 x =
     (case x of NaN \<Rightarrow> 0x7FC00000 | PInf \<Rightarrow> 0x7F800000 | NInf \<Rightarrow> 0xFF800000
      | Fin v \<Rightarrow>
          if v = 0 then 0
          else
            (let e = f32_exp v; m = \<lfloor>\<bar>v\<bar> / pow2 e\<rfloor>;
                 low = (if m < 2 ^ 23 then word_of_int m
                        else push_bit 23 (word_of_int (e + 150)) OR word_of_int (m - 2 ^ 23))
             in if v < 0 then low OR 0x80000000 else low))"

section \<open>The union of a value\<close>

text \<open>\<open>ot_data_t\<close>: four bytes, read and written as one of its members.\<close>

type_synonym ot_data = u32

definition od_u16 :: "ot_data \<Rightarrow> u16" where "od_u16 d = ucast d"
definition od_i16 :: "ot_data \<Rightarrow> int" where "od_i16 d = sint (ucast d :: u16)"
definition od_f :: "ot_data \<Rightarrow> f32" where "od_f d = f32_of_bits d"
definition od_u8 :: "ot_data \<Rightarrow> nat \<Rightarrow> u8" where "od_u8 d i = ucast (drop_bit (8 * i) d)"
definition od_set_u16 :: "u16 \<Rightarrow> ot_data \<Rightarrow> ot_data" where "od_set_u16 v d = (d AND 0xFFFF0000) OR ucast v"
definition od_set_u8 :: "nat \<Rightarrow> u8 \<Rightarrow> ot_data \<Rightarrow> ot_data" where
  "od_set_u8 i v d = (d AND NOT (push_bit (8 * i) 0xFF)) OR push_bit (8 * i) (ucast v)"

section \<open>Requests\<close>

datatype opentherm_cmd_response =
  CMD_RESPONSE_OK | CMD_RESPONSE_L1_ERR | CMD_RESPONSE_WRONG_PARAM | CMD_RESPONSE_INVALID | CMD_RESPONSE_UNKNOWN

definition ot_response :: "u8 \<Rightarrow> u8 \<Rightarrow> opentherm_msg option \<Rightarrow> opentherm_cmd_response \<times> u16 option" where
  "ot_response ack i repl =
     (case repl of
        None \<Rightarrow> (CMD_RESPONSE_L1_ERR, None)
      | Some r \<Rightarrow>
          if msg_type r = ack \<and> msg_id r = i then (CMD_RESPONSE_OK, Some (msg_value r))
          else if msg_type r = MSG_TYPE_DATA_INVALID then (CMD_RESPONSE_INVALID, None)
          else if msg_type r = MSG_TYPE_UNKNOWN_DATA_ID then (CMD_RESPONSE_UNKNOWN, None)
          else (CMD_RESPONSE_WRONG_PARAM, None))"

definition opentherm_dev_read ::
  "ot_env \<Rightarrow> nat \<Rightarrow> u16 \<Rightarrow> opentherm_pio \<Rightarrow> (opentherm_cmd_response \<times> u16 option) \<times> opentherm_pio" where
  "opentherm_dev_read e cmd send pio =
     (let (repl, pio) = opentherm_dev_pio_exchange e \<lparr>msg_type = MSG_TYPE_READ_DATA, msg_id = of_nat cmd, msg_value = send\<rparr> pio
      in (ot_response MSG_TYPE_READ_ACK (of_nat cmd) repl, pio))"

definition opentherm_dev_write ::
  "ot_env \<Rightarrow> nat \<Rightarrow> u16 \<Rightarrow> opentherm_pio \<Rightarrow> (opentherm_cmd_response \<times> u16 option) \<times> opentherm_pio" where
  "opentherm_dev_write e cmd send pio =
     (let (repl, pio) = opentherm_dev_pio_exchange e \<lparr>msg_type = MSG_TYPE_WRITE_DATA, msg_id = of_nat cmd, msg_value = send\<rparr> pio
      in (ot_response MSG_TYPE_WRITE_ACK (of_nat cmd) repl, pio))"

definition dev_rw ::
  "ot_env \<Rightarrow> bool \<Rightarrow> nat \<Rightarrow> u16 \<Rightarrow> opentherm_pio \<Rightarrow> (opentherm_cmd_response \<times> u16 option) \<times> opentherm_pio" where
  "dev_rw e write cmd send pio = (if write then opentherm_dev_write e cmd send pio else opentherm_dev_read e cmd send pio)"

text \<open>
  The conversions of the five handlers: what is sent for the value \<open>out\<close> (None: NULL), and what
  the reply does to the value \<open>in\<close>.
\<close>

datatype ot_func = Cmd_uint16 | Cmd_int16 | Cmd_float | Cmd_int8arr | Cmd_uint8arr

definition ot_float_send :: "f32 \<Rightarrow> u16" where
  "ot_float_send f =
     (if f32_le (Fin 0) f then word_of_int (f32_int (f32_mul (Fin 256) f))
      else word_of_int (f32_int (f32_sub (Fin 65536) (f32_mul (Fin 256) f))))"

definition ot_send :: "ot_func \<Rightarrow> ot_data option \<Rightarrow> u16" where
  "ot_send func out =
     (case out of None \<Rightarrow> 0
      | Some d \<Rightarrow> if func = Cmd_float then ot_float_send (od_f d) else od_u16 d)"

definition ot_receive :: "ot_func \<Rightarrow> u16 \<Rightarrow> ot_data \<Rightarrow> ot_data" where
  "ot_receive func v d =
     (case func of
        Cmd_uint16 \<Rightarrow> od_set_u16 v d
      | Cmd_int16 \<Rightarrow> od_set_u16 ((v XOR 0x8000) - 0x8000) d
      | Cmd_float \<Rightarrow> bits_of_f32 (f32_div (Fin (of_int (sint ((v XOR 0x8000) - 0x8000)))) (Fin 256))
      | Cmd_int8arr \<Rightarrow> od_set_u8 1 ((ucast (drop_bit 8 v) XOR 0x80) - 0x80) (od_set_u8 0 ((ucast (v AND 0xFF) XOR 0x80) - 0x80) d)
      | Cmd_uint8arr \<Rightarrow> od_set_u8 1 (ucast (drop_bit 8 v)) (od_set_u8 0 (ucast (v AND 0xFF)) d))"

definition ot_cmd_func ::
  "ot_env \<Rightarrow> ot_func \<Rightarrow> bool \<Rightarrow> nat \<Rightarrow> ot_data option \<Rightarrow> ot_data option \<Rightarrow> opentherm_pio
   \<Rightarrow> opentherm_cmd_response \<times> ot_data option \<times> opentherm_pio" where
  "ot_cmd_func e func write cmd out inn pio =
     (let ((ret, v), pio) = dev_rw e write cmd (ot_send func out) pio
      in (ret, if ret = CMD_RESPONSE_OK then map_option (ot_receive func (the v)) inn else inn, pio))"

section \<open>The table of commands\<close>

datatype val_limits = Data_none | Data_i32 int int | Data_u32 int int | Data_float f32 f32

definition ot_cmd_data_validate :: "val_limits \<Rightarrow> ot_data option \<Rightarrow> int" where
  "ot_cmd_data_validate limits val =
     (case val of None \<Rightarrow> -1
      | Some d \<Rightarrow>
          (case limits of
             Data_i32 mi ma \<Rightarrow> if mi \<le> od_i16 d \<and> od_i16 d \<le> ma then 0 else -1
           | Data_u32 mi ma \<Rightarrow> if mi \<le> uint (od_u16 d) \<and> uint (od_u16 d) \<le> ma then 0 else -1
           | Data_float mi ma \<Rightarrow> if f32_le mi (od_f d) \<and> f32_le (od_f d) ma then 0 else -1
           | Data_none \<Rightarrow> 0))"

record ot_command =
  can_read :: bool
  can_write :: bool
  oc_supported :: int
  oc_limits :: val_limits
  oc_func :: "ot_func option"

definition CMD_SUPPORTED_RETRIES :: int where "CMD_SUPPORTED_RETRIES = 10"
definition DATA_ID_CMD_MAX :: nat where "DATA_ID_CMD_MAX = 128"

definition DATA_ID_STATUS :: nat where "DATA_ID_STATUS = 0"
definition DATA_ID_TSET :: nat where "DATA_ID_TSET = 1"
definition DATA_ID_SECONDARY_CONFIG :: nat where "DATA_ID_SECONDARY_CONFIG = 3"
definition DATA_ID_ASF_FAULT :: nat where "DATA_ID_ASF_FAULT = 5"
definition DATA_ID_REL_MOD_LEVEL :: nat where "DATA_ID_REL_MOD_LEVEL = 17"
definition DATA_ID_CH_PRESSURE :: nat where "DATA_ID_CH_PRESSURE = 18"
definition DATA_ID_DHW_FLOW_RATE :: nat where "DATA_ID_DHW_FLOW_RATE = 19"
definition DATA_ID_TBOILER :: nat where "DATA_ID_TBOILER = 25"
definition DATA_ID_TDHW :: nat where "DATA_ID_TDHW = 26"
definition DATA_ID_TRET :: nat where "DATA_ID_TRET = 28"
definition DATA_ID_TEXHAUST :: nat where "DATA_ID_TEXHAUST = 33"
definition DATA_ID_FLAME_CURRENT :: nat where "DATA_ID_FLAME_CURRENT = 36"
definition DATA_ID_TDHWSET_BOUNDS :: nat where "DATA_ID_TDHWSET_BOUNDS = 48"
definition DATA_ID_MAXTSET_BOUNDS :: nat where "DATA_ID_MAXTSET_BOUNDS = 49"
definition DATA_ID_TDHWSET :: nat where "DATA_ID_TDHWSET = 56"
definition DATA_ID_MAXTSET :: nat where "DATA_ID_MAXTSET = 57"
definition DATA_ID_UNSUCCESSFUL_BURNER_STARTS :: nat where "DATA_ID_UNSUCCESSFUL_BURNER_STARTS = 113"
definition DATA_ID_FLAME_SIGNAL_LOW_COUNT :: nat where "DATA_ID_FLAME_SIGNAL_LOW_COUNT = 114"
definition DATA_ID_OEM_DIAGNOSTIC_CODE :: nat where "DATA_ID_OEM_DIAGNOSTIC_CODE = 115"
definition DATA_ID_BURNER_STARTS :: nat where "DATA_ID_BURNER_STARTS = 116"
definition DATA_ID_CH_PUMP_STARTS :: nat where "DATA_ID_CH_PUMP_STARTS = 117"
definition DATA_ID_DHW_PUMP_STARTS :: nat where "DATA_ID_DHW_PUMP_STARTS = 118"
definition DATA_ID_DHW_BURNER_STARTS :: nat where "DATA_ID_DHW_BURNER_STARTS = 119"
definition DATA_ID_BURNER_OPERATION_HOURS :: nat where "DATA_ID_BURNER_OPERATION_HOURS = 120"
definition DATA_ID_CH_PUMP_OPERATION_HOURS :: nat where "DATA_ID_CH_PUMP_OPERATION_HOURS = 121"
definition DATA_ID_DHW_PUMP_OPERATION_HOURS :: nat where "DATA_ID_DHW_PUMP_OPERATION_HOURS = 122"
definition DATA_ID_DHW_BURNER_OPERATION_HOURS :: nat where "DATA_ID_DHW_BURNER_OPERATION_HOURS = 123"
definition DATA_ID_OPENTHERM_VERSION_SECONDARY :: nat where "DATA_ID_OPENTHERM_VERSION_SECONDARY = 125"
definition DATA_ID_SECONDARY_VERSION :: nat where "DATA_ID_SECONDARY_VERSION = 127"

definition zero_command :: ot_command where
  "zero_command = \<lparr>can_read = False, can_write = False, oc_supported = 0, oc_limits = Data_none, oc_func = None\<rparr>"

text \<open>The rows of \<open>commands_init\<close>: number, read, write, handler, limits.\<close>

definition ot_rows :: "(nat \<times> bool \<times> bool \<times> ot_func \<times> val_limits) list" where
  "ot_rows =
     (let fl = (\<lambda>a b. Data_float (Fin a) (Fin b)) in
     [(0, True, False, Cmd_uint8arr, Data_none), (1, False, True, Cmd_float, Data_none),
      (2, False, True, Cmd_uint8arr, Data_none), (3, True, False, Cmd_uint8arr, Data_none),
      (4, False, True, Cmd_uint8arr, Data_none), (5, True, False, Cmd_uint8arr, Data_none),
      (6, True, False, Cmd_uint8arr, Data_none), (7, False, True, Cmd_float, Data_none),
      (8, False, True, Cmd_float, Data_none), (9, True, False, Cmd_float, fl 0 30),
      (10, True, False, Cmd_uint8arr, Data_none), (11, True, True, Cmd_uint8arr, Data_none),
      (12, True, False, Cmd_uint8arr, Data_none), (13, True, False, Cmd_uint8arr, Data_none),
      (14, False, True, Cmd_float, Data_none), (15, True, False, Cmd_uint8arr, Data_none),
      (16, False, True, Cmd_float, Data_none), (17, True, False, Cmd_float, fl 0 100),
      (18, True, False, Cmd_float, fl 0 5), (19, True, False, Cmd_float, fl 0 16),
      (20, True, True, Cmd_uint16, Data_none), (21, True, True, Cmd_uint8arr, Data_none),
      (22, True, True, Cmd_uint16, Data_u32 0 65535), (23, False, True, Cmd_float, Data_none),
      (24, False, True, Cmd_float, Data_none), (25, True, False, Cmd_float, Data_none),
      (26, True, False, Cmd_float, Data_none), (27, True, False, Cmd_float, Data_none),
      (28, True, False, Cmd_float, fl (-40) 127), (29, True, False, Cmd_float, fl (-40) 127),
      (30, True, False, Cmd_int16, Data_i32 (-40) 250), (31, True, False, Cmd_float, fl (-40) 127),
      (32, True, False, Cmd_float, fl (-40) 127), (33, True, False, Cmd_int16, Data_i32 (-40) 500),
      (35, True, False, Cmd_uint16, Data_none), (36, True, False, Cmd_float, Data_none),
      (48, True, False, Cmd_int8arr, Data_none), (49, True, False, Cmd_int8arr, Data_none),
      (50, True, False, Cmd_int8arr, Data_none), (56, True, True, Cmd_float, fl 0 127),
      (57, True, True, Cmd_float, fl 0 127), (58, True, True, Cmd_float, Data_none),
      (93, True, False, Cmd_uint8arr, Data_none), (94, True, False, Cmd_uint8arr, Data_none),
      (95, True, False, Cmd_uint8arr, Data_none), (100, True, False, Cmd_uint16, Data_none),
      (113, True, True, Cmd_uint16, Data_none), (114, True, True, Cmd_uint16, Data_none),
      (115, True, False, Cmd_uint16, Data_none), (116, True, True, Cmd_uint16, Data_u32 0 65535),
      (117, True, True, Cmd_uint16, Data_u32 0 65535), (118, True, True, Cmd_uint16, Data_u32 0 65535),
      (119, True, True, Cmd_uint16, Data_u32 0 65535), (120, True, True, Cmd_uint16, Data_u32 0 65535),
      (121, True, True, Cmd_uint16, Data_u32 0 65535), (122, True, True, Cmd_uint16, Data_u32 0 65535),
      (123, True, True, Cmd_uint16, Data_u32 0 65535), (124, False, True, Cmd_float, Data_none),
      (125, True, False, Cmd_float, Data_none), (126, False, True, Cmd_uint8arr, Data_none),
      (127, True, False, Cmd_uint8arr, Data_none)])"

definition commands_init :: "ot_command list \<Rightarrow> ot_command list" where
  "commands_init cmds =
     fold (\<lambda>(i, rd, wr, fn, lim) cs. cs[i := \<lparr>can_read = rd, can_write = wr, oc_supported = CMD_SUPPORTED_RETRIES,
        oc_limits = lim, oc_func = Some fn\<rparr>]) ot_rows cmds"

text \<open>
  \<open>ot_cmd_read\<close> and \<open>ot_cmd_write\<close> over the table, the line and the value for the reply: the
  return value and what they leave.
\<close>

type_synonym ot_dev = "ot_command list \<times> opentherm_pio"

definition ot_supported_dec :: "opentherm_cmd_response \<Rightarrow> nat \<Rightarrow> ot_command list \<Rightarrow> ot_command list" where
  "ot_supported_dec ret i cs =
     (if ret = CMD_RESPONSE_UNKNOWN then cs[i := (cs ! i)\<lparr>oc_supported := oc_supported (cs ! i) - 1\<rparr>] else cs)"

definition ot_cmd_read ::
  "ot_env \<Rightarrow> nat \<Rightarrow> ot_data option \<Rightarrow> ot_data option \<Rightarrow> ot_dev \<Rightarrow> int \<times> ot_data option \<times> ot_dev" where
  "ot_cmd_read e i out inn dev =
     (let (cs, pio) = dev in
      if i \<ge> DATA_ID_CMD_MAX then (-1, inn, dev)
      else if \<not> can_read (cs ! i) then (-1, inn, dev)
      else if oc_supported (cs ! i) = 0 then (-1, inn, dev)
      else
        (let (ret, inn, pio) = ot_cmd_func e (the (oc_func (cs ! i))) False i out inn pio;
             cs = ot_supported_dec ret i cs;
             ret = (if ret = CMD_RESPONSE_OK \<and> ot_cmd_data_validate (oc_limits (cs ! i)) inn \<noteq> 0 then CMD_RESPONSE_WRONG_PARAM else ret)
         in (if ret = CMD_RESPONSE_OK then 0 else -1, inn, cs, pio)))"

definition ot_cmd_write ::
  "ot_env \<Rightarrow> nat \<Rightarrow> ot_data option \<Rightarrow> ot_data option \<Rightarrow> ot_dev \<Rightarrow> int \<times> ot_data option \<times> ot_dev" where
  "ot_cmd_write e i out inn dev =
     (let (cs, pio) = dev in
      if i \<ge> DATA_ID_CMD_MAX then (-1, inn, dev)
      else if \<not> can_write (cs ! i) then (-1, inn, dev)
      else if oc_supported (cs ! i) = 0 then (-1, inn, dev)
      else
        (let (ret, inn, pio) = ot_cmd_func e (the (oc_func (cs ! i))) True i out inn pio
         in (if ret = CMD_RESPONSE_OK then 0 else -1, inn, ot_supported_dec ret i cs, pio)))"

end
