(* ===== verification/OtDev.thy ===== *)
theory OtDev
  imports OtData
begin

text \<open>
  The data of the OpenTherm device and its run loop, \<open>opentherm_dev.c\<close>: status, sensors, errors,
  statistics, configuration, the parameters that are kept in step with the device and the gas
  consumption.
\<close>

section \<open>Data\<close>

record ot_params =
  ch_temperature_setpoint :: f32
  dhw_temperature_setpoint :: f32
  ch_max :: f32
  dhw_max :: f32

text \<open>Flags of one bit are booleans.\<close>

record ot_static_data =
  os_force :: bool
  dev_id :: u8
  ot_ver :: u16
  dev_type :: u8
  dev_ver :: u8
  dwh_present :: bool
  control_type :: bool
  cool_present :: bool
  dhw_config :: bool
  pump_control :: bool
  ch2_present :: bool

record ot_config_data =
  oc_force :: bool
  ch_max_cfg :: u8
  ch_min_cfg :: u8
  dhw_max_cfg :: u8
  dhw_min_cfg :: u8
  ch_rangemin :: f32
  ch_rangemax :: f32
  dhw_rangemin :: f32
  dhw_rangemax :: f32

record ot_measure_data =
  om_force :: bool
  flow_temperature :: f32
  return_temperature :: f32
  flame_current :: f32
  dhw_temperature :: f32
  modulation_level :: f32
  ch_pressure :: f32
  dhw_flow_rate :: f32
  exhaust_temperature :: int
  mod_level_time :: u64
  gas_flow :: f32
  mod_level_count :: int
  mod_level_mean :: f32

record ot_status_data =
  st_force :: bool
  ch_enabled :: bool
  dhw_enabled :: bool
  cooling_enabled :: bool
  otc_active :: bool
  ch2_enabled :: bool
  ch_active :: bool
  dhw_active :: bool
  flame_active :: bool
  cooling_active :: bool
  ch2_active :: bool

record ot_errors_data =
  oe_force :: bool
  fault_svc_needed :: bool
  fault_low_water_pressure :: bool
  fault_flame :: bool
  fault_low_air_pressure :: bool
  fault_high_water_temperature :: bool
  diagnostic_event :: bool
  fault_active :: bool
  fault_code :: u8
  fault_burner_starts :: u16
  fault_flame_low :: u16
  fault_oem_code :: u16

record ot_stats_data =
  sa_force :: bool
  stat_reset_time :: u64
  stat_burner_starts :: u16
  stat_ch_pump_starts :: u16
  stat_dhw_pump_starts :: u16
  stat_dhw_burn_burner_starts :: u16
  stat_burner_hours :: u16
  stat_ch_pump_hours :: u16
  stat_dhw_pump_hours :: u16
  stat_dhw_burn_hours :: u16

text \<open>
  The data of the module with what the code keeps beside it: the times of the device, the table,
  the line and the three static variables (\<open>qp\<close>, \<open>find_attempts\<close>, \<open>cmd_static\<close>).
\<close>

record opentherm =
  ot_data :: ot_measure_data
  ot_errors :: ot_errors_data
  ot_dev_config :: ot_config_data
  ot_dev_static :: ot_static_data
  ot_status :: ot_status_data
  ot_stats :: ot_stats_data
  qmin :: f32
  qmax :: f32
  gas_reset :: u64
  gas_total :: f32
  gas_send :: bool
  param_desired :: ot_params
  param_actual :: ot_params
  ot_last_send :: u64
  last_dev_lookup :: u64
  last_err_read :: u64
  last_stat_read :: u64
  last_cfg_read :: u64
  ot_dev :: ot_dev
  ot_qp :: f32
  find_attempts :: int
  cmd_static :: bool

definition ot_pio :: "opentherm \<Rightarrow> opentherm_pio" where "ot_pio ctx = snd (ot_dev ctx)"
definition ot_time :: "ot_env \<Rightarrow> nat \<Rightarrow> opentherm \<Rightarrow> u64" where "ot_time e i ctx = ot_now e i (ot_pio ctx)"

definition read_id :: "ot_env \<Rightarrow> nat \<Rightarrow> ot_data option \<Rightarrow> ot_data \<times> opentherm \<Rightarrow> int \<times> ot_data \<times> opentherm" where
  "read_id e i out st =
     (let (repl, ctx) = st; (ret, inn, dev) = ot_cmd_read e i out (Some repl) (ot_dev ctx)
      in (ret, the inn, ctx\<lparr>ot_dev := dev\<rparr>))"

text \<open>The shape \<open>if (!ot_cmd_read(..., &repl)) f\<close>.\<close>

definition on_read :: "ot_env \<Rightarrow> nat \<Rightarrow> (ot_data \<Rightarrow> opentherm \<Rightarrow> opentherm) \<Rightarrow> ot_data \<times> opentherm \<Rightarrow> ot_data \<times> opentherm" where
  "on_read e i f st =
     (let (ret, repl, ctx) = read_id e i None st in (repl, if ret = 0 then f repl ctx else ctx))"

text \<open>The macros \<open>DATA_READ\<close> and its siblings: a change sets the mark of the group.\<close>

definition rd_set ::
  "('v \<Rightarrow> 'v \<Rightarrow> bool) \<Rightarrow> ('r \<Rightarrow> 'v) \<Rightarrow> (('v \<Rightarrow> 'v) \<Rightarrow> 'r \<Rightarrow> 'r) \<Rightarrow> ((bool \<Rightarrow> bool) \<Rightarrow> 'r \<Rightarrow> 'r) \<Rightarrow> 'v \<Rightarrow> 'r \<Rightarrow> 'r" where
  "rd_set ne get upd frc v r = (if ne (get r) v then upd (\<lambda>_. v) (frc (\<lambda>_. True) r) else r)"

definition DATA_READ :: "(ot_measure_data \<Rightarrow> f32) \<Rightarrow> ((f32 \<Rightarrow> f32) \<Rightarrow> ot_measure_data \<Rightarrow> ot_measure_data) \<Rightarrow> f32 \<Rightarrow> opentherm \<Rightarrow> opentherm" where
  "DATA_READ get upd v = ot_data_update (rd_set f32_ne get upd om_force_update v)"

definition ERRORS_READ :: "(ot_errors_data \<Rightarrow> 'v) \<Rightarrow> (('v \<Rightarrow> 'v) \<Rightarrow> ot_errors_data \<Rightarrow> ot_errors_data) \<Rightarrow> 'v \<Rightarrow> opentherm \<Rightarrow> opentherm" where
  "ERRORS_READ get upd v = ot_errors_update (rd_set (\<noteq>) get upd oe_force_update v)"

definition STATUS_READ :: "(ot_status_data \<Rightarrow> bool) \<Rightarrow> ((bool \<Rightarrow> bool) \<Rightarrow> ot_status_data \<Rightarrow> ot_status_data) \<Rightarrow> bool \<Rightarrow> opentherm \<Rightarrow> opentherm" where
  "STATUS_READ get upd v = ot_status_update (rd_set (\<noteq>) get upd st_force_update v)"

definition CFG_READ :: "(ot_config_data \<Rightarrow> u8) \<Rightarrow> ((u8 \<Rightarrow> u8) \<Rightarrow> ot_config_data \<Rightarrow> ot_config_data) \<Rightarrow> u8 \<Rightarrow> opentherm \<Rightarrow> opentherm" where
  "CFG_READ get upd v = ot_dev_config_update (rd_set (\<noteq>) get upd oc_force_update v)"

definition STATIC_READ :: "(ot_static_data \<Rightarrow> 'v) \<Rightarrow> (('v \<Rightarrow> 'v) \<Rightarrow> ot_static_data \<Rightarrow> ot_static_data) \<Rightarrow> 'v \<Rightarrow> opentherm \<Rightarrow> opentherm" where
  "STATIC_READ get upd v = ot_dev_static_update (rd_set (\<noteq>) get upd os_force_update v)"

definition STATISTIC_READ :: "(ot_stats_data \<Rightarrow> u16) \<Rightarrow> ((u16 \<Rightarrow> u16) \<Rightarrow> ot_stats_data \<Rightarrow> ot_stats_data) \<Rightarrow> u16 \<Rightarrow> opentherm \<Rightarrow> opentherm" where
  "STATISTIC_READ get upd v = ot_stats_update (rd_set (\<noteq>) get upd sa_force_update v)"

section \<open>Sensors\<close>

definition MODULATION_MEASURE_MSEC :: u64 where "MODULATION_MEASURE_MSEC = 1000"
definition GAS_TOTAL_RESET_MSEC :: u64 where "GAS_TOTAL_RESET_MSEC = 300000"
definition FLAME_MIN_UA :: f32 where "FLAME_MIN_UA = Fin 10"

definition opentherm_gas_calc :: "ot_env \<Rightarrow> opentherm \<Rightarrow> opentherm" where
  "opentherm_gas_calc e ctx =
     (let now = ot_time e 2 ctx;
          ctx = (if ot_qp ctx = Fin 0 then ctx\<lparr>ot_qp := f32_div (f32_sub (qmax ctx) (qmin ctx)) (Fin 100)\<rparr> else ctx);
          d = ot_data ctx;
          d = d\<lparr>mod_level_mean := f32_add (mod_level_mean d) (modulation_level d), mod_level_count := s32 (mod_level_count d + 1)\<rparr>;
          ctx = ctx\<lparr>ot_data := d\<rparr>;
          ctx =
            (if now - mod_level_time d \<ge> MODULATION_MEASURE_MSEC then
               (let duration_sec = f32_of_int (uint ((now - mod_level_time d) div 1000));
                    ctx =
                      (if f32_le FLAME_MIN_UA (flame_current d) then
                         (let mean = f32_div (mod_level_mean d) (f32_of_int (mod_level_count d));
                              flow = f32_add (qmin ctx) (f32_mul (ot_qp ctx) mean)
                          in ctx\<lparr>ot_data := d\<lparr>gas_flow := flow\<rparr>, gas_total := f32_add (gas_total ctx) (f32_mul flow duration_sec)\<rparr>)
                       else ctx\<lparr>ot_data := d\<lparr>gas_flow := Fin 0\<rparr>\<rparr>)
                in ctx\<lparr>ot_data := (ot_data ctx)\<lparr>mod_level_count := 0, mod_level_mean := Fin 0, mod_level_time := now\<rparr>\<rparr>)
             else ctx)
      in if now - gas_reset ctx \<ge> GAS_TOTAL_RESET_MSEC \<and> f32_lt (Fin 0) (gas_total ctx)
         then ctx\<lparr>gas_send := True, ot_data := (ot_data ctx)\<lparr>om_force := True\<rparr>\<rparr> else ctx)"

definition mod_level_read :: "ot_env \<Rightarrow> bool \<Rightarrow> ot_data \<Rightarrow> opentherm \<Rightarrow> opentherm" where
  "mod_level_read e flame repl ctx =
     (let ctx = DATA_READ modulation_level modulation_level_update (od_f repl) ctx;
          ctx = (if f32_lt (modulation_level (ot_data ctx)) (Fin 0)
                 then ctx\<lparr>ot_data := (ot_data ctx)\<lparr>modulation_level := Fin 0\<rparr>\<rparr> else ctx)
      in if flame \<and> f32_lt (Fin 0) (qmin ctx) \<and> f32_lt (Fin 0) (qmax ctx) then opentherm_gas_calc e ctx else ctx)"

text \<open>The member read is the float, though the reply of this command is an integer.\<close>

definition exhaust_read :: "ot_data \<Rightarrow> opentherm \<Rightarrow> opentherm" where
  "exhaust_read repl = ot_data_update (\<lambda>d.
     if f32_ne (f32_of_int (exhaust_temperature d)) (od_f repl)
     then d\<lparr>om_force := True, exhaust_temperature := sint (word_of_int (f32_int (od_f repl)) :: u16)\<rparr> else d)"

definition opentherm_read_data :: "ot_env \<Rightarrow> opentherm \<Rightarrow> opentherm" where
  "opentherm_read_data e ctx =
     (let (ret, repl, ctx) = read_id e DATA_ID_FLAME_CURRENT None (0, ctx);
          ctx = (if ret = 0 then DATA_READ flame_current flame_current_update (od_f repl) ctx else ctx);
          st = on_read e DATA_ID_REL_MOD_LEVEL (mod_level_read e (ret = 0)) (repl, ctx);
          st = on_read e DATA_ID_CH_PRESSURE (\<lambda>r. DATA_READ ch_pressure ch_pressure_update (od_f r)) st;
          st = on_read e DATA_ID_DHW_FLOW_RATE (\<lambda>r. DATA_READ dhw_flow_rate dhw_flow_rate_update (od_f r)) st;
          st = on_read e DATA_ID_TBOILER (\<lambda>r. DATA_READ flow_temperature flow_temperature_update (od_f r)) st;
          st = on_read e DATA_ID_TDHW (\<lambda>r. DATA_READ dhw_temperature dhw_temperature_update (od_f r)) st;
          st = on_read e DATA_ID_TRET (\<lambda>r. DATA_READ return_temperature return_temperature_update (od_f r)) st
      in snd (on_read e DATA_ID_TEXHAUST exhaust_read st))"

section \<open>Parameters\<close>

text \<open>\<open>get\<close> and \<open>upd\<close> are the parameter in both sets.\<close>

definition opentherm_sync_param_f ::
  "ot_env \<Rightarrow> nat \<Rightarrow> (ot_params \<Rightarrow> f32) \<Rightarrow> ((f32 \<Rightarrow> f32) \<Rightarrow> ot_params \<Rightarrow> ot_params) \<Rightarrow> opentherm \<Rightarrow> int \<times> opentherm" where
  "opentherm_sync_param_f e cmd get upd ctx =
     (if f32_ne (get (param_desired ctx)) (get (param_actual ctx)) then
        (let (ret, repl, dev) = ot_cmd_write e cmd (Some (bits_of_f32 (get (param_desired ctx)))) (Some 0) (ot_dev ctx);
             ctx = ctx\<lparr>ot_dev := dev\<rparr>
         in (ret, if ret = 0 then ctx\<lparr>param_actual := upd (\<lambda>_. od_f (the repl)) (param_actual ctx)\<rparr> else ctx))
      else (0, ctx))"

definition opentherm_sync_params :: "ot_env \<Rightarrow> opentherm \<Rightarrow> opentherm" where
  "opentherm_sync_params e ctx =
     (let ctx = snd (opentherm_sync_param_f e DATA_ID_MAXTSET ch_max ch_max_update ctx);
          ctx = snd (opentherm_sync_param_f e DATA_ID_TDHWSET dhw_temperature_setpoint dhw_temperature_setpoint_update ctx)
      in snd (opentherm_sync_param_f e DATA_ID_TSET ch_temperature_setpoint ch_temperature_setpoint_update ctx))"

section \<open>Errors and status\<close>

definition asf_read :: "ot_data \<Rightarrow> opentherm \<Rightarrow> opentherm" where
  "asf_read r ctx =
     (let f = (\<lambda>m. od_u8 r 1 AND m \<noteq> 0);
          ctx = ERRORS_READ fault_code fault_code_update (od_u8 r 0) ctx;
          ctx = ERRORS_READ fault_svc_needed fault_svc_needed_update (f 0x01) ctx;
          ctx = ERRORS_READ fault_low_water_pressure fault_low_water_pressure_update (f 0x04) ctx;
          ctx = ERRORS_READ fault_flame fault_flame_update (f 0x08) ctx;
          ctx = ERRORS_READ fault_low_air_pressure fault_low_air_pressure_update (f 0x10) ctx
      in ERRORS_READ fault_high_water_temperature fault_high_water_temperature_update (f 0x20) ctx)"

definition opentherm_read_errors :: "ot_env \<Rightarrow> opentherm \<Rightarrow> opentherm" where
  "opentherm_read_errors e ctx =
     (let st = on_read e DATA_ID_ASF_FAULT asf_read (0, ctx);
          st = on_read e DATA_ID_UNSUCCESSFUL_BURNER_STARTS (\<lambda>r. ERRORS_READ fault_burner_starts fault_burner_starts_update (od_u16 r)) st;
          st = on_read e DATA_ID_FLAME_SIGNAL_LOW_COUNT (\<lambda>r. ERRORS_READ fault_flame_low fault_flame_low_update (od_u16 r)) st
      in snd (on_read e DATA_ID_OEM_DIAGNOSTIC_CODE (\<lambda>r. ERRORS_READ fault_oem_code fault_oem_code_update (od_u16 r)) st))"

definition status_request :: "ot_status_data \<Rightarrow> ot_data" where
  "status_request s =
     od_set_u8 1 ((if ch_enabled s then 0x01 else 0) OR (if dhw_enabled s then 0x02 else 0) OR
       (if cooling_enabled s then 0x04 else 0) OR (if otc_active s then 0x08 else 0) OR (if ch2_enabled s then 0x10 else 0)) 0"

definition opentherm_exchange_status :: "ot_env \<Rightarrow> opentherm \<Rightarrow> int \<times> opentherm" where
  "opentherm_exchange_status e ctx =
     (let (ret, r, ctx) = read_id e DATA_ID_STATUS (Some (status_request (ot_status ctx))) (0, ctx);
          f = (\<lambda>m. od_u8 r 0 AND m \<noteq> 0)
      in if ret \<noteq> 0 then (ret, ctx)
         else
           (let ctx = ERRORS_READ fault_active fault_active_update (f 0x01) ctx;
                ctx = STATUS_READ ch_active ch_active_update (f 0x02) ctx;
                ctx = STATUS_READ dhw_active dhw_active_update (f 0x04) ctx;
                ctx = STATUS_READ flame_active flame_active_update (f 0x08) ctx;
                ctx = STATUS_READ cooling_active cooling_active_update (f 0x10) ctx;
                ctx = STATUS_READ ch2_active ch2_active_update (f 0x20) ctx
            in (ret, ERRORS_READ diagnostic_event diagnostic_event_update (f 0x40) ctx)))"

section \<open>Configuration, static data, statistics\<close>

definition ch_bounds_read :: "ot_data \<Rightarrow> opentherm \<Rightarrow> opentherm" where
  "ch_bounds_read r ctx =
     (let ctx = CFG_READ ch_max_cfg ch_max_cfg_update (od_u8 r 1) ctx;
          ctx = CFG_READ ch_min_cfg ch_min_cfg_update (od_u8 r 0) ctx;
          c = ot_dev_config ctx; ma = Fin (of_int (uint (ch_max_cfg c)));
          ctx = (if ch_max_cfg c \<noteq> 0
                 then ctx\<lparr>param_desired := (param_desired ctx)\<lparr>ch_max := ma\<rparr>, ot_dev_config := c\<lparr>ch_rangemax := ma\<rparr>\<rparr> else ctx)
      in if ch_min_cfg c > 0
         then ctx\<lparr>ot_dev_config := (ot_dev_config ctx)\<lparr>ch_rangemin := Fin (of_int (uint (ch_min_cfg c)))\<rparr>\<rparr> else ctx)"

definition dhw_bounds_read :: "ot_data \<Rightarrow> opentherm \<Rightarrow> opentherm" where
  "dhw_bounds_read r ctx =
     (let ctx = CFG_READ dhw_max_cfg dhw_max_cfg_update (od_u8 r 1) ctx;
          ctx = CFG_READ dhw_min_cfg dhw_min_cfg_update (od_u8 r 0) ctx;
          c = ot_dev_config ctx; ma = Fin (of_int (uint (dhw_max_cfg c)));
          ctx = (if dhw_max_cfg c \<noteq> 0
                 then ctx\<lparr>param_desired := (param_desired ctx)\<lparr>dhw_max := ma\<rparr>, ot_dev_config := c\<lparr>dhw_rangemax := ma\<rparr>\<rparr> else ctx)
      in if dhw_min_cfg c > 0
         then ctx\<lparr>ot_dev_config := (ot_dev_config ctx)\<lparr>dhw_rangemin := Fin (of_int (uint (dhw_min_cfg c)))\<rparr>\<rparr> else ctx)"

definition maxtset_read :: "ot_data \<Rightarrow> opentherm \<Rightarrow> opentherm" where
  "maxtset_read r ctx =
     (if f32_ne (ch_max (param_actual ctx)) (od_f r)
      then ctx\<lparr>ot_dev_config := (ot_dev_config ctx)\<lparr>oc_force := True\<rparr>, param_actual := (param_actual ctx)\<lparr>ch_max := od_f r\<rparr>\<rparr> else ctx)"

definition opentherm_read_cfg_data :: "ot_env \<Rightarrow> opentherm \<Rightarrow> opentherm" where
  "opentherm_read_cfg_data e ctx =
     snd (on_read e DATA_ID_MAXTSET maxtset_read
       (on_read e DATA_ID_TDHWSET_BOUNDS dhw_bounds_read (on_read e DATA_ID_MAXTSET_BOUNDS ch_bounds_read (0, ctx))))"

definition secondary_config_read :: "ot_data \<Rightarrow> opentherm \<Rightarrow> opentherm" where
  "secondary_config_read r ctx =
     (let f = (\<lambda>m. od_u8 r 1 AND m \<noteq> 0);
          ctx = STATIC_READ dwh_present dwh_present_update (f 0x01) ctx;
          ctx = STATIC_READ control_type control_type_update (f 0x02) ctx;
          ctx = STATIC_READ cool_present cool_present_update (f 0x04) ctx;
          ctx = STATIC_READ dhw_config dhw_config_update (f 0x08) ctx;
          ctx = STATIC_READ pump_control pump_control_update (f 0x10) ctx;
          ctx = STATIC_READ ch2_present ch2_present_update (f 0x20) ctx
      in STATIC_READ dev_id dev_id_update (od_u8 r 0) ctx)"

text \<open>The version is compared as an integer with its 16 bits.\<close>

definition ot_ver_read :: "ot_data \<Rightarrow> opentherm \<Rightarrow> opentherm" where
  "ot_ver_read r = ot_dev_static_update (\<lambda>s.
     (let v = f32_int (f32_mul (Fin 100) (od_f r)) in
      if uint (ot_ver s) \<noteq> v then s\<lparr>os_force := True, ot_ver := word_of_int v\<rparr> else s))"

definition opentherm_read_static_data :: "ot_env \<Rightarrow> opentherm \<Rightarrow> bool \<times> opentherm" where
  "opentherm_read_static_data e ctx =
     (let st = on_read e DATA_ID_SECONDARY_CONFIG secondary_config_read (0, ctx);
          st = on_read e DATA_ID_SECONDARY_VERSION (\<lambda>r ctx. STATIC_READ dev_ver dev_ver_update (od_u8 r 0)
                 (STATIC_READ dev_type dev_type_update (od_u8 r 1) ctx)) st
      in (True, snd (on_read e DATA_ID_OPENTHERM_VERSION_SECONDARY ot_ver_read st)))"

definition ot_write_zero :: "ot_env \<Rightarrow> nat \<Rightarrow> opentherm \<Rightarrow> opentherm" where
  "ot_write_zero e i ctx = (let (_, _, dev) = ot_cmd_write e i (Some 0) None (ot_dev ctx) in ctx\<lparr>ot_dev := dev\<rparr>)"

definition opentherm_reset_statistics :: "ot_env \<Rightarrow> opentherm \<Rightarrow> opentherm" where
  "opentherm_reset_statistics e ctx =
     (let ctx = fold (ot_write_zero e)
            [DATA_ID_UNSUCCESSFUL_BURNER_STARTS, DATA_ID_FLAME_SIGNAL_LOW_COUNT, DATA_ID_BURNER_STARTS, DATA_ID_CH_PUMP_STARTS,
             DATA_ID_DHW_PUMP_STARTS, DATA_ID_DHW_BURNER_STARTS, DATA_ID_BURNER_OPERATION_HOURS, DATA_ID_CH_PUMP_OPERATION_HOURS,
             DATA_ID_DHW_PUMP_OPERATION_HOURS, DATA_ID_DHW_BURNER_OPERATION_HOURS] ctx
      in ctx\<lparr>ot_stats := (ot_stats ctx)\<lparr>stat_reset_time := ot_time e 3 ctx, sa_force := True\<rparr>\<rparr>)"

definition opentherm_read_statistics :: "ot_env \<Rightarrow> opentherm \<Rightarrow> opentherm" where
  "opentherm_read_statistics e ctx =
     (let st = on_read e DATA_ID_BURNER_STARTS (\<lambda>r. STATISTIC_READ stat_burner_starts stat_burner_starts_update (od_u16 r)) (0, ctx);
          st = on_read e DATA_ID_CH_PUMP_STARTS (\<lambda>r. STATISTIC_READ stat_ch_pump_starts stat_ch_pump_starts_update (od_u16 r)) st;
          st = on_read e DATA_ID_DHW_PUMP_STARTS (\<lambda>r. STATISTIC_READ stat_dhw_pump_starts stat_dhw_pump_starts_update (od_u16 r)) st;
          st = on_read e DATA_ID_DHW_BURNER_STARTS (\<lambda>r. STATISTIC_READ stat_dhw_burn_burner_starts stat_dhw_burn_burner_starts_update (od_u16 r)) st;
          st = on_read e DATA_ID_BURNER_OPERATION_HOURS (\<lambda>r. STATISTIC_READ stat_burner_hours stat_burner_hours_update (od_u16 r)) st;
          st = on_read e DATA_ID_CH_PUMP_OPERATION_HOURS (\<lambda>r. STATISTIC_READ stat_ch_pump_hours stat_ch_pump_hours_update (od_u16 r)) st;
          st = on_read e DATA_ID_DHW_PUMP_OPERATION_HOURS (\<lambda>r. STATISTIC_READ stat_dhw_pump_hours stat_dhw_pump_hours_update (od_u16 r)) st
      in snd (on_read e DATA_ID_DHW_BURNER_OPERATION_HOURS (\<lambda>r. STATISTIC_READ stat_dhw_burn_hours stat_dhw_burn_hours_update (od_u16 r)) st))"

section \<open>The run loop\<close>

definition CMD_SEND_INTERVAL_MS :: u64 where "CMD_SEND_INTERVAL_MS = 1000"
definition CMD_ERR_INTERVAL_MS :: u64 where "CMD_ERR_INTERVAL_MS = 10000"
definition CMD_STATS_INTERVAL_MS :: u64 where "CMD_STATS_INTERVAL_MS = 10000"
definition CMD_CFG_INTERVAL_MS :: u64 where "CMD_CFG_INTERVAL_MS = 60000"
definition DEV_FIND_INTERVAL_MS :: u64 where "DEV_FIND_INTERVAL_MS = 300000"
definition DEV_FIND_ATTEMPTS :: int where "DEV_FIND_ATTEMPTS = 3"

text \<open>The look for a device: whether the run goes on.  None: the search does not return.\<close>

definition ot_find :: "ot_env \<Rightarrow> u64 \<Rightarrow> opentherm \<Rightarrow> (bool \<times> opentherm) option" where
  "ot_find e now ctx =
     (if opentherm_dev_pio_attached (ot_pio ctx) then Some (True, ctx)
      else if find_attempts ctx \<ge> DEV_FIND_ATTEMPTS then Some (False, ctx)
      else if last_dev_lookup ctx \<noteq> 0 \<and> now - last_dev_lookup ctx < DEV_FIND_INTERVAL_MS then Some (False, ctx)
      else case opentherm_dev_pio_find e (ot_pio ctx) of
        None \<Rightarrow> None
      | Some (_, pio) \<Rightarrow>
          (let ctx = ctx\<lparr>ot_dev := (fst (ot_dev ctx), pio)\<rparr>; ctx = ctx\<lparr>last_dev_lookup := ot_time e 4 ctx\<rparr>
           in Some (if \<not> ot_attached pio then (False, ctx\<lparr>find_attempts := find_attempts ctx + 1\<rparr>)
                    else (True, ctx\<lparr>find_attempts := 0\<rparr>))))"

definition ot_round :: "ot_env \<Rightarrow> u64 \<Rightarrow> opentherm \<Rightarrow> opentherm" where
  "ot_round e now ctx =
     (let ctx = snd (opentherm_exchange_status e ctx); ctx = opentherm_sync_params e ctx in
      if now - last_cfg_read ctx > CMD_CFG_INTERVAL_MS
      then (let ctx = opentherm_read_cfg_data e ctx in ctx\<lparr>last_cfg_read := ot_time e 5 ctx\<rparr>)
      else if now - last_err_read ctx > CMD_ERR_INTERVAL_MS
      then (let ctx = opentherm_read_errors e ctx in ctx\<lparr>last_err_read := ot_time e 5 ctx\<rparr>)
      else if now - last_stat_read ctx > CMD_STATS_INTERVAL_MS
      then (let ctx = opentherm_read_statistics e ctx in ctx\<lparr>last_stat_read := ot_time e 5 ctx\<rparr>)
      else opentherm_read_data e ctx)"

definition opentherm_dev_run :: "ot_env \<Rightarrow> u64 \<Rightarrow> opentherm \<Rightarrow> opentherm option" where
  "opentherm_dev_run e now ctx =
     (case ot_find e now ctx of
        None \<Rightarrow> None
      | Some (False, ctx) \<Rightarrow> Some ctx
      | Some (True, ctx) \<Rightarrow>
          if \<not> cmd_static ctx then
            (let (b, ctx) = opentherm_read_static_data e ctx; ctx = ctx\<lparr>cmd_static := b\<rparr>
             in Some (ctx\<lparr>ot_last_send := ot_time e 6 ctx\<rparr>))
          else if ot_last_send ctx \<noteq> 0 \<and> now - ot_last_send ctx < CMD_SEND_INTERVAL_MS then Some ctx
          else (let ctx = ot_round e now ctx in Some (ctx\<lparr>ot_last_send := ot_time e 6 ctx\<rparr>)))"

definition opentherm_dev_init :: "opentherm \<Rightarrow> opentherm" where
  "opentherm_dev_init ctx = ctx\<lparr>ot_dev := (commands_init (fst (ot_dev ctx)), ot_pio ctx)\<rparr>"

definition opentherm_dev_scan_all :: "ot_env \<Rightarrow> opentherm \<Rightarrow> opentherm" where
  "opentherm_dev_scan_all e ctx =
     fold (\<lambda>i ctx. ctx\<lparr>ot_dev := (fst (ot_dev ctx), snd (opentherm_dev_read e i 0 (ot_pio ctx)))\<rparr>) [0 ..< DATA_ID_CMD_MAX] ctx"

section \<open>The initial context\<close>

definition zero_params :: ot_params where
  "zero_params = \<lparr>ch_temperature_setpoint = Fin 0, dhw_temperature_setpoint = Fin 0, ch_max = Fin 0, dhw_max = Fin 0\<rparr>"

definition zero_prog :: "int \<Rightarrow> pio_prog" where
  "zero_prog pin = \<lparr>pp_pin = pin, pp_sm = 0, pp_pio = 0, pp_offset = 0, pio_func = 0\<rparr>"

text \<open>The context as \<open>calloc\<close> leaves it, with the two pins.\<close>

definition zero_opentherm :: "int \<Rightarrow> int \<Rightarrow> opentherm" where
  "zero_opentherm rx tx =
     \<lparr>ot_data = \<lparr>om_force = False, flow_temperature = Fin 0, return_temperature = Fin 0, flame_current = Fin 0, dhw_temperature = Fin 0,
        modulation_level = Fin 0, ch_pressure = Fin 0, dhw_flow_rate = Fin 0, exhaust_temperature = 0, mod_level_time = 0,
        gas_flow = Fin 0, mod_level_count = 0, mod_level_mean = Fin 0\<rparr>,
      ot_errors = \<lparr>oe_force = False, fault_svc_needed = False, fault_low_water_pressure = False, fault_flame = False,
        fault_low_air_pressure = False, fault_high_water_temperature = False, diagnostic_event = False, fault_active = False,
        fault_code = 0, fault_burner_starts = 0, fault_flame_low = 0, fault_oem_code = 0\<rparr>,
      ot_dev_config = \<lparr>oc_force = False, ch_max_cfg = 0, ch_min_cfg = 0, dhw_max_cfg = 0, dhw_min_cfg = 0, ch_rangemin = Fin 0,
        ch_rangemax = Fin 0, dhw_rangemin = Fin 0, dhw_rangemax = Fin 0\<rparr>,
      ot_dev_static = \<lparr>os_force = False, dev_id = 0, ot_ver = 0, dev_type = 0, dev_ver = 0, dwh_present = False, control_type = False,
        cool_present = False, dhw_config = False, pump_control = False, ch2_present = False\<rparr>,
      ot_status = \<lparr>st_force = False, ch_enabled = False, dhw_enabled = False, cooling_enabled = False, otc_active = False,
        ch2_enabled = False, ch_active = False, dhw_active = False, flame_active = False, cooling_active = False, ch2_active = False\<rparr>,
      ot_stats = \<lparr>sa_force = False, stat_reset_time = 0, stat_burner_starts = 0, stat_ch_pump_starts = 0, stat_dhw_pump_starts = 0,
        stat_dhw_burn_burner_starts = 0, stat_burner_hours = 0, stat_ch_pump_hours = 0, stat_dhw_pump_hours = 0, stat_dhw_burn_hours = 0\<rparr>,
      qmin = Fin 0, qmax = Fin 0, gas_reset = 0, gas_total = Fin 0, gas_send = False, param_desired = zero_params,
      param_actual = zero_params, ot_last_send = 0, last_dev_lookup = 0, last_err_read = 0, last_stat_read = 0, last_cfg_read = 0,
      ot_dev = (replicate DATA_ID_CMD_MAX zero_command,
        \<lparr>rx_hz = 0, ot_attached = False, ot_conn_count = 0, last_valid = 0, pio_rx = zero_prog rx, pio_tx = zero_prog tx,
         rx_clk = 0, ot_sent = []\<rparr>),
      ot_qp = Fin 0, find_attempts = 0, cmd_static = False\<rparr>"

end
