(* ===== verification/OtExchange.thy ===== *)
theory OtExchange
  imports OtDev
begin

text \<open>
  What is exchanged with the OpenTherm device: the bits of a float carry its value, a value is
  taken from the line exactly when a frame that answers the request was heard, every run is a
  bounded sequence of calls of the table, a refused command is given up, and a parameter is
  written until the device confirms it.
\<close>

section \<open>The bits of a float\<close>

lemma pow2_nonzero [simp]: "pow2 k \<noteq> 0"
  by (rule less_imp_neq [OF pow2_pos, symmetric])

lemma f32_scaled:
  assumes "f32_rep v" and "v \<noteq> 0"
  obtains m where "\<bar>v\<bar> = of_int m * pow2 (f32_exp v)" and "0 < m" and "m < 2 ^ 24" and "f32_exp v \<le> 104"
    and "m < 2 ^ 23 \<longrightarrow> f32_exp v = - 149"
proof -
  define e where "e = f32_exp v"
  have s: "pow2 (e + 23) = of_int (2 ^ 23) * pow2 e" "pow2 (e + 24) = of_int (2 ^ 24) * pow2 e"
    by (simp_all add: pow2_add pow2_nat)
  obtain n where n: "\<bar>v\<bar> = of_int n * pow2 e"
  proof (cases "\<exists>n. v = of_int n * pow2 e")
    case True
    then obtain n where "v = of_int n * pow2 e" by blast
    then have "\<bar>v\<bar> = of_int \<bar>n\<bar> * pow2 e" by (simp add: abs_mult abs_of_pos [OF pow2_pos])
    then show ?thesis by (rule that)
  next
    case False
    then have "\<bar>v\<bar> = pow2 (e + 23)" using f32_rep_scaled [OF assms] by (simp add: e_def)
    then show ?thesis using s(1) that by metis
  qed
  have l: "pow2 (ilog2 \<bar>v\<bar>) \<le> \<bar>v\<bar>" "\<bar>v\<bar> < pow2 (ilog2 \<bar>v\<bar> + 1)" using ilog2 [of "\<bar>v\<bar>"] assms(2) by simp_all
  have "ilog2 \<bar>v\<bar> + 1 \<le> e + 24" by (simp add: e_def f32_exp_def)
  then have u: "\<bar>v\<bar> < pow2 (e + 24)" using l(2) pow2_mono by (meson less_le_trans)
  have "0 < n" using n assms(2) by (metis abs_le_zero_iff mult_le_0_iff not_less of_int_le_0_iff pow2_pos less_le_not_le)
  moreover have "n < 2 ^ 24"
  proof -
    have "(of_int n :: rat) < of_int (2 ^ 24)" using u unfolding n s(2) by (simp only: mult_less_cancel_right_pos [OF pow2_pos])
    then show ?thesis by (simp only: of_int_less_iff)
  qed
  moreover have big: "n < 2 ^ 23 \<longrightarrow> e = - 149"
  proof
    assume "n < 2 ^ 23"
    then have "(of_int n :: rat) < of_int (2 ^ 23)" by (simp only: of_int_less_iff)
    then have "\<bar>v\<bar> < pow2 (e + 23)" unfolding n s(1) by (simp only: mult_less_cancel_right_pos [OF pow2_pos])
    then have "ilog2 \<bar>v\<bar> < e + 23" using l(1) pow2_mono [of "e + 23" "ilog2 \<bar>v\<bar>"] by linarith
    then show "e = - 149" by (simp add: e_def f32_exp_def max_def split: if_splits)
  qed
  moreover have "e \<le> 104"
  proof (rule ccontr)
    assume "\<not> e \<le> 104"
    then have e: "e = ilog2 \<bar>v\<bar> - 23" "105 \<le> e" by (simp_all add: e_def f32_exp_def max_def split: if_splits)
    then have "pow2 128 \<le> pow2 (ilog2 \<bar>v\<bar>)" by (intro pow2_mono) simp
    then show False using l(1) assms(1) by (simp add: f32_rep_def)
  qed
  ultimately show ?thesis using that [of n] n by (simp add: e_def)
qed

lemma more_bits: "bit (8388607 :: int) n \<longleftrightarrow> n < 23"
proof -
  have "bit (mask 23 :: int) n \<longleftrightarrow> n < 23" by (simp add: bit_mask_iff)
  then show ?thesis by (simp add: mask_eq_exp_minus_1)
qed

lemma small_bit: "0 \<le> (k :: int) \<Longrightarrow> k < 2 ^ a \<Longrightarrow> bit k n \<Longrightarrow> n < a"
proof (rule ccontr)
  assume k: "0 \<le> k" "k < 2 ^ a" "bit k n" and n: "\<not> n < a"
  then have "k < 2 ^ n" by (meson less_le_trans not_less one_le_numeral power_increasing)
  then have "k div 2 ^ n = 0" using k(1) by simp
  then show False using k(3) by (simp add: bit_iff_odd)
qed

lemma f32_fields:
  assumes "0 \<le> ex" "ex < 255" "0 \<le> m" "m < 2 ^ 23" and "w = push_bit 23 (word_of_int ex) OR word_of_int m"
    and "w' = (if neg then w OR 0x80000000 else w)"
  shows "f32_of_bits w' =
    (let v = (if ex = 0 then of_int m * pow2 (- 149) else of_int (m + 2 ^ 23) * pow2 (ex - 150)) in Fin (if neg then - v else v))"
proof -
  have e: "bit ex n \<Longrightarrow> n < 8" and b: "bit m n \<Longrightarrow> n < 23" for n
    using small_bit [of ex 8 n] small_bit [of m 23 n] assms(1-4) by auto
  have "drop_bit 23 w' AND 0xFF = word_of_int ex"
    unfolding assms(5,6) by (rule bit_word_eqI) (auto simp: bit_simps low_bits dest: e b)
  moreover have "w' AND 0x7FFFFF = word_of_int m"
    unfolding assms(5,6) by (rule bit_word_eqI) (auto simp: bit_simps low_bits more_bits dest: e b)
  moreover have "bit w' 31 = neg"
    unfolding assms(5,6) by (auto simp: bit_simps low_bits dest: e b)
  moreover have "uint (word_of_int ex :: u32) = ex" "uint (word_of_int m :: u32) = m"
    using assms(1-4) by (simp_all add: uint_word_of_int)
  ultimately show ?thesis using assms(2) by (simp add: f32_of_bits_def Let_def)
qed

lemma f32_bits_value: "f32_rep v \<Longrightarrow> f32_of_bits (bits_of_f32 (Fin v)) = Fin v"
proof (cases "v = 0")
  case True
  then show ?thesis by (simp add: bits_of_f32_def f32_of_bits_def)
next
  case False
  assume r: "f32_rep v"
  obtain m where m: "\<bar>v\<bar> = of_int m * pow2 (f32_exp v)" "0 < m" "m < 2 ^ 24" "f32_exp v \<le> 104" "m < 2 ^ 23 \<longrightarrow> f32_exp v = - 149"
    by (rule f32_scaled [OF r False])
  define e where "e = f32_exp v"
  have fl: "\<lfloor>\<bar>v\<bar> / pow2 e\<rfloor> = m" using m(1) pow2_pos [of e] by (simp add: e_def)
  have v: "v = (if v < 0 then - \<bar>v\<bar> else \<bar>v\<bar>)" by simp
  have e149: "- 149 \<le> e" by (simp add: e_def f32_exp_def)
  define w where "w = push_bit 23 (word_of_int (if m < 2 ^ 23 then 0 else e + 150) :: u32) OR word_of_int (if m < 2 ^ 23 then m else m - 2 ^ 23)"
  have "bits_of_f32 (Fin v) = (if v < 0 then w OR 0x80000000 else w)"
    unfolding bits_of_f32_def f32.case if_not_P [OF False] Let_def e_def [symmetric] fl w_def by simp
  then have "f32_of_bits (bits_of_f32 (Fin v)) = Fin (if v < 0 then - \<bar>v\<bar> else \<bar>v\<bar>)"
    using m e149 by (subst f32_fields [OF _ _ _ _ w_def]) (auto simp: Let_def simp flip: e_def)
  then show ?thesis using v by simp
qed

section \<open>What is taken from the line\<close>

text \<open>The line carries the frame \<open>f\<close>: two words of Manchester code, the end bit, an even parity.\<close>

definition carries :: "ot_env \<Rightarrow> u32 \<Rightarrow> u64 \<Rightarrow> nat \<Rightarrow> u32 \<Rightarrow> bool" where
  "carries e c out k f \<longleftrightarrow>
     fst (ot_line e k c out) \<and> 3 \<le> length (snd (ot_line e k c out)) \<and> snd (ot_line e k c out) ! 2 = END_BIT \<and>
     rx_join (snd (ot_line e k c out) ! 0) (snd (ot_line e k c out) ! 1) = manchester_encode f False \<and> even (popcount f)"

definition frame_msg :: "u32 \<Rightarrow> opentherm_msg" where
  "frame_msg f = \<lparr>msg_type = ucast (drop_bit 28 f AND 0x07), msg_id = ucast (drop_bit 16 f AND 0xFF), msg_value = ucast (f AND 0xFFFF)\<rparr>"

definition request_frame :: "u8 \<Rightarrow> nat \<Rightarrow> u16 \<Rightarrow> u64" where
  "request_frame t i v = manchester_encode (opentherm_frame_encode t (of_nat i) v) True"

lemma carries_unique: "carries e c out k f \<Longrightarrow> carries e c out k g \<Longrightarrow> f = g"
  unfolding carries_def by (metis manchester_decode_exact option.inject)

abbreviation req_out :: "opentherm_msg \<Rightarrow> u64" where
  "req_out req \<equiv> request_frame (msg_type req) (unat (msg_id req)) (msg_value req)"

lemma run_sent: "snd (opentherm_exchange_run e req pio) = pio\<lparr>ot_sent := ot_sent pio @ [req_out req]\<rparr>"
  by (simp add: opentherm_exchange_run_def opentherm_exchange_frame_def Let_def request_frame_def case_prod_beta split: sum.split option.split)

lemma run_heard:
  "fst (opentherm_exchange_run e req pio) = Some r \<longleftrightarrow>
     (\<exists>f. carries e (rx_clk pio) (req_out req) (length (ot_sent pio)) f \<and> r = frame_msg f)"
proof -
  obtain left rx where l: "ot_line e (length (ot_sent pio)) (rx_clk pio) (req_out req) = (left, rx)" by fastforce
  have f: "fst (opentherm_exchange_run e req pio) =
      (if left \<and> 3 \<le> length rx \<and> rx ! 2 = END_BIT
       then (case manchester_decode (rx_join (rx ! 0) (rx ! 1)) False of None \<Rightarrow> None | Some f \<Rightarrow> opentherm_frame_decode f) else None)"
    using l by (auto simp: opentherm_exchange_run_def opentherm_exchange_frame_def Let_def request_frame_def split: option.split)
  show ?thesis
    unfolding f carries_def l
    by (cases "manchester_decode (rx_join (rx ! 0) (rx ! 1)) False")
      (auto simp: opentherm_frame_decode_def frame_msg_def manchester_decode_exact simp flip: manchester_decode_exact)
qed

lemma try_run:
  "opentherm_exchange_run e req pio = (fst (opentherm_exchange_run e req pio), pio\<lparr>ot_sent := ot_sent pio @ [req_out req]\<rparr>)"
  using run_sent [of e req pio] by (cases "opentherm_exchange_run e req pio") simp

lemma exchange_heard:
  assumes "ot_attached pio"
  shows "fst (opentherm_dev_pio_exchange e req pio) = Some r \<longleftrightarrow>
    (\<exists>f. r = frame_msg f \<and> (carries e (rx_clk pio) (req_out req) (length (ot_sent pio)) f \<or>
       (\<nexists>g. carries e (rx_clk pio) (req_out req) (length (ot_sent pio)) g) \<and>
       carries e (rx_clk pio) (req_out req) (Suc (length (ot_sent pio))) f))"
proof -
  define pio2 where "pio2 = pio\<lparr>ot_sent := ot_sent pio @ [req_out req]\<rparr>"
  have a: "fst (opentherm_dev_pio_exchange e req pio) =
      (case fst (opentherm_exchange_run e req pio) of Some r \<Rightarrow> Some r | None \<Rightarrow> fst (opentherm_exchange_run e req pio2))"
    using assms try_run [of e req pio] try_run [of e req pio2]
    by (cases "fst (opentherm_exchange_run e req pio)"; cases "fst (opentherm_exchange_run e req pio2)")
      (simp_all add: opentherm_dev_pio_exchange_def OT_MAX_RETRIES_def numeral_2_eq_2 pio2_def)
  show ?thesis
  proof (cases "fst (opentherm_exchange_run e req pio)")
    case None
    then have "\<nexists>g. carries e (rx_clk pio) (req_out req) (length (ot_sent pio)) g"
      using run_heard [of e req pio] by auto
    then show ?thesis using None a run_heard [of e req pio2 r] by (auto simp: pio2_def)
  next
    case (Some x)
    then have "x = r \<longleftrightarrow> (\<exists>f. carries e (rx_clk pio) (req_out req) (length (ot_sent pio)) f \<and> r = frame_msg f)"
      using run_heard [of e req pio r] by simp
    moreover have "\<exists>g. carries e (rx_clk pio) (req_out req) (length (ot_sent pio)) g"
      using run_heard [of e req pio x] Some by auto
    ultimately show ?thesis using Some a by auto
  qed
qed

text \<open>What the exchange leaves: at most two more frames, the request each time.\<close>

lemma exchange_sent:
  "\<exists>n\<le>2. ot_sent (snd (opentherm_dev_pio_exchange e req pio)) = ot_sent pio @ replicate n (req_out req)"
proof -
  have "\<exists>n\<le>k. ot_sent (snd (exchange_tries e req k pio)) = ot_sent pio @ replicate n (req_out req)" for k
  proof (induction k arbitrary: pio)
    case (Suc k)
    show ?case
    proof (cases "fst (opentherm_exchange_run e req pio)")
      case None
      obtain n where "n \<le> k" "ot_sent (snd (exchange_tries e req k (pio\<lparr>ot_sent := ot_sent pio @ [req_out req]\<rparr>))) =
          (ot_sent pio @ [req_out req]) @ replicate n (req_out req)"
        using Suc.IH [of "pio\<lparr>ot_sent := ot_sent pio @ [req_out req]\<rparr>"] by auto
      then show ?thesis using None try_run [of e req pio] by (intro exI [of _ "Suc n"]) simp
    next
      case (Some r)
      then show ?thesis using try_run [of e req pio] by (intro exI [of _ 1]) simp
    qed
  qed simp
  from this [of 2] show ?thesis
    by (auto simp: opentherm_dev_pio_exchange_def OT_MAX_RETRIES_def split: prod.split option.split)
qed

text \<open>
  C12.  A value is taken from the line exactly when it was sent: with a device attached, a read of a
  command returns the value v if and only if the first answer that is a frame, of the two that
  are asked for, acknowledges a read of this command with the value v.  Anything else on the
  line, a frame with a wrong bit included, gives no value.
\<close>

lemma opentherm_read_exact:
  assumes "ot_attached pio"
  shows "fst (opentherm_dev_read e cmd send pio) = (CMD_RESPONSE_OK, Some v) \<longleftrightarrow>
    (\<exists>f. (carries e (rx_clk pio) (request_frame MSG_TYPE_READ_DATA cmd send) (length (ot_sent pio)) f \<or>
         (\<nexists>g. carries e (rx_clk pio) (request_frame MSG_TYPE_READ_DATA cmd send) (length (ot_sent pio)) g) \<and>
         carries e (rx_clk pio) (request_frame MSG_TYPE_READ_DATA cmd send) (Suc (length (ot_sent pio))) f) \<and>
       frame_msg f = \<lparr>msg_type = MSG_TYPE_READ_ACK, msg_id = of_nat cmd, msg_value = v\<rparr>)"
proof -
  define req where "req = \<lparr>msg_type = MSG_TYPE_READ_DATA, msg_id = of_nat cmd, msg_value = send\<rparr>"
  have out: "req_out req = request_frame MSG_TYPE_READ_DATA cmd send" by (simp add: req_def request_frame_def)
  have "fst (opentherm_dev_read e cmd send pio) = (CMD_RESPONSE_OK, Some v) \<longleftrightarrow>
      fst (opentherm_dev_pio_exchange e req pio) = Some \<lparr>msg_type = MSG_TYPE_READ_ACK, msg_id = of_nat cmd, msg_value = v\<rparr>"
    by (auto simp: opentherm_dev_read_def req_def ot_response_def case_prod_beta split: option.split)
  then show ?thesis unfolding exchange_heard [OF assms] out by auto
qed

text \<open>When the first answer is a frame the exchange is over after it.\<close>

lemma exchange_first:
  assumes "ot_attached pio" and "carries e (rx_clk pio) (req_out req) (length (ot_sent pio)) f"
    and "p = pio\<lparr>ot_sent := ot_sent pio @ [req_out req]\<rparr>"
  shows "opentherm_dev_pio_exchange e req pio = (Some (frame_msg f), p\<lparr>last_valid := ot_now e 0 p\<rparr>)"
proof -
  have "fst (opentherm_exchange_run e req pio) = Some (frame_msg f)" using run_heard assms(2) by blast
  then have "opentherm_exchange_run e req pio = (Some (frame_msg f), p)"
    using run_sent [of e req pio] assms(3) by (cases "opentherm_exchange_run e req pio") simp
  then show ?thesis using assms(1) by (simp add: opentherm_dev_pio_exchange_def OT_MAX_RETRIES_def numeral_2_eq_2)
qed

lemma frame_msg_encode: "frame_msg (opentherm_frame_encode t i v) = \<lparr>msg_type = t AND 7, msg_id = i, msg_value = v\<rparr>"
  using frame_decode_encode [of t i v] encode_even [of t i v] by (simp add: opentherm_frame_decode_def frame_msg_def)

lemma demo_carries:
  "lo \<le> uint c \<Longrightarrow> uint c \<le> hi \<Longrightarrow> even (popcount f) \<Longrightarrow> carries (demo_line lo hi f) c out k f"
  by (auto simp: carries_def demo_line_def)

lemma opentherm_read_exact_witness:
  "fst (opentherm_dev_read (demo_line 40000 60000 (opentherm_frame_encode 4 25 0x1E00)) 25 0 demo_pio) = (CMD_RESPONSE_OK, Some 0x1E00)"
proof -
  have a: "ot_attached demo_pio" by (simp add: demo_pio_def)
  have c: "carries (demo_line 40000 60000 (opentherm_frame_encode 4 25 0x1E00)) (rx_clk demo_pio) out k (opentherm_frame_encode 4 25 0x1E00)" for out k
    by (rule demo_carries) (simp_all add: demo_pio_def encode_even)
  have "frame_msg (opentherm_frame_encode 4 25 0x1E00) = \<lparr>msg_type = MSG_TYPE_READ_ACK, msg_id = of_nat 25, msg_value = 0x1E00\<rparr>"
    by (simp add: frame_msg_encode MSG_TYPE_READ_ACK_def)
  then show ?thesis using opentherm_read_exact [OF a] c by blast
qed

end
