(* ===== verification/OtRun.thy ===== *)
theory OtRun
  imports OtExchange
begin

text \<open>
  The runs of the OpenTherm device as sequences of calls of the table of commands: how many
  frames a run sends and which, when a command is given up, and when a parameter is settled.
\<close>

section \<open>Calls\<close>

text \<open>A call of the table: write or read, the command, the value sent and the one for the reply.\<close>

datatype ot_call = Ot_call bool nat "ot_data option" "ot_data option"

fun ot_call_do :: "ot_env \<Rightarrow> ot_call \<Rightarrow> ot_dev \<Rightarrow> int \<times> ot_data option \<times> ot_dev" where
  "ot_call_do e (Ot_call w i out inn) dev = (if w then ot_cmd_write e i out inn dev else ot_cmd_read e i out inn dev)"

definition ot_calls :: "ot_env \<Rightarrow> ot_call list \<Rightarrow> ot_dev \<Rightarrow> ot_dev" where
  "ot_calls e cs dev = fold (\<lambda>c dev. snd (snd (ot_call_do e c dev))) cs dev"

lemma ot_calls_simps [simp]:
  "ot_calls e [] dev = dev" "ot_calls e (c # cs) dev = ot_calls e cs (snd (snd (ot_call_do e c dev)))"
  "ot_calls e (cs @ ds) dev = ot_calls e ds (ot_calls e cs dev)"
  by (simp_all add: ot_calls_def)

text \<open>The answer to a call, when it goes to the line.\<close>

fun ot_answer :: "ot_env \<Rightarrow> ot_call \<Rightarrow> ot_dev \<Rightarrow> opentherm_cmd_response option" where
  "ot_answer e (Ot_call w i out inn) (cs, pio) =
     (if i < DATA_ID_CMD_MAX \<and> (if w then can_write (cs ! i) else can_read (cs ! i)) \<and> oc_supported (cs ! i) \<noteq> 0
      then Some (fst (fst (dev_rw e w i (ot_send (the (oc_func (cs ! i))) out) pio))) else None)"

lemma call_effect:
  "snd (snd (ot_call_do e (Ot_call w i out inn) (cs, pio))) =
     (case ot_answer e (Ot_call w i out inn) (cs, pio) of
        None \<Rightarrow> (cs, pio)
      | Some r \<Rightarrow> (ot_supported_dec r i cs, snd (dev_rw e w i (ot_send (the (oc_func (cs ! i))) out) pio)))"
  by (auto simp: ot_cmd_read_def ot_cmd_write_def ot_cmd_func_def Let_def case_prod_beta)

lemma rw_sent:
  "\<exists>n\<le>2. ot_sent (snd (dev_rw e w i v pio)) =
     ot_sent pio @ replicate n (request_frame (if w then MSG_TYPE_WRITE_DATA else MSG_TYPE_READ_DATA) i v)"
proof -
  define req where "req = \<lparr>msg_type = (if w then MSG_TYPE_WRITE_DATA else MSG_TYPE_READ_DATA), msg_id = (of_nat i :: u8), msg_value = v\<rparr>"
  have "req_out req = request_frame (if w then MSG_TYPE_WRITE_DATA else MSG_TYPE_READ_DATA) i v"
    by (simp add: req_def request_frame_def)
  moreover have "snd (dev_rw e w i v pio) = snd (opentherm_dev_pio_exchange e req pio)"
    by (simp add: dev_rw_def opentherm_dev_read_def opentherm_dev_write_def req_def case_prod_beta)
  ultimately show ?thesis using exchange_sent [of e req pio] by simp
qed

text \<open>A frame of a request for a command of the table.\<close>

definition is_request :: "u64 \<Rightarrow> bool" where
  "is_request m \<longleftrightarrow> (\<exists>t i v. t \<in> {MSG_TYPE_READ_DATA, MSG_TYPE_WRITE_DATA} \<and> i < DATA_ID_CMD_MAX \<and> m = request_frame t i v)"

lemma call_sent:
  "\<exists>fs. ot_sent (snd (snd (snd (ot_call_do e c dev)))) = ot_sent (snd dev) @ fs \<and> length fs \<le> 2 \<and> list_all is_request fs"
proof -
  obtain w i out inn where c: "c = Ot_call w i out inn" by (cases c)
  obtain cs pio where d: "dev = (cs, pio)" by fastforce
  show ?thesis
  proof (cases "ot_answer e c dev")
    case None
    then show ?thesis by (simp add: c d call_effect del: ot_call_do.simps ot_answer.simps)
  next
    case (Some r)
    obtain n where n: "n \<le> 2" "ot_sent (snd (dev_rw e w i (ot_send (the (oc_func (cs ! i))) out) pio)) = ot_sent pio @
        replicate n (request_frame (if w then MSG_TYPE_WRITE_DATA else MSG_TYPE_READ_DATA) i (ot_send (the (oc_func (cs ! i))) out))"
      using rw_sent by blast
    have "i < DATA_ID_CMD_MAX" using Some by (auto simp: c d split: if_splits)
    then have "is_request (request_frame (if w then MSG_TYPE_WRITE_DATA else MSG_TYPE_READ_DATA) i (ot_send (the (oc_func (cs ! i))) out))"
      by (auto simp: is_request_def)
    then show ?thesis using n Some by (auto simp: c d call_effect list_all_iff simp del: ot_call_do.simps ot_answer.simps)
  qed
qed

lemma calls_sent:
  "\<exists>fs. ot_sent (snd (ot_calls e cs dev)) = ot_sent (snd dev) @ fs \<and> length fs \<le> 2 * length cs \<and> list_all is_request fs"
proof (induction cs arbitrary: dev)
  case (Cons c cs)
  obtain fs gs where "ot_sent (snd (snd (snd (ot_call_do e c dev)))) = ot_sent (snd dev) @ fs" "length fs \<le> 2" "list_all is_request fs"
    "ot_sent (snd (ot_calls e (c # cs) dev)) = (ot_sent (snd dev) @ fs) @ gs" "length gs \<le> 2 * length cs" "list_all is_request gs"
    using call_sent [of e c dev] Cons.IH [of "snd (snd (ot_call_do e c dev))"] by auto
  then show ?case by (intro exI [of _ "fs @ gs"]) auto
qed simp

section \<open>A run is a sequence of calls\<close>

definition by_calls :: "ot_env \<Rightarrow> nat \<Rightarrow> opentherm \<Rightarrow> opentherm \<Rightarrow> bool" where
  "by_calls e n ctx ctx' \<longleftrightarrow> (\<exists>cs. length cs \<le> n \<and> ot_dev ctx' = ot_calls e cs (ot_dev ctx))"

lemma by_calls_same: "ot_dev ctx' = ot_dev ctx \<Longrightarrow> by_calls e n ctx ctx'"
  unfolding by_calls_def by (intro exI [of _ "[]"]) simp

lemma by_calls_trans:
  assumes "by_calls e n a b" and "by_calls e m b c" and "n + m \<le> k"
  shows "by_calls e k a c"
proof -
  obtain cs ds where "length cs \<le> n" "ot_dev b = ot_calls e cs (ot_dev a)" "length ds \<le> m" "ot_dev c = ot_calls e ds (ot_dev b)"
    using assms(1,2) by (auto simp: by_calls_def)
  then show ?thesis using assms(3) unfolding by_calls_def by (intro exI [of _ "cs @ ds"]) simp
qed

lemma read_id_calls: "by_calls e 1 (snd st) (snd (snd (read_id e i out st)))"
  unfolding by_calls_def
  by (intro exI [of _ "[Ot_call False i out (Some (fst st))]"]) (simp add: read_id_def case_prod_beta Let_def)

lemma on_read_calls:
  assumes "\<And>r c. ot_dev (f r c) = ot_dev c"
  shows "by_calls e 1 (snd st) (snd (on_read e i f st))"
  using read_id_calls [of e st i None] assms by (auto simp: on_read_def by_calls_def case_prod_beta Let_def)

lemma by_calls_mono: "by_calls e n a b \<Longrightarrow> n \<le> m \<Longrightarrow> by_calls e m a b"
  unfolding by_calls_def using order_trans by blast

lemma on_read_chain:
  assumes "by_calls e (n - 1) ctx (snd st)" and "0 < n" and "\<And>r c. ot_dev (f r c) = ot_dev c"
  shows "by_calls e n ctx (snd (on_read e i f st))"
  by (rule by_calls_trans [OF assms(1) on_read_calls]) (use assms(2) in \<open>simp_all add: assms(3)\<close>)

lemma macros_dev [simp]:
  "ot_dev (DATA_READ g u v c) = ot_dev c" "ot_dev (ERRORS_READ g' u' v' c) = ot_dev c"
  "ot_dev (STATUS_READ g2 u2 v2 c) = ot_dev c" "ot_dev (CFG_READ g3 u3 v3 c) = ot_dev c"
  "ot_dev (STATIC_READ g4 u4 v4 c) = ot_dev c" "ot_dev (STATISTIC_READ g5 u5 v5 c) = ot_dev c"
  by (simp_all add: DATA_READ_def ERRORS_READ_def STATUS_READ_def CFG_READ_def STATIC_READ_def STATISTIC_READ_def)

lemma readers_dev [simp]:
  "ot_dev (opentherm_gas_calc e c) = ot_dev c" "ot_dev (mod_level_read e b r c) = ot_dev c" "ot_dev (exhaust_read r c) = ot_dev c"
  "ot_dev (asf_read r c) = ot_dev c" "ot_dev (ch_bounds_read r c) = ot_dev c" "ot_dev (dhw_bounds_read r c) = ot_dev c"
  "ot_dev (maxtset_read r c) = ot_dev c" "ot_dev (secondary_config_read r c) = ot_dev c" "ot_dev (ot_ver_read r c) = ot_dev c"
  by (simp_all add: opentherm_gas_calc_def mod_level_read_def exhaust_read_def asf_read_def ch_bounds_read_def dhw_bounds_read_def
    maxtset_read_def secondary_config_read_def ot_ver_read_def Let_def)

lemma reads_calls:
  "by_calls e 8 ctx (opentherm_read_data e ctx)" "by_calls e 4 ctx (opentherm_read_errors e ctx)"
  "by_calls e 3 ctx (opentherm_read_cfg_data e ctx)" "by_calls e 8 ctx (opentherm_read_statistics e ctx)"
  "by_calls e 3 ctx (snd (opentherm_read_static_data e ctx))"
proof -
  have z: "by_calls e k ctx (snd (0 :: ot_data, ctx))" for k by (rule by_calls_same) simp
  obtain ret repl c where r: "read_id e DATA_ID_FLAME_CURRENT None (0, ctx) = (ret, repl, c)" by (rule prod_cases3)
  have "by_calls e 1 ctx (if ret = 0 then DATA_READ flame_current flame_current_update (od_f repl) c else c)"
    using read_id_calls [of e "(0, ctx)" DATA_ID_FLAME_CURRENT None] r by (simp add: by_calls_def)
  then have one: "1 \<le> k \<Longrightarrow> by_calls e k ctx (snd (repl, if ret = 0 then DATA_READ flame_current flame_current_update (od_f repl) c else c))" for k
    unfolding snd_conv by (rule by_calls_mono)
  show "by_calls e 8 ctx (opentherm_read_data e ctx)"
    unfolding opentherm_read_data_def Let_def r prod.case by (intro on_read_chain one) simp_all
  show "by_calls e 4 ctx (opentherm_read_errors e ctx)"
    unfolding opentherm_read_errors_def Let_def by (intro on_read_chain z) simp_all
  show "by_calls e 3 ctx (opentherm_read_cfg_data e ctx)"
    unfolding opentherm_read_cfg_data_def by (intro on_read_chain z) simp_all
  show "by_calls e 8 ctx (opentherm_read_statistics e ctx)"
    unfolding opentherm_read_statistics_def Let_def by (intro on_read_chain z) simp_all
  show "by_calls e 3 ctx (snd (opentherm_read_static_data e ctx))"
    unfolding opentherm_read_static_data_def Let_def snd_conv by (intro on_read_chain z) simp_all
qed

lemma status_calls: "by_calls e 1 ctx (snd (opentherm_exchange_status e ctx))"
proof -
  obtain ret r c where s: "read_id e DATA_ID_STATUS (Some (status_request (ot_status ctx))) (0, ctx) = (ret, r, c)" by (rule prod_cases3)
  have "ot_dev (snd (opentherm_exchange_status e ctx)) = ot_dev c"
    by (simp add: opentherm_exchange_status_def s Let_def)
  then show ?thesis using read_id_calls [of e "(0, ctx)" DATA_ID_STATUS "Some (status_request (ot_status ctx))"] s by (simp add: by_calls_def)
qed

lemma sync_calls: "by_calls e 1 ctx (snd (opentherm_sync_param_f e cmd g u ctx))"
proof (cases "f32_ne (g (param_desired ctx)) (g (param_actual ctx))")
  case True
  then show ?thesis unfolding by_calls_def
    by (intro exI [of _ "[Ot_call True cmd (Some (bits_of_f32 (g (param_desired ctx)))) (Some 0)]"])
      (auto simp: opentherm_sync_param_f_def case_prod_beta Let_def)
qed (simp add: opentherm_sync_param_f_def by_calls_same)

lemma round_calls: "by_calls e 12 ctx (ot_round e now ctx)"
proof -
  define c1 where "c1 = snd (opentherm_exchange_status e ctx)"
  define c2 where "c2 = snd (opentherm_sync_param_f e DATA_ID_MAXTSET ch_max ch_max_update c1)"
  define c3 where "c3 = snd (opentherm_sync_param_f e DATA_ID_TDHWSET dhw_temperature_setpoint dhw_temperature_setpoint_update c2)"
  define c4 where "c4 = snd (opentherm_sync_param_f e DATA_ID_TSET ch_temperature_setpoint ch_temperature_setpoint_update c3)"
  have "by_calls e 2 ctx c2" unfolding c2_def c1_def by (rule by_calls_trans [OF status_calls sync_calls]) simp
  then have "by_calls e 3 ctx c3" unfolding c3_def by (rule by_calls_trans [OF _ sync_calls]) simp
  then have c4: "by_calls e 4 ctx c4" unfolding c4_def by (rule by_calls_trans [OF _ sync_calls]) simp
  have s: "opentherm_sync_params e c1 = c4" by (simp add: opentherm_sync_params_def Let_def c2_def c3_def c4_def)
  have stamp: "by_calls e 8 c4 c5 \<Longrightarrow> ot_dev c6 = ot_dev c5 \<Longrightarrow> by_calls e 12 ctx c6" for c5 c6
    using by_calls_trans [OF c4, of 8 c5 12] by (simp add: by_calls_def)
  show ?thesis
    unfolding ot_round_def c1_def [symmetric] Let_def s
    using stamp [OF by_calls_mono [OF reads_calls(3) [of e c4]]] stamp [OF by_calls_mono [OF reads_calls(2) [of e c4]]]
      stamp [OF reads_calls(4) [of e c4]] stamp [OF reads_calls(1) [of e c4]]
    by simp
qed

text \<open>
  C15.  A run is bounded: with a device attached a call of the run function makes at most 12 calls of
  the table and changes the line and the table by nothing else.  It sends at most 24 frames, each
  the Manchester code of a read or a write of one of the 128 commands with an even parity.
\<close>

lemma opentherm_run_bounded:
  assumes "ot_attached (ot_pio ctx)"
  shows "\<exists>ctx' cs fs. opentherm_dev_run e now ctx = Some ctx' \<and> length cs \<le> 12 \<and> ot_dev ctx' = ot_calls e cs (ot_dev ctx) \<and>
    ot_sent (ot_pio ctx') = ot_sent (ot_pio ctx) @ fs \<and> length fs \<le> 24 \<and> list_all is_request fs"
proof -
  have f: "ot_find e now ctx = Some (True, ctx)" using assms by (simp add: ot_find_def opentherm_dev_pio_attached_def)
  obtain b c3 where st: "opentherm_read_static_data e ctx = (b, c3)" by fastforce
  have s3: "by_calls e 12 ctx c3" using by_calls_mono [OF reads_calls(5) [of e ctx]] st by simp
  obtain ctx' where r: "opentherm_dev_run e now ctx = Some ctx'" "by_calls e 12 ctx ctx'"
    using s3 round_calls [of e ctx now] by_calls_same [of ctx ctx e 12]
    by (cases "cmd_static ctx"; cases "ot_last_send ctx \<noteq> 0 \<and> now - ot_last_send ctx < CMD_SEND_INTERVAL_MS")
      (auto simp: opentherm_dev_run_def f st Let_def by_calls_def)
  obtain cs where cs: "length cs \<le> 12" "ot_dev ctx' = ot_calls e cs (ot_dev ctx)" using r(2) by (auto simp: by_calls_def)
  obtain fs where "ot_sent (ot_pio ctx') = ot_sent (ot_pio ctx) @ fs" "length fs \<le> 2 * length cs" "list_all is_request fs"
    using calls_sent [of e cs "ot_dev ctx"] cs(2) by (auto simp: ot_pio_def)
  then show ?thesis using r(1) cs by (intro exI [of _ ctx'] exI [of _ cs] exI [of _ fs]) auto
qed

section \<open>Commands the device does not know\<close>

text \<open>How often, over calls, the line answered that it does not know the command \<open>i\<close>.\<close>

definition call_id :: "ot_call \<Rightarrow> nat" where
  "call_id c = (case c of Ot_call _ i _ _ \<Rightarrow> i)"

fun refusals :: "ot_env \<Rightarrow> nat \<Rightarrow> ot_call list \<Rightarrow> ot_dev \<Rightarrow> nat" where
  "refusals e i [] dev = 0"
| "refusals e i (c # cs) dev =
     (if call_id c = i \<and> ot_answer e c dev = Some CMD_RESPONSE_UNKNOWN then 1 else 0) + refusals e i cs (snd (snd (ot_call_do e c dev)))"

lemma call_table:
  assumes "length (fst dev) = DATA_ID_CMD_MAX" and "i < DATA_ID_CMD_MAX"
  shows "length (fst (snd (snd (ot_call_do e c dev)))) = DATA_ID_CMD_MAX \<and>
    oc_supported (fst (snd (snd (ot_call_do e c dev))) ! i) =
      oc_supported (fst dev ! i) - (if call_id c = i \<and> ot_answer e c dev = Some CMD_RESPONSE_UNKNOWN then 1 else 0)"
proof -
  obtain w j out inn where c: "c = Ot_call w j out inn" by (cases c)
  obtain cs pio where d: "dev = (cs, pio)" by fastforce
  show ?thesis
    using assms unfolding c d call_effect
    by (cases "ot_answer e (Ot_call w j out inn) (cs, pio)")
      (auto simp: ot_supported_dec_def call_id_def nth_list_update simp del: ot_answer.simps)
qed

lemma calls_supported:
  assumes "length (fst dev) = DATA_ID_CMD_MAX" and "i < DATA_ID_CMD_MAX" and "0 \<le> oc_supported (fst dev ! i)"
  shows "length (fst (ot_calls e cs dev)) = DATA_ID_CMD_MAX \<and> 0 \<le> oc_supported (fst (ot_calls e cs dev) ! i) \<and>
    int (refusals e i cs dev) = oc_supported (fst dev ! i) - oc_supported (fst (ot_calls e cs dev) ! i)"
  using assms
proof (induction cs arbitrary: dev)
  case (Cons c cs)
  note t = call_table [OF Cons.prems(1,2), of e c]
  have "0 \<le> oc_supported (fst (snd (snd (ot_call_do e c dev))) ! i)"
  proof (cases "call_id c = i \<and> ot_answer e c dev = Some CMD_RESPONSE_UNKNOWN")
    case True
    then have "oc_supported (fst dev ! i) \<noteq> 0" by (cases c; cases dev) (auto simp: call_id_def split: if_splits)
    then have "1 \<le> oc_supported (fst dev ! i)" using Cons.prems(3) by linarith
    then show ?thesis using t True by simp
  next
    case False
    then show ?thesis using t Cons.prems(3) by auto
  qed
  then show ?case using Cons.IH [of "snd (snd (ot_call_do e c dev))"] t Cons.prems(2) by auto
qed simp

definition ot_row :: "nat \<times> bool \<times> bool \<times> ot_func \<times> val_limits \<Rightarrow> ot_command" where
  "ot_row r = (case r of (_, rd, wr, fn, lm) \<Rightarrow>
     \<lparr>can_read = rd, can_write = wr, oc_supported = CMD_SUPPORTED_RETRIES, oc_limits = lm, oc_func = Some fn\<rparr>)"

lemma commands_init_eq: "commands_init cs = fold (\<lambda>r cs. cs[fst r := ot_row r]) ot_rows cs"
  by (simp add: commands_init_def ot_row_def split_def)

lemma length_rows: "length (fold (\<lambda>r cs. cs[fst r := ot_row r]) rows cs) = length cs"
  by (induction rows arbitrary: cs) simp_all

lemma length_commands_init [simp]: "length (commands_init cs) = length cs"
  by (simp add: commands_init_eq length_rows)

lemma ot_row_supported: "oc_supported (ot_row r) = CMD_SUPPORTED_RETRIES"
  by (simp add: ot_row_def split_def)

lemma rows_supported:
  "i \<in> fst ` set rows \<or> oc_supported (cs ! i) = CMD_SUPPORTED_RETRIES \<Longrightarrow> i < length cs \<Longrightarrow>
    oc_supported (fold (\<lambda>r cs. cs[fst r := ot_row r]) rows cs ! i) = CMD_SUPPORTED_RETRIES"
proof (induction rows arbitrary: cs)
  case (Cons r rows)
  have "i \<in> fst ` set rows \<or> oc_supported (cs[fst r := ot_row r] ! i) = CMD_SUPPORTED_RETRIES"
    using Cons.prems by (cases "fst r = i") (auto simp: ot_row_supported)
  then show ?case using Cons.IH [of "cs[fst r := ot_row r]"] Cons.prems by simp
qed simp

lemma rows_in_table: "list_all (\<lambda>i. i < DATA_ID_CMD_MAX) (map fst ot_rows)"
  by code_simp

lemma commands_init_supported:
  assumes "length cs = DATA_ID_CMD_MAX" and "i \<in> set (map fst ot_rows)"
  shows "oc_supported (commands_init cs ! i) = CMD_SUPPORTED_RETRIES"
  using assms rows_in_table unfolding commands_init_eq by (intro rows_supported) (auto simp: list_all_iff)

text \<open>
  C16.  A command the device does not know is given up by the command table: over any sequence of reads
  and writes of the table (\<open>opentherm_cmd_read\<close>, \<open>opentherm_cmd_write\<close>) after its initialisation
  the device says at most ten times that it does not know a command of the table, and after the
  tenth time no such read or write of this command puts a frame on the line or changes anything.
  Outside are the raw read and write commands and the scan of all identifiers, which do not ask the
  table, and an attach, which initialises it again.
\<close>

lemma opentherm_unknown_given_up:
  assumes "length cmds = DATA_ID_CMD_MAX" and "i \<in> set (map fst ot_rows)"
    and "dev = ot_calls e cs (commands_init cmds, pio)"
  shows "refusals e i cs (commands_init cmds, pio) \<le> 10 \<and>
    (refusals e i cs (commands_init cmds, pio) = 10 \<longrightarrow> ot_call_do e (Ot_call w i out inn) dev = (-1, inn, dev))"
proof -
  have i: "i < DATA_ID_CMD_MAX" using assms(2) rows_in_table by (auto simp: list_all_iff)
  have "0 \<le> oc_supported (fst dev ! i) \<and> int (refusals e i cs (commands_init cmds, pio)) = 10 - oc_supported (fst dev ! i)"
    using calls_supported [of "(commands_init cmds, pio)" i e cs] commands_init_supported [OF assms(1,2)] assms(1,3) i
    by (simp add: CMD_SUPPORTED_RETRIES_def)
  then show ?thesis using i by (cases dev) (auto simp: ot_cmd_read_def ot_cmd_write_def)
qed

section \<open>Parameters are settled\<close>

lemma f32_rep_fixed: "\<bar>k\<bar> \<le> 2 ^ 24 \<Longrightarrow> f32_rep (of_int k / 256)"
proof -
  assume k: "\<bar>k\<bar> \<le> 2 ^ 24"
  have p: "pow2 (- 8) = 1 / 256" by (simp add: pow2_def power_int_def field_simps)
  have "(of_int \<bar>k\<bar> :: rat) \<le> of_int (2 ^ 24)" using k by (rule of_int_le_iff [THEN iffD2])
  then have "\<bar>of_int k / 256 :: rat\<bar> \<le> 2 ^ 24" by simp
  moreover have "(2 :: rat) ^ 24 < pow2 128" by (simp add: pow2_nat)
  ultimately show ?thesis unfolding f32_rep_def using k p
    by (intro conjI exI [of _ k] exI [of _ "- 8"]) auto
qed

lemma f32_rep_times256:
  assumes "f32_rep x" and "\<bar>x\<bar> \<le> 128"
  shows "f32_rep (256 * x)"
proof -
  obtain k q where k: "x = of_int k * pow2 q" "\<bar>k\<bar> \<le> 2 ^ 24" "- 149 \<le> q" using assms(1) by (auto simp: f32_rep_def)
  have "256 * x = of_int k * pow2 (q + 8)" by (simp add: k(1) pow2_add pow2_nat)
  moreover have "\<bar>256 * x\<bar> \<le> 2 ^ 24" using assms(2) by (simp add: abs_mult)
  moreover have "(2 :: rat) ^ 24 < pow2 128" by (simp add: pow2_nat)
  ultimately show ?thesis unfolding f32_rep_def using k
    by (intro conjI exI [of _ k] exI [of _ "q + 8"]) auto
qed

lemma float_sent:
  assumes "f32_rep x" and "0 \<le> x" and "x < 128"
  shows "ot_float_send (Fin x) = word_of_int \<lfloor>256 * x\<rfloor>" and "0 \<le> \<lfloor>256 * x\<rfloor>" and "\<lfloor>256 * x\<rfloor> < 32768"
proof -
  have "f32_rnd (256 * x) = Fin (256 * x)" using assms by (intro f32_rnd_rep f32_rep_times256) auto
  then show "ot_float_send (Fin x) = word_of_int \<lfloor>256 * x\<rfloor>"
    using assms(2) by (simp add: ot_float_send_def f32_int_def trunc_rat_def)
  show "0 \<le> \<lfloor>256 * x\<rfloor>" "\<lfloor>256 * x\<rfloor> < 32768" using assms(2,3) by (simp_all add: floor_less_iff)
qed

lemma bit_32768: "bit (32768 :: int) n \<longleftrightarrow> n = 15"
proof -
  have "bit (2 ^ 15 :: int) n \<longleftrightarrow> n = 15" unfolding bit_exp_iff by auto
  then show ?thesis by simp
qed

lemma float_received:
  assumes "0 \<le> k" "k < 32768"
  shows "f32_of_bits (ot_receive Cmd_float (word_of_int k) d) = Fin (of_int k / 256)"
proof -
  have s: "(word_of_int k XOR 0x8000 :: u16) - 0x8000 = word_of_int k"
  proof -
    have "(word_of_int k XOR 0x8000 :: u16) = word_of_int k OR 0x8000"
      using small_bit [of k 15] assms
      by (intro bit_word_eqI) (auto simp: bit_simps bit_32768)
    also have "\<dots> = word_of_int k + 0x8000"
      using small_bit [of k 15] assms
      by (intro disjunctive_add [symmetric]) (auto simp: bit_simps bit_32768)
    finally show ?thesis by simp
  qed
  have "sint (word_of_int k :: u16) = k"
    using assms unfolding sint_sbintrunc' by (intro signed_take_bit_int_eq_self) simp_all
  moreover have "f32_rep (of_int k / 256)" using assms by (intro f32_rep_fixed) simp
  ultimately show ?thesis using s by (simp add: ot_receive_def f32_rnd_rep f32_bits_value)
qed

lemma sync_echo:
  assumes d: "get (param_desired ctx) = Fin x" "f32_rep x" "0 \<le> x" "x < 128"
    and ne: "f32_ne (Fin x) (get (param_actual ctx))"
    and c: "cmd < DATA_ID_CMD_MAX" "can_write (fst (ot_dev ctx) ! cmd)" "oc_supported (fst (ot_dev ctx) ! cmd) \<noteq> 0"
      "oc_func (fst (ot_dev ctx) ! cmd) = Some Cmd_float"
    and echo: "opentherm_dev_write e cmd (word_of_int \<lfloor>256 * x\<rfloor>) (ot_pio ctx) = ((CMD_RESPONSE_OK, Some (word_of_int \<lfloor>256 * x\<rfloor>)), pio)"
  shows "opentherm_sync_param_f e cmd get upd ctx =
    (0, ctx\<lparr>ot_dev := (fst (ot_dev ctx), pio), param_actual := upd (\<lambda>_. Fin (of_int \<lfloor>256 * x\<rfloor> / 256)) (param_actual ctx)\<rparr>)"
proof -
  obtain cs p where dev: "ot_dev ctx = (cs, p)" by fastforce
  have s: "ot_send Cmd_float (Some (bits_of_f32 (Fin x))) = word_of_int \<lfloor>256 * x\<rfloor>"
    using float_sent(1) [OF d(2-4)] by (simp add: ot_send_def od_f_def f32_bits_value [OF d(2)])
  have r: "od_f (ot_receive Cmd_float (word_of_int \<lfloor>256 * x\<rfloor>) 0) = Fin (of_int \<lfloor>256 * x\<rfloor> / 256)"
    using float_received [OF float_sent(2,3) [OF d(2-4)]] by (simp add: od_f_def)
  have "ot_cmd_func e Cmd_float True cmd (Some (bits_of_f32 (Fin x))) (Some 0) p =
      (CMD_RESPONSE_OK, Some (ot_receive Cmd_float (word_of_int \<lfloor>256 * x\<rfloor>) 0), pio)"
    using echo by (simp add: ot_cmd_func_def dev_rw_def s ot_pio_def dev)
  then have "ot_cmd_write e cmd (Some (bits_of_f32 (Fin x))) (Some 0) (ot_dev ctx) =
      (0, Some (ot_receive Cmd_float (word_of_int \<lfloor>256 * x\<rfloor>) 0), cs, pio)"
    using c by (simp add: ot_cmd_write_def dev ot_supported_dec_def)
  then show ?thesis using d(1) ne r by (simp add: opentherm_sync_param_f_def dev)
qed

lemma tries_step:
  "exchange_tries e req (Suc k) pio =
     (let p = pio\<lparr>ot_sent := ot_sent pio @ [req_out req]\<rparr> in
      case fst (opentherm_exchange_run e req pio) of
        Some r \<Rightarrow> (Some r, p\<lparr>last_valid := ot_now e 0 p\<rparr>)
      | None \<Rightarrow> exchange_tries e req k p)"
  using run_sent [of e req pio]
  by (cases "opentherm_exchange_run e req pio") (auto simp: Let_def split: option.split)

lemma tries_attached: "ot_attached (snd (exchange_tries e req k pio)) = ot_attached pio"
  by (induction k arbitrary: pio) (simp_all add: tries_step Let_def del: exchange_tries.simps(2) split: option.split)

lemma write_ok_attached: "opentherm_dev_write e cmd v p = ((CMD_RESPONSE_OK, x), pio) \<Longrightarrow> ot_attached pio"
  using tries_attached [of e "\<lparr>msg_type = MSG_TYPE_WRITE_DATA, msg_id = of_nat cmd, msg_value = v\<rparr>" OT_MAX_RETRIES p]
  by (auto simp: opentherm_dev_write_def opentherm_dev_pio_exchange_def ot_response_def split: if_splits prod.splits option.splits)

lemma exchange_sends:
  assumes "ot_attached pio"
  shows "length (ot_sent pio) < length (ot_sent (snd (opentherm_dev_pio_exchange e req pio)))"
proof -
  have m: "length (ot_sent p) \<le> length (ot_sent (snd (exchange_tries e req k p)))" for k p
  proof (induction k arbitrary: p)
    case (Suc k)
    show ?case using Suc.IH [of "p\<lparr>ot_sent := ot_sent p @ [req_out req]\<rparr>"]
      by (auto simp: tries_step Let_def simp del: exchange_tries.simps(2) split: option.split)
  qed simp
  have "length (ot_sent pio) < length (ot_sent (snd (exchange_tries e req 2 pio)))"
    using m [of "pio\<lparr>ot_sent := ot_sent pio @ [req_out req]\<rparr>" 1]
    by (auto simp: numeral_2_eq_2 tries_step [of e req "Suc 0" pio] Let_def simp del: exchange_tries.simps(2) split: option.split)
  then show ?thesis using assms
    by (auto simp: opentherm_dev_pio_exchange_def OT_MAX_RETRIES_def split: prod.split option.split)
qed

text \<open>
  C24.  A set temperature is written until the device confirms it, and for some values that is for
  ever.  When the desired hot water temperature x in [0, 128) differs from the actual one and the
  device echoes what is written to it, one call notes the multiple of 1/256 at or below x as the
  actual value; the next call does nothing if x is itself a multiple of 1/256, and otherwise it
  puts the same parameter on the line again.
\<close>

lemma opentherm_sync_settles:
  assumes "dhw_temperature_setpoint (param_desired ctx) = Fin x" "f32_rep x" "0 \<le> x" "x < 128"
    and "f32_ne (Fin x) (dhw_temperature_setpoint (param_actual ctx))"
    and "oc_func (fst (ot_dev ctx) ! DATA_ID_TDHWSET) = Some Cmd_float" "can_write (fst (ot_dev ctx) ! DATA_ID_TDHWSET)"
      "oc_supported (fst (ot_dev ctx) ! DATA_ID_TDHWSET) \<noteq> 0"
    and "opentherm_dev_write e DATA_ID_TDHWSET (word_of_int \<lfloor>256 * x\<rfloor>) (ot_pio ctx) =
      ((CMD_RESPONSE_OK, Some (word_of_int \<lfloor>256 * x\<rfloor>)), pio)"
    and "opentherm_sync_param_f e DATA_ID_TDHWSET dhw_temperature_setpoint dhw_temperature_setpoint_update ctx = (r, ctx')"
    and "opentherm_sync_param_f e' DATA_ID_TDHWSET dhw_temperature_setpoint dhw_temperature_setpoint_update ctx' = (r', ctx'')"
  shows "r = 0 \<and> ot_pio ctx' = pio \<and> dhw_temperature_setpoint (param_actual ctx') = Fin (of_int \<lfloor>256 * x\<rfloor> / 256) \<and>
    (if of_int \<lfloor>256 * x\<rfloor> = 256 * x then r' = 0 \<and> ctx'' = ctx'
     else length (ot_sent (ot_pio ctx')) < length (ot_sent (ot_pio ctx'')))"
proof -
  have i: "DATA_ID_TDHWSET < DATA_ID_CMD_MAX" by (simp add: DATA_ID_TDHWSET_def DATA_ID_CMD_MAX_def)
  have c: "r = 0" "ctx' = ctx\<lparr>ot_dev := (fst (ot_dev ctx), pio),
      param_actual := (param_actual ctx)\<lparr>dhw_temperature_setpoint := Fin (of_int \<lfloor>256 * x\<rfloor> / 256)\<rparr>\<rparr>"
    using sync_echo [OF assms(1-5) i assms(7,8,6,9)] assms(10) by simp_all
  show ?thesis
  proof (cases "of_int \<lfloor>256 * x\<rfloor> = 256 * x")
    case True
    then show ?thesis using assms(1,11) by (auto simp: c opentherm_sync_param_f_def ot_pio_def f32_ne_def)
  next
    case False
    define f where "f = opentherm_dev_write e' DATA_ID_TDHWSET (ot_send Cmd_float (Some (bits_of_f32 (Fin x)))) pio"
    have "x \<noteq> of_int \<lfloor>256 * x\<rfloor> / 256" using False by (simp add: field_simps)
    then have "ot_pio ctx'' = snd f" 
      using assms(1,6-8,11) i
      by (auto simp: c opentherm_sync_param_f_def ot_pio_def f32_ne_def ot_cmd_write_def ot_cmd_func_def dev_rw_def f_def
        case_prod_beta Let_def split: if_splits)
    moreover have "length (ot_sent pio) < length (ot_sent (snd f))"
      using exchange_sends [OF write_ok_attached [OF assms(9)]] by (simp add: f_def opentherm_dev_write_def case_prod_beta)
    ultimately show ?thesis using False by (simp add: c ot_pio_def)
  qed
qed

section \<open>Runs with a device\<close>

definition demo_ot :: opentherm where
  "demo_ot = (zero_opentherm 2 3)\<lparr>ot_dev := (commands_init (replicate DATA_ID_CMD_MAX zero_command), demo_pio)\<rparr>"

lemma opentherm_run_bounded_witness:
  "\<exists>ctx' cs fs. opentherm_dev_run (demo_line 40000 60000 0) 5000 demo_ot = Some ctx' \<and> length cs \<le> 12 \<and>
    ot_dev ctx' = ot_calls (demo_line 40000 60000 0) cs (ot_dev demo_ot) \<and>
    ot_sent (ot_pio ctx') = ot_sent (ot_pio demo_ot) @ fs \<and> length fs \<le> 24 \<and> list_all is_request fs"
  by (rule opentherm_run_bounded) (simp add: demo_ot_def demo_pio_def ot_pio_def)

text \<open>Ten times the device does not know the command 25.\<close>

definition demo_unknown :: ot_env where
  "demo_unknown = demo_line 40000 60000 (opentherm_frame_encode MSG_TYPE_UNKNOWN_DATA_ID 25 0)"

abbreviation ask25 :: ot_call where "ask25 \<equiv> Ot_call False 25 None (Some 0)"

lemma unknown_call:
  assumes "ot_attached pio" and "rx_clk pio = 50000" and "can_read (cs ! 25)" and "oc_supported (cs ! 25) \<noteq> 0"
  shows "ot_answer demo_unknown ask25 (cs, pio) = Some CMD_RESPONSE_UNKNOWN \<and>
    (\<exists>pio'. snd (snd (ot_call_do demo_unknown ask25 (cs, pio))) = (ot_supported_dec CMD_RESPONSE_UNKNOWN 25 cs, pio') \<and>
      ot_attached pio' \<and> rx_clk pio' = 50000)"
proof -
  define req where "req = \<lparr>msg_type = MSG_TYPE_READ_DATA, msg_id = (of_nat 25 :: u8), msg_value = ot_send (the (oc_func (cs ! 25))) None\<rparr>"
  have "carries demo_unknown (rx_clk pio) (req_out req) (length (ot_sent pio)) (opentherm_frame_encode MSG_TYPE_UNKNOWN_DATA_ID 25 0)"
    unfolding demo_unknown_def by (rule demo_carries) (simp_all add: assms(2) encode_even)
  note x = exchange_first [OF assms(1) this refl]
  have "dev_rw demo_unknown False 25 (ot_send (the (oc_func (cs ! 25))) None) pio =
      ((CMD_RESPONSE_UNKNOWN, None), snd (opentherm_dev_pio_exchange demo_unknown req pio))"
    unfolding dev_rw_def opentherm_dev_read_def req_def [symmetric] x
    by (simp add: ot_response_def frame_msg_encode MSG_TYPE_UNKNOWN_DATA_ID_def MSG_TYPE_READ_ACK_def MSG_TYPE_DATA_INVALID_def)
  then show ?thesis using assms(3,4) x unfolding call_effect
    by (simp add: DATA_ID_CMD_MAX_def assms(1,2))
qed

lemma unknown_calls:
  assumes "ot_attached pio" and "rx_clk pio = 50000" and "can_read (cs ! 25)" and "oc_supported (cs ! 25) = int n" and "25 < length cs"
  shows "refusals demo_unknown 25 (replicate n ask25) (cs, pio) = n"
  using assms
proof (induction n arbitrary: cs pio)
  case (Suc n)
  have s: "oc_supported (cs ! 25) \<noteq> 0" using Suc.prems(4) by simp
  obtain pio' where u: "ot_answer demo_unknown ask25 (cs, pio) = Some CMD_RESPONSE_UNKNOWN"
    "snd (snd (ot_call_do demo_unknown ask25 (cs, pio))) = (ot_supported_dec CMD_RESPONSE_UNKNOWN 25 cs, pio')"
    "ot_attached pio'" "rx_clk pio' = 50000"
    using unknown_call [OF Suc.prems(1-3) s] by blast
  have "refusals demo_unknown 25 (replicate n ask25) (ot_supported_dec CMD_RESPONSE_UNKNOWN 25 cs, pio') = n"
    using Suc.prems by (intro Suc.IH u) (simp_all add: ot_supported_dec_def)
  then show ?case using u by (simp add: call_id_def del: ot_call_do.simps ot_answer.simps)
qed simp

lemma row25: "can_read (commands_init (replicate DATA_ID_CMD_MAX zero_command) ! 25) \<and> 25 \<in> set (map fst ot_rows)"
  by code_simp

lemma opentherm_unknown_given_up_witness:
  "ot_call_do demo_unknown (Ot_call False 25 None None)
     (ot_calls demo_unknown (replicate 10 ask25) (commands_init (replicate DATA_ID_CMD_MAX zero_command), demo_pio)) =
   (-1, None, ot_calls demo_unknown (replicate 10 ask25) (commands_init (replicate DATA_ID_CMD_MAX zero_command), demo_pio))"
proof -
  define cmds where "cmds = replicate DATA_ID_CMD_MAX zero_command"
  have l: "length cmds = DATA_ID_CMD_MAX" and r: "can_read (commands_init cmds ! 25)" "25 \<in> set (map fst ot_rows)"
    using row25 by (simp_all add: cmds_def)
  have "refusals demo_unknown 25 (replicate 10 ask25) (commands_init cmds, demo_pio) = 10"
    using commands_init_supported [OF l r(2)] r(1)
    by (intro unknown_calls) (simp_all add: demo_pio_def CMD_SUPPORTED_RETRIES_def l DATA_ID_CMD_MAX_def)
  then show ?thesis
    using opentherm_unknown_given_up [OF l r(2) refl, of demo_unknown "replicate 10 ask25" demo_pio] by (simp add: cmds_def)
qed

text \<open>A device that echoes 40 degrees.\<close>

definition demo_echo :: ot_env where
  "demo_echo = demo_line 40000 60000 (opentherm_frame_encode MSG_TYPE_WRITE_ACK 56 0x2800)"

lemma row56: "can_write (fst (ot_dev demo_ot) ! 56) \<and> oc_func (fst (ot_dev demo_ot) ! 56) = Some Cmd_float \<and>
    oc_supported (fst (ot_dev demo_ot) ! 56) = 10"
  by code_simp

lemma echo_write: "\<exists>pio. opentherm_dev_write demo_echo DATA_ID_TDHWSET 0x2800 demo_pio = ((CMD_RESPONSE_OK, Some 0x2800), pio)"
proof -
  define req where "req = \<lparr>msg_type = MSG_TYPE_WRITE_DATA, msg_id = (of_nat DATA_ID_TDHWSET :: u8), msg_value = (0x2800 :: u16)\<rparr>"
  have "carries demo_echo (rx_clk demo_pio) (req_out req) (length (ot_sent demo_pio)) (opentherm_frame_encode MSG_TYPE_WRITE_ACK 56 0x2800)"
    unfolding demo_echo_def by (rule demo_carries) (simp_all add: demo_pio_def encode_even)
  from exchange_first [OF _ this refl] show ?thesis
    unfolding opentherm_dev_write_def req_def [symmetric]
    by (simp add: ot_response_def frame_msg_encode MSG_TYPE_WRITE_ACK_def demo_pio_def DATA_ID_TDHWSET_def)
qed

abbreviation sync_dhw :: "ot_env \<Rightarrow> opentherm \<Rightarrow> int \<times> opentherm" where
  "sync_dhw e \<equiv> opentherm_sync_param_f e DATA_ID_TDHWSET dhw_temperature_setpoint dhw_temperature_setpoint_update"

lemma opentherm_sync_settles_witness:
  "\<exists>ctx ctx'. sync_dhw demo_echo ctx = (0, ctx') \<and> ctx' \<noteq> ctx \<and> sync_dhw demo_echo ctx' = (0, ctx')"
proof -
  define ctx where "ctx = demo_ot\<lparr>param_desired := (param_desired demo_ot)\<lparr>dhw_temperature_setpoint := Fin 40\<rparr>\<rparr>"
  obtain pio where p: "opentherm_dev_write demo_echo DATA_ID_TDHWSET 0x2800 demo_pio = ((CMD_RESPONSE_OK, Some 0x2800), pio)"
    using echo_write by blast
  obtain r ctx' where s: "sync_dhw demo_echo ctx = (r, ctx')" by fastforce
  obtain r' ctx'' where s': "sync_dhw demo_echo ctx' = (r', ctx'')" by fastforce
  have d: "dhw_temperature_setpoint (param_desired ctx) = Fin 40" and a: "dhw_temperature_setpoint (param_actual ctx) = Fin 0"
    by (simp_all add: ctx_def demo_ot_def zero_opentherm_def zero_params_def)
  have dev: "ot_dev ctx = ot_dev demo_ot" "ot_pio ctx = demo_pio" by (simp_all add: ctx_def ot_pio_def demo_ot_def)
  have "f32_rep 40" using f32_rep_int [of 40] by simp
  then have r: "r = 0 \<and> ot_pio ctx' = pio \<and> dhw_temperature_setpoint (param_actual ctx') = Fin 40 \<and> r' = 0 \<and> ctx'' = ctx'"
    using opentherm_sync_settles [OF d _ _ _ _ _ _ _ _ s s', of pio] row56 a p
    by (simp add: dev f32_ne_def DATA_ID_TDHWSET_def)
  moreover have "ctx' \<noteq> ctx" using r a by auto
  ultimately show ?thesis using s s' by auto
qed

end
