(* ===== verification/OtModule.thy ===== *)
theory OtModule
  imports OtRun SysModules SysTime
begin

text \<open>
  The OpenTherm module: the commands of the user (\<open>opentherm_cmd.c\<close>), the reports over MQTT
  (\<open>opentherm_mqtt.c\<close>), and the configuration and the run function (\<open>opentherm.c\<close>).
\<close>

section \<open>Commands\<close>

text \<open>None: the parameters are refused; the second of the pair is NULL when it is not there.\<close>

definition cmd_get_param_str :: "string option \<Rightarrow> (string \<times> string option) option" where
  "cmd_get_param_str params =
     (case params of None \<Rightarrow> None
      | Some s \<Rightarrow>
          if s = [] \<or> hd s \<noteq> CHR '':'' \<or> length s < 2 then None
          else case strtok_r (CHR '':'') (Some (tl s)) of
            (None, _) \<Rightarrow> None
          | (Some tok, rest) \<Rightarrow> Some (tok, fst (strtok_r (CHR '':'') rest)))"

text \<open>The two numbers; a missing second one leaves 0.\<close>

definition cmd_get_param :: "string option \<Rightarrow> (int \<times> int) option" where
  "cmd_get_param params =
     map_option (\<lambda>(p1, p2). (strtol_val 0 p1, case p2 of None \<Rightarrow> 0 | Some s \<Rightarrow> strtol_val 0 s)) (cmd_get_param_str params)"

definition cmd_send :: "ot_env \<Rightarrow> bool \<Rightarrow> string option \<Rightarrow> opentherm \<Rightarrow> int \<times> opentherm" where
  "cmd_send e rd params ctx =
     (case cmd_get_param params of
        None \<Rightarrow> (-1, ctx)
      | Some (i, data) \<Rightarrow>
          if i < 0 \<or> i \<ge> int DATA_ID_CMD_MAX then (-1, ctx)
          else (0, ctx\<lparr>ot_dev := (fst (ot_dev ctx), snd (dev_rw e (\<not> rd) (nat i) (word_of_int data) (ot_pio ctx)))\<rparr>))"

definition cmd_read :: "ot_env \<Rightarrow> string option \<Rightarrow> opentherm \<Rightarrow> int \<times> opentherm" where "cmd_read e = cmd_send e True"
definition cmd_write :: "ot_env \<Rightarrow> string option \<Rightarrow> opentherm \<Rightarrow> int \<times> opentherm" where "cmd_write e = cmd_send e False"

definition cmd_set_status :: "bool \<Rightarrow> string option \<Rightarrow> opentherm \<Rightarrow> int \<times> opentherm" where
  "cmd_set_status ch_stat params ctx =
     (case cmd_get_param_str params of
        None \<Rightarrow> (-1, ctx)
      | Some (val, _) \<Rightarrow>
          (let on = (strtol_val 10 val \<noteq> 0) in
           (0, ctx\<lparr>ot_status := (if ch_stat then (ot_status ctx)\<lparr>ch_enabled := on\<rparr> else (ot_status ctx)\<lparr>dhw_enabled := on\<rparr>)\<rparr>)))"

definition f32_clamp :: "f32 \<Rightarrow> f32 \<Rightarrow> f32 \<Rightarrow> f32" where
  "f32_clamp mi ma f = (if f32_lt ma f then ma else if f32_lt f mi then mi else f)"

definition cmd_set_param_float :: "string option \<Rightarrow> nat \<Rightarrow> opentherm \<Rightarrow> int \<times> opentherm" where
  "cmd_set_param_float params i ctx =
     (case cmd_get_param_str params of
        None \<Rightarrow> (-1, ctx)
      | Some (val, _) \<Rightarrow>
          (case sys_strtof (Some val) of
             None \<Rightarrow> (-1, ctx)
           | Some f \<Rightarrow>
               if f32_lt f (Fin 0) \<or> f32_lt (Fin 100) f then (-1, ctx)
               else
                 (let c = ot_dev_config ctx; p = param_desired ctx in
                  if i = DATA_ID_TSET then
                    (0, ctx\<lparr>param_desired := p\<lparr>ch_temperature_setpoint := f32_clamp (ch_rangemin c) (ch_rangemax c) f\<rparr>\<rparr>)
                  else if i = DATA_ID_TDHWSET then
                    (0, ctx\<lparr>param_desired := p\<lparr>dhw_temperature_setpoint := f32_clamp (dhw_rangemin c) (dhw_rangemax c) f\<rparr>\<rparr>)
                  else (-1, ctx))))"

definition cmd_set_dwh :: "string option \<Rightarrow> opentherm \<Rightarrow> int \<times> opentherm" where "cmd_set_dwh = cmd_set_status False"
definition cmd_set_dwh_temp :: "string option \<Rightarrow> opentherm \<Rightarrow> int \<times> opentherm" where
  "cmd_set_dwh_temp params = cmd_set_param_float params DATA_ID_TDHWSET"
definition cmd_set_ch :: "string option \<Rightarrow> opentherm \<Rightarrow> int \<times> opentherm" where "cmd_set_ch = cmd_set_status True"
definition cmd_set_ch_temp :: "string option \<Rightarrow> opentherm \<Rightarrow> int \<times> opentherm" where
  "cmd_set_ch_temp params = cmd_set_param_float params DATA_ID_TSET"
definition cmd_scan_all :: "ot_env \<Rightarrow> opentherm \<Rightarrow> int \<times> opentherm" where
  "cmd_scan_all e ctx = (0, opentherm_dev_scan_all e ctx)"
definition oth_statistics_reset :: "ot_env \<Rightarrow> opentherm \<Rightarrow> int \<times> opentherm" where
  "oth_statistics_reset e ctx = (0, opentherm_reset_statistics e ctx)"

text \<open>The table of the commands: name, help, function.\<close>

definition opentherm_user_commands ::
  "(string \<times> string option \<times> (ot_env \<Rightarrow> string option \<Rightarrow> opentherm \<Rightarrow> int \<times> opentherm)) list" where
  "opentherm_user_commands =
     [(''read'', Some '':<opentherm_cmd_id>:<value>'', cmd_read), (''write'', Some '':<opentherm_cmd_id>:<value>'', cmd_write),
      (''dhw'', Some '':<0/1>'', \<lambda>_. cmd_set_dwh), (''dhw_temp'', Some '':<0..100>*C'', \<lambda>_. cmd_set_dwh_temp),
      (''ch'', Some '':<0/1>'', \<lambda>_. cmd_set_ch), (''ch_temp'', Some '':<0..100>*C'', \<lambda>_. cmd_set_ch_temp),
      (''scan'', None, \<lambda>e _. cmd_scan_all e), (''stat_reset'', None, \<lambda>e _. oth_statistics_reset e)]"

section \<open>Reports\<close>

definition OTH_MQTT_DATA_LEN :: nat where "OTH_MQTT_DATA_LEN = 512"
definition OT_MQTT_SEND_INTERVAL_MS :: u64 where "OT_MQTT_SEND_INTERVAL_MS = 10000"
definition OT_MQTT_SEND_DATA :: nat where "OT_MQTT_SEND_DATA = 0"
definition OT_MQTT_SEND_STATS :: nat where "OT_MQTT_SEND_STATS = 1"
definition OT_MQTT_SEND_ERR :: nat where "OT_MQTT_SEND_ERR = 2"
definition OT_MQTT_SEND_MAX :: nat where "OT_MQTT_SEND_MAX = 3"

text \<open>The three components with a name of their own.\<close>

record opentherm_mqtt =
  oq_data :: mqtt_component
  oq_errors :: mqtt_component
  oq_stats :: mqtt_component
  oq_send_id :: nat
  oq_last_send :: u64

record opentherm_context =
  ot_log_mask :: u32
  ot_ctx :: opentherm
  ot_mqtt :: opentherm_mqtt

text \<open>\<open>%3.6f\<close> and \<open>%2d\<close>.\<close>

definition fmt_6f :: "f32 \<Rightarrow> string" where
  "fmt_6f x =
     (case x of PInf \<Rightarrow> ''inf'' | NInf \<Rightarrow> ''-inf'' | NaN \<Rightarrow> ''nan''
      | Fin v \<Rightarrow>
          (let c = nat (rhe (1000000 * \<bar>v\<bar>)); f = nat_str (c mod 1000000)
           in (if v < 0 then ''-'' else []) @ nat_str (c div 1000000) @ ''.'' @ replicate (6 - length f) (CHR ''0'') @ f))"

definition fmt_2d :: "int \<Rightarrow> string" where
  "fmt_2d i = (let s = int_str i in replicate (2 - length s) (CHR '' '') @ s)"

definition ot_fld :: "string \<Rightarrow> string \<Rightarrow> string" where
  "ot_fld key v = '',\"'' @ key @ ''\":'' @ v"

definition ot_head :: "string \<Rightarrow> string list" where
  "ot_head time = [''{'', ''\"time\":\"'' @ time @ ''\"'']"

definition bit_str :: "bool \<Rightarrow> string" where "bit_str b = (if b then ''1'' else ''0'')"

definition data_parts1 :: "string \<Rightarrow> opentherm \<Rightarrow> string list" where
  "data_parts1 time ctx =
     (let d = ot_data ctx; s = ot_status ctx in
      ot_head time @
      [ot_fld ''ch_set'' (fmt_2f (ch_temperature_setpoint (param_actual ctx))),
       ot_fld ''dhw_set'' (fmt_2f (dhw_temperature_setpoint (param_actual ctx))),
       ot_fld ''ch'' (bit_str (ch_active s)), ot_fld ''dhw'' (bit_str (dhw_active s)),
       ot_fld ''ch_enabled'' (bit_str (ch_enabled s)), ot_fld ''dhw_enabled'' (bit_str (dhw_enabled s)),
       ot_fld ''flame'' (bit_str (flame_active s)), ot_fld ''flow_temp'' (fmt_2f (flow_temperature d)),
       ot_fld ''ret_temp'' (fmt_2f (return_temperature d)), ot_fld ''exh_temp'' (int_str (exhaust_temperature d)),
       ot_fld ''dhw_temp'' (fmt_2f (dhw_temperature d)), ot_fld ''ch_press'' (fmt_2f (ch_pressure d)),
       ot_fld ''mdl_level'' (fmt_2f (modulation_level d)),
       ot_fld ''gas_flow'' (fmt_6f (f32_mul (f32_mul (gas_flow d) (Fin 60)) (Fin 60)))])"

definition data_parts2 :: "opentherm \<Rightarrow> string list" where
  "data_parts2 ctx =
     (let c = ot_dev_config ctx in
      [ot_fld ''flame_ua'' (fmt_2f (flame_current (ot_data ctx))), ot_fld ''ch_max'' (int_str (uint (ch_max_cfg c))),
       ot_fld ''ch_min'' (int_str (uint (ch_min_cfg c))), ot_fld ''dhw_max'' (int_str (uint (dhw_max_cfg c))),
       ot_fld ''dhw_min'' (int_str (uint (dhw_min_cfg c))), ''}''])"

text \<open>The payload as printed, then its publication; \<open>t\<close> is the reading of the clock in the middle.\<close>

definition ot_publish ::
  "lwip \<Rightarrow> string \<Rightarrow> (opentherm_mqtt \<Rightarrow> mqtt_component) \<Rightarrow> ((mqtt_component \<Rightarrow> mqtt_component) \<Rightarrow> opentherm_mqtt \<Rightarrow> opentherm_mqtt)
   \<Rightarrow> (opentherm \<Rightarrow> opentherm) \<Rightarrow> opentherm_context \<times> 'h mqtt_context option \<Rightarrow> int \<times> opentherm_context \<times> 'h mqtt_context option" where
  "ot_publish e pl get upd clear st =
     (let (ctx, c) = st; (ret, cmp, c) = mqtt_msg_component_publish e (get (ot_mqtt ctx)) pl c
      in (ret, ctx\<lparr>ot_mqtt := upd (\<lambda>_. cmp) (ot_mqtt ctx), ot_ctx := clear (ot_ctx ctx)\<rparr>, c))"

definition ot_mqtt_data_send ::
  "lwip \<Rightarrow> string \<Rightarrow> u64 \<Rightarrow> opentherm_context \<times> 'h mqtt_context option \<Rightarrow> int \<times> opentherm_context \<times> 'h mqtt_context option" where
  "ot_mqtt_data_send e time t st =
     (let (ctx, c) = st; d = ot_ctx ctx in
      case add_msgs OTH_MQTT_DATA_LEN (data_parts1 time d) ([], 0) of
        None \<Rightarrow> (-1, st)
      | Some b \<Rightarrow>
          (case (if gas_send d then add_msgs OTH_MQTT_DATA_LEN [ot_fld ''gas_total'' (fmt_6f (gas_total d))] b else Some b) of
             None \<Rightarrow> (-1, st)
           | Some b \<Rightarrow>
               (let d = (if gas_send d then d\<lparr>gas_send := False, gas_total := Fin 0, gas_reset := t\<rparr> else d); ctx = ctx\<lparr>ot_ctx := d\<rparr> in
                case add_msgs OTH_MQTT_DATA_LEN (data_parts2 d) b of
                  None \<Rightarrow> (-1, ctx, c)
                | Some (pl, _) \<Rightarrow>
                    ot_publish e pl oq_data oq_data_update
                      (\<lambda>d. d\<lparr>ot_data := (ot_data d)\<lparr>om_force := False\<rparr>, ot_status := (ot_status d)\<lparr>st_force := False\<rparr>,
                         ot_dev_config := (ot_dev_config d)\<lparr>oc_force := False\<rparr>\<rparr>) (ctx, c))))"

definition errors_parts :: "string \<Rightarrow> opentherm \<Rightarrow> string list" where
  "errors_parts time ctx =
     (let d = ot_errors ctx in
      ot_head time @
      [ot_fld ''diag'' (bit_str (diagnostic_event d)), ot_fld ''service'' (bit_str (fault_svc_needed d)),
       ot_fld ''fault'' (bit_str (fault_active d)), ot_fld ''fault_lwp'' (bit_str (fault_low_water_pressure d)),
       ot_fld ''fault_fl'' (bit_str (fault_flame d)), ot_fld ''fault_lap'' (bit_str (fault_low_air_pressure d)),
       ot_fld ''fault_hwt'' (bit_str (fault_high_water_temperature d)), ot_fld ''fault_code'' (fmt_2d (uint (fault_code d))),
       ot_fld ''fault_burn_start'' (fmt_2d (uint (fault_burner_starts d))), ot_fld ''fault_low_flame'' (fmt_2d (uint (fault_flame_low d))),
       ot_fld ''fault_oem_code'' (fmt_2d (uint (fault_oem_code d))), ''}''])"

definition ot_mqtt_errors_send ::
  "lwip \<Rightarrow> string \<Rightarrow> opentherm_context \<times> 'h mqtt_context option \<Rightarrow> int \<times> opentherm_context \<times> 'h mqtt_context option" where
  "ot_mqtt_errors_send e time st =
     (case build_msg OTH_MQTT_DATA_LEN (errors_parts time (ot_ctx (fst st))) of
        None \<Rightarrow> (-1, st)
      | Some pl \<Rightarrow> ot_publish e pl oq_errors oq_errors_update (\<lambda>d. d\<lparr>ot_errors := (ot_errors d)\<lparr>oe_force := False\<rparr>\<rparr>) st)"

definition stats_parts :: "string \<Rightarrow> u64 \<Rightarrow> opentherm \<Rightarrow> string list" where
  "stats_parts time t ctx =
     (let d = ot_stats ctx; dt = fst (time_msec2datetime (t - stat_reset_time d)) in
      ot_head time @
      [ot_fld ''stat_reset_time'' (''\"'' @ time_date2str 64 dt @ ''\"''), ot_fld ''burner_starts'' (fmt_2d (uint (stat_burner_starts d))),
       ot_fld ''ch_pump_starts'' (fmt_2d (uint (stat_ch_pump_starts d))), ot_fld ''dhw_pump_starts'' (fmt_2d (uint (stat_dhw_pump_starts d))),
       ot_fld ''dhw_burner_starts'' (fmt_2d (uint (stat_dhw_burn_burner_starts d))), ot_fld ''burner_hours'' (fmt_2d (uint (stat_burner_hours d))),
       ot_fld ''ch_pump_hours'' (fmt_2d (uint (stat_ch_pump_hours d))), ot_fld ''dhw_pump_hours'' (fmt_2d (uint (stat_dhw_pump_hours d))),
       ot_fld ''dhw_burner_hours'' (fmt_2d (uint (stat_dhw_burn_hours d))), ''}''])"

definition ot_mqtt_stats_send ::
  "lwip \<Rightarrow> string \<Rightarrow> u64 \<Rightarrow> opentherm_context \<times> 'h mqtt_context option \<Rightarrow> int \<times> opentherm_context \<times> 'h mqtt_context option" where
  "ot_mqtt_stats_send e time t st =
     (case build_msg OTH_MQTT_DATA_LEN (stats_parts time t (ot_ctx (fst st))) of
        None \<Rightarrow> (-1, st)
      | Some pl \<Rightarrow> ot_publish e pl oq_stats oq_stats_update (\<lambda>d. d\<lparr>ot_stats := (ot_stats d)\<lparr>sa_force := False\<rparr>\<rparr>) st)"

definition ot_mark :: "opentherm_context \<Rightarrow> opentherm_context" where
  "ot_mark ctx =
     (let d = ot_ctx ctx; m = ot_mqtt ctx; on = (\<lambda>f c. if f then c\<lparr>force := True\<rparr> else c) in
      ctx\<lparr>ot_mqtt := m\<lparr>oq_data := on (om_force (ot_data d) \<or> st_force (ot_status d) \<or> oc_force (ot_dev_config d)) (oq_data m),
         oq_stats := on (sa_force (ot_stats d)) (oq_stats m), oq_errors := on (oe_force (ot_errors d)) (oq_errors m)\<rparr>\<rparr>)"

definition ot_stamp :: "u64 \<Rightarrow> opentherm_context \<Rightarrow> opentherm_context" where
  "ot_stamp now ctx = ctx\<lparr>ot_mqtt := (ot_mqtt ctx)\<lparr>oq_last_send := now\<rparr>\<rparr>"

text \<open>\<open>now\<close> is the reading at the start, \<open>t\<close> the one of the sender.\<close>

definition opentherm_mqtt_send ::
  "lwip \<Rightarrow> string \<Rightarrow> u64 \<Rightarrow> u64 \<Rightarrow> opentherm_context \<times> 'h mqtt_context option \<Rightarrow> opentherm_context \<times> 'h mqtt_context option" where
  "opentherm_mqtt_send e time now t st =
     (let (ctx, c) = st; ctx = ot_mark ctx; m = ot_mqtt ctx in
      if \<not> mqtt_is_discovery_sent c then (ctx, c)
      else if force (oq_data m) then (let (_, ctx, c) = ot_mqtt_data_send e time t (ctx, c) in (ot_stamp now ctx, c))
      else if force (oq_stats m) then (let (_, ctx, c) = ot_mqtt_stats_send e time t (ctx, c) in (ot_stamp now ctx, c))
      else if force (oq_errors m) then (let (_, ctx, c) = ot_mqtt_errors_send e time (ctx, c) in (ot_stamp now ctx, c))
      else if oq_last_send m \<noteq> 0 \<and> now - oq_last_send m < OT_MQTT_SEND_INTERVAL_MS then (ctx, c)
      else
        (let i = (if oq_send_id m \<ge> OT_MQTT_SEND_MAX then 0 else oq_send_id m);
             ctx = ctx\<lparr>ot_mqtt := m\<lparr>oq_send_id := i\<rparr>\<rparr>;
             (ret, ctx, c) =
               (if i = OT_MQTT_SEND_DATA then ot_mqtt_data_send e time t (ctx, c)
                else if i = OT_MQTT_SEND_STATS then ot_mqtt_stats_send e time t (ctx, c)
                else if i = OT_MQTT_SEND_ERR then ot_mqtt_errors_send e time (ctx, c)
                else (0, ctx, c));
             ctx = (if ret = 0 then ctx\<lparr>ot_mqtt := (ot_mqtt ctx)\<lparr>oq_send_id := i + 1\<rparr>\<rparr> else ctx)
         in (ot_stamp now ctx, c)))"

section \<open>Components\<close>

definition ot_templ :: "string \<Rightarrow> string" where
  "ot_templ n = ''{{ value_json['' @ [CHR 0x27] @ n @ [CHR 0x27] @ ''] }}''"

definition ot_sensor :: "string option \<Rightarrow> string option \<Rightarrow> string option \<Rightarrow> string \<Rightarrow> string \<Rightarrow> mqtt_component" where
  "ot_sensor st cls un key nm =
     \<lparr>mc_module = ''opentherm'', mc_name = nm, platform = ''sensor'', dev_class = cls, unit = un, value_template = ot_templ key,
      payload_on = None, payload_off = None, mc_state_topic = st, mc_id = 0, force = False, mc_last_send = 0\<rparr>"

definition ot_binary :: "string option \<Rightarrow> string option \<Rightarrow> string \<Rightarrow> string \<Rightarrow> mqtt_component" where
  "ot_binary st cls key nm =
     (ot_sensor st cls None key nm)\<lparr>platform := ''binary_sensor'', payload_on := Some ''1'', payload_off := Some ''0''\<rparr>"

definition ot_celsius :: string where "ot_celsius = map char_of [194::nat, 176] @ ''C''"

definition data_components :: "string option \<Rightarrow> mqtt_component list" where
  "data_components st =
     map (\<lambda>(k, n). ot_sensor st (Some ''temperature'') (Some ot_celsius) k n)
       [(''dhw_set'', ''DHW_set''), (''flow_temp'', ''Flow_temperature''), (''ret_temp'', ''Return_temperature''),
        (''exh_temp'', ''Exhaust_temperature''), (''dhw_temp'', ''DHW_temperature''), (''ch_max'', ''CH_max''),
        (''ch_min'', ''CH_min''), (''dhw_max'', ''DHW_max''), (''dhw_min'', ''DHW_min'')] @
     [ot_sensor st (Some ''pressure'') (Some ''bar'') ''ch_press'' ''CH_press'', ot_sensor st None (Some ''%'') ''mdl_level'' ''Mod_level'',
      ot_sensor st None (Some ''uA'') ''flame_ua'' ''Flame_ua'',
      ot_sensor st (Some ''volume_flow_rate'') (Some ''L/h'') ''gas_flow'' ''gas_flow'',
      ot_sensor st (Some ''volume_storage'') (Some ''L'') ''gas_total'' ''gas_total''] @
     map (\<lambda>(k, n). ot_binary st None k n)
       [(''ch'', ''CH''), (''dhw'', ''DHW''), (''ch_enabled'', ''CH_enabled''), (''dhw_enabled'', ''DHW_enabled''), (''flame'', ''Flame'')]"

definition error_components :: "string option \<Rightarrow> mqtt_component list" where
  "error_components st =
     map (\<lambda>(k, n). ot_binary st None k n)
       [(''service'', ''Service''), (''fault'', ''Fault''), (''fault_lwp'', ''Low_Water_Pressure''), (''fault_fl'', ''Fault_Flame''),
        (''fault_lap'', ''Low_Air_Pressure''), (''fault_hwt'', ''High_Water_Temperature'')] @
     map (\<lambda>(k, n). ot_sensor st None None k n)
       [(''fault_code'', ''Fault_Code''), (''fault_burn_start'', ''Fault_Burner_Start''), (''fault_low_flame'', ''Fault_Low_Flame''),
        (''fault_oem_code'', ''Fault_OEM_Code'')]"

definition stat_components :: "string option \<Rightarrow> mqtt_component list" where
  "stat_components st =
     map (\<lambda>(k, n). ot_sensor st None None k n)
       [(''burner_starts'', ''Burner_Starts''), (''ch_pump_starts'', ''CH_Pump_Starts''), (''dhw_pump_starts'', ''DHW_Pump_Starts''),
        (''dhw_burner_starts'', ''DHW_Burner_Starts''), (''burner_hours'', ''Burner_Hours''), (''ch_pump_hours'', ''CH_Pump_Hours''),
        (''dhw_pump_hours'', ''DHW_Pump_Hours''), (''dhw_burner_hours'', ''DHW_Burner_Hours'')]"

text \<open>A component with its own topic, then the others on this topic.\<close>

definition ot_register ::
  "mqtt_component \<Rightarrow> (string option \<Rightarrow> mqtt_component list) \<Rightarrow> 'h mqtt_context option \<Rightarrow> mqtt_component \<times> 'h mqtt_context option" where
  "ot_register first others c =
     (let (_, cmp, c) = mqtt_msg_component_register (first\<lparr>force := True\<rparr>) c
      in (cmp, fold (\<lambda>x c. snd (snd (mqtt_msg_component_register x c))) (others (mc_state_topic cmp)) c))"

definition opentherm_mqtt_init :: "opentherm_context \<Rightarrow> 'h mqtt_context option \<Rightarrow> opentherm_context \<times> 'h mqtt_context option" where
  "opentherm_mqtt_init ctx c =
     (let (d, c) = ot_register (ot_sensor None (Some ''temperature'') (Some ot_celsius) ''ch_set'' ''CH_set'') data_components c;
          (r, c) = ot_register (ot_binary None (Some ''problem'') ''diag'' ''Diagnostic'') error_components c;
          (s, c) = ot_register (ot_sensor None None None ''stat_reset_time'' ''Stat_Reset_Time'') stat_components c
      in (ctx\<lparr>ot_mqtt := (ot_mqtt ctx)\<lparr>oq_data := d, oq_errors := r, oq_stats := s\<rparr>\<rparr>, c))"

section \<open>The module\<close>

definition opentherm_debug_set :: "u32 \<Rightarrow> opentherm_context \<Rightarrow> opentherm_context" where
  "opentherm_debug_set debug ctx = ctx\<lparr>ot_log_mask := debug\<rparr>"

definition opentherm_data_init :: "opentherm \<Rightarrow> opentherm" where
  "opentherm_data_init d =
     d\<lparr>ot_status := (ot_status d)\<lparr>ch_enabled := False, dhw_enabled := False, ch2_enabled := False, cooling_enabled := False, otc_active := False\<rparr>,
       param_desired := (param_desired d)\<lparr>ch_temperature_setpoint := Fin 25, dhw_temperature_setpoint := Fin 40, ch_max := Fin 40,
         dhw_max := Fin 60\<rparr>\<rparr>"

definition gas_rate :: "string option \<Rightarrow> f32 option" where
  "gas_rate s = (case sys_strtof s of None \<Rightarrow> None | Some f \<Rightarrow> if f32_lt (Fin 0) f then Some (f32_div f (Fin 3600)) else None)"

text \<open>None: a missing pin is passed to \<open>strtol\<close> as NULL; \<open>Some None\<close>: no configuration.\<close>

definition opentherm_config_get :: "bool \<Rightarrow> string option \<Rightarrow> string option \<Rightarrow> opentherm option option" where
  "opentherm_config_get al cfg0 qm =
     (case cfg0 of
        None \<Rightarrow> Some None
      | Some cfg \<Rightarrow>
          if cfg = [] then Some None
          else case strtok_r (CHR '';'') (Some cfg) of
            (None, _) \<Rightarrow> None
          | (Some tok, rest) \<Rightarrow>
              (let rx = strtol_val 10 tok in
               if rx < GPIO_PIN_MIN \<or> rx > GPIO_PIN_MAX then Some None
               else case rest of None \<Rightarrow> None
               | Some r \<Rightarrow>
                   (let tx = strtol_val 10 r in
                    if tx < GPIO_PIN_MIN \<or> tx > GPIO_PIN_MAX then Some None
                    else if \<not> al then Some None
                    else
                      (let d = zero_opentherm rx tx in
                       case qm of None \<Rightarrow> Some (Some d)
                       | Some q \<Rightarrow>
                           if length q \<le> 1 then Some (Some d)
                           else
                             (let (tok, rest) = strtok_r (CHR '';'') (Some q);
                                  d = (case gas_rate tok of None \<Rightarrow> d | Some f \<Rightarrow> d\<lparr>qmin := f\<rparr>);
                                  d = (case gas_rate rest of None \<Rightarrow> d | Some f \<Rightarrow> d\<lparr>qmax := f\<rparr>)
                              in Some (Some d))))))"

text \<open>\<open>ini\<close> is the initialisation of the PIO with the SDK's answers.\<close>

definition opentherm_init ::
  "(opentherm_pio \<Rightarrow> int \<times> opentherm_pio) \<Rightarrow> bool \<Rightarrow> string option \<Rightarrow> string option \<Rightarrow> 'h mqtt_context option
   \<Rightarrow> (opentherm_context option \<times> 'h mqtt_context option) option" where
  "opentherm_init ini al cfg0 qm c =
     (case opentherm_config_get al cfg0 qm of
        None \<Rightarrow> None
      | Some None \<Rightarrow> Some (None, c)
      | Some (Some d) \<Rightarrow>
          (let (r, pio) = ini (ot_pio d) in
           if r \<noteq> 0 then Some (None, c)
           else
             (let d = opentherm_dev_init (opentherm_data_init (d\<lparr>ot_dev := (fst (ot_dev d), pio)\<rparr>));
                  z = ot_sensor None None None [] [];
                  (ctx, c) = opentherm_mqtt_init \<lparr>ot_log_mask = 0, ot_ctx = d,
                    ot_mqtt = \<lparr>oq_data = z, oq_errors = z, oq_stats = z, oq_send_id = 0, oq_last_send = 0\<rparr>\<rparr> c
              in Some (Some ctx, c))))"

text \<open>One call of the run function; the three readings of the clock outside of the line are arguments.\<close>

definition opentherm_run ::
  "ot_env \<Rightarrow> u64 \<Rightarrow> lwip \<Rightarrow> string \<Rightarrow> u64 \<Rightarrow> u64 \<Rightarrow> opentherm_context \<times> 'h mqtt_context option
   \<Rightarrow> (opentherm_context \<times> 'h mqtt_context option) option" where
  "opentherm_run e now l time now' t st =
     (let (ctx, c) = st in
      map_option (\<lambda>d. opentherm_mqtt_send l time now' t (ctx\<lparr>ot_ctx := d\<rparr>, c)) (opentherm_dev_run e now (ot_ctx ctx)))"

section \<open>Set temperatures\<close>

lemma clamp_value: "mi \<le> ma \<Longrightarrow> f32_clamp (Fin mi) (Fin ma) (Fin x) = Fin (max mi (min ma x))"
  by (auto simp: f32_clamp_def)

lemma param_text:
  assumes "t \<noteq> []" and "CHR '':'' \<notin> set t"
  shows "cmd_get_param_str (Some (CHR '':'' # t)) = Some (t, None)"
proof -
  have "strtok_r (CHR '':'') (Some t) = (Some t, None)" using assms by (simp add: strtok_r_simple)
  moreover have "2 \<le> length (CHR '':'' # t)" using assms(1) by (cases t) simp_all
  ultimately show ?thesis using assms(1) by (simp add: cmd_get_param_str_def)
qed

lemma set_temp:
  assumes "t \<noteq> []" "CHR '':'' \<notin> set t" and "sys_strtof (Some t) = Some (Fin x)" "0 \<le> x" "x \<le> 100"
  shows "cmd_set_ch_temp (Some (CHR '':'' # t)) ctx = (0, ctx\<lparr>param_desired := (param_desired ctx)\<lparr>ch_temperature_setpoint :=
    f32_clamp (ch_rangemin (ot_dev_config ctx)) (ch_rangemax (ot_dev_config ctx)) (Fin x)\<rparr>\<rparr>)"
    "cmd_set_dwh_temp (Some (CHR '':'' # t)) ctx = (0, ctx\<lparr>param_desired := (param_desired ctx)\<lparr>dhw_temperature_setpoint :=
    f32_clamp (dhw_rangemin (ot_dev_config ctx)) (dhw_rangemax (ot_dev_config ctx)) (Fin x)\<rparr>\<rparr>)"
  using assms by (simp_all add: cmd_set_ch_temp_def cmd_set_dwh_temp_def DATA_ID_TSET_def DATA_ID_TDHWSET_def cmd_set_param_float_def param_text not_less Let_def)

lemma init_config:
  assumes "opentherm_init ini al cfg0 qm c = Some (Some ctx, c')"
  shows "ot_dev_config (ot_ctx ctx) = ot_dev_config (zero_opentherm 0 0)"
proof -
  obtain d where d: "opentherm_config_get al cfg0 qm = Some (Some d)"
    using assms by (auto simp: opentherm_init_def split: option.splits)
  have "ot_dev_config (ot_ctx ctx) = ot_dev_config d"
    using assms by (auto simp: opentherm_init_def d Let_def opentherm_mqtt_init_def opentherm_dev_init_def opentherm_data_init_def
      case_prod_beta split: if_splits)
  also have "\<dots> = ot_dev_config (zero_opentherm 0 0)"
    using d by (auto simp: opentherm_config_get_def zero_opentherm_def Let_def split: option.splits if_splits prod.splits)
  finally show ?thesis .
qed

text \<open>
  A temperature set by the user is lost until the device has told its limits: after the
  initialisation, with any pins, any accepted command for the flow or the hot water sets the
  desired temperature to 0, whatever temperature from 0 to 100 it names.
\<close>

lemma opentherm_set_before_limits:
  assumes "opentherm_init ini al cfg0 qm c = Some (Some ctx, c')"
    and "t \<noteq> []" "CHR '':'' \<notin> set t" and "sys_strtof (Some t) = Some (Fin x)" "0 \<le> x" "x \<le> 100"
  shows "cmd_set_ch_temp (Some (CHR '':'' # t)) (ot_ctx ctx) =
      (0, (ot_ctx ctx)\<lparr>param_desired := (param_desired (ot_ctx ctx))\<lparr>ch_temperature_setpoint := Fin 0\<rparr>\<rparr>) \<and>
    cmd_set_dwh_temp (Some (CHR '':'' # t)) (ot_ctx ctx) =
      (0, (ot_ctx ctx)\<lparr>param_desired := (param_desired (ot_ctx ctx))\<lparr>dhw_temperature_setpoint := Fin 0\<rparr>\<rparr>)"
proof -
  have z: "ch_rangemin (ot_dev_config (ot_ctx ctx)) = Fin 0" "ch_rangemax (ot_dev_config (ot_ctx ctx)) = Fin 0"
    "dhw_rangemin (ot_dev_config (ot_ctx ctx)) = Fin 0" "dhw_rangemax (ot_dev_config (ot_ctx ctx)) = Fin 0"
    unfolding init_config [OF assms(1)] by (simp_all add: zero_opentherm_def)
  have "f32_clamp (Fin 0) (Fin 0) (Fin x) = Fin 0" using assms(5) by (simp add: clamp_value)
  then show ?thesis using set_temp [OF assms(2-6), of "ot_ctx ctx"] by (simp add: z)
qed

lemma opentherm_set_before_limits_witness:
  "\<exists>ctx. opentherm_init (\<lambda>p. (0, p)) True (Some ''2;3'') None (None :: nat mqtt_context option) = Some (Some ctx, None) \<and>
    cmd_set_ch_temp (Some '':20.5'') (ot_ctx ctx) =
      (0, (ot_ctx ctx)\<lparr>param_desired := (param_desired (ot_ctx ctx))\<lparr>ch_temperature_setpoint := Fin 0\<rparr>\<rparr>)"
proof -
  have "case opentherm_init (\<lambda>p. (0, p)) True (Some ''2;3'') None (None :: nat mqtt_context option) of
      Some (Some ctx, None) \<Rightarrow> True | _ \<Rightarrow> False" by code_simp
  then obtain ctx where i: "opentherm_init (\<lambda>p. (0, p)) True (Some ''2;3'') None None = Some (Some ctx, None :: nat mqtt_context option)"
    by (auto split: option.splits prod.splits)
  have "cmd_set_ch_temp (Some ('':'' @ ''20.5'')) (ot_ctx ctx) =
      (0, (ot_ctx ctx)\<lparr>param_desired := (param_desired (ot_ctx ctx))\<lparr>ch_temperature_setpoint := Fin 0\<rparr>\<rparr>)"
    using opentherm_set_before_limits [OF i, of "''20.5''" "41 / 2"] sys_strtof_examples(1) by simp
  then show ?thesis using i by auto
qed

end
