(* ===== verification/Float64.thy ===== *)
theory Float64
  imports Float32
begin

text \<open>
  The C type \<open>double\<close>, as far as the sensors use it: the values of \<open>Float32\<close> with results rounded
  to 53 bits, the conversion to \<open>float\<close> and \<open>strtod\<close>.
\<close>

definition d_rnd :: "rat \<Rightarrow> f32" where
  "d_rnd x =
     (if x = 0 then Fin 0
      else let e = max (ilog2 \<bar>x\<bar> - 52) (- 1074); v = of_int (rhe (x / pow2 e)) * pow2 e
        in if v \<ge> pow2 1024 then PInf else if v \<le> - pow2 1024 then NInf else Fin v)"

definition d_op :: "(f32 \<Rightarrow> f32 \<Rightarrow> f32) \<Rightarrow> (rat \<Rightarrow> rat \<Rightarrow> rat) \<Rightarrow> f32 \<Rightarrow> f32 \<Rightarrow> f32" where
  "d_op special exact a b = (case (a, b) of (Fin x, Fin y) \<Rightarrow> d_rnd (exact x y) | _ \<Rightarrow> special a b)"

definition d_add :: "f32 \<Rightarrow> f32 \<Rightarrow> f32" where "d_add = d_op f32_add (+)"
definition d_sub :: "f32 \<Rightarrow> f32 \<Rightarrow> f32" where "d_sub = d_op f32_sub (-)"
definition d_mul :: "f32 \<Rightarrow> f32 \<Rightarrow> f32" where "d_mul = d_op f32_mul (*)"
definition d_div :: "f32 \<Rightarrow> f32 \<Rightarrow> f32" where
  "d_div a b = (if b = Fin 0 then f32_div a b else d_op f32_div (/) a b)"

text \<open>The conversion to \<open>float\<close>.  That to \<open>double\<close> keeps the value.\<close>

definition f32_of_d :: "f32 \<Rightarrow> f32" where
  "f32_of_d x = (case x of Fin v \<Rightarrow> f32_rnd v | _ \<Rightarrow> x)"

definition strtod :: "string \<Rightarrow> f32 \<times> string" where
  "strtod s = strto_fl d_rnd s"

lemma f32_of_d_ok: "f32_ok x \<Longrightarrow> f32_of_d x = x"
  by (cases x) (simp_all add: f32_of_d_def f32_rnd_rep)

lemma f32_of_d_cases: "f32_ok (f32_of_d x)"
  by (cases x) (simp_all add: f32_of_d_def)

lemma f32_ok_mul [simp]: "f32_ok a \<Longrightarrow> f32_ok b \<Longrightarrow> f32_ok (f32_mul a b)"
  by (cases a; cases b) auto

lemma d_rnd_not_NaN [simp]: "d_rnd x \<noteq> NaN"
  by (simp add: d_rnd_def Let_def)

lemma d_rnd_exact:
  assumes "x \<noteq> 0" "ilog2 \<bar>x\<bar> = k" "- 1022 \<le> k" "k < 1024" "x = of_int z * pow2 (k - 52)"
  shows "d_rnd x = Fin x"
proof -
  have e: "max (k - 52) (- 1074) = k - 52" using assms(3) by simp
  have p: "pow2 (k - 52) \<noteq> 0" using pow2_pos [of "k - 52"] by linarith
  have "x / pow2 (k - 52) = of_int z" using p by (simp add: assms(5))
  moreover have "\<bar>x\<bar> < pow2 1024"
  proof -
    have "\<bar>x\<bar> < pow2 (k + 1)" using ilog2 [of "\<bar>x\<bar>"] assms(1,2) by simp
    also have "\<dots> \<le> pow2 1024" using assms(4) by (intro pow2_mono) simp
    finally show ?thesis .
  qed
  ultimately show ?thesis
    using assms(1,2) e by (auto simp: d_rnd_def Let_def rhe_int simp flip: assms(5))
qed

end
