(* ===== verification/AdcSensor.thy ===== *)
theory AdcSensor
  imports Float64 SysUtils
begin

text \<open>
  The analog sensors, \<open>libs/common/devices/common/adc_sensor.c\<close>: thirty readings, filtered, as raw
  value, voltage, value of a line and percentage.  The converter is a parameter: whether the input
  could be selected, and the readings of a measurement, the first of which is dropped.
\<close>

definition MAX_ANALOG_VALUE :: u32 where "MAX_ANALOG_VALUE = 4095"
definition ADC_REF_VOLT :: f32 where "ADC_REF_VOLT = f32_rnd (33 / 10)"
definition ADC_MAX :: f32 where "ADC_MAX = Fin 4096"
definition MEASURE_COUNT :: nat where "MEASURE_COUNT = 30"
definition MEASURE_DROP :: nat where "MEASURE_DROP = 5"

definition ADC_CONVERS :: "u32 \<Rightarrow> f32" where
  "ADC_CONVERS v = f32_mul (f32_of_int (uint v)) (f32_div ADC_REF_VOLT ADC_MAX)"

definition adc_mapping :: "(int \<times> nat) list" where
  "adc_mapping = [(26, 0), (27, 1), (28, 2), (29, 3), (-1, 4)]"

record adc_sensor =
  adc_pin :: int
  adc_id :: nat
  adc_a :: f32
  adc_b :: f32
  adc_samples :: "u32 list"
  adc_value :: f32
  adc_volt :: f32
  adc_percent :: f32
  adc_raw :: u32

definition adc_sensor_init :: "bool \<Rightarrow> int \<Rightarrow> f32 \<Rightarrow> f32 \<Rightarrow> adc_sensor option" where
  "adc_sensor_init alloc pin a b =
     (case map_of adc_mapping pin of None \<Rightarrow> None
      | Some i \<Rightarrow>
          if \<not> alloc then None
          else Some \<lparr>adc_pin = pin, adc_id = i, adc_a = a, adc_b = b, adc_samples = replicate MEASURE_COUNT 0,
                 adc_value = Fin 0, adc_volt = Fin 0, adc_percent = Fin 0, adc_raw = 0\<rparr>)"

text \<open>What the converter answers: whether the input is selected and the readings.\<close>

record adc_env =
  adc_selected :: bool
  adc_read :: "nat \<Rightarrow> u16"

definition adc_update :: "u32 \<Rightarrow> adc_sensor \<Rightarrow> bool \<times> adc_sensor" where
  "adc_update av sensor =
     (let sensor = sensor\<lparr>adc_raw := av\<rparr>;
          val = ADC_CONVERS av;
          (r1, sensor) = (if f32_ne (adc_volt sensor) val then (True, sensor\<lparr>adc_volt := f32_of_d val\<rparr>) else (False, sensor));
          val = d_add (adc_a sensor) (d_mul (Fin (of_int (uint av))) (adc_b sensor));
          (r2, sensor) = (if f32_ne (adc_value sensor) val then (True, sensor\<lparr>adc_value := f32_of_d val\<rparr>) else (r1, sensor));
          p = f32_of_int (uint (sys_value_to_percent 0 MAX_ANALOG_VALUE av))
      in if f32_ne (adc_percent sensor) p then (True, sensor\<lparr>adc_percent := p\<rparr>) else (r2, sensor))"

definition adc_sensor_measure :: "adc_env \<Rightarrow> adc_sensor option \<Rightarrow> bool \<times> adc_sensor option" where
  "adc_sensor_measure e sensor =
     (case sensor of None \<Rightarrow> (False, None)
      | Some s \<Rightarrow>
          if \<not> adc_selected e then (False, Some s)
          else
            (let (av, smp) = samples_filter (map (\<lambda>i. ucast (adc_read e (Suc i))) [0 ..< MEASURE_COUNT]) MEASURE_COUNT MEASURE_DROP;
                 (ret, s) = adc_update (the av) (s\<lparr>adc_samples := smp\<rparr>)
             in (ret, Some s)))"

definition adc_sensor_get_raw :: "adc_sensor option \<Rightarrow> u32" where
  "adc_sensor_get_raw sensor = (case sensor of None \<Rightarrow> 0 | Some s \<Rightarrow> adc_raw s)"
definition adc_sensor_get_value :: "adc_sensor option \<Rightarrow> f32" where
  "adc_sensor_get_value sensor = (case sensor of None \<Rightarrow> Fin 0 | Some s \<Rightarrow> adc_value s)"
definition adc_sensor_get_volt :: "adc_sensor option \<Rightarrow> f32" where
  "adc_sensor_get_volt sensor = (case sensor of None \<Rightarrow> Fin 0 | Some s \<Rightarrow> adc_volt s)"
definition adc_sensor_get_percent :: "adc_sensor option \<Rightarrow> int" where
  "adc_sensor_get_percent sensor = (case sensor of None \<Rightarrow> -1 | Some s \<Rightarrow> f32_int (adc_percent s))"

section \<open>What a measurement stores\<close>

text \<open>The line of the sensor at a raw value, in doubles.\<close>

definition adc_line :: "adc_sensor \<Rightarrow> u32 \<Rightarrow> f32" where
  "adc_line s av = d_add (adc_a s) (d_mul (Fin (of_int (uint av))) (adc_b s))"

definition stored :: "u32 \<Rightarrow> adc_sensor \<Rightarrow> bool" where
  "stored av s \<longleftrightarrow> adc_raw s = av \<and> adc_volt s = ADC_CONVERS av \<and> adc_value s = f32_of_d (adc_line s av) \<and>
     adc_percent s = f32_of_int (uint (sys_value_to_percent 0 MAX_ANALOG_VALUE av))"

lemma f32_int_of_int: "f32_int (Fin (of_int k)) = k"
  by (cases "k \<ge> 0") (simp_all add: f32_int_def trunc_rat_def)

lemma unat_max: "unat MAX_ANALOG_VALUE = 4095"
  by (simp add: MAX_ANALOG_VALUE_def)

lemma percent_le: "uint (sys_value_to_percent 0 MAX_ANALOG_VALUE av) \<le> 100"
proof -
  have le: "(if a \<le> l then 0 else if h \<le> a then 100 else 100 * (a - l) div (h - l)) \<le> 100" for a l h :: nat
  proof -
    have "100 * (a - l) div (h - l) \<le> 100 * (h - l) div (h - l)" if "\<not> h \<le> a"
      using that by (intro div_le_mono mult_le_mono2) simp
    then show ?thesis by (auto split: if_split_asm)
  qed
  have "unat MAX_ANALOG_VALUE - unat (0 :: u32) \<le> 42949672" unfolding unat_max unat_0 by simp
  from percent_exact [OF this, of av] have "unat (sys_value_to_percent 0 MAX_ANALOG_VALUE av) \<le> 100"
    by (rule ord_eq_le_trans) (rule le)
  then have "int (unat (sys_value_to_percent 0 MAX_ANALOG_VALUE av)) \<le> 100" by linarith
  then show ?thesis unfolding uint_nat .
qed

lemma convers_ok: "f32_ok (ADC_CONVERS av)"
proof -
  have "f32_ok (f32_div x (Fin 4096))" for x by (cases x) auto
  then show ?thesis by (simp add: ADC_CONVERS_def ADC_MAX_def f32_of_int_def)
qed

lemma convers_number: "ADC_CONVERS av \<noteq> NaN"
proof -
  have "case f32_div ADC_REF_VOLT ADC_MAX of Fin x \<Rightarrow> x \<noteq> 0 | _ \<Rightarrow> False" by code_simp
  then obtain x where x: "f32_div ADC_REF_VOLT ADC_MAX = Fin x" "x \<noteq> 0" by (auto split: f32.splits)
  have "f32_mul (f32_rnd y) (Fin x) \<noteq> NaN" for y
    using x(2) by (cases "f32_rnd y") auto
  then show ?thesis by (simp add: ADC_CONVERS_def x(1) f32_of_int_def)
qed

lemma adc_update_stores:
  assumes "adc_update av s = (r, s')" and "f32_ok (adc_value s)" and "adc_line s av \<noteq> NaN"
  shows "stored av s' \<and> adc_a s' = adc_a s \<and> adc_b s' = adc_b s \<and> adc_samples s' = adc_samples s"
proof -
  note c = f32_of_d_ok [OF convers_ok [of av]]
  have "adc_value s = adc_line s av \<Longrightarrow> f32_of_d (adc_line s av) = adc_line s av"
    using f32_of_d_ok [of "adc_line s av"] assms(2) by simp
  then show ?thesis
    using assms(1,3) c
    by (auto simp: adc_update_def stored_def adc_line_def f32_ne_def Let_def split: if_splits prod.splits)
qed

lemma adc_update_change:
  assumes "adc_update av s = (r, s')"
  shows "r \<or> adc_volt s' = adc_volt s \<and> adc_value s' = adc_value s \<and> adc_percent s' = adc_percent s"
  using assms by (auto simp: adc_update_def Let_def split: if_splits)

lemma adc_update_again:
  assumes "stored av s" and "adc_line s av \<noteq> NaN"
  shows "adc_update av s = (f32_of_d (adc_line s av) \<noteq> adc_line s av, s)"
proof -
  note n = convers_number [of av]
  have v: "f32_ne (adc_volt s) (ADC_CONVERS av) \<longleftrightarrow> False" using assms(1) n by (simp add: stored_def f32_ne_def)
  have p: "f32_ne (adc_percent s) (f32_of_int (uint (sys_value_to_percent 0 MAX_ANALOG_VALUE av))) \<longleftrightarrow> False"
    using assms(1) by (simp add: stored_def f32_ne_def f32_of_int_def)
  have x: "f32_ne (adc_value s) (adc_line s av) \<longleftrightarrow> f32_of_d (adc_line s av) \<noteq> adc_line s av"
    using assms by (auto simp: stored_def f32_ne_def)
  have u: "s\<lparr>adc_raw := av\<rparr> = s" "s\<lparr>adc_value := f32_of_d (adc_line s av)\<rparr> = s" using assms(1) by (simp_all add: stored_def)
  show ?thesis
    unfolding adc_update_def Let_def u(1) v p adc_line_def [symmetric] by (simp add: x u p v)
qed

definition adc_readings :: "adc_env \<Rightarrow> u32 list" where
  "adc_readings e = map (\<lambda>i. ucast (adc_read e (Suc i))) [0 ..< MEASURE_COUNT]"

text \<open>
  C23.  A measurement is the trimmed mean of its readings: with the input selected, thirty readings are
  sorted, the five smallest and largest dropped, and raw value, voltage, value and percentage are
  those of the integer mean of the rest; a measurement that reports no change has left the
  voltage, the value and the percentage as they were.
\<close>

lemma adc_measure_mean:
  assumes "adc_selected e" and "f32_ok (adc_value s)"
    and "\<And>av. adc_line s av \<noteq> NaN"
  shows "\<exists>r s'. adc_sensor_measure e (Some s) = (r, Some s') \<and>
    unat (adc_raw s') = sum_list (map unat (middle 5 (adc_readings e))) div 20 \<and> stored (adc_raw s') s' \<and>
    adc_sensor_get_percent (Some s') = uint (sys_value_to_percent 0 MAX_ANALOG_VALUE (adc_raw s')) \<and>
    (r \<or> adc_volt s' = adc_volt s \<and> adc_value s' = adc_value s \<and> adc_percent s' = adc_percent s)"
proof -
  have small: "\<forall>x\<in>set (adc_readings e). x < 65536"
  proof -
    have "(ucast (x :: u16) :: u32) < 65536" for x
    proof -
      have "unat x < 65536" using unsigned_less [of x, where 'a = nat] by simp
      then show ?thesis by (simp add: word_less_nat_alt unsigned_ucast_eq take_bit_nat_eq_self)
    qed
    then show ?thesis by (auto simp: adc_readings_def)
  qed
  have l: "length (adc_readings e) = 30" by (simp add: adc_readings_def MEASURE_COUNT_def)
  obtain m where m: "samples_filter (adc_readings e) (length (adc_readings e)) 5 = (Some m, sort (adc_readings e))"
    "unat m = sum_list (map unat (middle 5 (adc_readings e))) div (length (adc_readings e) - 2 * 5)"
    by (rule samples_filter_sorted [OF small, of 5]) (simp_all add: l)
  define s1 where "s1 = s\<lparr>adc_samples := sort (adc_readings e)\<rparr>"
  obtain r s' where u: "adc_update m s1 = (r, s')" by fastforce
  have st: "stored m s' \<and> adc_a s' = adc_a s \<and> adc_b s' = adc_b s \<and> adc_samples s' = sort (adc_readings e)"
    using adc_update_stores [OF u] assms(2,3) by (simp add: s1_def adc_line_def)
  have run: "adc_sensor_measure e (Some x) = (case adc_update m (x\<lparr>adc_samples := sort (adc_readings e)\<rparr>) of (r, s) \<Rightarrow> (r, Some s))" for x
    using assms(1) m(1) l by (simp add: adc_sensor_measure_def MEASURE_COUNT_def MEASURE_DROP_def flip: adc_readings_def [unfolded MEASURE_COUNT_def])
  have raw: "adc_raw s' = m" using st by (simp add: stored_def)
  have "r \<or> adc_volt s' = adc_volt s \<and> adc_value s' = adc_value s \<and> adc_percent s' = adc_percent s"
    using adc_update_change [OF u] by (simp add: s1_def)
  moreover have "adc_sensor_get_percent (Some s') = uint (sys_value_to_percent 0 MAX_ANALOG_VALUE m)"
  proof -
    have "f32_of_int (uint (sys_value_to_percent 0 MAX_ANALOG_VALUE m)) = Fin (of_int (uint (sys_value_to_percent 0 MAX_ANALOG_VALUE m)))"
      unfolding f32_of_int_def using percent_le [of m] by (intro f32_rnd_rep f32_rep_int) simp
    then show ?thesis using st f32_int_of_int [of "uint (sys_value_to_percent 0 MAX_ANALOG_VALUE m)"]
      by (simp only: adc_sensor_get_percent_def stored_def option.case)
  qed
  ultimately show ?thesis
    using run [of s] u m(2) l st raw by (simp add: s1_def)
qed

text \<open>Readings of 2048 on a sensor with the line \<open>raw\<close>.\<close>

lemma adc_measure_mean_witness:
  "\<exists>r s'. adc_sensor_measure \<lparr>adc_selected = True, adc_read = (\<lambda>_. 2048)\<rparr>
      (adc_sensor_init True 26 (Fin 0) (Fin 1)) = (r, Some s') \<and> unat (adc_raw s') = 2048"
proof -
  let ?e = "\<lparr>adc_selected = True, adc_read = (\<lambda>_. 2048)\<rparr>"
  obtain s where s: "adc_sensor_init True 26 (Fin 0) (Fin 1) = Some s" "adc_value s = Fin 0" "adc_a s = Fin 0" "adc_b s = Fin 1"
    by (simp add: adc_sensor_init_def adc_mapping_def)
  have nn: "d_add (Fin 0) (d_mul (Fin x) (Fin 1)) \<noteq> NaN" for x
    using d_rnd_not_NaN [of x] by (cases "d_rnd x") (simp_all add: d_add_def d_mul_def d_op_def)
  have rd: "adc_readings ?e = replicate 30 2048"
    by (simp add: adc_readings_def MEASURE_COUNT_def map_replicate_const)
  have srt: "sort (replicate 30 (2048 :: u32)) = replicate 30 2048" by (rule sort_key_id_if_sorted) simp
  have "sum_list (map unat (middle 5 (adc_readings ?e))) div 20 = 2048"
    by (simp add: rd middle_def srt sum_list_replicate)
  then show ?thesis
    using adc_measure_mean [of ?e s] nn f32_rep_int [of 0] by (auto simp: s adc_line_def)
qed

end
