(* ===== verification/Temperature.thy ===== *)
theory Temperature
  imports AdcSensor Thermostat
begin

text \<open>
  The temperature sensors, \<open>libs/common/devices/temperature/temperature.c\<close>: the sensor of the chip
  and thermistors on the analog inputs, one of which is measured in a run, and their MQTT report.
  The natural logarithm of the C library is the parameter \<open>logf\<close>.  The array of sensors is filled
  without gaps: it is a list here, and \<open>count\<close> its length.  \<open>tp_send_idx\<close> is the static variable of
  \<open>temperature_mqtt_send\<close>.
\<close>

definition READ_INTERVAL_MS :: u64 where "READ_INTERVAL_MS = 500"
definition TEMP_MAX_SENSORS :: nat where "TEMP_MAX_SENSORS = 5"
definition TEMP_DATA_LEN :: nat where "TEMP_DATA_LEN = 128"
definition TEMP_DELAY_MS :: u64 where "TEMP_DELAY_MS = 5000"
definition T_KELVIN :: f32 where "T_KELVIN = f32_rnd (27315 / 100)"
definition T_KELVIN_25 :: f32 where "T_KELVIN_25 = f32_add T_KELVIN (Fin 25)"
definition NTC_PULLUP_RES :: f32 where "NTC_PULLUP_RES = Fin 5000"
definition NTC_PIN_MAX :: int where "NTC_PIN_MAX = 28"

datatype temp_type = TEMPERATURE_TYPE_INTERNAL | TEMPERATURE_TYPE_NTC

record temperature_ntc =
  ntc_nominal :: f32
  ntc_coefficient :: f32

text \<open>The functions a sensor can have for its calculation.\<close>

datatype temp_calc = temperature_calc_internal | temperature_calc_ntc

record temperature =
  tp_adc :: adc_sensor
  tp_min :: f32
  tp_max :: f32
  tp_value :: f32
  tp_valid :: bool
  tp_last_read :: u64
  tp_type :: temp_type
  tp_params :: "temperature_ntc option"
  tp_calc :: temp_calc
  tp_mqtt :: mqtt_component

record temperature_context =
  tp_debug :: u32
  tp_idx :: nat
  tp_sensors :: "temperature list"
  tp_last_send :: u64
  tp_send_idx :: nat

definition temperature_type_str :: "temp_type \<Rightarrow> string" where
  "temperature_type_str type = (case type of TEMPERATURE_TYPE_INTERNAL \<Rightarrow> ''chip'' | TEMPERATURE_TYPE_NTC \<Rightarrow> ''ntc'')"

section \<open>MQTT report\<close>

definition temperature_payload :: "string \<Rightarrow> temperature \<Rightarrow> string option" where
  "temperature_payload time_str s = build_msg TEMP_DATA_LEN
     [''{'', ''\"time\": \"'' @ time_str @ ''\"'',
      '',\"'' @ mc_name (tp_mqtt s) @ ''\": \"'' @ (if tp_valid s then fmt_2f (tp_value s) else ''nan'') @ ''\"'', ''}'']"

definition temperature_mqtt_data_send ::
  "lwip \<Rightarrow> string \<Rightarrow> nat \<Rightarrow> temperature_context \<times> 'h mqtt_context option
   \<Rightarrow> int \<times> temperature_context \<times> 'h mqtt_context option" where
  "temperature_mqtt_data_send e time_str idx st =
     (case st of (ctx, mq) \<Rightarrow>
       (let now = lw_clock e 0; s = tp_sensors ctx ! idx
        in case temperature_payload time_str s of None \<Rightarrow> (-1, ctx, mq)
           | Some p \<Rightarrow>
               (let (ret, c, mq) = mqtt_msg_component_publish (later 1 e) (tp_mqtt s) p mq;
                    ctx = ctx\<lparr>tp_sensors := (tp_sensors ctx)[idx := s\<lparr>tp_mqtt := c\<rparr>]\<rparr>
                in (ret, if ret = 0 then ctx\<lparr>tp_last_send := now\<rparr> else ctx, mq))))"

text \<open>The first forced sensor; without one, the next in turn when five seconds have passed.\<close>

definition temperature_mqtt_send ::
  "lwip \<Rightarrow> string \<Rightarrow> temperature_context \<times> 'h mqtt_context option \<Rightarrow> temperature_context \<times> 'h mqtt_context option" where
  "temperature_mqtt_send e time_str st =
     (case st of (ctx, mq) \<Rightarrow>
       (let now = lw_clock e 0; n = length (tp_sensors ctx);
            i = length (takeWhile (\<lambda>s. \<not> force (tp_mqtt s)) (tp_sensors ctx))
        in if i < n then snd (temperature_mqtt_data_send (later 1 e) time_str i (ctx, mq))
           else if now - tp_last_send ctx < TEMP_DELAY_MS then (ctx, mq)
           else
             (let idx = (if tp_send_idx ctx \<ge> n then 0 else tp_send_idx ctx)
              in snd (temperature_mqtt_data_send (later 1 e) time_str idx (ctx\<lparr>tp_send_idx := idx + 1\<rparr>, mq)))))"

section \<open>Measuring\<close>

text \<open>In doubles, as the constants of the source.\<close>

definition calc_internal :: "f32 \<Rightarrow> f32" where
  "calc_internal v = f32_of_d (d_sub (Fin 27) (d_div (d_sub v (d_rnd (706 / 1000))) (d_rnd (1721 / 1000000))))"

definition calc_ntc :: "(f32 \<Rightarrow> f32) \<Rightarrow> temperature_ntc \<Rightarrow> f32 \<Rightarrow> f32" where
  "calc_ntc logf p v =
     (let res = f32_mul NTC_PULLUP_RES (f32_sub (f32_div ADC_REF_VOLT v) (Fin 1));
          res = f32_div (Fin 1) (f32_add (f32_div (Fin 1) T_KELVIN_25)
            (f32_mul (f32_div (Fin (- 1)) (ntc_coefficient p)) (logf (f32_div res (ntc_nominal p)))))
      in f32_sub res T_KELVIN)"

text \<open>None: a thermistor without parameters, which no configuration makes.\<close>

definition temperature_calc :: "(f32 \<Rightarrow> f32) \<Rightarrow> temperature \<Rightarrow> f32 \<Rightarrow> f32 option" where
  "temperature_calc logf s v =
     (case tp_calc s of temperature_calc_internal \<Rightarrow> Some (calc_internal v)
      | temperature_calc_ntc \<Rightarrow> map_option (\<lambda>p. calc_ntc logf p v) (tp_params s))"

definition temperature_measure ::
  "(f32 \<Rightarrow> f32) \<Rightarrow> u64 \<Rightarrow> adc_env \<Rightarrow> temperature_context \<Rightarrow> temperature_context option" where
  "temperature_measure logf now e ctx =
     (let ctx = (if tp_idx ctx \<ge> length (tp_sensors ctx) then ctx\<lparr>tp_idx := 0\<rparr> else ctx); i = tp_idx ctx
      in if i \<ge> length (tp_sensors ctx) then None
         else
           (let s = tp_sensors ctx ! i
            in if now - tp_last_read s < READ_INTERVAL_MS then Some (ctx\<lparr>tp_idx := i + 1\<rparr>)
               else
                 (let adc = the (snd (adc_sensor_measure e (Some (tp_adc s))));
                      s = s\<lparr>tp_valid := False, tp_adc := adc\<rparr>
                  in case temperature_calc logf s (adc_sensor_get_volt (Some adc)) of None \<Rightarrow> None
                     | Some temp \<Rightarrow>
                         if f32_lt temp (tp_min s) \<or> f32_lt (tp_max s) temp
                         then Some (ctx\<lparr>tp_sensors := (tp_sensors ctx)[i := s]\<rparr>)
                         else
                           (let s = s\<lparr>tp_valid := True\<rparr>;
                                s = (if f32_ne (tp_value s) temp
                                     then s\<lparr>tp_mqtt := (tp_mqtt s)\<lparr>force := True\<rparr>, tp_value := temp\<rparr> else s)
                            in Some (ctx\<lparr>tp_sensors := (tp_sensors ctx)[i := s\<lparr>tp_last_read := now\<rparr>], tp_idx := i + 1\<rparr>)))))"

definition temperature_run ::
  "(f32 \<Rightarrow> f32) \<Rightarrow> lwip \<Rightarrow> string \<Rightarrow> adc_env \<Rightarrow> temperature_context \<times> 'h mqtt_context option
   \<Rightarrow> (temperature_context \<times> 'h mqtt_context option) option" where
  "temperature_run logf e time_str adc st =
     (case st of (ctx, mq) \<Rightarrow>
       (case temperature_measure logf (lw_clock e 0) adc ctx of None \<Rightarrow> None
        | Some ctx \<Rightarrow> Some (temperature_mqtt_send (later 1 e) time_str (ctx, mq))))"

definition temperature_debug_set :: "u32 \<Rightarrow> temperature_context \<Rightarrow> temperature_context" where
  "temperature_debug_set debug ctx = ctx\<lparr>tp_debug := debug\<rparr>"

section \<open>Configuration\<close>

text \<open>The two allocations of a sensor are answered by \<open>al\<close>; the index is that of the new sensor.\<close>

definition temperature_add_sensor ::
  "(nat \<Rightarrow> bool) \<Rightarrow> int \<Rightarrow> temp_type \<Rightarrow> f32 \<Rightarrow> f32 \<Rightarrow> temp_calc \<Rightarrow> temperature_ntc option
   \<Rightarrow> temperature_context \<times> 'h mqtt_context option \<Rightarrow> int \<times> temperature_context \<times> 'h mqtt_context option" where
  "temperature_add_sensor al pin type mn mx calc params st =
     (case st of (ctx, mq) \<Rightarrow>
       (let n = length (tp_sensors ctx)
        in if n \<ge> TEMP_MAX_SENSORS then (-1, ctx, mq)
           else (case adc_sensor_init (al 0) pin (Fin 0) (Fin 1) of None \<Rightarrow> (-1, ctx, mq)
             | Some adc \<Rightarrow>
                 if \<not> al 1 then (-1, ctx, mq)
                 else
                   (let name = ''temperature_'' @ temperature_type_str type @ ''_'' @ nat_str n;
                        c = empty_component\<lparr>mc_module := ''temperature'', platform := ''sensor'',
                          dev_class := Some ''temperature'', unit := Some celsius, mc_name := name,
                          value_template := ''{{ value_json['' @ [CHR 0x27] @ name @ [CHR 0x27] @ ''] }}'',
                          mc_state_topic := (if n > 1 then mc_state_topic (tp_mqtt (tp_sensors ctx ! 0)) else None)\<rparr>;
                        (_, c, mq) = mqtt_msg_component_register c mq;
                        s = \<lparr>tp_adc = adc, tp_min = mn, tp_max = mx, tp_value = Fin 0, tp_valid = False, tp_last_read = 0,
                             tp_type = type, tp_params = params, tp_calc = calc, tp_mqtt = c\<rparr>
                    in (int n, ctx\<lparr>tp_sensors := tp_sensors ctx @ [s]\<rparr>, mq)))))"

text \<open>
  The texts of \<open>tok_map\<close> are all the beginning of the entry up to its first separator: the loop
  stores \<open>tok\<close>, which the first call of \<open>strtok_r\<close> has cut there.
\<close>

definition ntc_tok_map :: "string \<Rightarrow> string list" where
  "ntc_tok_map tok =
     (let cut = takeWhile (\<lambda>c. c = CHR '':'') tok @ takeWhile (\<lambda>c. c \<noteq> CHR '':'') (dropWhile (\<lambda>c. c = CHR '':'') tok)
      in replicate (min 3 (length (strtok_all (CHR '':'') (Some tok)))) cut)"

definition ntc_entry :: "bool \<Rightarrow> string \<Rightarrow> (int \<times> temperature_ntc) option" where
  "ntc_entry alloc tok =
     (let tok_map = ntc_tok_map tok
      in if length tok_map < 3 then None
         else
           (let pin = strtol_val 10 (tok_map ! 0)
            in if pin < 0 \<or> pin \<ge> NTC_PIN_MAX \<or> \<not> alloc then None
               else Some (pin, \<lparr>ntc_nominal = f32_of_int (strtol_val 0 (tok_map ! 1)),
                                ntc_coefficient = f32_of_int (strtol_val 0 (tok_map ! 2))\<rparr>)))"

fun ntc_entries ::
  "(nat \<Rightarrow> nat \<Rightarrow> bool) \<Rightarrow> string list \<Rightarrow> temperature_context \<times> 'h mqtt_context option
   \<Rightarrow> temperature_context \<times> 'h mqtt_context option" where
  "ntc_entries al [] st = st"
| "ntc_entries al (t # ts) st =
     ntc_entries (\<lambda>k. al (Suc k)) ts
       (case ntc_entry (al 0 0) t of None \<Rightarrow> st
        | Some (pin, p) \<Rightarrow>
            snd (temperature_add_sensor (\<lambda>k. al 0 (Suc k)) pin TEMPERATURE_TYPE_NTC (Fin (- 30)) (Fin 60)
              temperature_calc_ntc (Some p) st))"

definition temperature_init_ntc ::
  "(nat \<Rightarrow> nat \<Rightarrow> bool) \<Rightarrow> string option \<Rightarrow> temperature_context \<times> 'h mqtt_context option
   \<Rightarrow> temperature_context \<times> 'h mqtt_context option" where
  "temperature_init_ntc al ntc_cfg st =
     (case ntc_cfg of None \<Rightarrow> st
      | Some s \<Rightarrow> if length s < 1 then st else ntc_entries al (strtok_all (CHR '';'') (Some s)) st)"

definition temperature_init ::
  "bool \<Rightarrow> (nat \<Rightarrow> nat \<Rightarrow> bool) \<Rightarrow> string option \<Rightarrow> 'h mqtt_context option
   \<Rightarrow> (temperature_context \<times> 'h mqtt_context option) option" where
  "temperature_init alloc al ntc_cfg mq =
     (if \<not> alloc then None
      else
        (let ctx = \<lparr>tp_debug = 0, tp_idx = 0, tp_sensors = [], tp_last_send = 0, tp_send_idx = 0\<rparr>;
             (ret, st) = temperature_add_sensor (al 0) (- 1) TEMPERATURE_TYPE_INTERNAL (Fin (- 30)) (Fin 60)
               temperature_calc_internal None (ctx, mq)
         in if ret \<noteq> 0 then None else Some (temperature_init_ntc (\<lambda>k. al (Suc k)) ntc_cfg st)))"

section \<open>Interface for the other modules\<close>

definition temperature_get_count :: "temp_type \<Rightarrow> temperature_context option \<Rightarrow> int \<times> u8" where
  "temperature_get_count type c =
     (case c of None \<Rightarrow> (-1, 0)
      | Some ctx \<Rightarrow> (0, of_nat (length (filter (\<lambda>s. tp_type s = type) (tp_sensors ctx)))))"

text \<open>None: the context is used although it is NULL.  The inner option is the value of a call that succeeds.\<close>

definition temperature_get_data :: "temp_type \<Rightarrow> int \<Rightarrow> temperature_context option \<Rightarrow> f32 option option" where
  "temperature_get_data type i c =
     (case c of None \<Rightarrow> None
      | Some ctx \<Rightarrow>
          (let ss = filter (\<lambda>s. tp_type s = type) (tp_sensors ctx)
           in Some (if 0 \<le> i \<and> i < int (length ss) \<and> tp_valid (ss ! nat i) then Some (tp_value (ss ! nat i)) else None)))"

definition temperature_internal_get :: "temperature_context option \<Rightarrow> f32 option" where
  "temperature_internal_get c =
     map_option (\<lambda>r. case r of None \<Rightarrow> Fin 0 | Some t \<Rightarrow> t) (temperature_get_data TEMPERATURE_TYPE_INTERNAL 0 c)"

section \<open>What a run measures\<close>

text \<open>The voltage of a measurement: it does not depend on what the sensor held before.\<close>

definition adc_volts :: "adc_env \<Rightarrow> f32" where
  "adc_volts e = ADC_CONVERS (the (fst (samples_filter (adc_readings e) MEASURE_COUNT MEASURE_DROP)))"

lemma adc_update_volt: "adc_volt (snd (adc_update av s)) = ADC_CONVERS av"
  using f32_of_d_ok [OF convers_ok [of av]]
  by (auto simp: adc_update_def Let_def f32_ne_def split: prod.splits if_splits)

lemma adc_measure_Some: "\<exists>a. snd (adc_sensor_measure e (Some s)) = Some a"
  by (auto simp: adc_sensor_measure_def split_beta Let_def)

lemma adc_measure_volt:
  assumes "adc_selected e"
  shows "adc_sensor_get_volt (snd (adc_sensor_measure e (Some s))) = adc_volts e"
proof -
  obtain av smp where f: "samples_filter (adc_readings e) MEASURE_COUNT MEASURE_DROP = (av, smp)" by fastforce
  obtain r s' where u: "adc_update (the av) (s\<lparr>adc_samples := smp\<rparr>) = (r, s')" by fastforce
  have "adc_volt s' = ADC_CONVERS (the av)" using adc_update_volt [of "the av" "s\<lparr>adc_samples := smp\<rparr>"] u by simp
  then show ?thesis
    using assms f u by (simp add: adc_sensor_measure_def adc_sensor_get_volt_def adc_volts_def adc_readings_def)
qed

definition in_range :: "temperature \<Rightarrow> f32 \<Rightarrow> bool" where
  "in_range s t \<longleftrightarrow> \<not> (f32_lt t (tp_min s) \<or> f32_lt (tp_max s) t)"

text \<open>A sensor after a measurement, the temperature of which is \<open>t\<close>.\<close>

definition measured :: "u64 \<Rightarrow> adc_env \<Rightarrow> f32 \<Rightarrow> temperature \<Rightarrow> temperature" where
  "measured now e t s =
     (let s = s\<lparr>tp_valid := False, tp_adc := the (snd (adc_sensor_measure e (Some (tp_adc s))))\<rparr>
      in if in_range s t then
           (let s = s\<lparr>tp_valid := True\<rparr>;
                s = (if f32_ne (tp_value s) t then s\<lparr>tp_mqtt := (tp_mqtt s)\<lparr>force := True\<rparr>, tp_value := t\<rparr> else s)
            in s\<lparr>tp_last_read := now\<rparr>)
         else s)"

definition due :: "u64 \<Rightarrow> temperature \<Rightarrow> bool" where
  "due now s \<longleftrightarrow> \<not> now - tp_last_read s < READ_INTERVAL_MS"

lemma measured_in_range:
  assumes "in_range s t"
  shows "tp_valid (measured now e t s) \<and> tp_value (measured now e t s) = t \<and> tp_last_read (measured now e t s) = now"
proof -
  have "in_range (s\<lparr>tp_valid := False, tp_adc := a\<rparr>) t" for a using assms by (simp add: in_range_def)
  then show ?thesis by (auto simp: measured_def Let_def f32_ne_def)
qed

lemma measured_out_of_range:
  assumes "\<not> in_range s t"
  shows "\<not> tp_valid (measured now e t s) \<and> tp_last_read (measured now e t s) = tp_last_read s \<and>
    tp_calc (measured now e t s) = tp_calc s \<and> tp_params (measured now e t s) = tp_params s \<and>
    tp_min (measured now e t s) = tp_min s \<and> tp_max (measured now e t s) = tp_max s"
proof -
  have "\<not> in_range (s\<lparr>tp_valid := False, tp_adc := a\<rparr>) t" for a using assms by (simp add: in_range_def)
  then show ?thesis by (auto simp: measured_def Let_def)
qed

text \<open>The position whose turn it is.\<close>

definition turn :: "temperature_context \<Rightarrow> nat" where
  "turn ctx = (if tp_idx ctx \<ge> length (tp_sensors ctx) then 0 else tp_idx ctx)"

lemma measure_step:
  assumes "tp_sensors ctx \<noteq> []" and "adc_selected e" and "due now (tp_sensors ctx ! turn ctx)"
    and "temperature_calc logf (tp_sensors ctx ! turn ctx) (adc_volts e) = Some t"
  shows "temperature_measure logf now e ctx = Some (ctx\<lparr>
    tp_sensors := (tp_sensors ctx)[turn ctx := measured now e t (tp_sensors ctx ! turn ctx)],
    tp_idx := (if in_range (tp_sensors ctx ! turn ctx) t then turn ctx + 1 else turn ctx)\<rparr>)"
proof -
  define s where "s = tp_sensors ctx ! turn ctx"
  define adc where "adc = the (snd (adc_sensor_measure e (Some (tp_adc s))))"
  define s1 where "s1 = s\<lparr>tp_valid := False, tp_adc := adc\<rparr>"
  have i: "turn ctx < length (tp_sensors ctx)" using assms(1) by (auto simp: turn_def not_le)
  have c: "temperature_calc logf s1 (adc_volts e) = Some t"
    using assms(4) by (cases "tp_calc s") (simp_all add: temperature_calc_def s1_def flip: s_def)
  have v: "adc_sensor_get_volt (Some adc) = adc_volts e"
  proof -
    obtain a where "snd (adc_sensor_measure e (Some (tp_adc s))) = Some a" using adc_measure_Some by blast
    then show ?thesis using adc_measure_volt [OF assms(2), of "tp_adc s"] by (simp add: adc_def)
  qed
  have m: "measured now e t s = (if in_range s t then
      (if f32_ne (tp_value s) t then s1\<lparr>tp_valid := True, tp_mqtt := (tp_mqtt s)\<lparr>force := True\<rparr>, tp_value := t,
        tp_last_read := now\<rparr> else s1\<lparr>tp_valid := True, tp_last_read := now\<rparr>) else s1)"
    by (simp add: measured_def Let_def s1_def adc_def in_range_def)
  have rng: "(f32_lt t (tp_min s) \<or> f32_lt (tp_max s) t) = (\<not> in_range s t)" by (simp add: in_range_def)
  have ctx0: "(if tp_idx ctx \<ge> length (tp_sensors ctx) then ctx\<lparr>tp_idx := 0\<rparr> else ctx) = ctx\<lparr>tp_idx := turn ctx\<rparr>"
    by (simp add: turn_def)
  have sel: "tp_min s1 = tp_min s" "tp_max s1 = tp_max s" "tp_value s1 = tp_value s" "tp_mqtt s1 = tp_mqtt s"
    by (simp_all add: s1_def)
  show ?thesis
    unfolding s_def [symmetric]
    using i assms(3) c v m
    by (simp add: temperature_measure_def ctx0 Let_def due_def rng sel flip: s_def adc_def s1_def)
qed

definition temperature_measures ::
  "(f32 \<Rightarrow> f32) \<Rightarrow> (u64 \<times> adc_env) list \<Rightarrow> temperature_context \<Rightarrow> temperature_context option" where
  "temperature_measures logf = run_ops (\<lambda>(now, e). temperature_measure logf now e)"

text \<open>A due measurement that is out of the range.\<close>

definition reads_out :: "(f32 \<Rightarrow> f32) \<Rightarrow> temperature \<Rightarrow> u64 \<times> adc_env \<Rightarrow> bool" where
  "reads_out logf s x \<longleftrightarrow> due (fst x) s \<and> adc_selected (snd x) \<and>
     (case temperature_calc logf s (adc_volts (snd x)) of None \<Rightarrow> False | Some t \<Rightarrow> \<not> in_range s t)"

text \<open>
  C11.  A sensor that is read out of its range stops the others: as long as it is, no other sensor is
  measured.  What the other modules get for the others is then their last value, as if it was valid.
\<close>

lemma temperature_blocked:
  assumes "tp_sensors ctx \<noteq> []" and "s = tp_sensors ctx ! turn ctx"
    and "\<forall>x \<in> set xs. reads_out logf s x"
  shows "\<exists>ctx'. temperature_measures logf xs ctx = Some ctx' \<and> turn ctx' = turn ctx \<and>
    length (tp_sensors ctx') = length (tp_sensors ctx) \<and>
    (\<forall>j. j \<noteq> turn ctx \<longrightarrow> tp_sensors ctx' ! j = tp_sensors ctx ! j) \<and>
    (xs \<noteq> [] \<longrightarrow> \<not> tp_valid (tp_sensors ctx' ! turn ctx))"
  using assms
proof (induction xs arbitrary: ctx s)
  case (Cons x xs)
  obtain now e where x: "x = (now, e)" by fastforce
  obtain t where t: "temperature_calc logf s (adc_volts e) = Some t" "\<not> in_range s t" "due now s" "adc_selected e"
    using Cons.prems(3) by (auto simp: x reads_out_def split: option.splits)
  define ctx1 where "ctx1 = ctx\<lparr>tp_sensors := (tp_sensors ctx)[turn ctx := measured now e t s], tp_idx := turn ctx\<rparr>"
  have step: "temperature_measure logf now e ctx = Some ctx1"
    using measure_step [OF Cons.prems(1) t(4)] t Cons.prems(2) by (simp add: ctx1_def)
  have i: "turn ctx < length (tp_sensors ctx)" using Cons.prems(1) by (auto simp: turn_def not_le)
  have turn: "turn ctx1 = turn ctx" using i by (simp add: turn_def ctx1_def)
  have s1: "tp_sensors ctx1 ! turn ctx1 = measured now e t s" using i by (simp add: turn) (simp add: ctx1_def)
  note m = measured_out_of_range [OF t(2), of now e]
  have calc: "reads_out logf (measured now e t s) = reads_out logf s"
  proof -
    have "in_range (measured now e t s) = in_range s" using m by (simp add: fun_eq_iff in_range_def)
    moreover have "temperature_calc logf (measured now e t s) = temperature_calc logf s"
      using m by (simp add: fun_eq_iff temperature_calc_def cong: temp_calc.case_cong)
    ultimately show ?thesis using m by (simp add: fun_eq_iff reads_out_def due_def cong: option.case_cong)
  qed
  have ne: "tp_sensors ctx1 \<noteq> []" using Cons.prems(1) by (simp add: ctx1_def)
  obtain ctx' where IH: "temperature_measures logf xs ctx1 = Some ctx'" "turn ctx' = turn ctx1"
    "length (tp_sensors ctx') = length (tp_sensors ctx1)"
    "\<forall>j. j \<noteq> turn ctx1 \<longrightarrow> tp_sensors ctx' ! j = tp_sensors ctx1 ! j"
    "xs \<noteq> [] \<longrightarrow> \<not> tp_valid (tp_sensors ctx' ! turn ctx1)"
  proof -
    have "\<forall>x \<in> set xs. reads_out logf (measured now e t s) x" using Cons.prems(3) by (simp add: calc)
    from Cons.IH [OF ne s1 [symmetric] this] that show ?thesis by blast
  qed
  have "\<not> tp_valid (tp_sensors ctx' ! turn ctx)"
  proof (cases "xs = []")
    case True
    then have "ctx' = ctx1" using IH(1) by (simp add: temperature_measures_def)
    then show ?thesis using s1 m by (simp add: turn)
  qed (use IH turn in simp)
  then show ?case using IH step turn by (auto simp: temperature_measures_def x) (auto simp: ctx1_def)
qed (simp add: temperature_measures_def)

text \<open>Which of \<open>n\<close> runs, beginning at position \<open>a\<close>, measures sensor \<open>i\<close>.\<close>

definition next_turn :: "nat \<Rightarrow> nat \<Rightarrow> nat \<Rightarrow> nat" where
  "next_turn n a i = (i + n - a) mod n"

lemma next_turn_upd:
  assumes "k < n" and "a < n" and "i < n"
  shows "next_turn n a i = k \<longleftrightarrow> i = (a + k) mod n"
proof
  assume "next_turn n a i = k"
  then have "(a + k) mod n = (a + (i + n - a)) mod n" by (auto simp: next_turn_def mod_simps)
  also have "\<dots> = i" using assms by simp
  finally show "i = (a + k) mod n" by simp
next
  assume i: "i = (a + k) mod n"
  show "next_turn n a i = k"
  proof (cases "a + k < n")
    case False
    then have "i = a + k - n" using i assms by (simp add: le_mod_geq)
    then show ?thesis using False assms by (simp add: next_turn_def)
  qed (use i assms in \<open>simp add: next_turn_def\<close>)
qed

lemma measures_prefix:
  assumes "n = length (tp_sensors ctx)" and "0 < n" and "k \<le> n" and "length xs = n"
    and "\<And>j i. j < n \<Longrightarrow> i < n \<Longrightarrow> due (fst (xs ! j)) (tp_sensors ctx ! i) \<and> adc_selected (snd (xs ! j)) \<and>
      temperature_calc logf (tp_sensors ctx ! i) (adc_volts (snd (xs ! j))) = Some (val i j) \<and>
      in_range (tp_sensors ctx ! i) (val i j)"
  shows "\<exists>ctx'. temperature_measures logf (take k xs) ctx = Some ctx' \<and> turn ctx' = (turn ctx + k) mod n \<and>
    length (tp_sensors ctx') = n \<and>
    (\<forall>i < n. tp_sensors ctx' ! i = (let j = next_turn n (turn ctx) i
       in if j < k then measured (fst (xs ! j)) (snd (xs ! j)) (val i j) (tp_sensors ctx ! i) else tp_sensors ctx ! i))"
  using assms(3)
proof (induction k)
  case 0
  have "turn ctx < n" using assms(1,2) by (auto simp: turn_def)
  then show ?case using assms(1) by (simp add: temperature_measures_def)
next
  case (Suc k)
  then obtain c where c: "temperature_measures logf (take k xs) ctx = Some c" "turn c = (turn ctx + k) mod n"
    "length (tp_sensors c) = n"
    "\<And>i. i < n \<Longrightarrow> tp_sensors c ! i = (let j = next_turn n (turn ctx) i
       in if j < k then measured (fst (xs ! j)) (snd (xs ! j)) (val i j) (tp_sensors ctx ! i) else tp_sensors ctx ! i)"
    by auto
  define i where "i = turn c"
  have lt: "turn ctx < n" "i < n" using assms(1,2) c(3) by (auto simp: turn_def i_def not_le)
  note nt = next_turn_upd [OF _ lt(1)]
  have s: "tp_sensors c ! i = tp_sensors ctx ! i"
    using c(4) [OF lt(2)] nt [of k i] lt(2) Suc.prems by (simp add: i_def c(2) Let_def)
  obtain now e where x: "xs ! k = (now, e)" by fastforce
  note f = assms(5) [of k i, unfolded x fst_conv snd_conv]
  have step: "temperature_measure logf now e c = Some (c\<lparr>
      tp_sensors := (tp_sensors c)[i := measured now e (val i k) (tp_sensors ctx ! i)], tp_idx := i + 1\<rparr>)"
  proof -
    have ne: "tp_sensors c \<noteq> []" using c(3) assms(2) by auto
    have ck: "due now (tp_sensors ctx ! i)" "adc_selected e" "in_range (tp_sensors ctx ! i) (val i k)"
      "temperature_calc logf (tp_sensors ctx ! i) (adc_volts e) = Some (val i k)" using f Suc.prems lt(2) by auto
    show ?thesis using measure_step [of c e now logf "val i k"] ne ck s unfolding i_def [symmetric] by simp
  qed
  have tk: "take (Suc k) xs = take k xs @ [(now, e)]"
    using Suc.prems assms(4) x by (simp add: take_Suc_conv_app_nth)
  define c' where "c' = c\<lparr>tp_sensors := (tp_sensors c)[i := measured now e (val i k) (tp_sensors ctx ! i)], tp_idx := i + 1\<rparr>"
  have "temperature_measures logf (take (Suc k) xs) ctx = Some c'"
    using c(1) step by (simp add: tk temperature_measures_def run_ops_append c'_def)
  moreover have "turn c' = (turn ctx + Suc k) mod n"
  proof -
    have "turn c' = Suc i mod n"
    proof (cases "Suc i < n")
      case True
      then show ?thesis using c(3) by (simp add: turn_def c'_def)
    next
      case False
      then have "Suc i = n" using lt(2) by simp
      then show ?thesis using c(3) by (simp add: turn_def c'_def)
    qed
    then show ?thesis using c(2) by (simp add: i_def mod_Suc_eq)
  qed
  moreover have "tp_sensors c' ! l = (let j = next_turn n (turn ctx) l
      in if j < Suc k then measured (fst (xs ! j)) (snd (xs ! j)) (val l j) (tp_sensors ctx ! l) else tp_sensors ctx ! l)"
    if "l < n" for l
  proof (cases "l = i")
    case True
    then have "next_turn n (turn ctx) l = k" using nt [of k l] that Suc.prems by (simp add: i_def c(2))
    then show ?thesis using True lt c(3) x by (simp add: c'_def)
  next
    case False
    then have "next_turn n (turn ctx) l \<noteq> k" using nt [of k l] that Suc.prems by (simp add: i_def c(2))
    then show ?thesis using False c(4) [OF that] by (simp add: c'_def Let_def less_Suc_eq)
  qed
  ultimately show ?case using c(3) by (simp add: c'_def)
qed

text \<open>
  C10.  A round measures every sensor: when all are due and every reading is in the range of its sensor,
  as many runs as there are sensors measure each exactly once, in the order of the array from the
  current one, and all their readings are valid for the other modules.
\<close>

lemma temperature_round:
  assumes "n = length (tp_sensors ctx)" and "0 < n" and "length xs = n"
    and "\<And>j i. j < n \<Longrightarrow> i < n \<Longrightarrow> due (fst (xs ! j)) (tp_sensors ctx ! i) \<and> adc_selected (snd (xs ! j)) \<and>
      temperature_calc logf (tp_sensors ctx ! i) (adc_volts (snd (xs ! j))) = Some (val i j) \<and>
      in_range (tp_sensors ctx ! i) (val i j)"
  shows "\<exists>ctx'. temperature_measures logf xs ctx = Some ctx' \<and> turn ctx' = turn ctx \<and>
    length (tp_sensors ctx') = n \<and>
    (\<forall>i < n. tp_valid (tp_sensors ctx' ! i) \<and>
       tp_value (tp_sensors ctx' ! i) = val i (next_turn n (turn ctx) i) \<and>
       tp_last_read (tp_sensors ctx' ! i) = fst (xs ! next_turn n (turn ctx) i))"
proof -
  obtain ctx' where c: "temperature_measures logf (take n xs) ctx = Some ctx'" "turn ctx' = (turn ctx + n) mod n"
    "length (tp_sensors ctx') = n"
    "\<forall>i < n. tp_sensors ctx' ! i = (let j = next_turn n (turn ctx) i
       in if j < n then measured (fst (xs ! j)) (snd (xs ! j)) (val i j) (tp_sensors ctx ! i) else tp_sensors ctx ! i)"
    using measures_prefix [OF assms(1,2) order.refl assms(3,4)] by blast
  have j: "next_turn n a i < n" for a i using assms(2) by (simp add: next_turn_def)
  have "turn ctx < n" using assms(1,2) by (auto simp: turn_def)
  then show ?thesis
    using c j assms(3) measured_in_range assms(4) [OF j] by (simp add: Let_def)
qed

section \<open>The parameters of a thermistor\<close>

text \<open>
  Whatever an entry of the configuration says, both parameters of its thermistor are the number of
  its pin; the last analog pin is refused.
\<close>

lemma ntc_parameters_are_pin:
  assumes "ntc_entry alloc tok = Some (pin, p)"
  shows "\<exists>t. pin = strtol_val 10 t \<and> ntc_nominal p = f32_of_int (strtol_val 0 t) \<and>
    ntc_coefficient p = f32_of_int (strtol_val 0 t)"
  using assms by (auto simp: ntc_entry_def ntc_tok_map_def Let_def split: if_splits)

lemma ntc_entry_examples:
  "ntc_entry True ''26:50000:3950'' = Some (26, \<lparr>ntc_nominal = Fin 26, ntc_coefficient = Fin 26\<rparr>)"
  "ntc_entry True ''28:50000:3950'' = None"
  by code_simp+

section \<open>Witnesses\<close>

text \<open>Two thermistors, with a constant in the place of the logarithm.\<close>

definition demo_ntc :: temperature where
  "demo_ntc = \<lparr>tp_adc = \<lparr>adc_pin = 26, adc_id = 0, adc_a = Fin 0, adc_b = Fin 1, adc_samples = replicate 30 0,
       adc_value = Fin 0, adc_volt = Fin 0, adc_percent = Fin 0, adc_raw = 0\<rparr>,
     tp_min = Fin (- 30), tp_max = Fin 60, tp_value = Fin 0, tp_valid = False, tp_last_read = 0,
     tp_type = TEMPERATURE_TYPE_NTC, tp_params = Some \<lparr>ntc_nominal = Fin 10000, ntc_coefficient = Fin 3950\<rparr>,
     tp_calc = temperature_calc_ntc, tp_mqtt = demo_component\<rparr>"

definition demo_temperature :: temperature_context where
  "demo_temperature = \<lparr>tp_debug = 0, tp_idx = 0, tp_sensors = [demo_ntc, demo_ntc\<lparr>tp_value := Fin 21, tp_valid := True\<rparr>],
     tp_last_send = 0, tp_send_idx = 0\<rparr>"

definition demo_adc_on :: adc_env where
  "demo_adc_on = \<lparr>adc_selected = True, adc_read = (\<lambda>_. 2048)\<rparr>"

text \<open>The temperature when the logarithm is \<open>x\<close>.\<close>

definition demo_temp :: "f32 \<Rightarrow> f32" where
  "demo_temp x = f32_sub (f32_div (Fin 1) (f32_add (f32_div (Fin 1) T_KELVIN_25) (f32_mul (f32_div (Fin (- 1)) (Fin 3950)) x))) T_KELVIN"

lemma demo_temp_range: "in_range demo_ntc (demo_temp (Fin 0))" "\<not> in_range demo_ntc (demo_temp (Fin 10))"
  by code_simp+

lemma demo_calc:
  "temperature_calc (\<lambda>_. x) demo_ntc v = Some (demo_temp x)"
  "temperature_calc (\<lambda>_. x) (demo_ntc\<lparr>tp_value := Fin 21, tp_valid := True\<rparr>) v = Some (demo_temp x)"
  by (simp_all add: temperature_calc_def demo_ntc_def calc_ntc_def demo_temp_def Let_def)

lemma temperature_blocked_witness:
  "\<exists>ctx'. temperature_measures (\<lambda>_. Fin 10) (replicate 100 (1000, demo_adc_on)) demo_temperature = Some ctx' \<and>
    \<not> tp_valid (tp_sensors ctx' ! 0) \<and> tp_sensors ctx' ! 1 = tp_sensors demo_temperature ! 1"
proof -
  have t: "turn demo_temperature = 0" by (simp add: turn_def demo_temperature_def)
  have "\<forall>x \<in> set (replicate 100 (1000, demo_adc_on)). reads_out (\<lambda>_. Fin 10) demo_ntc x"
    using demo_temp_range(2)
    by (simp add: reads_out_def demo_calc due_def demo_adc_on_def READ_INTERVAL_MS_def) (simp add: demo_ntc_def)
  then show ?thesis
    using temperature_blocked [of demo_temperature demo_ntc "replicate 100 (1000, demo_adc_on)" "\<lambda>_. Fin 10"]
    by (auto simp: t) (auto simp: demo_temperature_def)
qed

lemma temperature_round_witness:
  "\<exists>ctx'. temperature_measures (\<lambda>_. Fin 0) [(1000, demo_adc_on), (1001, demo_adc_on)] demo_temperature = Some ctx' \<and>
    tp_valid (tp_sensors ctx' ! 0) \<and> tp_value (tp_sensors ctx' ! 0) = demo_temp (Fin 0) \<and>
    tp_valid (tp_sensors ctx' ! 1) \<and> tp_last_read (tp_sensors ctx' ! 1) = 1001"
proof -
  let ?xs = "[(1000 :: u64, demo_adc_on), (1001, demo_adc_on)]"
  have t: "turn demo_temperature = 0" "length (tp_sensors demo_temperature) = 2"
    by (simp_all add: turn_def demo_temperature_def)
  have s: "tp_sensors demo_temperature ! i = demo_ntc \<or> tp_sensors demo_temperature ! i = demo_ntc\<lparr>tp_value := Fin 21, tp_valid := True\<rparr>"
    if "i < 2" for i
    using that by (auto simp: demo_temperature_def less_2_cases_iff)
  have l: "tp_last_read demo_ntc = 0" by (simp add: demo_ntc_def)
  have r: "in_range (demo_ntc\<lparr>tp_value := Fin 21, tp_valid := True\<rparr>) x = in_range demo_ntc x" for x
    by (simp add: in_range_def)
  have d: "due (fst (?xs ! j)) (tp_sensors demo_temperature ! i) \<and> adc_selected (snd (?xs ! j)) \<and>
      temperature_calc (\<lambda>_. Fin 0) (tp_sensors demo_temperature ! i) (adc_volts (snd (?xs ! j))) = Some (demo_temp (Fin 0)) \<and>
      in_range (tp_sensors demo_temperature ! i) (demo_temp (Fin 0))" if "j < 2" "i < 2" for j i
    using s [OF that(2)] that(1) demo_temp_range(1)
    by (auto simp: demo_calc r l due_def READ_INTERVAL_MS_def demo_adc_on_def less_2_cases_iff)
  obtain ctx' where c: "temperature_measures (\<lambda>_. Fin 0) ?xs demo_temperature = Some ctx'"
    "\<forall>i < 2. tp_valid (tp_sensors ctx' ! i) \<and> tp_value (tp_sensors ctx' ! i) = demo_temp (Fin 0) \<and>
       tp_last_read (tp_sensors ctx' ! i) = fst (?xs ! next_turn 2 (turn demo_temperature) i)"
    using temperature_round [of 2 demo_temperature ?xs "\<lambda>_. Fin 0" "\<lambda>_ _. demo_temp (Fin 0)"] d t by auto
  have "tp_last_read (tp_sensors ctx' ! 1) = 1001" using c(2) by (simp add: t next_turn_def)
  then show ?thesis using c by auto
qed

end
