(* ===== verification/Soil.thy ===== *)
theory Soil
  imports AdcSensor Webhook Ssr
begin

text \<open>
  The soil sensors, \<open>libs/common/devices/soil/soil.c\<close>: a digital and an analog input each, measured
  every five seconds, with a MQTT report and a notification by webhook when the digital input
  changes.  \<open>sl_send_idx\<close> is the static variable of \<open>soil_mqtt_send\<close>.
\<close>

definition MAX_SOIL_SENSORS_COUNT :: nat where "MAX_SOIL_SENSORS_COUNT = 5"
definition SOIL_SEND_INTERVAL_MS :: u64 where "SOIL_SEND_INTERVAL_MS = 10000"
definition SOIL_INTERVAL_MS :: u64 where "SOIL_INTERVAL_MS = 5000"
definition WH_SEND_DELAY_MS :: u64 where "WH_SEND_DELAY_MS = 5000"
definition SOIL_DATA_LEN :: nat where "SOIL_DATA_LEN = 128"

record soil_analog =
  sa_adc :: "adc_sensor option"
  sa_mqtt :: mqtt_component

record soil_sensor =
  analog_pin :: int
  analog :: "soil_analog option"
  digital_pin :: int
  last_digital :: u8
  wh_send :: bool
  sl_wh_last :: u64
  sl_mqtt :: mqtt_component

record soil_context =
  sl_count :: nat
  sl_sensors :: "soil_sensor list"
  sl_last_send :: u64
  sl_debug :: u32
  sl_last_run :: u64
  sl_notify :: bool
  sl_send_idx :: nat

section \<open>Notification\<close>

definition soil_percent :: "soil_sensor \<Rightarrow> int" where
  "soil_percent s = (case analog s of None \<Rightarrow> 0 | Some a \<Rightarrow> adc_sensor_get_percent (sa_adc a))"

definition soil_notice :: "nat \<Rightarrow> soil_sensor \<Rightarrow> string" where
  "soil_notice i s = take (WH_PAYLOAD_MAX_SIZE - 1)
     (''Soil sensor '' @ nat_str i @ '': status '' @ (if last_digital s \<noteq> 0 then ''dry'' else ''wet'') @
      '' ('' @ int_str (soil_percent s) @ '')'')"

text \<open>None: a call of the webhook that does not return.\<close>

definition soil_wh_notify_send ::
  "wh_env \<Rightarrow> nat \<Rightarrow> soil_sensor \<times> webhook option \<Rightarrow> (soil_sensor \<times> webhook option) option" where
  "soil_wh_notify_send e i st =
     (case st of (s, wh) \<Rightarrow>
       if \<not> webhook_connected wh then Some (s, wh)
       else
         (let now = wh_clock e 0
          in if now - sl_wh_last s < WH_SEND_DELAY_MS then Some (s, wh)
             else (case webhook_send (wh_later 1 e) (soil_notice i s) wh of None \<Rightarrow> None
               | Some (ret, wh) \<Rightarrow>
                   Some ((if ret = 0 then s\<lparr>wh_send := False\<rparr> else s)\<lparr>sl_wh_last := now\<rparr>, wh))))"

section \<open>MQTT report\<close>

definition soil_payload :: "string \<Rightarrow> nat \<Rightarrow> soil_sensor \<Rightarrow> string option" where
  "soil_payload time_str i s = build_msg SOIL_DATA_LEN
     [''{'', ''\"timestamp\": \"'' @ time_str @ ''\"'', '',\"id\": \"'' @ nat_str i @ ''\"'',
      '',\"value_d\": \"'' @ nat_str (unat (last_digital s)) @ ''\"'',
      '',\"value_a\": \"'' @ int_str (soil_percent s) @ ''\"'', ''}'']"

definition soil_mqtt_sensor_send ::
  "lwip \<Rightarrow> string \<Rightarrow> nat \<Rightarrow> soil_context \<times> 'h mqtt_context option
   \<Rightarrow> int \<times> soil_context \<times> 'h mqtt_context option" where
  "soil_mqtt_sensor_send e time_str idx st =
     (case st of (ctx, mq) \<Rightarrow>
       (let now = lw_clock e 0; s = sl_sensors ctx ! idx
        in case soil_payload time_str idx s of None \<Rightarrow> (-1, ctx, mq)
           | Some p \<Rightarrow>
               (let (ret, c, mq) = mqtt_msg_component_publish (later 1 e) (sl_mqtt s) p mq;
                    ctx = ctx\<lparr>sl_sensors := (sl_sensors ctx)[idx := s\<lparr>sl_mqtt := c\<rparr>]\<rparr>
                in (ret, if ret = 0 then ctx\<lparr>sl_last_send := now\<rparr> else ctx, mq))))"

definition soil_mqtt_send ::
  "lwip \<Rightarrow> string \<Rightarrow> soil_context \<times> 'h mqtt_context option \<Rightarrow> soil_context \<times> 'h mqtt_context option" where
  "soil_mqtt_send e time_str st =
     (case st of (ctx, mq) \<Rightarrow>
       (let i = length (takeWhile (\<lambda>s. \<not> force (sl_mqtt s)) (take (sl_count ctx) (sl_sensors ctx)))
        in if i < sl_count ctx then snd (soil_mqtt_sensor_send e time_str i (ctx, mq))
           else
             (let now = lw_clock e 0
              in if sl_last_send ctx \<noteq> 0 \<and> now - sl_last_send ctx < SOIL_SEND_INTERVAL_MS then (ctx, mq)
                 else
                   (let idx = (if sl_send_idx ctx \<ge> sl_count ctx then 0 else sl_send_idx ctx);
                        (ret, ctx, mq) = soil_mqtt_sensor_send (later 1 e) time_str idx (ctx\<lparr>sl_send_idx := idx\<rparr>, mq)
                    in (if ret = 0 then ctx\<lparr>sl_send_idx := idx + 1\<rparr> else ctx, mq)))))"

section \<open>Measuring\<close>

text \<open>1 is dry, 0 is wet.  \<open>level\<close> is the level of the pin, \<open>notify\<close> the setting of the module.\<close>

definition measure_digital :: "bool \<Rightarrow> u8 \<Rightarrow> soil_sensor \<Rightarrow> soil_sensor" where
  "measure_digital notify level s =
     (if level \<noteq> last_digital s then
        (let s = s\<lparr>last_digital := level\<rparr>;
             s = (if notify then s\<lparr>wh_send := True\<rparr> else s)
         in s\<lparr>sl_mqtt := (sl_mqtt s)\<lparr>force := True\<rparr>\<rparr>)
      else s)"

text \<open>What the hardware and the network answer while a sensor is measured.\<close>

record soil_env =
  se_adc :: adc_env
  se_level :: u8
  se_wh :: wh_env

definition measure_analog :: "adc_env \<Rightarrow> soil_sensor \<Rightarrow> soil_sensor" where
  "measure_analog e s =
     (case analog s of None \<Rightarrow> s
      | Some a \<Rightarrow>
          (let (chg, adc) = adc_sensor_measure e (sa_adc a); s = s\<lparr>analog := Some (a\<lparr>sa_adc := adc\<rparr>)\<rparr>
           in if chg then s\<lparr>sl_mqtt := (sl_mqtt s)\<lparr>force := True\<rparr>\<rparr> else s))"

definition soil_measure ::
  "bool \<Rightarrow> soil_env \<Rightarrow> nat \<Rightarrow> soil_sensor \<times> webhook option \<Rightarrow> (soil_sensor \<times> webhook option) option" where
  "soil_measure notify e i st =
     (case st of (s, wh) \<Rightarrow>
       (let s = measure_analog (se_adc e) s
        in if digital_pin s \<ge> 0 then
             (let s = measure_digital notify (se_level e) s
              in if wh_send s then soil_wh_notify_send (se_wh e) i (s, wh) else Some (s, wh))
           else Some (s, wh)))"

fun soil_measures ::
  "bool \<Rightarrow> (nat \<Rightarrow> soil_env) \<Rightarrow> nat list \<Rightarrow> soil_sensor list \<times> webhook option
   \<Rightarrow> (soil_sensor list \<times> webhook option) option" where
  "soil_measures notify e [] st = Some st"
| "soil_measures notify e (i # is) (ss, wh) =
     (case soil_measure notify (e i) i (ss ! i, wh) of None \<Rightarrow> None
      | Some (s, wh) \<Rightarrow> soil_measures notify e is (ss[i := s], wh))"

definition soil_run ::
  "lwip \<Rightarrow> string \<Rightarrow> (nat \<Rightarrow> soil_env) \<Rightarrow> soil_context \<times> webhook option \<times> 'h mqtt_context option
   \<Rightarrow> (soil_context \<times> webhook option \<times> 'h mqtt_context option) option" where
  "soil_run e time_str env st =
     (case st of (ctx, wh, mq) \<Rightarrow>
       (let now = lw_clock e 0
        in if now - sl_last_run ctx < SOIL_INTERVAL_MS then Some (ctx, wh, mq)
           else (case soil_measures (sl_notify ctx) env [0 ..< sl_count ctx] (sl_sensors ctx, wh) of None \<Rightarrow> None
             | Some (ss, wh) \<Rightarrow>
                 (let (ctx, mq) = soil_mqtt_send (later 1 e) time_str (ctx\<lparr>sl_sensors := ss\<rparr>, mq)
                  in Some (ctx\<lparr>sl_last_run := now\<rparr>, wh, mq)))))"

definition soil_debug_set :: "u32 \<Rightarrow> soil_context \<Rightarrow> soil_context" where
  "soil_debug_set debug ctx = ctx\<lparr>sl_debug := debug\<rparr>"

section \<open>Configuration\<close>

definition soil_pin :: "bool \<Rightarrow> string \<Rightarrow> soil_sensor list \<Rightarrow> nat \<times> soil_sensor list" where
  "soil_pin digital tok ss =
     (case strtok_all (CHR '':'') (Some tok) of
        t1 # t2 # _ \<Rightarrow>
          (let idx = strtol_val 10 t1; pin = strtol_val 10 t2
           in if idx < 0 \<or> idx \<ge> int MAX_SOIL_SENSORS_COUNT \<or> pin < 0 \<or> pin > 40 then (0, ss)
              else (1, upd_at (nat idx) (\<lambda>s. if digital then s\<lparr>digital_pin := pin\<rparr> else s\<lparr>analog_pin := pin\<rparr>) ss))
      | _ \<Rightarrow> (0, ss))"

text \<open>
  The first five entries, the last of them first.  Without any entry the loop tokenizes the first
  element of \<open>config_tokens\<close>, which was not set: None.
\<close>

definition soil_read_pin_cfg :: "bool \<Rightarrow> string option \<Rightarrow> soil_sensor list \<Rightarrow> (nat \<times> soil_sensor list) option" where
  "soil_read_pin_cfg digital cfg ss =
     (case cfg of None \<Rightarrow> Some (0, ss)
      | Some c \<Rightarrow>
          (let toks = take MAX_SOIL_SENSORS_COUNT (strtok_all (CHR '';'') (Some c))
           in if toks = [] then None
              else Some (fold (\<lambda>tok (n, ss). case soil_pin digital tok ss of (k, ss) \<Rightarrow> (n + k, ss)) (rev toks) (0, ss))))"

definition soil_zero :: soil_sensor where
  "soil_zero = \<lparr>analog_pin = - 1, analog = None, digital_pin = - 1, last_digital = 0, wh_send = False,
     sl_wh_last = 0, sl_mqtt = empty_component\<rparr>"

text \<open>Whether a sensor counts, and its analog part; \<open>al\<close> answers its two allocations.\<close>

definition soil_setup :: "(nat \<Rightarrow> bool) \<Rightarrow> soil_sensor \<Rightarrow> nat \<times> soil_sensor" where
  "soil_setup al s =
     (let n = (if digital_pin s \<ge> 0 then 1 else 0)
      in if analog_pin s \<ge> 0 \<and> al 0 then
           (let adc = adc_sensor_init (al 1) (analog_pin s) (Fin 0) (Fin 1);
                s = s\<lparr>analog := Some \<lparr>sa_adc = adc, sa_mqtt = empty_component\<rparr>\<rparr>
            in (if adc \<noteq> None \<and> digital_pin s < 0 then n + 1 else n, s))
         else (n, s))"

definition soil_component :: "nat \<Rightarrow> mqtt_component" where
  "soil_component i = empty_component\<lparr>mc_module := ''soil'', platform := ''binary_sensor'', dev_class := Some ''moisture'',
     payload_on := Some ''0'', payload_off := Some ''1'',
     value_template := ''{{ value_json['' @ [CHR 0x27] @ ''value_d'' @ [CHR 0x27] @ ''] }}'',
     mc_name := ''Soil_'' @ nat_str i\<rparr>"

definition soil_analog_component :: "nat \<Rightarrow> string option \<Rightarrow> mqtt_component" where
  "soil_analog_component i topic = empty_component\<lparr>mc_module := ''soil'', platform := ''sensor'', dev_class := Some ''moisture'',
     value_template := ''{{ value_json['' @ [CHR 0x27] @ ''value_a'' @ [CHR 0x27] @ ''] }}'',
     mc_name := ''SoilA_'' @ nat_str i, mc_state_topic := topic\<rparr>"

definition soil_mqtt_init ::
  "soil_context \<times> 'h mqtt_context option \<Rightarrow> soil_context \<times> 'h mqtt_context option" where
  "soil_mqtt_init st =
     (case st of (ctx, mq) \<Rightarrow>
       fold (\<lambda>i (ctx, mq).
           let s = sl_sensors ctx ! i;
               (_, c, mq) = mqtt_msg_component_register (soil_component i) mq; s = s\<lparr>sl_mqtt := c\<rparr>;
               (s, mq) = (case analog s of None \<Rightarrow> (s, mq)
                 | Some a \<Rightarrow>
                     (let (_, ca, mq) = mqtt_msg_component_register (soil_analog_component i (mc_state_topic c)) mq
                      in (s\<lparr>analog := Some (a\<lparr>sa_mqtt := ca\<rparr>)\<rparr>, mq)))
           in (ctx\<lparr>sl_sensors := (sl_sensors ctx)[i := s]\<rparr>, mq))
         [0 ..< sl_count ctx] (ctx, mq))"

text \<open>The outer None is the use of the unset token.\<close>

definition soil_init ::
  "bool \<Rightarrow> (nat \<Rightarrow> nat \<Rightarrow> bool) \<Rightarrow> string option \<Rightarrow> string option \<Rightarrow> string option \<Rightarrow> 'h mqtt_context option
   \<Rightarrow> (soil_context \<times> 'h mqtt_context option) option option" where
  "soil_init alloc al digital analog_cfg wnotify mq =
     (let none = (\<lambda>c. case c of None \<Rightarrow> True | Some s \<Rightarrow> length s < 1)
      in if none digital \<and> none analog_cfg \<or> \<not> alloc then Some None
         else (case soil_read_pin_cfg True digital (replicate MAX_SOIL_SENSORS_COUNT soil_zero) of None \<Rightarrow> None
           | Some (n, ss) \<Rightarrow> (case soil_read_pin_cfg False analog_cfg ss of None \<Rightarrow> None
             | Some (m, ss) \<Rightarrow>
                 if n + m < 1 then Some None
                 else
                   (let rs = map (\<lambda>i. soil_setup (al i) (ss ! i)) [0 ..< MAX_SOIL_SENSORS_COUNT];
                        notify = (case wnotify of None \<Rightarrow> False | Some w \<Rightarrow> length w \<ge> 1 \<and> strtol_val 0 w \<noteq> 0);
                        ctx = \<lparr>sl_count = sum_list (map fst rs), sl_sensors = map snd rs, sl_last_send = 0,
                          sl_debug = 0, sl_last_run = 0, sl_notify = notify, sl_send_idx = 0\<rparr>
                    in if sl_count ctx < 1 then Some None else Some (Some (soil_mqtt_init (ctx, mq)))))))"

section \<open>What a run measures\<close>

text \<open>A sensor with the readings of \<open>e\<close>, up to what its report and notification still have to do.\<close>

definition soil_reads :: "soil_env \<Rightarrow> soil_sensor \<Rightarrow> soil_sensor \<Rightarrow> bool" where
  "soil_reads e s s' \<longleftrightarrow>
     (if digital_pin s \<ge> 0 then last_digital s' = se_level e else last_digital s' = last_digital s) \<and>
     map_option sa_adc (analog s') = map_option (\<lambda>a. snd (adc_sensor_measure (se_adc e) (sa_adc a))) (analog s) \<and>
     digital_pin s' = digital_pin s \<and> analog_pin s' = analog_pin s"

definition soil_core :: "soil_sensor \<Rightarrow> u8 \<times> soil_analog option \<times> int \<times> int" where
  "soil_core s = (last_digital s, analog s, digital_pin s, analog_pin s)"

lemma reads_core: "soil_core a = soil_core b \<Longrightarrow> soil_reads e s a = soil_reads e s b"
  by (simp add: soil_core_def soil_reads_def)

lemma measure_parts:
  "soil_reads e s (if digital_pin s \<ge> 0 then measure_digital n (se_level e) (measure_analog (se_adc e) s)
     else measure_analog (se_adc e) s)"
  by (auto simp: soil_reads_def measure_digital_def measure_analog_def Let_def split_beta split: option.splits)

lemma measure_analog_pin [simp]: "digital_pin (measure_analog e s) = digital_pin s"
  by (simp add: measure_analog_def split_beta Let_def split: option.split)

text \<open>
  Without notifications by webhook no call of it is made: \<open>soil_quiet\<close> is a module that is not
  configured to notify and has no notification pending.
\<close>

definition soil_quiet :: "soil_context \<Rightarrow> bool" where
  "soil_quiet ctx \<longleftrightarrow> \<not> sl_notify ctx \<and> list_all (\<lambda>s. \<not> wh_send s) (sl_sensors ctx)"

lemma measure_wh_send:
  "wh_send (measure_analog e s) = wh_send s" "wh_send (measure_digital False l s) = wh_send s"
  by (simp_all add: measure_analog_def measure_digital_def Let_def split_beta split: option.split)

lemma measured_one:
  assumes "\<not> wh_send s"
  shows "\<exists>s'. soil_measure False e i (s, wh) = Some (s', wh) \<and> \<not> wh_send s' \<and> soil_reads e s s'"
  using measure_parts [of e s False] assms
  by (auto simp: soil_measure_def Let_def measure_wh_send split: if_splits)

lemma measured_all:
  assumes "\<forall>s\<in>set ss. \<not> wh_send s" and "distinct is" and "\<forall>i\<in>set is. i < length ss"
  shows "\<exists>ss'. soil_measures False e is (ss, wh) = Some (ss', wh) \<and> (\<forall>s\<in>set ss'. \<not> wh_send s) \<and>
    length ss' = length ss \<and>
    (\<forall>i\<in>set is. soil_reads (e i) (ss ! i) (ss' ! i)) \<and> (\<forall>i. i \<notin> set is \<longrightarrow> ss' ! i = ss ! i)"
  using assms
proof (induction "is" arbitrary: ss)
  case (Cons i js)
  have "\<not> wh_send (ss ! i)" using Cons.prems by simp
  from measured_one [OF this] obtain s' where s: "soil_measure False (e i) i (ss ! i, wh) = Some (s', wh)"
    "\<not> wh_send s'" "soil_reads (e i) (ss ! i) s'" by blast
  have q: "\<forall>s\<in>set (ss[i := s']). \<not> wh_send s"
    using Cons.prems(1) s(2) set_update_subset_insert [of ss i s'] by auto
  obtain ss' where r: "soil_measures False e js (ss[i := s'], wh) = Some (ss', wh)" "\<forall>s\<in>set ss'. \<not> wh_send s"
    "length ss' = length ss" "\<forall>j\<in>set js. soil_reads (e j) (ss[i := s'] ! j) (ss' ! j)"
    "\<forall>j. j \<notin> set js \<longrightarrow> ss' ! j = ss[i := s'] ! j"
    using Cons.IH [OF q] Cons.prems by auto
  have "soil_reads (e j) (ss ! j) (ss' ! j)" if "j \<in> set (i # js)" for j
    using that r(4,5) s(3) Cons.prems by (cases "j = i") auto
  then show ?case using r s Cons.prems by auto
qed simp

text \<open>A sensor without the state of its report.\<close>

definition unreported :: "soil_sensor \<Rightarrow> soil_sensor" where
  "unreported s = s\<lparr>sl_mqtt := empty_component\<rparr>"

lemma unreported_upd: "map unreported (xs[k := (xs ! k)\<lparr>sl_mqtt := c\<rparr>]) = map unreported xs"
proof (cases "k < length xs")
  case True
  then have "unreported ((xs ! k)\<lparr>sl_mqtt := c\<rparr>) = map unreported xs ! k" by (simp add: unreported_def)
  then show ?thesis by (simp only: map_update list_update_id)
qed (simp add: list_update_beyond)

lemma sensor_send_keeps:
  "map unreported (sl_sensors (fst (snd (soil_mqtt_sensor_send e t k (c, mq))))) = map unreported (sl_sensors c) \<and>
   sl_count (fst (snd (soil_mqtt_sensor_send e t k (c, mq)))) = sl_count c \<and>
   sl_notify (fst (snd (soil_mqtt_sensor_send e t k (c, mq)))) = sl_notify c"
  by (auto simp: soil_mqtt_sensor_send_def Let_def split_beta unreported_upd split: option.split)

lemma report_keeps:
  "map unreported (sl_sensors (fst (soil_mqtt_send e t (ctx, mq)))) = map unreported (sl_sensors ctx) \<and>
   sl_count (fst (soil_mqtt_send e t (ctx, mq))) = sl_count ctx \<and>
   sl_notify (fst (soil_mqtt_send e t (ctx, mq))) = sl_notify ctx"
  by (auto simp: soil_mqtt_send_def Let_def split_beta sensor_send_keeps)

lemma unreported_quiet:
  assumes "map unreported xs = map unreported ys"
  shows "list_all (\<lambda>s. \<not> wh_send s) xs = list_all (\<lambda>s. \<not> wh_send s) ys"
proof -
  have "list_all (\<lambda>s. \<not> wh_send s) zs = list_all (\<lambda>s. \<not> wh_send s) (map unreported zs)" for zs
    by (induction zs) (simp_all add: unreported_def)
  then show ?thesis using assms by metis
qed

lemma unreported_reads:
  assumes "map unreported xs = map unreported ys" and "i < length ys"
  shows "soil_reads e s (xs ! i) = soil_reads e s (ys ! i)"
proof -
  have "unreported (xs ! i) = unreported (ys ! i)"
    using assms map_eq_imp_length_eq [OF assms(1)] by (metis nth_map)
  then have "soil_core (unreported (xs ! i)) = soil_core (unreported (ys ! i))" by simp
  then have "soil_core (xs ! i) = soil_core (ys ! i)" by (simp add: soil_core_def unreported_def)
  then show ?thesis by (rule reads_core)
qed

text \<open>
  Sensors numbered from 0 without a gap: the first \<open>sensors_count\<close> entries of the array are the
  configured ones.
\<close>

definition soil_dense :: "soil_context \<Rightarrow> bool" where
  "soil_dense ctx \<longleftrightarrow> sl_count ctx \<le> length (sl_sensors ctx) \<and>
     list_all (\<lambda>i. (i < sl_count ctx) =
       (digital_pin (sl_sensors ctx ! i) \<ge> 0 \<or> analog (sl_sensors ctx ! i) \<noteq> None)) [0 ..< length (sl_sensors ctx)]"

text \<open>
  C19.  A run measures every sensor: with the sensors numbered from 0 without a gap and no
  notifications by webhook, a run that is due returns, without touching the webhook; each configured
  sensor has the digital level just read and the analog state that its measurement leaves, every
  other entry is left alone, and the module stays in such a state, so that this holds of the next run.
\<close>

lemma soil_run_measures:
  assumes "soil_quiet ctx" and "soil_dense ctx" and "\<not> lw_clock e 0 - sl_last_run ctx < SOIL_INTERVAL_MS"
  shows "\<exists>ctx' mq'. soil_run e t env (ctx, wh, mq) = Some (ctx', wh, mq') \<and> soil_quiet ctx' \<and> soil_dense ctx' \<and>
    sl_last_run ctx' = lw_clock e 0 \<and> length (sl_sensors ctx') = length (sl_sensors ctx) \<and>
    (\<forall>i < length (sl_sensors ctx).
       if digital_pin (sl_sensors ctx ! i) \<ge> 0 \<or> analog (sl_sensors ctx ! i) \<noteq> None
       then soil_reads (env i) (sl_sensors ctx ! i) (sl_sensors ctx' ! i)
       else unreported (sl_sensors ctx' ! i) = unreported (sl_sensors ctx ! i))"
proof -
  let ?xs = "sl_sensors ctx"
  have n: "\<not> sl_notify ctx" "\<forall>s\<in>set ?xs. \<not> wh_send s" using assms(1) by (simp_all add: soil_quiet_def list_all_iff)
  have le: "sl_count ctx \<le> length ?xs" using assms(2) by (simp add: soil_dense_def)
  have d: "(i < sl_count ctx) = (digital_pin (?xs ! i) \<ge> 0 \<or> analog (?xs ! i) \<noteq> None)" if "i < length ?xs" for i
    using assms(2) that by (simp add: soil_dense_def list_all_iff)
  obtain ss where m: "soil_measures False env [0 ..< sl_count ctx] (?xs, wh) = Some (ss, wh)"
    "\<forall>s\<in>set ss. \<not> wh_send s" "length ss = length ?xs"
    "\<forall>i\<in>set [0 ..< sl_count ctx]. soil_reads (env i) (?xs ! i) (ss ! i)"
    "\<forall>i. i \<notin> set [0 ..< sl_count ctx] \<longrightarrow> ss ! i = ?xs ! i"
    using measured_all [OF n(2), of "[0 ..< sl_count ctx]"] le by fastforce
  obtain c mq' where c: "soil_mqtt_send (later 1 e) t (ctx\<lparr>sl_sensors := ss\<rparr>, mq) = (c, mq')" by fastforce
  have u: "map unreported (sl_sensors c) = map unreported ss" "sl_count c = sl_count ctx" "sl_notify c = sl_notify ctx"
    using report_keeps [of "later 1 e" t "ctx\<lparr>sl_sensors := ss\<rparr>" mq] c by simp_all
  have len: "length (sl_sensors c) = length ss" using map_eq_imp_length_eq [OF u(1)] .
  have i1: "soil_reads (env i) (?xs ! i) (sl_sensors c ! i)" if "i < length ?xs" "i < sl_count ctx" for i
    using unreported_reads [OF u(1), of i] m(3,4) that by simp
  have i2: "unreported (sl_sensors c ! i) = unreported (?xs ! i)" if "i < length ?xs" "\<not> i < sl_count ctx" for i
    using arg_cong [OF u(1), of "\<lambda>zs. zs ! i"] m(3,5) that len by simp
  have q: "soil_quiet (c\<lparr>sl_last_run := now\<rparr>)" for now
    using unreported_quiet [OF u(1)] m(2) n(1) u(3) by (simp add: soil_quiet_def list_all_iff)
  have same: "(digital_pin (sl_sensors c ! i) \<ge> 0 \<or> analog (sl_sensors c ! i) \<noteq> None) =
      (digital_pin (?xs ! i) \<ge> 0 \<or> analog (?xs ! i) \<noteq> None)" if "i < length ?xs" for i
  proof (cases "i < sl_count ctx")
    case True
    then show ?thesis using i1 [OF that] by (auto simp: soil_reads_def)
  next
    case False
    then have "soil_core (sl_sensors c ! i) = soil_core (?xs ! i)"
      using arg_cong [OF i2 [OF that False], of soil_core] by (simp add: soil_core_def unreported_def)
    then show ?thesis by (simp add: soil_core_def)
  qed
  have ds: "soil_dense (c\<lparr>sl_last_run := now\<rparr>)" for now
    using le d same by (simp add: soil_dense_def list_all_iff u(2) len m(3))
  show ?thesis using m(1,3) c assms(3) n(1) len i1 i2 q ds d by (simp add: soil_run_def Let_def)
qed

text \<open>Two sensors: a run that reads a dry level on the pin of the second.\<close>

definition demo_soil :: soil_context where
  "demo_soil = (case soil_init True (\<lambda>_ _. True) (Some ''0:15;1:16'') None None (None :: nat mqtt_context option) of
     Some (Some (ctx, _)) \<Rightarrow> ctx)"

lemma demo_soil_init:
  "sl_count demo_soil = 2" "length (sl_sensors demo_soil) = 5" "sl_last_run demo_soil = 0"
  "soil_quiet demo_soil" "soil_dense demo_soil" "digital_pin (sl_sensors demo_soil ! 1) = 16"
  "soil_init True (\<lambda>_ _. True) (Some ''0:15;1:16'') None None (None :: nat mqtt_context option) = Some (Some (demo_soil, None))"
  by code_simp+

text \<open>A configuration with one sensor that is not the first: it counts, but it is not measured.\<close>

lemma soil_gap_not_measured:
  "map_option (map_option (\<lambda>(ctx, _). (sl_count ctx, map digital_pin (sl_sensors ctx))))
     (soil_init True (\<lambda>_ _. True) (Some ''1:16'') None None (None :: nat mqtt_context option)) =
   Some (Some (1, [- 1, 16, - 1, - 1, - 1]))"
  by code_simp

definition demo_soil_env :: "u8 \<Rightarrow> soil_env" where
  "demo_soil_env level = \<lparr>se_adc = \<lparr>adc_selected = True, adc_read = (\<lambda>_. 0)\<rparr>, se_level = level, se_wh = demo_wh_env 100\<rparr>"

lemma soil_run_measures_witness:
  "\<exists>ctx' mq'. soil_run (demo_lwip 5000) ''10:00'' (\<lambda>_. demo_soil_env 1) (demo_soil, None, None :: nat mqtt_context option) =
      Some (ctx', None, mq') \<and> last_digital (sl_sensors ctx' ! 1) = 1"
proof -
  have t: "\<not> lw_clock (demo_lwip 5000) 0 - sl_last_run demo_soil < SOIL_INTERVAL_MS"
    by (simp add: demo_lwip_def SOIL_INTERVAL_MS_def demo_soil_init)
  have l: "1 < length (sl_sensors demo_soil)" by (simp add: demo_soil_init)
  obtain ctx' mq' where r: "soil_run (demo_lwip 5000) ''10:00'' (\<lambda>_. demo_soil_env 1)
      (demo_soil, None, None :: nat mqtt_context option) = Some (ctx', None, mq')"
    "\<forall>i < length (sl_sensors demo_soil).
       if digital_pin (sl_sensors demo_soil ! i) \<ge> 0 \<or> analog (sl_sensors demo_soil ! i) \<noteq> None
       then soil_reads (demo_soil_env 1) (sl_sensors demo_soil ! i) (sl_sensors ctx' ! i)
       else unreported (sl_sensors ctx' ! i) = unreported (sl_sensors demo_soil ! i)"
    using soil_run_measures [OF demo_soil_init(4,5) t, of "''10:00''" "\<lambda>_. demo_soil_env 1" None "None :: nat mqtt_context option"]
    by blast
  have c: "0 \<le> digital_pin (sl_sensors demo_soil ! 1)" by (simp only: demo_soil_init(6))
  have "soil_reads (demo_soil_env 1) (sl_sensors demo_soil ! 1) (sl_sensors ctx' ! 1)"
    using r(2) [rule_format, OF l] c by (simp only: simp_thms if_True)
  then have "last_digital (sl_sensors ctx' ! 1) = 1"
    using demo_soil_init(6) by (simp add: soil_reads_def demo_soil_env_def)
  then show ?thesis using r(1) by blast
qed

end
