(* ===== verification/Apress.thy ===== *)
theory Apress
  imports AdcSensor Ssr
begin

text \<open>
  The pressure sensors, \<open>libs/common/devices/pressure/apress.c\<close>: up to four analog inputs, the value of
  each the line \<open>a + b * raw\<close>, measured every two seconds and reported when it changed.
  \<open>ap_send_idx\<close> is the static variable of \<open>apress_mqtt_send\<close>; the array of sensors is a list here
  and \<open>sensors_count\<close> its length, since the configuration fills it without gaps.
\<close>

definition APRESS_MAX_SENSORS :: nat where "APRESS_MAX_SENSORS = 4"
definition APRESS_SEND_INTERVAL_MS :: u64 where "APRESS_SEND_INTERVAL_MS = 10000"
definition APRESS_INTERVAL_MS :: u64 where "APRESS_INTERVAL_MS = 2000"
definition APRESS_DATA_LEN :: nat where "APRESS_DATA_LEN = 128"

record apress_sensor =
  ap_adc :: "adc_sensor option"
  ap_a :: f32
  ap_b :: f32
  ap_mqtt :: mqtt_component

record apress_context =
  ap_sensors :: "apress_sensor list"
  ap_last_send :: u64
  ap_debug :: u32
  ap_last_run :: u64
  ap_send_idx :: nat

text \<open>\<open>%f\<close>: six decimals.\<close>

definition fmt_f :: "f32 \<Rightarrow> string" where
  "fmt_f x =
     (case x of PInf \<Rightarrow> ''inf'' | NInf \<Rightarrow> ''-inf'' | NaN \<Rightarrow> ''nan''
      | Fin v \<Rightarrow>
          (let c = nat (rhe (1000000 * \<bar>v\<bar>)); f = nat_str (c mod 1000000)
           in (if v < 0 then ''-'' else []) @ nat_str (c div 1000000) @ ''.'' @ replicate (6 - length f) CHR ''0'' @ f))"

section \<open>MQTT report\<close>

definition apress_payload :: "string \<Rightarrow> nat \<Rightarrow> apress_sensor \<Rightarrow> string option" where
  "apress_payload time_str i s = build_msg APRESS_DATA_LEN
     [''{'', ''\"timestamp\": \"'' @ time_str @ ''\"'', '',\"id\": \"'' @ nat_str i @ ''\"'',
      '',\"pressure\": \"'' @ fmt_f (adc_sensor_get_value (ap_adc s)) @ ''\"'', ''}'']"

definition apress_mqtt_sensor_send ::
  "lwip \<Rightarrow> string \<Rightarrow> nat \<Rightarrow> apress_context \<times> 'h mqtt_context option
   \<Rightarrow> int \<times> apress_context \<times> 'h mqtt_context option" where
  "apress_mqtt_sensor_send e time_str idx st =
     (case st of (ctx, mq) \<Rightarrow>
       (let now = lw_clock e 0; s = ap_sensors ctx ! idx
        in case apress_payload time_str idx s of None \<Rightarrow> (-1, ctx, mq)
           | Some p \<Rightarrow>
               (let (ret, c, mq) = mqtt_msg_component_publish (later 1 e) (ap_mqtt s) p mq;
                    ctx = ctx\<lparr>ap_sensors := (ap_sensors ctx)[idx := s\<lparr>ap_mqtt := c\<rparr>]\<rparr>
                in (ret, if ret = 0 then ctx\<lparr>ap_last_send := now\<rparr> else ctx, mq))))"

definition apress_mqtt_send ::
  "lwip \<Rightarrow> string \<Rightarrow> apress_context \<times> 'h mqtt_context option \<Rightarrow> apress_context \<times> 'h mqtt_context option" where
  "apress_mqtt_send e time_str st =
     (case st of (ctx, mq) \<Rightarrow>
       (let n = length (ap_sensors ctx); i = length (takeWhile (\<lambda>s. \<not> force (ap_mqtt s)) (ap_sensors ctx))
        in if i < n then snd (apress_mqtt_sensor_send e time_str i (ctx, mq))
           else
             (let now = lw_clock e 0
              in if ap_last_send ctx \<noteq> 0 \<and> now - ap_last_send ctx < APRESS_SEND_INTERVAL_MS then (ctx, mq)
                 else
                   (let idx = (if ap_send_idx ctx \<ge> n then 0 else ap_send_idx ctx);
                        (ret, ctx, mq) = apress_mqtt_sensor_send (later 1 e) time_str idx (ctx\<lparr>ap_send_idx := idx\<rparr>, mq)
                    in (if ret = 0 then ctx\<lparr>ap_send_idx := idx + 1\<rparr> else ctx, mq)))))"

section \<open>Measuring\<close>

definition apress_measure :: "adc_env \<Rightarrow> apress_sensor \<Rightarrow> apress_sensor" where
  "apress_measure e s =
     (let (chg, adc) = adc_sensor_measure e (ap_adc s); s = s\<lparr>ap_adc := adc\<rparr>
      in if chg then s\<lparr>ap_mqtt := (ap_mqtt s)\<lparr>force := True\<rparr>\<rparr> else s)"

definition apress_run ::
  "lwip \<Rightarrow> string \<Rightarrow> (nat \<Rightarrow> adc_env) \<Rightarrow> apress_context \<times> 'h mqtt_context option
   \<Rightarrow> apress_context \<times> 'h mqtt_context option" where
  "apress_run e time_str env st =
     (case st of (ctx, mq) \<Rightarrow>
       (let now = lw_clock e 0
        in if now - ap_last_run ctx < APRESS_INTERVAL_MS then (ctx, mq)
           else
             (let ss = map (\<lambda>i. apress_measure (env i) (ap_sensors ctx ! i)) [0 ..< length (ap_sensors ctx)];
                  (ctx, mq) = apress_mqtt_send (later 1 e) time_str (ctx\<lparr>ap_sensors := ss\<rparr>, mq)
              in (ctx\<lparr>ap_last_run := now\<rparr>, mq))))"

definition apress_debug_set :: "u32 \<Rightarrow> apress_context \<Rightarrow> apress_context" where
  "apress_debug_set debug ctx = ctx\<lparr>ap_debug := debug\<rparr>"

section \<open>Configuration\<close>

text \<open>The pair of one entry of the correction; an entry without a second number is skipped.\<close>

definition apress_corr :: "string \<Rightarrow> (f32 \<times> f32) list" where
  "apress_corr tok =
     (case strtok_all (CHR '':'') (Some tok) of t1 # t2 # _ \<Rightarrow> [(fst (strtod t1), fst (strtod t2))] | _ \<Rightarrow> [])"

definition apress_config_get :: "bool \<Rightarrow> (nat \<Rightarrow> bool) \<Rightarrow> string option \<Rightarrow> string option \<Rightarrow> apress_context option" where
  "apress_config_get alloc al config_pins config_f =
     (case (config_pins, config_f) of
        (Some cp, Some cf) \<Rightarrow>
          if length cp < 1 \<or> length cf < 1 \<or> \<not> alloc then None
          else
            (let ps = map (strtol_val 0) (take APRESS_MAX_SENSORS (strtok_all (CHR '';'') (Some cp)));
                 ab = take APRESS_MAX_SENSORS (concat (map apress_corr (strtok_all (CHR '';'') (Some cf))));
                 p = length ps;
                 ss = map (\<lambda>j. \<lparr>ap_adc = adc_sensor_init (al j) (ps ! j) (fst (ab ! j)) (snd (ab ! j)),
                        ap_a = fst (ab ! j), ap_b = snd (ab ! j), ap_mqtt = empty_component\<rparr>) [0 ..< p]
             in if p = 0 \<or> p \<noteq> length ab \<or> list_ex (\<lambda>s. ap_adc s = None) ss then None
                else Some \<lparr>ap_sensors = ss, ap_last_send = 0, ap_debug = 0, ap_last_run = 0, ap_send_idx = 0\<rparr>)
      | _ \<Rightarrow> None)"

definition apress_component :: "nat \<Rightarrow> mqtt_component" where
  "apress_component i = empty_component\<lparr>mc_module := ''apress'', platform := ''sensor'', dev_class := Some ''pressure'',
     unit := Some ''bar'', value_template := ''{{ value_json['' @ [CHR 0x27] @ ''pressure'' @ [CHR 0x27] @ ''] }}'',
     mc_name := ''Pressure_'' @ nat_str i\<rparr>"

definition apress_mqtt_init ::
  "apress_context \<times> 'h mqtt_context option \<Rightarrow> apress_context \<times> 'h mqtt_context option" where
  "apress_mqtt_init st =
     (case st of (ctx, mq) \<Rightarrow>
       fold (\<lambda>i (ctx, mq). case mqtt_msg_component_register (apress_component i) mq of
           (_, c, mq) \<Rightarrow> (ctx\<lparr>ap_sensors := upd_at i (\<lambda>s. s\<lparr>ap_mqtt := c\<rparr>) (ap_sensors ctx)\<rparr>, mq))
         [0 ..< length (ap_sensors ctx)] (ctx, mq))"

definition apress_init ::
  "bool \<Rightarrow> (nat \<Rightarrow> bool) \<Rightarrow> string option \<Rightarrow> string option \<Rightarrow> 'h mqtt_context option
   \<Rightarrow> (apress_context \<times> 'h mqtt_context option) option" where
  "apress_init alloc al cp cf mq =
     (case apress_config_get alloc al cp cf of None \<Rightarrow> None | Some ctx \<Rightarrow> Some (apress_mqtt_init (ctx, mq)))"

section \<open>Steady pressures\<close>

text \<open>The sensor was measured with the readings of \<open>e\<close> before, and its report has gone out.\<close>

definition steady :: "adc_env \<Rightarrow> apress_sensor \<Rightarrow> bool" where
  "steady e s \<longleftrightarrow> adc_selected e \<and> \<not> force (ap_mqtt s) \<and>
     (case ap_adc s of None \<Rightarrow> False
      | Some a \<Rightarrow> stored (adc_raw a) a \<and> adc_line a (adc_raw a) \<noteq> NaN \<and>
          samples_filter (adc_readings e) MEASURE_COUNT MEASURE_DROP = (Some (adc_raw a), adc_samples a))"

text \<open>The value of the line is a float, so that nothing is lost when it is stored.\<close>

definition float_line :: "apress_sensor \<Rightarrow> bool" where
  "float_line s \<longleftrightarrow>
     (case ap_adc s of None \<Rightarrow> True | Some a \<Rightarrow> f32_of_d (adc_line a (adc_raw a)) = adc_line a (adc_raw a))"

definition marked :: "apress_sensor \<Rightarrow> apress_sensor" where
  "marked s = (if float_line s then s else s\<lparr>ap_mqtt := (ap_mqtt s)\<lparr>force := True\<rparr>\<rparr>)"

lemma measure_steady:
  assumes "steady e s"
  shows "apress_measure e s = marked s"
proof -
  obtain a where a: "ap_adc s = Some a" "stored (adc_raw a) a" "adc_line a (adc_raw a) \<noteq> NaN" "adc_selected e"
    "samples_filter (adc_readings e) MEASURE_COUNT MEASURE_DROP = (Some (adc_raw a), adc_samples a)"
    using assms by (auto simp: steady_def split: option.splits)
  have "a\<lparr>adc_samples := adc_samples a\<rparr> = a" by simp
  then have "adc_sensor_measure e (Some a) = (f32_of_d (adc_line a (adc_raw a)) \<noteq> adc_line a (adc_raw a), Some a)"
    using a adc_update_again [OF a(2,3)] by (simp add: adc_sensor_measure_def flip: adc_readings_def)
  moreover have "s\<lparr>ap_adc := Some a\<rparr> = s" using a(1) by simp
  ultimately show ?thesis using a(1) by (simp add: apress_measure_def marked_def float_line_def)
qed

text \<open>
  Steady pressures are reported all the same: when no reading has changed and the ten seconds of the
  report have not passed, a run still forces and sends the report of the first sensor the value of
  whose line is not a float, and is silent only when there is none: the measurement compares the
  float that it stored with the double that it computes.
\<close>

lemma apress_steady_reports:
  assumes "\<forall>i < length (ap_sensors ctx). steady (env i) (ap_sensors ctx ! i)"
    and "\<not> lw_clock e 0 - ap_last_run ctx < APRESS_INTERVAL_MS"
    and "ap_last_send ctx \<noteq> 0" and "lw_clock e 1 - ap_last_send ctx < APRESS_SEND_INTERVAL_MS"
  shows "apress_run e t env (ctx, mq) =
    (let (c, mq) = (if list_all float_line (ap_sensors ctx) then (ctx, mq)
         else snd (apress_mqtt_sensor_send (later 1 e) t (length (takeWhile float_line (ap_sensors ctx)))
           (ctx\<lparr>ap_sensors := map marked (ap_sensors ctx)\<rparr>, mq)))
     in (c\<lparr>ap_last_run := lw_clock e 0\<rparr>, mq))"
proof -
  let ?ss = "ap_sensors ctx"
  have m: "map (\<lambda>i. apress_measure (env i) (?ss ! i)) [0 ..< length ?ss] = map marked ?ss"
    using assms(1) measure_steady by (intro nth_equalityI) simp_all
  have f: "force (ap_mqtt (marked s)) = (\<not> float_line s)" if "s \<in> set ?ss" for s
    using assms(1) that by (auto simp: marked_def steady_def in_set_conv_nth)
  have tw: "length (takeWhile (\<lambda>s. \<not> force (ap_mqtt s)) (map marked ?ss)) = length (takeWhile float_line ?ss)"
    using f by (simp add: takeWhile_map o_def cong: takeWhile_cong)
  show ?thesis
  proof (cases "list_all float_line ?ss")
    case True
    then have "map marked ?ss = ?ss" by (auto simp: marked_def list_all_iff intro: map_idI)
    moreover from True have "takeWhile float_line ?ss = ?ss" by (metis list_all_iff takeWhile_eq_all_conv)
    then have "length (takeWhile float_line ?ss) = length ?ss" by (rule arg_cong)
    ultimately show ?thesis
      using True assms m tw by (simp add: apress_run_def apress_mqtt_send_def Let_def)
  next
    case False
    then have "takeWhile float_line ?ss \<noteq> ?ss" by (auto simp: takeWhile_eq_all_conv list_all_iff)
    then have "length (takeWhile float_line ?ss) < length ?ss"
      by (metis length_takeWhile_le nat_less_le takeWhile_eq_take take_all)
    then show ?thesis
      using False assms m tw by (simp add: apress_run_def apress_mqtt_send_def Let_def split_beta)
  qed
qed

section \<open>Witnesses\<close>

text \<open>A sensor with a line the value of which at the raw value 1000 is a double, but not a float.\<close>

definition demo_adc :: adc_sensor where
  "demo_adc = \<lparr>adc_pin = 26, adc_id = 0, adc_a = Fin 0, adc_b = Fin (1073741825 / 1073741824), adc_samples = replicate 30 0,
     adc_value = Fin 0, adc_volt = Fin 0, adc_percent = Fin 0, adc_raw = 0\<rparr>"

definition demo_adc_env :: adc_env where
  "demo_adc_env = \<lparr>adc_selected = True, adc_read = (\<lambda>_. 1000)\<rparr>"

definition demo_measured :: adc_sensor where
  "demo_measured = demo_adc\<lparr>adc_samples := replicate 30 1000, adc_raw := 1000, adc_volt := ADC_CONVERS 1000,
     adc_value := f32_of_d (adc_line demo_adc 1000),
     adc_percent := f32_of_int (uint (sys_value_to_percent 0 MAX_ANALOG_VALUE 1000))\<rparr>"

definition demo_apress :: apress_context where
  "demo_apress = \<lparr>ap_sensors = [\<lparr>ap_adc = Some demo_measured, ap_a = Fin 0, ap_b = adc_b demo_adc,
     ap_mqtt = demo_component\<lparr>force := False\<rparr>\<rparr>], ap_last_send = 4000, ap_debug = 0, ap_last_run = 4000, ap_send_idx = 0\<rparr>"

lemma demo_line: "adc_line demo_measured = adc_line demo_adc"
  by (simp add: fun_eq_iff adc_line_def demo_measured_def)

lemma demo_line_value:
  "adc_line demo_adc 1000 \<noteq> NaN" "f32_of_d (adc_line demo_adc 1000) \<noteq> adc_line demo_adc 1000"
proof -
  have l: "ilog2 (134217728125 / 134217728) = 9" by code_simp
  have "d_rnd (134217728125 / 134217728) = Fin (134217728125 / 134217728)"
    by (rule d_rnd_exact [where k = 9 and z = 8796093030400000])
       (simp_all add: l, simp add: pow2_def power_int_def power_one_over)
  then have v: "adc_line demo_adc 1000 = Fin (134217728125 / 134217728)"
    by (simp add: adc_line_def demo_adc_def d_mul_def d_add_def d_op_def)
  show "adc_line demo_adc 1000 \<noteq> NaN" "f32_of_d (adc_line demo_adc 1000) \<noteq> adc_line demo_adc 1000"
    unfolding v by code_simp+
qed

lemma demo_filter:
  "samples_filter (adc_readings demo_adc_env) MEASURE_COUNT MEASURE_DROP = (Some 1000, replicate 30 1000)"
proof -
  have r: "adc_readings demo_adc_env = replicate 30 1000"
    by (simp add: adc_readings_def demo_adc_env_def MEASURE_COUNT_def map_replicate_const)
  have srt: "sort (replicate 30 (1000 :: u32)) = replicate 30 1000" by (rule sort_key_id_if_sorted) simp
  obtain m where m: "samples_filter (replicate 30 (1000 :: u32)) (length (replicate 30 (1000 :: u32))) 5 =
      (Some m, sort (replicate 30 1000))"
    "unat m = sum_list (map unat (middle 5 (replicate 30 (1000 :: u32)))) div (length (replicate 30 (1000 :: u32)) - 2 * 5)"
    by (rule samples_filter_sorted [of "replicate 30 1000" 5]) simp_all
  have "unat m = 1000" using m(2) by (simp add: middle_def srt sum_list_replicate)
  then have "m = 1000" by (simp add: word_unat_eq_iff)
  then show ?thesis using m(1) by (simp add: r srt MEASURE_COUNT_def MEASURE_DROP_def)
qed

lemma demo_measured_facts:
  "adc_raw demo_measured = 1000" "stored 1000 demo_measured" "adc_line demo_measured 1000 \<noteq> NaN"
  "f32_of_d (adc_line demo_measured 1000) \<noteq> adc_line demo_measured 1000"
  "samples_filter (adc_readings demo_adc_env) MEASURE_COUNT MEASURE_DROP = (Some 1000, adc_samples demo_measured)"
  using demo_line_value demo_filter by (simp_all add: demo_line stored_def) (simp_all add: demo_measured_def)

lemma apress_steady_reports_witness:
  "list_all float_line (ap_sensors demo_apress) = False \<and>
   apress_run (demo_lwip 6000) ''10:00'' (\<lambda>_. demo_adc_env) (demo_apress, Some demo_mqtt) =
    (let (c, mq) = snd (apress_mqtt_sensor_send (later 1 (demo_lwip 6000)) ''10:00'' 0
           (demo_apress\<lparr>ap_sensors := map marked (ap_sensors demo_apress)\<rparr>, Some demo_mqtt))
     in (c\<lparr>ap_last_run := 6000\<rparr>, mq))"
proof -
  have nf: "\<not> float_line (ap_sensors demo_apress ! 0)" "length (ap_sensors demo_apress) = 1"
    using demo_measured_facts by (simp_all add: demo_apress_def float_line_def)
  have st: "\<forall>i < length (ap_sensors demo_apress). steady demo_adc_env (ap_sensors demo_apress ! i)"
    using demo_measured_facts by (simp add: demo_apress_def steady_def demo_adc_env_def)
  have one: "ap_sensors demo_apress = [ap_sensors demo_apress ! 0]" by (simp add: demo_apress_def)
  have tw: "takeWhile float_line (ap_sensors demo_apress) = []" "list_all float_line (ap_sensors demo_apress) = False"
    using nf(1) by (subst one, simp)+
  have "apress_run (demo_lwip 6000) ''10:00'' (\<lambda>_. demo_adc_env) (demo_apress, Some demo_mqtt) =
    (let (c, mq) = (if list_all float_line (ap_sensors demo_apress) then (demo_apress, Some demo_mqtt)
         else snd (apress_mqtt_sensor_send (later 1 (demo_lwip 6000)) ''10:00'' (length (takeWhile float_line (ap_sensors demo_apress)))
           (demo_apress\<lparr>ap_sensors := map marked (ap_sensors demo_apress)\<rparr>, Some demo_mqtt)))
     in (c\<lparr>ap_last_run := lw_clock (demo_lwip 6000) 0\<rparr>, mq))"
    by (rule apress_steady_reports)
       (use st in \<open>simp_all add: demo_apress_def demo_lwip_def APRESS_INTERVAL_MS_def APRESS_SEND_INTERVAL_MS_def\<close>)
  then show ?thesis unfolding tw by (simp add: demo_lwip_def)
qed

end
