(* ===== verification/Sonar.thy ===== *)
theory Sonar
  imports Float32 SysUtils Ssr
begin

text \<open>
  The ultrasonic sensor, \<open>libs/common/devices/sonar/sonar.c\<close>: thirty distances by the length of the
  echo, filtered, and their MQTT report.  What a reading of the echo pin or of the clock in
  microseconds returns depends on how many of them were made before: the two functions of
  \<open>sonar_env\<close>.  A wait whose clock does not advance never returns, which is None.
\<close>

definition MAX_TIME_USEC :: int where "MAX_TIME_USEC = 50000"
definition SONAR_TIME_MS :: u64 where "SONAR_TIME_MS = 500"
definition SONAR_DATA_LEN :: nat where "SONAR_DATA_LEN = 64"
definition SONAR_DELAY_MS :: u64 where "SONAR_DELAY_MS = 5000"
definition SONAR_MEASURE_COUNT :: nat where "SONAR_MEASURE_COUNT = 30"
definition SONAR_MEASURE_DROP :: nat where "SONAR_MEASURE_DROP = 5"

record sonar_context =
  sn_force :: bool
  sn_last_send :: u64
  sn_mqtt :: mqtt_component
  echo_pin :: int
  trigger_pin :: int
  last_distance :: u32
  sn_samples :: "u32 list"
  last_measure :: u64
  sn_debug :: u32

record sonar_env =
  sn_echo :: "nat \<Rightarrow> bool"
  sn_time :: "nat \<Rightarrow> u64"

definition absolute_time_diff_us :: "u64 \<Rightarrow> u64 \<Rightarrow> int" where
  "absolute_time_diff_us from to = sint (to - from)"

section \<open>One distance\<close>

text \<open>
  The wait for the echo pin to leave \<open>level\<close>, from reading \<open>k\<close> on: the time before the reading that
  saw it, or None within when it took too long, and the number of the next reading.
\<close>

partial_function (option) echo_wait ::
  "bool \<Rightarrow> sonar_env \<Rightarrow> u64 \<Rightarrow> u64 \<Rightarrow> nat \<Rightarrow> (u64 option \<times> nat) option" where
  "echo_wait level e timeout t k =
     (if sn_echo e k \<noteq> level then Some (Some t, Suc k)
      else
        (let t = sn_time e (Suc k)
         in if absolute_time_diff_us timeout t > MAX_TIME_USEC then Some (None, k + 2)
            else echo_wait level e timeout t (k + 2)))"

definition sonar_read :: "sonar_env \<Rightarrow> nat \<Rightarrow> (u32 \<times> nat) option" where
  "sonar_read e k =
     (case echo_wait False e (sn_time e k) (sn_time e (k + 1)) (k + 2) of None \<Rightarrow> None
      | Some (None, k) \<Rightarrow> Some (0, k)
      | Some (Some start, k) \<Rightarrow>
          (case echo_wait True e (sn_time e k) (sn_time e (k + 1)) (k + 2) of None \<Rightarrow> None
           | Some (None, k) \<Rightarrow> Some (0, k)
           | Some (Some end, k) \<Rightarrow>
               (let duration_us = word_of_int (absolute_time_diff_us start end) :: u32
                in Some (duration_us * 17 div 100, k))))"

section \<open>Measuring\<close>

fun sonar_reads :: "sonar_env \<Rightarrow> nat \<Rightarrow> nat \<Rightarrow> (u32 list \<times> nat) option" where
  "sonar_reads e 0 k = Some ([], k)"
| "sonar_reads e (Suc n) k =
     (case sonar_read e k of None \<Rightarrow> None
      | Some (d, k) \<Rightarrow> (case sonar_reads e n k of None \<Rightarrow> None | Some (ds, k) \<Rightarrow> Some (d # ds, k)))"

definition sonar_measure :: "sonar_env \<Rightarrow> nat \<Rightarrow> u64 \<Rightarrow> sonar_context \<Rightarrow> (sonar_context \<times> nat) option" where
  "sonar_measure e k now ctx =
     (case sonar_reads e SONAR_MEASURE_COUNT k of None \<Rightarrow> None
      | Some (ds, k) \<Rightarrow>
          (let (av, ds) = samples_filter ds SONAR_MEASURE_COUNT SONAR_MEASURE_DROP; av = the av;
               ctx = ctx\<lparr>sn_samples := ds\<rparr>;
               ctx = (if av \<noteq> last_distance ctx then ctx\<lparr>sn_force := True, last_distance := av\<rparr> else ctx)
           in Some (ctx\<lparr>last_measure := now\<rparr>, k)))"

section \<open>MQTT report\<close>

text \<open>The division of the distance in millimetres by ten is that of integers.\<close>

definition sonar_payload :: "string \<Rightarrow> sonar_context \<Rightarrow> string option" where
  "sonar_payload time_str ctx = build_msg SONAR_DATA_LEN
     [''{'', ''\"time\": \"'' @ time_str @ ''\"'',
      '',\"distance\": \"'' @ fmt_2f (f32_of_int (uint (last_distance ctx div 10))) @ ''\"'', ''}'']"

definition sonar_mqtt_data_send ::
  "lwip \<Rightarrow> string \<Rightarrow> sonar_context \<times> 'h mqtt_context option \<Rightarrow> int \<times> sonar_context \<times> 'h mqtt_context option" where
  "sonar_mqtt_data_send e time_str st =
     (case st of (ctx, mq) \<Rightarrow>
       (let now = lw_clock e 0
        in case sonar_payload time_str ctx of None \<Rightarrow> (-1, ctx, mq)
           | Some p \<Rightarrow>
               (let (ret, c, mq) = mqtt_msg_component_publish (later 1 e) (sn_mqtt ctx) p mq; ctx = ctx\<lparr>sn_mqtt := c\<rparr>
                in (ret, if ret = 0 then ctx\<lparr>sn_last_send := now\<rparr> else ctx, mq))))"

definition sonar_mqtt_send ::
  "lwip \<Rightarrow> string \<Rightarrow> sonar_context \<times> 'h mqtt_context option \<Rightarrow> sonar_context \<times> 'h mqtt_context option" where
  "sonar_mqtt_send e time_str st =
     (case st of (ctx, mq) \<Rightarrow>
       (let now = lw_clock e 0;
            ctx = (if sn_force ctx then ctx\<lparr>sn_mqtt := (sn_mqtt ctx)\<lparr>force := True\<rparr>, sn_force := False\<rparr> else ctx)
        in if force (sn_mqtt ctx) then snd (sonar_mqtt_data_send (later 1 e) time_str (ctx, mq))
           else if now - sn_last_send ctx < SONAR_DELAY_MS then (ctx, mq)
           else snd (sonar_mqtt_data_send (later 1 e) time_str (ctx, mq))))"

text \<open>\<open>k\<close> is the number of the next reading, \<open>done\<close> the clock in milliseconds after the measurement.\<close>

definition sonar_run ::
  "lwip \<Rightarrow> string \<Rightarrow> sonar_env \<Rightarrow> nat \<Rightarrow> u64 \<Rightarrow> sonar_context \<times> 'h mqtt_context option
   \<Rightarrow> (sonar_context \<times> 'h mqtt_context option) option" where
  "sonar_run e time_str env k measured st =
     (case st of (ctx, mq) \<Rightarrow>
       (case (if lw_clock e 0 - last_measure ctx \<ge> SONAR_TIME_MS then map_option fst (sonar_measure env k measured ctx)
              else Some ctx) of None \<Rightarrow> None
        | Some ctx \<Rightarrow> Some (sonar_mqtt_send (later 1 e) time_str (ctx, mq))))"

definition sonar_debug_set :: "u32 \<Rightarrow> sonar_context \<Rightarrow> sonar_context" where
  "sonar_debug_set debug ctx = ctx\<lparr>sn_debug := debug\<rparr>"

section \<open>Configuration\<close>

definition sonar_component :: mqtt_component where
  "sonar_component = empty_component\<lparr>mc_module := ''sonar'', platform := ''sensor'', dev_class := Some ''distance'',
     unit := Some ''cm'', value_template := ''{{ value_json['' @ [CHR 0x27] @ ''distance'' @ [CHR 0x27] @ ''] }}'',
     mc_name := ''sonar_sensor''\<rparr>"

definition sonar_init ::
  "bool \<Rightarrow> string option \<Rightarrow> 'h mqtt_context option \<Rightarrow> (sonar_context \<times> 'h mqtt_context option) option" where
  "sonar_init alloc cfg mq =
     (case cfg of None \<Rightarrow> None
      | Some c \<Rightarrow>
          (case strtok_all (CHR '';'') (Some c) of
             t1 # t2 # _ \<Rightarrow>
               (let ep = strtol_val 10 t1; tp = strtol_val 10 t2
                in if \<not> alloc \<or> ep < 0 \<or> ep > 40 \<or> tp < 0 \<or> tp > 40 then None
                   else
                     (let (_, cmp, mq) = mqtt_msg_component_register sonar_component mq
                      in Some (\<lparr>sn_force = False, sn_last_send = 0, sn_mqtt = cmp, echo_pin = ep, trigger_pin = tp,
                           last_distance = 0, sn_samples = replicate SONAR_MEASURE_COUNT 0, last_measure = 0,
                           sn_debug = 0\<rparr>, mq)))
           | _ \<Rightarrow> None))"

section \<open>Accuracy\<close>

text \<open>
  The hardware during one distance: reading \<open>i\<close> is made at the microsecond \<open>\<tau> i\<close>, at most \<open>d\<close> after
  the one before; several readings may fall into one microsecond, but the clock does not stop.  The
  echo is one pulse.
\<close>

definition sonar_pulse :: "sonar_env \<Rightarrow> (nat \<Rightarrow> nat) \<Rightarrow> nat \<Rightarrow> nat \<Rightarrow> nat \<Rightarrow> bool" where
  "sonar_pulse e \<tau> d rise fall \<longleftrightarrow>
     (\<forall>i. sn_time e i = of_nat (\<tau> i) \<and> \<tau> i \<le> \<tau> (Suc i) \<and> \<tau> (Suc i) \<le> \<tau> i + d \<and>
          sn_echo e i = (rise \<le> \<tau> i \<and> \<tau> i < fall)) \<and>
     (\<forall>t. \<exists>i. t \<le> \<tau> i)"

lemma diff_us:
  assumes "a \<le> b" and "b < 2 ^ 63"
  shows "absolute_time_diff_us (of_nat a) (of_nat b) = int b - int a"
proof -
  have "(of_nat b - of_nat a :: u64) = word_of_int (int b - int a)" by simp
  then show ?thesis
    using assms unfolding absolute_time_diff_us_def by (simp only: sint_sbintrunc') (simp add: signed_take_bit_int_eq_self)
qed

lemma echo_wait_ends:
  assumes clk: "\<And>i. sn_time e i = of_nat (\<tau> i)" "\<And>i. \<tau> i \<le> \<tau> (Suc i)" "\<And>i. \<tau> (Suc i) \<le> \<tau> i + d"
    and goes_on: "b \<le> \<tau> K"
    and lvl: "\<And>i. k \<le> i \<Longrightarrow> \<tau> i < b \<Longrightarrow> sn_echo e i = level"
      "\<And>i. b \<le> \<tau> i \<Longrightarrow> \<tau> i < b + w \<Longrightarrow> sn_echo e i \<noteq> level"
    and t0: "t0 \<le> s" "b + d \<le> t0 + 50000" "b + d < 2 ^ 63" and w: "2 * d \<le> w"
    and s: "s \<le> \<tau> k" "\<tau> k \<le> s + d" "s < b + 2 * d" "\<tau> k < b + w"
  shows "\<exists>s' k'. echo_wait level e (of_nat t0) (of_nat s) k = Some (Some (of_nat s'), Suc k') \<and>
    s' \<le> \<tau> k' \<and> s \<le> s' \<and> b \<le> s' + d \<and> s' < b + 2 * d \<and> b \<le> \<tau> k' \<and> \<tau> k' < b + w"
  using lvl(1) t0(1) s
proof (induction "K - k" arbitrary: k s rule: less_induct)
  case less
  show ?case
  proof (cases "\<tau> k < b")
    case False
    then have "sn_echo e k \<noteq> level" using lvl(2) [of k] less.prems by simp
    then have "echo_wait level e (of_nat t0) (of_nat s) k = Some (Some (of_nat s), Suc k)" by (subst echo_wait.simps) simp
    then show ?thesis using False less.prems by (intro exI [of _ s] exI [of _ k]) auto
  next
    case True
    have "k < K"
      using True goes_on lift_Suc_mono_le [of \<tau> K k] clk(2) by (meson le_trans not_le)
    have n: "\<tau> k \<le> \<tau> (Suc k)" "\<tau> (Suc k) \<le> \<tau> (k + 2)" "\<tau> (Suc k) \<le> \<tau> k + d" "\<tau> (k + 2) \<le> \<tau> (Suc k) + d"
      using clk by auto
    have le: "int (\<tau> (Suc k)) - int t0 \<le> 50000" "\<tau> (Suc k) < 2 ^ 63" "t0 \<le> \<tau> (Suc k)"
      using True n t0 less.prems by simp_all
    have in_time: "absolute_time_diff_us (of_nat t0) (of_nat (\<tau> (Suc k))) > MAX_TIME_USEC \<longleftrightarrow> False"
      using le by (simp add: diff_us MAX_TIME_USEC_def)
    have lv: "sn_echo e k \<noteq> level \<longleftrightarrow> False" using less.prems(1) [of k] True by simp
    have step: "echo_wait level e (of_nat t0) (of_nat s) k = echo_wait level e (of_nat t0) (of_nat (\<tau> (Suc k))) (k + 2)"
      by (subst echo_wait.simps) (simp only: Let_def clk(1) in_time lv if_False)
    have "\<exists>s' k'. echo_wait level e (of_nat t0) (of_nat (\<tau> (Suc k))) (k + 2) = Some (Some (of_nat s'), Suc k') \<and>
        s' \<le> \<tau> k' \<and> \<tau> (Suc k) \<le> s' \<and> b \<le> s' + d \<and> s' < b + 2 * d \<and> b \<le> \<tau> k' \<and> \<tau> k' < b + w"
    proof (rule less.hyps)
      show "K - (k + 2) < K - k" using \<open>k < K\<close> by simp
    qed (use less.prems n le True w in auto)
    moreover have "s \<le> \<tau> (Suc k)" using n less.prems by simp
    ultimately show ?thesis unfolding step using order_trans by blast
  qed
qed

lemma mm_exact:
  assumes "n \<le> 100000"
  shows "(of_nat n * 17 div 100 :: u32) = of_nat (n * 17 div 100)"
proof -
  have m: "(of_nat n * 17 :: u32) = of_nat (n * 17)" by simp
  have le: "n * 17 < 4294967296" "n * 17 div 100 < 4294967296" using assms by simp_all
  have "unat (of_nat (n * 17) div 100 :: u32) = n * 17 div 100"
    using le(1) unfolding unat_div by (simp add: unat_of_nat take_bit_nat_eq_self del: of_nat_mult)
  moreover have "unat (of_nat (n * 17 div 100) :: u32) = n * 17 div 100"
    using le(2) by (simp add: unat_of_nat take_bit_nat_eq_self)
  ultimately show ?thesis unfolding m by (simp add: word_unat_eq_iff)
qed



end
