(* ===== verification/Flow.thy ===== *)
theory Flow
  imports Float64 SysModules Ssr
begin

text \<open>
  The flow meters, \<open>libs/common/devices/flow_yf/flow_yf.c\<close>: pulses counted in an interrupt, the flow and
  the volumes of a reading, the MQTT report with the accumulated volume, and the reset command.
  The date of the system is a parameter, as seconds of \<open>time_t\<close> and as text; the array of sensors
  is filled without gaps and is a list here.  \<open>fc_send_idx\<close> is the static variable of
  \<open>flow_yf_mqtt_send\<close>.
\<close>

definition FLOW_TIME_MS :: u64 where "FLOW_TIME_MS = 1000"
definition YF_SENORS_MAX :: nat where "YF_SENORS_MAX = 6"
definition FLOW_DATA_LEN :: nat where "FLOW_DATA_LEN = 256"
definition FLOW_DELAY_MS :: u64 where "FLOW_DELAY_MS = 5000"
definition GPIO_IRQ_EDGE_RISE :: u32 where "GPIO_IRQ_EDGE_RISE = 8"

definition FLOW_YF_MQTT_FLOW :: nat where "FLOW_YF_MQTT_FLOW = 0"
definition FLOW_YF_MQTT_MAX :: nat where "FLOW_YF_MQTT_MAX = 6"

record flow_sensor =
  fs_pin :: int
  fs_pps :: f32
  fs_pulse :: u32
  fs_flow :: f32
  fs_force :: bool
  flow_start :: u64
  fs_last_read :: u64
  duration_ms :: u64
  last_flow_date :: int
  total_flow_ml :: u64
  last_reset_date :: int
  send_total :: bool
  total_ml :: u64
  fs_mqtt :: "mqtt_component list"

record flow_context =
  fc_sensors :: "flow_sensor list"
  fc_debug :: u32
  acc_msec :: u64
  acc_msec_last :: u64
  fc_last_send :: u64
  fc_send_idx :: nat

text \<open>The answers of the system: NTP, the local date (None: the clock is not set), a date as text.\<close>

record flow_env =
  fe_ntp :: bool
  fe_date :: "int option"
  fe_text :: "int \<Rightarrow> string"

section \<open>Reset and reading\<close>

definition flow_yf_reset :: "flow_env \<Rightarrow> flow_sensor \<Rightarrow> flow_sensor" where
  "flow_yf_reset e s =
     (let s = s\<lparr>total_ml := 0\<rparr>
      in if fe_ntp e then (case fe_date e of None \<Rightarrow> s | Some d \<Rightarrow> s\<lparr>last_reset_date := d\<rparr>) else s)"

text \<open>
  The sum of a 64 bit count and a float is a float, which is then truncated.
\<close>

definition add_ml :: "u64 \<Rightarrow> f32 \<Rightarrow> u64" where
  "add_ml ml x = word_of_int (f32_int (f32_add (f32_of_int (uint ml)) x))"

definition flow_ml :: "f32 \<Rightarrow> f32" where
  "flow_ml flow = f32_div (f32_mul flow (Fin 1000)) (Fin 60)"

definition flow_value :: "u64 \<Rightarrow> u32 \<Rightarrow> f32 \<Rightarrow> f32" where
  "flow_value elapsed data pps =
     f32_div (f32_mul (f32_div (Fin 1000) (f32_of_int (uint elapsed))) (f32_of_int (uint data))) pps"

definition flow_yf_sensor_data :: "flow_env \<Rightarrow> u64 \<Rightarrow> flow_sensor \<Rightarrow> flow_sensor" where
  "flow_yf_sensor_data e now s =
     (if now - fs_last_read s < FLOW_TIME_MS then s
      else
        (let data = fs_pulse s; s = s\<lparr>fs_pulse := 0\<rparr>;
             s = (if data \<noteq> 0 then
                    (let s = (if fs_flow s = Fin 0 then
                                (let s = s\<lparr>flow_start := now, total_flow_ml := 0\<rparr>
                                 in case fe_date e of None \<Rightarrow> s | Some d \<Rightarrow> s\<lparr>last_flow_date := d\<rparr>)
                              else s);
                         s = s\<lparr>duration_ms := now - flow_start s\<rparr>;
                         s = s\<lparr>fs_flow := flow_value (now - fs_last_read s) data (fs_pps s)\<rparr>
                     in s\<lparr>total_flow_ml := add_ml (total_flow_ml s) (flow_ml (fs_flow s)),
                          total_ml := add_ml (total_ml s) (flow_ml (fs_flow s)), fs_force := True\<rparr>)
                  else if fs_flow s \<noteq> Fin 0 then s\<lparr>fs_flow := Fin 0, fs_force := True\<rparr>
                  else s)
         in s\<lparr>fs_last_read := now\<rparr>))"

definition flow_yf_irq :: "flow_sensor \<Rightarrow> flow_sensor" where
  "flow_yf_irq s = s\<lparr>fs_pulse := fs_pulse s + 1\<rparr>"

section \<open>MQTT report\<close>

definition flow_litres :: "u64 \<Rightarrow> f32" where
  "flow_litres ml = d_div (f32_of_int (uint ml)) (Fin 1000)"

text \<open>The sensor and the total of a report: it is reset when it is sent.\<close>

definition flow_take_total :: "flow_env \<Rightarrow> flow_sensor \<Rightarrow> f32 \<times> flow_sensor" where
  "flow_take_total e s =
     (if send_total s then (f32_of_d (flow_litres (total_ml s)), (flow_yf_reset e s)\<lparr>send_total := False\<rparr>)
      else (Fin 0, s))"

definition flow_payload :: "flow_env \<Rightarrow> string \<Rightarrow> f32 \<Rightarrow> flow_sensor \<Rightarrow> string option" where
  "flow_payload e tstr tot s =
     (let date = (\<lambda>key d. if d \<noteq> 0 then '',\"'' @ key @ ''\": \"'' @ fe_text e d @ ''\"'' else '',\"'' @ key @ ''\":\"N/A\"'')
      in build_msg FLOW_DATA_LEN
        [''{'', ''\"time\": \"'' @ tstr @ ''\"'', '',\"flow\": \"'' @ fmt_2f (fs_flow s) @ ''\"'',
         '',\"total\": \"'' @ fmt_2f tot @ ''\"'', date ''last_reset'' (last_reset_date s),
         '',\"total_flow\": \"'' @ fmt_2f (flow_litres (total_flow_ml s)) @ ''\"'',
         date ''last_flow'' (last_flow_date s),
         '',\"duration_flow\": \"'' @ int_str (sint (duration_ms s div 60000)) @ ''\"'', ''}''])"

definition flow_yf_mqtt_data_send ::
  "lwip \<Rightarrow> flow_env \<Rightarrow> string \<Rightarrow> nat \<Rightarrow> flow_context \<times> 'h mqtt_context option
   \<Rightarrow> int \<times> flow_context \<times> 'h mqtt_context option" where
  "flow_yf_mqtt_data_send e fe tstr idx st =
     (case st of (ctx, mq) \<Rightarrow>
       (let now = lw_clock e 0; (tot, s) = flow_take_total fe (fc_sensors ctx ! idx)
        in case flow_payload fe tstr tot s of None \<Rightarrow> (-1, ctx\<lparr>fc_sensors := (fc_sensors ctx)[idx := s]\<rparr>, mq)
           | Some p \<Rightarrow>
               (let (ret, c, mq) = mqtt_msg_component_publish (later 1 e) (fs_mqtt s ! FLOW_YF_MQTT_FLOW) p mq;
                    s = s\<lparr>fs_mqtt := (fs_mqtt s)[FLOW_YF_MQTT_FLOW := c], fs_force := False\<rparr>;
                    ctx = ctx\<lparr>fc_sensors := (fc_sensors ctx)[idx := s]\<rparr>
                in (ret, if ret = 0 then ctx\<lparr>fc_last_send := now\<rparr> else ctx, mq))))"

definition flow_mark :: "flow_sensor \<Rightarrow> flow_sensor" where
  "flow_mark s =
     (if fs_force s then s\<lparr>fs_mqtt := upd_at FLOW_YF_MQTT_FLOW (\<lambda>c. c\<lparr>force := True\<rparr>) (fs_mqtt s)\<rparr> else s)"

definition flow_yf_mqtt_send ::
  "lwip \<Rightarrow> flow_env \<Rightarrow> string \<Rightarrow> flow_context \<times> 'h mqtt_context option
   \<Rightarrow> flow_context \<times> 'h mqtt_context option" where
  "flow_yf_mqtt_send e fe tstr st =
     (case st of (ctx, mq) \<Rightarrow>
       (let now = lw_clock e 0; ctx = ctx\<lparr>fc_sensors := map flow_mark (fc_sensors ctx)\<rparr>; n = length (fc_sensors ctx);
            i = length (takeWhile (\<lambda>s. \<not> force (fs_mqtt s ! FLOW_YF_MQTT_FLOW)) (fc_sensors ctx))
        in if i < n then snd (flow_yf_mqtt_data_send (later 1 e) fe tstr i (ctx, mq))
           else if now - fc_last_send ctx < FLOW_DELAY_MS then (ctx, mq)
           else
             (let idx = (if fc_send_idx ctx \<ge> n then 0 else fc_send_idx ctx)
              in snd (flow_yf_mqtt_data_send (later 1 e) fe tstr idx (ctx\<lparr>fc_send_idx := idx + 1\<rparr>, mq)))))"

text \<open>\<open>nows i\<close> is the clock when sensor \<open>i\<close> is read.\<close>

definition flow_yf_read :: "flow_env \<Rightarrow> u64 \<Rightarrow> flow_sensor \<Rightarrow> flow_sensor" where
  "flow_yf_read e now s =
     flow_yf_sensor_data e now (if last_reset_date s = 0 \<and> fe_ntp e then flow_yf_reset e s else s)"

definition flow_yf_run ::
  "lwip \<Rightarrow> flow_env \<Rightarrow> string \<Rightarrow> (nat \<Rightarrow> u64) \<Rightarrow> flow_context \<times> 'h mqtt_context option
   \<Rightarrow> flow_context \<times> 'h mqtt_context option" where
  "flow_yf_run e fe tstr nows st =
     (case st of (ctx, mq) \<Rightarrow>
       (let now = lw_clock e 0;
            ctx = ctx\<lparr>fc_sensors := map (\<lambda>i. flow_yf_read fe (nows i) (fc_sensors ctx ! i)) [0 ..< length (fc_sensors ctx)]\<rparr>;
            ctx = (if acc_msec ctx \<noteq> 0 \<and> now - acc_msec_last ctx \<ge> acc_msec ctx
                   then ctx\<lparr>acc_msec_last := now,
                     fc_sensors := map (\<lambda>s. s\<lparr>fs_force := True, send_total := True\<rparr>) (fc_sensors ctx)\<rparr> else ctx)
        in flow_yf_mqtt_send (later 1 e) fe tstr (ctx, mq)))"

definition flow_yf_debug_set :: "u32 \<Rightarrow> flow_context \<Rightarrow> flow_context" where
  "flow_yf_debug_set debug ctx = ctx\<lparr>fc_debug := debug\<rparr>"

definition cmd_flow_yf_reset :: "flow_env \<Rightarrow> string option \<Rightarrow> flow_context \<Rightarrow> int \<times> flow_context" where
  "cmd_flow_yf_reset e params ctx =
     (case params of
        Some (c # ps) \<Rightarrow>
          if c = CHR '':'' \<and> ps \<noteq> [] then
            (let i = strtol_val 0 ps
             in if i < 0 \<or> i \<ge> int (length (fc_sensors ctx)) then (-1, ctx)
                else (0, ctx\<lparr>fc_sensors := upd_at (nat i) (flow_yf_reset e) (fc_sensors ctx)\<rparr>))
          else (0, ctx\<lparr>fc_sensors := map (flow_yf_reset e) (fc_sensors ctx)\<rparr>)
      | _ \<Rightarrow> (0, ctx\<lparr>fc_sensors := map (flow_yf_reset e) (fc_sensors ctx)\<rparr>))"

section \<open>Configuration\<close>

definition zero_flow :: "int \<Rightarrow> f32 \<Rightarrow> flow_sensor" where
  "zero_flow pin pps = \<lparr>fs_pin = pin, fs_pps = pps, fs_pulse = 0, fs_flow = Fin 0, fs_force = False, flow_start = 0,
     fs_last_read = 0, duration_ms = 0, last_flow_date = 0, total_flow_ml = 0, last_reset_date = 0,
     send_total = False, total_ml = 0, fs_mqtt = replicate FLOW_YF_MQTT_MAX empty_component\<rparr>"

definition flow_entry :: "bool \<Rightarrow> string \<Rightarrow> flow_sensor option" where
  "flow_entry alloc tok =
     (case strtok_r (CHR '':'') (Some tok) of
        (Some ptok, Some rest1) \<Rightarrow>
          (let pin = strtol_val 0 ptok
           in if pin < GPIO_PIN_MIN \<or> pin > GPIO_PIN_MAX then None
              else (case sys_strtof (Some rest1) of None \<Rightarrow> None
                | Some pps \<Rightarrow> if f32_le pps (Fin 0) \<or> \<not> alloc then None else Some (zero_flow pin pps)))
      | _ \<Rightarrow> None)"

fun flow_entries :: "(nat \<Rightarrow> bool) \<Rightarrow> string list \<Rightarrow> flow_sensor list \<Rightarrow> flow_sensor list" where
  "flow_entries al [] ss = ss"
| "flow_entries al (t # ts) ss =
     (case flow_entry (al 0) t of None \<Rightarrow> flow_entries (\<lambda>k. al (Suc k)) ts ss
      | Some s \<Rightarrow> if length ss + 1 \<ge> YF_SENORS_MAX then ss @ [s] else flow_entries (\<lambda>k. al (Suc k)) ts (ss @ [s]))"

definition flow_yf_config_get :: "bool \<Rightarrow> (nat \<Rightarrow> bool) \<Rightarrow> string option \<Rightarrow> string option \<Rightarrow> flow_context option" where
  "flow_yf_config_get alloc al cfg acc_sec =
     (case cfg of None \<Rightarrow> None
      | Some c \<Rightarrow>
          if length c < 1 \<or> \<not> alloc then None
          else
            (let ss = flow_entries al (strtok_all (CHR '';'') (Some c)) [];
                 acc = (case acc_sec of None \<Rightarrow> 0 | Some a \<Rightarrow> if length a \<ge> 1 then word_of_int (s32 (strtol_val 0 a * 1000)) else 0)
             in if length ss < 1 then None
                else Some \<lparr>fc_sensors = ss, fc_debug = 0, acc_msec = acc, acc_msec_last = 0, fc_last_send = 0, fc_send_idx = 0\<rparr>))"

definition flow_component :: "string \<Rightarrow> string option \<Rightarrow> string option \<Rightarrow> string \<Rightarrow> string option \<Rightarrow> mqtt_component" where
  "flow_component key cls un name topic = empty_component\<lparr>mc_module := ''flow_yf'', platform := ''sensor'', dev_class := cls,
     unit := un, value_template := ''{{ value_json['' @ [CHR 0x27] @ key @ [CHR 0x27] @ ''] }}'', mc_name := name,
     mc_state_topic := topic\<rparr>"

text \<open>The six components of a sensor, in the order of their registration, at the places of the enumeration.\<close>

definition flow_components :: "nat \<Rightarrow> 'h mqtt_context option \<Rightarrow> mqtt_component list \<times> 'h mqtt_context option" where
  "flow_components i mq =
     (let name = (\<lambda>x. ''Flow_'' @ nat_str i @ x);
          (_, c0, mq) = mqtt_msg_component_register
            (flow_component ''flow'' (Some ''volume_flow_rate'') (Some ''L/min'') (name []) None) mq;
          reg = (\<lambda>key cls un mq. case mqtt_msg_component_register
            (flow_component key cls un (name (''_'' @ key)) (mc_state_topic c0)) mq of (_, c, mq) \<Rightarrow> (c, mq));
          (c1, mq) = reg ''total_flow'' (Some ''volume_storage'') (Some ''L'') mq;
          (c2, mq) = reg ''last_flow'' None None mq;
          (c3, mq) = reg ''duration_flow'' (Some ''duration'') (Some ''min'') mq;
          (c4, mq) = reg ''total'' (Some ''volume_storage'') (Some ''L'') mq;
          (c5, mq) = reg ''last_reset'' None None mq
      in ([c0, c1, c2, c3, c4, c5], mq))"

definition flow_yf_mqtt_components_add ::
  "flow_context \<times> 'h mqtt_context option \<Rightarrow> flow_context \<times> 'h mqtt_context option" where
  "flow_yf_mqtt_components_add st =
     (case st of (ctx, mq) \<Rightarrow>
       fold (\<lambda>i (ctx, mq). case flow_components i mq of
           (cs, mq) \<Rightarrow> (ctx\<lparr>fc_sensors := upd_at i (\<lambda>s. s\<lparr>fs_mqtt := cs\<rparr>) (fc_sensors ctx)\<rparr>, mq))
         [0 ..< length (fc_sensors ctx)] (ctx, mq))"

text \<open>The handler of sensor \<open>i\<close>, as a change of the module's state, and its registration.\<close>

definition flow_hook :: "nat \<Rightarrow> flow_context \<Rightarrow> flow_context" where
  "flow_hook i ctx = ctx\<lparr>fc_sensors := upd_at i flow_yf_irq (fc_sensors ctx)\<rparr>"

definition flow_yf_init ::
  "bool \<Rightarrow> (nat \<Rightarrow> bool) \<Rightarrow> (nat \<Rightarrow> bool) \<Rightarrow> string option \<Rightarrow> string option \<Rightarrow> flow_context irq_table
   \<Rightarrow> 'h mqtt_context option \<Rightarrow> (flow_context \<times> flow_context irq_table \<times> 'h mqtt_context option) option" where
  "flow_yf_init alloc al al_irq cfg acc_sec t mq =
     (case flow_yf_config_get alloc al cfg acc_sec of None \<Rightarrow> None
      | Some ctx \<Rightarrow>
          (let total = \<not> acc_msec ctx > 0;
               ctx = ctx\<lparr>fc_sensors := map (\<lambda>s. s\<lparr>send_total := total\<rparr>) (fc_sensors ctx)\<rparr>;
               t = fold (\<lambda>i t. snd (sys_add_irq_callback (al_irq i) (fs_pin (fc_sensors ctx ! i)) (Some (flow_hook i))
                     GPIO_IRQ_EDGE_RISE t)) [0 ..< length (fc_sensors ctx)] t;
               (ctx, mq) = flow_yf_mqtt_components_add (ctx, mq)
           in Some (ctx, t, mq)))"

section \<open>Pulses\<close>

text \<open>The pulses that a reading takes, to turn them into flow and volumes.\<close>

definition flow_taken :: "u64 \<Rightarrow> flow_sensor \<Rightarrow> u32" where
  "flow_taken now s = (if now - fs_last_read s < FLOW_TIME_MS then 0 else fs_pulse s)"

text \<open>Interrupts and readings of a sensor in any order, with the pulses taken by the readings.\<close>

datatype flow_op = Pulse | Read flow_env u64

fun flow_ops :: "flow_op list \<Rightarrow> flow_sensor \<Rightarrow> nat \<times> flow_sensor" where
  "flow_ops [] s = (0, s)"
| "flow_ops (Pulse # ps) s = flow_ops ps (flow_yf_irq s)"
| "flow_ops (Read e now # ps) s =
     (case flow_ops ps (flow_yf_read e now s) of (n, s') \<Rightarrow> (unat (flow_taken now s) + n, s'))"

definition pulses :: "flow_op list \<Rightarrow> nat" where
  "pulses ps = length (filter (\<lambda>p. p = Pulse) ps)"

lemma reset_sel [simp]:
  "fs_pulse (flow_yf_reset e s) = fs_pulse s" "fs_last_read (flow_yf_reset e s) = fs_last_read s"
  "send_total (flow_yf_reset e s) = send_total s" "fs_mqtt (flow_yf_reset e s) = fs_mqtt s"
  by (simp_all add: flow_yf_reset_def Let_def split: option.split)

lemma data_pulse: "fs_pulse (flow_yf_sensor_data e now s) = (if now - fs_last_read s < FLOW_TIME_MS then fs_pulse s else 0)"
  by (simp add: flow_yf_sensor_data_def Let_def split: option.split)

lemma data_send_total: "send_total (flow_yf_sensor_data e now s) = send_total s"
  by (simp add: flow_yf_sensor_data_def Let_def split: option.split)

lemma read_pulse: "fs_pulse (flow_yf_read e now s) = (if now - fs_last_read s < FLOW_TIME_MS then fs_pulse s else 0)"
  by (simp add: flow_yf_read_def data_pulse)

lemma unat_next: "unat p + 1 < 2 ^ 32 \<Longrightarrow> unat (p + 1) = unat p + 1" for p :: u32
  by (simp add: unat_word_ariths)

text \<open>
  C14.  No pulse is lost or counted twice, however interrupts and readings interleave: those that the
  readings took and those that wait are all that came.
\<close>

lemma flow_no_pulse_lost:
  assumes "flow_ops ps s = (n, s')" and "unat (fs_pulse s) + pulses ps < 2 ^ 32"
  shows "n + unat (fs_pulse s') = unat (fs_pulse s) + pulses ps"
  using assms
proof (induction ps s arbitrary: n rule: flow_ops.induct)
  case (2 ps s)
  have "unat (fs_pulse (flow_yf_irq s)) = unat (fs_pulse s) + 1"
    using 2(3) unat_next [of "fs_pulse s"] by (simp add: flow_yf_irq_def pulses_def)
  then show ?case using 2 by (simp add: pulses_def)
next
  case (3 e now ps s)
  obtain m where m: "flow_ops ps (flow_yf_read e now s) = (m, s')" "n = unat (flow_taken now s) + m"
    using 3(2) by (simp split: prod.splits)
  have p: "unat (flow_taken now s) + unat (fs_pulse (flow_yf_read e now s)) = unat (fs_pulse s)"
    by (simp add: flow_taken_def read_pulse)
  have "m + unat (fs_pulse s') = unat (fs_pulse (flow_yf_read e now s)) + pulses ps"
    using 3(1) [OF m(1)] p 3(3) by (simp add: pulses_def)
  then show ?case using p m(2) by (simp add: pulses_def)
qed (simp add: pulses_def)

section \<open>The total\<close>

text \<open>Without an accumulation period the total is sent once.\<close>

definition total_sent :: "nat \<Rightarrow> flow_context \<Rightarrow> bool" where
  "total_sent i ctx \<longleftrightarrow> acc_msec ctx = 0 \<and> i < length (fc_sensors ctx) \<and> \<not> send_total (fc_sensors ctx ! i)"

datatype flow_event =
  Ev_run lwip flow_env string "nat \<Rightarrow> u64"
| Ev_irq nat
| Ev_reset flow_env "string option"

fun flow_apply :: "flow_event \<Rightarrow> flow_context \<times> 'h mqtt_context option \<Rightarrow> flow_context \<times> 'h mqtt_context option" where
  "flow_apply (Ev_run e fe t nows) st = flow_yf_run e fe t nows st"
| "flow_apply (Ev_irq i) (ctx, mq) = (flow_hook i ctx, mq)"
| "flow_apply (Ev_reset e params) (ctx, mq) = (snd (cmd_flow_yf_reset e params ctx), mq)"

lemma upd_total:
  assumes "\<not> send_total (ss ! i)" and "\<And>s. send_total (f s) = send_total s" and "i < length ss"
  shows "\<not> send_total (upd_at j f ss ! i)"
  using assms by (cases "i = j") simp_all

lemma data_sent:
  assumes "total_sent i ctx"
  shows "total_sent i (fst (snd (flow_yf_mqtt_data_send e fe t j (ctx, mq))))"
proof -
  obtain tot s where s: "flow_take_total fe (fc_sensors ctx ! j) = (tot, s)" by fastforce
  have n: "\<not> send_total s" using s by (auto simp: flow_take_total_def split: if_splits)
  have u: "\<not> send_total ((fc_sensors ctx)[j := x] ! i)" if "\<not> send_total x" for x
    using assms that by (cases "i = j") (simp_all add: total_sent_def)
  show ?thesis
    using assms n u by (simp add: flow_yf_mqtt_data_send_def s split_beta Let_def total_sent_def split: option.split)
qed

lemma mqtt_sent:
  assumes "total_sent i ctx"
  shows "total_sent i (fst (flow_yf_mqtt_send e fe t (ctx, mq)))"
proof -
  have "total_sent i (ctx\<lparr>fc_sensors := map flow_mark (fc_sensors ctx)\<rparr>)"
    "total_sent i (ctx\<lparr>fc_sensors := map flow_mark (fc_sensors ctx), fc_send_idx := k\<rparr>)" for k
    using assms by (simp_all add: total_sent_def flow_mark_def)
  then show ?thesis by (auto simp: flow_yf_mqtt_send_def Let_def intro!: data_sent)
qed

lemma event_sent:
  assumes "total_sent i (fst st)"
  shows "total_sent i (fst (flow_apply ev st))"
proof (cases "(ev, st)" rule: flow_apply.cases)
  case (1 e fe t nows st')
  obtain c mq where st: "st = (c, mq)" by fastforce
  define c1 where "c1 = c\<lparr>fc_sensors := map (\<lambda>i. flow_yf_read fe (nows i) (fc_sensors c ! i)) [0 ..< length (fc_sensors c)]\<rparr>"
  have "total_sent i c1" "acc_msec c1 = 0" "acc_msec c = 0"
    using assms by (simp_all add: total_sent_def flow_yf_read_def data_send_total st c1_def)
  moreover have "flow_apply ev st = flow_yf_mqtt_send (later 1 e) fe t (c1, mq)"
    using 1 \<open>acc_msec c = 0\<close> by (auto simp: flow_yf_run_def Let_def st c1_def)
  ultimately show ?thesis using mqtt_sent [of i c1] by simp
next
  case (2 j ctx mq)
  then show ?thesis using assms upd_total [of "fc_sensors ctx" i flow_yf_irq j]
    by (simp add: total_sent_def flow_hook_def flow_yf_irq_def)
next
  case (3 e params ctx mq)
  then show ?thesis using assms upd_total [of "fc_sensors ctx" i "flow_yf_reset e"]
    by (auto simp: total_sent_def cmd_flow_yf_reset_def Let_def split: option.split list.split)
qed

text \<open>
  Without an accumulation period the total of a sensor is reported once, with its first report: that
  report clears the flag, no run, interrupt or reset command sets it again, and the total of every
  later report is 0, whatever flows.
\<close>

lemma flow_total_reported_once:
  assumes "acc_msec ctx = 0" and "i < length (fc_sensors ctx)"
    and "snd (flow_yf_mqtt_data_send e fe t i (ctx, mq)) = st"
  shows "flow_take_total fe' (fc_sensors (fst (fold flow_apply evs st)) ! i) =
    (Fin 0, fc_sensors (fst (fold flow_apply evs st)) ! i)"
proof -
  obtain tot s where s: "flow_take_total fe (fc_sensors ctx ! i) = (tot, s)" by fastforce
  have n: "\<not> send_total s" using s by (auto simp: flow_take_total_def split: if_splits)
  have "total_sent i (fst st)"
    unfolding assms(3) [symmetric]
    using assms(1,2) n by (simp add: flow_yf_mqtt_data_send_def s split_beta Let_def total_sent_def split: option.split)
  then have "total_sent i (fst (fold flow_apply evs st))"
    by (induction evs arbitrary: st) (simp_all add: event_sent)
  then show ?thesis by (simp add: total_sent_def flow_take_total_def)
qed

text \<open>A report that is not accepted loses the accumulated volume.\<close>

lemma flow_total_lost:
  assumes "fc_sensors ctx ! i = s" and "i < length (fc_sensors ctx)" and "send_total s"
  shows "\<exists>ctx'. flow_yf_mqtt_data_send e fe t i (ctx, None) = (-1, ctx', None :: 'h mqtt_context option) \<and>
    total_ml (fc_sensors ctx' ! i) = 0 \<and> \<not> send_total (fc_sensors ctx' ! i)"
proof -
  have "total_ml (flow_yf_reset fe s) = 0" by (simp add: flow_yf_reset_def Let_def split: option.split)
  then show ?thesis
    using assms
    by (auto simp: flow_yf_mqtt_data_send_def flow_take_total_def split_beta Let_def
        mqtt_msg_component_publish_def mqtt_is_discovery_sent_def split: option.split)
qed

text \<open>
  A reading that comes late counts only a second of the flow it measured: 79 pulses in one second
  and 158 in two add the same volume.  And a total of 33554 litres no longer grows with a slow flow.
\<close>

lemma flow_volume_examples:
  "flow_value 1000 79 (f32_rnd (79 / 10)) = flow_value 2000 158 (f32_rnd (79 / 10))"
  "add_ml 0 (flow_ml (flow_value 2000 158 (f32_rnd (79 / 10)))) = 166"
  "add_ml 33554432 (flow_ml (Fin (1 / 10))) = 33554432"
  by code_simp+

section \<open>Witnesses\<close>

definition demo_flow_env :: flow_env where
  "demo_flow_env = \<lparr>fe_ntp = True, fe_date = Some 1700000000, fe_text = (\<lambda>_. ''2023-11-14 22:13:20'')\<rparr>"

definition demo_flow :: flow_context where
  "demo_flow = \<lparr>fc_sensors = [(zero_flow 2 (f32_rnd (79 / 10)))\<lparr>send_total := True, total_ml := 5000\<rparr>], fc_debug = 0,
     acc_msec = 0, acc_msec_last = 0, fc_last_send = 0, fc_send_idx = 0\<rparr>"

lemma flow_no_pulse_lost_witness:
  "fst (flow_ops [Pulse, Pulse, Read demo_flow_env 1000, Pulse, Read demo_flow_env 1500] (zero_flow 2 (Fin 8))) +
   unat (fs_pulse (snd (flow_ops [Pulse, Pulse, Read demo_flow_env 1000, Pulse, Read demo_flow_env 1500] (zero_flow 2 (Fin 8))))) = 3"
  using flow_no_pulse_lost [of "[Pulse, Pulse, Read demo_flow_env 1000, Pulse, Read demo_flow_env 1500]" "zero_flow 2 (Fin 8)"]
  by (simp add: pulses_def zero_flow_def split: prod.splits)

lemma flow_total_reported_once_witness:
  "fst (flow_take_total demo_flow_env (fc_sensors demo_flow ! 0)) = Fin 5 \<and>
   fst (flow_take_total demo_flow_env (fc_sensors (fst (fold flow_apply
     (replicate 50 (Ev_irq 0) @ [Ev_run (demo_lwip 9000) demo_flow_env ''22:13'' (\<lambda>_. 9000), Ev_reset demo_flow_env None])
     (snd (flow_yf_mqtt_data_send (demo_lwip 5000) demo_flow_env ''22:13'' 0 (demo_flow, Some demo_mqtt))))) ! 0)) = Fin 0"
proof -
  have c: "acc_msec demo_flow = 0" "0 < length (fc_sensors demo_flow)" by (simp_all add: demo_flow_def)
  have "f32_of_int 5000 = Fin 5000" unfolding f32_of_int_def by code_simp
  moreover have "d_rnd 5 = Fin 5"
  proof -
    have "ilog2 5 = 2" by code_simp
    then show ?thesis by (intro d_rnd_exact [where k = 2 and z = 5629499534213120]) (simp_all add: pow2_def power_int_def power_one_over)
  qed
  moreover have "f32_of_d (Fin 5) = Fin 5" by code_simp
  ultimately have "fst (flow_take_total demo_flow_env (fc_sensors demo_flow ! 0)) = Fin 5"
    by (simp add: flow_take_total_def demo_flow_def flow_litres_def d_div_def d_op_def)
  then show ?thesis unfolding flow_total_reported_once [OF c refl] by simp
qed

end
