(* ===== verification/Tftp.thy ===== *)
theory Tftp
  imports Mqtt
begin

text \<open>
  The TFTP client, \<open>libs/common/services/tftp_client/tftp_client.c\<close>: parsing of an address, the table of
  jobs, their run loop and the callbacks of the TFTP client of lwIP.  A job belongs to a user of the
  service: its hooks act on the user's state \<open>'w\<close>, and the name of the file and the server are read
  there through the pointer \<open>file\<close>.  A job that is not started is None.  lwIP is a parameter; the feeding
  of the watchdog by the callbacks and the log are left out.
\<close>

definition TFTP_URL :: string where "TFTP_URL = ''tftp://''"
definition MAX_CLIENT_JOBS :: nat where "MAX_CLIENT_JOBS = 3"
definition JOB_TIMEOUT_MSEC :: u64 where "JOB_TIMEOUT_MSEC = 60000"
definition IP_TIMEOUT_MS :: u64 where "IP_TIMEOUT_MS = 10000"
definition LWIP_IANA_PORT_TFTP :: int where "LWIP_IANA_PORT_TFTP = 69"
definition TFTP_ERR_INPROGRESS :: int where "TFTP_ERR_INPROGRESS = -5"

record tftp_file =
  tf_fname :: "string option"
  tf_peer :: "string option"
  tf_port :: int

definition no_file :: tftp_file where
  "no_file = \<lparr>tf_fname = None, tf_peer = None, tf_port = 0\<rparr>"

section \<open>Addresses\<close>

text \<open>
  None: a NULL pointer that is copied, or two pointers that dangle after a failed allocation (the
  allocations are answered by \<open>al\<close>).
\<close>

definition tftp_url_parse :: "(nat \<Rightarrow> bool) \<Rightarrow> string \<Rightarrow> tftp_file \<Rightarrow> (int \<times> tftp_file) option" where
  "tftp_url_parse al url file =
     (if length url \<le> length TFTP_URL \<or> strncmp_ne url TFTP_URL (length TFTP_URL) then Some (-1, file)
      else
        (case strtok_r (CHR ''/'') (Some (drop (length TFTP_URL) url)) of
           (None, _) \<Rightarrow> Some (-1, file)
         | (Some addr, fname) \<Rightarrow>
             (case strtok_r (CHR '':'') (Some addr) of
                (None, _) \<Rightarrow> None
              | (Some addr, port) \<Rightarrow>
                  (let named = (case fname of None \<Rightarrow> False | Some n \<Rightarrow> length n > 1)
                   in if named \<and> \<not> al 0 \<or> \<not> al 1 then None
                      else Some (0, \<lparr>tf_fname = (if named then fname else None), tf_peer = Some addr,
                             tf_port = (case port of None \<Rightarrow> LWIP_IANA_PORT_TFTP | Some p \<Rightarrow> strtol_val 0 p)\<rparr>)))))"

section \<open>Jobs\<close>

text \<open>The hooks of a user: opening for reading or writing, closing, a block to send, a received
  chain of buffers, an error.\<close>

record 'w tftp_hooks =
  th_open :: "string \<Rightarrow> bool \<Rightarrow> 'w \<Rightarrow> bool \<times> 'w"
  th_close :: "'w \<Rightarrow> 'w"
  th_read :: "nat \<Rightarrow> 'w \<Rightarrow> int \<times> string \<times> 'w"
  th_write :: "string list \<Rightarrow> 'w \<Rightarrow> int \<times> 'w"
  th_error :: "int \<Rightarrow> 'w \<Rightarrow> 'w"

record 'w tftp_job =
  tj_started :: u64
  tj_last :: u64
  tj_requested :: bool
  tj_get :: bool
  tj_total :: u32
  tj_hooks :: "'w tftp_hooks"
  tj_file :: "'w \<Rightarrow> tftp_file"
  tj_ip :: ip_resolve_state

record 'w tftp_client =
  tc_debug :: u32
  tc_jobs :: "'w tftp_job option list"

record tftp_env =
  te_now :: u64
  te_dns :: "string option \<Rightarrow> int"
  te_request :: "bool \<Rightarrow> tftp_file \<Rightarrow> int"

definition ERR_TIMEOUT :: int where "ERR_TIMEOUT = -3"

definition sys_tftp_client_debug_set :: "u32 \<Rightarrow> 'w tftp_client \<Rightarrow> 'w tftp_client" where
  "sys_tftp_client_debug_set lvl ctx = ctx\<lparr>tc_debug := lvl\<rparr>"

definition sys_tftp_client_job_cancel :: "'w tftp_job \<Rightarrow> 'w \<Rightarrow> 'w tftp_job option \<times> 'w" where
  "sys_tftp_client_job_cancel job w = (None, th_error (tj_hooks job) ERR_TIMEOUT w)"

definition tftp_peer_found :: "nat \<Rightarrow> 'w tftp_client \<Rightarrow> 'w tftp_client" where
  "tftp_peer_found i ctx = ctx\<lparr>tc_jobs := upd_at i (map_option (\<lambda>j. j\<lparr>tj_ip := IP_RESOLVED\<rparr>)) (tc_jobs ctx)\<rparr>"

text \<open>The resolution of the server: None cancels the job.\<close>

definition job_resolve :: "tftp_env \<Rightarrow> 'w tftp_job \<Rightarrow> 'w \<Rightarrow> 'w tftp_job option" where
  "job_resolve e job w =
     (if tj_ip job = IP_NOT_RESOLEVED then
        (let res = te_dns e (tf_peer (tj_file job w))
         in if res = 0 then Some (job\<lparr>tj_ip := IP_RESOLVED\<rparr>)
            else if res = TFTP_ERR_INPROGRESS then Some (job\<lparr>tj_ip := IP_RESOLVING\<rparr>)
            else None)
      else Some job)"

definition sys_tftp_client_job_run :: "tftp_env \<Rightarrow> 'w tftp_job \<Rightarrow> 'w \<Rightarrow> 'w tftp_job option \<times> 'w" where
  "sys_tftp_client_job_run e job w =
     (case job_resolve e job w of None \<Rightarrow> sys_tftp_client_job_cancel job w
      | Some job \<Rightarrow>
          if tj_ip job = IP_RESOLVING then
            (if te_now e - tj_started job > IP_TIMEOUT_MS then sys_tftp_client_job_cancel job w else (Some job, w))
          else if \<not> tj_requested job then
            (if te_request e (tj_get job) (tj_file job w) \<noteq> 0 then sys_tftp_client_job_cancel job w
             else (Some (job\<lparr>tj_requested := True, tj_last := te_now e\<rparr>), w))
          else if te_now e > tj_last job \<and> te_now e - tj_last job > JOB_TIMEOUT_MSEC then sys_tftp_client_job_cancel job w
          else (Some job, w))"

text \<open>\<open>e i\<close> is what lwIP and the clock answer while job \<open>i\<close> runs.\<close>

definition sys_tftp_client_run :: "(nat \<Rightarrow> tftp_env) \<Rightarrow> 'w tftp_client \<times> 'w \<Rightarrow> 'w tftp_client \<times> 'w" where
  "sys_tftp_client_run e st =
     fold (\<lambda>i (ctx, w).
         case tc_jobs ctx ! i of None \<Rightarrow> (ctx, w)
         | Some job \<Rightarrow> (case sys_tftp_client_job_run (e i) job w of (j, w) \<Rightarrow> (ctx\<lparr>tc_jobs := (tc_jobs ctx)[i := j]\<rparr>, w)))
       [0 ..< MAX_CLIENT_JOBS] st"

section \<open>Callbacks\<close>

text \<open>The first job whose hook opens the file is the handle.\<close>

fun open_jobs :: "u64 \<Rightarrow> string \<Rightarrow> bool \<Rightarrow> nat list \<Rightarrow> 'w tftp_client \<times> 'w \<Rightarrow> nat option \<times> 'w tftp_client \<times> 'w" where
  "open_jobs now fname is_write [] (ctx, w) = (None, ctx, w)"
| "open_jobs now fname is_write (i # is) (ctx, w) =
     (case tc_jobs ctx ! i of None \<Rightarrow> open_jobs now fname is_write is (ctx, w)
      | Some job \<Rightarrow>
          (case th_open (tj_hooks job) fname is_write w of (opened, w) \<Rightarrow>
             if opened then (Some i, ctx\<lparr>tc_jobs := (tc_jobs ctx)[i := Some (job\<lparr>tj_last := now\<rparr>)]\<rparr>, w)
             else open_jobs now fname is_write is (ctx, w)))"

definition tftp_client_open ::
  "u64 \<Rightarrow> string \<Rightarrow> bool \<Rightarrow> 'w tftp_client option \<times> 'w \<Rightarrow> nat option \<times> 'w tftp_client option \<times> 'w" where
  "tftp_client_open now fname is_write st =
     (case st of (None, w) \<Rightarrow> (None, None, w)
      | (Some ctx, w) \<Rightarrow>
          (case open_jobs now fname is_write [0 ..< MAX_CLIENT_JOBS] (ctx, w) of (r, ctx, w) \<Rightarrow> (r, Some ctx, w)))"

text \<open>The job of a handle, if it is still started.\<close>

definition job_of :: "nat option \<Rightarrow> 'w tftp_client \<Rightarrow> 'w tftp_job option" where
  "job_of handle ctx =
     (case handle of None \<Rightarrow> None | Some i \<Rightarrow> if i < length (tc_jobs ctx) then tc_jobs ctx ! i else None)"

definition job_put :: "nat option \<Rightarrow> 'w tftp_job option \<Rightarrow> 'w tftp_client \<Rightarrow> 'w tftp_client" where
  "job_put handle job ctx = (case handle of None \<Rightarrow> ctx | Some i \<Rightarrow> ctx\<lparr>tc_jobs := (tc_jobs ctx)[i := job]\<rparr>)"

definition tftp_client_close :: "nat option \<Rightarrow> 'w tftp_client \<times> 'w \<Rightarrow> 'w tftp_client \<times> 'w" where
  "tftp_client_close handle st =
     (case st of (ctx, w) \<Rightarrow>
       (case job_of handle ctx of None \<Rightarrow> (ctx, w)
        | Some job \<Rightarrow> (job_put handle None ctx, th_close (tj_hooks job) w)))"

definition tftp_client_read ::
  "u64 \<Rightarrow> nat option \<Rightarrow> nat \<Rightarrow> 'w tftp_client \<times> 'w \<Rightarrow> int \<times> string \<times> 'w tftp_client \<times> 'w" where
  "tftp_client_read now handle bytes st =
     (case st of (ctx, w) \<Rightarrow>
       (case job_of handle ctx of None \<Rightarrow> (-1, [], ctx, w)
        | Some job \<Rightarrow>
            (let (res, buf, w) = th_read (tj_hooks job) bytes w; job = job\<lparr>tj_last := now\<rparr>;
                 job = (if res > 0 then job\<lparr>tj_total := tj_total job + word_of_int res\<rparr> else job)
             in (res, buf, job_put handle (Some job) ctx, w))))"

text \<open>The total grows by the length of the first buffer of the chain only.\<close>

definition tftp_client_write ::
  "u64 \<Rightarrow> nat option \<Rightarrow> string list \<Rightarrow> 'w tftp_client \<times> 'w \<Rightarrow> int \<times> 'w tftp_client \<times> 'w" where
  "tftp_client_write now handle p st =
     (case st of (ctx, w) \<Rightarrow>
       (case job_of handle ctx of None \<Rightarrow> (-1, ctx, w)
        | Some job \<Rightarrow>
            (let (res, w) = th_write (tj_hooks job) p w
             in (res, job_put handle (Some (job\<lparr>tj_last := now, tj_total := tj_total job + of_nat (length (hd p))\<rparr>)) ctx, w))))"

definition tftp_client_error :: "nat option \<Rightarrow> int \<Rightarrow> 'w tftp_client \<times> 'w \<Rightarrow> 'w tftp_client \<times> 'w" where
  "tftp_client_error handle err st =
     (case st of (ctx, w) \<Rightarrow>
       (case job_of handle ctx of None \<Rightarrow> (ctx, w)
        | Some job \<Rightarrow> (job_put handle None ctx, th_error (tj_hooks job) err w)))"

section \<open>New jobs\<close>

text \<open>A job that is made in the first millisecond after the boot counts as not started.\<close>

definition tftp_clinet_new_job ::
  "u64 \<Rightarrow> 'w tftp_hooks \<Rightarrow> ('w \<Rightarrow> tftp_file) \<Rightarrow> bool \<Rightarrow> 'w tftp_client option \<Rightarrow> int \<times> 'w tftp_client option" where
  "tftp_clinet_new_job now hk file get c =
     (case c of None \<Rightarrow> (-1, None)
      | Some ctx \<Rightarrow>
          (let i = length (takeWhile (\<lambda>j. j \<noteq> None) (tc_jobs ctx));
               job = \<lparr>tj_started = now, tj_last = 0, tj_requested = False, tj_get = get, tj_total = 0,
                 tj_hooks = hk, tj_file = file, tj_ip = IP_NOT_RESOLEVED\<rparr>
           in if i \<ge> length (tc_jobs ctx) then (-1, Some ctx)
              else (0, Some (ctx\<lparr>tc_jobs := (tc_jobs ctx)[i := if now = 0 then None else Some job]\<rparr>))))"

definition tftp_file_get ::
  "u64 \<Rightarrow> 'w tftp_hooks \<Rightarrow> ('w \<Rightarrow> tftp_file) \<Rightarrow> 'w tftp_client option \<Rightarrow> int \<times> 'w tftp_client option" where
  "tftp_file_get now hk file c = tftp_clinet_new_job now hk file True c"

definition tftp_file_put ::
  "u64 \<Rightarrow> 'w tftp_hooks \<Rightarrow> ('w \<Rightarrow> tftp_file) \<Rightarrow> 'w tftp_client option \<Rightarrow> int \<times> 'w tftp_client option" where
  "tftp_file_put now hk file c = tftp_clinet_new_job now hk file False c"

definition sys_tftp_client_init :: "bool \<Rightarrow> int \<Rightarrow> 'w tftp_client option" where
  "sys_tftp_client_init alloc err =
     (if alloc \<and> err = 0 then Some \<lparr>tc_debug = 0, tc_jobs = replicate MAX_CLIENT_JOBS None\<rparr> else None)"

section \<open>A job ends\<close>

lemma job_runs_cases:
  assumes "sys_tftp_client_job_run e job w = (Some j, w')"
  shows "w' = w \<and> tj_started j = tj_started job \<and> tj_hooks j = tj_hooks job \<and> tj_file j = tj_file job \<and>
    (tj_ip j = IP_RESOLVING \<or> tj_ip j = IP_RESOLVED \<and> tj_requested j \<and> (tj_last j = te_now e \<or> tj_last j = tj_last job))"
proof -
  obtain job1 where r: "job_resolve e job w = Some job1"
    using assms by (cases "job_resolve e job w") (simp_all add: sys_tftp_client_job_run_def sys_tftp_client_job_cancel_def)
  have s: "tj_started job1 = tj_started job \<and> tj_hooks job1 = tj_hooks job \<and> tj_file job1 = tj_file job \<and>
      tj_last job1 = tj_last job \<and> tj_ip job1 \<noteq> IP_NOT_RESOLEVED"
    using r by (auto simp: job_resolve_def Let_def split: if_splits)
  then have "tj_ip job1 = IP_RESOLVING \<or> tj_ip job1 = IP_RESOLVED" by (cases "tj_ip job1") simp_all
  then show ?thesis
    using assms r s
    by (auto simp: sys_tftp_client_job_run_def sys_tftp_client_job_cancel_def split: if_splits)
qed

definition job_ok :: "u64 \<Rightarrow> 'w tftp_job \<Rightarrow> bool" where
  "job_ok now job \<longleftrightarrow> tj_started job \<le> now \<and> tj_last job \<le> now"

lemma late_iff: "a \<le> b \<Longrightarrow> unat b + k < unat c \<Longrightarrow> k < 2 ^ 32 \<Longrightarrow> of_nat k < c - a" for a b c :: u64
proof -
  assume a: "a \<le> b" "unat b + k < unat c" "k < 2 ^ 32"
  have le: "unat a \<le> unat b" "a \<le> c" using a by (simp_all add: word_le_nat_alt)
  then have "unat (c - a) = unat c - unat a" by (simp add: unat_diff_le)
  moreover have "unat (of_nat k :: u64) = k" using a(3) by (simp add: unat_of_nat take_bit_nat_eq_self)
  ultimately show ?thesis using a le by (simp add: word_less_nat_alt)
qed

lemma second_run:
  assumes "sys_tftp_client_job_run e1 job w = (Some j, w1)" and "job_ok (te_now e1) job"
    and "unat (te_now e1) + 60000 < unat (te_now e2)"
  shows "sys_tftp_client_job_run e2 j w2 = (None, th_error (tj_hooks job) ERR_TIMEOUT w2)"
proof -
  note c = job_runs_cases [OF assms(1)]
  have t: "te_now e2 - tj_started j > IP_TIMEOUT_MS"
    using late_iff [of "tj_started j" "te_now e1" 10000 "te_now e2"] c assms(2,3) by (simp add: IP_TIMEOUT_MS_def job_ok_def)
  have "tj_last j \<le> te_now e1" if "tj_ip j = IP_RESOLVED" using c that assms(2) by (auto simp: job_ok_def)
  then have "te_now e2 > tj_last j \<and> te_now e2 - tj_last j > JOB_TIMEOUT_MSEC" if "tj_ip j = IP_RESOLVED"
    using late_iff [of "tj_last j" "te_now e1" 60000 "te_now e2"] that assms(3)
    by (auto simp: JOB_TIMEOUT_MSEC_def word_less_nat_alt word_le_nat_alt)
  then show ?thesis
    using c t by (auto simp: sys_tftp_client_job_run_def job_resolve_def sys_tftp_client_job_cancel_def)
qed

text \<open>What a run does with one job, its user's state being \<open>w i\<close> by then.\<close>

definition job_after :: "(nat \<Rightarrow> tftp_env) \<Rightarrow> (nat \<Rightarrow> 'w) \<Rightarrow> nat \<Rightarrow> 'w tftp_job option \<Rightarrow> 'w tftp_job option" where
  "job_after e w i job = (case job of None \<Rightarrow> None | Some j \<Rightarrow> fst (sys_tftp_client_job_run (e i) j (w i)))"

lemma job_after_upd:
  "job_after e (ws(k := w)) i x = (if i = k then job_after e (\<lambda>_. w) k x else job_after e ws i x)"
  by (cases x) (simp_all add: job_after_def)

lemma run_jobs:
  assumes "length (tc_jobs ctx) = MAX_CLIENT_JOBS"
  shows "\<exists>ws. tc_jobs (fst (sys_tftp_client_run e (ctx, w))) = map (\<lambda>i. job_after e ws i (tc_jobs ctx ! i)) [0 ..< MAX_CLIENT_JOBS]"
proof -
  have "\<exists>ws. length (tc_jobs (fst (fold F is (ctx, w)))) = length (tc_jobs ctx) \<and>
      (\<forall>i < length (tc_jobs ctx). tc_jobs (fst (fold F is (ctx, w))) ! i =
        (if i \<in> set is then job_after e ws i (tc_jobs ctx ! i) else tc_jobs ctx ! i))"
    if "distinct is" and F: "F = (\<lambda>i (ctx, w).
         case tc_jobs ctx ! i of None \<Rightarrow> (ctx, w)
         | Some job \<Rightarrow> (case sys_tftp_client_job_run (e i) job w of (j, w) \<Rightarrow> (ctx\<lparr>tc_jobs := (tc_jobs ctx)[i := j]\<rparr>, w)))"
    for "is" F
    using that(1)
  proof (induction "is" rule: rev_induct)
    case (snoc k "is")
    then obtain ws where ws: "length (tc_jobs (fst (fold F is (ctx, w)))) = length (tc_jobs ctx)"
      "\<forall>i < length (tc_jobs ctx). tc_jobs (fst (fold F is (ctx, w))) ! i =
        (if i \<in> set is then job_after e ws i (tc_jobs ctx ! i) else tc_jobs ctx ! i)" by auto
    obtain c1 w1 where c1: "fold F is (ctx, w) = (c1, w1)" by fastforce
    have new: "fold F (is @ [k]) (ctx, w) = F k (c1, w1)" by (simp add: c1)
    have "tc_jobs (fst (F k (c1, w1))) = (if k < length (tc_jobs c1) then (tc_jobs c1)[k := job_after e (\<lambda>_. w1) k (tc_jobs c1 ! k)] else tc_jobs c1)
        \<or> \<not> k < length (tc_jobs c1) \<and> length (tc_jobs (fst (F k (c1, w1)))) = length (tc_jobs c1)
            \<and> (\<forall>i < length (tc_jobs c1). tc_jobs (fst (F k (c1, w1))) ! i = tc_jobs c1 ! i)"
      by (auto simp: F job_after_def list_update_beyond split: option.splits prod.splits) (metis list_update_id)
    then have at: "length (tc_jobs (fst (F k (c1, w1)))) = length (tc_jobs c1)"
      "\<forall>i < length (tc_jobs c1). tc_jobs (fst (F k (c1, w1))) ! i =
        (if i = k then job_after e (\<lambda>_. w1) k (tc_jobs c1 ! k) else tc_jobs c1 ! i)"
      by (auto simp: nth_list_update)
    have "k \<notin> set is" using snoc.prems by simp
    then have "\<forall>i < length (tc_jobs ctx). tc_jobs (fst (F k (c1, w1))) ! i =
        (if i \<in> set (is @ [k]) then job_after e (ws(k := w1)) i (tc_jobs ctx ! i) else tc_jobs ctx ! i)"
      using ws at by (auto simp: c1 job_after_upd)
    then show ?case using ws(1) at(1) unfolding new by (metis c1 fst_conv)
  qed auto
  from this [OF distinct_upt refl, of 0 MAX_CLIENT_JOBS] obtain ws where
    "length (tc_jobs (fst (sys_tftp_client_run e (ctx, w)))) = length (tc_jobs ctx)"
    "\<forall>i < length (tc_jobs ctx). tc_jobs (fst (sys_tftp_client_run e (ctx, w))) ! i = job_after e ws i (tc_jobs ctx ! i)"
    using assms by (auto simp: sys_tftp_client_run_def)
  then show ?thesis using assms by (intro exI [of _ ws] nth_equalityI) simp_all
qed

text \<open>
  C36.  No job stays for ever: when nothing happens between two runs that are more than a minute apart,
  every job is cancelled by the second of them at the latest, whether its server was never resolved,
  the request was never answered or the transfer has stopped.
\<close>

lemma tftp_jobs_end:
  assumes "length (tc_jobs ctx) = MAX_CLIENT_JOBS"
    and "\<And>i job. i < MAX_CLIENT_JOBS \<Longrightarrow> tc_jobs ctx ! i = Some job \<Longrightarrow> job_ok (te_now (e1 i)) job"
    and "\<And>i. i < MAX_CLIENT_JOBS \<Longrightarrow> unat (te_now (e1 i)) + 60000 < unat (te_now (e2 i))"
  shows "tc_jobs (fst (sys_tftp_client_run e2 (sys_tftp_client_run e1 (ctx, w)))) = replicate MAX_CLIENT_JOBS None"
proof -
  obtain ctx1 w1 where r1: "sys_tftp_client_run e1 (ctx, w) = (ctx1, w1)" by fastforce
  obtain ws where ws: "tc_jobs ctx1 = map (\<lambda>i. job_after e1 ws i (tc_jobs ctx ! i)) [0 ..< MAX_CLIENT_JOBS]"
    using run_jobs [OF assms(1), of e1 w] r1 by auto
  obtain vs where vs: "tc_jobs (fst (sys_tftp_client_run e2 (ctx1, w1))) =
      map (\<lambda>i. job_after e2 vs i (tc_jobs ctx1 ! i)) [0 ..< MAX_CLIENT_JOBS]"
    using run_jobs [of ctx1 e2 w1] ws by auto
  have "job_after e2 vs i (tc_jobs ctx1 ! i) = None" if i: "i < MAX_CLIENT_JOBS" for i
  proof (cases "tc_jobs ctx ! i")
    case (Some job)
    obtain j w2 where j: "sys_tftp_client_job_run (e1 i) job (ws i) = (j, w2)" by fastforce
    then have "tc_jobs ctx1 ! i = j" using i Some by (simp add: ws job_after_def)
    then show ?thesis
      using j second_run [of "e1 i" job "ws i" _ w2 "e2 i" "vs i"] assms(2) [OF i Some] assms(3) [OF i]
      by (cases j) (auto simp: job_after_def)
  qed (use i in \<open>simp add: ws job_after_def\<close>)
  then show ?thesis unfolding r1 vs by (intro nth_equalityI) simp_all
qed

section \<open>Witnesses\<close>

text \<open>A user that counts its errors, and a server whose name is never resolved.\<close>

definition demo_hooks :: "nat tftp_hooks" where
  "demo_hooks = \<lparr>th_open = (\<lambda>_ _ n. (True, n)), th_close = (\<lambda>n. n), th_read = (\<lambda>_ n. (0, [], n)),
     th_write = (\<lambda>_ n. (0, n)), th_error = (\<lambda>_ n. n + 1)\<rparr>"

definition demo_tftp_env :: "u64 \<Rightarrow> tftp_env" where
  "demo_tftp_env t = \<lparr>te_now = t, te_dns = (\<lambda>_. -5), te_request = (\<lambda>_ _. 0)\<rparr>"

definition demo_tftp :: "nat tftp_client" where
  "demo_tftp = (case tftp_file_get 1000 demo_hooks (\<lambda>_. \<lparr>tf_fname = Some ''a.bin'', tf_peer = Some ''host'', tf_port = 69\<rparr>)
     (sys_tftp_client_init True 0) of (_, Some c) \<Rightarrow> c)"

lemma demo_tftp_jobs:
  "\<exists>j. tc_jobs demo_tftp = [Some j, None, None] \<and> tj_started j = 1000 \<and> tj_last j = 0"
  by (simp add: demo_tftp_def tftp_file_get_def tftp_clinet_new_job_def sys_tftp_client_init_def MAX_CLIENT_JOBS_def
      numeral_3_eq_3 Let_def)

lemma tftp_jobs_end_witness:
  "tc_jobs demo_tftp \<noteq> replicate 3 None \<and>
   tc_jobs (fst (sys_tftp_client_run (\<lambda>_. demo_tftp_env 61002) (sys_tftp_client_run (\<lambda>_. demo_tftp_env 1001) (demo_tftp, 0)))) =
   replicate 3 None"
proof -
  obtain j where j: "tc_jobs demo_tftp = [Some j, None, None]" "tj_started j = 1000" "tj_last j = 0"
    using demo_tftp_jobs by blast
  have "job_ok 1001 job" if "i < 3" "tc_jobs demo_tftp ! i = Some job" for i job
    using that j by (auto simp: job_ok_def numeral_3_eq_3 less_Suc_eq)
  then show ?thesis
    using tftp_jobs_end [of demo_tftp "\<lambda>_. demo_tftp_env 1001" "\<lambda>_. demo_tftp_env 61002" 0] j
    by (simp add: demo_tftp_env_def MAX_CLIENT_JOBS_def numeral_3_eq_3)
qed

end
