(* ===== verification/Fs.thy ===== *)
theory Fs
  imports Tftp
begin

text \<open>
  The file system service, \<open>libs/common/services/fs/fs.c\<close> and \<open>fs_tftp.c\<close>: descriptors, reading of lines,
  copying and moving, the commands, and the hooks of the TFTP client.  The flash file system
  (pico_hal over littlefs) is not part of the sources: it is the record \<open>pico\<close> of the calls the
  service makes, over a state \<open>'f\<close>.  The web server is seen by the calls of \<open>webserv_client_close\<close>.
  None is a NULL or dangling pointer that is used, or an access outside a buffer.
\<close>

definition MAX_OPENED_FILES :: nat where "MAX_OPENED_FILES = 10"
definition COPY_BUFF :: nat where "COPY_BUFF = 64"
definition CAT_BUFF_SIZE :: nat where "CAT_BUFF_SIZE = 512"
definition FS_MAX_FILE_PATH :: nat where "FS_MAX_FILE_PATH = 255"
definition LFS_ERR_EXIST :: int where "LFS_ERR_EXIST = -17"

text \<open>The file system: open for reading or (created and truncated) for writing, read and write with
  the number of bytes or an error, entries of a directory with whether they are regular files.\<close>

record 'f pico =
  p_open :: "string \<Rightarrow> bool \<Rightarrow> 'f \<Rightarrow> int \<times> 'f"
  p_close :: "int \<Rightarrow> 'f \<Rightarrow> int \<times> 'f"
  p_read :: "int \<Rightarrow> nat \<Rightarrow> 'f \<Rightarrow> int \<times> string \<times> 'f"
  p_write :: "int \<Rightarrow> string \<Rightarrow> 'f \<Rightarrow> int \<times> 'f"
  p_size :: "int \<Rightarrow> 'f \<Rightarrow> int"
  p_remove :: "string \<Rightarrow> 'f \<Rightarrow> int \<times> 'f"
  p_rename :: "string \<Rightarrow> string \<Rightarrow> 'f \<Rightarrow> int \<times> 'f"
  p_mkdir :: "string \<Rightarrow> 'f \<Rightarrow> int \<times> 'f"
  p_dir :: "string \<Rightarrow> 'f \<Rightarrow> (string \<times> bool) list option"
  p_mount :: "bool \<Rightarrow> 'f \<Rightarrow> int \<times> 'f"
  p_unmount :: "'f \<Rightarrow> int \<times> 'f"

record fs_file_copy =
  cj_src :: tftp_file
  cj_dst :: tftp_file
  cj_fd :: int
  cj_started :: u64
  cj_web :: int

record fs_context =
  fs_debug :: u32
  copy_job :: fs_file_copy
  open_fd :: "int list"

record 'f fs_world =
  fw_ctx :: "fs_context option"
  fw_fs :: 'f
  fw_closed :: "int list"

section \<open>Descriptors\<close>

definition fs_is_mounted :: "'f fs_world \<Rightarrow> bool" where
  "fs_is_mounted w \<longleftrightarrow> fw_ctx w \<noteq> None"

definition fs_open :: "'f pico \<Rightarrow> string \<Rightarrow> bool \<Rightarrow> 'f fs_world \<Rightarrow> int \<times> 'f fs_world" where
  "fs_open h path wr w =
     (case fw_ctx w of None \<Rightarrow> (-1, w)
      | Some ctx \<Rightarrow>
          (let i = length (takeWhile (\<lambda>fd. \<not> fd < 0) (open_fd ctx))
           in if i \<ge> length (open_fd ctx) then (-1, w)
              else
                (let (fd, f) = p_open h path wr (fw_fs w); w = w\<lparr>fw_fs := f\<rparr>
                 in if fd < 0 then (-1, w)
                    else (int i, w\<lparr>fw_ctx := Some (ctx\<lparr>open_fd := (open_fd ctx)[i := fd]\<rparr>)\<rparr>))))"

text \<open>The descriptor of the file system behind a descriptor, if it is valid.\<close>

definition fd_of :: "int \<Rightarrow> 'f fs_world \<Rightarrow> int option" where
  "fd_of fd w =
     (case fw_ctx w of None \<Rightarrow> None
      | Some ctx \<Rightarrow> if fd < 0 \<or> fd \<ge> int (length (open_fd ctx)) \<or> open_fd ctx ! nat fd = -1 then None
                    else Some (open_fd ctx ! nat fd))"

definition fs_close :: "'f pico \<Rightarrow> int \<Rightarrow> 'f fs_world \<Rightarrow> 'f fs_world" where
  "fs_close h fd w =
     (case fd_of fd w of None \<Rightarrow> w
      | Some p \<Rightarrow> w\<lparr>fw_fs := snd (p_close h p (fw_fs w)),
          fw_ctx := map_option (\<lambda>ctx. ctx\<lparr>open_fd := (open_fd ctx)[nat fd := -1]\<rparr>) (fw_ctx w)\<rparr>)"

definition fs_close_all :: "'f pico \<Rightarrow> 'f fs_world \<Rightarrow> 'f fs_world" where
  "fs_close_all h w =
     (case fw_ctx w of None \<Rightarrow> w
      | Some ctx \<Rightarrow> fold (\<lambda>i w. fs_close h (int i) w) (filter (\<lambda>i. open_fd ctx ! i \<ge> 0) [0 ..< length (open_fd ctx)]) w)"

text \<open>Byte by byte up to one of the stops: at most \<open>n\<close> bytes; an error or the end of the file gives -1.\<close>

fun read_until :: "'f pico \<Rightarrow> int \<Rightarrow> string \<Rightarrow> nat \<Rightarrow> string \<Rightarrow> 'f \<Rightarrow> int \<times> string \<times> 'f" where
  "read_until h p stops 0 buff f = (int (length buff), buff, f)"
| "read_until h p stops (Suc n) buff f =
     (case p_read h p 1 f of (ret, bytes, f) \<Rightarrow>
        if ret \<noteq> 1 then (if ret \<le> 0 then -1 else int (length buff), buff, f)
        else if hd bytes \<in> set stops then (int (length buff), buff, f)
        else read_until h p stops n (buff @ [hd bytes]) f)"

definition fs_read_check :: "'f pico \<Rightarrow> int \<Rightarrow> nat \<Rightarrow> string \<Rightarrow> 'f fs_world \<Rightarrow> int \<times> string \<times> 'f fs_world" where
  "fs_read_check h fd n stops w =
     (case fd_of fd w of None \<Rightarrow> (-1, [], w)
      | Some p \<Rightarrow>
          (if stops \<noteq> [] then (case read_until h p stops n [] (fw_fs w) of (c, b, f) \<Rightarrow> (c, b, w\<lparr>fw_fs := f\<rparr>))
           else (case p_read h p n (fw_fs w) of (ret, b, f) \<Rightarrow> (if ret < 0 then -1 else ret, b, w\<lparr>fw_fs := f\<rparr>))))"

text \<open>
  The buffer as a text: the last byte of a full one is replaced by the end of the text; after an
  error it is not used.
\<close>

definition fs_gets :: "'f pico \<Rightarrow> int \<Rightarrow> nat \<Rightarrow> 'f fs_world \<Rightarrow> int \<times> string \<times> 'f fs_world" where
  "fs_gets h fd n w =
     (case fs_read_check h fd n [CHR 0x0A, CHR 0x0D] w of (ret, b, w) \<Rightarrow>
        (ret, if ret \<le> 0 then [] else takeWhile (\<lambda>c. c \<noteq> CHR 0x00) (if ret < int n then b else take (n - 1) b), w))"

definition fs_read :: "'f pico \<Rightarrow> int \<Rightarrow> nat \<Rightarrow> 'f fs_world \<Rightarrow> int \<times> string \<times> 'f fs_world" where
  "fs_read h fd n w = fs_read_check h fd n [] w"

definition fs_write :: "'f pico \<Rightarrow> int \<Rightarrow> string \<Rightarrow> 'f fs_world \<Rightarrow> int \<times> 'f fs_world" where
  "fs_write h fd buff w =
     (case fd_of fd w of None \<Rightarrow> (-1, w)
      | Some p \<Rightarrow> (case p_write h p buff (fw_fs w) of (ret, f) \<Rightarrow> (ret, w\<lparr>fw_fs := f\<rparr>)))"

text \<open>The regular files with an extension.\<close>

definition has_ext :: "string \<Rightarrow> string \<times> bool \<Rightarrow> bool" where
  "has_ext ext e \<longleftrightarrow> snd e \<and> length ext < length (fst e) \<and>
     \<not> strncmp_ne (drop (length (fst e) - length ext) (fst e)) ext (length ext)"

definition fs_get_files_count :: "'f pico \<Rightarrow> string \<Rightarrow> string option \<Rightarrow> 'f fs_world \<Rightarrow> int" where
  "fs_get_files_count h dir ext w =
     (if fw_ctx w = None then -1
      else (case p_dir h dir (fw_fs w) of None \<Rightarrow> -1
        | Some es \<Rightarrow> int (length (filter (\<lambda>e. case ext of None \<Rightarrow> snd e | Some x \<Rightarrow> has_ext x e) es))))"

section \<open>Copying\<close>

definition no_copy :: fs_file_copy where
  "no_copy = \<lparr>cj_src = no_file, cj_dst = no_file, cj_fd = -1, cj_started = 0, cj_web = -1\<rparr>"

text \<open>The effects of \<open>fs_cp_reset\<close> outside of the job, which is \<open>no_copy\<close> afterwards.\<close>

definition fs_cp_reset :: "'f pico \<Rightarrow> fs_file_copy \<Rightarrow> 'f fs_world \<Rightarrow> 'f fs_world" where
  "fs_cp_reset h copy w =
     (let w = (if cj_fd copy \<ge> 0 then fs_close h (cj_fd copy) w else w)
      in if cj_web copy \<ge> 0 then w\<lparr>fw_closed := fw_closed w @ [cj_web copy]\<rparr> else w)"

text \<open>
  The search for the last separator does not look at the first character: of a name without any the
  first character is lost.
\<close>

definition fs_get_basename :: "string \<Rightarrow> string option" where
  "fs_get_basename path =
     (let i = length path - 1 - length (takeWhile (\<lambda>c. c \<noteq> CHR ''/'') (rev (tl path)))
      in if path = [] then None
         else (let fname = drop (i + 1) path
               in Some (if fname \<noteq> [] \<and> hd fname = CHR ''/'' then tl fname else fname)))"

definition ends_slash :: "string \<Rightarrow> bool" where
  "ends_slash s \<longleftrightarrow> s \<noteq> [] \<and> last s = CHR ''/''"

definition cp_source :: "'f pico \<Rightarrow> (nat \<Rightarrow> bool) \<Rightarrow> string \<Rightarrow> 'f \<Rightarrow> (int \<times> tftp_file \<times> 'f) option" where
  "cp_source h al src f =
     (if hd src = CHR ''/'' then
        (case p_open h src False f of (fd, f) \<Rightarrow>
           if fd < 0 then Some (-1, no_file, f)
           else Some (0, no_file\<lparr>tf_fname := if al 0 then Some src else None\<rparr>, snd (p_close h fd f)))
      else map_option (\<lambda>(r, file). (r, file, f)) (tftp_url_parse al src no_file))"

text \<open>The name of the destination: None when there is none.\<close>

definition cp_target :: "bool \<Rightarrow> string \<Rightarrow> string \<Rightarrow> tftp_file \<Rightarrow> string option" where
  "cp_target alloc dst src_name file =
     (if tf_fname file = None \<or> tf_fname file = Some [] then
        (if ends_slash dst
         then (case fs_get_basename src_name of None \<Rightarrow> None | Some b \<Rightarrow> if alloc then Some (dst @ b) else None)
         else tf_fname file)
      else if ends_slash (the (tf_fname file)) then
        (case fs_get_basename src_name of None \<Rightarrow> None
         | Some b \<Rightarrow> if alloc then Some (the (tf_fname file) @ b) else None)
      else tf_fname file)"

text \<open>A local destination is taken only as a directory, with a separator at its end.\<close>

lemma cp_named_destination: "\<not> ends_slash dst \<Longrightarrow> cp_target alloc dst src no_file = None"
  by (simp add: cp_target_def no_file_def)

definition fs_cp_params_parse ::
  "'f pico \<Rightarrow> (nat \<Rightarrow> bool) \<Rightarrow> string \<Rightarrow> fs_file_copy \<Rightarrow> 'f fs_world \<Rightarrow> (int \<times> fs_file_copy \<times> 'f fs_world) option" where
  "fs_cp_params_parse h al params copy w =
     (let w = fs_cp_reset h copy w; copy = no_copy
      in case strtok_r (CHR ''?'') (Some params) of
           (Some src, Some dst) \<Rightarrow>
             (case cp_source h al src (fw_fs w) of None \<Rightarrow> None
              | Some (ret, sfile, f) \<Rightarrow>
                  (let w = w\<lparr>fw_fs := f\<rparr>; copy = copy\<lparr>cj_src := sfile\<rparr>
                   in if ret \<noteq> 0 then Some (-1, copy, w)
                      else (case tftp_url_parse (\<lambda>k. al (k + 2)) dst no_file of None \<Rightarrow> None
                        | Some (_, dfile) \<Rightarrow>
                            (let copy = copy\<lparr>cj_dst := dfile\<rparr>
                             in if tf_fname sfile = None \<or> tf_peer sfile \<noteq> None \<and> tf_peer dfile \<noteq> None then Some (-1, copy, w)
                                else (case cp_target (al 4) dst (the (tf_fname sfile)) dfile of None \<Rightarrow> Some (-1, copy, w)
                                  | Some t \<Rightarrow> Some (0, copy\<lparr>cj_dst := dfile\<lparr>tf_fname := Some t\<rparr>\<rparr>, w))))))
         | _ \<Rightarrow> Some (-1, copy, w))"

text \<open>The loop of a local copy: the last count read and the last result.  None: it never ends.\<close>

partial_function (option) cp_loop ::
  "'f pico \<Rightarrow> int \<Rightarrow> int \<Rightarrow> int \<Rightarrow> 'f fs_world \<Rightarrow> (bool \<times> int \<times> int \<times> 'f fs_world) option" where
  "cp_loop h sfd dfd ret w =
     (case fs_read h sfd COPY_BUFF w of (c, buff, w) \<Rightarrow>
        if c > 0 then
          (case fs_write h dfd buff w of (ret, w) \<Rightarrow>
             if ret \<noteq> c then Some (False, c, ret, w) else cp_loop h sfd dfd ret w)
        else Some (True, c, ret, w))"

definition fs_cp_local :: "'f pico \<Rightarrow> string \<Rightarrow> string \<Rightarrow> 'f fs_world \<Rightarrow> (int \<times> 'f fs_world) option" where
  "fs_cp_local h src dst w =
     (let finish = (\<lambda>sfd dfd ret w.
            let w = (if sfd \<ge> 0 then fs_close h sfd w else w); w = (if dfd \<ge> 0 then fs_close h dfd w else w)
            in (ret, if ret < 0 then w\<lparr>fw_fs := snd (p_remove h dst (fw_fs w))\<rparr> else w));
          (sfd, w) = fs_open h src False w
      in if sfd < 0 then Some (finish sfd (-1) (-1) w)
         else
           (let (dfd, w) = fs_open h dst True w
            in if dfd < 0 then Some (finish sfd dfd (-1) w)
               else (case cp_loop h sfd dfd (-1) w of None \<Rightarrow> None
                 | Some (ended, c, ret, w) \<Rightarrow> Some (finish sfd dfd (if ended \<and> c = 0 then 0 else ret) w))))"

section \<open>The hooks of the TFTP client\<close>

text \<open>The directories of a path, each created when it does not exist.\<close>

fun mkdirs :: "'f pico \<Rightarrow> string list \<Rightarrow> 'f \<Rightarrow> int \<times> 'f" where
  "mkdirs h [] f = (0, f)"
| "mkdirs h (d # ds) f =
     (case p_mkdir h d f of (ret, f) \<Rightarrow> if ret \<noteq> 0 \<and> ret \<noteq> LFS_ERR_EXIST then (-1, f) else mkdirs h ds f)"

definition tftp_dirs_create :: "'f pico \<Rightarrow> string \<Rightarrow> 'f \<Rightarrow> int \<times> 'f" where
  "tftp_dirs_create h fname f =
     (if fname = [] \<or> hd fname \<noteq> CHR ''/'' then (0, f)
      else mkdirs h (map (\<lambda>i. take i fname) (filter (\<lambda>i. fname ! i = CHR ''/'') [1 ..< min (length fname) FS_MAX_FILE_PATH])) f)"

definition set_copy :: "(fs_file_copy \<Rightarrow> fs_file_copy) \<Rightarrow> 'f fs_world \<Rightarrow> 'f fs_world" where
  "set_copy g w = w\<lparr>fw_ctx := map_option (\<lambda>ctx. ctx\<lparr>copy_job := g (copy_job ctx)\<rparr>) (fw_ctx w)\<rparr>"

definition job_reset :: "'f pico \<Rightarrow> 'f fs_world \<Rightarrow> 'f fs_world" where
  "job_reset h w =
     (case fw_ctx w of None \<Rightarrow> w | Some ctx \<Rightarrow> set_copy (\<lambda>_. no_copy) (fs_cp_reset h (copy_job ctx) w))"

definition fs_tftp_open :: "'f pico \<Rightarrow> string \<Rightarrow> bool \<Rightarrow> 'f fs_world \<Rightarrow> bool \<times> 'f fs_world" where
  "fs_tftp_open h fname is_write w =
     (case fw_ctx w of None \<Rightarrow> (False, w)
      | Some ctx \<Rightarrow>
          (let job = copy_job ctx; get = (tf_peer (cj_src job) \<noteq> None);
               (tftp_name, local) = (if get then (tf_fname (cj_src job), tf_fname (cj_dst job))
                 else (tf_fname (cj_dst job), tf_fname (cj_src job)))
           in if cj_started job = 0 \<or> get \<noteq> is_write \<or> tftp_name \<noteq> Some fname then (False, w)
              else
                (let (ret, f) = (if is_write then tftp_dirs_create h (the local) (fw_fs w) else (0, fw_fs w)); w = w\<lparr>fw_fs := f\<rparr>
                 in if ret \<noteq> 0 then (False, w)
                    else (let (fd, w) = fs_open h (the local) is_write w; w = set_copy (\<lambda>j. j\<lparr>cj_fd := fd\<rparr>) w
                          in (fd \<ge> 0, w)))))"

definition fs_tftp_close :: "'f pico \<Rightarrow> 'f fs_world \<Rightarrow> 'f fs_world" where
  "fs_tftp_close h w = job_reset h w"

definition fs_tftp_error :: "'f pico \<Rightarrow> int \<Rightarrow> 'f fs_world \<Rightarrow> 'f fs_world" where
  "fs_tftp_error h err w = job_reset h w"

text \<open>The name by which reading and writing open the file when it is not open yet.\<close>

definition hook_reopen :: "'f pico \<Rightarrow> bool \<Rightarrow> 'f fs_world \<Rightarrow> (fs_file_copy \<times> 'f fs_world) option" where
  "hook_reopen h is_write w =
     (case fw_ctx w of None \<Rightarrow> None
      | Some ctx \<Rightarrow>
          (let job = copy_job ctx
           in if cj_started job = 0 then None
              else if cj_fd job \<ge> 0 then Some (job, w)
              else
                (case (if tf_peer (cj_dst job) \<noteq> None then tf_fname (cj_dst job) else tf_fname (cj_src job)) of
                   None \<Rightarrow> None
                 | Some fname \<Rightarrow>
                     (case fs_tftp_open h fname is_write w of (ok, w) \<Rightarrow>
                        if ok then map_option (\<lambda>c. (copy_job c, w)) (fw_ctx w) else None))))"

definition fs_tftp_read :: "'f pico \<Rightarrow> nat \<Rightarrow> 'f fs_world \<Rightarrow> int \<times> string \<times> 'f fs_world" where
  "fs_tftp_read h bytes w =
     (case hook_reopen h False w of None \<Rightarrow> (-1, [], w)
      | Some (job, w) \<Rightarrow>
          (case fs_read h (cj_fd job) bytes w of (ret, buf, w) \<Rightarrow> if ret \<le> 0 then (-1, buf, w) else (ret, buf, w)))"

fun write_chain :: "'f pico \<Rightarrow> int \<Rightarrow> string list \<Rightarrow> 'f fs_world \<Rightarrow> int \<times> 'f fs_world" where
  "write_chain h fd [] w = (0, w)"
| "write_chain h fd (p # ps) w =
     (case fs_write h fd p w of (ret, w) \<Rightarrow> if ret \<noteq> int (length p) then (-1, w) else write_chain h fd ps w)"

definition fs_tftp_write :: "'f pico \<Rightarrow> string list \<Rightarrow> 'f fs_world \<Rightarrow> int \<times> 'f fs_world" where
  "fs_tftp_write h p w =
     (case hook_reopen h True w of None \<Rightarrow> (-1, w) | Some (job, w) \<Rightarrow> write_chain h (cj_fd job) p w)"

definition fs_tftp_hooks :: "'f pico \<Rightarrow> 'f fs_world tftp_hooks" where
  "fs_tftp_hooks h = \<lparr>th_open = fs_tftp_open h, th_close = fs_tftp_close h, th_read = fs_tftp_read h,
     th_write = fs_tftp_write h, th_error = fs_tftp_error h\<rparr>"

definition job_src :: "'f fs_world \<Rightarrow> tftp_file" where
  "job_src w = (case fw_ctx w of None \<Rightarrow> no_file | Some ctx \<Rightarrow> cj_src (copy_job ctx))"

definition job_dst :: "'f fs_world \<Rightarrow> tftp_file" where
  "job_dst w = (case fw_ctx w of None \<Rightarrow> no_file | Some ctx \<Rightarrow> cj_dst (copy_job ctx))"

section \<open>Commands\<close>

text \<open>The text after the colon of a command that has one.\<close>

definition cmd_arg :: "string option \<Rightarrow> string option" where
  "cmd_arg params = (case params of Some (c # ps) \<Rightarrow> if c = CHR '':'' \<and> ps \<noteq> [] then Some ps else None | _ \<Rightarrow> None)"

definition cmd_path :: "string \<Rightarrow> string option" where
  "cmd_path ps = fst (strtok_r (CHR '':'') (Some ps))"

definition fs_format :: "'f pico \<Rightarrow> 'f fs_world \<Rightarrow> int \<times> 'f fs_world" where
  "fs_format h w =
     (case p_unmount h (fw_fs w) of (ret, f) \<Rightarrow> (0, w\<lparr>fw_fs := if ret = 0 then snd (p_mount h True f) else f\<rparr>))"

definition fs_rm_path :: "'f pico \<Rightarrow> string option \<Rightarrow> 'f fs_world \<Rightarrow> (int \<times> 'f fs_world) option" where
  "fs_rm_path h params w =
     (case cmd_arg params of None \<Rightarrow> Some (0, w)
      | Some ps \<Rightarrow> (case cmd_path ps of None \<Rightarrow> None | Some path \<Rightarrow> Some (0, w\<lparr>fw_fs := snd (p_remove h path (fw_fs w))\<rparr>)))"

text \<open>The end of the text is written at the size of the file, into a buffer of 512 bytes.\<close>

definition fs_cat_file :: "'f pico \<Rightarrow> string option \<Rightarrow> 'f fs_world \<Rightarrow> (int \<times> string option \<times> 'f fs_world) option" where
  "fs_cat_file h params w =
     (case cmd_arg params of None \<Rightarrow> Some (0, None, w)
      | Some ps \<Rightarrow> (case cmd_path ps of None \<Rightarrow> None
          | Some path \<Rightarrow>
              (case p_open h path False (fw_fs w) of (fd, f) \<Rightarrow>
                 if fd < 0 then Some (0, None, w\<lparr>fw_fs := f\<rparr>)
                 else
                   (let (_, buff, f) = p_read h fd CAT_BUFF_SIZE f; sz = p_size h fd f
                    in if sz < 0 \<or> sz \<ge> int CAT_BUFF_SIZE then None
                       else Some (0, Some (take (nat sz) buff), w\<lparr>fw_fs := snd (p_close h fd f)\<rparr>)))))"

definition fs_mv_file :: "'f pico \<Rightarrow> (nat \<Rightarrow> bool) \<Rightarrow> string option \<Rightarrow> 'f fs_world \<Rightarrow> (int \<times> 'f fs_world) option" where
  "fs_mv_file h al params w =
     (case cmd_arg params of None \<Rightarrow> Some (-1, w)
      | Some ps \<Rightarrow> (case fs_cp_params_parse h al ps no_copy w of None \<Rightarrow> None
          | Some (ret, copy, w) \<Rightarrow>
              if ret \<noteq> 0 \<or> tf_peer (cj_src copy) \<noteq> None \<or> tf_peer (cj_dst copy) \<noteq> None then Some (-1, w)
              else
                (let (r, f) = p_rename h (the (tf_fname (cj_src copy))) (the (tf_fname (cj_dst copy))) (fw_fs w)
                 in Some (if r \<noteq> 0 then -1 else 0, w\<lparr>fw_fs := f\<rparr>))))"

definition fs_close_all_cmd :: "'f pico \<Rightarrow> 'f fs_world \<Rightarrow> int \<times> 'f fs_world" where
  "fs_close_all_cmd h w = (0, fs_close_all h w)"

text \<open>
  Copying: a job over the network keeps the connection of the request open and silent, which is the
  third component of the result; \<open>web\<close> is the index of the client, -1 outside of the web server.
\<close>

definition fs_cp_file ::
  "'f pico \<Rightarrow> (nat \<Rightarrow> bool) \<Rightarrow> u64 \<Rightarrow> int \<Rightarrow> string option \<Rightarrow> 'f fs_world \<times> 'f fs_world tftp_client option
   \<Rightarrow> (int \<times> bool \<times> 'f fs_world \<times> 'f fs_world tftp_client option) option" where
  "fs_cp_file h al now web params st =
     (case st of (w, tc) \<Rightarrow>
       (case fw_ctx w of None \<Rightarrow> Some (-1, False, w, tc)
        | Some ctx \<Rightarrow>
            if cj_started (copy_job ctx) \<noteq> 0 then Some (-1, False, job_reset h w, tc)
            else (case cmd_arg params of None \<Rightarrow> Some (-1, False, job_reset h w, tc)
              | Some ps \<Rightarrow> (case fs_cp_params_parse h al ps (copy_job ctx) w of None \<Rightarrow> None
                | Some (ret, copy, w) \<Rightarrow>
                    (let w = set_copy (\<lambda>_. copy) w
                     in if ret \<noteq> 0 then Some (-1, False, job_reset h w, tc)
                        else
                          (let w = set_copy (\<lambda>j. j\<lparr>cj_started := now\<rparr>) w;
                               remote = (\<lambda>r. case r of (r, tc) \<Rightarrow>
                                 if r \<noteq> 0 then Some (-1, False, job_reset h w, tc)
                                 else Some (0, True, set_copy (\<lambda>j. j\<lparr>cj_web := web\<rparr>) w, tc))
                           in if tf_peer (cj_dst copy) \<noteq> None then remote (tftp_file_put now (fs_tftp_hooks h) job_dst tc)
                              else if tf_peer (cj_src copy) \<noteq> None then remote (tftp_file_get now (fs_tftp_hooks h) job_src tc)
                              else (case fs_cp_local h (the (tf_fname (cj_src copy))) (the (tf_fname (cj_dst copy))) w of None \<Rightarrow> None
                                | Some (r, w) \<Rightarrow> Some (if r \<noteq> 0 then -1 else 0, False, job_reset h w, tc))))))))"

section \<open>Initialisation\<close>

definition sys_fs_init :: "'f pico \<Rightarrow> bool \<Rightarrow> 'f \<Rightarrow> bool \<times> 'f fs_world" where
  "sys_fs_init h alloc f =
     (let fail = (\<lambda>f. (False, \<lparr>fw_ctx = None, fw_fs = f, fw_closed = []\<rparr>))
      in if \<not> alloc then fail f
         else
           (let (ret, f) = p_mount h False f; (ret, f) = (if ret < 0 then p_mount h True f else (ret, f))
            in if ret < 0 then fail f
               else (True, \<lparr>fw_ctx = Some \<lparr>fs_debug = 0, copy_job = no_copy, open_fd = replicate MAX_OPENED_FILES (-1)\<rparr>,
                      fw_fs = f, fw_closed = []\<rparr>)))"

definition sys_fs_debug_set :: "u32 \<Rightarrow> 'f fs_world \<Rightarrow> 'f fs_world" where
  "sys_fs_debug_set lvl w = w\<lparr>fw_ctx := map_option (\<lambda>ctx. ctx\<lparr>fs_debug := lvl\<rparr>) (fw_ctx w)\<rparr>"

section \<open>What the flash file system promises\<close>

text \<open>
  \<open>files\<close> are the stored contents of the regular files and \<open>hnd\<close> the open handles.  A reader has a
  position in the content that was stored when it was opened; a writer has what was written so
  far, None after a write that failed, and stores it when it is closed.  Two texts name the same
  file when they differ in empty parts, dots and the like, so the promises are for plain paths.
\<close>

datatype pico_handle = Reader string nat string | Writer string "string option"

definition fs_plain :: "string \<Rightarrow> bool" where
  "fs_plain p \<longleftrightarrow> (\<exists>ns. ns \<noteq> [] \<and> p = concat (map (\<lambda>n. CHR ''/'' # n) ns) \<and>
     (\<forall>n\<in>set ns. n \<noteq> [] \<and> CHR ''/'' \<notin> set n \<and> n \<noteq> ''.'' \<and> n \<noteq> ''..''))"

text \<open>Nothing but the file at a path may be different.\<close>

definition fs_frame :: "string \<Rightarrow> (string \<Rightarrow> string option) \<Rightarrow> (string \<Rightarrow> string option) \<Rightarrow> bool" where
  "fs_frame path a b \<longleftrightarrow> (\<forall>p. fs_plain p \<longrightarrow> p \<noteq> path \<longrightarrow> b p = a p)"

lemma fs_frame_refl: "fs_frame path a a"
  by (simp add: fs_frame_def)

lemma fs_frame_trans: "fs_frame path a b \<Longrightarrow> fs_frame path b c \<Longrightarrow> fs_frame path a c"
  by (simp add: fs_frame_def)

lemma fs_frameD: "fs_frame path a b \<Longrightarrow> fs_plain p \<Longrightarrow> p \<noteq> path \<Longrightarrow> b p = a p"
  by (simp add: fs_frame_def)

type_synonym 'f files = "'f \<Rightarrow> string \<Rightarrow> string option"
type_synonym 'f handles = "'f \<Rightarrow> int \<Rightarrow> pico_handle option"

definition open_says :: "'f files \<Rightarrow> 'f handles \<Rightarrow> string \<Rightarrow> bool \<Rightarrow> 'f \<Rightarrow> int \<times> 'f \<Rightarrow> bool" where
  "open_says files hnd path wr f r \<longleftrightarrow>
     (case r of (fd, f') \<Rightarrow>
        (if wr then fs_frame path (files f) (files f') else files f' = files f) \<and>
        (if fd < 0 then hnd f' = hnd f
         else hnd f fd = None \<and>
           (if wr then hnd f' = (hnd f)(fd \<mapsto> Writer path (Some []))
            else files f path \<noteq> None \<and> hnd f' = (hnd f)(fd \<mapsto> Reader path 0 (the (files f path))))))"

definition read_says :: "'f files \<Rightarrow> 'f handles \<Rightarrow> int \<Rightarrow> nat \<Rightarrow> 'f \<Rightarrow> int \<times> string \<times> 'f \<Rightarrow> bool" where
  "read_says files hnd fd n f r \<longleftrightarrow>
     (case hnd f fd of
        Some (Reader path pos s) \<Rightarrow>
          (case r of (c, b, f') \<Rightarrow> files f' = files f \<and>
             (if c < 0 then hnd f' = hnd f
              else b = take n (drop pos s) \<and> c = int (length b) \<and> hnd f' = (hnd f)(fd \<mapsto> Reader path (pos + length b) s)))
      | _ \<Rightarrow> True)"

definition write_says :: "'f files \<Rightarrow> 'f handles \<Rightarrow> int \<Rightarrow> string \<Rightarrow> 'f \<Rightarrow> int \<times> 'f \<Rightarrow> bool" where
  "write_says files hnd fd b f r \<longleftrightarrow>
     (case hnd f fd of
        Some (Writer path (Some s)) \<Rightarrow>
          (case r of (c, f') \<Rightarrow> fs_frame path (files f) (files f') \<and>
             (if c < 0 then hnd f' = (hnd f)(fd \<mapsto> Writer path None)
              else c = int (length b) \<and> hnd f' = (hnd f)(fd \<mapsto> Writer path (Some (s @ b)))))
      | _ \<Rightarrow> True)"

definition close_says :: "'f files \<Rightarrow> 'f handles \<Rightarrow> int \<Rightarrow> 'f \<Rightarrow> int \<times> 'f \<Rightarrow> bool" where
  "close_says files hnd fd f r \<longleftrightarrow>
     (case r of (c, f') \<Rightarrow>
        hnd f' = (hnd f)(fd := None) \<and>
        (case hnd f fd of
           Some (Writer path s) \<Rightarrow> fs_frame path (files f) (files f') \<and> (c < 0 \<or> s = None \<or> files f' path = s)
         | _ \<Rightarrow> files f' = files f))"

definition pico_ok :: "'f pico \<Rightarrow> 'f files \<Rightarrow> 'f handles \<Rightarrow> bool" where
  "pico_ok h files hnd \<longleftrightarrow>
     (\<forall>path wr f. fs_plain path \<longrightarrow> open_says files hnd path wr f (p_open h path wr f)) \<and>
     (\<forall>fd n f. read_says files hnd fd n f (p_read h fd n f)) \<and>
     (\<forall>fd b f. write_says files hnd fd b f (p_write h fd b f)) \<and>
     (\<forall>fd f. close_says files hnd fd f (p_close h fd f)) \<and>
     (\<forall>path f. fs_plain path \<longrightarrow> fs_frame path (files f) (files (snd (p_remove h path f))))"

text \<open>Closing never fails; the service does not look at the result.\<close>

definition closes_commit :: "'f pico \<Rightarrow> bool" where
  "closes_commit h \<longleftrightarrow> (\<forall>fd f. 0 \<le> fst (p_close h fd f))"

lemma pico_ok_open:
  assumes "pico_ok h files hnd" and "fs_plain path" and "p_open h path wr f = (fd, f')"
  shows "if wr then fs_frame path (files f) (files f') else files f' = files f"
    and "fd < 0 \<Longrightarrow> hnd f' = hnd f"
    and "\<not> fd < 0 \<Longrightarrow> hnd f fd = None \<and>
      (if wr then hnd f' = (hnd f)(fd \<mapsto> Writer path (Some []))
       else files f path \<noteq> None \<and> hnd f' = (hnd f)(fd \<mapsto> Reader path 0 (the (files f path))))"
proof -
  have "open_says files hnd path wr f (p_open h path wr f)" using assms(1,2) unfolding pico_ok_def by blast
  then show "if wr then fs_frame path (files f) (files f') else files f' = files f" "fd < 0 \<Longrightarrow> hnd f' = hnd f"
    "\<not> fd < 0 \<Longrightarrow> hnd f fd = None \<and>
      (if wr then hnd f' = (hnd f)(fd \<mapsto> Writer path (Some []))
       else files f path \<noteq> None \<and> hnd f' = (hnd f)(fd \<mapsto> Reader path 0 (the (files f path))))"
    unfolding assms(3) open_says_def by (simp_all split: if_splits)
qed

lemma pico_ok_read:
  assumes "pico_ok h files hnd" and "hnd f fd = Some (Reader path pos s)" and "p_read h fd n f = (c, b, f')"
  shows "files f' = files f" and "c < 0 \<Longrightarrow> hnd f' = hnd f"
    and "\<not> c < 0 \<Longrightarrow> b = take n (drop pos s) \<and> c = int (length b) \<and> hnd f' = (hnd f)(fd \<mapsto> Reader path (pos + length b) s)"
proof -
  have "read_says files hnd fd n f (p_read h fd n f)" using assms(1) unfolding pico_ok_def by blast
  then show "files f' = files f" "c < 0 \<Longrightarrow> hnd f' = hnd f"
    "\<not> c < 0 \<Longrightarrow> b = take n (drop pos s) \<and> c = int (length b) \<and> hnd f' = (hnd f)(fd \<mapsto> Reader path (pos + length b) s)"
    unfolding assms(3) read_says_def assms(2) by (simp_all split: if_splits)
qed

lemma pico_ok_write:
  assumes "pico_ok h files hnd" and "hnd f fd = Some (Writer path (Some s))" and "p_write h fd b f = (c, f')"
  shows "fs_frame path (files f) (files f')" and "c < 0 \<Longrightarrow> hnd f' = (hnd f)(fd \<mapsto> Writer path None)"
    and "\<not> c < 0 \<Longrightarrow> c = int (length b) \<and> hnd f' = (hnd f)(fd \<mapsto> Writer path (Some (s @ b)))"
proof -
  have "write_says files hnd fd b f (p_write h fd b f)" using assms(1) unfolding pico_ok_def by blast
  then show "fs_frame path (files f) (files f')" "c < 0 \<Longrightarrow> hnd f' = (hnd f)(fd \<mapsto> Writer path None)"
    "\<not> c < 0 \<Longrightarrow> c = int (length b) \<and> hnd f' = (hnd f)(fd \<mapsto> Writer path (Some (s @ b)))"
    unfolding assms(3) write_says_def assms(2) by (simp_all split: if_splits)
qed

lemma pico_ok_close:
  assumes "pico_ok h files hnd" and "p_close h fd f = (c, f')"
  shows "hnd f' = (hnd f)(fd := None)"
    and "hnd f fd = Some (Reader path pos s) \<Longrightarrow> files f' = files f"
    and "hnd f fd = Some (Writer path t) \<Longrightarrow> fs_frame path (files f) (files f') \<and> (c < 0 \<or> t = None \<or> files f' path = t)"
proof -
  have "close_says files hnd fd f (p_close h fd f)" using assms(1) unfolding pico_ok_def by blast
  then show "hnd f' = (hnd f)(fd := None)" "hnd f fd = Some (Reader path pos s) \<Longrightarrow> files f' = files f"
    "hnd f fd = Some (Writer path t) \<Longrightarrow> fs_frame path (files f) (files f') \<and> (c < 0 \<or> t = None \<or> files f' path = t)"
    unfolding assms(2) close_says_def by simp_all
qed

lemma pico_ok_remove:
  assumes "pico_ok h files hnd" and "fs_plain path"
  shows "fs_frame path (files f) (files (snd (p_remove h path f)))"
  using assms unfolding pico_ok_def by blast

section \<open>Descriptors are taken and given back\<close>

text \<open>A free entry of the table is -1.\<close>

definition fds_ok :: "int list \<Rightarrow> bool" where
  "fds_ok fds \<longleftrightarrow> list_all (\<lambda>fd. fd \<ge> -1) fds"

lemma fs_open_cases:
  assumes "fs_open h path wr w = (i, w')"
  shows "i < 0 \<and> i = -1 \<and> fw_ctx w' = fw_ctx w \<and>
      (fw_fs w' = fw_fs w \<or> (\<exists>fd. p_open h path wr (fw_fs w) = (fd, fw_fs w') \<and> fd < 0)) \<or>
    (\<exists>ctx fd. fw_ctx w = Some ctx \<and> p_open h path wr (fw_fs w) = (fd, fw_fs w') \<and> \<not> fd < 0 \<and> \<not> i < 0 \<and>
      nat i < length (open_fd ctx) \<and> open_fd ctx ! nat i < 0 \<and>
      fw_ctx w' = Some (ctx\<lparr>open_fd := (open_fd ctx)[nat i := fd]\<rparr>))"
proof (cases "fw_ctx w")
  case (Some ctx)
  define k where "k = length (takeWhile (\<lambda>fd. \<not> fd < 0) (open_fd ctx))"
  have k: "k < length (open_fd ctx) \<Longrightarrow> open_fd ctx ! k < 0"
    using nth_length_takeWhile [of "\<lambda>fd. \<not> fd < 0" "open_fd ctx"] by (simp add: k_def)
  obtain fd f where po: "p_open h path wr (fw_fs w) = (fd, f)" by fastforce
  show ?thesis
    using assms k Some po unfolding fs_open_def
    by (auto simp: Let_def k_def [symmetric] split: if_splits)
qed (use assms in \<open>simp add: fs_open_def\<close>)

lemma fd_of_ctx: "fw_ctx w' = fw_ctx w \<Longrightarrow> fd_of fd w' = fd_of fd w"
  by (simp add: fd_of_def)

lemma fs_close_ctx:
  assumes "fw_ctx w = Some ctx" and "fd_of fd w \<noteq> None"
  shows "fw_ctx (fs_close h fd w) = Some (ctx\<lparr>open_fd := (open_fd ctx)[nat fd := -1]\<rparr>)"
  using assms by (auto simp: fs_close_def)

lemma fs_open_fails:
  assumes "pico_ok h files hnd" and "fs_plain path" and "fs_open h path wr w = (i, w')" and "i < 0"
  shows "i = -1 \<and> fw_ctx w' = fw_ctx w \<and> hnd (fw_fs w') = hnd (fw_fs w) \<and>
    (if wr then fs_frame path (files (fw_fs w)) (files (fw_fs w')) else files (fw_fs w') = files (fw_fs w))"
proof -
  have "i = -1 \<and> fw_ctx w' = fw_ctx w"
    "fw_fs w' = fw_fs w \<or> (\<exists>fd. p_open h path wr (fw_fs w) = (fd, fw_fs w') \<and> fd < 0)"
    using fs_open_cases [OF assms(3)] assms(4) by auto
  then show ?thesis using pico_ok_open(1,2) [OF assms(1,2)] fs_frame_refl by (metis (full_types))
qed

lemma fs_close_world:
  assumes "fd_of fd w = Some p"
  shows "fw_fs (fs_close h fd w) = snd (p_close h p (fw_fs w))"
  using assms by (simp add: fs_close_def)

text \<open>The loop of a copy ends; it ends well only when the whole content has been written.\<close>

lemma cp_loop_copies:
  assumes ok: "pico_ok h files hnd" and "sp \<noteq> dp"
    and "fd_of sfd w = Some sp" and "fd_of dfd w = Some dp" and "hnd (fw_fs w) sp = Some (Reader src pos s)"
    and "hnd (fw_fs w) dp = Some (Writer dst (Some (take pos s)))" and "pos \<le> length s" and "ret \<noteq> 0"
  shows "\<exists>ended c ret' w' pos' t. cp_loop h sfd dfd ret w = Some (ended, c, ret', w') \<and> fw_ctx w' = fw_ctx w \<and>
    fs_frame dst (files (fw_fs w)) (files (fw_fs w')) \<and> hnd (fw_fs w') sp = Some (Reader src pos' s) \<and>
    hnd (fw_fs w') dp = Some (Writer dst t) \<and> (ended \<and> c = 0 \<longrightarrow> t = Some s) \<and> ret' \<noteq> 0"
  using assms(3-)
proof (induction "length s - pos" arbitrary: pos ret w rule: less_induct)
  case less
  obtain c b f where rd: "p_read h sp COPY_BUFF (fw_fs w) = (c, b, f)" by (cases "p_read h sp COPY_BUFF (fw_fs w)") auto
  note R = pico_ok_read [OF ok less.prems(3) rd]
  have fr: "fs_read h sfd COPY_BUFF w = (if c < 0 then -1 else c, b, w\<lparr>fw_fs := f\<rparr>)"
    using less.prems(1) rd by (simp add: fs_read_def fs_read_check_def)
  show ?case
  proof (cases "c > 0")
    case False
    have st: "cp_loop h sfd dfd ret w = Some (True, if c < 0 then -1 else c, ret, w\<lparr>fw_fs := f\<rparr>)"
      using False fr by (subst cp_loop.simps) simp
    have "take pos s = s" if "c = 0" using R(3) that less.prems(5) by (auto simp: COPY_BUFF_def)
    moreover have h: "hnd f = hnd (fw_fs w) \<or> (\<exists>q. hnd f = (hnd (fw_fs w))(sp \<mapsto> Reader src q s))"
      using R(2,3) by blast
    moreover have "\<exists>pos'. hnd f sp = Some (Reader src pos' s)"
      using h less.prems(3) by (elim disjE exE) simp_all
    moreover have "hnd f dp = Some (Writer dst (Some (take pos s)))"
      using h less.prems(4) assms(2) by (elim disjE exE) simp_all
    ultimately show ?thesis using st R(1) less.prems(6) by (auto simp: fs_frame_refl)
  next
    case True
    then have B: "b = take COPY_BUFF (drop pos s)" "c = int (length b)" "hnd f = (hnd (fw_fs w))(sp \<mapsto> Reader src (pos + length b) s)"
      using R(3) by simp_all
    obtain r f2 where wr: "p_write h dp b f = (r, f2)" by fastforce
    have d: "hnd f dp = Some (Writer dst (Some (take pos s)))" using B(3) assms(2) less.prems(4) by simp
    note W = pico_ok_write [OF ok d wr]
    have fw: "fs_write h dfd b (w\<lparr>fw_fs := f\<rparr>) = (r, w\<lparr>fw_fs := f2\<rparr>)"
      using less.prems(2) wr by (simp add: fs_write_def fd_of_ctx [of "w\<lparr>fw_fs := f\<rparr>" w])
    have g: "fs_frame dst (files (fw_fs w)) (files f2)" using W(1) R(1) by simp
    show ?thesis
    proof (cases "r < 0")
      case True
      then have "cp_loop h sfd dfd ret w = Some (False, c, r, w\<lparr>fw_fs := f2\<rparr>)"
        using \<open>c > 0\<close> fr fw by (subst cp_loop.simps) simp
      then show ?thesis using True W(2) g B(3) assms(2) by auto
    next
      case False
      note W' = W(3) [OF False]
      have tk: "take pos s @ b = take (pos + length b) s" using B(1) by (simp add: take_add min_def)
      have len: "pos + length b \<le> length s" "0 < length b" using B(1,2) True less.prems(5) by auto
      let ?w = "w\<lparr>fw_fs := f2\<rparr>"
      have "\<exists>ended c ret' w' pos' t. cp_loop h sfd dfd r ?w = Some (ended, c, ret', w') \<and> fw_ctx w' = fw_ctx ?w \<and>
          fs_frame dst (files (fw_fs ?w)) (files (fw_fs w')) \<and> hnd (fw_fs w') sp = Some (Reader src pos' s) \<and>
          hnd (fw_fs w') dp = Some (Writer dst t) \<and> (ended \<and> c = 0 \<longrightarrow> t = Some s) \<and> ret' \<noteq> 0"
      proof (rule less.hyps)
        show "length s - (pos + length b) < length s - pos" using len by linarith
        show "fd_of sfd ?w = Some sp" "fd_of dfd ?w = Some dp" using less.prems(1,2) by (simp_all add: fd_of_def)
        show "hnd (fw_fs ?w) sp = Some (Reader src (pos + length b) s)"
          "hnd (fw_fs ?w) dp = Some (Writer dst (Some (take (pos + length b) s)))"
          using W' B(3) assms(2) tk by simp_all
        show "pos + length b \<le> length s" "r \<noteq> 0" using len W' by simp_all
      qed
      moreover have "cp_loop h sfd dfd ret w = cp_loop h sfd dfd r ?w"
        using \<open>c > 0\<close> fr fw W' B(2) by (subst cp_loop.simps) simp
      ultimately show ?thesis using fs_frame_trans [OF g] by auto
    qed
  qed
qed

text \<open>
  C35.  A copy of a local file returns; when it reports success, and closing commits what was written, the
  destination has the content of the source.  No other file is changed, whatever fails, and the
  descriptors of the service are given back.
\<close>

lemma fs_cp_copies:
  assumes ok: "pico_ok h files hnd" and "fs_plain src" and "fs_plain dst" and "src \<noteq> dst"
    and "fw_ctx w = Some ctx" and "fds_ok (open_fd ctx)"
  shows "\<exists>ret w'. fs_cp_local h src dst w = Some (ret, w') \<and> fw_ctx w' = fw_ctx w \<and>
    fs_frame dst (files (fw_fs w)) (files (fw_fs w')) \<and>
    (ret = 0 \<and> closes_commit h \<longrightarrow> files (fw_fs w) src \<noteq> None \<and> files (fw_fs w') dst = files (fw_fs w) src)"
proof -
  obtain sfd w1 where o1: "fs_open h src False w = (sfd, w1)" by fastforce
  note c1 = fs_open_cases [OF o1]
  have neg: "open_fd ctx ! i = -1" if "i < length (open_fd ctx)" "open_fd ctx ! i < 0" for i
    using assms(6) that by (auto simp: fds_ok_def list_all_length dest!: spec [of _ i])
  have id1: "open_fd ctx = (open_fd ctx)[i := -1]" if "i < length (open_fd ctx)" "open_fd ctx ! i < 0" for i
    using neg [OF that] by (metis list_update_id)
  note rm = pico_ok_remove [OF ok assms(3)]
  show ?thesis
  proof (cases "sfd < 0")
    case True
    then have "sfd = -1" "fw_ctx w1 = fw_ctx w" "files (fw_fs w1) = files (fw_fs w)"
      using fs_open_fails [OF ok assms(2) o1] by simp_all
    then show ?thesis using True o1 rm [of "fw_fs w1"] by (simp add: fs_cp_local_def Let_def)
  next
    case False
    then obtain sp where s: "p_open h src False (fw_fs w) = (sp, fw_fs w1)" "\<not> sp < 0" "nat sfd < length (open_fd ctx)"
      "open_fd ctx ! nat sfd < 0" "fw_ctx w1 = Some (ctx\<lparr>open_fd := (open_fd ctx)[nat sfd := sp]\<rparr>)"
      using c1 assms(5) by auto
    note S = pico_ok_open(1) [OF ok assms(2) s(1), simplified] pico_ok_open(3) [OF ok assms(2) s(1,2), simplified]
    obtain dfd w2 where o2: "fs_open h dst True w1 = (dfd, w2)" by fastforce
    have fs1: "fd_of sfd w1 = Some sp" using s False by (simp add: fd_of_def)
    obtain str where str: "files (fw_fs w) src = Some str" using S by auto
    have hs: "hnd (fw_fs w1) sp = Some (Reader src 0 str)" using S str by simp
    show ?thesis
    proof (cases "dfd < 0")
      case True
      then have d: "dfd = -1" "fw_ctx w2 = fw_ctx w1" "hnd (fw_fs w2) = hnd (fw_fs w1)"
        "fs_frame dst (files (fw_fs w1)) (files (fw_fs w2))"
        using fs_open_fails [OF ok assms(3) o2] by simp_all
      have ctx: "fw_ctx (fs_close h sfd w2) = fw_ctx w"
        using fs_close_ctx [of w2 _ sfd h] s(3-5) d(2) fs1 assms(5) id1 by (simp add: fd_of_ctx [OF d(2)])
      obtain c f where cl: "p_close h sp (fw_fs w2) = (c, f)" by fastforce
      have "files f = files (fw_fs w2)" using pico_ok_close(2) [OF ok cl] d(3) hs by simp
      moreover have "fw_fs (fs_close h sfd w2) = f"
        using fs_close_world [of sfd w2 sp h] fs1 fd_of_ctx [OF d(2)] cl by simp
      ultimately have "fs_frame dst (files (fw_fs w)) (files (snd (p_remove h dst (fw_fs (fs_close h sfd w2)))))"
        using d(4) rm [of f] S(1) fs_frame_trans by metis
      then show ?thesis
        using False True o1 o2 ctx d(1) by (simp add: fs_cp_local_def Let_def)
    next
      case dpos: False
      then obtain dp where d: "p_open h dst True (fw_fs w1) = (dp, fw_fs w2)" "\<not> dp < 0" "nat dfd < length (open_fd ctx)"
        "(open_fd ctx)[nat sfd := sp] ! nat dfd < 0"
        "fw_ctx w2 = Some (ctx\<lparr>open_fd := (open_fd ctx)[nat sfd := sp, nat dfd := dp]\<rparr>)"
        using fs_open_cases [OF o2] s(5) by auto
      note D = pico_ok_open(1) [OF ok assms(3) d(1), simplified] pico_ok_open(3) [OF ok assms(3) d(1,2), simplified]
      have ne: "nat dfd \<noteq> nat sfd" "open_fd ctx ! nat dfd < 0" using d(3,4) s(2,3) by (auto simp: nth_list_update split: if_splits)
      then have f2: "fd_of sfd w2 = Some sp" "fd_of dfd w2 = Some dp"
        using s d False dpos by (simp_all add: fd_of_def)
      have ds: "sp \<noteq> dp" using hs D by auto
      have h2: "hnd (fw_fs w2) sp = Some (Reader src 0 str)" "hnd (fw_fs w2) dp = Some (Writer dst (Some (take 0 str)))"
        using D hs ds by simp_all
      obtain ended c ret' w3 pos' t where l: "cp_loop h sfd dfd (-1) w2 = Some (ended, c, ret', w3)" "fw_ctx w3 = fw_ctx w2"
        "fs_frame dst (files (fw_fs w2)) (files (fw_fs w3))" "hnd (fw_fs w3) sp = Some (Reader src pos' str)"
        "hnd (fw_fs w3) dp = Some (Writer dst t)" "ended \<and> c = 0 \<longrightarrow> t = Some str" "ret' \<noteq> 0"
        using cp_loop_copies [OF ok ds f2 h2, of "-1"] that by (simp del: take_0) blast
      have f3: "fd_of sfd w3 = Some sp" using f2 fd_of_ctx [OF l(2)] by simp
      have c3: "fw_ctx (fs_close h sfd w3) = Some (ctx\<lparr>open_fd := (open_fd ctx)[nat sfd := -1, nat dfd := dp]\<rparr>)"
        using fs_close_ctx [of w3 _ sfd h] l(2) d(5) f3 ne(1) by (simp add: list_update_swap [of "nat dfd" "nat sfd"])
      have f4: "fd_of dfd (fs_close h sfd w3) = Some dp" using c3 d(2,3) dpos by (simp add: fd_of_def)
      define w4 where "w4 = fs_close h dfd (fs_close h sfd w3)"
      have ctx4: "fw_ctx w4 = fw_ctx w"
        using fs_close_ctx [OF c3, of dfd h] f4 id1 [OF s(3,4)] id1 [OF d(3) ne(2)] assms(5) by (simp add: w4_def)
      obtain c1 g1 where g1: "p_close h sp (fw_fs w3) = (c1, g1)" by fastforce
      obtain c2 g2 where g2: "p_close h dp g1 = (c2, g2)" by fastforce
      have w: "fw_fs (fs_close h sfd w3) = g1" "fw_fs w4 = g2"
        using fs_close_world [OF f3, of h] fs_close_world [OF f4, of h] g1 g2 by (simp_all add: w4_def)
      have k1: "files g1 = files (fw_fs w3)" "hnd g1 dp = Some (Writer dst t)"
        using pico_ok_close(1,2) [OF ok g1] l(4,5) ds by simp_all
      have k2: "fs_frame dst (files g1) (files g2)" "c2 < 0 \<or> t = None \<or> files g2 dst = t"
        using pico_ok_close(3) [OF ok g2 k1(2)] by simp_all
      have fr: "fs_frame dst (files (fw_fs w)) (files g2)"
        using D(1) l(3) k1(1) k2(1) S(1) fs_frame_trans by metis
      have cm: "files g2 dst = Some str" if "ended \<and> c = 0" "closes_commit h"
        using k2(2) l(6) that g2 by (auto simp: closes_commit_def dest!: spec [of _ dp] spec [of _ g1])
      have "fs_cp_local h src dst w = Some (let r = (if ended \<and> c = 0 then 0 else ret') in
          (r, if r < 0 then w4\<lparr>fw_fs := snd (p_remove h dst g2)\<rparr> else w4))"
        using False dpos o1 o2 l(1) w by (simp add: fs_cp_local_def Let_def w4_def [symmetric])
      then show ?thesis
        using ctx4 fr cm l(7) str fs_frame_trans [OF fr rm [of g2]] w by (auto simp: Let_def)
    qed
  qed
qed
section \<open>Witnesses\<close>

text \<open>A file system in memory that keeps the promises; the number of the next handle is counted.\<close>

type_synonym mem_fs = "(string \<Rightarrow> string option) \<times> (int \<Rightarrow> pico_handle option) \<times> nat"

fun mem_open :: "string \<Rightarrow> bool \<Rightarrow> mem_fs \<Rightarrow> int \<times> mem_fs" where
  "mem_open path wr (fs, hn, n) =
     (if hn (int n) \<noteq> None \<or> \<not> wr \<and> fs path = None then (-1, fs, hn, n)
      else (int n, fs, hn(int n \<mapsto> if wr then Writer path (Some []) else Reader path 0 (the (fs path))), n + 1))"

fun mem_read :: "int \<Rightarrow> nat \<Rightarrow> mem_fs \<Rightarrow> int \<times> string \<times> mem_fs" where
  "mem_read fd k (fs, hn, n) =
     (case hn fd of
        Some (Reader p pos s) \<Rightarrow>
          (let b = take k (drop pos s) in (int (length b), b, fs, hn(fd \<mapsto> Reader p (pos + length b) s), n))
      | _ \<Rightarrow> (-1, [], fs, hn, n))"

fun mem_write :: "int \<Rightarrow> string \<Rightarrow> mem_fs \<Rightarrow> int \<times> mem_fs" where
  "mem_write fd b (fs, hn, n) =
     (case hn fd of
        Some (Writer p (Some s)) \<Rightarrow> (int (length b), fs, hn(fd \<mapsto> Writer p (Some (s @ b))), n)
      | _ \<Rightarrow> (-1, fs, hn, n))"

fun mem_close :: "int \<Rightarrow> mem_fs \<Rightarrow> int \<times> mem_fs" where
  "mem_close fd (fs, hn, n) =
     (0, (case hn fd of Some (Writer p s) \<Rightarrow> fs(p := s) | _ \<Rightarrow> fs), hn(fd := None), n)"

fun mem_remove :: "string \<Rightarrow> mem_fs \<Rightarrow> int \<times> mem_fs" where
  "mem_remove path (fs, hn, n) = (0, fs(path := None), hn, n)"

definition mem_pico :: "mem_fs pico" where
  "mem_pico = \<lparr>p_open = mem_open, p_close = mem_close, p_read = mem_read, p_write = mem_write, p_size = (\<lambda>_ _. 0),
     p_remove = mem_remove, p_rename = (\<lambda>_ _ f. (0, f)), p_mkdir = (\<lambda>_ f. (0, f)), p_dir = (\<lambda>_ _. None),
     p_mount = (\<lambda>_ f. (0, f)), p_unmount = (\<lambda>f. (0, f))\<rparr>"

lemma mem_pico_ok: "pico_ok mem_pico fst (\<lambda>f. fst (snd f))"
proof -
  have "open_says fst (\<lambda>f. fst (snd f)) path wr f (mem_open path wr f)" for path wr f
    by (cases f) (auto simp: open_says_def fs_frame_def)
  moreover have "read_says fst (\<lambda>f. fst (snd f)) fd n f (mem_read fd n f)" for fd n f
    by (cases f) (auto simp: read_says_def Let_def split: option.split pico_handle.split)
  moreover have "write_says fst (\<lambda>f. fst (snd f)) fd b f (mem_write fd b f)" for fd b f
    by (cases f) (auto simp: write_says_def fs_frame_def split: option.split pico_handle.split)
  moreover have "close_says fst (\<lambda>f. fst (snd f)) fd f (mem_close fd f)" for fd f
    by (cases f) (auto simp: close_says_def fs_frame_def split: option.split pico_handle.split)
  moreover have "fs_frame path (fst f) (fst (snd (mem_remove path f)))" for path and f :: mem_fs
    by (cases f) (auto simp: fs_frame_def)
  ultimately show ?thesis by (simp add: pico_ok_def mem_pico_def)
qed

definition demo_fs :: "string \<Rightarrow> mem_fs fs_world" where
  "demo_fs s = \<lparr>fw_ctx = Some \<lparr>fs_debug = 0, copy_job = no_copy, open_fd = replicate MAX_OPENED_FILES (-1)\<rparr>,
     fw_fs = ((\<lambda>p. if p = ''/a'' then Some s else None), (\<lambda>_. None), 0), fw_closed = []\<rparr>"

lemma demo_plain: "fs_plain ''/a''" "fs_plain ''/b''"
  unfolding fs_plain_def by (rule exI [of _ "[''a'']"], simp) (rule exI [of _ "[''b'']"], simp)

lemma fs_cp_copies_witness:
  "\<exists>w'. fs_cp_local mem_pico ''/a'' ''/b'' (demo_fs ''hello'') = Some (0, w') \<and>
     fst (fw_fs w') ''/b'' = Some ''hello''"
proof -
  let ?w = "demo_fs ''hello''"
  have r: "map_option fst (fs_cp_local mem_pico ''/a'' ''/b'' ?w) = Some 0"
    by (simp add: fs_cp_local_def fs_open_def demo_fs_def mem_pico_def MAX_OPENED_FILES_def eval_nat_numeral cp_loop.simps
        fs_read_def fs_read_check_def fs_write_def fd_of_def COPY_BUFF_def fs_close_def Let_def)
  have c: "fw_ctx ?w = Some \<lparr>fs_debug = 0, copy_job = no_copy, open_fd = replicate MAX_OPENED_FILES (-1)\<rparr>"
    by (simp add: demo_fs_def)
  have "closes_commit mem_pico" by (auto simp: closes_commit_def mem_pico_def)
  moreover have "fst (fw_fs ?w) ''/a'' = Some ''hello''" by (simp add: demo_fs_def)
  moreover have "fds_ok (open_fd \<lparr>fs_debug = 0, copy_job = no_copy, open_fd = replicate MAX_OPENED_FILES (-1)\<rparr>)"
    by (simp add: fds_ok_def list_all_iff)
  ultimately show ?thesis using fs_cp_copies [OF mem_pico_ok demo_plain _ c] r by auto
qed

end
