(* ===== verification/Spec2Isabelle.thy ===== *)
theory Spec2Isabelle
  imports Codec SysUtils SysTime Commands Mqtt MqttClient SysState SysModules CfgStore Ssr RSensor Thermostat SysLog Network Solar JkModule OtModule Temperature Soil Apress Sonar Flow Fs
begin

text \<open>
  herak-raspberry is a framework for home automation firmware on the Raspberry Pi Pico W: a main
  loop (\<open>src/libs/common/src\<close>) over modules, of which services (\<open>src/libs/common/services\<close>:
  MQTT, commands, log, WiFi, NTP, configuration store, ...) and devices
  (\<open>src/libs/common/devices\<close>: relays, thermostat, sensors, boilers, batteries, ...) are the
  instances, and applications built from them (\<open>src/app\<close>).

  How the parts interact.  \<open>systems_register_and_init\<close> registers the modules; \<open>sys_modules_init\<close>
  gives each its common commands (help, status, debug) and registers them with the commands
  engine; \<open>sys_modules_run\<close> calls the \<open>run\<close> callback of each in turn.  Commands arrive as text
  over MQTT or HTTP and go through \<open>cmd_exec\<close>.  Modules report their state over MQTT with
  \<open>mqtt_msg_component_publish\<close>, which sends a value only after the discovery message of its
  component has been sent and within the configured rate.  The thermostat reads sensors and
  switches relays through the API of the relay module; the solar application, the soil sensors and
  the JK batteries notify over the webhook service; the file system copies over the TFTP client.

  Which theory models which code.  Each definition carries the name of its C function where
  Isabelle allows it; the manifest maps every definition to its lines.
  \<^item> \<open>Prelude\<close>: the C library and C integers the code uses (\<open>strtok_r\<close>, \<open>strtol\<close>, \<open>atoi\<close>, bounded
    printing, 32 bit wrap-around) and the shared collections of simplification rules.
  \<^item> \<open>Float32\<close>, \<open>Float64\<close>: binary floating point as rationals with rounding, \<open>strtof\<close>, \<open>strtod\<close>,
    \<open>sys_strtof\<close> (sys_utils.c).
  \<^item> \<open>Codec\<close>: base64.c, manchester_code.c.  \<open>SysUtils\<close>: sys_utils.c.  \<open>SysTime\<close>: time.c.
  \<^item> \<open>Commands\<close>: services/commands.  The table of modules and commands, registration, dispatch.
  \<^item> \<open>Mqtt\<close>: mqtt_publish.c and mqtt_listen.c.  \<open>MqttClient\<close>: mqtt_client.c as a machine of
    operations (main loop turns, publishing, registration, lwIP callbacks).
  \<^item> \<open>SysState\<close>: services/sys_state.  \<open>SysModules\<close>: system_modules.c, system.c, sys_irq.c.
  \<^item> \<open>CfgStore\<close>: services/cfg_store.  \<open>SysLog\<close>: services/log.  \<open>Network\<close>: services wifi, ntp, wol.
  \<^item> \<open>Webhook\<close>: services/webhook.  \<open>Tftp\<close>: services/tftp_client.  \<open>Fs\<close>: services/fs (fs.c, fs_tftp.c).
  \<^item> \<open>Ssr\<close>, \<open>Thermostat\<close>, \<open>RSensor\<close>: the devices of the same names.
  \<^item> \<open>AdcSensor\<close> (devices/common), \<open>Temperature\<close>, \<open>Soil\<close>, \<open>Apress\<close> (devices/pressure), \<open>Sonar\<close>,
    \<open>Flow\<close> (devices/flow_yf): the sensors.
  \<^item> \<open>Voltronic\<close>, \<open>VoltronicUsb\<close> (the inverter: frames, replies, queries over USB), \<open>DalyBms\<close> (the
    battery) and \<open>Solar\<close> (report, notification, main loop): app/solar.
  \<^item> \<open>JkBms\<close>, \<open>JkBattery\<close>, \<open>JkMqtt\<close>, \<open>JkModule\<close>: devices/bms_jk (frames and automation in the first,
    reports, configuration and main loop in the third, the lemmas in the other two).
  \<^item> \<open>OtLine\<close> (opentherm_pio.c), \<open>OtData\<close> and \<open>OtDev\<close> (opentherm_dev.c), \<open>OtModule\<close> (commands, MQTT,
    configuration): devices/opentherm; \<open>OtExchange\<close>, \<open>OtFind\<close>, \<open>OtRun\<close> hold lemmas about them.
  \<^item> This theory: the composition of the commands engine, the modules and MQTT.

  Conventions.  A C struct is a record, a table of fixed size a list with its bound in an
  invariant, a pointer that can be NULL an option.  The state that is static or behind a context
  pointer is passed and returned.  None, or \<open>Inl True\<close> where a function can also refuse with
  \<open>Inl False\<close>, is an access through NULL or outside an array, or a call that never returns, as
  the text before the definition says.  Integers keep their width where they can wrap (\<open>u8\<close> to
  \<open>u64\<close>); \<open>int\<close> is a C int that the code keeps small, \<open>s32\<close> its wrap-around.  Readings of the
  clock, results of the allocator (\<open>al\<close>) and answers of the SDK, lwIP, lwjson, BTstack and littlefs,
  whose sources are not in the repository, are arguments; what is sent to them is recorded in the
  state.  What a lemma relies on in them is a named hypothesis (\<open>hal_ok\<close>, \<open>pico_ok\<close>, \<open>sonar_pulse\<close>,
  \<open>all_accepted\<close>, ...), with a concrete instance in its witness.  Log messages are left out, except
  in \<open>SysLog\<close>: a log that would read through NULL is only named in the text before its function.

  Concurrency.  The firmware is built with lwIP in the background (threadsafe_background): its
  callbacks interrupt the main loop between any two instructions outside the critical sections of
  the code.  Here a callback is an operation of its own that runs between two others.  The counters
  of the flow sensors are the exception, because one atomic exchange is all the main loop does with
  them.  The locks of the services are part of the state, and taking a lock that is held is None; but
  since an operation is not interrupted, the lemmas do not show that a service is free of deadlocks.
  For the webhook it is not (\<open>webhook_old_attempt_hangs\<close>, \<open>webhook_unchecked_send_hangs\<close>).

  What the lemmas show.  Each theory has its definitions in the order of the code, then the lemmas
  about its operations and an invariant that every operation keeps, then the properties with
  their witnesses on concrete inputs.  The locales state the interfaces: \<open>machine\<close> (operations that
  keep an invariant, in \<open>Prelude\<close>), interpreted for the inverter and the JK module;
  \<open>relay_service\<close> (what the thermostat uses of the relays) on the relay module; \<open>text_codec\<close> and
  \<open>block_codec\<close> on base64.

  Bounds and fuel.  Loops of the code that go over data are structural recursions or folds.  A
  loop that may run for ever is a partial function into option; the properties that say that it
  returns state that it is Some.

  Not modelled: the texts of status messages and everything that only prints; the web server, over
  the air updates, scripts, system commands and the SHT20 sensor, which were not reached; the services
  for Bluetooth and USB, whose work is done by BTstack and TinyUSB, and the wrappers of the one-wire
  and display drivers, because these libraries are not in the tree; the cron expressions and other
  third party code kept in it.
\<close>

section \<open>A command over MQTT\<close>

text \<open>
  The components together: the hooks of a topic are the callbacks of the modules.  The loop of
  \<open>mqtt_incoming_ready\<close> runs the hooks of a delivered message in turn; None is a hook that does
  not return.
\<close>

fun mqtt_run_hooks ::
  "((string \<Rightarrow> 'w \<Rightarrow> 'w option) \<times> string \<times> string \<times> 'j option) list \<Rightarrow> 'w \<Rightarrow> 'w option" where
  "mqtt_run_hooks [] w = Some w"
| "mqtt_run_hooks ((f, t, m, j) # ds) w = (case f m w of None \<Rightarrow> None | Some w' \<Rightarrow> mqtt_run_hooks ds w')"

lemma takeWhile_no_nul: "CHR 0x00 \<notin> set s \<Longrightarrow> takeWhile (\<lambda>c. c \<noteq> CHR 0x00) s = s"
  by (induction s) auto


section \<open>The status of the MQTT service\<close>

text \<open>The callback \<open>sys_mqtt_log_status\<close> as the \<open>log\<close> of a module: its static index in the world.\<close>

definition mqtt_log :: "bool \<Rightarrow> nat \<Rightarrow> nat \<Rightarrow> nat bus \<Rightarrow> bool \<times> nat bus" where
  "mqtt_log conn cmp_count mc b =
     (let (done, _, i) = sys_mqtt_log_status conn cmp_count (world b) in (done, b\<lparr>world := i\<rparr>))"

lemma mqtt_log_progress:
  "\<not> fst (mqtt_log c n mc b) \<Longrightarrow> n - world (snd (mqtt_log c n mc b)) < n - world b"
  by (auto simp: mqtt_log_def sys_mqtt_log_status_def LOG_STEP_def split: if_splits)

text \<open>
  The status command ends: for any number of components and wherever the static index of an
  earlier report was left, \<open>mqtt?status\<close> repeats the report only finitely often and returns 0;
  with a connection the index is back at 0, so that the next report is complete.
\<close>

lemma mqtt_status_ends:
  assumes "names_ok ms" "\<forall>i j k. al i j k"
    and "sys_modules_init al cfg ms (Some sys_cmd_init, ss, b) = (cmds, ss', b')" and "i < length ms"
    and "m_log (ms ! i) = Some (mqtt_log conn n)"
  shows "\<exists>w'. cmd_exec cmds cc (Some (m_name (ms ! i) @ ''?status'')) w = Some (0, w') \<and>
    (conn \<longrightarrow> world w' = 0)"
proof -
  obtain w0 w' where "log_until_done (mqtt_log conn n (m_context (ms ! i))) w = Some w'"
    and "mqtt_log conn n (m_context (ms ! i)) w0 = (True, w')"
    using log_until_done_ends [of "mqtt_log conn n (m_context (ms ! i))" "\<lambda>b. n - world b" w] mqtt_log_progress by blast
  then show ?thesis
    using common_commands [OF assms(1-4), of cc] assms(5)
    by (auto simp: mqtt_log_def sys_mqtt_log_status_def split: if_splits)
qed

section \<open>Witnesses\<close>

definition demo_mqtt_module :: "nat sys_module" where
  "demo_mqtt_module = (demo_module ''mqtt'' 0 0)\<lparr>m_log := Some (mqtt_log True 45)\<rparr>"

lemma mqtt_status_ends_witness:
  "\<exists>cmds ss b w. sys_modules_init (\<lambda>_ _ _. True) (\<lambda>_. None) [demo_mqtt_module] (Some sys_cmd_init, None, demo_bus) =
      (cmds, ss, b) \<and> cmd_exec cmds demo_ctx (Some ''mqtt?status'') demo_bus = Some (0, w) \<and> world w = 0"
proof -
  obtain cmds ss b where i: "sys_modules_init (\<lambda>_ _ _. True) (\<lambda>_. None) [demo_mqtt_module]
      (Some sys_cmd_init, None, demo_bus) = (cmds, ss, b)"
    by (rule prod_cases3)
  have "names_ok [demo_mqtt_module]" by (simp add: names_ok_def demo_mqtt_module_def demo_module_def MAX_MODULES_def)
  from mqtt_status_ends [OF this _ i, of 0 True 45 demo_ctx demo_bus] i show ?thesis
    by (auto simp: demo_mqtt_module_def demo_module_def)
qed


end
